(* ===== verification/Prelude.thy ===== *)
theory Prelude
  imports Main "HOL-Library.Product_Lexorder" "HOL-Library.Multiset"
begin

text \<open>
  Shared vocabulary of the development: the types that name what the TypeScript code passes
  around, the result type that stands for ``returns or throws'', the few pieces of the
  JavaScript standard library the code uses (safe integers, decimal printing, trimming and
  upper-casing, first-occurrence deduplication), and the generic list lemmas the components
  share.  Nothing here is specific to one component.
\<close>

named_theorems result_simps \<open>rewrite rules for computations that may throw\<close>

section \<open>Types\<close>

text \<open>
  A UUID is read as its 128-bit value: the canonical lower-case text form PostgreSQL returns has
  a fixed length, so comparing two of them as strings (as the code does when it sorts by variant
  id) is comparing these numbers.  Money is an integer number of paise and instants are
  milliseconds since the epoch.  A JavaScript \<open>number\<close> holding an integer is an \<open>int\<close>; where the
  code checks \<open>Number.isSafeInteger\<close> the model checks the same range.
\<close>

type_synonym uuid = nat
type_synonym paise = int
type_synonym millis = int
type_synonym ('e, 'a) result = "'e + 'a"

section \<open>Computations that may throw\<close>

definition rbind :: "('e, 'a) result \<Rightarrow> ('a \<Rightarrow> ('e, 'b) result) \<Rightarrow> ('e, 'b) result" where
  "rbind m f = (case m of Inl e \<Rightarrow> Inl e | Inr x \<Rightarrow> f x)"

lemma rbind_Inl [simp, result_simps]: "rbind (Inl e) f = Inl e"
  by (simp add: rbind_def)

lemma rbind_Inr [simp, result_simps]: "rbind (Inr x) f = f x"
  by (simp add: rbind_def)

lemma rbind_eq_Inr [result_simps]: "rbind m f = Inr y \<longleftrightarrow> (\<exists>x. m = Inr x \<and> f x = Inr y)"
  by (cases m) auto

lemma rbind_eq_Inl [result_simps]:
  "rbind m f = Inl e \<longleftrightarrow> m = Inl e \<or> (\<exists>x. m = Inr x \<and> f x = Inl e)"
  by (cases m) auto

lemma rbind_cong [fundef_cong]:
  "m = m' \<Longrightarrow> (\<And>x. m' = Inr x \<Longrightarrow> f x = f' x) \<Longrightarrow> rbind m f = rbind m' f'"
  by (cases m') auto

lemma rbindE:
  assumes "rbind m f = Inr y"
  obtains x where "m = Inr x" and "f x = Inr y"
  using assms by (auto simp: rbind_eq_Inr)

text \<open>\<open>xs.map(f)\<close> where \<open>f\<close> may throw: the first exception wins.\<close>

fun rmap :: "('a \<Rightarrow> ('e, 'b) result) \<Rightarrow> 'a list \<Rightarrow> ('e, 'b list) result" where
  "rmap f [] = Inr []"
| "rmap f (x # xs) = rbind (f x) (\<lambda>y. rbind (rmap f xs) (\<lambda>ys. Inr (y # ys)))"

lemma rmap_Inr_iff: "rmap f xs = Inr ys \<longleftrightarrow> list_all2 (\<lambda>x y. f x = Inr y) xs ys"
  by (induction xs arbitrary: ys) (auto simp: rbind_eq_Inr list_all2_Cons1)

lemma rmap_length: "rmap f xs = Inr ys \<Longrightarrow> length ys = length xs"
  by (simp add: rmap_Inr_iff list_all2_lengthD)

lemma rmap_total: "(\<And>x. x \<in> set xs \<Longrightarrow> \<exists>y. f x = Inr y) \<Longrightarrow> \<exists>ys. rmap f xs = Inr ys"
  by (induction xs) (auto, metis rbind_Inr)

lemma rmap_map: "(\<And>x. x \<in> set xs \<Longrightarrow> f x = Inr (g x)) \<Longrightarrow> rmap f xs = Inr (map g xs)"
  by (induction xs) auto

text \<open>\<open>for (const x of xs) { s = step(s, x) }\<close> where the body may throw.\<close>

fun rfold :: "('s \<Rightarrow> 'a \<Rightarrow> ('e, 's) result) \<Rightarrow> 's \<Rightarrow> 'a list \<Rightarrow> ('e, 's) result" where
  "rfold f s [] = Inr s"
| "rfold f s (x # xs) = rbind (f s x) (\<lambda>s'. rfold f s' xs)"

lemma rfold_invariant:
  assumes "rfold f s xs = Inr s'" and "P s"
    and "\<And>s x s'. x \<in> set xs \<Longrightarrow> P s \<Longrightarrow> f s x = Inr s' \<Longrightarrow> P s'"
  shows "P s'"
  using assms
proof (induction xs arbitrary: s)
  case Nil
  then show ?case by simp
next
  case (Cons x xs)
  from Cons.prems(1) obtain s1 where s1: "f s x = Inr s1" "rfold f s1 xs = Inr s'"
    by (auto simp: rbind_eq_Inr)
  have "P s1" using Cons.prems(2,3) s1(1) by auto
  with s1(2) show ?case using Cons.IH Cons.prems(3) by (metis list.set_intros(2))
qed

section \<open>Numbers\<close>

definition max_safe_integer :: int where
  "max_safe_integer = 9007199254740991"

definition is_safe_integer :: "int \<Rightarrow> bool" where
  "is_safe_integer x \<longleftrightarrow> - max_safe_integer \<le> x \<and> x \<le> max_safe_integer"

lemma max_safe_integer_pos [simp]: "0 < max_safe_integer" "0 \<le> max_safe_integer"
  by (simp_all add: max_safe_integer_def)

lemma is_safe_integer_0 [simp]: "is_safe_integer 0"
  by (simp add: is_safe_integer_def)

lemma is_safe_integer_between:
  "is_safe_integer b \<Longrightarrow> 0 \<le> a \<Longrightarrow> a \<le> b \<Longrightarrow> is_safe_integer a"
  unfolding is_safe_integer_def max_safe_integer_def by linarith

lemma is_safe_integer_uminus [simp]: "is_safe_integer (- x) = is_safe_integer x"
  by (auto simp: is_safe_integer_def)

lemma int_div_eqI: "(n::int) = q * d + r \<Longrightarrow> 0 \<le> r \<Longrightarrow> r < d \<Longrightarrow> n div d = q"
  by (simp add: div_mult_self3)

lemma int_div_bounds:
  assumes "0 < (n::int)"
  shows "x div n * n \<le> x" "x < (x div n + 1) * n"
proof -
  have "x div n * n + x mod n = x" "0 \<le> x mod n" "x mod n < n" using assms by simp_all
  moreover have "(x div n + 1) * n = x div n * n + n" by (simp add: distrib_right)
  ultimately show "x div n * n \<le> x" "x < (x div n + 1) * n" by linarith+
qed

lemma int_div_lessI:
  assumes "(n::int) < q * d" "0 < d"
  shows "n div d < q"
proof -
  have "n div d * d \<le> n"
    using assms(2) pos_mod_sign[of d n] by (simp add: minus_mod_eq_div_mult[symmetric])
  then have "n div d * d < q * d" using assms(1) by linarith
  then show ?thesis using assms(2) by simp
qed

lemma int_div_succ:
  assumes "0 < (n::int)"
  shows "(x + 1) div n = x div n + (if n dvd x + 1 then 1 else 0)"
proof -
  define q where "q = x div n"
  define r where "r = x mod n"
  have x: "x = q * n + r" and r: "0 \<le> r" "r < n" using assms by (simp_all add: q_def r_def)
  show ?thesis
  proof (cases "r + 1 = n")
    case True
    then have e: "x + 1 = (q + 1) * n" using x by (simp add: algebra_simps)
    then have "n dvd x + 1" by simp
    moreover have "(x + 1) div n = q + 1" using e assms by simp
    ultimately show ?thesis by (simp add: q_def)
  next
    case False
    then have e: "x + 1 = q * n + (r + 1)" "r + 1 < n" using x r by simp_all
    then have "(x + 1) div n = q" by (intro int_div_eqI[of _ _ _ "r + 1"]) (use r in auto)
    moreover have "(x + 1) mod n = r + 1"
      using e r(1) by (metis add_increasing2 mod_mult_self3 mod_pos_pos_trivial zero_le_one)
    then have "\<not> n dvd x + 1" using r(1) by (simp add: dvd_eq_mod_eq_0)
    ultimately show ?thesis by (simp add: q_def)
  qed
qed

section \<open>Lists\<close>

lemma map_fst_enumerate_map: "map fst (map (\<lambda>(i, w). (i, f w)) (enumerate n ws)) = [n..<n + length ws]"
  by (induction ws arbitrary: n) (auto simp: upt_rec)

lemma map_snd_enumerate_map: "map snd (map (\<lambda>(i, w). (i, f w)) (enumerate n ws)) = map f ws"
  by (induction ws arbitrary: n) auto


text \<open>\<open>[...new Set(xs)]\<close> keeps the first occurrence of each element, in order.\<close>

definition js_unique :: "'a list \<Rightarrow> 'a list" where
  "js_unique xs = rev (remdups (rev xs))"

lemma set_js_unique [simp]: "set (js_unique xs) = set xs"
  by (simp add: js_unique_def)

lemma distinct_js_unique [simp]: "distinct (js_unique xs)"
  by (simp add: js_unique_def)

lemma sum_list_map_mono:
  "(\<And>x. x \<in> set xs \<Longrightarrow> f x \<le> g x) \<Longrightarrow> sum_list (map f xs) \<le> (sum_list (map g xs) :: int)"
  by (induction xs) (auto simp: add_mono)

lemma sum_list_nonneg_int: "(\<And>x. x \<in> set xs \<Longrightarrow> (0::int) \<le> f x) \<Longrightarrow> 0 \<le> sum_list (map f xs)"
  by (induction xs) auto

lemma sum_list_map_add_int:
  "sum_list (map (\<lambda>x. f x + g x) xs) = sum_list (map f xs) + (sum_list (map g xs) :: int)"
  by (induction xs) auto

lemma sum_list_list_all2:
  "list_all2 (\<lambda>x y. f x = (g y :: int)) xs ys \<Longrightarrow> sum_list (map f xs) = sum_list (map g ys)"
  by (induction rule: list_all2_induct) auto

lemma member_le_sum_list_int:
  "x \<in> set xs \<Longrightarrow> (\<And>y. y \<in> set xs \<Longrightarrow> 0 \<le> f y) \<Longrightarrow> f x \<le> (sum_list (map f xs) :: int)"
proof (induction xs)
  case (Cons y ys)
  have tail: "0 \<le> sum_list (map f ys)" using Cons.prems(2) by (intro sum_list_nonneg_int) auto
  show ?case
  proof (cases "x = y")
    case True
    then show ?thesis using tail by simp
  next
    case False
    then have "f x \<le> sum_list (map f ys)" using Cons by auto
    then show ?thesis using Cons.prems(2)[of y] by auto
  qed
qed simp

lemma sum_list_list_update:
  "k < length xs \<Longrightarrow> sum_list (xs[k := v]) = sum_list xs - xs ! k + (v :: int)"
  by (induction xs arbitrary: k) (auto split: nat.splits)

text \<open>\<open>UPDATE .. SET f WHERE P\<close> on the rows of a table.\<close>

definition upd :: "('r \<Rightarrow> bool) \<Rightarrow> ('r \<Rightarrow> 'r) \<Rightarrow> 'r list \<Rightarrow> 'r list" where
  "upd P f rows = map (\<lambda>r. if P r then f r else r) rows"

lemma upd_Nil [simp]: "upd P f [] = []"
  by (simp add: upd_def)

lemma upd_Cons [simp]: "upd P f (r # rs) = (if P r then f r else r) # upd P f rs"
  by (simp add: upd_def)

lemma length_upd [simp]: "length (upd P f rows) = length rows"
  by (simp add: upd_def)

lemma map_upd: "(\<And>r. g (f r) = g r) \<Longrightarrow> map g (upd P f rows) = map g rows"
  by (induction rows) auto

lemma set_updE:
  assumes "r \<in> set (upd P f rows)"
  obtains "r \<in> set rows" "\<not> P r" | r0 where "r0 \<in> set rows" "P r0" "r = f r0"
  using assms by (auto simp: upd_def split: if_splits)

lemma upd_noop: "(\<And>r. r \<in> set rows \<Longrightarrow> \<not> P r) \<Longrightarrow> upd P f rows = rows"
  by (induction rows) auto

lemma find_upd:
  "(\<And>r. Q (f r) = Q r) \<Longrightarrow> find Q (upd P f rows) = map_option (\<lambda>r. if P r then f r else r) (find Q rows)"
  by (induction rows) auto

lemma find_eq_Some: "find Q rows = Some r \<Longrightarrow> r \<in> set rows \<and> Q r"
  by (induction rows) (auto split: if_splits)

lemma find_None_set: "find Q rows = None \<longleftrightarrow> (\<forall>r \<in> set rows. \<not> Q r)"
  by (auto simp: find_None_iff)

lemma find_append: "find Q (rows @ rows') = (case find Q rows of Some r \<Rightarrow> Some r | None \<Rightarrow> find Q rows')"
  by (induction rows) auto

text \<open>What comes before the first separator is determined.\<close>

lemma separator_split:
  "c \<notin> set xs \<Longrightarrow> c \<notin> set ys \<Longrightarrow> xs @ c # r = ys @ c # s \<Longrightarrow> xs = ys \<and> r = s"
proof (induction xs arbitrary: ys)
  case Nil
  then show ?case by (cases ys) auto
next
  case (Cons x xs)
  then show ?case by (cases ys) auto
qed

section \<open>Strings\<close>

text \<open>
  Strings are lists of ASCII characters.  \<open>trim\<close> removes the ASCII white space that
  \<open>String.prototype.trim\<close> removes; \<open>to_upper\<close> is \<open>toUpperCase\<close> on ASCII.
\<close>

definition is_space :: "char \<Rightarrow> bool" where
  "is_space c \<longleftrightarrow> c \<in> {CHR '' '', CHR 0x09, CHR 0x0A, CHR 0x0B, CHR 0x0C, CHR 0x0D}"

definition trim :: "string \<Rightarrow> string" where
  "trim s = rev (dropWhile is_space (rev (dropWhile is_space s)))"

definition char_upper :: "char \<Rightarrow> char" where
  "char_upper c = (if 97 \<le> (of_char c :: nat) \<and> (of_char c :: nat) \<le> 122 then char_of (of_char c - 32 :: nat) else c)"

definition to_upper :: "string \<Rightarrow> string" where
  "to_upper s = map char_upper s"

lemma char_upper_idem [simp]: "char_upper (char_upper c) = char_upper c"
  by (auto simp: char_upper_def)

lemma to_upper_idem [simp]: "to_upper (to_upper s) = to_upper s"
  by (simp add: to_upper_def)

lemma length_to_upper [simp]: "length (to_upper s) = length s"
  by (simp add: to_upper_def)

text \<open>\<open>s?.trim() || null\<close>.\<close>

definition trim_or_null :: "string option \<Rightarrow> string option" where
  "trim_or_null s = (case s of None \<Rightarrow> None | Some x \<Rightarrow> if trim x = [] then None else Some (trim x))"

text \<open>Decimal printing (\<open>String(n)\<close> of a non-negative integer) and reading it back.\<close>

definition digit_char :: "nat \<Rightarrow> char" where
  "digit_char d = char_of (48 + d)"

fun show_nat :: "nat \<Rightarrow> string" where
  "show_nat n = (if n < 10 then [digit_char n] else show_nat (n div 10) @ [digit_char (n mod 10)])"

declare show_nat.simps [simp del]

definition is_digit :: "char \<Rightarrow> bool" where
  "is_digit c \<longleftrightarrow> 48 \<le> (of_char c :: nat) \<and> (of_char c :: nat) \<le> 57"

definition read_nat :: "string \<Rightarrow> nat" where
  "read_nat s = foldl (\<lambda>n c. 10 * n + (of_char c - 48)) 0 s"

definition pad_start :: "nat \<Rightarrow> char \<Rightarrow> string \<Rightarrow> string" where
  "pad_start n c s = replicate (n - length s) c @ s"

definition show_int :: "int \<Rightarrow> string" where
  "show_int i = (if i < 0 then CHR ''-'' # show_nat (nat (- i)) else show_nat (nat i))"

text \<open>\<open>BigInt\<close> division truncates towards zero and \<open>%\<close> takes the sign of the dividend.\<close>

definition js_div :: "int \<Rightarrow> int \<Rightarrow> int" where
  "js_div a b = sgn a * sgn b * (\<bar>a\<bar> div \<bar>b\<bar>)"

definition js_rem :: "int \<Rightarrow> int \<Rightarrow> int" where
  "js_rem a b = sgn a * (\<bar>a\<bar> mod \<bar>b\<bar>)"

lemma js_div_nonneg [simp]: "0 \<le> a \<Longrightarrow> 0 < b \<Longrightarrow> js_div a b = a div b"
  by (cases "a = 0") (simp_all add: js_div_def)

lemma js_rem_nonneg [simp]: "0 \<le> a \<Longrightarrow> 0 < b \<Longrightarrow> js_rem a b = a mod b"
  by (cases "a = 0") (simp_all add: js_rem_def)

lemma of_char_digit_char: "d < 10 \<Longrightarrow> (of_char (digit_char d) :: nat) = 48 + d"
  by (simp add: digit_char_def)

lemma is_digit_digit_char [simp]: "d < 10 \<Longrightarrow> is_digit (digit_char d)"
  by (simp add: is_digit_def of_char_digit_char)

lemma read_nat_snoc: "read_nat (s @ [c]) = 10 * read_nat s + (of_char c - 48)"
  by (simp add: read_nat_def)

lemma read_show_nat [simp]: "read_nat (show_nat n) = n"
proof (induction n rule: show_nat.induct)
  case (1 n)
  show ?case
  proof (cases "n < 10")
    case True
    then show ?thesis by (simp add: show_nat.simps[of n] read_nat_def of_char_digit_char)
  next
    case False
    with 1 show ?thesis
      by (simp add: show_nat.simps[of n] read_nat_snoc of_char_digit_char)
  qed
qed

lemma show_nat_digits: "c \<in> set (show_nat n) \<Longrightarrow> is_digit c"
proof (induction n rule: show_nat.induct)
  case (1 n)
  then show ?case by (subst (asm) show_nat.simps) (auto split: if_splits)
qed

lemma show_nat_nonempty [simp]: "show_nat n \<noteq> []"
  by (subst show_nat.simps) simp

lemma show_nat_inject [simp]: "show_nat m = show_nat n \<longleftrightarrow> m = n"
  by (metis read_show_nat)

lemma read_nat_pad: "read_nat (pad_start k (CHR ''0'') s) = read_nat s"
proof -
  have "foldl (\<lambda>n c. 10 * n + (of_char c - 48)) 0 (replicate m (CHR ''0'')) = (0::nat)" for m
    by (induction m) auto
  then show ?thesis by (simp add: pad_start_def read_nat_def)
qed

lemma show_nat_not_minus: "CHR ''-'' \<notin> set (show_nat n)"
  using show_nat_digits[of "CHR ''-''" n] by (auto simp: is_digit_def)

lemma show_int_inject: "show_int m = show_int n \<longleftrightarrow> m = n"
proof -
  have minus: "CHR ''-'' # xs \<noteq> show_nat k" "show_nat k \<noteq> CHR ''-'' # xs" for xs k
    using show_nat_not_minus[of k] by (metis list.set_intros(1))+
  show ?thesis by (auto simp: show_int_def minus split: if_splits)
qed

lemma digit_not_space: "is_digit c \<Longrightarrow> \<not> is_space c"
  by (auto simp: is_digit_def is_space_def)

lemma digit_not [simp]: "\<not> is_digit (CHR '','')" "\<not> is_digit (CHR ''.'')" "\<not> is_digit (CHR ''-'')" "\<not> is_digit (CHR ''$'')"
  by (simp_all add: is_digit_def)

lemma trim_no_space: "list_all (\<lambda>c. \<not> is_space c) s \<Longrightarrow> trim s = s"
proof -
  assume a: "list_all (\<lambda>c. \<not> is_space c) s"
  have "dropWhile is_space t = t" if "list_all (\<lambda>c. \<not> is_space c) t" for t
    using that by (cases t) simp_all
  moreover have "list_all (\<lambda>c. \<not> is_space c) (rev s)" using a by simp
  ultimately show ?thesis using a by (simp add: trim_def)
qed

text \<open>\<open>toLowerCase\<close> on ASCII, letters and digits.\<close>

definition char_lower :: "char \<Rightarrow> char" where
  "char_lower c = (if 65 \<le> (of_char c :: nat) \<and> (of_char c :: nat) \<le> 90 then char_of (of_char c + 32 :: nat) else c)"

definition to_lower :: "string \<Rightarrow> string" where
  "to_lower s = map char_lower s"

definition is_alnum :: "char \<Rightarrow> bool" where
  "is_alnum c \<longleftrightarrow> is_digit c \<or> (65 \<le> (of_char c :: nat) \<and> (of_char c :: nat) \<le> 90) \<or> (97 \<le> (of_char c :: nat) \<and> (of_char c :: nat) \<le> 122)"

lemma of_char_lower:
  "(of_char (char_lower c) :: nat) = (if 65 \<le> (of_char c :: nat) \<and> (of_char c :: nat) \<le> 90 then of_char c + 32 else of_char c)"
  by (simp add: char_lower_def)

lemma char_lower_idem [simp]: "char_lower (char_lower c) = char_lower c"
  by (auto simp: char_lower_def)

lemma to_lower_idem [simp]: "to_lower (to_lower s) = to_lower s"
  by (simp add: to_lower_def)

lemma length_to_lower [simp]: "length (to_lower s) = length s"
  by (simp add: to_lower_def)

text \<open>What \<open>trim\<close> keeps: text that neither starts nor ends with a blank.\<close>

definition trimmed :: "string \<Rightarrow> bool" where
  "trimmed s \<longleftrightarrow> s = [] \<or> \<not> is_space (hd s) \<and> \<not> is_space (last s)"

lemma trim_trimmed: "trimmed s \<Longrightarrow> trim s = s"
proof (cases s)
  case (Cons c cs)
  assume t: "trimmed s"
  have 1: "dropWhile is_space s = s" using t Cons by (simp add: trimmed_def)
  have "\<not> is_space (last s)" using t Cons by (simp add: trimmed_def)
  then have "dropWhile is_space (rev s) = rev s" by (cases s rule: rev_cases) auto
  then show ?thesis using 1 by (simp add: trim_def)
qed (simp add: trim_def)

text \<open>\<open>parts.join(sep)\<close>.\<close>

fun join_with :: "string \<Rightarrow> string list \<Rightarrow> string" where
  "join_with sep [] = []"
| "join_with sep [x] = x"
| "join_with sep (x # y # r) = x @ sep @ join_with sep (y # r)"

text \<open>A row is determined by its key.\<close>

lemma distinct_map_eq: "distinct (map f xs) \<Longrightarrow> x \<in> set xs \<Longrightarrow> y \<in> set xs \<Longrightarrow> f x = f y \<Longrightarrow> x = y"
  by (auto simp: distinct_map inj_on_def)

end
