(* ===== verification/Errors.thy ===== *)
theory Errors
  imports Prelude
begin

text \<open>
  What the code throws (\<open>packages/core/src/errors.ts\<close> and the typed errors of
  \<open>inventory/server.ts\<close>).  An \<open>AppError\<close> is kept with its machine-readable code, its HTTP status
  and the field paths of its \<open>details.issues\<close>; the prose of the messages is not modelled.  A
  PostgreSQL error is its SQLSTATE with the name of the violated constraint, which is what the
  handlers test.  A plain \<open>Error\<close> is a tag.
\<close>

datatype err =
    AppError string nat "string list"
  | StockHeldError int int
  | InsufficientStockError int int
  | InsufficientAvailabilityError "(uuid \<times> int \<times> int) list"
  | ConsumeShortfallError uuid int err
  | PgError string string
  | JsError string

type_synonym 'a res = "err + 'a"

text \<open>\<open>err instanceof AppError\<close>: the subclasses of \<open>AppError\<close> are the first four constructors.\<close>

fun is_app_error :: "err \<Rightarrow> bool" where
  "is_app_error (AppError _ _ _) = True"
| "is_app_error (StockHeldError _ _) = True"
| "is_app_error (InsufficientStockError _ _) = True"
| "is_app_error (InsufficientAvailabilityError _) = True"
| "is_app_error _ = False"

fun err_code :: "err \<Rightarrow> string option" where
  "err_code (AppError c _ _) = Some c"
| "err_code (StockHeldError _ _) = Some ''stock_held''"
| "err_code (InsufficientStockError _ _) = Some ''insufficient_stock''"
| "err_code (InsufficientAvailabilityError _) = Some ''insufficient_stock''"
| "err_code _ = None"

fun err_status :: "err \<Rightarrow> nat option" where
  "err_status (AppError _ st _) = Some st"
| "err_status (StockHeldError _ _) = Some 422"
| "err_status (InsufficientStockError _ _) = Some 422"
| "err_status (InsufficientAvailabilityError _) = Some 422"
| "err_status _ = None"

text \<open>
  \<open>pgError\<close>: walk the \<open>cause\<close> chain for the root PostgreSQL code and text.  Only
  \<open>ConsumeShortfallError\<close> carries a cause here.
\<close>

fun pgError :: "err \<Rightarrow> (string \<times> string) option" where
  "pgError (PgError code text) = Some (code, text)"
| "pgError (ConsumeShortfallError _ _ cause) = pgError cause"
| "pgError _ = None"

text \<open>The refusals the modules share.\<close>

definition invalidPayload :: "string list \<Rightarrow> err" where
  "invalidPayload paths = AppError ''invalid_payload'' 422 paths"

definition notFound :: err where
  "notFound = AppError ''not_found'' 404 []"

definition concurrentModification :: err where
  "concurrentModification = AppError ''concurrent_modification'' 409 []"

definition checkViolation :: "string \<Rightarrow> err" where
  "checkViolation c = PgError ''23514'' c"

definition uniqueViolation :: "string \<Rightarrow> err" where
  "uniqueViolation c = PgError ''23505'' c"

text \<open>A guard that throws: \<open>if (!ok) throw e\<close>.\<close>

definition ensure :: "bool \<Rightarrow> err \<Rightarrow> unit res" where
  "ensure ok e = (if ok then Inr () else Inl e)"

lemma ensure_True [simp, result_simps]: "ensure True e = Inr ()"
  by (simp add: ensure_def)

lemma ensure_False [simp, result_simps]: "ensure False e = Inl e"
  by (simp add: ensure_def)

lemma ensure_Inr [simp, result_simps]: "ensure ok e = Inr u \<longleftrightarrow> ok"
  by (simp add: ensure_def)

lemma ensure_Inl [simp, result_simps]: "ensure ok e = Inl e' \<longleftrightarrow> \<not> ok \<and> e' = e"
  by (auto simp: ensure_def)

end
