(* ===== verification/Tx.thy ===== *)
theory Tx
  imports Errors
begin

text \<open>
  Transactions.  A function of the code that takes a \<open>tx\<close> runs inside its caller's database
  transaction: it reads and writes the state and may throw.  It is a function from the state to
  an error or to a result with the new state, so a throw carries no state out and the rollback of
  the surrounding transaction is the absence of one.  \<open>withTenant\<close> commits: an action returns its
  error or result together with the state the database is left in.

  The second half is a small logic for postconditions and invariants of such programs, applied
  rule by rule along their structure.
\<close>

type_synonym ('s, 'a) action = "'s \<Rightarrow> 'a res \<times> 's"

type_synonym ('s, 'a) tx = "'s \<Rightarrow> ('a \<times> 's) res"

definition treturn :: "'a \<Rightarrow> ('s, 'a) tx" where
  "treturn x = (\<lambda>s. Inr (x, s))"

definition tthrow :: "err \<Rightarrow> ('s, 'a) tx" where
  "tthrow e = (\<lambda>s. Inl e)"

definition tbind :: "('s, 'a) tx \<Rightarrow> ('a \<Rightarrow> ('s, 'b) tx) \<Rightarrow> ('s, 'b) tx" where
  "tbind m f = (\<lambda>s. case m s of Inl e \<Rightarrow> Inl e | Inr (x, s') \<Rightarrow> f x s')"

definition tread :: "('s \<Rightarrow> 'a) \<Rightarrow> ('s, 'a) tx" where
  "tread f = (\<lambda>s. Inr (f s, s))"

definition twrite :: "('s \<Rightarrow> 's) \<Rightarrow> ('s, unit) tx" where
  "twrite f = (\<lambda>s. Inr ((), f s))"

definition tguard :: "bool \<Rightarrow> err \<Rightarrow> ('s, unit) tx" where
  "tguard ok e = (\<lambda>s. if ok then Inr ((), s) else Inl e)"

definition tlift :: "'a res \<Rightarrow> ('s, 'a) tx" where
  "tlift r = (\<lambda>s. case r of Inl e \<Rightarrow> Inl e | Inr x \<Rightarrow> Inr (x, s))"

text \<open>\<open>for (const x of xs) { ... }\<close> collecting what each round returns.\<close>

fun tfor :: "'a list \<Rightarrow> ('a \<Rightarrow> ('s, 'b) tx) \<Rightarrow> ('s, 'b list) tx" where
  "tfor [] f = treturn []"
| "tfor (x # xs) f = tbind (f x) (\<lambda>y. tbind (tfor xs f) (\<lambda>ys. treturn (y # ys)))"

text \<open>\<open>try { m } catch (e) { throw h(e) }\<close> inside a transaction that is lost either way.\<close>

definition trethrow :: "('s, 'a) tx \<Rightarrow> (err \<Rightarrow> err) \<Rightarrow> ('s, 'a) tx" where
  "trethrow m h = (\<lambda>s. case m s of Inl e \<Rightarrow> Inl (h e) | Inr r \<Rightarrow> Inr r)"

text \<open>\<open>withTenant(tenantId, m)\<close>: commit on return, roll back on a throw.\<close>

definition commit :: "('s, 'a) tx \<Rightarrow> ('s, 'a) action" where
  "commit m = (\<lambda>s. case m s of Inl e \<Rightarrow> (Inl e, s) | Inr (x, s') \<Rightarrow> (Inr x, s'))"

definition areturn :: "'a \<Rightarrow> ('s, 'a) action" where
  "areturn x = (\<lambda>s. (Inr x, s))"

definition alift :: "'a res \<Rightarrow> ('s, 'a) action" where
  "alift r = (\<lambda>s. (r, s))"

definition athrow :: "err \<Rightarrow> ('s, 'a) action" where
  "athrow e = (\<lambda>s. (Inl e, s))"

text \<open>Sequencing transactions: a later one starts from what the earlier ones left.\<close>

definition abind :: "('s, 'a) action \<Rightarrow> ('a \<Rightarrow> ('s, 'b) action) \<Rightarrow> ('s, 'b) action" where
  "abind m f = (\<lambda>s. case m s of (Inl e, s') \<Rightarrow> (Inl e, s') | (Inr x, s') \<Rightarrow> f x s')"

text \<open>\<open>try { m } catch (e) { h(e) }\<close> around whole transactions.\<close>

definition acatch :: "('s, 'a) action \<Rightarrow> (err \<Rightarrow> ('s, 'a) action) \<Rightarrow> ('s, 'a) action" where
  "acatch m h = (\<lambda>s. case m s of (Inl e, s') \<Rightarrow> h e s' | (Inr x, s') \<Rightarrow> (Inr x, s'))"

section \<open>Computing\<close>

named_theorems tx_simps \<open>unfolding a transaction on a given state\<close>

lemma treturn_run [simp, tx_simps]: "treturn x s = Inr (x, s)"
  by (simp add: treturn_def)

lemma tthrow_run [simp, tx_simps]: "tthrow e s = Inl e"
  by (simp add: tthrow_def)

lemma tread_run [simp, tx_simps]: "tread f s = Inr (f s, s)"
  by (simp add: tread_def)

lemma twrite_run [simp, tx_simps]: "twrite f s = Inr ((), f s)"
  by (simp add: twrite_def)

lemma tguard_run [simp, tx_simps]: "tguard ok e s = (if ok then Inr ((), s) else Inl e)"
  by (simp add: tguard_def)

lemma tlift_run [simp, tx_simps]: "tlift r s = (case r of Inl e \<Rightarrow> Inl e | Inr x \<Rightarrow> Inr (x, s))"
  by (simp add: tlift_def)

lemma tbind_run [tx_simps]: "tbind m f s = (case m s of Inl e \<Rightarrow> Inl e | Inr (x, s') \<Rightarrow> f x s')"
  by (simp add: tbind_def)

lemma tbind_Inr [tx_simps]: "m s = Inr (x, s') \<Longrightarrow> tbind m f s = f x s'"
  by (simp add: tbind_def)

lemma tbind_Inl [tx_simps]: "m s = Inl e \<Longrightarrow> tbind m f s = Inl e"
  by (simp add: tbind_def)

lemma tbind_eq_Inr:
  "tbind m f s = Inr r \<longleftrightarrow> (\<exists>x s'. m s = Inr (x, s') \<and> f x s' = Inr r)"
  by (auto simp: tbind_def split: sum.splits)

lemma tbind_cong [fundef_cong]:
  "m s = m' s' \<Longrightarrow> (\<And>x t. m' s' = Inr (x, t) \<Longrightarrow> f x t = f' x t) \<Longrightarrow> tbind m f s = tbind m' f' s'"
  by (auto simp: tbind_def split: sum.splits)

lemma commit_Inr: "m s = Inr (x, s') \<Longrightarrow> commit m s = (Inr x, s')"
  by (simp add: commit_def)

lemma commit_Inl: "m s = Inl e \<Longrightarrow> commit m s = (Inl e, s)"
  by (simp add: commit_def)

lemma commit_cases:
  obtains x s' where "m s = Inr (x, s')" "commit m s = (Inr x, s')"
  | e where "m s = Inl e" "commit m s = (Inl e, s)"
  by (cases "m s") (auto simp: commit_def)

section \<open>Postconditions\<close>

definition hoare :: "('s \<Rightarrow> bool) \<Rightarrow> ('s, 'a) tx \<Rightarrow> ('a \<Rightarrow> 's \<Rightarrow> bool) \<Rightarrow> bool" where
  "hoare P m Q \<longleftrightarrow> (\<forall>s x s'. P s \<longrightarrow> m s = Inr (x, s') \<longrightarrow> Q x s')"

definition keeps :: "('s \<Rightarrow> bool) \<Rightarrow> ('s, 'a) tx \<Rightarrow> bool" where
  "keeps I m \<longleftrightarrow> hoare I m (\<lambda>_. I)"

definition akeeps :: "('s \<Rightarrow> bool) \<Rightarrow> ('s, 'a) action \<Rightarrow> bool" where
  "akeeps I m \<longleftrightarrow> (\<forall>s. I s \<longrightarrow> I (snd (m s)))"

named_theorems keeps_rules \<open>invariants along the structure of a transaction\<close>

lemma hoareD: "hoare P m Q \<Longrightarrow> P s \<Longrightarrow> m s = Inr (x, s') \<Longrightarrow> Q x s'"
  by (auto simp: hoare_def)

lemma hoareI: "(\<And>s x s'. P s \<Longrightarrow> m s = Inr (x, s') \<Longrightarrow> Q x s') \<Longrightarrow> hoare P m Q"
  by (auto simp: hoare_def)

lemma hoare_bind: "hoare P m R \<Longrightarrow> (\<And>x. hoare (R x) (f x) Q) \<Longrightarrow> hoare P (tbind m f) Q"
proof (rule hoareI)
  fix s y s'
  assume m: "hoare P m R" "\<And>x. hoare (R x) (f x) Q" "P s" "tbind m f s = Inr (y, s')"
  from m(4) obtain x s1 where x: "m s = Inr (x, s1)" "f x s1 = Inr (y, s')" by (auto simp: tbind_eq_Inr)
  show "Q y s'" by (rule hoareD[OF m(2) hoareD[OF m(1,3) x(1)] x(2)])
qed

lemma keepsI: "(\<And>s x s'. I s \<Longrightarrow> m s = Inr (x, s') \<Longrightarrow> I s') \<Longrightarrow> keeps I m"
  by (auto simp: keeps_def hoare_def)

lemma keepsD: "keeps I m \<Longrightarrow> I s \<Longrightarrow> m s = Inr (x, s') \<Longrightarrow> I s'"
  by (auto simp: keeps_def hoare_def)

lemma keeps_bind [keeps_rules]: "keeps I m \<Longrightarrow> (\<And>x. keeps I (f x)) \<Longrightarrow> keeps I (tbind m f)"
  unfolding keeps_def by (rule hoare_bind)

lemma keeps_return [keeps_rules]: "keeps I (treturn x)"
  by (simp add: keeps_def hoare_def)

lemma keeps_throw [keeps_rules]: "keeps I (tthrow e)"
  by (simp add: keeps_def hoare_def)

lemma keeps_read [keeps_rules]: "keeps I (tread f)"
  by (simp add: keeps_def hoare_def)

lemma keeps_guard [keeps_rules]: "keeps I (tguard ok e)"
  by (simp add: keeps_def hoare_def)

lemma keeps_lift [keeps_rules]: "keeps I (tlift r)"
  by (auto simp: keeps_def hoare_def split: sum.splits)

lemma keeps_write: "(\<And>s. I s \<Longrightarrow> I (f s)) \<Longrightarrow> keeps I (twrite f)"
  by (simp add: keeps_def hoare_def)

lemma keeps_for [keeps_rules]: "(\<And>x. x \<in> set xs \<Longrightarrow> keeps I (f x)) \<Longrightarrow> keeps I (tfor xs f)"
  by (induction xs) (auto intro!: keeps_bind keeps_return)

lemma keeps_rethrow [keeps_rules]: "keeps I m \<Longrightarrow> keeps I (trethrow m h)"
  by (auto simp: keeps_def hoare_def trethrow_def split: sum.splits)

lemma keeps_if [keeps_rules]: "(b \<Longrightarrow> keeps I m) \<Longrightarrow> (\<not> b \<Longrightarrow> keeps I m') \<Longrightarrow> keeps I (if b then m else m')"
  by simp

lemma keeps_case_option [keeps_rules]:
  "(x = None \<Longrightarrow> keeps I m) \<Longrightarrow> (\<And>y. x = Some y \<Longrightarrow> keeps I (f y)) \<Longrightarrow>
   keeps I (case x of None \<Rightarrow> m | Some y \<Rightarrow> f y)"
  by (cases x) auto

lemma keeps_case_sum [keeps_rules]:
  "(\<And>a. x = Inl a \<Longrightarrow> keeps I (f a)) \<Longrightarrow> (\<And>b. x = Inr b \<Longrightarrow> keeps I (g b)) \<Longrightarrow>
   keeps I (case x of Inl a \<Rightarrow> f a | Inr b \<Rightarrow> g b)"
  by (cases x) auto

lemma keeps_case_prod [keeps_rules]: "(\<And>a b. x = (a, b) \<Longrightarrow> keeps I (f a b)) \<Longrightarrow> keeps I (case x of (a, b) \<Rightarrow> f a b)"
  by (cases x) auto

lemma akeeps_commit [keeps_rules]: "keeps I m \<Longrightarrow> akeeps I (commit m)"
  by (auto simp: keeps_def hoare_def akeeps_def commit_def split: sum.split)

lemma akeeps_return [keeps_rules]: "akeeps I (areturn x)"
  by (simp add: akeeps_def areturn_def)

lemma akeeps_lift [keeps_rules]: "akeeps I (alift r)"
  by (simp add: akeeps_def alift_def)

lemma akeeps_throw [keeps_rules]: "akeeps I (athrow e)"
  by (simp add: akeeps_def athrow_def)

lemma akeeps_bind [keeps_rules]: "akeeps I m \<Longrightarrow> (\<And>x. akeeps I (f x)) \<Longrightarrow> akeeps I (abind m f)"
  unfolding akeeps_def abind_def by (simp split: prod.split sum.split) (metis snd_conv)

lemma akeeps_bind_lift: "(\<And>x. r = Inr x \<Longrightarrow> akeeps I (f x)) \<Longrightarrow> akeeps I (abind (alift r) f)"
  by (cases r) (simp_all add: akeeps_def abind_def alift_def)

lemma akeeps_catch [keeps_rules]: "akeeps I m \<Longrightarrow> (\<And>e. akeeps I (h e)) \<Longrightarrow> akeeps I (acatch m h)"
  unfolding akeeps_def acatch_def by (simp split: prod.split sum.split) (metis snd_conv)

lemma akeeps_if [keeps_rules]: "(b \<Longrightarrow> akeeps I m) \<Longrightarrow> (\<not> b \<Longrightarrow> akeeps I m') \<Longrightarrow> akeeps I (if b then m else m')"
  by simp

lemma akeeps_case_prod [keeps_rules]: "(\<And>a b. x = (a, b) \<Longrightarrow> akeeps I (f a b)) \<Longrightarrow> akeeps I (case x of (a, b) \<Rightarrow> f a b)"
  by (cases x) auto

lemma akeeps_case_sum [keeps_rules]:
  "(\<And>a. x = Inl a \<Longrightarrow> akeeps I (f a)) \<Longrightarrow> (\<And>b. x = Inr b \<Longrightarrow> akeeps I (g b)) \<Longrightarrow>
   akeeps I (case x of Inl a \<Rightarrow> f a | Inr b \<Rightarrow> g b)"
  by (cases x) auto

lemma akeeps_case_option [keeps_rules]:
  "(x = None \<Longrightarrow> akeeps I m) \<Longrightarrow> (\<And>y. x = Some y \<Longrightarrow> akeeps I (f y)) \<Longrightarrow>
   akeeps I (case x of None \<Rightarrow> m | Some y \<Rightarrow> f y)"
  by (cases x) auto

lemma akeepsD: "akeeps I m \<Longrightarrow> I s \<Longrightarrow> I (snd (m s))"
  by (simp add: akeeps_def)

text \<open>What holds in every round of a loop and for what the rounds return.\<close>

lemma hoare_for:
  assumes "\<And>x. x \<in> set xs \<Longrightarrow> hoare I (f x) (\<lambda>y s. I s \<and> R x y)"
  shows "hoare I (tfor xs f) (\<lambda>ys s. I s \<and> list_all2 R xs ys)"
  using assms
proof (induction xs)
  case Nil
  then show ?case by (simp add: hoare_def)
next
  case (Cons x xs)
  have 1: "hoare I (f x) (\<lambda>y s. I s \<and> R x y)" by (rule Cons.prems) simp
  have 2: "hoare I (tfor xs f) (\<lambda>ys s. I s \<and> list_all2 R xs ys)"
    by (rule Cons.IH) (auto intro: Cons.prems)
  show ?case
  proof (rule hoareI)
    fix s r s' assume "I s" "tfor (x # xs) f s = Inr (r, s')"
    then obtain y s1 ys where "f x s = Inr (y, s1)" "tfor xs f s1 = Inr (ys, s')" "r = y # ys"
      by (auto simp: tbind_eq_Inr)
    then show "I s' \<and> list_all2 R (x # xs) r"
      using hoareD[OF 1 \<open>I s\<close>] hoareD[OF 2] by fastforce
  qed
qed

lemma tfor_length: "tfor xs f s = Inr (ys, s') \<Longrightarrow> length ys = length xs"
  by (induction xs arbitrary: s ys) (auto simp: tbind_eq_Inr)

end
