(* ===== verification/Enums.thy ===== *)
theory Enums
  imports Prelude
begin

text \<open>
  The closed vocabularies of \<open>packages/db/src/schema/enums.ts\<close>: every text column of the schema
  that a CHECK constraint restricts to a list becomes a datatype with one constructor per
  value, prefixed where two lists share a word.
\<close>

datatype tax_registration_type = unregistered | regular | composition

datatype role = owner | manager | catalog_manager | order_processor | cashier

datatype actor_type = staff | customer_actor | system | support_impersonation

datatype product_status = product_draft | product_active | product_archived

datatype carrier_code =
    shiprocket | shipmozo | nimbuspost | ekart | delhivery | bluedart | xpressbees | dtdc
  | ecom_express | fake

datatype stock_movement_reason = opening_balance | adjustment | sale | cancellation_restock

datatype order_status =
    pending_payment | confirmed | processing | ready_to_ship | shipped | out_for_delivery
  | delivered | rto_initiated | rto_delivered | return_requested | return_picked | refunded
  | cancelled | abandoned

datatype order_payment_status =
    ops_pending | ops_partially_paid | ops_paid | ops_refund_initiated | ops_refunded

datatype order_fulfilment_status =
    ful_unfulfilled | ful_partially_shipped | ful_shipped | ful_delivered | ful_rto

datatype order_channel = web | pos | whatsapp | manual

datatype checkout_payment_mode = prepaid | cod | cod_advance

datatype cart_status = cart_active | cart_converted

datatype payment_provider_code = razorpay | mock

datatype payment_status = pay_created | pay_authorized | pay_captured | pay_failed

datatype refund_status = refund_pending | refund_processing | refund_processed | refund_failed

datatype invoice_doc_type = tax_invoice | bill_of_supply

datatype promotion_status = promo_draft | promo_active | promo_archived

datatype order_line_kind = item_line | shipping_line

text \<open>
  The order statuses in the order of \<open>ORDER_STATUSES\<close>.  The list is the domain of the state
  machine, so it is also the enumeration of the type: claims over all statuses compute.
\<close>

definition ORDER_STATUSES :: "order_status list" where
  "ORDER_STATUSES =
    [pending_payment, confirmed, processing, ready_to_ship, shipped, out_for_delivery, delivered,
     rto_initiated, rto_delivered, return_requested, return_picked, refunded, cancelled, abandoned]"

lemma set_ORDER_STATUSES [simp]: "set ORDER_STATUSES = UNIV"
proof -
  have "s \<in> set ORDER_STATUSES" for s by (cases s) (simp_all add: ORDER_STATUSES_def)
  then show ?thesis by blast
qed

text \<open>The words the database and the audit trail hold for the statuses.\<close>

fun order_status_text :: "order_status \<Rightarrow> string" where
  "order_status_text pending_payment = ''pending_payment''"
| "order_status_text confirmed = ''confirmed''"
| "order_status_text processing = ''processing''"
| "order_status_text ready_to_ship = ''ready_to_ship''"
| "order_status_text shipped = ''shipped''"
| "order_status_text out_for_delivery = ''out_for_delivery''"
| "order_status_text delivered = ''delivered''"
| "order_status_text rto_initiated = ''rto_initiated''"
| "order_status_text rto_delivered = ''rto_delivered''"
| "order_status_text return_requested = ''return_requested''"
| "order_status_text return_picked = ''return_picked''"
| "order_status_text refunded = ''refunded''"
| "order_status_text cancelled = ''cancelled''"
| "order_status_text abandoned = ''abandoned''"

fun payment_status_text :: "order_payment_status \<Rightarrow> string" where
  "payment_status_text ops_pending = ''pending''"
| "payment_status_text ops_partially_paid = ''partially_paid''"
| "payment_status_text ops_paid = ''paid''"
| "payment_status_text ops_refund_initiated = ''refund_initiated''"
| "payment_status_text ops_refunded = ''refunded''"

fun payment_mode_text :: "checkout_payment_mode \<Rightarrow> string" where
  "payment_mode_text prepaid = ''prepaid''"
| "payment_mode_text cod = ''cod''"
| "payment_mode_text cod_advance = ''cod_advance''"

instantiation order_status :: enum
begin

definition "enum_order_status = ORDER_STATUSES"

definition "enum_all_order_status P = list_all P ORDER_STATUSES"

definition "enum_ex_order_status P = list_ex P ORDER_STATUSES"

instance
  by standard
    (simp_all add: enum_order_status_def enum_all_order_status_def enum_ex_order_status_def
      list_all_iff list_ex_iff, simp add: ORDER_STATUSES_def)

end

end
