(* ===== verification/Settings.thy ===== *)
theory Settings
  imports Prelude
begin

text \<open>
  The tenant's \<open>store_settings\<close> rows (\<open>packages/db/src/schema/store.ts\<close>): a key with a jsonb
  value.  The readers of the code validate what they find and fall back to a default, so the
  value is kept as the JSON it is.  A number is an integer, or some other number the readers
  only test for not being a safe integer.
\<close>

datatype json =
    JNull
  | JBool bool
  | JNumber int
  | JFractional
  | JString string
  | JArray "json list"
  | JObject "(string \<times> json) list"

type_synonym store_settings = "(string \<times> json) list"

definition read_setting :: "store_settings \<Rightarrow> string \<Rightarrow> json option" where
  "read_setting settings key = map_of settings key"

text \<open>A non-negative safe integer, or nothing (\<open>readPaise\<close>).\<close>

definition read_paise :: "store_settings \<Rightarrow> string \<Rightarrow> paise option" where
  "read_paise settings key =
    (case read_setting settings key of
       Some (JNumber n) \<Rightarrow> if is_safe_integer n \<and> n \<ge> 0 then Some n else None
     | _ \<Rightarrow> None)"

lemma read_paise_range: "read_paise settings key = Some n \<Longrightarrow> 0 \<le> n \<and> is_safe_integer n"
  by (auto simp: read_paise_def split: option.splits json.splits if_splits)

end
