(* ===== verification/Apportion.thy ===== *)
theory Apportion
  imports Prelude
begin

text \<open>
  Largest-remainder apportionment.  Two places of the code split an amount over lines in
  proportion to weights, \<open>allocateProportionally\<close> (\<open>tax/index.ts\<close>) and \<open>applyDiscountToLines\<close>
  (\<open>promotions/index.ts\<close>): floor every proportional share, then hand the leftover paise out, one
  each, by descending remainder.  This theory holds what they have in common: the hand-out
  itself, the arithmetic that bounds the leftover, and the contract \<open>apportionment\<close> they both
  meet, under which the rest of the development reasons about split discounts.
\<close>

section \<open>Handing out one unit to each of some positions\<close>

definition bump :: "int list \<Rightarrow> nat \<Rightarrow> int list" where
  "bump xs i = xs[i := xs ! i + 1]"

definition bump_all :: "nat list \<Rightarrow> int list \<Rightarrow> int list" where
  "bump_all idxs xs = foldl bump xs idxs"

lemma bump_all_Nil [simp]: "bump_all [] xs = xs"
  by (simp add: bump_all_def)

lemma bump_all_Cons [simp]: "bump_all (i # is) xs = bump_all is (bump xs i)"
  by (simp add: bump_all_def)

lemma length_bump [simp]: "length (bump xs i) = length xs"
  by (simp add: bump_def)

lemma length_bump_all [simp]: "length (bump_all idxs xs) = length xs"
  by (induction idxs arbitrary: xs) auto

lemma nth_bump: "i < length xs \<Longrightarrow> bump xs a ! i = xs ! i + (if a = i then 1 else 0)"
  by (simp add: bump_def nth_list_update)

lemma nth_bump_all:
  "distinct idxs \<Longrightarrow> i < length xs \<Longrightarrow> bump_all idxs xs ! i = xs ! i + (if i \<in> set idxs then 1 else 0)"
  by (induction idxs arbitrary: xs) (auto simp: nth_bump)

lemma sum_bump_all:
  "(\<And>i. i \<in> set idxs \<Longrightarrow> i < length xs) \<Longrightarrow> sum_list (bump_all idxs xs) = sum_list xs + int (length idxs)"
  by (induction idxs arbitrary: xs) (auto simp: bump_def sum_list_list_update)

section \<open>Sorting the candidates\<close>

text \<open>Elements the order puts first fill a prefix that is not longer than their number.\<close>

lemma sort_key_prefix:
  fixes key :: "'a \<Rightarrow> 'k::linorder"
  assumes "k \<le> length (filter P xs)"
    and before: "\<And>x y. P x \<Longrightarrow> \<not> P y \<Longrightarrow> key x < key y"
    and "z \<in> set (take k (sort_key key xs))"
  shows "P z"
proof (rule ccontr)
  assume nP: "\<not> P z"
  define ys where "ys = sort_key key xs"
  have "\<not> P y" if "y \<in> set (drop k ys)" for y
  proof
    assume "P y"
    have "sorted (map key ys)" by (simp add: ys_def)
    then have "sorted (map key (take k ys @ drop k ys))" by simp
    then have "key z \<le> key y"
      using that assms(3) unfolding ys_def[symmetric] map_append sorted_append by auto
    then show False using before[OF \<open>P y\<close> nP] by simp
  qed
  then have drop: "filter P (drop k ys) = []" by (auto simp: filter_empty_conv)
  have "length (filter P xs) = length (filter P ys)"
    by (simp add: ys_def filter_sort)
  also have "\<dots> = length (filter P (take k ys))"
    using drop by (metis append.right_neutral append_take_drop_id filter_append)
  also have "\<dots> < length (take k ys)"
    using assms(3) nP by (intro length_filter_less) (auto simp: ys_def)
  also have "\<dots> \<le> k" by simp
  finally show False using assms(1) by simp
qed

text \<open>
  The candidates are the positions of the list with their remainders; an order that puts a
  positive remainder before a zero one makes the first \<open>k\<close> candidates positions with a positive
  remainder, when there are that many.
\<close>

lemma ranked_positions:
  fixes key :: "'a \<Rightarrow> 'k::linorder" and rs :: "int list"
  assumes idx: "map idx xs = [0..<length rs]" and rem: "map rem xs = rs"
    and before: "\<And>x y. 0 < rem x \<Longrightarrow> \<not> 0 < rem y \<Longrightarrow> key x < key y"
    and k: "k \<le> length (filter (\<lambda>r. 0 < r) rs)"
  defines "idxs \<equiv> map idx (take k (sort_key key xs))"
  shows "distinct idxs" "length idxs = k" "\<And>i. i \<in> set idxs \<Longrightarrow> i < length rs \<and> 0 < rs ! i"
proof -
  have len: "length xs = length rs" using rem by auto
  have "mset (map idx (sort_key key xs)) = mset [0..<length rs]"
    by (metis idx mset_map mset_sort)
  then have "distinct (map idx (sort_key key xs))"
    by (metis distinct_upt mset_eq_imp_distinct_iff)
  then show "distinct idxs" by (simp add: idxs_def distinct_take flip: take_map)
  have "k \<le> length rs" using k length_filter_le le_trans by blast
  then show "length idxs = k" using len by (simp add: idxs_def)
  have k': "k \<le> length (filter (\<lambda>x. 0 < rem x) xs)"
    using k by (simp add: rem[symmetric] filter_map comp_def)
  fix i
  assume "i \<in> set idxs"
  then obtain x where x: "x \<in> set (take k (sort_key key xs))" "i = idx x"
    by (auto simp: idxs_def)
  from sort_key_prefix[OF k' before x(1)] have pos: "0 < rem x" by blast
  have "x \<in> set xs" using x(1) by (metis in_set_takeD set_sort)
  then obtain j where j: "j < length xs" "x = xs ! j" by (metis in_set_conv_nth)
  have "idx x = j" using j idx len by (metis add_0 nth_map nth_upt)
  moreover have "rem x = rs ! j" using j rem by (metis nth_map)
  ultimately show "i < length rs \<and> 0 < rs ! i" using pos x(2) j(1) len by simp
qed

section \<open>Floor shares and their leftover\<close>

definition floor_shares :: "int \<Rightarrow> int list \<Rightarrow> int list" where
  "floor_shares amt ws = map (\<lambda>w. amt * w div sum_list ws) ws"

definition share_remainders :: "int \<Rightarrow> int list \<Rightarrow> int list" where
  "share_remainders amt ws = map (\<lambda>w. amt * w mod sum_list ws) ws"

definition quota :: "int \<Rightarrow> int list \<Rightarrow> int list \<Rightarrow> bool" where
  "quota amt ws out \<longleftrightarrow> length out = length ws \<and>
     (\<forall>i < length ws. floor_shares amt ws ! i \<le> out ! i \<and>
        out ! i \<le> floor_shares amt ws ! i + (if share_remainders amt ws ! i > 0 then 1 else 0))"

lemma length_floor_shares [simp]: "length (floor_shares amt ws) = length ws"
  by (simp add: floor_shares_def)

lemma length_share_remainders [simp]: "length (share_remainders amt ws) = length ws"
  by (simp add: share_remainders_def)

lemma floor_shares_remainders:
  "sum_list (floor_shares amt ws) * sum_list ws + sum_list (share_remainders amt ws) = amt * sum_list ws"
proof -
  have "sum_list (map (\<lambda>w. (amt * w div T) * T) ws) + sum_list (map (\<lambda>w. amt * w mod T) ws) =
      sum_list (map (\<lambda>w. amt * w) ws)" for T
    by (simp flip: sum_list_map_add_int)
  then show ?thesis
    by (simp add: floor_shares_def share_remainders_def sum_list_mult_const sum_list_const_mult)
qed

lemma sum_remainders_bound:
  assumes "0 < T" and "\<And>r. r \<in> set rs \<Longrightarrow> 0 \<le> r \<and> r < T"
  shows "sum_list rs \<le> (T - 1) * int (length (filter (\<lambda>r. 0 < r) rs))"
  using assms(2)
proof (induction rs)
  case (Cons r rs)
  from Cons have "sum_list rs \<le> (T - 1) * int (length (filter (\<lambda>r. 0 < r) rs))" by simp
  moreover have "0 \<le> r" "r \<le> T - 1" using Cons.prems[of r] by auto
  ultimately show ?case by (auto simp: algebra_simps)
qed simp

lemma leftover_bounds:
  assumes "0 < sum_list ws"
  shows "0 \<le> amt - sum_list (floor_shares amt ws)"
    and "amt - sum_list (floor_shares amt ws) \<le>
      int (length (filter (\<lambda>r. 0 < r) (share_remainders amt ws)))"
proof -
  define T where "T = sum_list ws"
  define L where "L = amt - sum_list (floor_shares amt ws)"
  define k where "k = int (length (filter (\<lambda>r. 0 < r) (share_remainders amt ws)))"
  have rs: "0 \<le> r \<and> r < T" if "r \<in> set (share_remainders amt ws)" for r
    using that assms by (auto simp: share_remainders_def T_def)
  have eq: "L * T = sum_list (share_remainders amt ws)"
    using floor_shares_remainders[of amt ws] by (simp add: L_def T_def algebra_simps)
  have T: "0 < T" using assms by (simp add: T_def)
  have "0 \<le> sum_list (share_remainders amt ws)"
    using rs by (intro sum_list_nonneg) auto
  then have "0 \<le> L * T" using eq by simp
  then show "0 \<le> amt - sum_list (floor_shares amt ws)"
    using T by (simp add: L_def zero_le_mult_iff)
  have "L * T \<le> (T - 1) * k"
    using sum_remainders_bound[OF T rs] eq by (simp add: k_def)
  also have "\<dots> \<le> k * T" by (simp add: k_def algebra_simps)
  finally have "L \<le> k" using T by simp
  then show "amt - sum_list (floor_shares amt ws) \<le>
      int (length (filter (\<lambda>r. 0 < r) (share_remainders amt ws)))"
    by (simp add: L_def k_def)
qed

text \<open>The hand-out lemma both implementations use.\<close>

lemma hand_out_quota:
  assumes "0 < sum_list ws" and "distinct idxs"
    and "int (length idxs) = amt - sum_list (floor_shares amt ws)"
    and "\<And>i. i \<in> set idxs \<Longrightarrow> i < length ws \<and> 0 < share_remainders amt ws ! i"
  shows "sum_list (bump_all idxs (floor_shares amt ws)) = amt"
    and "quota amt ws (bump_all idxs (floor_shares amt ws))"
  using assms by (auto simp: sum_bump_all quota_def nth_bump_all)

section \<open>The contract\<close>

locale apportionment =
  fixes valid :: "int \<Rightarrow> int list \<Rightarrow> bool" and alloc :: "int \<Rightarrow> int list \<Rightarrow> int list"
  assumes valid_total: "valid amt ws \<Longrightarrow> 0 \<le> amt"
    and valid_weights: "valid amt ws \<Longrightarrow> w \<in> set ws \<Longrightarrow> 0 \<le> w"
    and valid_sum: "valid amt ws \<Longrightarrow> 0 < sum_list ws"
    and alloc_sum: "valid amt ws \<Longrightarrow> sum_list (alloc amt ws) = amt"
    and alloc_quota: "valid amt ws \<Longrightarrow> quota amt ws (alloc amt ws)"
begin

lemma alloc_length: "valid amt ws \<Longrightarrow> length (alloc amt ws) = length ws"
  using alloc_quota by (simp add: quota_def)

lemma alloc_nonneg:
  assumes "valid amt ws" "i < length ws"
  shows "0 \<le> alloc amt ws ! i"
proof -
  have "0 \<le> floor_shares amt ws ! i"
    using assms valid_total[OF assms(1)] valid_sum[OF assms(1)] valid_weights[OF assms(1)]
    by (simp add: floor_shares_def pos_imp_zdiv_nonneg_iff)
  then show ?thesis using alloc_quota[OF assms(1)] assms(2) by (force simp: quota_def)
qed

lemma alloc_zero_weight: "valid amt ws \<Longrightarrow> i < length ws \<Longrightarrow> ws ! i = 0 \<Longrightarrow> alloc amt ws ! i = 0"
  using alloc_quota[of amt ws] by (force simp: quota_def floor_shares_def share_remainders_def)

text \<open>Splitting no more than the weights themselves never gives a line more than its weight.\<close>

lemma alloc_le_weight:
  assumes "valid amt ws" "amt \<le> sum_list ws" "i < length ws"
  shows "alloc amt ws ! i \<le> ws ! i"
proof -
  define T where "T = sum_list ws"
  define w where "w = ws ! i"
  have T: "0 < T" and w: "0 \<le> w"
    using valid_sum[OF assms(1)] valid_weights[OF assms(1)] assms(3) by (simp_all add: T_def w_def)
  have le: "amt * w \<le> w * T" using mult_right_mono[OF assms(2) w] by (simp add: T_def mult.commute)
  have out: "alloc amt ws ! i \<le> amt * w div T + (if amt * w mod T > 0 then 1 else 0)"
    using alloc_quota[OF assms(1)] assms(3)
    by (auto simp: quota_def floor_shares_def share_remainders_def T_def w_def)
  have split: "amt * w div T * T + amt * w mod T = amt * w" by simp
  have "amt * w div T + (if amt * w mod T > 0 then 1 else 0) \<le> w"
  proof (cases "amt * w mod T > 0")
    case True
    then have "amt * w div T * T < w * T" using split le by linarith
    then have "amt * w div T < w" using T by simp
    with True show ?thesis by simp
  next
    case False
    have "amt * w div T \<le> w" using zdiv_mono1[OF le T] T by simp
    with False show ?thesis by simp
  qed
  with out show ?thesis by (simp add: w_def)
qed

text \<open>No line is off its exact proportional share by a whole unit.\<close>

lemma alloc_within_one:
  assumes "valid amt ws" "i < length ws"
  shows "\<bar>alloc amt ws ! i * sum_list ws - amt * ws ! i\<bar> < sum_list ws"
proof -
  define T where "T = sum_list ws"
  define w where "w = ws ! i"
  define q where "q = amt * w div T"
  define r where "r = amt * w mod T"
  have T: "0 < T" using valid_sum[OF assms(1)] by (simp add: T_def)
  have r: "0 \<le> r" "r < T" and qr: "amt * w = q * T + r" using T by (simp_all add: r_def q_def)
  have "q \<le> alloc amt ws ! i" "alloc amt ws ! i \<le> q + (if r > 0 then 1 else 0)"
    using alloc_quota[OF assms(1)] assms(2)
    by (auto simp: quota_def floor_shares_def share_remainders_def T_def w_def q_def r_def)
  then have "alloc amt ws ! i = q \<or> (alloc amt ws ! i = q + 1 \<and> 0 < r)"
    by (cases "0 < r") auto
  then have "\<bar>alloc amt ws ! i * T - amt * w\<bar> < T"
    using r qr by (auto simp: algebra_simps)
  then show ?thesis by (simp add: T_def w_def)
qed

end

end
