(* ===== verification/Promotions.thy ===== *)
theory Promotions
  imports Errors Enums Apportion
begin

text \<open>
  Promotion rules, \<open>packages/core/src/promotions/index.ts\<close>: conditions and effects as data, the
  schema they are validated against, the pure evaluation of a promotion on a cart and the
  largest-remainder spread of a discount over the item lines.  The lemmas bound the discount,
  say exactly which units a buy-x-get-y effect gives away, and discharge the apportionment
  contract for the spread.
\<close>

section \<open>Rules as data\<close>

text \<open>A stored condition or effect of a vocabulary this version does not know is kept with its tag.\<close>

datatype condition =
    cart_subtotal_min paise
  | contains_product "uuid list"
  | contains_category "uuid list"
  | customer_segment string
  | first_order
  | channel "order_channel list"
  | unknown_condition_type string

datatype effect =
    flat_off paise
  | percent_off int "paise option"
  | free_shipping
  | buy_x_get_y int int "uuid list"
  | unknown_effect_type string

record promotion_data =
  pd_id :: uuid
  pd_code :: string
  pd_name :: string
  pd_status :: promotion_status
  pd_startsAt :: "millis option"
  pd_endsAt :: "millis option"
  pd_conditions :: "condition list"
  pd_effects :: "effect list"
  pd_usageLimitTotal :: "int option"
  pd_usageLimitPerCustomer :: "int option"

record eval_line =
  el_variantId :: uuid
  el_productId :: uuid
  el_categoryIds :: "uuid list"
  el_quantity :: int
  el_unitPricePaise :: paise

record eval_cart =
  ec_lines :: "eval_line list"
  ec_subtotalPaise :: paise
  ec_shippingPaise :: paise
  ec_channel :: order_channel

record eval_customer =
  ecu_id :: "uuid option"
  ecu_isFirstOrder :: bool

record applied_discount =
  ad_promotionId :: uuid
  ad_code :: string
  ad_discountPaise :: paise
  ad_freeShipping :: bool

datatype refusal_reason =
    not_started | expired | conditions_not_met | coupon_exhausted | requires_customer
  | unknown_condition | unsupported_condition

type_synonym evaluation = "refusal_reason + applied_discount"

definition MAX_RULE_PAISE :: int where
  "MAX_RULE_PAISE = 10000000000000"

text \<open>\<open>conditionSchema\<close> and \<open>effectSchema\<close>: what a rule must satisfy to be stored.\<close>

definition uuid_list_ok :: "uuid list \<Rightarrow> bool" where
  "uuid_list_ok ids \<longleftrightarrow> 1 \<le> length ids \<and> length ids \<le> 200"

fun condition_ok :: "condition \<Rightarrow> bool" where
  "condition_ok (cart_subtotal_min p) = (0 \<le> p \<and> p \<le> MAX_RULE_PAISE)"
| "condition_ok (contains_product ids) = uuid_list_ok ids"
| "condition_ok (contains_category ids) = uuid_list_ok ids"
| "condition_ok (customer_segment s) = (1 \<le> length s \<and> length s \<le> 100)"
| "condition_ok first_order = True"
| "condition_ok (channel cs) = (1 \<le> length cs)"
| "condition_ok (unknown_condition_type t) = False"

fun effect_ok :: "effect \<Rightarrow> bool" where
  "effect_ok (flat_off p) = (1 \<le> p \<and> p \<le> MAX_RULE_PAISE)"
| "effect_ok (percent_off bps cap) =
     (1 \<le> bps \<and> bps \<le> 10000 \<and> (case cap of None \<Rightarrow> True | Some c \<Rightarrow> 0 \<le> c \<and> c \<le> MAX_RULE_PAISE))"
| "effect_ok free_shipping = True"
| "effect_ok (buy_x_get_y x y ids) = (1 \<le> x \<and> x \<le> 10000 \<and> 1 \<le> y \<and> y \<le> 10000 \<and> uuid_list_ok ids)"
| "effect_ok (unknown_effect_type t) = False"

section \<open>Evaluation\<close>

definition bpsOf :: "paise \<Rightarrow> int \<Rightarrow> paise" where
  "bpsOf subtotalPaise bps = js_div (subtotalPaise * bps + 5000) 10000"

fun checkCondition :: "condition \<Rightarrow> eval_cart \<Rightarrow> eval_customer option \<Rightarrow> refusal_reason option" where
  "checkCondition (cart_subtotal_min p) cart c = (if ec_subtotalPaise cart \<ge> p then None else Some conditions_not_met)"
| "checkCondition (contains_product ids) cart c =
     (if list_ex (\<lambda>l. el_productId l \<in> set ids) (ec_lines cart) then None else Some conditions_not_met)"
| "checkCondition (contains_category ids) cart c =
     (if list_ex (\<lambda>l. list_ex (\<lambda>k. k \<in> set ids) (el_categoryIds l)) (ec_lines cart)
      then None else Some conditions_not_met)"
| "checkCondition (customer_segment s) cart c = Some unsupported_condition"
| "checkCondition first_order cart c =
     (case c of None \<Rightarrow> None | Some cu \<Rightarrow> if ecu_isFirstOrder cu then None else Some conditions_not_met)"
| "checkCondition (channel cs) cart c = (if ec_channel cart \<in> set cs then None else Some conditions_not_met)"
| "checkCondition (unknown_condition_type t) cart c = Some unknown_condition"

fun check_conditions :: "condition list \<Rightarrow> eval_cart \<Rightarrow> eval_customer option \<Rightarrow> refusal_reason option" where
  "check_conditions [] cart c = None"
| "check_conditions (k # ks) cart c =
     (case checkCondition k cart c of Some r \<Rightarrow> Some r | None \<Rightarrow> check_conditions ks cart c)"

text \<open>The loop that gives free units away, cheapest line first, until none is left to give.\<close>

fun give_free_units :: "int \<Rightarrow> paise \<Rightarrow> eval_line list \<Rightarrow> paise" where
  "give_free_units freeUnits discount [] = discount"
| "give_free_units freeUnits discount (line # rest) =
     (if freeUnits = 0 then discount else
      let took = min freeUnits (el_quantity line)
      in give_free_units (freeUnits - took) (discount + took * el_unitPricePaise line) rest)"

definition buyXGetYDiscount :: "int \<Rightarrow> int \<Rightarrow> uuid list \<Rightarrow> eval_cart \<Rightarrow> paise option" where
  "buyXGetYDiscount buyQty getQty getVariantIds cart =
    (let eligible = sort_key el_unitPricePaise (filter (\<lambda>l. el_variantId l \<in> set getVariantIds) (ec_lines cart))
     in if eligible = [] then None else
     let totalQuantity = sum_list (map el_quantity (ec_lines cart));
         batches = totalQuantity div buyQty
     in if batches = 0 then None else Some (give_free_units (batches * getQty) 0 eligible))"

fun apply_effects :: "effect list \<Rightarrow> eval_cart \<Rightarrow> paise \<Rightarrow> bool \<Rightarrow> (refusal_reason, paise \<times> bool) result" where
  "apply_effects [] cart d fs = Inr (d, fs)"
| "apply_effects (flat_off p # es) cart d fs = apply_effects es cart (d + p) fs"
| "apply_effects (percent_off bps cap # es) cart d fs =
     (let off = bpsOf (ec_subtotalPaise cart) bps;
          off' = (case cap of None \<Rightarrow> off | Some m \<Rightarrow> if off > m then m else off)
      in apply_effects es cart (d + off') fs)"
| "apply_effects (free_shipping # es) cart d fs = apply_effects es cart d True"
| "apply_effects (buy_x_get_y x y ids # es) cart d fs =
     (case buyXGetYDiscount x y ids cart of
        None \<Rightarrow> Inl conditions_not_met
      | Some off \<Rightarrow> apply_effects es cart (d + off) fs)"
| "apply_effects (unknown_effect_type t # es) cart d fs = Inl unknown_condition"

definition evaluatePromotion :: "promotion_data \<Rightarrow> eval_cart \<Rightarrow> eval_customer option \<Rightarrow> millis \<Rightarrow> evaluation" where
  "evaluatePromotion promo cart customer now =
    (if (case pd_startsAt promo of None \<Rightarrow> False | Some t \<Rightarrow> now < t) then Inl not_started
     else if (case pd_endsAt promo of None \<Rightarrow> False | Some t \<Rightarrow> now \<ge> t) then Inl expired
     else case check_conditions (pd_conditions promo) cart customer of
       Some r \<Rightarrow> Inl r
     | None \<Rightarrow>
         if pd_usageLimitPerCustomer promo \<noteq> None \<and>
            (case customer of None \<Rightarrow> False | Some cu \<Rightarrow> ecu_id cu = None)
         then Inl requires_customer
         else (case apply_effects (pd_effects promo) cart 0 False of
             Inl r \<Rightarrow> Inl r
           | Inr (d, fs) \<Rightarrow>
               Inr \<lparr>ad_promotionId = pd_id promo, ad_code = pd_code promo,
                    ad_discountPaise = min d (ec_subtotalPaise cart), ad_freeShipping = fs\<rparr>))"

section \<open>Spreading a discount over lines\<close>

fun hand_out :: "nat \<Rightarrow> nat \<Rightarrow> nat list \<Rightarrow> int list \<Rightarrow> int list" where
  "hand_out 0 i byRemainder allocations = allocations"
| "hand_out (Suc leftover) i byRemainder allocations =
     hand_out leftover ((i + 1) mod length byRemainder) byRemainder (bump allocations (byRemainder ! i))"

definition applyDiscountToLines :: "paise list \<Rightarrow> applied_discount \<Rightarrow> paise \<Rightarrow> paise list \<times> paise" where
  "applyDiscountToLines lineTotals discount shippingPaise =
    (let shippingAfter = (if ad_freeShipping discount then 0 else shippingPaise);
         target = ad_discountPaise discount;
         amt = sum_list lineTotals
     in if lineTotals = [] \<or> amt = 0 \<or> target = 0 then (map (\<lambda>_. 0) lineTotals, shippingAfter) else
     let shares = map (\<lambda>(index, w). (index, js_div (w * target) amt, js_rem (w * target) amt, w)) (enumerate 0 lineTotals);
         allocations = map (\<lambda>(index, fl, r, w). fl) shares;
         leftover = target - sum_list allocations;
         byRemainder = sort_key (\<lambda>(index, fl, r, w). (- r, - w, index)) shares
     in (hand_out (nat leftover) 0 (map fst byRemainder) allocations, shippingAfter))"

section \<open>What evaluation promises\<close>

text \<open>A cart as checkout builds it: priced lines with a positive quantity.\<close>

definition cart_ok :: "eval_cart \<Rightarrow> bool" where
  "cart_ok cart \<longleftrightarrow> 0 \<le> ec_subtotalPaise cart \<and>
     (\<forall>l \<in> set (ec_lines cart). 0 \<le> el_quantity l \<and> 0 \<le> el_unitPricePaise l)"

lemma check_conditions_None:
  "check_conditions ks cart c = None \<longleftrightarrow> (\<forall>k \<in> set ks. checkCondition k cart c = None)"
  by (induction ks) (auto split: option.splits)

lemma bpsOf_nonneg: "0 \<le> s \<Longrightarrow> 0 \<le> b \<Longrightarrow> 0 \<le> bpsOf s b"
  by (simp add: bpsOf_def pos_imp_zdiv_nonneg_iff)

lemma bpsOf_le: "0 \<le> s \<Longrightarrow> 0 \<le> b \<Longrightarrow> b \<le> 10000 \<Longrightarrow> bpsOf s b \<le> s"
proof -
  assume a: "0 \<le> s" "0 \<le> b" "b \<le> 10000"
  have "s * b \<le> s * 10000" using a by (intro mult_left_mono) auto
  then have "(s * b + 5000) div 10000 < s + 1" by (intro int_div_lessI) auto
  then show ?thesis using a by (simp add: bpsOf_def)
qed

text \<open>The units of the eligible lines, one entry per unit.\<close>

definition unit_prices :: "eval_line list \<Rightarrow> paise list" where
  "unit_prices ls = concat (map (\<lambda>l. replicate (nat (el_quantity l)) (el_unitPricePaise l)) ls)"

lemma sorted_unit_prices: "sorted (map el_unitPricePaise ls) \<Longrightarrow> sorted (unit_prices ls)"
  by (induction ls) (auto simp: unit_prices_def sorted_append sorted_replicate)

lemma mset_unit_prices: "mset ls = mset ls' \<Longrightarrow> mset (unit_prices ls) = mset (unit_prices ls')"
proof -
  have "mset (unit_prices xs) = (\<Sum>l \<in># mset xs. replicate_mset (nat (el_quantity l)) (el_unitPricePaise l))" for xs
    by (induction xs) (auto simp: unit_prices_def)
  then show "mset ls = mset ls' \<Longrightarrow> mset (unit_prices ls) = mset (unit_prices ls')" by simp
qed

lemma unit_prices_sort_key: "unit_prices (sort_key el_unitPricePaise ls) = sort (unit_prices ls)"
proof (rule properties_for_sort[symmetric])
  show "mset (unit_prices (sort_key el_unitPricePaise ls)) = mset (unit_prices ls)"
    by (rule mset_unit_prices) simp
  show "sorted (unit_prices (sort_key el_unitPricePaise ls))"
    by (rule sorted_unit_prices) simp
qed

lemma give_free_units_take:
  assumes "0 \<le> n" and "\<forall>l \<in> set ls. 0 \<le> el_quantity l"
  shows "give_free_units n d ls = d + sum_list (take (nat n) (unit_prices ls))"
  using assms
proof (induction n d ls rule: give_free_units.induct)
  case (1 n d)
  then show ?case by (simp add: unit_prices_def)
next
  case (2 n d l ls)
  show ?case
  proof (cases "n = 0")
    case False
    define took where "took = min n (el_quantity l)"
    have took: "0 \<le> took" "took \<le> n" using 2 by (auto simp: took_def)
    have IH: "give_free_units (n - took) (d + took * el_unitPricePaise l) ls =
        d + took * el_unitPricePaise l + sum_list (take (nat (n - took)) (unit_prices ls))"
      using 2 False took by (auto simp: took_def)
    have m: "min (nat n) (nat (el_quantity l)) = nat took" "nat n - nat (el_quantity l) = nat (n - took)"
      using took 2 by (auto simp: took_def min_def)
    have "take (nat n) (unit_prices (l # ls)) =
        replicate (nat took) (el_unitPricePaise l) @ take (nat (n - took)) (unit_prices ls)"
      by (simp add: unit_prices_def m)
    with IH False took(1) show ?thesis by (simp add: took_def[symmetric] Let_def sum_list_replicate)
  qed simp
qed

text \<open>
  A buy-x-get-y effect gives away the cheapest eligible units: as many as the whole batches of
  \<open>buyQty\<close> in the cart earn, or all of them.
\<close>

lemma buyXGetYDiscount_cheapest:
  assumes "cart_ok cart" "1 \<le> x" "1 \<le> y"
  shows "buyXGetYDiscount x y ids cart =
    (let eligible = filter (\<lambda>l. el_variantId l \<in> set ids) (ec_lines cart);
         batches = sum_list (map el_quantity (ec_lines cart)) div x
     in if eligible = [] \<or> batches = 0 then None
        else Some (sum_list (take (nat (batches * y)) (sort (unit_prices eligible)))))"
proof -
  have q: "0 \<le> sum_list (map el_quantity (ec_lines cart))"
    using assms(1) by (intro sum_list_nonneg_int) (simp add: cart_ok_def)
  then have b: "0 \<le> sum_list (map el_quantity (ec_lines cart)) div x * y"
    using assms by (simp add: pos_imp_zdiv_nonneg_iff)
  define el where "el = filter (\<lambda>l. el_variantId l \<in> set ids) (ec_lines cart)"
  have "\<forall>l \<in> set (sort_key el_unitPricePaise el). 0 \<le> el_quantity l"
    using assms(1) by (simp add: cart_ok_def el_def)
  note G = give_free_units_take[OF b this, of 0]
  have nil: "sort_key el_unitPricePaise el = [] \<longleftrightarrow> el = []"
    by (metis length_0_conv length_sort)
  show ?thesis
    unfolding buyXGetYDiscount_def Let_def el_def[symmetric] nil G unit_prices_sort_key by simp
qed

lemma buyXGetYDiscount_nonneg:
  assumes "cart_ok cart" "1 \<le> x" "1 \<le> y" "buyXGetYDiscount x y ids cart = Some d"
  shows "0 \<le> d"
proof -
  define el where "el = filter (\<lambda>l. el_variantId l \<in> set ids) (ec_lines cart)"
  have "0 \<le> p" if "p \<in> set (take k (sort (unit_prices el)))" for p k
    using in_set_takeD[OF that] assms(1) by (auto simp: unit_prices_def cart_ok_def el_def)
  then have "0 \<le> sum_list (take k (sort (unit_prices el)))" for k by (intro sum_list_nonneg)
  then show ?thesis using assms
    by (auto simp: buyXGetYDiscount_cheapest el_def[symmetric] Let_def split: if_splits)
qed

lemma apply_effects_nonneg:
  assumes "cart_ok cart" "list_all effect_ok es" "0 \<le> d0" "apply_effects es cart d0 fs = Inr (d, fs')"
  shows "0 \<le> d"
  using assms(2-4)
proof (induction es arbitrary: d0 fs)
  case (Cons e es)
  show ?case
  proof (cases e)
    case (percent_off bps cap)
    have "0 \<le> bpsOf (ec_subtotalPaise cart) bps"
      using assms(1) Cons.prems(1) percent_off by (intro bpsOf_nonneg) (simp_all add: cart_ok_def)
    then have "0 \<le> d0 + (case cap of None \<Rightarrow> bpsOf (ec_subtotalPaise cart) bps
        | Some m \<Rightarrow> if bpsOf (ec_subtotalPaise cart) bps > m then m else bpsOf (ec_subtotalPaise cart) bps)"
      using Cons.prems(1,2) percent_off by (auto split: option.splits)
    then show ?thesis using Cons.prems percent_off Cons.IH by (auto simp: Let_def)
  next
    case (buy_x_get_y x y ids)
    with Cons.prems obtain off where off: "buyXGetYDiscount x y ids cart = Some off"
        "apply_effects es cart (d0 + off) fs = Inr (d, fs')"
      by (auto split: option.splits)
    have "0 \<le> off" using buyXGetYDiscount_nonneg[OF assms(1) _ _ off(1)] Cons.prems(1) buy_x_get_y by simp
    then show ?thesis using Cons.IH[OF _ _ off(2)] Cons.prems(1,2) by simp
  next
    case (flat_off p)
    then show ?thesis using Cons.IH[of "d0 + p" fs] Cons.prems by simp
  qed (use Cons in \<open>auto intro: Cons.IH\<close>)
qed simp

text \<open>
  An applicable promotion is inside its window, meets every condition, can be counted against
  the buyer when it is limited per customer, and takes between nothing and the subtotal off.
\<close>

lemma evaluatePromotion_applicable:
  assumes "cart_ok cart" "list_all effect_ok (pd_effects promo)"
    and "evaluatePromotion promo cart customer now = Inr ad"
  shows "0 \<le> ad_discountPaise ad" "ad_discountPaise ad \<le> ec_subtotalPaise cart"
    and "ad_promotionId ad = pd_id promo"
    and "\<forall>k \<in> set (pd_conditions promo). checkCondition k cart customer = None"
    and "\<forall>t. pd_startsAt promo = Some t \<longrightarrow> t \<le> now" "\<forall>t. pd_endsAt promo = Some t \<longrightarrow> now < t"
    and "pd_usageLimitPerCustomer promo \<noteq> None \<Longrightarrow> customer = Some cu \<Longrightarrow> ecu_id cu \<noteq> None"
proof -
  note E = assms(3)[unfolded evaluatePromotion_def]
  from E have w: "\<not> (case pd_startsAt promo of None \<Rightarrow> False | Some t \<Rightarrow> now < t)"
      "\<not> (case pd_endsAt promo of None \<Rightarrow> False | Some t \<Rightarrow> now \<ge> t)"
    by (simp_all split: if_split_asm)
  note E2 = E[unfolded if_not_P[OF w(1)] if_not_P[OF w(2)]]
  from E2 have c: "check_conditions (pd_conditions promo) cart customer = None"
    by (simp split: option.split_asm)
  note E3 = E2[unfolded c option.case]
  from E3 have u: "\<not> (pd_usageLimitPerCustomer promo \<noteq> None \<and>
      (case customer of None \<Rightarrow> False | Some cu \<Rightarrow> ecu_id cu = None))"
    by (simp split: if_split_asm)
  from E3[unfolded if_not_P[OF u]] obtain d fs where d: "apply_effects (pd_effects promo) cart 0 False = Inr (d, fs)"
      "ad_discountPaise ad = min d (ec_subtotalPaise cart)" "ad_promotionId ad = pd_id promo"
    by (auto split: sum.split_asm)
  have "0 \<le> d" using apply_effects_nonneg[OF assms(1,2) _ d(1)] by simp
  then show "0 \<le> ad_discountPaise ad" "ad_discountPaise ad \<le> ec_subtotalPaise cart"
    using d(2) assms(1) by (auto simp: cart_ok_def)
  show "ad_promotionId ad = pd_id promo" by (rule d(3))
  show "\<forall>k \<in> set (pd_conditions promo). checkCondition k cart customer = None"
    using c by (simp add: check_conditions_None)
  show "\<forall>t. pd_startsAt promo = Some t \<longrightarrow> t \<le> now" "\<forall>t. pd_endsAt promo = Some t \<longrightarrow> now < t"
    using w by (auto split: option.splits)
  show "ecu_id cu \<noteq> None" if "pd_usageLimitPerCustomer promo \<noteq> None" "customer = Some cu"
    using u that by simp
qed

section \<open>What the spread promises\<close>

definition valid_discount :: "int \<Rightarrow> int list \<Rightarrow> bool" where
  "valid_discount target ws \<longleftrightarrow> 0 \<le> target \<and> (\<forall>w \<in> set ws. 0 \<le> w) \<and> 0 < sum_list ws"

definition discount_shares :: "int \<Rightarrow> int list \<Rightarrow> int list" where
  "discount_shares target ws =
     fst (applyDiscountToLines ws \<lparr>ad_promotionId = 0, ad_code = [], ad_discountPaise = target, ad_freeShipping = False\<rparr> 0)"

lemma applyDiscountToLines_eq:
  "applyDiscountToLines ws ad sp =
     (discount_shares (ad_discountPaise ad) ws, if ad_freeShipping ad then 0 else sp)"
  by (simp add: applyDiscountToLines_def discount_shares_def Let_def)

lemma hand_out_bump_all:
  "i + k \<le> length idxs \<Longrightarrow> hand_out k i idxs xs = bump_all (take k (drop i idxs)) xs"
proof (induction k arbitrary: i xs)
  case (Suc k)
  then have i: "i < length idxs" by simp
  then have split: "drop i idxs = idxs ! i # drop (Suc i) idxs" by (rule Cons_nth_drop_Suc[symmetric])
  show ?case
  proof (cases k)
    case 0
    then show ?thesis by (simp add: split)
  next
    case (Suc k')
    then have "Suc i < length idxs" using Suc.prems by simp
    then have "hand_out k ((i + 1) mod length idxs) idxs (bump xs (idxs ! i)) =
        bump_all (take k (drop (Suc i) idxs)) (bump xs (idxs ! i))"
      using Suc.IH[of "Suc i"] Suc.prems by simp
    then show ?thesis by (simp add: split)
  qed
qed simp

lemma discount_shares_ok:
  assumes "valid_discount t ws"
  shows "sum_list (discount_shares t ws) = t" "quota t ws (discount_shares t ws)"
proof -
  define shares where "shares = map (\<lambda>(index, w). (index, js_div (w * t) (sum_list ws), js_rem (w * t) (sum_list ws), w)) (enumerate 0 ws)"
  define ranked where "ranked = sort_key (\<lambda>(index, fl, r, w). (- r, - w, index)) shares"
  define k where "k = nat (t - sum_list (floor_shares t ws))"
  have pos: "0 < sum_list ws" and nn: "\<forall>w \<in> set ws. 0 \<le> w * t"
    using assms by (simp_all add: valid_discount_def)
  have idx: "map fst shares = [0..<length (share_remainders t ws)]"
    using map_fst_enumerate_map[of _ 0 ws] by (simp add: shares_def del: map_map)
  have proj: "map f shares = map (\<lambda>w. f (0, js_div (w * t) (sum_list ws), js_rem (w * t) (sum_list ws), w)) ws"
    if "\<And>i x. f (i, x) = f (0, x)" for f :: "nat \<times> int \<times> int \<times> int \<Rightarrow> int"
  proof -
    have "map f shares = map (\<lambda>(i, w). f (0, js_div (w * t) (sum_list ws), js_rem (w * t) (sum_list ws), w)) (enumerate 0 ws)"
      unfolding shares_def map_map by (rule map_cong[OF refl]) (use that in auto)
    also have "\<dots> = map (\<lambda>w. f (0, js_div (w * t) (sum_list ws), js_rem (w * t) (sum_list ws), w)) (map snd (enumerate 0 ws))"
      unfolding map_map by (rule map_cong[OF refl]) auto
    finally show ?thesis by simp
  qed
  have rem: "map (\<lambda>(index, fl, r, w). r) shares = share_remainders t ws"
    by (subst proj) (use pos nn in \<open>auto simp: share_remainders_def mult.commute\<close>)
  have fl: "map (\<lambda>(index, fl, r, w). fl) shares = floor_shares t ws"
    by (subst proj) (use pos nn in \<open>auto simp: floor_shares_def mult.commute\<close>)
  have kle: "k \<le> length (filter (\<lambda>r. 0 < r) (share_remainders t ws))"
    using leftover_bounds[OF pos, of t] by (simp add: k_def)
  note P = ranked_positions[where key = "\<lambda>(index, fl, r, w). (- r, - w, index)", OF idx rem _ kle, folded ranked_def]
  have pr: "distinct (map fst (take k ranked))" "length (map fst (take k ranked)) = k"
    "\<And>i. i \<in> set (map fst (take k ranked)) \<Longrightarrow> i < length (share_remainders t ws) \<and> 0 < share_remainders t ws ! i"
    by (rule P; force)+
  have int_k: "int k = t - sum_list (floor_shares t ws)"
    using leftover_bounds[OF pos, of t] by (simp add: k_def)
  have H: "sum_list (bump_all (map fst (take k ranked)) (floor_shares t ws)) = t"
    "quota t ws (bump_all (map fst (take k ranked)) (floor_shares t ws))"
    by (rule hand_out_quota[OF pos pr(1)]; use pr(2,3) int_k in simp)+
  have len: "length ranked = length ws" by (simp add: ranked_def shares_def)
  have "k \<le> length ws" using le_trans[OF kle length_filter_le] by simp
  then have ho: "hand_out k 0 (map fst ranked) (floor_shares t ws) =
      bump_all (map fst (take k ranked)) (floor_shares t ws)"
    using len by (simp add: hand_out_bump_all take_map)
  have "sum_list (discount_shares t ws) = t \<and> quota t ws (discount_shares t ws)"
  proof (cases "t = 0")
    case True
    have "discount_shares 0 ws = map (\<lambda>_. 0) ws"
      by (simp add: discount_shares_def applyDiscountToLines_def Let_def)
    then show ?thesis using True
      by (simp add: quota_def floor_shares_def share_remainders_def sum_list_triv)
  next
    case False
    have "ws \<noteq> []" using pos by auto
    then have "discount_shares t ws = hand_out (nat (t - sum_list (map (\<lambda>(index, fl, r, w). fl) shares))) 0
        (map fst ranked) (map (\<lambda>(index, fl, r, w). fl) shares)"
      using False pos by (simp add: discount_shares_def applyDiscountToLines_def Let_def
        shares_def ranked_def del: map_map)
    then have "discount_shares t ws = hand_out k 0 (map fst ranked) (floor_shares t ws)"
      by (simp only: fl k_def)
    then show ?thesis using H ho by simp
  qed
  then show "sum_list (discount_shares t ws) = t" "quota t ws (discount_shares t ws)" by simp_all
qed

interpretation promoAlloc: apportionment valid_discount discount_shares
  by unfold_locales (auto simp: valid_discount_def discount_shares_ok)

section \<open>Properties\<close>



text \<open>
  Buy-x-get-y gives the customer's cheapest eligible units away and only whole batches count:
  the discount is the sum of the \<open>batches * y\<close> smallest unit prices of the eligible lines (all of them
  when there are fewer), and the effect does not apply without an eligible line or a whole batch.
\<close>

theorem buyXGetY_gives_cheapest:
  assumes "cart_ok cart" "1 \<le> x" "1 \<le> y"
  shows "buyXGetYDiscount x y ids cart =
    (let eligible = filter (\<lambda>l. el_variantId l \<in> set ids) (ec_lines cart);
         batches = sum_list (map el_quantity (ec_lines cart)) div x
     in if eligible = [] \<or> batches = 0 then None
        else Some (sum_list (take (nat (batches * y)) (sort (unit_prices eligible)))))"
  by (rule buyXGetYDiscount_cheapest[OF assms])

theorem buyXGetY_gives_cheapest_witness:
  "buyXGetYDiscount 2 1 [1, 3] \<lparr>ec_lines =
      [\<lparr>el_variantId = 1, el_productId = 2, el_categoryIds = [], el_quantity = 1, el_unitPricePaise = 500\<rparr>,
       \<lparr>el_variantId = 3, el_productId = 4, el_categoryIds = [], el_quantity = 2, el_unitPricePaise = 300\<rparr>],
      ec_subtotalPaise = 1100, ec_shippingPaise = 0, ec_channel = web\<rparr> = Some 300"
  by (subst buyXGetY_gives_cheapest) (simp_all add: cart_ok_def unit_prices_def numeral_2_eq_2)

text \<open>
  C21.  A discount spread over the item lines is exact: the line discounts add up to the discount,
  none is negative and none exceeds its line's total, and free shipping, and nothing else, waives the
  shipping fee.
\<close>

theorem applyDiscountToLines_exact:
  assumes "list_all (\<lambda>w. 0 \<le> w) lineTotals" "0 \<le> ad_discountPaise ad" "ad_discountPaise ad \<le> sum_list lineTotals"
  shows "case applyDiscountToLines lineTotals ad shippingPaise of (ds, ship) \<Rightarrow>
    length ds = length lineTotals \<and> sum_list ds = ad_discountPaise ad \<and>
    list_all2 (\<lambda>d w. 0 \<le> d \<and> d \<le> w) ds lineTotals \<and>
    ship = (if ad_freeShipping ad then 0 else shippingPaise)"
proof (cases "sum_list lineTotals = 0")
  case True
  have w: "\<forall>w \<in> set lineTotals. 0 \<le> w" using assms(1) by (simp add: list_all_iff)
  then show ?thesis using assms True
    by (auto simp: applyDiscountToLines_def Let_def list_all2_map1 list_all2_same sum_list_triv)
next
  case False
  then have v: "valid_discount (ad_discountPaise ad) lineTotals"
    using assms sum_list_nonneg[of lineTotals] by (auto simp: valid_discount_def list_all_iff)
  show ?thesis
    using promoAlloc.alloc_length[OF v] promoAlloc.alloc_sum[OF v] promoAlloc.alloc_nonneg[OF v]
      promoAlloc.alloc_le_weight[OF v assms(3)]
    unfolding applyDiscountToLines_eq by (simp add: list_all2_conv_all_nth)
qed

theorem applyDiscountToLines_exact_witness:
  "sum_list (fst (applyDiscountToLines [250, 333, 417]
     \<lparr>ad_promotionId = 7, ad_code = ''TEN'', ad_discountPaise = 100, ad_freeShipping = True\<rparr> 4900)) = 100"
  using applyDiscountToLines_exact[of "[250, 333, 417]"
    "\<lparr>ad_promotionId = 7, ad_code = ''TEN'', ad_discountPaise = 100, ad_freeShipping = True\<rparr>" 4900]
  by (simp split: prod.splits)

end
