(* ===== verification/Tax.thy ===== *)
theory Tax
  imports Errors Enums Apportion
begin

text \<open>
  The GST engine, \<open>packages/core/src/tax/index.ts\<close>: half-up division, per-line tax with the
  CGST/SGST/IGST split, the Indian financial year of an instant, the document type a seller may
  issue and the largest-remainder allocation.  The lemmas characterise half-up rounding, show
  that the split adds up to the tax and the allocation to its total, and place the financial
  year between its two first-of-April midnights (IST).
\<close>

section \<open>Data\<close>

record taxable_line =
  tl_lineId :: string
  tl_taxablePaise :: paise
  tl_taxRateBps :: int

record tax_context =
  tc_sellerStateCode :: string
  tc_placeOfSupplyStateCode :: string
  tc_registrationType :: tax_registration_type
  tc_inclusive :: bool

record line_tax =
  lt_lineId :: string
  lt_taxableExclusivePaise :: paise
  lt_cgstPaise :: paise
  lt_sgstPaise :: paise
  lt_igstPaise :: paise
  lt_taxPaise :: paise

section \<open>Half-up division\<close>

definition divHalfUp :: "int \<Rightarrow> int \<Rightarrow> int res" where
  "divHalfUp numer denom =
    (if denom = 0 then Inl (JsError ''RangeError'') else
     let negative = (numer < 0) \<noteq> (denom < 0);
         n = (if numer < 0 then - numer else numer);
         d = (if denom < 0 then - denom else denom);
         q = n div d;
         r = n mod d;
         magnitude = (if r * 2 \<ge> d then q + 1 else q);
         out = (if negative then - magnitude else magnitude)
     in if \<not> is_safe_integer out then Inl (JsError ''divHalfUp'') else Inr out)"

definition roundHalfUp :: "int \<Rightarrow> int \<Rightarrow> int res" where
  "roundHalfUp numer denom =
    (if \<not> is_safe_integer numer then Inl (JsError ''roundHalfUp'')
     else if \<not> is_safe_integer denom \<or> denom = 0 then Inl (JsError ''roundHalfUp'')
     else divHalfUp numer denom)"

text \<open>
  What half-up rounding promises: \<open>x\<close> is within half of \<open>n / d\<close>, and on an exact half it is the
  candidate away from zero.
\<close>

definition is_half_up :: "int \<Rightarrow> int \<Rightarrow> int \<Rightarrow> bool" where
  "is_half_up n d x \<longleftrightarrow>
     2 * \<bar>x * d - n\<bar> \<le> \<bar>d\<bar> \<and> (2 * \<bar>x * d - n\<bar> = \<bar>d\<bar> \<longrightarrow> \<bar>n\<bar> < \<bar>x * d\<bar>)"

lemma half_up_magnitude:
  fixes n d :: int
  assumes "0 \<le> n" "0 < d"
  defines "m \<equiv> (if n mod d * 2 \<ge> d then n div d + 1 else n div d)"
  shows "2 * \<bar>m * d - n\<bar> \<le> d" "2 * \<bar>m * d - n\<bar> = d \<longrightarrow> n < m * d" "0 \<le> m" "m \<le> n"
proof -
  define q where "q = n div d"
  define r where "r = n mod d"
  have n: "n = q * d + r" by (simp add: q_def r_def)
  have r: "0 \<le> r" "r < d" using assms(2) by (simp_all add: r_def)
  have q: "0 \<le> q" using assms by (simp add: q_def pos_imp_zdiv_nonneg_iff)
  have m: "m = (if r * 2 \<ge> d then q + 1 else q)" by (simp add: m_def q_def r_def)
  have up: "(q + 1) * d - n = d - r" and down: "q * d - n = - r"
    using n by (simp_all add: algebra_simps)
  show "2 * \<bar>m * d - n\<bar> \<le> d" "2 * \<bar>m * d - n\<bar> = d \<longrightarrow> n < m * d"
    using r up down unfolding m by (auto split: if_splits)
  show "0 \<le> m" using q by (simp add: m)
  have qd: "q \<le> q * d" using q assms(2) by (simp add: mult_le_cancel_left1)
  show "m \<le> n"
  proof (cases "r * 2 \<ge> d")
    case True
    then have "1 \<le> r" using r by linarith
    with True m n qd show ?thesis by simp
  next
    case False
    with m n qd r show ?thesis by simp
  qed
qed

lemma divHalfUp_is_half_up:
  assumes "divHalfUp n d = Inr x"
  shows "is_half_up n d x"
proof -
  have d0: "d \<noteq> 0" using assms by (auto simp: divHalfUp_def)
  define m where "m = (if \<bar>n\<bar> mod \<bar>d\<bar> * 2 \<ge> \<bar>d\<bar> then \<bar>n\<bar> div \<bar>d\<bar> + 1 else \<bar>n\<bar> div \<bar>d\<bar>)"
  note M = half_up_magnitude[of "\<bar>n\<bar>" "\<bar>d\<bar>", folded m_def]
  have m: "2 * \<bar>m * \<bar>d\<bar> - \<bar>n\<bar>\<bar> \<le> \<bar>d\<bar>" "2 * \<bar>m * \<bar>d\<bar> - \<bar>n\<bar>\<bar> = \<bar>d\<bar> \<longrightarrow> \<bar>n\<bar> < m * \<bar>d\<bar>" "0 \<le> m"
    using M d0 by auto
  have x: "x = (if (n < 0) \<noteq> (d < 0) then - m else m)"
    using assms d0 unfolding divHalfUp_def Let_def m_def abs_if by (auto split: if_splits)
  have xd: "x * d = (if n < 0 then - (m * \<bar>d\<bar>) else m * \<bar>d\<bar>)"
    using x d0 by (auto simp: abs_if)
  have "0 \<le> m * \<bar>d\<bar>" using m(3) by simp
  then have "\<bar>x * d - n\<bar> = \<bar>m * \<bar>d\<bar> - \<bar>n\<bar>\<bar>" "\<bar>x * d\<bar> = m * \<bar>d\<bar>"
    unfolding xd by (auto simp: abs_if split: if_splits)
  with m show ?thesis by (simp add: is_half_up_def)
qed

text \<open>On non-negative numerators the result has a closed form, so the promise is complete there.\<close>

lemma divHalfUp_nonneg:
  assumes "0 \<le> n" "0 < d"
  shows "divHalfUp n d =
    (let x = (2 * n + d) div (2 * d) in if is_safe_integer x then Inr x else Inl (JsError ''divHalfUp''))"
proof -
  define q where "q = n div d"
  define r where "r = n mod d"
  have n: "n = q * d + r" by (simp add: q_def r_def)
  have r: "0 \<le> r" "r < d" using assms(2) by (simp_all add: r_def)
  have "(2 * n + d) div (2 * d) = (if r * 2 \<ge> d then q + 1 else q)"
  proof (cases "r * 2 \<ge> d")
    case True
    have "2 * n + d = (q + 1) * (2 * d) + (2 * r - d)" using n by (simp add: algebra_simps)
    then have "(2 * n + d) div (2 * d) = q + 1" by (rule int_div_eqI) (use True r in auto)
    with True show ?thesis by simp
  next
    case False
    have "2 * n + d = q * (2 * d) + (2 * r + d)" using n by (simp add: algebra_simps)
    then have "(2 * n + d) div (2 * d) = q" by (rule int_div_eqI) (use False r in auto)
    with False show ?thesis by simp
  qed
  then show ?thesis using assms by (simp add: divHalfUp_def q_def r_def Let_def)
qed

lemma divHalfUp_total:
  assumes "d \<noteq> 0" "is_safe_integer n"
  shows "\<exists>x. divHalfUp n d = Inr x"
proof -
  define m where "m = (if \<bar>n\<bar> mod \<bar>d\<bar> * 2 \<ge> \<bar>d\<bar> then \<bar>n\<bar> div \<bar>d\<bar> + 1 else \<bar>n\<bar> div \<bar>d\<bar>)"
  have "0 \<le> m" "m \<le> \<bar>n\<bar>"
    using half_up_magnitude[of "\<bar>n\<bar>" "\<bar>d\<bar>", folded m_def] assms(1) by auto
  moreover have "is_safe_integer \<bar>n\<bar>" using assms(2) by (auto simp: abs_if)
  ultimately have "is_safe_integer m" by (intro is_safe_integer_between[of "\<bar>n\<bar>" m])
  then have "divHalfUp n d = Inr (if (n < 0) \<noteq> (d < 0) then - m else m)"
    using assms(1) unfolding divHalfUp_def Let_def m_def abs_if by auto
  then show ?thesis by blast
qed


section \<open>Tax per line\<close>

definition normalizeStateCode :: "string \<Rightarrow> string" where
  "normalizeStateCode code = to_upper (trim code)"

definition line_issues :: "nat \<Rightarrow> taxable_line \<Rightarrow> string list" where
  "line_issues i line =
    (if \<not> is_safe_integer (tl_taxablePaise line) \<or> tl_taxablePaise line < 0
     then [''lines['' @ show_nat i @ ''].taxablePaise''] else []) @
    (if \<not> is_safe_integer (tl_taxRateBps line) \<or> tl_taxRateBps line < 0
     then [''lines['' @ show_nat i @ ''].taxRateBps''] else [])"

definition compute_line_tax :: "tax_context \<Rightarrow> taxable_line \<Rightarrow> line_tax res" where
  "compute_line_tax ctx line =
    (let charged = (tc_registrationType ctx = regular);
         intraState = (normalizeStateCode (tc_sellerStateCode ctx) = normalizeStateCode (tc_placeOfSupplyStateCode ctx))
     in if \<not> charged \<or> tl_taxRateBps line = 0 \<or> tl_taxablePaise line = 0 then
          Inr \<lparr>lt_lineId = tl_lineId line, lt_taxableExclusivePaise = tl_taxablePaise line,
               lt_cgstPaise = 0, lt_sgstPaise = 0, lt_igstPaise = 0, lt_taxPaise = 0\<rparr>
        else
          let gross = tl_taxablePaise line; rate = tl_taxRateBps line in
          rbind (if tc_inclusive ctx then divHalfUp (gross * rate) (10000 + rate)
                 else divHalfUp (gross * rate) 10000) (\<lambda>taxPaise.
          rbind (if intraState then divHalfUp taxPaise 2 else Inr 0) (\<lambda>cgstPaise.
          Inr \<lparr>lt_lineId = tl_lineId line,
               lt_taxableExclusivePaise =
                 (if tc_inclusive ctx then tl_taxablePaise line - taxPaise else tl_taxablePaise line),
               lt_cgstPaise = cgstPaise,
               lt_sgstPaise = (if intraState then taxPaise - cgstPaise else 0),
               lt_igstPaise = (if intraState then 0 else taxPaise),
               lt_taxPaise = taxPaise\<rparr>)))"

definition computeLineTaxes :: "taxable_line list \<Rightarrow> tax_context \<Rightarrow> line_tax list res" where
  "computeLineTaxes lines ctx =
    (let issues = concat (map (\<lambda>(i, line). line_issues i line) (enumerate 0 lines))
     in if issues \<noteq> [] then Inl (invalidPayload issues)
        else rmap (compute_line_tax ctx) lines)"

definition valid_line :: "taxable_line \<Rightarrow> bool" where
  "valid_line l \<longleftrightarrow> 0 \<le> tl_taxablePaise l \<and> is_safe_integer (tl_taxablePaise l) \<and>
     0 \<le> tl_taxRateBps l \<and> is_safe_integer (tl_taxRateBps l)"

lemma line_issues_Nil: "line_issues i l = [] \<longleftrightarrow> valid_line l"
  by (auto simp: line_issues_def valid_line_def)

lemma no_issues_iff:
  "concat (map (\<lambda>(i, line). line_issues i line) (enumerate n lines)) = [] \<longleftrightarrow> (\<forall>l \<in> set lines. valid_line l)"
  by (induction lines arbitrary: n) (auto simp: line_issues_Nil)

lemma computeLineTaxes_Inr_iff:
  "computeLineTaxes lines ctx = Inr ts \<longleftrightarrow>
     (\<forall>l \<in> set lines. valid_line l) \<and> list_all2 (\<lambda>l t. compute_line_tax ctx l = Inr t) lines ts"
  unfolding computeLineTaxes_def Let_def no_issues_iff[of 0 lines, symmetric]
  by (simp add: rmap_Inr_iff del: concat_eq_Nil_conv)

text \<open>What one taxed line looks like.\<close>

definition line_tax_ok :: "tax_context \<Rightarrow> taxable_line \<Rightarrow> line_tax \<Rightarrow> bool" where
  "line_tax_ok ctx l t \<longleftrightarrow>
     lt_lineId t = tl_lineId l \<and>
     lt_cgstPaise t + lt_sgstPaise t + lt_igstPaise t = lt_taxPaise t \<and>
     0 \<le> lt_sgstPaise t \<and> lt_sgstPaise t \<le> lt_cgstPaise t \<and> lt_cgstPaise t \<le> lt_sgstPaise t + 1 \<and>
     0 \<le> lt_igstPaise t \<and> 0 \<le> lt_taxableExclusivePaise t \<and>
     (if normalizeStateCode (tc_sellerStateCode ctx) = normalizeStateCode (tc_placeOfSupplyStateCode ctx)
      then lt_igstPaise t = 0 else lt_cgstPaise t = 0 \<and> lt_sgstPaise t = 0) \<and>
     (tc_inclusive ctx \<longrightarrow> lt_taxableExclusivePaise t + lt_taxPaise t = tl_taxablePaise l) \<and>
     (\<not> tc_inclusive ctx \<longrightarrow> lt_taxableExclusivePaise t = tl_taxablePaise l) \<and>
     (if tc_registrationType ctx = regular
      then is_half_up (tl_taxablePaise l * tl_taxRateBps l)
             (if tc_inclusive ctx then 10000 + tl_taxRateBps l else 10000) (lt_taxPaise t)
      else lt_taxPaise t = 0)"

lemma half_up_2:
  assumes "0 \<le> t" "divHalfUp t 2 = Inr c"
  shows "0 \<le> t - c" "t - c \<le> c" "c \<le> t - c + 1"
proof -
  have "c = (2 * t + 2) div 4" using assms by (simp add: divHalfUp_nonneg Let_def split: if_splits)
  then show "0 \<le> t - c" "t - c \<le> c" "c \<le> t - c + 1" using assms(1) by presburger+
qed

lemma inclusive_tax_bounds:
  assumes "0 \<le> g" "0 \<le> r" "divHalfUp (g * r) (10000 + r) = Inr t"
  shows "0 \<le> t" "t \<le> g"
proof -
  have t: "t = (2 * (g * r) + (10000 + r)) div (2 * (10000 + r))"
    using assms by (simp add: divHalfUp_nonneg Let_def split: if_splits)
  show "0 \<le> t" using assms(1,2) by (simp add: t pos_imp_zdiv_nonneg_iff)
  have "2 * (g * r) + (10000 + r) < (g + 1) * (2 * (10000 + r))"
    using assms(1,2) by (simp add: algebra_simps)
  then have "t < g + 1" using assms(2) unfolding t by (intro int_div_lessI) auto
  then show "t \<le> g" by simp
qed


lemma compute_line_tax_ok:
  assumes "valid_line l" "compute_line_tax ctx l = Inr t"
  shows "line_tax_ok ctx l t"
proof (cases "tc_registrationType ctx \<noteq> regular \<or> tl_taxRateBps l = 0 \<or> tl_taxablePaise l = 0")
  case True
  then show ?thesis using assms
    by (auto simp: compute_line_tax_def line_tax_ok_def is_half_up_def valid_line_def)
next
  case False
  define g where "g = tl_taxablePaise l"
  define r where "r = tl_taxRateBps l"
  define d where "d = (if tc_inclusive ctx then 10000 + r else 10000)"
  have gr: "0 \<le> g" "0 \<le> r" using assms(1) by (simp_all add: valid_line_def g_def r_def)
  have d: "0 < d" using gr by (simp add: d_def)
  let ?same = "normalizeStateCode (tc_sellerStateCode ctx) = normalizeStateCode (tc_placeOfSupplyStateCode ctx)"
  obtain x c where x: "divHalfUp (g * r) d = Inr x"
    and c: "(if ?same then divHalfUp x 2 else Inr 0) = Inr c"
    and t: "t = \<lparr>lt_lineId = tl_lineId l, lt_taxableExclusivePaise = (if tc_inclusive ctx then g - x else g),
      lt_cgstPaise = c, lt_sgstPaise = (if ?same then x - c else 0),
      lt_igstPaise = (if ?same then 0 else x), lt_taxPaise = x\<rparr>"
    using assms(2) False
    by (auto simp: compute_line_tax_def Let_def rbind_eq_Inr g_def r_def d_def split: if_splits)
  have x0: "0 \<le> x"
    using x gr d by (auto simp: divHalfUp_nonneg Let_def pos_imp_zdiv_nonneg_iff split: if_splits)
  have xg: "tc_inclusive ctx \<Longrightarrow> x \<le> g"
    using x inclusive_tax_bounds(2)[OF gr, of x] by (simp add: d_def)
  have cs: "?same \<Longrightarrow> 0 \<le> x - c \<and> x - c \<le> c \<and> c \<le> x - c + 1"
    using c half_up_2[OF x0, of c] by simp
  have "c = 0" if "\<not> ?same" using c that by simp
  with divHalfUp_is_half_up[OF x] x0 xg cs gr False show ?thesis
    by (auto simp: line_tax_ok_def t d_def g_def[symmetric] r_def[symmetric])
qed

lemma compute_line_tax_inclusive_total:
  assumes "valid_line l" "tc_inclusive ctx"
  shows "\<exists>t. compute_line_tax ctx l = Inr t"
proof -
  define g where "g = tl_taxablePaise l"
  define r where "r = tl_taxRateBps l"
  have gr: "0 \<le> g" "0 \<le> r" and sg: "is_safe_integer g"
    using assms(1) by (simp_all add: valid_line_def g_def r_def)
  define x where "x = (2 * (g * r) + (10000 + r)) div (2 * (10000 + r))"
  have "0 \<le> x" "x \<le> g"
  proof -
    show "0 \<le> x" using gr by (simp add: x_def pos_imp_zdiv_nonneg_iff)
    have "2 * (g * r) + (10000 + r) < (g + 1) * (2 * (10000 + r))"
      using gr by (simp add: algebra_simps)
    then have "x < g + 1" using gr unfolding x_def by (intro int_div_lessI) auto
    then show "x \<le> g" by simp
  qed
  then have sx: "is_safe_integer x" using sg by (intro is_safe_integer_between[of g x])
  have dx: "divHalfUp (g * r) (10000 + r) = Inr x"
    using gr sx by (simp add: divHalfUp_nonneg x_def)
  obtain c where "divHalfUp x 2 = Inr c" using divHalfUp_total[of 2 x] sx by auto
  with dx assms(2) show ?thesis
    by (simp add: compute_line_tax_def Let_def g_def[symmetric] r_def[symmetric])
qed

text \<open>Tax-inclusive pricing, the one mode checkout uses, never throws on valid lines.\<close>

lemma computeLineTaxes_inclusive_total:
  assumes "\<forall>l \<in> set lines. valid_line l" "tc_inclusive ctx"
  obtains ts where "computeLineTaxes lines ctx = Inr ts" "list_all2 (line_tax_ok ctx) lines ts"
proof -
  obtain ts where ts: "rmap (compute_line_tax ctx) lines = Inr ts"
    using rmap_total[of lines "compute_line_tax ctx"] compute_line_tax_inclusive_total assms by blast
  then have "list_all2 (\<lambda>l t. compute_line_tax ctx l = Inr t) lines ts" by (simp add: rmap_Inr_iff)
  then have "list_all2 (line_tax_ok ctx) lines ts"
    by (rule list.rel_mono_strong) (use assms(1) compute_line_tax_ok in blast)
  moreover have "computeLineTaxes lines ctx = Inr ts"
    using assms(1) ts by (simp add: computeLineTaxes_Inr_iff rmap_Inr_iff)
  ultimately show thesis using that by blast
qed

section \<open>The document a seller may issue\<close>

fun docTypeFor :: "tax_registration_type \<Rightarrow> invoice_doc_type" where
  "docTypeFor regular = tax_invoice"
| "docTypeFor unregistered = bill_of_supply"
| "docTypeFor composition = bill_of_supply"

section \<open>The Indian financial year\<close>

text \<open>
  \<open>Date\<close>'s UTC calendar fields as ECMAScript defines them: the day number of a year's first day,
  the year whose days contain a day (found by stepping from a first guess), and the month by the
  day within the year.
\<close>

definition ms_per_day :: int where
  "ms_per_day = 86400000"

definition day_from_year :: "int \<Rightarrow> int" where
  "day_from_year y = 365 * (y - 1970) + (y - 1969) div 4 - (y - 1901) div 100 + (y - 1601) div 400"

lemma day_from_year_step:
  "day_from_year (y + 1) - day_from_year y \<in> {365, 366}"
proof -
  have a: "(y - 1968) div 4 = (y - 1969) div 4 + (if 4 dvd y - 1968 then 1 else 0)"
    using int_div_succ[of 4 "y - 1969"] by simp
  have b: "(y - 1900) div 100 = (y - 1901) div 100 + (if 100 dvd y - 1900 then 1 else 0)"
    using int_div_succ[of 100 "y - 1901"] by simp
  have c: "(y - 1600) div 400 = (y - 1601) div 400 + (if 400 dvd y - 1600 then 1 else 0)"
    using int_div_succ[of 400 "y - 1601"] by simp
  have d: "400 dvd y - 1600 \<longrightarrow> 100 dvd y - 1900" "100 dvd y - 1900 \<longrightarrow> 4 dvd y - 1968"
  proof -
    have "100 dvd y - 1900" if "400 dvd y - 1600"
    proof -
      have "100 dvd y - 1600" using that by (rule dvd_trans[rotated]) simp
      then have "100 dvd (y - 1600) - 300" by (rule dvd_diff) simp
      then show ?thesis by simp
    qed
    then show "400 dvd y - 1600 \<longrightarrow> 100 dvd y - 1900" by blast
    have "4 dvd y - 1968" if "100 dvd y - 1900"
    proof -
      have "4 dvd y - 1900" using that by (rule dvd_trans[rotated]) simp
      then have "4 dvd (y - 1900) - 68" by (rule dvd_diff) simp
      then show ?thesis by simp
    qed
    then show "100 dvd y - 1900 \<longrightarrow> 4 dvd y - 1968" by blast
  qed
  show ?thesis using d unfolding day_from_year_def
    by (simp add: a b c algebra_simps split: if_splits)
qed

function year_search :: "int \<Rightarrow> int \<Rightarrow> int" where
  "year_search y d =
    (if d < day_from_year y then year_search (y - 1) d
     else if day_from_year (y + 1) \<le> d then year_search (y + 1) d
     else y)"
  by pat_completeness auto
termination
proof (relation "measure (\<lambda>(y, d). nat (if d < day_from_year y then day_from_year y - d + 1000 else d - day_from_year y))")
  fix y d :: int
  have s: "day_from_year y - day_from_year (y - 1) \<in> {365, 366}" using day_from_year_step[of "y - 1"] by simp
  assume "d < day_from_year y"
  then show "((y - 1, d), (y, d)) \<in> measure (\<lambda>(y, d). nat (if d < day_from_year y then day_from_year y - d + 1000 else d - day_from_year y))"
    using s by auto
next
  fix y d :: int
  assume "\<not> d < day_from_year y" "day_from_year (y + 1) \<le> d"
  then show "((y + 1, d), (y, d)) \<in> measure (\<lambda>(y, d). nat (if d < day_from_year y then day_from_year y - d + 1000 else d - day_from_year y))"
    using day_from_year_step[of y] by auto
qed auto

declare year_search.simps [simp del]

lemma year_search_spec:
  "day_from_year (year_search y d) \<le> d \<and> d < day_from_year (year_search y d + 1)"
proof (induction y d rule: year_search.induct)
  case (1 y d)
  show ?case
  proof (cases "d < day_from_year y \<or> day_from_year (y + 1) \<le> d")
    case True
    then show ?thesis using 1 by (simp add: year_search.simps[of y d])
  next
    case False
    then show ?thesis by (simp add: year_search.simps[of y d])
  qed
qed

definition utc_day :: "millis \<Rightarrow> int" where
  "utc_day t = t div ms_per_day"

definition getUTCFullYear :: "millis \<Rightarrow> int" where
  "getUTCFullYear t = year_search (1970 + utc_day t div 366) (utc_day t)"

definition leap_day :: "int \<Rightarrow> int" where
  "leap_day y = day_from_year (y + 1) - day_from_year y - 365"

definition getUTCMonth :: "millis \<Rightarrow> int" where
  "getUTCMonth t =
    (let y = getUTCFullYear t; d = utc_day t - day_from_year y; l = leap_day y in
     if d < 31 then 0 else if d < 59 + l then 1 else if d < 90 + l then 2 else if d < 120 + l then 3
     else if d < 151 + l then 4 else if d < 181 + l then 5 else if d < 212 + l then 6
     else if d < 243 + l then 7 else if d < 273 + l then 8 else if d < 304 + l then 9
     else if d < 334 + l then 10 else 11)"

definition IST_OFFSET_MS :: int where
  "IST_OFFSET_MS = 330 * 60 * 1000"

definition fy_start_year :: "millis \<Rightarrow> int" where
  "fy_start_year at =
    (let ist = at + IST_OFFSET_MS; year = getUTCFullYear ist; month = getUTCMonth ist
     in if month \<ge> 3 then year else year - 1)"

definition financialYearOf :: "millis option \<Rightarrow> string res" where
  "financialYearOf at = (case at of
     None \<Rightarrow> Inl (JsError ''financialYearOf: invalid Date'')
   | Some t \<Rightarrow>
       let startYear = fy_start_year t;
           endYY = pad_start 2 (CHR ''0'') (show_int (js_rem (startYear + 1) 100))
       in Inr (show_int startYear @ ''-'' @ endYY))"

text \<open>Midnight of 1 April of a year, Indian time.\<close>

definition fy_begins :: "int \<Rightarrow> millis" where
  "fy_begins y = (day_from_year y + 90 + leap_day y) * ms_per_day - IST_OFFSET_MS"

lemma fy_start_year_bounds:
  "fy_begins (fy_start_year at) \<le> at \<and> at < fy_begins (fy_start_year at + 1)"
proof -
  define t where "t = at + IST_OFFSET_MS"
  define y where "y = getUTCFullYear t"
  define d where "d = utc_day t"
  have y: "day_from_year y \<le> d" "d < day_from_year (y + 1)"
    using year_search_spec by (simp_all add: y_def getUTCFullYear_def d_def)
  have t: "d * ms_per_day \<le> t" "t < (d + 1) * ms_per_day"
    unfolding d_def utc_day_def using int_div_bounds[of ms_per_day t] by (simp_all add: ms_per_day_def)
  have leap: "leap_day z \<in> {0, 1}" for z using day_from_year_step[of z] by (auto simp: leap_day_def)
  have next_y: "day_from_year (z + 1) = day_from_year z + 365 + leap_day z" for z
    by (simp add: leap_day_def)
  have mult: "a \<le> b \<Longrightarrow> a * ms_per_day \<le> b * ms_per_day" for a b by (simp add: ms_per_day_def)
  show ?thesis
  proof (cases "d - day_from_year y < 90 + leap_day y")
    case True
    have "getUTCMonth t < 3"
      using True leap[of y] by (auto simp: getUTCMonth_def Let_def y_def[symmetric] d_def[symmetric])
    then have s: "fy_start_year at = y - 1" by (simp add: fy_start_year_def t_def[symmetric] y_def Let_def)
    have "day_from_year (y - 1) + 90 + leap_day (y - 1) \<le> d"
      using y(1) next_y[of "y - 1"] leap[of "y - 1"] by simp
    moreover have "d + 1 \<le> day_from_year y + 90 + leap_day y" using True by simp
    ultimately have "(day_from_year (y - 1) + 90 + leap_day (y - 1)) * ms_per_day \<le> t"
      "t < (day_from_year y + 90 + leap_day y) * ms_per_day"
      using t mult by (meson order.trans order.strict_trans2)+
    then show ?thesis unfolding s fy_begins_def t_def by simp
  next
    case False
    have "3 \<le> getUTCMonth t"
      using False leap[of y] by (auto simp: getUTCMonth_def Let_def y_def[symmetric] d_def[symmetric])
    then have s: "fy_start_year at = y" by (simp add: fy_start_year_def t_def[symmetric] y_def Let_def)
    have "day_from_year y + 90 + leap_day y \<le> d" using False by simp
    moreover have "d + 1 \<le> day_from_year (y + 1) + 90 + leap_day (y + 1)"
      using y(2) leap[of "y + 1"] by auto
    ultimately have "(day_from_year y + 90 + leap_day y) * ms_per_day \<le> t"
      "t < (day_from_year (y + 1) + 90 + leap_day (y + 1)) * ms_per_day"
      using t mult by (meson order.trans order.strict_trans2)+
    then show ?thesis unfolding s fy_begins_def t_def by simp
  qed
qed


section \<open>Largest-remainder allocation\<close>

definition allocateProportionally :: "int \<Rightarrow> int list \<Rightarrow> int list res" where
  "allocateProportionally totalPaise weights =
    (let issues =
       (if \<not> is_safe_integer totalPaise \<or> totalPaise < 0 then [''totalPaise''] else []) @
       concat (map (\<lambda>(i, w). if \<not> is_safe_integer w \<or> w < 0 then [''weights['' @ show_nat i @ '']''] else [])
                 (enumerate 0 weights))
     in if issues \<noteq> [] then Inl (invalidPayload issues) else
     let totalWeight = sum_list weights in
     if totalWeight = 0 then
       (if totalPaise = 0 then Inr (map (\<lambda>_. 0) weights) else Inl (invalidPayload [''weights'']))
     else
     let shares = map (\<lambda>weight. totalPaise * weight div totalWeight) weights;
         remainders = map (\<lambda>(index, weight). (index, totalPaise * weight mod totalWeight)) (enumerate 0 weights);
         allocated = sum_list shares;
         leftover = totalPaise - allocated;
         byRemainder = sort_key (\<lambda>(index, remainder). (- remainder, index)) remainders
     in if nat leftover > length byRemainder then Inl (JsError ''TypeError'')
        else Inr (bump_all (map fst (take (nat leftover) byRemainder)) shares))"

definition valid_allocation :: "int \<Rightarrow> int list \<Rightarrow> bool" where
  "valid_allocation totalPaise weights \<longleftrightarrow> 0 \<le> totalPaise \<and> is_safe_integer totalPaise \<and>
     (\<forall>w \<in> set weights. 0 \<le> w \<and> is_safe_integer w) \<and> 0 < sum_list weights"

definition allocated_shares :: "int \<Rightarrow> int list \<Rightarrow> int list" where
  "allocated_shares totalPaise weights =
     (case allocateProportionally totalPaise weights of Inr xs \<Rightarrow> xs | Inl _ \<Rightarrow> [])"

lemma enumerate_issue_free:
  "concat (map (\<lambda>(i, w). if bad w then [f i] else []) (enumerate n ws)) = [] \<longleftrightarrow> (\<forall>w \<in> set ws. \<not> bad w)"
  by (induction ws arbitrary: n) auto

lemma allocateProportionally_ok:
  assumes "valid_allocation t ws"
  obtains out where "allocateProportionally t ws = Inr out" "sum_list out = t" "quota t ws out"
proof -
  define rems where "rems = map (\<lambda>(index, w). (index, t * w mod sum_list ws)) (enumerate 0 ws)"
  define ranked where "ranked = sort_key (\<lambda>(index, r). (- r, index)) rems"
  define k where "k = nat (t - sum_list (floor_shares t ws))"
  have pos: "0 < sum_list ws" using assms by (simp add: valid_allocation_def)
  have fst_rems: "map fst rems = [0..<length (share_remainders t ws)]"
    by (simp add: rems_def map_fst_enumerate_map del: map_map)
  have snd_rems: "map snd rems = share_remainders t ws"
    by (simp add: rems_def map_snd_enumerate_map share_remainders_def del: map_map)
  have kle: "k \<le> length (filter (\<lambda>r. 0 < r) (share_remainders t ws))"
    using leftover_bounds[OF pos, of t] by (simp add: k_def)
  note P = ranked_positions[where key = "\<lambda>(index, r). (- r, index)", OF fst_rems snd_rems _ kle, folded ranked_def]
  have pr: "distinct (map fst (take k ranked))" "length (map fst (take k ranked)) = k"
    "\<And>i. i \<in> set (map fst (take k ranked)) \<Longrightarrow> i < length (share_remainders t ws) \<and> 0 < share_remainders t ws ! i"
    by (rule P; force)+
  have int_k: "int k = t - sum_list (floor_shares t ws)"
    using leftover_bounds[OF pos, of t] by (simp add: k_def)
  have H: "sum_list (bump_all (map fst (take k ranked)) (floor_shares t ws)) = t"
    "quota t ws (bump_all (map fst (take k ranked)) (floor_shares t ws))"
    by (rule hand_out_quota[OF pos pr(1)]; use pr(2,3) int_k in simp)+
  have len: "length ranked = length ws" by (simp add: ranked_def rems_def)
  have "k \<le> length ws" using le_trans[OF kle length_filter_le] by simp
  then have "allocateProportionally t ws = Inr (bump_all (map fst (take k ranked)) (floor_shares t ws))"
    using assms pos len unfolding allocateProportionally_def Let_def enumerate_issue_free
    by (auto simp: valid_allocation_def k_def[symmetric] floor_shares_def[symmetric] rems_def[symmetric]
        ranked_def[symmetric] enumerate_issue_free simp del: concat_eq_Nil_conv)
  with H that show thesis by blast
qed

interpretation taxAlloc: apportionment valid_allocation allocated_shares
proof
  fix t ws
  assume v: "valid_allocation t ws"
  from v show "0 \<le> t" "0 < sum_list ws" by (simp_all add: valid_allocation_def)
  from v show "0 \<le> w" if "w \<in> set ws" for w using that by (simp add: valid_allocation_def)
  show "sum_list (allocated_shares t ws) = t" "quota t ws (allocated_shares t ws)"
    by (rule allocateProportionally_ok[OF v]; simp add: allocated_shares_def)+
qed

section \<open>Properties\<close>

text \<open>
  C11.  Line taxes, whatever the context: when the lines come back, every line was valid and every
  line's tax is \<open>cgst + sgst + igst\<close> to the paisa, the two halves of an intra-state tax differ by
  at most one paisa, an inter-state tax is all IGST, a seller not on the regular scheme charges
  nothing, the amount is the exact tax rounded half up, and under tax-inclusive pricing base and tax
  add up to what the buyer pays.  Under tax-inclusive pricing valid lines are never refused.
\<close>

theorem computeLineTaxes_correct:
  "case computeLineTaxes lines ctx of
     Inr ts \<Rightarrow> list_all valid_line lines \<and> list_all2 (line_tax_ok ctx) lines ts
   | Inl e \<Rightarrow> \<not> (tc_inclusive ctx \<and> list_all valid_line lines)"
proof (cases "computeLineTaxes lines ctx")
  case (Inl e)
  have "\<not> (tc_inclusive ctx \<and> list_all valid_line lines)"
    using computeLineTaxes_inclusive_total[of lines ctx] Inl by (auto simp: list_all_iff)
  then show ?thesis using Inl by simp
next
  case (Inr ts)
  then have v: "\<forall>l \<in> set lines. valid_line l" and "list_all2 (\<lambda>l t. compute_line_tax ctx l = Inr t) lines ts"
    by (simp_all add: computeLineTaxes_Inr_iff rmap_Inr_iff)
  then have "list_all2 (line_tax_ok ctx) lines ts"
    by (auto intro: list.rel_mono_strong compute_line_tax_ok)
  then show ?thesis using Inr v by (simp add: list_all_iff)
qed

text \<open>
  Splitting an amount in proportion to weights: the shares add up to the amount exactly, there
  is one per weight, none is negative or a whole paisa off its exact proportional share, and a line of
  weight zero gets nothing.
\<close>

theorem allocateProportionally_exact:
  assumes "valid_allocation totalPaise weights"
  shows "\<exists>xs. allocateProportionally totalPaise weights = Inr xs \<and> length xs = length weights \<and>
     sum_list xs = totalPaise \<and>
     (\<forall>i < length weights. 0 \<le> xs ! i \<and>
        \<bar>xs ! i * sum_list weights - totalPaise * weights ! i\<bar> < sum_list weights \<and>
        (weights ! i = 0 \<longrightarrow> xs ! i = 0))"
proof -
  obtain xs where xs: "allocateProportionally totalPaise weights = Inr xs"
    using allocateProportionally_ok[OF assms] by blast
  then have e: "allocated_shares totalPaise weights = xs" by (simp add: allocated_shares_def)
  show ?thesis
    using xs taxAlloc.alloc_length[OF assms] taxAlloc.alloc_sum[OF assms] taxAlloc.alloc_nonneg[OF assms]
      taxAlloc.alloc_within_one[OF assms] taxAlloc.alloc_zero_weight[OF assms]
    unfolding e by simp
qed

theorem allocateProportionally_exact_witness:
  "\<exists>xs. allocateProportionally 100 [1, 1, 1] = Inr xs \<and> length xs = 3 \<and> sum_list xs = 100"
proof -
  have "valid_allocation 100 [1, 1, 1]"
    by (simp add: valid_allocation_def is_safe_integer_def max_safe_integer_def)
  from allocateProportionally_exact[OF this] show ?thesis by auto
qed

text \<open>
  The financial year of an instant: the label is the year whose 1 April (midnight, Indian
  time) is the last one at or before the instant, followed by the last two digits of the next year;
  the years tile the time line.
\<close>

theorem financialYearOf_correct:
  "\<exists>y. financialYearOf (Some t) =
          Inr (show_int y @ ''-'' @ pad_start 2 (CHR ''0'') (show_int (js_rem (y + 1) 100))) \<and>
       fy_begins y \<le> t \<and> t < fy_begins (y + 1)"
  using fy_start_year_bounds[of t] by (auto simp: financialYearOf_def Let_def)

end
