(* ===== verification/Store.thy ===== *)
theory Store
  imports Tx Enums Settings Promotions Tax
begin

text \<open>
  One tenant's data plane: the tables of \<open>packages/db/src/schema\<close> the commerce code reads and
  writes, as lists of rows in insertion order.  Row-level security makes every query of
  \<open>withTenant(tenantId, ..)\<close> see this tenant only, so the \<open>tenant_id\<close> columns are left out; so
  are \<open>created_at\<close>/\<open>updated_at\<close> bookkeeping (but the \<open>updated_at\<close> of a cart, by which idle carts are swept), the currency (always INR) and the request metadata
  (ip, user agent, request id).  CHECK constraints and unique indexes are tests at the writes they
  guard, with the SQLSTATE and constraint name the handlers look for.
\<close>

section \<open>Catalog and tenant rows the commerce core reads\<close>

record tenant_row =
  tn_legalName :: string
  tn_gstin :: "string option"
  tn_originStateCode :: "string option"
  tn_taxRegistrationType :: tax_registration_type

record product_row =
  pr_id :: uuid
  pr_title :: string
  pr_status :: product_status
  pr_hsnCode :: "string option"
  pr_taxRateBps :: "int option"
  pr_deletedAt :: "millis option"

record variant_row =
  pv_id :: uuid
  pv_productId :: uuid
  pv_sku :: string
  pv_options :: "(string \<times> string) list"
  pv_pricePaise :: paise
  pv_tracksInventory :: bool
  pv_isActive :: bool
  pv_deletedAt :: "millis option"

section \<open>Inventory\<close>

record location_row =
  loc_id :: uuid
  loc_isDefault :: bool

record stock_movement =
  sm_id :: uuid
  sm_variantId :: uuid
  sm_locationId :: uuid
  sm_delta :: int
  sm_reason :: stock_movement_reason
  sm_note :: "string option"
  sm_referenceType :: "string option"
  sm_referenceId :: "uuid option"
  sm_idempotencyKey :: "string option"
  sm_createdByUserId :: "uuid option"

record stock_level =
  sl_variantId :: uuid
  sl_locationId :: uuid
  sl_onHand :: int

record stock_reservation =
  rs_variantId :: uuid
  rs_locationId :: uuid
  rs_quantity :: int
  rs_referenceType :: string
  rs_referenceId :: uuid
  rs_expiresAt :: millis

section \<open>Customers, carts and orders\<close>

record address =
  ad_line1 :: string
  ad_line2 :: "string option"
  ad_city :: string
  ad_stateCode :: string
  ad_pincode :: string

record customer_row =
  cu_id :: uuid
  cu_phoneE164 :: string
  cu_email :: "string option"
  cu_name :: "string option"
  cu_firstOrderAt :: "millis option"
  cu_deletedAt :: "millis option"

record cart_row =
  ca_id :: uuid
  ca_status :: cart_status
  ca_buyerName :: "string option"
  ca_buyerPhoneE164 :: "string option"
  ca_buyerEmail :: "string option"
  ca_shippingAddress :: "address option"
  ca_couponCode :: "string option"
  ca_updatedAt :: millis

record cart_line_row =
  cl_id :: uuid
  cl_cartId :: uuid
  cl_variantId :: uuid
  cl_quantity :: int

record order_row =
  or_id :: uuid
  or_orderNumber :: int
  or_channel :: order_channel
  or_status :: order_status
  or_paymentStatus :: order_payment_status
  or_fulfilmentStatus :: order_fulfilment_status
  or_cartId :: "uuid option"
  or_customerId :: "uuid option"
  or_idempotencyKey :: "string option"
  or_checkoutFingerprint :: "string option"
  or_buyerName :: string
  or_buyerPhoneE164 :: string
  or_buyerEmail :: "string option"
  or_shippingAddress :: address
  or_placeOfSupply :: string
  or_buyerGstin :: "string option"
  or_paymentMode :: checkout_payment_mode
  or_subtotalPaise :: paise
  or_discountPaise :: paise
  or_shippingPaise :: paise
  or_taxPaise :: paise
  or_totalPaise :: paise
  or_amountPaidPaise :: paise
  or_codDuePaise :: paise
  or_promotionId :: "uuid option"
  or_couponCodeSnapshot :: "string option"
  or_paymentProvider :: "payment_provider_code option"
  or_gatewayOrderRef :: "string option"
  or_placedAt :: millis
  or_confirmedAt :: "millis option"
  or_cancelledAt :: "millis option"
  or_cancelReason :: "string option"
  or_expiresAt :: "millis option"

record order_line_row =
  ol_id :: uuid
  ol_orderId :: uuid
  ol_kind :: order_line_kind
  ol_variantId :: "uuid option"
  ol_titleSnapshot :: string
  ol_skuSnapshot :: string
  ol_hsnSnapshot :: "string option"
  ol_quantity :: int
  ol_unitPricePaise :: paise
  ol_discountPaise :: paise
  ol_taxablePaise :: paise
  ol_taxRateBps :: int
  ol_cgstPaise :: paise
  ol_sgstPaise :: paise
  ol_igstPaise :: paise
  ol_taxPaise :: paise
  ol_totalPaise :: paise
  ol_position :: nat

record order_event_row =
  oe_id :: uuid
  oe_orderId :: uuid
  oe_event :: string
  oe_fromStatus :: "order_status option"
  oe_toStatus :: "order_status option"
  oe_actorType :: actor_type
  oe_actorUserId :: "uuid option"
  oe_data :: json

section \<open>Payments, invoices and promotions\<close>

record payment_account_row =
  pa_id :: uuid
  pa_providerCode :: payment_provider_code
  pa_label :: string
  pa_publicKeyId :: string
  pa_sealedCredentials :: string
  pa_sealedWebhookSecret :: string
  pa_credentialFingerprint :: string
  pa_isEnabled :: bool
  pa_updatedAt :: millis

record payment_row =
  py_id :: uuid
  py_orderId :: uuid
  py_paymentAccountId :: uuid
  py_providerCode :: payment_provider_code
  py_status :: payment_status
  py_amountPaise :: paise
  py_gatewayOrderId :: "string option"
  py_gatewayPaymentId :: "string option"
  py_method :: "string option"
  py_feePaise :: "paise option"
  py_feeTaxPaise :: "paise option"
  py_errorCode :: "string option"
  py_errorDescription :: "string option"
  py_capturedAt :: "millis option"

record webhook_event_row =
  we_id :: uuid
  we_providerCode :: payment_provider_code
  we_gatewayEventId :: string
  we_eventType :: string
  we_orderId :: "uuid option"
  we_paymentId :: "uuid option"

record refund_row =
  rf_id :: uuid
  rf_orderId :: uuid
  rf_paymentId :: uuid
  rf_amountPaise :: paise
  rf_status :: refund_status
  rf_reason :: string
  rf_gatewayRefundId :: "string option"
  rf_createdByUserId :: "uuid option"

datatype series_code = INV | BOS

record invoice_series_row =
  is_seriesCode :: series_code
  is_financialYear :: string
  is_prefix :: string
  is_nextNumber :: int

record invoice_seller =
  isl_legalName :: string
  isl_gstin :: "string option"
  isl_address :: string
  isl_stateCode :: string
  isl_taxRegistrationType :: tax_registration_type

record invoice_buyer =
  ib_name :: string
  ib_phone :: string
  ib_email :: "string option"
  ib_gstin :: "string option"
  ib_shippingAddress :: address

record invoice_doc_line =
  dl_kind :: order_line_kind
  dl_titleSnapshot :: string
  dl_skuSnapshot :: string
  dl_hsnSnapshot :: "string option"
  dl_quantity :: int
  dl_unitPricePaise :: paise
  dl_discountPaise :: paise
  dl_taxablePaise :: paise
  dl_taxRateBps :: int
  dl_cgstPaise :: paise
  dl_sgstPaise :: paise
  dl_igstPaise :: paise
  dl_taxPaise :: paise
  dl_totalPaise :: paise
  dl_position :: nat

record invoice_row =
  iv_id :: uuid
  iv_orderId :: uuid
  iv_docType :: invoice_doc_type
  iv_seriesCode :: series_code
  iv_financialYear :: string
  iv_number :: int
  iv_invoiceNumber :: string
  iv_issuedAt :: millis
  iv_seller :: invoice_seller
  iv_buyer :: invoice_buyer
  iv_placeOfSupply :: string
  iv_lines :: "invoice_doc_line list"
  iv_subtotalPaise :: paise
  iv_discountPaise :: paise
  iv_taxablePaise :: paise
  iv_cgstPaise :: paise
  iv_sgstPaise :: paise
  iv_igstPaise :: paise
  iv_totalPaise :: paise

record redemption_row =
  rd_id :: uuid
  rd_promotionId :: uuid
  rd_orderId :: uuid
  rd_customerId :: "uuid option"
  rd_slot :: int
  rd_customerSlot :: int
  rd_discountPaise :: paise

record audit_row =
  au_actorType :: actor_type
  au_actorUserId :: "uuid option"
  au_action :: string
  au_entityType :: string
  au_entityId :: "uuid option"
  au_before :: json
  au_after :: json

section \<open>The state\<close>

text \<open>
  \<open>db_now\<close> is the clock of the running operation (PostgreSQL's \<open>now()\<close> and the process's
  \<open>Date.now()\<close> are one clock).  Row ids come from the external \<open>uuidv7\<close> generator: \<open>db_uuidv7\<close> is
  the stream of values it will return and \<open>db_drawn\<close> how many were used.
\<close>

record db =
  db_now :: millis
  db_uuidv7 :: "nat \<Rightarrow> uuid"
  db_drawn :: nat
  db_settings :: store_settings
  db_tenant :: "tenant_row option"
  db_products :: "product_row list"
  db_productCategories :: "(uuid \<times> uuid) list"
  db_variants :: "variant_row list"
  db_locations :: "location_row list"
  db_movements :: "stock_movement list"
  db_levels :: "stock_level list"
  db_reservations :: "stock_reservation list"
  db_customers :: "customer_row list"
  db_carts :: "cart_row list"
  db_cartLines :: "cart_line_row list"
  db_orderCounter :: "int option"
  db_orders :: "order_row list"
  db_orderLines :: "order_line_row list"
  db_orderEvents :: "order_event_row list"
  db_paymentAccounts :: "payment_account_row list"
  db_payments :: "payment_row list"
  db_webhookEvents :: "webhook_event_row list"
  db_refunds :: "refund_row list"
  db_invoiceSeries :: "invoice_series_row list"
  db_invoices :: "invoice_row list"
  db_promotions :: "promotion_data list"
  db_redemptions :: "redemption_row list"
  db_audit :: "audit_row list"

type_synonym 'a dbtx = "(db, 'a) tx"
type_synonym 'a dbaction = "(db, 'a) action"

definition draw_uuid :: "uuid dbtx" where
  "draw_uuid = (\<lambda>db. Inr (db_uuidv7 db (db_drawn db), db\<lparr>db_drawn := Suc (db_drawn db)\<rparr>))"

lemma draw_uuid_run [simp, tx_simps]:
  "draw_uuid db = Inr (db_uuidv7 db (db_drawn db), db\<lparr>db_drawn := Suc (db_drawn db)\<rparr>)"
  by (simp add: draw_uuid_def)

text \<open>\<open>recordAudit\<close>, inside the caller's transaction.\<close>

record audit_entry =
  ae_actorType :: actor_type
  ae_actorUserId :: "uuid option"
  ae_action :: string
  ae_entityType :: string
  ae_entityId :: "uuid option"
  ae_before :: json
  ae_after :: json

definition recordAudit :: "audit_entry \<Rightarrow> unit dbtx" where
  "recordAudit e = twrite (\<lambda>db. db\<lparr>db_audit := db_audit db @
     [\<lparr>au_actorType = ae_actorType e, au_actorUserId = ae_actorUserId e, au_action = ae_action e,
       au_entityType = ae_entityType e, au_entityId = ae_entityId e,
       au_before = ae_before e, au_after = ae_after e\<rparr>]\<rparr>)"

text \<open>PostgreSQL's \<open>integer\<close> column range (SQLSTATE 22003 outside it).\<close>

definition int4_max :: int where
  "int4_max = 2147483647"

definition in_int4 :: "int \<Rightarrow> bool" where
  "in_int4 n \<longleftrightarrow> - int4_max - 1 \<le> n \<and> n \<le> int4_max"

definition integerOutOfRange :: err where
  "integerOutOfRange = PgError ''22003'' ''integer out of range''"

text \<open>A tenant's database before anything was written.\<close>

definition empty_db :: "millis \<Rightarrow> (nat \<Rightarrow> uuid) \<Rightarrow> db" where
  "empty_db now supply =
     \<lparr>db_now = now, db_uuidv7 = supply, db_drawn = 0, db_settings = [], db_tenant = None,
      db_products = [], db_productCategories = [], db_variants = [], db_locations = [],
      db_movements = [], db_levels = [], db_reservations = [], db_customers = [], db_carts = [],
      db_cartLines = [], db_orderCounter = None, db_orders = [], db_orderLines = [],
      db_orderEvents = [], db_paymentAccounts = [], db_payments = [], db_webhookEvents = [],
      db_refunds = [], db_invoiceSeries = [], db_invoices = [], db_promotions = [],
      db_redemptions = [], db_audit = []\<rparr>"

end
