(* ===== verification/Machines.thy ===== *)
theory Machines
  imports Prelude
begin

text \<open>
  The contract of a status vocabulary with a transition rule: some statuses are terminal and
  nothing leaves them.  Orders (\<open>orders/index.ts\<close>) and shipments (\<open>logistics/status.ts\<close>) both meet
  it; the order table also has a rank every transition raises, so no order comes back to a
  status it left.
\<close>

text \<open>Feeding events to a machine that drops what its rule refuses.\<close>

definition feed :: "('s \<Rightarrow> 's \<Rightarrow> bool) \<Rightarrow> 's \<Rightarrow> 's \<Rightarrow> 's" where
  "feed can s e = (if can s e then e else s)"

definition feed_all :: "('s \<Rightarrow> 's \<Rightarrow> bool) \<Rightarrow> 's \<Rightarrow> 's list \<Rightarrow> 's" where
  "feed_all can s es = foldl (feed can) s es"

lemma feed_all_Nil [simp]: "feed_all can s [] = s"
  by (simp add: feed_all_def)

lemma feed_all_Cons [simp]: "feed_all can s (e # es) = feed_all can (feed can s e) es"
  by (simp add: feed_all_def)

lemma feed_all_append [simp]: "feed_all can s (es @ fs) = feed_all can (feed_all can s es) fs"
  by (simp add: feed_all_def)

lemma feed_all_reachable: "can\<^sup>*\<^sup>* s (feed_all can s es)"
proof (induction es arbitrary: s)
  case (Cons e es)
  then show ?case
    by (cases "can s e") (auto simp: feed_def intro: converse_rtranclp_into_rtranclp)
qed simp

locale state_machine =
  fixes can :: "'s \<Rightarrow> 's \<Rightarrow> bool" and terminal :: "'s \<Rightarrow> bool"
  assumes terminal_stuck: "terminal s \<Longrightarrow> \<not> can s t"
    and no_self_loop: "\<not> can s s"
begin

lemma terminal_reaches_itself: "terminal s \<Longrightarrow> can\<^sup>*\<^sup>* s t \<Longrightarrow> t = s"
  by (metis converse_rtranclpE terminal_stuck)

lemma terminal_absorbs: "terminal s \<Longrightarrow> feed_all can s es = s"
  using feed_all_reachable terminal_reaches_itself by metis

lemma replay_ignored: "feed can (feed can s e) e = feed can s e"
  by (simp add: feed_def no_self_loop)

end

locale ranked_machine = state_machine +
  fixes rank :: "'s \<Rightarrow> nat"
  assumes rank_step: "can s t \<Longrightarrow> rank s < rank t"
begin

lemma rank_reach: "can\<^sup>+\<^sup>+ s t \<Longrightarrow> rank s < rank t"
  by (induction rule: tranclp_induct) (auto dest: rank_step)

lemma never_back: "can\<^sup>+\<^sup>+ s t \<Longrightarrow> \<not> can\<^sup>*\<^sup>* t s"
  by (metis less_irrefl rank_reach tranclp_rtranclp_tranclp)

end

text \<open>
  A system whose operations each keep an invariant keeps it along every sequence of calls.
\<close>

definition run_ops :: "('op \<Rightarrow> 's \<Rightarrow> 's) \<Rightarrow> 'op list \<Rightarrow> 's \<Rightarrow> 's" where
  "run_ops exec ops s = foldl (\<lambda>s op. exec op s) s ops"

locale invariant_system =
  fixes exec :: "'op \<Rightarrow> 's \<Rightarrow> 's" and inv :: "'s \<Rightarrow> bool"
  assumes exec_inv: "inv s \<Longrightarrow> inv (exec op s)"
begin

lemma run_inv: "inv s \<Longrightarrow> inv (run_ops exec ops s)"
  unfolding run_ops_def by (induction ops arbitrary: s) (simp_all add: exec_inv)

lemma reachable_inv: "inv s \<Longrightarrow> (\<And>t. inv t \<Longrightarrow> P t) \<Longrightarrow> P (run_ops exec ops s)"
  using run_inv by blast

end

end
