(* ===== verification/StockPromises.thy ===== *)
theory StockPromises
  imports InventoryLaws
begin

text \<open>
  The promises the rest of the platform relies on: active checkout holds never exceed what is on
  the shelf, whatever sequence of calls the store receives; a standing hold always sells; a hold
  is all or nothing; a sale moves exactly the order's lines; a repeated adjustment is recorded
  once.
\<close>

section \<open>Hold safety\<close>

definition default_level :: "db \<Rightarrow> uuid \<Rightarrow> int" where
  "default_level db v = (case default_location db of None \<Rightarrow> 0 | Some l \<Rightarrow> level_at db v l)"

definition holds_ok :: "db \<Rightarrow> bool" where
  "holds_ok db \<longleftrightarrow> (\<forall>v. active_reserved db v \<le> default_level db v)"

definition stock_safe :: "db \<Rightarrow> bool" where
  "stock_safe db \<longleftrightarrow> inventory_ok db \<and> holds_ok db"

definition safe_at :: "uuid \<Rightarrow> db \<Rightarrow> bool" where
  "safe_at l db \<longleftrightarrow> stock_safe db \<and> default_location db = Some l"

lemma default_level_Some [simp]: "default_location db = Some l \<Longrightarrow> default_level db v = level_at db v l"
  by (simp add: default_level_def)

lemma default_level_None [simp]: "default_location db = None \<Longrightarrow> default_level db v = 0"
  by (simp add: default_level_def)

lemma level_at_cong: "db_levels db' = db_levels db \<Longrightarrow> level_at db' = level_at db"
  by (intro ext) (simp add: level_at_def level_row_def)

lemma default_level_cong:
  "db_levels db' = db_levels db \<Longrightarrow> db_locations db' = db_locations db \<Longrightarrow> default_level db' = default_level db"
  using level_at_cong[of db' db] by (intro ext) (simp add: default_level_def default_location_def split: option.split)

lemma stock_safeI: "inventory_ok db \<Longrightarrow> (\<And>v. active_reserved db v \<le> default_level db v) \<Longrightarrow> stock_safe db"
  by (simp add: stock_safe_def holds_ok_def)

lemma stock_safeD:
  assumes "stock_safe db"
  shows "inventory_ok db" "levels_ok db" "reservations_ok db" "active_reserved db v \<le> default_level db v"
  using assms by (simp_all add: stock_safe_def holds_ok_def inventory_ok_def)

lemma safe_atD:
  assumes "safe_at l db"
  shows "stock_safe db" "default_location db = Some l" "active_reserved db v \<le> level_at db v l"
  using assms stock_safeD(4)[of db v] by (auto simp: safe_at_def)

lemma safe_atI:
  "inventory_ok db \<Longrightarrow> default_location db = Some l \<Longrightarrow> (\<And>v. active_reserved db v \<le> level_at db v l) \<Longrightarrow> safe_at l db"
  by (simp add: safe_at_def stock_safe_def holds_ok_def)

definition same_stock :: "db \<Rightarrow> db \<Rightarrow> bool" where
  "same_stock db db' \<longleftrightarrow> same_inventory db db' \<and> db_locations db' = db_locations db \<and> db_now db' = db_now db"

lemma same_stock_level: "same_stock db db' \<Longrightarrow> level_at db' v l = level_at db v l"
  by (simp add: same_stock_def same_inventory_def level_at_def level_row_def)

lemma same_stock_location: "same_stock db db' \<Longrightarrow> default_location db' = default_location db"
  by (simp add: same_stock_def default_location_def)

lemma stock_safe_same: "stock_safe db \<Longrightarrow> same_stock db db' \<Longrightarrow> stock_safe db'"
proof -
  assume s: "stock_safe db" and e: "same_stock db db'"
  have inv: "inventory_ok db'" using s e inventory_ok_same by (auto simp: stock_safe_def same_stock_def)
  have "active_reserved db' v = active_reserved db v" for v
    using e by (simp add: active_reserved_eq same_stock_def same_inventory_def)
  moreover have "default_level db' v = default_level db v" for v
    using e by (subst default_level_cong[of db' db]) (simp_all add: same_stock_def same_inventory_def)
  ultimately show ?thesis using stock_safeD(4)[OF s] by (intro stock_safeI[OF inv]) simp
qed

lemma keeps_safe_write:
  assumes "\<And>db. same_stock db (f db)"
  shows "keeps stock_safe (twrite f)" "keeps (safe_at l) (twrite f)"
proof -
  show "keeps stock_safe (twrite f)" using stock_safe_same[OF _ assms] by (rule keeps_write)
  show "keeps (safe_at l) (twrite f)"
    using stock_safe_same[OF _ assms] same_stock_location[OF assms]
    by (intro keeps_write) (simp add: safe_at_def)
qed

lemma keeps_safe_audit [keeps_rules]: "keeps stock_safe (recordAudit e)" "keeps (safe_at l) (recordAudit e)"
  unfolding recordAudit_def by (rule keeps_safe_write; simp add: same_stock_def same_inventory_def)+

lemma keeps_safe_delete [keeps_rules]: "keeps stock_safe (deleteReservations P)" "keeps (safe_at l) (deleteReservations P)"
proof -
  have step: "stock_safe (db\<lparr>db_reservations := filter Q (db_reservations db)\<rparr>)" if "stock_safe db" for db Q
  proof -
    have inv: "inventory_ok (db\<lparr>db_reservations := filter Q (db_reservations db)\<rparr>)"
      using that by (auto simp: stock_safe_def inventory_ok_def levels_ok_def ledger_ok_def level_at_def
          level_row_def reservations_ok_def distinct_map_filter)
    have lvl: "default_level (db\<lparr>db_reservations := filter Q (db_reservations db)\<rparr>) v = default_level db v" for v
      by (subst default_level_cong[of _ db]) simp_all
    have "reserved_of now (filter Q (db_reservations db)) v \<le> reserved_of now (db_reservations db) v" for now v
    proof -
      have "0 \<le> reserved_of now (filter (\<lambda>r. \<not> Q r) (db_reservations db)) v"
        by (rule reserved_of_nonneg) (use stock_safeD(3)[OF that] in \<open>auto simp: reservations_ok_def\<close>)
      then show ?thesis using reserved_of_split[of now "db_reservations db" v Q] by simp
    qed
    then have "active_reserved (db\<lparr>db_reservations := filter Q (db_reservations db)\<rparr>) v \<le> active_reserved db v" for v
      by (simp add: active_reserved_eq)
    then show ?thesis using stock_safeD(4)[OF that] by (intro stock_safeI[OF inv]) (metis lvl order_trans)
  qed
  show "keeps stock_safe (deleteReservations P)" by (rule keepsI) (auto simp: tx_simps intro: step)
  show "keeps (safe_at l) (deleteReservations P)"
    by (rule keepsI) (auto simp: tx_simps safe_at_def default_location_def intro: step)
qed

lemma ensureDefaultLocation_safe: "hoare stock_safe ensureDefaultLocation (\<lambda>l. safe_at l)"
proof (rule hoareI)
  fix db l db'
  assume s: "stock_safe db" and run: "ensureDefaultLocation db = Inr (l, db')"
  obtain l1 ls d where L: "ensureDefaultLocation db = Inr (l1, db\<lparr>db_drawn := d, db_locations := ls\<rparr>)"
    "default_location (db\<lparr>db_drawn := d, db_locations := ls\<rparr>) = Some l1"
    "default_location db = None \<or> default_location db = Some l1" using ensureDefaultLocation_run[of db] by metis
  have e: "l = l1" "db' = db\<lparr>db_drawn := d, db_locations := ls\<rparr>" using run L(1) by simp_all
  have inv: "inventory_ok db'" by (rule inventory_ok_same[of db]) (use s e in \<open>simp_all add: stock_safe_def same_inventory_def\<close>)
  have lvl: "level_at db' v l = level_at db v l" for v by (simp add: e level_at_def level_row_def)
  have "default_level db v \<le> level_at db' v l" for v
    unfolding lvl using L(3) level_at_nonneg[OF stock_safeD(2)[OF s], of v l] by (auto simp: e(1))
  moreover have "active_reserved db' v = active_reserved db v" for v by (simp add: e active_reserved_eq)
  ultimately show "safe_at l db'"
    using stock_safeD(4)[OF s] L(2) by (intro safe_atI[OF inv]) (simp_all add: e, metis order_trans)
qed

lemma applyMovement_safe:
  assumes "safe_at (am_locationId args) db" "applyMovement args db = Inr (r, db')"
  shows "safe_at (am_locationId args) db'"
proof -
  obtain mid n where r: "r = (mid, n)" by (cases r)
  note A = applyMovement_Inr[OF assms(2)[unfolded r]]
  have inv: "inventory_ok db'" by (rule moved_ok[OF stock_safeD(1)[OF safe_atD(1)[OF assms(1)]] assms(2)])
  have "active_reserved db v \<le> level_at db' v (am_locationId args)" for v
    using safe_atD(3)[OF assms(1), of v] A(1,2,7) by (cases "am_delta args < 0") (auto simp: level_at_moved)
  then show ?thesis using safe_atD(2)[OF assms(1)] A(1) by (intro safe_atI[OF inv]) simp_all
qed

lemma keeps_safe_applyMovement [keeps_rules]:
  "am_locationId args = l \<Longrightarrow> keeps (safe_at l) (applyMovement args)"
  by (rule keepsI) (use applyMovement_safe in blast)

lemma keeps_safe_located:
  assumes "\<And>l. keeps (safe_at l) (f l)"
  shows "keeps stock_safe (tbind ensureDefaultLocation f)"
  unfolding keeps_def
proof (rule hoare_bind[OF ensureDefaultLocation_safe])
  show "hoare (safe_at l) (f l) (\<lambda>_. stock_safe)" for l
    using assms[of l] safe_atD(1) by (auto simp: keeps_def hoare_def)
qed

lemma keeps_safe_recordMovementTx [keeps_rules]: "keeps stock_safe (recordMovementTx u input)"
  unfolding recordMovementTx_def Let_def
  by (intro keeps_bind keeps_read keeps_case_option keeps_throw keeps_guard keeps_lift keeps_safe_located)
    (auto intro!: keeps_rules)

lemma keeps_safe_consumeLine [keeps_rules]: "keeps (safe_at l) (consumeLine ref l line)"
  unfolding consumeLine_def Let_def by (intro keeps_rules) simp

lemma keeps_safe_consumeStockWithin [keeps_rules]: "keeps stock_safe (consumeStockWithin ref lines)"
  unfolding consumeStockWithin_def Let_def
  by (intro keeps_bind keeps_lift keeps_loadLineVariants keeps_safe_located keeps_for keeps_return
      keeps_safe_consumeLine keeps_safe_delete)

lemma keeps_safe_restockWithin [keeps_rules]: "keeps stock_safe (restockWithin lines ref)"
  unfolding restockWithin_def restockLine_def Let_def
  by (intro keeps_bind keeps_lift keeps_loadLineVariants keeps_safe_located keeps_for keeps_return
      keeps_safe_applyMovement keeps_case_prod) simp

lemma hold_placed_safe:
  assumes "stock_safe db" "hold_placed ref lines db l db'" "distinct (map hl_variantId lines)"
    and "\<And>line. line \<in> set lines \<Longrightarrow> tracked_in db line \<Longrightarrow> fits db ref l line"
    and "\<And>line. line \<in> set lines \<Longrightarrow> 0 < hl_quantity line" and "inventory_ok db'"
  shows "stock_safe db'"
proof -
  from assms(2) obtain P ls d where P: "\<And>r. is_active (db_now db) r \<Longrightarrow> P r"
    and db': "db' = db\<lparr>db_drawn := d, db_locations := ls,
          db_reservations := filter P (filter (\<lambda>r. \<not> of_reference ref r) (db_reservations db)) @
            map (hold_row ref l (db_now db + RESERVATION_TTL_MS)) (filter (tracked_in db) lines)\<rparr>"
    and loc: "default_location db' = Some l" "default_location db = None \<or> default_location db = Some l"
    unfolding hold_placed_def by blast
  have lvl: "level_at db' v l = level_at db v l" for v by (simp add: db' level_at_def level_row_def)
  define others where "others v = reserved_by_others db ref v" for v
  have others: "reserved_of (db_now db) (filter P (filter (\<lambda>r. \<not> of_reference ref r) (db_reservations db))) v = others v" for v
    unfolding others_def reserved_by_others_def by (rule reserved_of_filter_active) (rule P)
  have mine0: "v \<notin> hl_variantId ` set ls' \<Longrightarrow> reserved_of now (map (hold_row ref l e) ls') v = 0" for v ls' now e
    by (induction ls') (auto simp: hold_row_def)
  have mine: "reserved_of now (map (hold_row ref l e) ls') (hl_variantId line) \<le> hl_quantity line"
    if "line \<in> set ls'" "distinct (map hl_variantId ls')" "0 < hl_quantity line" for line ls' now e
    using that
  proof (induction ls')
    case (Cons x xs)
    show ?case
    proof (cases "x = line")
      case True
      then have "reserved_of now (map (hold_row ref l e) xs) (hl_variantId line) = 0"
        using Cons.prems by (intro mine0) simp
      then show ?thesis using Cons.prems True by (simp, simp add: hold_row_def)
    next
      case False
      then have "line \<in> set xs" "hl_variantId x \<noteq> hl_variantId line" using Cons.prems by auto
      then show ?thesis using Cons by (simp add: hold_row_def)
    qed
  qed simp
  have base: "others v \<le> level_at db v l" for v
  proof -
    have "0 \<le> reserved_of (db_now db) (filter (\<lambda>r. \<not> \<not> of_reference ref r) (db_reservations db)) v"
      by (rule reserved_of_nonneg) (use stock_safeD(3)[OF assms(1)] in \<open>auto simp: reservations_ok_def\<close>)
    then have "others v \<le> active_reserved db v"
      using reserved_of_split[of "db_now db" "db_reservations db" v "\<lambda>r. \<not> of_reference ref r"]
      by (simp add: others_def reserved_by_others_def active_reserved_eq)
    also have "\<dots> \<le> default_level db v" by (rule stock_safeD(4)[OF assms(1)])
    also have "\<dots> \<le> level_at db v l"
      using loc(2) level_at_nonneg[OF stock_safeD(2)[OF assms(1)], of v l] by auto
    finally show ?thesis .
  qed
  have ar: "active_reserved db' v = others v +
      reserved_of (db_now db) (map (hold_row ref l (db_now db + RESERVATION_TTL_MS)) (filter (tracked_in db) lines)) v" for v
    using others[of v] by (simp add: active_reserved_eq db' del: filter_filter)
  have "active_reserved db' v \<le> level_at db' v l" for v
  proof (cases "v \<in> hl_variantId ` set (filter (tracked_in db) lines)")
    case False
    then show ?thesis using base[of v] by (simp add: ar mine0 lvl)
  next
    case True
    then obtain line where line: "line \<in> set (filter (tracked_in db) lines)" "v = hl_variantId line" by blast
    then have l: "line \<in> set lines" "tracked_in db line" by auto
    have "distinct (map hl_variantId (filter (tracked_in db) lines))"
      using assms(3) by (simp add: distinct_map_filter)
    from mine[OF line(1) this assms(5)[OF l(1)]]
    have "active_reserved db' v \<le> others v + hl_quantity line"
      by (simp add: ar line(2))
    also have "\<dots> \<le> level_at db v l"
      using assms(4)[OF l] base[of v] assms(5)[OF l(1)] by (auto simp: fits_def others_def line(2) le_max_iff_disj)
    finally show ?thesis by (simp add: lvl)
  qed
  then show ?thesis using loc(1) by (intro stock_safeI[OF assms(6)]) simp
qed

lemma keeps_safe_holdStockTx:
  assumes "validateLines lines = Inr u"
  shows "keeps stock_safe (holdStockTx ref lines)"
proof (rule keepsI)
  fix db x db'
  assume s: "stock_safe db" and run: "holdStockTx ref lines db = Inr (x, db')"
  note V = validateLines_Inr[OF assms]
  have "keeps inventory_ok (holdStockTx ref lines)" by (rule keeps_holdStockTx) (use V(3) in blast)
  then have inv: "inventory_ok db'" using s run by (auto simp: stock_safe_def dest: keepsD)
  have live: "\<forall>line \<in> set lines. live db line"
  proof (rule ccontr)
    assume "\<not> ?thesis"
    then have "loadLineVariants (map hl_variantId lines) db = Inl variantNotFound"
      by (auto simp: loadLineVariants_eq live_def)
    then show False using run by (simp add: holdStockTx_def tx_simps)
  qed
  have r: "reservations_ok db" using s by (simp add: stock_safe_def inventory_ok_def)
  obtain l where L: "if \<forall>line \<in> set lines. tracked_in db line \<longrightarrow> fits db ref l line
         then \<exists>res db'. holdStockTx ref lines db = Inr ((res, db_now db + RESERVATION_TTL_MS), db') \<and>
                hold_placed ref lines db l db' \<and> map fst res = lines
         else \<exists>fs. fs \<noteq> [] \<and> holdStockTx ref lines db = Inl (InsufficientAvailabilityError fs) \<and>
                fst ` set fs = hl_variantId ` {line \<in> set lines. tracked_in db line \<and> \<not> fits db ref l line}"
    using holdStockTx_eq[OF live V(2) r] by blast
  then have "(\<forall>line \<in> set lines. tracked_in db line \<longrightarrow> fits db ref l line) \<and> hold_placed ref lines db l db'"
    using run by (auto split: if_split_asm)
  then show "stock_safe db'"
    by (intro hold_placed_safe[OF s _ V(2) _ _ inv]) (use V(3) in blast)+
qed

section \<open>Every sequence of calls\<close>

datatype stock_op =
    OpRecord uuid movement_input
  | OpHold reference "hold_line list"
  | OpRelease reference
  | OpConsume reference "hold_line list"
  | OpRestock "hold_line list" reference
  | OpTick nat

fun exec_stock :: "stock_op \<Rightarrow> db \<Rightarrow> db" where
  "exec_stock (OpRecord u input) db = snd (recordMovement u input db)"
| "exec_stock (OpHold ref lines) db = snd (holdStock ref lines db)"
| "exec_stock (OpRelease ref) db = snd (releaseStock ref db)"
| "exec_stock (OpConsume ref lines) db = snd (consumeStock ref lines db)"
| "exec_stock (OpRestock lines ref) db = snd (commit (restockWithin lines ref) db)"
| "exec_stock (OpTick ms) db = db\<lparr>db_now := db_now db + int ms\<rparr>"

lemma stock_safe_tick:
  assumes "stock_safe db"
  shows "stock_safe (db\<lparr>db_now := db_now db + int ms\<rparr>)"
proof -
  have le: "reserved_of (now + int ms) rs v \<le> reserved_of now rs v" if "\<forall>r \<in> set rs. 0 < rs_quantity r" for now rs v
    using that by (induction rs) (auto simp: is_active_def)
  have inv: "inventory_ok (db\<lparr>db_now := db_now db + int ms\<rparr>)"
    by (rule inventory_ok_same[of db]) (use stock_safeD(1)[OF assms] in \<open>simp_all add: same_inventory_def\<close>)
  have "active_reserved (db\<lparr>db_now := db_now db + int ms\<rparr>) v \<le> active_reserved db v" for v
    using stock_safeD(3)[OF assms] le by (simp add: active_reserved_eq reservations_ok_def)
  moreover have "default_level (db\<lparr>db_now := db_now db + int ms\<rparr>) v = default_level db v" for v
    by (subst default_level_cong[of _ db]) simp_all
  ultimately show ?thesis using stock_safeD(4)[OF assms] by (intro stock_safeI[OF inv]) (metis order_trans)
qed

lemma exec_stock_safe: "stock_safe db \<Longrightarrow> stock_safe (exec_stock op db)"
proof (cases op)
  case (OpRecord u input)
  have "akeeps stock_safe (recordMovement u input)"
    unfolding recordMovement_def by (intro keeps_rules)
  then show "stock_safe db \<Longrightarrow> ?thesis" using OpRecord akeepsD by simp
next
  case (OpHold ref lines)
  have "akeeps stock_safe (holdStock ref lines)"
  proof (cases "validateLines lines")
    case (Inr u)
    then show ?thesis unfolding holdStock_def using keeps_safe_holdStockTx[OF Inr] by (auto intro!: keeps_rules)
  qed (simp add: holdStock_def keeps_rules)
  then show "stock_safe db \<Longrightarrow> ?thesis" using OpHold akeepsD by simp
next
  case (OpRelease ref)
  have "akeeps stock_safe (releaseStock ref)" unfolding releaseStock_def by (intro keeps_rules)
  then show "stock_safe db \<Longrightarrow> ?thesis" using OpRelease akeepsD by simp
next
  case (OpConsume ref lines)
  have "akeeps stock_safe (consumeStock ref lines)"
    unfolding consumeStock_def by (auto intro!: keeps_rules split: sum.split err.split)
  then show "stock_safe db \<Longrightarrow> ?thesis" using OpConsume akeepsD by simp
next
  case (OpRestock lines ref)
  have "akeeps stock_safe (commit (restockWithin lines ref))" by (intro keeps_rules)
  then show "stock_safe db \<Longrightarrow> ?thesis" using OpRestock akeepsD by simp
next
  case (OpTick ms)
  then show "stock_safe db \<Longrightarrow> ?thesis" by (simp add: stock_safe_tick)
qed

interpretation stock: invariant_system exec_stock stock_safe
  by unfold_locales (rule exec_stock_safe)

section \<open>Selling\<close>

definition sale_args :: "reference \<Rightarrow> uuid \<Rightarrow> hold_line \<Rightarrow> apply_args" where
  "sale_args ref l line =
     \<lparr>am_variantId = hl_variantId line, am_locationId = l, am_delta = - hl_quantity line,
      am_reason = sale, am_note = None, am_idempotencyKey = None, am_createdByUserId = None,
      am_referenceType = Some (rf_type ref), am_referenceId = Some (rf_refId ref)\<rparr>"

definition unhold :: "reference \<Rightarrow> uuid \<Rightarrow> db \<Rightarrow> db" where
  "unhold ref v db = db\<lparr>db_reservations := filter (\<lambda>r. \<not> (of_reference ref r \<and> rs_variantId r = v)) (db_reservations db)\<rparr>"

lemma unhold_frame [simp]:
  "db_now (unhold ref v db) = db_now db" "db_locations (unhold ref v db) = db_locations db"
  "db_levels (unhold ref v db) = db_levels db" "db_movements (unhold ref v db) = db_movements db"
  "level_at (unhold ref v db) = level_at db" "find_variant (unhold ref v db) = find_variant db"
  "default_location (unhold ref v db) = default_location db"
  by (simp_all add: unhold_def level_at_def level_row_def find_variant_def default_location_def fun_eq_iff)

definition sold_result :: "db \<Rightarrow> reference \<Rightarrow> hold_line \<Rightarrow> uuid \<Rightarrow> uuid \<times> consume_result" where
  "sold_result db ref line mid =
     (let gone = filter (\<lambda>r. of_reference ref r \<and> rs_variantId r = hl_variantId line) (db_reservations db)
      in (hl_variantId line,
          \<lparr>cr_variantId = hl_variantId line, cr_quantity = hl_quantity line,
           cr_status = (if gone \<noteq> [] \<and> is_active (db_now db) (hd gone) then consumed_held else consumed_unheld),
           cr_movementId = Some mid\<rparr>))"

lemma consumeLine_eq:
  "consumeLine ref l line db =
     (case applyMovement (sale_args ref l line) (unhold ref (hl_variantId line) db) of
        Inl e \<Rightarrow> Inl (if is_app_error e then e else ConsumeShortfallError (hl_variantId line) (hl_quantity line) e)
      | Inr ((mid, n), db') \<Rightarrow> Inr (sold_result db ref line mid, db'))"
  by (simp add: consumeLine_def tx_simps trethrow_def sale_args_def unhold_def sold_result_def Let_def split: sum.split prod.split)

text \<open>The effect of the sale loop, whenever it commits.\<close>

definition sold :: "hold_line list \<Rightarrow> uuid \<Rightarrow> int" where
  "sold lines v = sum_list (map hl_quantity (filter (\<lambda>line. hl_variantId line = v) lines))"

definition sale_movement :: "reference \<Rightarrow> uuid \<Rightarrow> hold_line \<Rightarrow> stock_movement \<Rightarrow> bool" where
  "sale_movement ref l line m \<longleftrightarrow> (\<exists>mid. m = movement_of (sale_args ref l line) mid)"

text \<open>
  What selling \<open>lines\<close> does: the shelf loses exactly the sold quantities, one sale movement per line
  with the order's reference is appended, the reference's rows of those variants are gone and
  everybody else's are untouched.
\<close>

definition sale_effect :: "reference \<Rightarrow> uuid \<Rightarrow> hold_line list \<Rightarrow> db \<Rightarrow> db \<Rightarrow> bool" where
  "sale_effect ref l lines db db' \<longleftrightarrow>
     (\<forall>v l'. level_at db' v l' = level_at db v l' - (if l' = l then sold lines v else 0)) \<and>
     (\<exists>ms. db_movements db' = db_movements db @ ms \<and> list_all2 (sale_movement ref l) lines ms) \<and>
     db_reservations db' =
       filter (\<lambda>r. \<not> (of_reference ref r \<and> rs_variantId r \<in> hl_variantId ` set lines)) (db_reservations db) \<and>
     db_locations db' = db_locations db \<and> db_now db' = db_now db \<and> db_variants db' = db_variants db"

lemma consumeLine_Inr:
  assumes "consumeLine ref l line db = Inr (r, db')"
  obtains mid where "r = sold_result db ref line mid" "db' = moved (sale_args ref l line) (unhold ref (hl_variantId line) db)"
    and "applyMovement (sale_args ref l line) (unhold ref (hl_variantId line) db) =
      Inr ((mid, level_at db (hl_variantId line) l - hl_quantity line), db')"
proof -
  from assms obtain mid n where a: "applyMovement (sale_args ref l line) (unhold ref (hl_variantId line) db) = Inr ((mid, n), db')"
    "r = sold_result db ref line mid" by (auto simp: consumeLine_eq split: sum.splits prod.splits)
  have "n = level_at db (hl_variantId line) l - hl_quantity line"
    using applyMovement_Inr(2)[OF a(1)] by (simp add: sale_args_def)
  with a applyMovement_Inr(1)[OF a(1)] that show thesis by blast
qed

lemma tfor_consumeLine:
  "tfor lines (consumeLine ref l) db = Inr (rs, db') \<Longrightarrow>
   sale_effect ref l lines db db' \<and> map fst rs = map hl_variantId lines"
proof (induction lines arbitrary: db rs)
  case Nil
  then show ?case by (simp add: sale_effect_def sold_def)
next
  case (Cons line lines)
  from Cons.prems obtain r db1 rs' where step: "consumeLine ref l line db = Inr (r, db1)"
    and rest: "tfor lines (consumeLine ref l) db1 = Inr (rs', db')" and rs: "rs = r # rs'"
    by (auto simp: tbind_eq_Inr)
  obtain mid where r: "r = sold_result db ref line mid" and db1: "db1 = moved (sale_args ref l line) (unhold ref (hl_variantId line) db)"
    using consumeLine_Inr[OF step] by blast
  note IH = Cons.IH[OF rest, unfolded sale_effect_def]
  have lvl: "level_at db1 v l' = level_at db v l' - (if l' = l \<and> hl_variantId line = v then hl_quantity line else 0)" for v l'
    by (auto simp: db1 level_at_moved sale_args_def)
  from IH obtain ms where ms: "db_movements db' = db_movements db1 @ ms" "list_all2 (sale_movement ref l) lines ms" by blast
  have "sale_effect ref l (line # lines) db db'"
    unfolding sale_effect_def
  proof (intro conjI allI)
    show "level_at db' v l' = level_at db v l' - (if l' = l then sold (line # lines) v else 0)" for v l'
      using IH lvl[of v l'] by (auto simp: sold_def)
    have "db_movements db' = db_movements db @ (movement_of (sale_args ref l line) (db_uuidv7 db (db_drawn db)) # ms)"
      using ms(1) by (simp add: db1, simp add: unhold_def)
    moreover have "list_all2 (sale_movement ref l) (line # lines) (movement_of (sale_args ref l line) (db_uuidv7 db (db_drawn db)) # ms)"
      using ms(2) by (auto simp: sale_movement_def)
    ultimately show "\<exists>ms. db_movements db' = db_movements db @ ms \<and> list_all2 (sale_movement ref l) (line # lines) ms" by blast
    have "db_reservations db1 = filter (\<lambda>r. \<not> (of_reference ref r \<and> rs_variantId r = hl_variantId line)) (db_reservations db)"
      by (simp add: db1, simp add: unhold_def)
    then show "db_reservations db' =
       filter (\<lambda>r. \<not> (of_reference ref r \<and> rs_variantId r \<in> hl_variantId ` set (line # lines))) (db_reservations db)"
      using IH by (auto intro: filter_cong)
    show "db_locations db' = db_locations db" "db_now db' = db_now db" "db_variants db' = db_variants db"
      using IH by (simp_all add: db1, simp_all add: unhold_def)
  qed
  then show ?case using IH rs by (simp add: r sold_result_def Let_def)
qed

text \<open>A line whose hold still stands is sold.\<close>

definition has_hold :: "db \<Rightarrow> reference \<Rightarrow> hold_line \<Rightarrow> bool" where
  "has_hold db ref line \<longleftrightarrow> (\<exists>r \<in> set (db_reservations db). of_reference ref r \<and>
     rs_variantId r = hl_variantId line \<and> is_active (db_now db) r \<and> rs_quantity r = hl_quantity line)"

lemma consumeLine_held:
  assumes safe: "safe_at l db" and hold: "has_hold db ref line" and q: "0 < hl_quantity line"
  obtains r db' where "consumeLine ref l line db = Inr ((hl_variantId line, r), db')" "cr_status r = consumed_held"
    and "cr_movementId r \<noteq> None" "cr_quantity r = hl_quantity line" "safe_at l db'"
proof -
  define v where "v = hl_variantId line"
  define mine where "mine = filter (\<lambda>r. of_reference ref r \<and> rs_variantId r = v) (db_reservations db)"
  from hold obtain r where r: "r \<in> set (db_reservations db)" "of_reference ref r" "rs_variantId r = v"
    "is_active (db_now db) r" "rs_quantity r = hl_quantity line" by (auto simp: has_hold_def v_def)
  note R = stock_safeD(3)[OF safe_atD(1)[OF safe]]
  have rm: "r \<in> set mine" using r by (simp add: mine_def)
  have key: "reservation_key x = (rf_type ref, rf_refId ref, v)" if "x \<in> set mine" for x
    using that by (auto simp: mine_def reservation_key_def of_reference_def)
  have "distinct (map reservation_key mine)" using R by (simp add: mine_def reservations_ok_def distinct_map_filter)
  then have all: "x = r" if "x \<in> set mine" for x
    using key[OF that] key[OF rm] that rm by (auto simp: distinct_map inj_on_def)
  then have hd: "mine \<noteq> [] \<and> is_active (db_now db) (hd mine)" using rm r(4) by (metis empty_iff empty_set hd_in_set)
  have "rs_quantity r \<le> reserved_of (db_now db) mine v"
    by (rule reserved_of_member[OF rm r(3,4)]) (use R in \<open>auto simp: mine_def reservations_ok_def\<close>)
  moreover have "active_reserved db v = reserved_of (db_now db) mine v + active_reserved (unhold ref v db) v"
    using reserved_of_split[of "db_now db" "db_reservations db" v "\<lambda>r. of_reference ref r \<and> rs_variantId r = v"]
    by (simp add: active_reserved_eq mine_def unhold_def)
  ultimately have rest: "active_reserved (unhold ref v db) v \<le> level_at db v l - hl_quantity line"
    using safe_atD(3)[OF safe, of v] r(5) by simp
  have "0 \<le> active_reserved (unhold ref v db) v"
    unfolding active_reserved_eq by (rule reserved_of_nonneg) (use R in \<open>auto simp: unhold_def reservations_ok_def\<close>)
  then have n0: "0 \<le> level_at db v l - hl_quantity line" using rest by simp
  have "level_at db v l \<le> int4_max"
    using stock_safeD(2)[OF safe_atD(1)[OF safe]]
    by (auto simp: levels_ok_def level_at_def level_row_def find_Some_iff int4_max_def split: option.split)
  then have i4: "in_int4 (level_at db v l - hl_quantity line)" using n0 q by (simp add: in_int4_def int4_max_def)
  have "applyMovement (sale_args ref l line) (unhold ref v db) =
      Inr ((db_uuidv7 (unhold ref v db) (db_drawn (unhold ref v db)), level_at db v l - hl_quantity line),
           moved (sale_args ref l line) (unhold ref v db))"
    using n0 i4 rest q by (simp add: applyMovement_eq Let_def sale_args_def key_taken_def v_def[symmetric])
  then have run: "consumeLine ref l line db = Inr (sold_result db ref line (db_uuidv7 (unhold ref v db) (db_drawn (unhold ref v db))),
      moved (sale_args ref l line) (unhold ref v db))"
    by (simp add: consumeLine_eq v_def)
  have "safe_at l (moved (sale_args ref l line) (unhold ref v db))"
    by (rule keepsD[OF keeps_safe_consumeLine safe run])
  with run hd show thesis
    by (intro that) (auto simp: sold_result_def mine_def v_def Let_def)
qed

lemma tfor_consumeLine_held:
  assumes "safe_at l db" "distinct (map hl_variantId lines)"
    and "\<And>line. line \<in> set lines \<Longrightarrow> has_hold db ref line \<and> 0 < hl_quantity line"
  shows "\<exists>rs db'. tfor lines (consumeLine ref l) db = Inr (rs, db') \<and>
    list_all2 (\<lambda>line r. fst r = hl_variantId line \<and> cr_status (snd r) = consumed_held \<and> cr_quantity (snd r) = hl_quantity line) lines rs"
  using assms
proof (induction lines arbitrary: db)
  case (Cons line lines)
  have h: "has_hold db ref line" "0 < hl_quantity line" using Cons.prems(3) by auto
  obtain r db1 where step: "consumeLine ref l line db = Inr ((hl_variantId line, r), db1)" "cr_status r = consumed_held"
    "cr_quantity r = hl_quantity line" "safe_at l db1" using consumeLine_held[OF Cons.prems(1) h] by metis
  have db1: "db1 = moved (sale_args ref l line) (unhold ref (hl_variantId line) db)" using consumeLine_Inr[OF step(1)] by blast
  have "has_hold db1 ref x \<and> 0 < hl_quantity x" if "x \<in> set lines" for x
  proof -
    have ne: "hl_variantId x \<noteq> hl_variantId line" using Cons.prems(2) that by (auto, metis imageI)
    have "has_hold db ref x" using Cons.prems(3) that by simp
    then have "has_hold db1 ref x" using ne by (auto simp: has_hold_def db1) (auto simp: unhold_def)
    then show ?thesis using Cons.prems(3) that by simp
  qed
  then obtain rs db' where "tfor lines (consumeLine ref l) db1 = Inr (rs, db')"
    "list_all2 (\<lambda>line r. fst r = hl_variantId line \<and> cr_status (snd r) = consumed_held \<and> cr_quantity (snd r) = hl_quantity line) lines rs"
    using Cons.IH[OF step(4)] Cons.prems(2) by auto
  then show ?case using step by (simp add: tx_simps)
qed simp

section \<open>Whole sales\<close>

definition sale_lines :: "db \<Rightarrow> hold_line list \<Rightarrow> hold_line list" where
  "sale_lines db lines = sort_key hl_variantId (filter (tracked_in db) lines)"

lemma sold_sale_lines: "sold (sale_lines db lines) v = sold (filter (tracked_in db) lines) v"
proof -
  have "mset (map hl_quantity (filter (\<lambda>x. hl_variantId x = v) (sale_lines db lines))) =
    mset (map hl_quantity (filter (\<lambda>x. hl_variantId x = v) (filter (tracked_in db) lines)))"
    unfolding sale_lines_def mset_map mset_filter mset_sort ..
  then show ?thesis unfolding sold_def by (metis sum_mset_sum_list)
qed

text \<open>What a line is answered with, and the product ids whose pages went stale.\<close>

definition sale_answer :: "(uuid \<times> consume_result) list \<Rightarrow> hold_line \<Rightarrow> consume_result" where
  "sale_answer rs line = (case map_of rs (hl_variantId line) of Some r \<Rightarrow> r | None \<Rightarrow> untracked_consume line)"

lemma sorted_tracked_load:
  assumes "\<forall>line \<in> set lines. live db line"
  shows "loadLineVariants (map hl_variantId lines) db =
      Inr (map (\<lambda>v. (v, the (find_variant db v))) (map hl_variantId lines), db)"
    and "filter (line_tracked (map (\<lambda>v. (v, the (find_variant db v))) (map hl_variantId lines))) lines = filter (tracked_in db) lines"
proof -
  have all: "\<forall>v \<in> set (map hl_variantId lines). find_variant db v \<noteq> None" using assms by (auto simp: live_def)
  show "loadLineVariants (map hl_variantId lines) db =
      Inr (map (\<lambda>v. (v, the (find_variant db v))) (map hl_variantId lines), db)"
    by (simp only: loadLineVariants_eq if_P[OF all])
  show "filter (line_tracked (map (\<lambda>v. (v, the (find_variant db v))) (map hl_variantId lines))) lines = filter (tracked_in db) lines"
    by (rule filter_cong[OF refl]) (rule line_tracked_load[OF all], simp)
qed

lemma not_live_load: "\<not> (\<forall>line \<in> set lines. live db line) \<Longrightarrow> loadLineVariants (map hl_variantId lines) db = Inl variantNotFound"
  by (auto simp: loadLineVariants_eq live_def)

text \<open>\<open>consumeStockWithin\<close> as its loop between the location lookup and the final release.\<close>

lemma consumeStockWithin_eq:
  assumes "validateLines lines = Inr ()" "\<forall>line \<in> set lines. live db line"
    and "ensureDefaultLocation db = Inr (l, db1)"
  shows "\<exists>pids. consumeStockWithin ref lines db =
    (case tfor (sale_lines db lines) (consumeLine ref l) db1 of
       Inl e \<Rightarrow> Inl e
     | Inr (rs, db2) \<Rightarrow> Inr ((map (sale_answer rs) lines, pids),
         db2\<lparr>db_reservations := filter (\<lambda>r. \<not> of_reference ref r) (db_reservations db2)\<rparr>))"
proof -
  define vs where "vs = map (\<lambda>v. (v, the (find_variant db v))) (map hl_variantId lines)"
  note load = sorted_tracked_load[OF assms(2), folded vs_def]
  show ?thesis
    by (rule exI[of _ "productIds_of vs (sale_lines db lines)"])
      (simp add: consumeStockWithin_def tx_simps assms(1,3) load Let_def sale_lines_def[symmetric] sale_answer_def[abs_def]
        split: sum.split prod.split)
qed

lemma consumeStockWithin_Inr:
  assumes "consumeStockWithin ref lines db = Inr ((results, pids), db')"
  obtains l where "validateLines lines = Inr ()" "\<forall>line \<in> set lines. live db line"
    and "default_location db' = Some l" "default_location db = None \<or> default_location db = Some l"
    and "\<forall>v l'. level_at db' v l' = level_at db v l' - (if l' = l then sold (filter (tracked_in db) lines) v else 0)"
    and "\<exists>ms. db_movements db' = db_movements db @ ms \<and> list_all2 (sale_movement ref l) (sale_lines db lines) ms"
    and "db_reservations db' = filter (\<lambda>r. \<not> of_reference ref r) (db_reservations db)"
    and "map cr_variantId results = map hl_variantId lines"
proof -
  have v: "validateLines lines = Inr ()" using assms by (auto simp: consumeStockWithin_def tx_simps split: sum.splits)
  have lv: "\<forall>line \<in> set lines. live db line"
    using assms not_live_load[of lines db] by (rule_tac ccontr) (auto simp: consumeStockWithin_def tx_simps split: sum.splits)
  obtain l ls d where L: "ensureDefaultLocation db = Inr (l, db\<lparr>db_drawn := d, db_locations := ls\<rparr>)"
    "default_location (db\<lparr>db_drawn := d, db_locations := ls\<rparr>) = Some l"
    "default_location db = None \<or> default_location db = Some l" using ensureDefaultLocation_run[of db] by metis
  define db1 where "db1 = db\<lparr>db_drawn := d, db_locations := ls\<rparr>"
  obtain rs db2 where run: "tfor (sale_lines db lines) (consumeLine ref l) db1 = Inr (rs, db2)"
    and res: "results = map (sale_answer rs) lines"
    and db': "db' = db2\<lparr>db_reservations := filter (\<lambda>r. \<not> of_reference ref r) (db_reservations db2)\<rparr>"
    using assms consumeStockWithin_eq[OF v lv L(1)[folded db1_def], of ref]
    by (cases "tfor (sale_lines db lines) (consumeLine ref l) db1") auto
  note E = tfor_consumeLine[OF run, unfolded sale_effect_def]
  have lvl: "level_at db' = level_at db2" "level_at db1 = level_at db" by (rule level_at_cong; simp add: db' db1_def)+
  have cr: "list_all2 (\<lambda>line r. fst r = hl_variantId line \<and> cr_variantId (snd r) = hl_variantId line) ls' rs'"
    if "tfor ls' (consumeLine ref l) dbx = Inr (rs', dby)" for ls' dbx rs' dby
    using that
  proof (induction ls' arbitrary: dbx rs')
    case (Cons x xs)
    then obtain r dbz rs'' where "consumeLine ref l x dbx = Inr (r, dbz)" "tfor xs (consumeLine ref l) dbz = Inr (rs'', dby)" "rs' = r # rs''"
      by (auto simp: tbind_eq_Inr)
    then show ?case using Cons.IH consumeLine_Inr by (fastforce simp: sold_result_def Let_def)
  qed simp
  have ids: "cr_variantId (sale_answer rs line) = hl_variantId line" for line
  proof -
    have "map_of rs' k = Some r \<Longrightarrow> list_all2 (\<lambda>line r. fst r = hl_variantId line \<and> cr_variantId (snd r) = hl_variantId line) ls' rs' \<Longrightarrow> cr_variantId r = k" for rs' ls' k r
      by (induction rs' arbitrary: ls') (auto simp: list_all2_Cons2 split: if_splits)
    then show ?thesis using cr[OF run] by (auto simp: sale_answer_def untracked_consume_def split: option.split)
  qed
  show thesis
  proof (rule that[OF v lv])
    have "db_locations db2 = ls" using E by (simp add: db1_def)
    then show "default_location db' = Some l" using L(2) by (simp add: db' default_location_def)
    show "default_location db = None \<or> default_location db = Some l" by (rule L(3))
    show "\<forall>v l'. level_at db' v l' = level_at db v l' - (if l' = l then sold (filter (tracked_in db) lines) v else 0)"
      using E by (simp add: lvl sold_sale_lines)
    show "\<exists>ms. db_movements db' = db_movements db @ ms \<and> list_all2 (sale_movement ref l) (sale_lines db lines) ms"
      using E by (simp add: db' db1_def)
    show "db_reservations db' = filter (\<lambda>r. \<not> of_reference ref r) (db_reservations db)"
      using E by (auto simp: db' db1_def intro: filter_cong)
    show "map cr_variantId results = map hl_variantId lines" using ids by (simp add: res)
  qed
qed

text \<open>Every tracked line held, every other line live: the sale goes through.\<close>

lemma consumeStockWithin_held:
  assumes "stock_safe db" "validateLines lines = Inr ()" "\<forall>line \<in> set lines. live db line"
    and "\<And>line. line \<in> set lines \<Longrightarrow> tracked_in db line \<Longrightarrow> has_hold db ref line"
  shows "\<exists>results pids db'. consumeStockWithin ref lines db = Inr ((results, pids), db') \<and>
    list_all2 (\<lambda>line r. cr_variantId r = hl_variantId line \<and>
      cr_status r = (if tracked_in db line then consumed_held else consumed_untracked)) lines results"
proof -
  note V = validateLines_Inr[OF assms(2)]
  obtain l db1 where L: "ensureDefaultLocation db = Inr (l, db1)" and "\<exists>d ls. db1 = db\<lparr>db_drawn := d, db_locations := ls\<rparr>"
    using ensureDefaultLocation_run[of db] by metis
  then obtain d ls where db1: "db1 = db\<lparr>db_drawn := d, db_locations := ls\<rparr>" by blast
  have safe: "safe_at l db1" by (rule hoareD[OF ensureDefaultLocation_safe assms(1) L])
  have "set (sale_lines db lines) = set (filter (tracked_in db) lines)" by (simp add: sale_lines_def)
  then have hold: "has_hold db1 ref line \<and> 0 < hl_quantity line" if "line \<in> set (sale_lines db lines)" for line
    using that assms(4) V(3) by (auto simp: has_hold_def db1)
  have dist: "distinct (map hl_variantId (sale_lines db lines))"
  proof -
    have "mset (map hl_variantId (sale_lines db lines)) = mset (map hl_variantId (filter (tracked_in db) lines))"
      by (simp add: sale_lines_def)
    moreover have "distinct (map hl_variantId (filter (tracked_in db) lines))" using V(2) by (simp add: distinct_map_filter)
    ultimately show ?thesis by (metis mset_eq_imp_distinct_iff)
  qed
  obtain rs db2 where run: "tfor (sale_lines db lines) (consumeLine ref l) db1 = Inr (rs, db2)"
    and rs: "list_all2 (\<lambda>line r. fst r = hl_variantId line \<and> cr_status (snd r) = consumed_held \<and> cr_quantity (snd r) = hl_quantity line) (sale_lines db lines) rs"
    using tfor_consumeLine_held[OF safe dist hold] by blast
  have keys: "fst ` set rs = hl_variantId ` set (sale_lines db lines)"
    using tfor_consumeLine[OF run] by (metis list.set_map)
  have st: "map_of rs' k = Some r \<Longrightarrow> list_all2 (\<lambda>line r. fst r = hl_variantId line \<and> cr_status (snd r) = consumed_held \<and> cr_quantity (snd r) = hl_quantity line) ls' rs' \<Longrightarrow> cr_status r = consumed_held" for rs' ls' k r
    by (induction rs' arbitrary: ls') (auto simp: list_all2_Cons2 split: if_splits)
  have answer: "cr_status (sale_answer rs line) = (if tracked_in db line then consumed_held else consumed_untracked)" if "line \<in> set lines" for line
  proof (cases "tracked_in db line")
    case True
    then have "hl_variantId line \<in> fst ` set rs" using that by (auto simp: keys sale_lines_def)
    then obtain r where "map_of rs (hl_variantId line) = Some r" by (metis map_of_eq_None_iff not_None_eq)
    then show ?thesis using st[OF _ rs] True by (simp add: sale_answer_def)
  next
    case False
    have "hl_variantId line \<notin> fst ` set rs"
    proof
      assume "hl_variantId line \<in> fst ` set rs"
      then obtain line' where "line' \<in> set lines" "tracked_in db line'" "hl_variantId line' = hl_variantId line"
        by (auto simp: keys sale_lines_def)
      then show False using False by (simp add: tracked_in_def)
    qed
    then have "map_of rs (hl_variantId line) = None" by (simp add: map_of_eq_None_iff)
    then show ?thesis using False by (simp add: sale_answer_def untracked_consume_def)
  qed
  obtain pids where eq: "consumeStockWithin ref lines db = Inr ((map (sale_answer rs) lines, pids),
         db2\<lparr>db_reservations := filter (\<lambda>r. \<not> of_reference ref r) (db_reservations db2)\<rparr>)"
    using consumeStockWithin_eq[OF assms(2,3) L, of ref] run by auto
  have "map cr_variantId (map (sale_answer rs) lines) = map hl_variantId lines"
    using consumeStockWithin_Inr[OF eq] by metis
  then have "cr_variantId (sale_answer rs line) = hl_variantId line" if "line \<in> set lines" for line
    using that by (simp add: list_eq_iff_nth_eq in_set_conv_nth) (metis nth_map)
  with eq answer show ?thesis by (auto simp: list_all2_map2 intro!: list.rel_refl_strong)
qed

section \<open>What others cannot take away\<close>

text \<open>
  The rows of a reference that stand until after \<open>T\<close> survive every operation that is not about
  that reference, as long as the clock does not pass \<open>T\<close>: others only ever delete their own rows
  and expired ones.
\<close>

definition standing :: "reference \<Rightarrow> millis \<Rightarrow> variant_row list \<Rightarrow> stock_reservation set \<Rightarrow> db \<Rightarrow> bool" where
  "standing ref T vs rows db \<longleftrightarrow> db_now db \<le> T \<and> db_variants db = vs \<and>
     (\<forall>r \<in> rows. r \<in> set (db_reservations db) \<and> of_reference ref r \<and> T < rs_expiresAt r)"

lemma keeps_standing_write:
  assumes "\<And>db. db_now (f db) = db_now db" "\<And>db. db_variants (f db) = db_variants db"
    and "\<And>db. set (db_reservations db) \<subseteq> set (db_reservations (f db))"
  shows "keeps (standing ref T vs rows) (twrite f)"
  using assms(1,2) by (intro keeps_write) (auto simp: standing_def intro: subsetD[OF assms(3)])

lemma keeps_standing_draw [keeps_rules]: "keeps (standing ref T vs rows) draw_uuid"
  by (rule keepsI) (auto simp: standing_def)

lemma keeps_standing_audit [keeps_rules]: "keeps (standing ref T vs rows) (recordAudit e)"
  unfolding recordAudit_def by (rule keeps_standing_write) simp_all

lemma keeps_standing_location [keeps_rules]: "keeps (standing ref T vs rows) ensureDefaultLocation"
  unfolding ensureDefaultLocation_def by (intro keeps_rules keeps_standing_write) simp_all

lemma keeps_standing_applyMovement [keeps_rules]: "keeps (standing ref T vs rows) (applyMovement args)"
  unfolding applyMovement_def insertMovement_def projectLevel_def
  by (intro keeps_rules keeps_standing_write) simp_all

lemma keeps_standing_insert [keeps_rules]: "keeps (standing ref T vs rows) (insertReservation row)"
  unfolding insertReservation_def by (intro keeps_rules keeps_standing_write) auto

lemma keeps_standing_delete:
  assumes "\<And>db r. db_now db \<le> T \<Longrightarrow> of_reference ref r \<Longrightarrow> T < rs_expiresAt r \<Longrightarrow> \<not> P db r"
  shows "keeps (standing ref T vs rows) (deleteReservations P)"
  by (rule keepsI) (use assms in \<open>auto simp: tx_simps standing_def\<close>)

lemma keeps_standing_own [keeps_rules]:
  "ref' \<noteq> ref \<Longrightarrow> keeps (standing ref T vs rows) (deleteReservations (\<lambda>_. of_reference ref'))"
  "ref' \<noteq> ref \<Longrightarrow> keeps (standing ref T vs rows) (deleteReservations (\<lambda>_ r. of_reference ref' r \<and> rs_variantId r = v))"
  "keeps (standing ref T vs rows) (deleteReservations (\<lambda>db r. rs_variantId r = v \<and> rs_expiresAt r \<le> db_now db))"
  by (rule keeps_standing_delete; auto simp: of_reference_def)+

text \<open>The operations that leave a reference's hold alone, and the time they take.\<close>

fun op_spares :: "reference \<Rightarrow> stock_op \<Rightarrow> bool" where
  "op_spares ref (OpHold ref' lines) = (ref' \<noteq> ref)"
| "op_spares ref (OpRelease ref') = (ref' \<noteq> ref)"
| "op_spares ref (OpConsume ref' lines) = (ref' \<noteq> ref)"
| "op_spares ref _ = True"

fun op_time :: "stock_op \<Rightarrow> nat" where
  "op_time (OpTick ms) = ms"
| "op_time _ = 0"

definition elapsed :: "stock_op list \<Rightarrow> nat" where
  "elapsed ops = sum_list (map op_time ops)"

lemma exec_standing:
  assumes "op_spares ref op" "standing ref T vs rows db" "db_now db + int (op_time op) \<le> T"
  shows "standing ref T vs rows (exec_stock op db)"
proof (cases op)
  case (OpRecord u input)
  have "akeeps (standing ref T vs rows) (recordMovement u input)"
    unfolding recordMovement_def recordMovementTx_def Let_def
    by (intro keeps_rules)
  then show ?thesis using OpRecord assms(2) akeepsD by simp
next
  case (OpHold ref' lines)
  then have "akeeps (standing ref T vs rows) (holdStock ref' lines)"
    using assms(1) unfolding holdStock_def holdStockTx_def fitLine_def Let_def
    by (auto intro!: keeps_rules split: sum.split)
  then show ?thesis using OpHold assms(2) akeepsD by simp
next
  case (OpRelease ref')
  then have "akeeps (standing ref T vs rows) (releaseStock ref')"
    using assms(1) unfolding releaseStock_def by (auto intro!: keeps_rules)
  then show ?thesis using OpRelease assms(2) akeepsD by simp
next
  case (OpConsume ref' lines)
  then have "akeeps (standing ref T vs rows) (consumeStock ref' lines)"
    using assms(1) unfolding consumeStock_def consumeStockWithin_def consumeLine_def Let_def
    by (auto intro!: keeps_rules split: sum.split err.split)
  then show ?thesis using OpConsume assms(2) akeepsD by simp
next
  case (OpRestock lines ref')
  have "akeeps (standing ref T vs rows) (commit (restockWithin lines ref'))"
    unfolding restockWithin_def restockLine_def Let_def by (intro keeps_rules)
  then show ?thesis using OpRestock assms(2) akeepsD by simp
next
  case (OpTick ms)
  then show ?thesis using assms(2,3) by (simp add: standing_def)
qed

lemma exec_stock_now: "db_now (exec_stock op db) = db_now db + int (op_time op)"
proof -
  define N where "N = (\<lambda>t (db' :: db). db_now db' = t)"
  have W: "keeps (N t) (twrite f)" if "\<And>db. db_now (f db) = db_now db" for t and f :: "db \<Rightarrow> db"
    by (rule keeps_write) (simp add: N_def that)
  have U: "keeps (N t) draw_uuid" for t by (rule keepsI) (auto simp: N_def)
  have D: "keeps (N t) (deleteReservations P)" "keeps (N t) (recordAudit e)"
    "keeps (N t) ensureDefaultLocation" "keeps (N t) (insertReservation row)" "keeps (N t) (applyMovement args)" for t P e row args
    unfolding deleteReservations_def recordAudit_def ensureDefaultLocation_def insertReservation_def
      applyMovement_def insertMovement_def projectLevel_def
    by (intro keeps_rules W U; simp)+
  have "akeeps (N t) (recordMovement u input)" "akeeps (N t) (holdStock ref lines)" "akeeps (N t) (releaseStock ref)"
    "akeeps (N t) (consumeStock ref lines)" "akeeps (N t) (commit (restockWithin lines ref))" for t u input ref lines
    unfolding recordMovement_def recordMovementTx_def holdStock_def holdStockTx_def fitLine_def releaseStock_def
      consumeStock_def consumeStockWithin_def consumeLine_def restockWithin_def restockLine_def Let_def
    by (auto intro!: keeps_rules D split: sum.split err.split)
  then show ?thesis by (cases op) (auto simp: N_def akeeps_def)
qed

lemma run_standing:
  assumes "list_all (op_spares ref) ops" "standing ref T vs rows db" "db_now db + int (elapsed ops) \<le> T"
  shows "standing ref T vs rows (run_ops exec_stock ops db)"
  using assms
proof (induction ops arbitrary: db)
  case (Cons op ops)
  have "db_now db + int (op_time op) \<le> T" using Cons.prems(3) by (simp add: elapsed_def)
  then have "standing ref T vs rows (exec_stock op db)" using exec_standing Cons.prems by simp
  then show ?case using Cons.IH[of "exec_stock op db"] Cons.prems
    by (simp add: run_ops_def exec_stock_now elapsed_def)
qed (simp add: run_ops_def)

section \<open>Reconciliation\<close>

lemma level_at_row:
  assumes "levels_ok db" "r \<in> set (db_levels db)"
  shows "level_at db (sl_variantId r) (sl_locationId r) = sl_onHand r"
proof -
  have "find (\<lambda>x. sl_variantId x = sl_variantId r \<and> sl_locationId x = sl_locationId r) rows = Some r"
    if "distinct (map (\<lambda>r. (sl_variantId r, sl_locationId r)) rows)" "r \<in> set rows" for rows
    using that by (induction rows) (auto simp: image_iff)
  then show ?thesis using assms by (simp add: levels_ok_def level_at_def level_row_def)
qed

lemma ledger_sum_absent:
  "(v, l) \<notin> (\<lambda>m. (sm_variantId m, sm_locationId m)) ` set ms \<Longrightarrow> ledger_sum ms v l = 0"
  by (induction ms) (auto simp: ledger_sum_def)

lemma reconcile_clean:
  assumes "inventory_ok db"
  shows "reconcileStockLevels db = []"
proof -
  have L: "level_at db v l = ledger_sum (db_movements db) v l" for v l
    using assms by (simp add: inventory_ok_def ledger_ok_def)
  have ok: "levels_ok db" using assms by (simp add: inventory_ok_def)
  have "sl_onHand p = 0" if "p \<in> set (db_levels db)"
    "(sl_variantId p, sl_locationId p) \<notin> (\<lambda>m. (sm_variantId m, sm_locationId m)) ` set (db_movements db)" for p
    using level_at_row[OF ok that(1)] ledger_sum_absent[OF that(2)] L by simp
  then show ?thesis by (auto simp: reconcileStockLevels_def Let_def L image_image)
qed

section \<open>A sample store\<close>

text \<open>Two live variants, the first tracked, ten units of it on the shelf.\<close>

definition sample_variant :: "uuid \<Rightarrow> bool \<Rightarrow> variant_row" where
  "sample_variant v tracks =
     \<lparr>pv_id = v, pv_productId = 500 + v, pv_sku = ''SKU'', pv_options = [], pv_pricePaise = 19900,
      pv_tracksInventory = tracks, pv_isActive = True, pv_deletedAt = None\<rparr>"

definition sample_store :: db where
  "sample_store = (empty_db 1000 (\<lambda>n. 9000 + n))\<lparr>db_variants := [sample_variant 1 True, sample_variant 2 False]\<rparr>"

definition stocked_store :: db where
  "stocked_store = exec_stock (OpRecord 7 \<lparr>mi_variantId = 1, mi_delta = 10, mi_note = None, mi_idempotencyKey = Some ''k1''\<rparr>) sample_store"

lemmas stock_eval = tx_simps acatch_def abind_def commit_def areturn_def athrow_def
  recordMovement_def recordMovementTx_def holdStock_def holdStockTx_def fitLine_def insertReservation_eq
  ensureDefaultLocation_def default_location_def find_variant_def findByIdempotencyKey_def
  applyMovement_eq moved_def movement_of_def key_taken_def level_at_def level_row_def put_level_def set_level_def
  active_reserved_def is_active_def in_int4_def int4_max_def recordAudit_def
  loadLineVariants_def line_tracked_def of_reference_def validateLines_def STOCK_ADJUSTMENT_MAX_def RESERVATION_TTL_MS_def
  empty_db_def sample_store_def sample_variant_def Let_def

lemma stocked_store_eq:
  "stocked_store = sample_store\<lparr>db_drawn := 2, db_locations := [\<lparr>loc_id = 9000, loc_isDefault = True\<rparr>],
     db_movements := [\<lparr>sm_id = 9001, sm_variantId = 1, sm_locationId = 9000, sm_delta = 10, sm_reason = opening_balance,
        sm_note = None, sm_referenceType = None, sm_referenceId = None, sm_idempotencyKey = Some ''k1'', sm_createdByUserId = Some 7\<rparr>],
     db_levels := [\<lparr>sl_variantId = 1, sl_locationId = 9000, sl_onHand = 10\<rparr>],
     db_audit := [\<lparr>au_actorType = staff, au_actorUserId = Some 7, au_action = ''inventory.adjusted'',
        au_entityType = ''product_variant'', au_entityId = Some 1,
        au_before = JObject [(''onHand'', JNumber 0)], au_after = JObject [(''onHand'', JNumber 10)]\<rparr>]\<rparr>"
  unfolding stocked_store_def exec_stock.simps by (simp add: stock_eval)

lemma stock_safe_empty:
  "db_levels db = [] \<Longrightarrow> db_movements db = [] \<Longrightarrow> db_reservations db = [] \<Longrightarrow> stock_safe db"
  by (simp add: stock_safe_def inventory_ok_def levels_ok_def ledger_ok_def reservations_ok_def holds_ok_def
      level_at_def level_row_def ledger_sum_def active_reserved_def default_level_def split: option.split)

lemma sample_store_safe: "stock_safe sample_store"
  by (rule stock_safe_empty) (simp_all add: sample_store_def empty_db_def)

lemma stocked_store_safe: "stock_safe stocked_store"
  unfolding stocked_store_def by (rule exec_stock_safe[OF sample_store_safe])

section \<open>Properties\<close>

text \<open>
  C1.  Whatever sequence of adjustments, holds, releases, sales, restocks and pauses a store goes
  through, in any order and whether each call succeeds or is refused: the reconciliation report
  of ledger against projection stays empty, on-hand is never negative, and active checkout holds
  never exceed what is on the shelf.
\<close>

theorem stock_always_safe:
  assumes "stock_safe db"
  shows "let db' = run_ops exec_stock ops db in
    reconcileStockLevels db' = [] \<and> (\<forall>v l. 0 \<le> level_at db' v l) \<and>
    (\<forall>v. active_reserved db' v \<le> default_level db' v)"
proof -
  have s: "stock_safe (run_ops exec_stock ops db)" by (rule stock.run_inv[OF assms])
  show ?thesis
    using reconcile_clean[OF stock_safeD(1)[OF s]] level_at_nonneg[OF stock_safeD(2)[OF s]] stock_safeD(4)[OF s]
    by (simp add: Let_def)
qed

theorem stock_always_safe_witness:
  "reconcileStockLevels (run_ops exec_stock
     [OpHold \<lparr>rf_type = ''checkout'', rf_refId = 77\<rparr> [\<lparr>hl_variantId = 1, hl_quantity = 4\<rparr>], OpTick 60000,
      OpConsume \<lparr>rf_type = ''checkout'', rf_refId = 77\<rparr> [\<lparr>hl_variantId = 1, hl_quantity = 4\<rparr>]] stocked_store) = []"
  using stock_always_safe[OF stocked_store_safe] by (simp add: Let_def)



text \<open>
  C3.  A sale is exact and all or nothing.  When \<open>consumeStock\<close> returns, the default location lost
  exactly the sold quantity of every tracked variant and nothing else moved; the ledger grew by
  one sale movement per tracked line, carrying the order's reference; the reference holds nothing
  any more and every other reference holds what it held.  When it is refused nothing changed.
\<close>

theorem consume_exact:
  "case consumeStock ref lines db of
     (Inl e, db') \<Rightarrow> db' = db
   | (Inr results, db') \<Rightarrow>
       map cr_variantId results = map hl_variantId lines \<and>
       (\<exists>l. default_location db' = Some l \<and>
          (\<forall>v l'. level_at db' v l' = level_at db v l' - (if l' = l then sold (filter (tracked_in db) lines) v else 0)) \<and>
          (\<exists>ms. db_movements db' = db_movements db @ ms \<and> list_all2 (sale_movement ref l) (sale_lines db lines) ms)) \<and>
       db_reservations db' = filter (\<lambda>r. \<not> of_reference ref r) (db_reservations db)"
proof (cases "validateLines lines")
  case (Inl e)
  then show ?thesis by (simp add: consumeStock_def athrow_def)
next
  case v: (Inr u)
  show ?thesis
  proof (cases "consumeStockWithin ref lines db")
    case (Inl e)
    then have c: "commit (consumeStockWithin ref lines) db = (Inl e, db)" by (rule commit_Inl)
    show ?thesis using v c
      by (cases e) (auto simp: consumeStock_def abind_def acatch_def athrow_def commit_def split: prod.split sum.split)
  next
    case (Inr x)
    then obtain results pids db' where run: "consumeStockWithin ref lines db = Inr ((results, pids), db')" by (metis surj_pair)
    then have c: "consumeStock ref lines db = (Inr results, db')"
      using v by (simp add: consumeStock_def abind_def acatch_def commit_def areturn_def)
    show ?thesis unfolding c by (rule consumeStockWithin_Inr[OF run]) auto
  qed
qed

text \<open>
  C4.  A hold is all or nothing.  For valid lines on live variants it succeeds exactly when
  every tracked line fits what is left after everybody else's active holds (its own earlier hold
  does not count against it); then the reference's rows are exactly the tracked lines, for
  fifteen minutes, and nobody else's active hold, no level and no movement changed.  Otherwise it
  names every line that does not fit and changes nothing.
\<close>

theorem hold_all_or_nothing:
  assumes "inventory_ok db" "validateLines lines = Inr ()" "\<forall>line \<in> set lines. live db line"
  shows "\<exists>l. (default_location db = None \<or> default_location db = Some l) \<and>
    (if \<forall>line \<in> set lines. tracked_in db line \<longrightarrow> fits db ref l line
     then \<exists>res db'. holdStock ref lines db = (Inr (res, db_now db + RESERVATION_TTL_MS), db') \<and> map fst res = lines \<and>
       filter (of_reference ref) (db_reservations db') =
         map (hold_row ref l (db_now db + RESERVATION_TTL_MS)) (filter (tracked_in db) lines) \<and>
       (\<forall>r. \<not> of_reference ref r \<and> is_active (db_now db) r \<longrightarrow>
          (r \<in> set (db_reservations db') \<longleftrightarrow> r \<in> set (db_reservations db))) \<and>
       db_levels db' = db_levels db \<and> db_movements db' = db_movements db
     else \<exists>fs. holdStock ref lines db = (Inl (InsufficientAvailabilityError fs), db) \<and>
       fst ` set fs = hl_variantId ` {line \<in> set lines. tracked_in db line \<and> \<not> fits db ref l line})"
proof -
  note V = validateLines_Inr[OF assms(2)]
  have R: "reservations_ok db" using assms(1) by (simp add: inventory_ok_def)
  obtain l where l: "default_location db = None \<or> default_location db = Some l"
    and tx: "if \<forall>line \<in> set lines. tracked_in db line \<longrightarrow> fits db ref l line
         then \<exists>res db'. holdStockTx ref lines db = Inr ((res, db_now db + RESERVATION_TTL_MS), db') \<and>
                hold_placed ref lines db l db' \<and> map fst res = lines
         else \<exists>fs. fs \<noteq> [] \<and> holdStockTx ref lines db = Inl (InsufficientAvailabilityError fs) \<and>
                fst ` set fs = hl_variantId ` {line \<in> set lines. tracked_in db line \<and> \<not> fits db ref l line}"
    using holdStockTx_eq[OF assms(3) V(2) R, of ref] by blast
  show ?thesis
  proof (cases "\<forall>line \<in> set lines. tracked_in db line \<longrightarrow> fits db ref l line")
    case True
    with tx obtain res db' where run: "holdStockTx ref lines db = Inr ((res, db_now db + RESERVATION_TTL_MS), db')"
      "hold_placed ref lines db l db'" "map fst res = lines" by auto
    from run(2) obtain P ls d where P: "\<And>r. is_active (db_now db) r \<Longrightarrow> P r"
      and db': "db' = db\<lparr>db_drawn := d, db_locations := ls,
          db_reservations := filter P (filter (\<lambda>r. \<not> of_reference ref r) (db_reservations db)) @
            map (hold_row ref l (db_now db + RESERVATION_TTL_MS)) (filter (tracked_in db) lines)\<rparr>"
      unfolding hold_placed_def by blast
    have mine: "of_reference ref (hold_row ref l e x)" for e x by (simp add: hold_row_def of_reference_def)
    have "holdStock ref lines db = (Inr (res, db_now db + RESERVATION_TTL_MS), db')"
      using run(1) by (simp add: holdStock_def assms(2) acatch_def commit_def)
    moreover have "filter (of_reference ref) (db_reservations db') =
         map (hold_row ref l (db_now db + RESERVATION_TTL_MS)) (filter (tracked_in db) lines)"
      by (simp add: db' filter_map comp_def mine filter_empty_conv)
    moreover have "\<forall>r. \<not> of_reference ref r \<and> is_active (db_now db) r \<longrightarrow>
          (r \<in> set (db_reservations db') \<longleftrightarrow> r \<in> set (db_reservations db))"
      using P mine by (auto simp: db')
    moreover have "db_levels db' = db_levels db" "db_movements db' = db_movements db" by (simp_all add: db')
    ultimately show ?thesis using run(3)
      by (intro exI[of _ l] conjI[OF l]) (subst if_P[OF True], blast)
  next
    case False
    with tx obtain fs where "holdStockTx ref lines db = Inl (InsufficientAvailabilityError fs)"
      "fst ` set fs = hl_variantId ` {line \<in> set lines. tracked_in db line \<and> \<not> fits db ref l line}" by auto
    then have "holdStock ref lines db = (Inl (InsufficientAvailabilityError fs), db) \<and>
      fst ` set fs = hl_variantId ` {line \<in> set lines. tracked_in db line \<and> \<not> fits db ref l line}"
      by (simp add: holdStock_def assms(2) acatch_def commit_def athrow_def)
    then show ?thesis by (intro exI[of _ l] conjI[OF l]) (subst if_not_P[OF False], blast)
  qed
qed

theorem hold_all_or_nothing_witness:
  "\<exists>fs. holdStock \<lparr>rf_type = ''checkout'', rf_refId = 77\<rparr> [\<lparr>hl_variantId = 1, hl_quantity = 11\<rparr>] stocked_store =
     (Inl (InsufficientAvailabilityError fs), stocked_store)"
proof -
  let ?ref = "\<lparr>rf_type = ''checkout'', rf_refId = 77\<rparr>" and ?lines = "[\<lparr>hl_variantId = 1, hl_quantity = 11\<rparr>]"
  have v: "validateLines ?lines = Inr ()" by (simp add: validateLines_def STOCK_ADJUSTMENT_MAX_def)
  have live: "\<forall>line \<in> set ?lines. live stocked_store line"
    unfolding stocked_store_eq by (simp add: live_def stock_eval)
  obtain l where l: "default_location stocked_store = None \<or> default_location stocked_store = Some l"
    and H: "if \<forall>line \<in> set ?lines. tracked_in stocked_store line \<longrightarrow> fits stocked_store ?ref l line
     then \<exists>res db'. holdStock ?ref ?lines stocked_store = (Inr (res, db_now stocked_store + RESERVATION_TTL_MS), db')
     else \<exists>fs. holdStock ?ref ?lines stocked_store = (Inl (InsufficientAvailabilityError fs), stocked_store)"
    using hold_all_or_nothing[OF stock_safeD(1)[OF stocked_store_safe] v live, of ?ref] by (auto split: if_split_asm)
  have "default_location stocked_store = Some 9000"
    unfolding stocked_store_eq by (simp add: stock_eval)
  then have "l = 9000" using l by auto
  moreover have "tracked_in stocked_store \<lparr>hl_variantId = 1, hl_quantity = 11\<rparr> \<and>
      \<not> fits stocked_store ?ref 9000 \<lparr>hl_variantId = 1, hl_quantity = 11\<rparr>"
    unfolding stocked_store_eq by (simp add: stock_eval tracked_in_def fits_def reserved_by_others_def)
  ultimately show ?thesis using H by simp
qed

section \<open>Retried adjustments\<close>

text \<open>Operations only ever append to the ledger and never touch the catalog.\<close>

definition extends :: "stock_movement list \<Rightarrow> variant_row list \<Rightarrow> db \<Rightarrow> bool" where
  "extends ms vs db \<longleftrightarrow> db_variants db = vs \<and> (\<exists>more. db_movements db = ms @ more)"

lemma keeps_extends_write:
  assumes "\<And>db. db_variants (f db) = db_variants db" "\<And>db. \<exists>more. db_movements (f db) = db_movements db @ more"
  shows "keeps (extends ms vs) (twrite f)"
proof (rule keeps_write)
  fix db assume "extends ms vs db"
  then show "extends ms vs (f db)" using assms(1)[of db] assms(2)[of db] by (auto simp: extends_def)
qed

lemma keeps_extends [keeps_rules]:
  "keeps (extends ms vs) draw_uuid" "keeps (extends ms vs) (deleteReservations P)" "keeps (extends ms vs) (recordAudit e)"
  "keeps (extends ms vs) ensureDefaultLocation" "keeps (extends ms vs) (insertReservation row)" "keeps (extends ms vs) (applyMovement args)"
proof -
  show U: "keeps (extends ms vs) draw_uuid" by (rule keepsI) (auto simp: extends_def)
  show "keeps (extends ms vs) (deleteReservations P)" "keeps (extends ms vs) (recordAudit e)"
    "keeps (extends ms vs) ensureDefaultLocation" "keeps (extends ms vs) (insertReservation row)" "keeps (extends ms vs) (applyMovement args)"
    unfolding deleteReservations_def recordAudit_def ensureDefaultLocation_def insertReservation_def
      applyMovement_def insertMovement_def projectLevel_def
    by (intro keeps_rules keeps_extends_write U; simp)+
qed

lemma exec_stock_extends: "extends ms vs db \<Longrightarrow> extends ms vs (exec_stock op db)"
proof -
  have "akeeps (extends ms vs) (recordMovement u input)" "akeeps (extends ms vs) (holdStock ref lines)"
    "akeeps (extends ms vs) (releaseStock ref)" "akeeps (extends ms vs) (consumeStock ref lines)"
    "akeeps (extends ms vs) (commit (restockWithin lines ref))" for u input ref lines
    unfolding recordMovement_def recordMovementTx_def holdStock_def holdStockTx_def fitLine_def releaseStock_def
      consumeStock_def consumeStockWithin_def consumeLine_def restockWithin_def restockLine_def Let_def
    by (auto intro!: keeps_rules split: sum.split err.split)
  then show "extends ms vs db \<Longrightarrow> extends ms vs (exec_stock op db)"
    by (cases op) (auto simp: akeeps_def, simp add: extends_def)
qed

lemma run_stock_extends: "extends ms vs db \<Longrightarrow> extends ms vs (run_ops exec_stock ops db)"
  unfolding run_ops_def by (induction ops arbitrary: db) (simp_all add: exec_stock_extends)

text \<open>What a recorded adjustment leaves behind.\<close>

definition recorded_as :: "movement_input \<Rightarrow> string \<Rightarrow> movement_result \<Rightarrow> db \<Rightarrow> bool" where
  "recorded_as input key r db \<longleftrightarrow>
     (\<exists>v. find_variant db (mi_variantId input) = Some v \<and> pv_tracksInventory v) \<and>
     (\<exists>m. find (\<lambda>m. sm_idempotencyKey m = Some key) (db_movements db) = Some m \<and>
        sm_id m = mr_movementId r \<and> sm_variantId m = mi_variantId input \<and> sm_delta m = mi_delta input \<and>
        sm_reason m = mr_reason r)"

lemma find_append_Some: "find P xs = Some x \<Longrightarrow> find P (xs @ ys) = Some x"
  by (induction xs) auto

lemma find_append_None: "find P xs = None \<Longrightarrow> find P (xs @ ys) = find P ys"
  by (induction xs) auto

lemma recordMovementTx_recorded:
  assumes "recordMovementTx u input db = Inr (r, db')" "mi_idempotencyKey input = Some key" "key \<noteq> []"
  shows "recorded_as input key r db'"
proof -
  obtain v where v: "find_variant db (mi_variantId input) = Some v" "pv_tracksInventory v"
    using assms(1) by (cases "find_variant db (mi_variantId input)")
      (auto simp: recordMovementTx_def tx_simps split: if_splits)
  show ?thesis
  proof (cases "findByIdempotencyKey db key")
    case (Some e)
    then have e: "replay_movement input e = Inr r" "db' = db"
      using assms v by (auto simp: recordMovementTx_def tx_simps split: sum.splits)
    from Some obtain m where m: "find (\<lambda>m. sm_idempotencyKey m = Some key) (db_movements db) = Some m"
      "mr_movementId e = sm_id m" "mr_variantId e = sm_variantId m" "mr_delta e = sm_delta m" "mr_reason e = sm_reason m"
      by (auto simp: findByIdempotencyKey_def split: option.splits)
    show ?thesis unfolding recorded_as_def using v m e by (auto simp: replay_movement_def split: if_splits)
  next
    case None
    then have nf: "find (\<lambda>m. sm_idempotencyKey m = Some key) (db_movements db) = None"
      by (auto simp: findByIdempotencyKey_def split: option.splits)
    obtain l ls d where L: "ensureDefaultLocation db = Inr (l, db\<lparr>db_drawn := d, db_locations := ls\<rparr>)"
      using ensureDefaultLocation_run[of db] by metis
    define db1 where "db1 = db\<lparr>db_drawn := d, db_locations := ls\<rparr>"
    define reason where "reason = (if list_ex (\<lambda>m. sm_variantId m = mi_variantId input) (db_movements db1) then adjustment else opening_balance)"
    define args where "args = \<lparr>am_variantId = mi_variantId input, am_locationId = l, am_delta = mi_delta input,
                       am_reason = reason, am_note = mi_note input,
                       am_idempotencyKey = mi_idempotencyKey input, am_createdByUserId = Some u,
                       am_referenceType = None, am_referenceId = None\<rparr>"
    obtain mid n db2 where A: "applyMovement args db1 = Inr ((mid, n), db2)" "mr_movementId r = mid" "mr_reason r = reason"
      "db_movements db' = db_movements db2" "db_variants db' = db_variants db2"
      using assms v None L
      by (auto simp: recordMovementTx_def tx_simps args_def reason_def db1_def recordAudit_def Let_def split: sum.splits prod.splits)
    note B = applyMovement_Inr[OF A(1)]
    have "db_movements db' = db_movements db @ [movement_of args mid]"
      by (simp add: A(4) B(1,6)) (simp add: db1_def)
    then have "find (\<lambda>m. sm_idempotencyKey m = Some key) (db_movements db') = Some (movement_of args mid)"
      by (simp add: find_append_None[OF nf] movement_of_def args_def assms(2))
    moreover have "find_variant db' (mi_variantId input) = Some v"
      using v(1) by (simp add: find_variant_def A(5) B(1) db1_def)
    ultimately show ?thesis unfolding recorded_as_def using v(2) A(2,3) by (auto simp: movement_of_def args_def)
  qed
qed

lemma recorded_replays:
  assumes "recorded_as input key r db" "mi_idempotencyKey input' = Some key" "key \<noteq> []"
    and "mi_variantId input' = mi_variantId input" "mi_delta input' = mi_delta input"
  shows "\<exists>r'. recordMovementTx u input' db = Inr (r', db) \<and> mr_movementId r' = mr_movementId r \<and>
    mr_reason r' = mr_reason r \<and> mr_delta r' = mi_delta input \<and> mr_replayed r'"
proof -
  from assms(1) obtain v m where v: "find_variant db (mi_variantId input) = Some v" "pv_tracksInventory v"
    and m: "find (\<lambda>m. sm_idempotencyKey m = Some key) (db_movements db) = Some m"
      "sm_id m = mr_movementId r" "sm_variantId m = mi_variantId input" "sm_delta m = mi_delta input" "sm_reason m = mr_reason r"
    unfolding recorded_as_def by blast
  show ?thesis using v m assms(2-5)
    by (auto simp: recordMovementTx_def tx_simps findByIdempotencyKey_def replay_movement_def)
qed

text \<open>A retry never reaches the handler: the transaction alone already answers.\<close>

lemma recordMovement_Inr:
  assumes "recordMovement u input db = (Inr r, db')" "mi_idempotencyKey input = Some key" "key \<noteq> []"
  shows "recordMovementTx u input db = Inr (r, db')" "\<not> (mi_delta input = 0 \<or> \<bar>mi_delta input\<bar> > STOCK_ADJUSTMENT_MAX)"
proof -
  show d: "\<not> (mi_delta input = 0 \<or> \<bar>mi_delta input\<bar> > STOCK_ADJUSTMENT_MAX)"
    using assms(1) by (auto simp: recordMovement_def athrow_def)
  show "recordMovementTx u input db = Inr (r, db')"
  proof (cases "recordMovementTx u input db")
    case (Inr x)
    then show ?thesis using assms(1) d by (auto simp: recordMovement_def acatch_def commit_def split: prod.splits)
  next
    case (Inl e)
    then have pg: "pgError e = Some (''23505'', ''stock_movements_tenant_idem_key'')" "findByIdempotencyKey db key \<noteq> None"
      using assms d
      by (auto simp: recordMovement_def acatch_def abind_def commit_def athrow_def areturn_def
          split: if_split_asm prod.splits sum.splits option.splits)
    then have False using Inl assms(2,3)
      by (auto simp: recordMovementTx_def tx_simps replay_movement_def idempotencyKeyReuse_def variantNotFound_def untrackedVariant_def
          split: option.splits if_split_asm sum.splits)
    then show ?thesis ..
  qed
qed

lemma recorded_refuses_other:
  assumes "recorded_as input key r db" "mi_idempotencyKey input = Some key" "key \<noteq> []"
    and d: "d \<noteq> mi_delta input" "d \<noteq> 0" "\<bar>d\<bar> \<le> STOCK_ADJUSTMENT_MAX"
  shows "recordMovement u (input\<lparr>mi_delta := d\<rparr>) db = (Inl idempotencyKeyReuse, db)"
proof -
  from assms(1) obtain v m where v: "find_variant db (mi_variantId input) = Some v" "pv_tracksInventory v"
    and m: "find (\<lambda>m. sm_idempotencyKey m = Some key) (db_movements db) = Some m" "sm_delta m = mi_delta input"
    unfolding recorded_as_def by blast
  have "recordMovementTx u (input\<lparr>mi_delta := d\<rparr>) db = Inl idempotencyKeyReuse"
    using v m assms(2,3) d by (simp add: recordMovementTx_def tx_simps findByIdempotencyKey_def replay_movement_def)
  then show ?thesis using d
    by (simp add: recordMovement_def acatch_def commit_def athrow_def idempotencyKeyReuse_def)
qed

text \<open>
  C5.  An adjustment with an idempotency key is recorded once.  Repeating it later, whatever
  happened in between and whoever repeats it, answers with the movement the first call recorded,
  marked as a replay, and writes nothing; using the key for another variant or another delta is
  refused and writes nothing.
\<close>

theorem recordMovement_idempotent:
  assumes "recordMovement u input db = (Inr r, db1)" "mi_idempotencyKey input = Some key" "key \<noteq> []"
    and "db2 = run_ops exec_stock ops db1"
  shows "(\<exists>r'. recordMovement u' input db2 = (Inr r', db2) \<and> mr_movementId r' = mr_movementId r \<and>
      mr_reason r' = mr_reason r \<and> mr_delta r' = mi_delta input \<and> mr_replayed r') \<and>
    (\<forall>d. d \<noteq> mi_delta input \<and> d \<noteq> 0 \<and> \<bar>d\<bar> \<le> STOCK_ADJUSTMENT_MAX \<longrightarrow>
      recordMovement u' (input\<lparr>mi_delta := d\<rparr>) db2 = (Inl idempotencyKeyReuse, db2))"
proof -
  note T = recordMovement_Inr[OF assms(1-3)]
  have rec1: "recorded_as input key r db1" by (rule recordMovementTx_recorded[OF T(1) assms(2,3)])
  have ext: "extends (db_movements db1) (db_variants db1) db2"
    unfolding assms(4) by (rule run_stock_extends) (simp add: extends_def)
  then obtain more where more: "db_movements db2 = db_movements db1 @ more" "db_variants db2 = db_variants db1"
    by (auto simp: extends_def)
  have rec2: "recorded_as input key r db2"
    using rec1 by (auto simp: recorded_as_def more find_variant_def dest: find_append_Some)
  obtain r' where "recordMovementTx u' input db2 = Inr (r', db2)" "mr_movementId r' = mr_movementId r"
    "mr_reason r' = mr_reason r" "mr_delta r' = mi_delta input" "mr_replayed r'"
    using recorded_replays[OF rec2 assms(2,3) refl refl] by blast
  then have "\<exists>r'. recordMovement u' input db2 = (Inr r', db2) \<and> mr_movementId r' = mr_movementId r \<and>
      mr_reason r' = mr_reason r \<and> mr_delta r' = mi_delta input \<and> mr_replayed r'"
    using T(2) by (intro exI[of _ r']) (simp add: recordMovement_def acatch_def commit_def)
  then show ?thesis using recorded_refuses_other[OF rec2 assms(2,3)] by blast
qed

theorem recordMovement_idempotent_witness:
  "\<exists>r'. recordMovement 8 \<lparr>mi_variantId = 1, mi_delta = 10, mi_note = None, mi_idempotencyKey = Some ''k1''\<rparr>
     (run_ops exec_stock [OpTick 5, OpRecord 7 \<lparr>mi_variantId = 1, mi_delta = -3, mi_note = None, mi_idempotencyKey = None\<rparr>] stocked_store) =
     (Inr r', run_ops exec_stock [OpTick 5, OpRecord 7 \<lparr>mi_variantId = 1, mi_delta = -3, mi_note = None, mi_idempotencyKey = None\<rparr>] stocked_store)"
proof -
  let ?in = "\<lparr>mi_variantId = 1, mi_delta = 10, mi_note = None, mi_idempotencyKey = Some ''k1''\<rparr>"
  have "\<not> isl (fst (recordMovement 7 ?in sample_store))" by (simp add: stock_eval)
  then obtain r where "recordMovement 7 ?in sample_store = (Inr r, stocked_store)"
    by (metis prod.collapse sum.collapse(2) stocked_store_def exec_stock.simps(1))
  from recordMovement_idempotent[OF this, of "''k1''" _ _ 8, OF _ _ refl] show ?thesis by (simp, blast)
qed

end
