(* ===== verification/Orders.thy ===== *)
theory Orders
  imports Errors Enums Machines
begin

text \<open>
  The order state machine, \<open>packages/core/src/orders/index.ts\<close>: the pinned transition table, the
  staff-clickable ladder, the guard every status change goes through and the merchant-facing
  order label.  The table meets the \<open>ranked_machine\<close> contract.
\<close>

fun ORDER_TRANSITIONS :: "order_status \<Rightarrow> order_status list" where
  "ORDER_TRANSITIONS pending_payment = [confirmed, abandoned, cancelled]"
| "ORDER_TRANSITIONS confirmed = [processing, cancelled]"
| "ORDER_TRANSITIONS processing = [ready_to_ship, cancelled]"
| "ORDER_TRANSITIONS ready_to_ship = [shipped]"
| "ORDER_TRANSITIONS shipped = [out_for_delivery, rto_initiated]"
| "ORDER_TRANSITIONS out_for_delivery = [delivered, rto_initiated]"
| "ORDER_TRANSITIONS rto_initiated = [rto_delivered]"
| "ORDER_TRANSITIONS delivered = [return_requested]"
| "ORDER_TRANSITIONS return_requested = [return_picked]"
| "ORDER_TRANSITIONS return_picked = [refunded]"
| "ORDER_TRANSITIONS abandoned = []"
| "ORDER_TRANSITIONS cancelled = []"
| "ORDER_TRANSITIONS refunded = []"
| "ORDER_TRANSITIONS rto_delivered = []"

definition MANUAL_ORDER_TRANSITIONS :: "(order_status \<times> order_status) list" where
  "MANUAL_ORDER_TRANSITIONS =
    [(confirmed, processing), (processing, ready_to_ship), (ready_to_ship, shipped),
     (shipped, out_for_delivery), (out_for_delivery, delivered)]"

definition canTransition :: "order_status \<Rightarrow> order_status \<Rightarrow> bool" where
  "canTransition from to \<longleftrightarrow> to \<in> set (ORDER_TRANSITIONS from)"

definition invalidTransition :: err where
  "invalidTransition = AppError ''invalid_transition'' 422 []"

definition assertTransition :: "order_status \<Rightarrow> order_status \<Rightarrow> unit res" where
  "assertTransition from to = ensure (canTransition from to) invalidTransition"

definition formatOrderNumber :: "string \<Rightarrow> int \<Rightarrow> string" where
  "formatOrderNumber prefix orderNumber =
    (let trimmed = trim prefix
     in if trimmed \<noteq> [] then trimmed @ ''-'' @ show_int orderNumber else show_int orderNumber)"

section \<open>The table as a machine\<close>

definition order_terminal :: "order_status \<Rightarrow> bool" where
  "order_terminal s \<longleftrightarrow> ORDER_TRANSITIONS s = []"

text \<open>How far along the longest path from checkout a status lies.\<close>

fun order_rank :: "order_status \<Rightarrow> nat" where
  "order_rank pending_payment = 0"
| "order_rank confirmed = 1"
| "order_rank processing = 2"
| "order_rank ready_to_ship = 3"
| "order_rank shipped = 4"
| "order_rank out_for_delivery = 5"
| "order_rank delivered = 6"
| "order_rank rto_initiated = 6"
| "order_rank rto_delivered = 7"
| "order_rank return_requested = 7"
| "order_rank return_picked = 8"
| "order_rank refunded = 9"
| "order_rank cancelled = 3"
| "order_rank abandoned = 1"

interpretation orders: ranked_machine canTransition order_terminal order_rank
proof
  fix s t
  show "order_terminal s \<Longrightarrow> \<not> canTransition s t" by (simp add: order_terminal_def canTransition_def)
  show "\<not> canTransition s s" by (cases s) (simp_all add: canTransition_def)
  show "canTransition s t \<Longrightarrow> order_rank s < order_rank t"
    by (cases s) (auto simp: canTransition_def)
qed

lemma assertTransition_Inr [simp, result_simps]: "assertTransition s t = Inr u \<longleftrightarrow> canTransition s t"
  by (simp add: assertTransition_def)

lemma order_terminal_iff: "order_terminal s \<longleftrightarrow> s \<in> {abandoned, cancelled, refunded, rto_delivered}"
  by (cases s) (simp_all add: order_terminal_def)

lemma manual_transitions_in_table:
  "(s, t) \<in> set MANUAL_ORDER_TRANSITIONS \<Longrightarrow> canTransition s t"
  by (auto simp: MANUAL_ORDER_TRANSITIONS_def canTransition_def)

text \<open>Everything before delivery that a staff click can reach lies on the ladder.\<close>

lemma canTransition_closure:
  assumes "canTransition\<^sup>*\<^sup>* s t" and "s \<in> S" and "\<And>a b. a \<in> S \<Longrightarrow> b \<in> set (ORDER_TRANSITIONS a) \<Longrightarrow> b \<in> S"
  shows "t \<in> S"
  using assms by (induction rule: rtranclp_induct) (auto simp: canTransition_def)

section \<open>Properties\<close>

text \<open>
  The order table only moves forward: no sequence of transitions brings an order back to a
  status it left, its terminal statuses are exactly \<open>abandoned\<close>, \<open>cancelled\<close>, \<open>refunded\<close> and
  \<open>rto_delivered\<close>, and every status can be reached from a fresh checkout.
\<close>

theorem order_machine_forward_only:
  "(\<forall>s t. canTransition\<^sup>+\<^sup>+ s t \<longrightarrow> \<not> canTransition\<^sup>*\<^sup>* t s) \<and>
   (\<forall>s. (\<nexists>t. canTransition s t) \<longleftrightarrow> s \<in> {abandoned, cancelled, refunded, rto_delivered}) \<and>
   (\<forall>s. canTransition\<^sup>*\<^sup>* pending_payment s)"
proof (intro conjI allI)
  fix s t
  show "canTransition\<^sup>+\<^sup>+ s t \<longrightarrow> \<not> canTransition\<^sup>*\<^sup>* t s" using orders.never_back by blast
  show "(\<nexists>t. canTransition s t) \<longleftrightarrow> s \<in> {abandoned, cancelled, refunded, rto_delivered}"
    by (cases s) (auto simp: canTransition_def)
  have step: "canTransition\<^sup>*\<^sup>* pending_payment b"
    if "canTransition\<^sup>*\<^sup>* pending_payment a" "b \<in> set (ORDER_TRANSITIONS a)" for a b
    using that by (auto simp: canTransition_def intro: rtranclp.rtrancl_into_rtrancl)
  have main: "canTransition\<^sup>*\<^sup>* pending_payment confirmed" by (rule step[of pending_payment]) simp_all
  have p: "canTransition\<^sup>*\<^sup>* pending_payment processing" by (rule step[OF main]) simp
  have r: "canTransition\<^sup>*\<^sup>* pending_payment ready_to_ship" by (rule step[OF p]) simp
  have sh: "canTransition\<^sup>*\<^sup>* pending_payment shipped" by (rule step[OF r]) simp
  have o: "canTransition\<^sup>*\<^sup>* pending_payment out_for_delivery" by (rule step[OF sh]) simp
  have d: "canTransition\<^sup>*\<^sup>* pending_payment delivered" by (rule step[OF o]) simp
  have ri: "canTransition\<^sup>*\<^sup>* pending_payment rto_initiated" by (rule step[OF o]) simp
  have rr: "canTransition\<^sup>*\<^sup>* pending_payment return_requested" by (rule step[OF d]) simp
  have rp: "canTransition\<^sup>*\<^sup>* pending_payment return_picked" by (rule step[OF rr]) simp
  show "canTransition\<^sup>*\<^sup>* pending_payment s"
    using main p r sh o d ri rr rp step[OF main] step[OF ri] step[OF rp]
      step[of pending_payment abandoned]
    by (cases s) simp_all
qed

theorem order_machine_forward_only_witness:
  "\<not> canTransition\<^sup>*\<^sup>* confirmed pending_payment"
proof -
  have "canTransition\<^sup>+\<^sup>+ pending_payment confirmed" by (rule tranclp.r_into_trancl) (simp add: canTransition_def)
  then show ?thesis using order_machine_forward_only by blast
qed

end
