(* ===== verification/PaymentSplit.thy ===== *)
theory PaymentSplit
  imports Errors Enums
begin

text \<open>
  The pure half of payments, \<open>packages/core/src/payments/index.ts\<close>: the advance policy and the
  split of an order total into what the gateway collects now and what is due on delivery.
\<close>

record advance_policy =
  ap_codEnabled :: bool
  ap_advanceBps :: "int option"
  ap_minAdvancePaise :: paise

definition GATEWAY_MIN_ORDER_PAISE :: int where
  "GATEWAY_MIN_ORDER_PAISE = 100"

definition refuseSplit :: "string \<Rightarrow> string \<Rightarrow> err" where
  "refuseSplit code path = AppError code 422 [path]"

definition advance_of :: "paise \<Rightarrow> int \<Rightarrow> paise \<Rightarrow> paise" where
  "advance_of totalPaise bps minAdvance =
    (let rawAdvance = (totalPaise * bps + 5000) div 10000;
         advancePaise = min (max rawAdvance minAdvance) totalPaise
     in if advancePaise > 0 \<and> advancePaise < GATEWAY_MIN_ORDER_PAISE
        then min GATEWAY_MIN_ORDER_PAISE totalPaise else advancePaise)"

definition computeAdvanceSplit :: "paise \<Rightarrow> advance_policy \<Rightarrow> checkout_payment_mode \<Rightarrow> (paise \<times> paise) res" where
  "computeAdvanceSplit totalPaise policy mode =
    (if \<not> is_safe_integer totalPaise \<or> totalPaise < 0 \<or> totalPaise * 10000 > max_safe_integer
     then Inl (refuseSplit ''invalid_payload'' ''totalPaise'')
     else if mode = prepaid then Inr (totalPaise, 0)
     else if \<not> ap_codEnabled policy then Inl (refuseSplit ''invalid_payload'' ''paymentMode'')
     else if mode = cod then Inr (0, totalPaise)
     else case ap_advanceBps policy of
       None \<Rightarrow> Inl (refuseSplit ''advance_not_configured'' ''paymentMode'')
     | Some bps \<Rightarrow>
         if bps < 0 \<or> bps > 10000 then Inl (refuseSplit ''invalid_payload'' ''paymentMode'')
         else if \<not> is_safe_integer (ap_minAdvancePaise policy) \<or> ap_minAdvancePaise policy < 0
         then Inl (refuseSplit ''invalid_payload'' ''paymentMode'')
         else
           let advancePaise = advance_of totalPaise bps (ap_minAdvancePaise policy);
               codDuePaise = totalPaise - advancePaise
           in if advancePaise + codDuePaise \<noteq> totalPaise then Inl (JsError ''computeAdvanceSplit'')
              else Inr (advancePaise, codDuePaise))"

section \<open>What the split promises\<close>

lemma advance_of_bounds:
  assumes "0 \<le> t" "0 \<le> bps" "0 \<le> m"
  shows "0 \<le> advance_of t bps m" "advance_of t bps m \<le> t"
    and "advance_of t bps m = 0 \<or> min GATEWAY_MIN_ORDER_PAISE t \<le> advance_of t bps m"
    and "min m t \<le> advance_of t bps m"
proof -
  have "0 \<le> (t * bps + 5000) div 10000" using assms by (simp add: pos_imp_zdiv_nonneg_iff)
  then show "0 \<le> advance_of t bps m" "advance_of t bps m \<le> t"
    "advance_of t bps m = 0 \<or> min GATEWAY_MIN_ORDER_PAISE t \<le> advance_of t bps m"
    "min m t \<le> advance_of t bps m"
    using assms unfolding advance_of_def Let_def GATEWAY_MIN_ORDER_PAISE_def
    by (auto simp: min_def max_def)
qed

text \<open>When the requested mode is refused, and with which machine-readable code.\<close>

definition split_refused :: "paise \<Rightarrow> advance_policy \<Rightarrow> checkout_payment_mode \<Rightarrow> bool" where
  "split_refused t policy mode \<longleftrightarrow>
     t < 0 \<or> t * 10000 > max_safe_integer \<or>
     mode \<noteq> prepaid \<and> \<not> ap_codEnabled policy \<or>
     mode = cod_advance \<and>
       (ap_minAdvancePaise policy < 0 \<or> \<not> is_safe_integer (ap_minAdvancePaise policy) \<or>
        (case ap_advanceBps policy of None \<Rightarrow> True | Some bps \<Rightarrow> bps < 0 \<or> bps > 10000))"

lemma computeAdvanceSplit_total:
  "(\<exists>r. computeAdvanceSplit t policy mode = Inr r) \<longleftrightarrow> \<not> split_refused t policy mode"
proof -
  have "is_safe_integer t \<or> t < 0 \<or> t * 10000 > max_safe_integer"
    by (auto simp: is_safe_integer_def max_safe_integer_def)
  then show ?thesis
    by (cases mode) (auto simp: computeAdvanceSplit_def split_refused_def Let_def split: option.split)
qed


end
