(* ===== verification/Serviceability.thy ===== *)
theory Serviceability
  imports Errors Enums Settings
begin

text \<open>
  Delivery areas and shipping fees, \<open>packages/core/src/serviceability\<close>: the pincode-prefix table
  that cross-checks the state a buyer types, the store's pincode policy and the flat shipping
  fee with its free-shipping threshold.
\<close>

section \<open>Pincodes and states\<close>

text \<open>\<open>PINCODE_RE\<close>: \<open>/^[1-9][0-9]{5}$/\<close>.\<close>

definition pincode_ok :: "string \<Rightarrow> bool" where
  "pincode_ok p \<longleftrightarrow> length p = 6 \<and> list_all is_digit p \<and> hd p \<noteq> CHR ''0''"

definition GST_STATE_NAMES :: "(string \<times> string) list" where
  "GST_STATE_NAMES =
    [(''01'', ''Jammu and Kashmir''), (''02'', ''Himachal Pradesh''), (''03'', ''Punjab''),
     (''04'', ''Chandigarh''), (''05'', ''Uttarakhand''), (''06'', ''Haryana''), (''07'', ''Delhi''),
     (''08'', ''Rajasthan''), (''09'', ''Uttar Pradesh''), (''10'', ''Bihar''), (''11'', ''Sikkim''),
     (''12'', ''Arunachal Pradesh''), (''13'', ''Nagaland''), (''14'', ''Manipur''),
     (''15'', ''Mizoram''), (''16'', ''Tripura''), (''17'', ''Meghalaya''), (''18'', ''Assam''),
     (''19'', ''West Bengal''), (''20'', ''Jharkhand''), (''21'', ''Odisha''), (''22'', ''Chhattisgarh''),
     (''23'', ''Madhya Pradesh''), (''24'', ''Gujarat''),
     (''26'', ''Dadra and Nagar Haveli and Daman and Diu''), (''27'', ''Maharashtra''),
     (''29'', ''Karnataka''), (''30'', ''Goa''), (''31'', ''Lakshadweep''), (''32'', ''Kerala''),
     (''33'', ''Tamil Nadu''), (''34'', ''Puducherry''), (''35'', ''Andaman and Nicobar Islands''),
     (''36'', ''Telangana''), (''37'', ''Andhra Pradesh''), (''38'', ''Ladakh'')]"

definition PINCODE_PREFIX_STATES :: "(string \<times> string list) list" where
  "PINCODE_PREFIX_STATES =
    [(''11'', [''07'']), (''12'', [''06'']), (''13'', [''06'']), (''14'', [''03'']), (''15'', [''03'']),
     (''16'', [''03'', ''04'']), (''17'', [''02'']), (''18'', [''01'']), (''19'', [''01'', ''38'']),
     (''20'', [''09'']), (''21'', [''09'']), (''22'', [''09'']), (''23'', [''09'']),
     (''24'', [''09'', ''05'']), (''25'', [''09'']), (''26'', [''09'', ''05'']), (''27'', [''09'']),
     (''28'', [''09'']), (''30'', [''08'']), (''31'', [''08'']), (''32'', [''08'']), (''33'', [''08'']),
     (''34'', [''08'']), (''36'', [''24'', ''26'']), (''37'', [''24'']), (''38'', [''24'']),
     (''39'', [''24'', ''26'']), (''40'', [''27'', ''30'']), (''41'', [''27'']), (''42'', [''27'']),
     (''43'', [''27'']), (''44'', [''27'']), (''45'', [''23'']), (''46'', [''23'']), (''47'', [''23'']),
     (''48'', [''23'']), (''49'', [''22'']), (''50'', [''36'']), (''51'', [''37'']), (''52'', [''37'']),
     (''53'', [''37'', ''34'']), (''56'', [''29'']), (''57'', [''29'']), (''58'', [''29'']),
     (''59'', [''29'']), (''60'', [''33'', ''34'']), (''61'', [''33'']), (''62'', [''33'']),
     (''63'', [''33'']), (''64'', [''33'']), (''67'', [''32'', ''34'']), (''68'', [''32'', ''31'']),
     (''69'', [''32'']), (''70'', [''19'']), (''71'', [''19'']), (''72'', [''19'']),
     (''73'', [''19'', ''11'']), (''74'', [''19'', ''35'']), (''75'', [''21'']), (''76'', [''21'']),
     (''77'', [''21'']), (''78'', [''18'']), (''79'', [''12'', ''13'', ''14'', ''15'', ''16'', ''17'']),
     (''80'', [''10'']), (''81'', [''10'', ''20'']), (''82'', [''10'', ''20'']),
     (''83'', [''10'', ''20'']), (''84'', [''10'']), (''85'', [''10''])]"

definition statesForPincode :: "string \<Rightarrow> string list res" where
  "statesForPincode pincode =
    (if \<not> pincode_ok pincode then Inl (invalidPayload [''pincode''])
     else Inr (case map_of PINCODE_PREFIX_STATES (take 2 pincode) of Some ss \<Rightarrow> ss | None \<Rightarrow> []))"

section \<open>The pincode policy\<close>

datatype pincode_policy = policy_all | policy_carrier | policy_list "string list"

datatype policy_mode = mode_all | mode_carrier | mode_list

datatype serviceability_result = serviceable policy_mode | pincode_unserviceable policy_mode

text \<open>The prefixes a stored list may hold: \<open>/^[1-9][0-9]{0,5}$/\<close>.\<close>

definition prefix_ok :: "string \<Rightarrow> bool" where
  "prefix_ok p \<longleftrightarrow> p \<noteq> [] \<and> length p \<le> 6 \<and> list_all is_digit p \<and> hd p \<noteq> CHR ''0''"

fun as_prefix :: "json \<Rightarrow> string option" where
  "as_prefix (JString p) = (if prefix_ok p then Some p else None)"
| "as_prefix _ = None"

definition parse_prefixes :: "json list \<Rightarrow> string list option" where
  "parse_prefixes js = those (map as_prefix js)"

definition parsePincodePolicy :: "json option \<Rightarrow> pincode_policy" where
  "parsePincodePolicy value =
    (case value of
       Some (JObject fields) \<Rightarrow>
         (if map_of fields ''mode'' = Some (JString ''all'') then policy_all
          else if map_of fields ''mode'' = Some (JString ''carrier'') then policy_carrier
          else if map_of fields ''mode'' = Some (JString ''list'') then
            (case map_of fields ''allowedPrefixes'' of
               Some (JArray js) \<Rightarrow> (case parse_prefixes js of Some ps \<Rightarrow> policy_list ps | None \<Rightarrow> policy_all)
             | _ \<Rightarrow> policy_all)
          else policy_all)
     | _ \<Rightarrow> policy_all)"

definition starts_with :: "string \<Rightarrow> string \<Rightarrow> bool" where
  "starts_with s p \<longleftrightarrow> take (length p) s = p"

definition checkServiceability :: "store_settings \<Rightarrow> string \<Rightarrow> checkout_payment_mode \<Rightarrow> serviceability_result res" where
  "checkServiceability settings pincode paymentMode =
    (if \<not> pincode_ok pincode then Inl (invalidPayload [''pincode''])
     else case parsePincodePolicy (read_setting settings ''shipping.pincode_policy'') of
       policy_all \<Rightarrow> Inr (serviceable mode_all)
     | policy_list ps \<Rightarrow>
         Inr (if list_ex (starts_with pincode) ps then serviceable mode_list else pincode_unserviceable mode_list)
     | policy_carrier \<Rightarrow> Inl (AppError ''not_supported_yet'' 422 []))"

section \<open>Shipping fee\<close>

definition computeShippingFeePaise :: "paise \<Rightarrow> paise \<Rightarrow> paise option \<Rightarrow> paise res" where
  "computeShippingFeePaise subtotalPaise flatFeePaise freeAbovePaise =
    (if \<not> is_safe_integer subtotalPaise \<or> subtotalPaise < 0 then Inl (invalidPayload [''subtotalPaise''])
     else if \<not> is_safe_integer flatFeePaise \<or> flatFeePaise < 0 then Inl (invalidPayload [''flatFeePaise''])
     else case freeAbovePaise of
       None \<Rightarrow> Inr flatFeePaise
     | Some th \<Rightarrow>
         if \<not> is_safe_integer th \<or> th < 0 then Inl (invalidPayload [''freeAbovePaise''])
         else if subtotalPaise \<ge> th then Inr 0 else Inr flatFeePaise)"

definition getShippingFeeQuote :: "store_settings \<Rightarrow> paise \<Rightarrow> (paise \<times> paise \<times> paise option) res" where
  "getShippingFeeQuote settings subtotalPaise =
    (let flatFeePaise = (case read_paise settings ''shipping.flat_fee_paise'' of Some p \<Rightarrow> p | None \<Rightarrow> 0);
         freeAbovePaise = read_paise settings ''shipping.free_above_paise''
     in rbind (computeShippingFeePaise subtotalPaise flatFeePaise freeAbovePaise)
          (\<lambda>feePaise. Inr (feePaise, flatFeePaise, freeAbovePaise)))"

section \<open>Properties\<close>

lemma prefix_states_wellformed:
  "distinct (map fst PINCODE_PREFIX_STATES)"
  "\<forall>(p, ss) \<in> set PINCODE_PREFIX_STATES. length p = 2 \<and> ss \<noteq> [] \<and> distinct ss \<and> set ss \<subseteq> fst ` set GST_STATE_NAMES"
  by (simp_all add: PINCODE_PREFIX_STATES_def GST_STATE_NAMES_def)

text \<open>
  A quote for a subtotal in range always comes back: the fee is nothing when the subtotal
  reaches the stored free-shipping threshold and the stored flat fee otherwise, and a missing
  or malformed setting means no fee and no threshold, never a failed checkout.
\<close>

theorem shipping_quote_total:
  assumes "0 \<le> subtotal" "is_safe_integer subtotal"
  shows "\<exists>fee flat th. getShippingFeeQuote settings subtotal = Inr (fee, flat, th) \<and> 0 \<le> fee \<and> fee \<le> flat \<and>
    is_safe_integer fee \<and>
    (fee = (case th of Some a \<Rightarrow> if a \<le> subtotal then 0 else flat | None \<Rightarrow> flat)) \<and>
    (read_paise settings ''shipping.flat_fee_paise'' = None \<longrightarrow> flat = 0) \<and>
    (read_paise settings ''shipping.free_above_paise'' = None \<longrightarrow> th = None)"
proof -
  define flat where "flat = (case read_paise settings ''shipping.flat_fee_paise'' of Some p \<Rightarrow> p | None \<Rightarrow> 0)"
  define th where "th = read_paise settings ''shipping.free_above_paise''"
  have flat: "0 \<le> flat" "is_safe_integer flat"
    using read_paise_range[of settings] by (auto simp: flat_def split: option.splits)
  have th: "0 \<le> a \<and> is_safe_integer a" if "th = Some a" for a
    using read_paise_range[of settings] that by (auto simp: th_def)
  define fee where "fee = (case th of Some a \<Rightarrow> if a \<le> subtotal then 0 else flat | None \<Rightarrow> flat)"
  have "computeShippingFeePaise subtotal flat th = Inr fee"
    using assms flat th by (auto simp: computeShippingFeePaise_def fee_def split: option.splits)
  then have "getShippingFeeQuote settings subtotal = Inr (fee, flat, th)"
    by (simp add: getShippingFeeQuote_def flat_def[symmetric] th_def[symmetric])
  moreover have "0 \<le> fee" "fee \<le> flat" "is_safe_integer fee"
    using flat by (auto simp: fee_def split: option.splits)
  moreover have "read_paise settings ''shipping.flat_fee_paise'' = None \<longrightarrow> flat = 0"
    "read_paise settings ''shipping.free_above_paise'' = None \<longrightarrow> th = None"
    by (simp_all add: flat_def th_def)
  ultimately show ?thesis using fee_def by (intro exI[of _ fee] exI[of _ flat] exI[of _ th] conjI)
qed

theorem shipping_quote_total_witness:
  "\<exists>fee flat th. getShippingFeeQuote [(''shipping.flat_fee_paise'', JNumber 4900)] 10000 = Inr (fee, flat, th) \<and> fee \<le> flat"
  using shipping_quote_total[of 10000 "[(''shipping.flat_fee_paise'', JNumber 4900)]"]
  by (auto simp: is_safe_integer_def max_safe_integer_def)

text \<open>
  The state cross-check never refuses a well-formed pincode, and only names states of the
  current GST list: every listed answer is a non-empty set of distinct codes, an unknown
  prefix answers with none, and malformed input is the only refusal.
\<close>

theorem statesForPincode_sound:
  "(case statesForPincode p of
      Inl e \<Rightarrow> \<not> pincode_ok p \<and> e = invalidPayload [''pincode'']
    | Inr ss \<Rightarrow> pincode_ok p \<and> distinct ss \<and> set ss \<subseteq> fst ` set GST_STATE_NAMES \<and>
        (ss = []) = (take 2 p \<notin> fst ` set PINCODE_PREFIX_STATES))"
proof (cases "map_of PINCODE_PREFIX_STATES (take 2 p)")
  case None
  moreover from None have "take 2 p \<notin> fst ` set PINCODE_PREFIX_STATES" using map_of_eq_None_iff by metis
  ultimately show ?thesis by (simp add: statesForPincode_def)
next
  case (Some ss)
  then have m: "(take 2 p, ss) \<in> set PINCODE_PREFIX_STATES" by (rule map_of_SomeD)
  then have "ss \<noteq> [] \<and> distinct ss \<and> set ss \<subseteq> fst ` set GST_STATE_NAMES"
    using prefix_states_wellformed(2) by fast
  moreover have "take 2 p \<in> fst ` set PINCODE_PREFIX_STATES" using m by force
  ultimately show ?thesis using Some by (simp add: statesForPincode_def)
qed

end
