(* ===== verification/Shipments.thy ===== *)
theory Shipments
  imports Errors Enums Machines
begin

text \<open>
  Shipment statuses, \<open>packages/core/src/logistics/status.ts\<close> and the vocabulary of
  \<open>logistics/types.ts\<close>: translation of a carrier's free text, the rule that drops stale and
  out-of-order events, the dedupe signature and the view the order machine gets.  The rule meets
  the \<open>state_machine\<close> contract, so a closed shipment is never reopened.
\<close>

datatype shipment_status =
    sh_created | sh_manifested | sh_pickup_scheduled | sh_pickup_failed | sh_picked_up
  | sh_in_transit | sh_reached_destination_hub | sh_out_for_delivery | sh_delivery_failed
  | sh_delivered | sh_rto_initiated | sh_rto_in_transit | sh_rto_delivered | sh_cancelled
  | sh_lost | sh_damaged | sh_on_hold

fun TERMINAL_STATUSES :: "shipment_status \<Rightarrow> bool" where
  "TERMINAL_STATUSES s = (s \<in> {sh_delivered, sh_rto_delivered, sh_cancelled, sh_lost})"

fun STATUS_RANK :: "shipment_status \<Rightarrow> nat" where
  "STATUS_RANK sh_created = 0"
| "STATUS_RANK sh_manifested = 10"
| "STATUS_RANK sh_pickup_scheduled = 20"
| "STATUS_RANK sh_pickup_failed = 25"
| "STATUS_RANK sh_picked_up = 30"
| "STATUS_RANK sh_in_transit = 40"
| "STATUS_RANK sh_reached_destination_hub = 50"
| "STATUS_RANK sh_out_for_delivery = 60"
| "STATUS_RANK sh_delivery_failed = 65"
| "STATUS_RANK sh_delivered = 100"
| "STATUS_RANK sh_rto_initiated = 70"
| "STATUS_RANK sh_rto_in_transit = 80"
| "STATUS_RANK sh_rto_delivered = 100"
| "STATUS_RANK sh_on_hold = 45"
| "STATUS_RANK sh_damaged = 90"
| "STATUS_RANK sh_cancelled = 100"
| "STATUS_RANK sh_lost = 100"

section \<open>Carrier text\<close>

definition is_separator :: "char \<Rightarrow> bool" where
  "is_separator c \<longleftrightarrow> is_space c \<or> c = CHR ''-'' \<or> c = CHR ''/''"

text \<open>\<open>replace(/[\s\-/]+/g, "_")\<close>: each maximal run of separators becomes one underscore.\<close>

fun collapse_separators :: "bool \<Rightarrow> string \<Rightarrow> string" where
  "collapse_separators in_run [] = []"
| "collapse_separators in_run (c # cs) =
     (if is_separator c then (if in_run then [] else ''_'') @ collapse_separators True cs
      else c # collapse_separators False cs)"

definition key_char :: "char \<Rightarrow> bool" where
  "key_char c \<longleftrightarrow> (97 \<le> (of_char c :: nat) \<and> (of_char c :: nat) \<le> 122) \<or> is_digit c \<or> c = CHR ''_''"

definition normaliseKey :: "string \<Rightarrow> string" where
  "normaliseKey raw = filter key_char (collapse_separators False (to_lower (trim raw)))"

fun js_includes :: "string \<Rightarrow> string \<Rightarrow> bool" where
  "js_includes [] n = (n = [])"
| "js_includes (c # cs) n = (take (length n) (c # cs) = n \<or> js_includes cs n)"

datatype matched = by_map | by_keyword | by_nothing

type_synonym status_map = "string \<Rightarrow> (shipment_status \<times> string option) option"

text \<open>The keyword fallback, most specific and most damaging first.\<close>

definition keyword_status :: "string \<Rightarrow> shipment_status option" where
  "keyword_status t =
    (let has = (\<lambda>needles. list_ex (js_includes t) needles) in
     if has [''rto_deliver'', ''rto_complete'', ''rto_received'', ''return_received''] then Some sh_rto_delivered
     else if has [''rto'', ''return_to_origin'', ''returned_to_origin'', ''return_to_shipper''] then Some sh_rto_initiated
     else if has [''lost'', ''untraceable''] then Some sh_lost
     else if has [''damage''] then Some sh_damaged
     else if has [''cancel''] then Some sh_cancelled
     else if has [''deliver''] \<and> has [''fail'', ''unsuccess'', ''attempt'', ''undeliver'', ''ndr''] then Some sh_delivery_failed
     else if has [''delivered''] then Some sh_delivered
     else if has [''out_for_delivery'', ''ofd''] then Some sh_out_for_delivery
     else if has [''destination'', ''reached_hub'', ''arrived_at_destination''] then Some sh_reached_destination_hub
     else if has [''in_transit'', ''shipped'', ''dispatch'', ''bagged'', ''intransit''] then Some sh_in_transit
     else if has [''picked'', ''pickup_done'', ''collected''] then Some sh_picked_up
     else if has [''pickup''] \<and> has [''fail'', ''cancel'', ''exception''] then Some sh_pickup_failed
     else if has [''pickup'', ''pick_up''] then Some sh_pickup_scheduled
     else if has [''manifest'', ''awb_assigned'', ''label''] then Some sh_manifested
     else if has [''hold'', ''exception'', ''delay''] then Some sh_on_hold
     else None)"

definition translateStatus :: "string \<Rightarrow> status_map \<Rightarrow> shipment_status \<times> string option \<times> matched" where
  "translateStatus raw m =
    (let key = normaliseKey raw in
     case m key of
       Some (st, ndr) \<Rightarrow> (st, ndr, by_map)
     | None \<Rightarrow>
         (case keyword_status key of
            Some st \<Rightarrow> (st, None, by_keyword)
          | None \<Rightarrow> (sh_on_hold, None, by_nothing)))"

section \<open>Stale and out-of-order events\<close>

fun allowedBackward :: "shipment_status \<Rightarrow> shipment_status list" where
  "allowedBackward sh_delivery_failed = [sh_out_for_delivery, sh_in_transit, sh_reached_destination_hub]"
| "allowedBackward sh_on_hold = [sh_in_transit, sh_reached_destination_hub, sh_out_for_delivery, sh_picked_up]"
| "allowedBackward sh_rto_initiated =
     [sh_delivery_failed, sh_out_for_delivery, sh_in_transit, sh_reached_destination_hub, sh_on_hold]"
| "allowedBackward sh_rto_in_transit = [sh_rto_initiated]"
| "allowedBackward sh_pickup_failed = [sh_pickup_scheduled, sh_manifested]"
| "allowedBackward sh_damaged = [sh_in_transit, sh_reached_destination_hub, sh_out_for_delivery, sh_picked_up]"
| "allowedBackward sh_lost =
     [sh_in_transit, sh_reached_destination_hub, sh_out_for_delivery, sh_picked_up, sh_on_hold]"
| "allowedBackward sh_cancelled = [sh_created, sh_manifested, sh_pickup_scheduled, sh_pickup_failed]"
| "allowedBackward _ = []"

definition isStatusRegression :: "shipment_status \<Rightarrow> shipment_status \<Rightarrow> bool" where
  "isStatusRegression cur incoming =
    (if cur = incoming then True
     else if TERMINAL_STATUSES cur then True
     else if cur \<in> set (allowedBackward incoming) then False
     else STATUS_RANK incoming \<le> STATUS_RANK cur)"

definition eventSignature :: "string \<Rightarrow> string \<Rightarrow> millis \<Rightarrow> string option \<Rightarrow> string" where
  "eventSignature awb rawStatus occurredAt loc =
     awb @ ''|'' @ normaliseKey rawStatus @ ''|'' @ show_int (occurredAt div 60000) @ ''|'' @
     normaliseKey (case loc of Some l \<Rightarrow> l | None \<Rightarrow> [])"

fun isRevenueLoss :: "shipment_status \<Rightarrow> bool" where
  "isRevenueLoss s = (s = sh_rto_delivered \<or> s = sh_lost \<or> s = sh_damaged)"

fun toFulfilmentStatus :: "shipment_status \<Rightarrow> string" where
  "toFulfilmentStatus sh_created = ''ready_to_ship''"
| "toFulfilmentStatus sh_manifested = ''ready_to_ship''"
| "toFulfilmentStatus sh_pickup_scheduled = ''ready_to_ship''"
| "toFulfilmentStatus sh_pickup_failed = ''ready_to_ship''"
| "toFulfilmentStatus sh_picked_up = ''shipped''"
| "toFulfilmentStatus sh_in_transit = ''shipped''"
| "toFulfilmentStatus sh_reached_destination_hub = ''shipped''"
| "toFulfilmentStatus sh_on_hold = ''shipped''"
| "toFulfilmentStatus sh_out_for_delivery = ''out_for_delivery''"
| "toFulfilmentStatus sh_delivery_failed = ''out_for_delivery''"
| "toFulfilmentStatus sh_delivered = ''delivered''"
| "toFulfilmentStatus sh_rto_initiated = ''rto_initiated''"
| "toFulfilmentStatus sh_rto_in_transit = ''rto_initiated''"
| "toFulfilmentStatus sh_rto_delivered = ''rto_delivered''"
| "toFulfilmentStatus sh_cancelled = ''cancelled''"
| "toFulfilmentStatus sh_lost = ''exception''"
| "toFulfilmentStatus sh_damaged = ''exception''"

section \<open>The rule as a machine\<close>

definition accepts :: "shipment_status \<Rightarrow> shipment_status \<Rightarrow> bool" where
  "accepts cur incoming \<longleftrightarrow> \<not> isStatusRegression cur incoming"

interpretation shipments: state_machine accepts TERMINAL_STATUSES
  by unfold_locales (auto simp: accepts_def isStatusRegression_def)

lemma accepts_rank:
  "accepts s t \<Longrightarrow> s \<notin> set (allowedBackward t) \<Longrightarrow> STATUS_RANK s < STATUS_RANK t"
  by (auto simp: accepts_def isStatusRegression_def split: if_splits)

text \<open>
  The accepted backward moves all lead to \<open>on_hold\<close>: every other accepted event raises the rank.
\<close>

lemma accepts_rank_or_hold: "accepts s t \<Longrightarrow> STATUS_RANK s < STATUS_RANK t \<or> t = sh_on_hold"
proof (cases "s \<in> set (allowedBackward t)")
  case True
  then show ?thesis by (cases t) auto
qed (simp add: accepts_rank)

definition awaits_pickup :: "shipment_status \<Rightarrow> bool" where
  "awaits_pickup s \<longleftrightarrow> s \<in> {sh_created, sh_manifested, sh_pickup_scheduled, sh_pickup_failed}"

lemma accepts_keeps_picked_up: "accepts s t \<Longrightarrow> \<not> awaits_pickup s \<Longrightarrow> \<not> awaits_pickup t"
  by (cases s; cases t) (simp_all add: accepts_def isStatusRegression_def awaits_pickup_def)

lemma returning_closed:
  assumes "s \<in> {sh_rto_initiated, sh_rto_in_transit}" "accepts s t"
  shows "t \<in> {sh_rto_in_transit, sh_rto_delivered, sh_delivered, sh_damaged, sh_cancelled, sh_lost}"
  using assms by (cases t) (auto simp: accepts_def isStatusRegression_def)

section \<open>Properties\<close>

text \<open>
  Whatever a carrier sends, in whatever order and however often: a shipment in a terminal
  status keeps it, a resent event changes nothing, every accepted event moves up in rank unless
  it puts the parcel on hold, and a parcel that left the merchant never goes back to waiting for
  its pickup.
\<close>

theorem shipment_events_monotone:
  "(TERMINAL_STATUSES s \<longrightarrow> feed_all accepts s es = s) \<and>
   feed_all accepts s (e # e # es) = feed_all accepts s (e # es) \<and>
   (let s' = feed accepts s e in s' = s \<or> STATUS_RANK s < STATUS_RANK s' \<or> s' = sh_on_hold) \<and>
   (\<not> awaits_pickup s \<longrightarrow> \<not> awaits_pickup (feed_all accepts s es))"
proof (intro conjI impI)
  show "TERMINAL_STATUSES s \<Longrightarrow> feed_all accepts s es = s" by (rule shipments.terminal_absorbs)
  show "feed_all accepts s (e # e # es) = feed_all accepts s (e # es)"
    by (simp add: shipments.replay_ignored)
  show "let s' = feed accepts s e in s' = s \<or> STATUS_RANK s < STATUS_RANK s' \<or> s' = sh_on_hold"
    using accepts_rank_or_hold by (auto simp: feed_def)
  show "\<not> awaits_pickup s \<Longrightarrow> \<not> awaits_pickup (feed_all accepts s es)"
    by (induction es arbitrary: s) (auto simp: feed_def accepts_keeps_picked_up)
qed

theorem shipment_events_monotone_witness:
  "feed_all accepts sh_delivered [sh_in_transit, sh_on_hold] = sh_delivered"
  using shipment_events_monotone[of sh_delivered "[sh_in_transit, sh_on_hold]" sh_created] by simp

text \<open>
  Text that names an RTO is never taken for a delivery, and only unambiguous completion counts as
  a completed return; text nothing matches holds the parcel and is flagged.
\<close>

lemma keyword_rto:
  "js_includes k ''rto'' \<Longrightarrow> keyword_status k \<in> {Some sh_rto_delivered, Some sh_rto_initiated}"
  by (simp add: keyword_status_def Let_def)

lemma translateStatus_rto:
  "m (normaliseKey raw) = None \<Longrightarrow> js_includes (normaliseKey raw) ''rto'' \<Longrightarrow>
   fst (translateStatus raw m) \<in> {sh_rto_delivered, sh_rto_initiated}"
  using keyword_rto[of "normaliseKey raw"] by (auto simp: translateStatus_def Let_def)

lemma translateStatus_unmatched:
  "translateStatus raw m = (st, ndr, by_nothing) \<Longrightarrow> st = sh_on_hold \<and> ndr = None"
  by (auto simp: translateStatus_def Let_def split: option.splits)

text \<open>
  The keyword \<open>cancel\<close> of the failed-pickup branch is dead: text with \<open>cancel\<close> in it was already
  taken for a cancelled shipment, so ``Pickup Cancelled'' closes the shipment.
\<close>

lemma pickup_cancelled_closes:
  "js_includes t ''cancel'' \<Longrightarrow> keyword_status t \<noteq> Some sh_pickup_failed"
  by (auto simp: keyword_status_def Let_def)

lemma pickup_cancelled_example:
  "translateStatus ''Pickup Cancelled'' (\<lambda>_. None) = (sh_cancelled, None, by_keyword)"
  by code_simp

end
