(* ===== verification/OrdersServer.thy ===== *)
theory OrdersServer
  imports Store Orders
begin

text \<open>
  The status write door and the manual fulfilment ladder, \<open>packages/core/src/orders/server.ts\<close>
  (and \<open>insertOrderEvent\<close>, \<open>lockOrder\<close> of \<open>checkout/server.ts\<close>, which write the same two
  tables).  The order events are the timeline of an order: theory OrderHistory shows that
  replaying it gives the order's status.  Row locks order concurrent transactions; within one
  transaction they have no effect.  The returned descriptor is represented by its event id, the job id
  of the queue message sent after the commit.
\<close>

record order_actor =
  oa_actorType :: actor_type
  oa_actorUserId :: "uuid option"

definition find_order :: "db \<Rightarrow> uuid \<Rightarrow> order_row option" where
  "find_order db oid = find (\<lambda>r. or_id r = oid) (db_orders db)"

definition lockOrder :: "uuid \<Rightarrow> order_row option dbtx" where
  "lockOrder oid = tread (\<lambda>db. find_order db oid)"

definition update_order :: "uuid \<Rightarrow> (order_row \<Rightarrow> order_row) \<Rightarrow> unit dbtx" where
  "update_order oid f = twrite (\<lambda>db. db\<lparr>db_orders := upd (\<lambda>r. or_id r = oid) f (db_orders db)\<rparr>)"

definition insert_event :: "order_actor \<Rightarrow> uuid \<Rightarrow> string \<Rightarrow> order_status option \<Rightarrow> order_status option \<Rightarrow> json \<Rightarrow> uuid dbtx" where
  "insert_event actor oid name from to data =
     tbind draw_uuid (\<lambda>eid.
     tbind (twrite (\<lambda>db. db\<lparr>db_orderEvents := db_orderEvents db @
       [\<lparr>oe_id = eid, oe_orderId = oid, oe_event = name, oe_fromStatus = from, oe_toStatus = to,
         oe_actorType = oa_actorType actor, oe_actorUserId = oa_actorUserId actor, oe_data = data\<rparr>]\<rparr>)) (\<lambda>_.
     treturn eid))"

text \<open>An event row without a status transition.\<close>

definition insertOrderEvent :: "order_actor \<Rightarrow> uuid \<Rightarrow> string \<Rightarrow> json \<Rightarrow> uuid dbtx" where
  "insertOrderEvent actor oid name data = insert_event actor oid name None None data"

text \<open>What the status move writes on the row: the status and the timestamps coupled to it.\<close>

definition move_order :: "millis \<Rightarrow> order_status \<Rightarrow> order_row \<Rightarrow> order_row" where
  "move_order now to r =
    (let r1 = r\<lparr>or_status := to\<rparr>;
         r2 = (if to = confirmed then r1\<lparr>or_confirmedAt := Some now, or_expiresAt := None\<rparr> else r1)
     in if to = cancelled then r2\<lparr>or_cancelledAt := Some now\<rparr> else r2)"

definition transitionOrder :: "order_actor \<Rightarrow> uuid \<Rightarrow> order_status \<Rightarrow> order_status \<Rightarrow> string \<Rightarrow> json \<Rightarrow> uuid dbtx" where
  "transitionOrder actor oid from to name data =
     tbind (tlift (assertTransition from to)) (\<lambda>_.
     tbind (tread (\<lambda>db. list_ex (\<lambda>r. or_id r = oid \<and> or_status r = from) (db_orders db))) (\<lambda>updated.
     tbind (twrite (\<lambda>db. db\<lparr>db_orders :=
              upd (\<lambda>r. or_id r = oid \<and> or_status r = from) (move_order (db_now db) to) (db_orders db)\<rparr>)) (\<lambda>_.
     tbind (tguard updated concurrentModification) (\<lambda>_.
     insert_event actor oid name (Some from) (Some to) data))))"

definition ORDER_NUMBER_PREFIX_KEY :: string where
  "ORDER_NUMBER_PREFIX_KEY = ''orders.number_prefix''"

definition getOrderNumberPrefix :: "store_settings \<Rightarrow> string" where
  "getOrderNumberPrefix settings =
    (case read_setting settings ORDER_NUMBER_PREFIX_KEY of
       Some (JString v) \<Rightarrow> if trim v \<noteq> [] then v else ''ORD''
     | _ \<Rightarrow> ''ORD'')"

fun MANUAL_EVENT_BY_TARGET :: "order_status \<Rightarrow> string option" where
  "MANUAL_EVENT_BY_TARGET processing = Some ''order.processing''"
| "MANUAL_EVENT_BY_TARGET ready_to_ship = Some ''order.ready_to_ship''"
| "MANUAL_EVENT_BY_TARGET shipped = Some ''order.shipped''"
| "MANUAL_EVENT_BY_TARGET out_for_delivery = Some ''order.out_for_delivery''"
| "MANUAL_EVENT_BY_TARGET delivered = Some ''order.delivered''"
| "MANUAL_EVENT_BY_TARGET _ = None"

definition collects_cod :: "order_row \<Rightarrow> order_status \<Rightarrow> bool" where
  "collects_cod r to \<longleftrightarrow> to = delivered \<and> or_paymentMode r \<noteq> prepaid \<and> or_paymentStatus r \<noteq> ops_paid"

definition manualTransition :: "uuid \<Rightarrow> uuid \<Rightarrow> order_status \<Rightarrow> uuid dbaction" where
  "manualTransition actorUserId oid to = commit (
     tbind (lockOrder oid) (\<lambda>found.
     case found of
       None \<Rightarrow> tthrow notFound
     | Some r \<Rightarrow>
       (case (if (or_status r, to) \<in> set MANUAL_ORDER_TRANSITIONS then MANUAL_EVENT_BY_TARGET to else None) of
          None \<Rightarrow> tthrow invalidTransition
        | Some name \<Rightarrow>
            tbind (transitionOrder \<lparr>oa_actorType = staff, oa_actorUserId = Some actorUserId\<rparr> oid (or_status r) to name
                     (JObject ([(''orderNumber'', JNumber (or_orderNumber r))] @
                        (if collects_cod r to
                         then [(''codCollectedPaise'', JNumber (or_totalPaise r - or_amountPaidPaise r))] else [])))) (\<lambda>event.
            tbind (if collects_cod r to
                   then update_order oid (\<lambda>r'. r'\<lparr>or_paymentStatus := ops_paid, or_amountPaidPaise := or_totalPaise r, or_codDuePaise := 0\<rparr>)
                   else treturn ()) (\<lambda>_.
            tbind (recordAudit
                     \<lparr>ae_actorType = staff, ae_actorUserId = Some actorUserId, ae_action = ''order.status_changed'',
                      ae_entityType = ''order'', ae_entityId = Some oid,
                      ae_before = JObject ([(''status'', JString (order_status_text (or_status r)))] @
                        (if collects_cod r to
                         then [(''paymentStatus'', JString (payment_status_text (or_paymentStatus r))),
                               (''amountPaidPaise'', JNumber (or_amountPaidPaise r))] else [])),
                      ae_after = JObject ([(''status'', JString (order_status_text to))] @
                        (if collects_cod r to
                         then [(''paymentStatus'', JString ''paid''), (''amountPaidPaise'', JNumber (or_totalPaise r))] else []))\<rparr>) (\<lambda>_.
            treturn event))))))"

end
