(* ===== verification/Customers.thy ===== *)
theory Customers
  imports Store
begin

text \<open>
  The buyer rows, \<open>packages/core/src/customers/server.ts\<close>: get-or-create by phone inside the
  checkout transaction and the once-only first-order mark.
\<close>

text \<open>\<open>PHONE_E164_RE\<close>: \<open>/^\+[1-9][0-9]{7,14}$/\<close>.\<close>

definition phone_e164 :: "string \<Rightarrow> bool" where
  "phone_e164 p = (case p of
     sign # d # rest \<Rightarrow> sign = CHR ''+'' \<and> is_digit d \<and> d \<noteq> CHR ''0'' \<and> list_all is_digit rest \<and>
                       7 \<le> length rest \<and> length rest \<le> 14
   | _ \<Rightarrow> False)"

definition find_customer :: "db \<Rightarrow> string \<Rightarrow> customer_row option" where
  "find_customer db phone = find (\<lambda>c. cu_phoneE164 c = phone) (db_customers db)"

definition last_seen :: "string option \<Rightarrow> string option \<Rightarrow> string option" where
  "last_seen seen stored = (case seen of Some x \<Rightarrow> Some x | None \<Rightarrow> stored)"

definition upsertCustomerByPhone :: "string \<Rightarrow> string option \<Rightarrow> string option \<Rightarrow> (uuid \<times> millis option) dbtx" where
  "upsertCustomerByPhone phone name email =
     tbind (tguard (phone_e164 phone) (invalidPayload [''phone''])) (\<lambda>_.
     tbind draw_uuid (\<lambda>cid.
     tbind (tread (\<lambda>db. find_customer db phone)) (\<lambda>existing.
     case existing of
       Some c \<Rightarrow>
         tbind (twrite (\<lambda>db. db\<lparr>db_customers := upd (\<lambda>c. cu_phoneE164 c = phone)
             (\<lambda>c. c\<lparr>cu_name := last_seen (trim_or_null name) (cu_name c),
                      cu_email := last_seen (trim_or_null email) (cu_email c)\<rparr>) (db_customers db)\<rparr>)) (\<lambda>_.
         treturn (cu_id c, cu_firstOrderAt c))
     | None \<Rightarrow>
         tbind (tread (\<lambda>db. list_ex (\<lambda>c. cu_id c = cid) (db_customers db))) (\<lambda>taken.
         tbind (tguard (\<not> taken) (uniqueViolation ''customers_pkey'')) (\<lambda>_.
         tbind (twrite (\<lambda>db. db\<lparr>db_customers := db_customers db @
             [\<lparr>cu_id = cid, cu_phoneE164 = phone, cu_email = trim_or_null email, cu_name = trim_or_null name,
               cu_firstOrderAt = None, cu_deletedAt = None\<rparr>]\<rparr>)) (\<lambda>_.
         treturn (cid, None)))))))"

definition markFirstOrder :: "uuid \<Rightarrow> unit dbtx" where
  "markFirstOrder cid = twrite (\<lambda>db. db\<lparr>db_customers :=
     upd (\<lambda>c. cu_id c = cid \<and> cu_firstOrderAt c = None) (\<lambda>c. c\<lparr>cu_firstOrderAt := Some (db_now db)\<rparr>) (db_customers db)\<rparr>)"

end
