(* ===== verification/PaymentsServer.thy ===== *)
theory PaymentsServer
  imports Store PaymentSplit
begin

text \<open>
  Gateway accounts, payments, webhook evidence and refund intents,
  \<open>packages/core/src/payments/server.ts\<close>.  The credential envelope (\<open>crypto/envelope.ts\<close> over
  \<open>node:crypto\<close>) is a pair of parameters, \<open>seal\<close> and \<open>fingerprint\<close>; the verification columns of an
  account have no other writer and are left out.
\<close>

section \<open>Accounts\<close>

record account_input =
  ai_providerCode :: payment_provider_code
  ai_label :: "string option"
  ai_publicKeyId :: string
  ai_keySecret :: string
  ai_webhookSecret :: string
  ai_isEnabled :: bool

definition account_label :: "account_input \<Rightarrow> string" where
  "account_label input = trim (case ai_label input of None \<Rightarrow> ''Default'' | Some l \<Rightarrow> l)"

definition account_refusal :: "account_input \<Rightarrow> string option" where
  "account_refusal input =
    (if account_label input = [] \<or> length (account_label input) > 80 then Some ''label''
     else if trim (ai_publicKeyId input) = [] \<or> length (ai_publicKeyId input) > 200 then Some ''publicKeyId''
     else if ai_keySecret input = [] \<or> length (ai_keySecret input) > 500 then Some ''keySecret''
     else if ai_webhookSecret input = [] \<or> length (ai_webhookSecret input) > 500 then Some ''webhookSecret''
     else None)"

fun provider_text :: "payment_provider_code \<Rightarrow> string" where
  "provider_text razorpay = ''razorpay''"
| "provider_text mock = ''mock''"

definition paymentCredentialsAad :: "string \<Rightarrow> payment_provider_code \<Rightarrow> string" where
  "paymentCredentialsAad tenantId code = ''payment_account:credentials:'' @ tenantId @ '':'' @ provider_text code"

definition paymentWebhookSecretAad :: "string \<Rightarrow> payment_provider_code \<Rightarrow> string" where
  "paymentWebhookSecretAad tenantId code = ''payment_account:webhook:'' @ tenantId @ '':'' @ provider_text code"

definition same_account :: "payment_provider_code \<Rightarrow> string \<Rightarrow> payment_account_row \<Rightarrow> bool" where
  "same_account code label a \<longleftrightarrow> pa_providerCode a = code \<and> pa_label a = label"

definition account_json :: "payment_account_row \<Rightarrow> json" where
  "account_json a = JObject
     [(''providerCode'', JString (provider_text (pa_providerCode a))), (''publicKeyId'', JString (pa_publicKeyId a)),
      (''credentialFingerprint'', JString (pa_credentialFingerprint a)), (''isEnabled'', JBool (pa_isEnabled a))]"

definition upsert_account_tx :: "uuid \<Rightarrow> payment_account_row \<Rightarrow> payment_account_row dbtx" where
  "upsert_account_tx actorUserId row =
    (let same = same_account (pa_providerCode row) (pa_label row) in
     tbind (tread (\<lambda>db. find same (db_paymentAccounts db))) (\<lambda>existing.
     tbind (if pa_isEnabled row
            then twrite (\<lambda>db. db\<lparr>db_paymentAccounts := upd (\<lambda>a. pa_isEnabled a \<and> \<not> same a)
                    (\<lambda>a. a\<lparr>pa_isEnabled := False, pa_updatedAt := db_now db\<rparr>) (db_paymentAccounts db)\<rparr>)
            else treturn ()) (\<lambda>_.
     tbind draw_uuid (\<lambda>aid.
     tbind (tread (\<lambda>db. pa_isEnabled row \<longrightarrow> list_all (\<lambda>a. \<not> pa_isEnabled a \<or> same a) (db_paymentAccounts db))) (\<lambda>single.
     tbind (tguard single (uniqueViolation ''payment_accounts_one_enabled_key'')) (\<lambda>_.
     let row' = (\<lambda>now. case existing of
            Some a \<Rightarrow> row\<lparr>pa_id := pa_id a, pa_updatedAt := now\<rparr>
          | None \<Rightarrow> row\<lparr>pa_id := aid, pa_updatedAt := now\<rparr>) in
     tbind (twrite (\<lambda>db. db\<lparr>db_paymentAccounts :=
              (case existing of
                 Some a \<Rightarrow> upd same (\<lambda>_. row' (db_now db)) (db_paymentAccounts db)
               | None \<Rightarrow> db_paymentAccounts db @ [row' (db_now db)])\<rparr>)) (\<lambda>_.
     tbind (tread (\<lambda>db. row' (db_now db))) (\<lambda>written.
     tbind (recordAudit
              \<lparr>ae_actorType = staff, ae_actorUserId = Some actorUserId, ae_action = ''payments.account_updated'',
               ae_entityType = ''payment_account'', ae_entityId = Some (pa_id written),
               ae_before = (case existing of Some a \<Rightarrow> account_json a | None \<Rightarrow> JNull),
               ae_after = account_json row\<rparr>) (\<lambda>_.
     treturn written)))))))))"

definition upsertPaymentAccount ::
  "((string \<times> string) list \<Rightarrow> string \<Rightarrow> string) \<Rightarrow> (string \<Rightarrow> string) \<Rightarrow> string \<Rightarrow> uuid \<Rightarrow> account_input \<Rightarrow>
   payment_account_row dbaction" where
  "upsertPaymentAccount seal fingerprint tenantId actorUserId input =
    (case account_refusal input of
       Some path \<Rightarrow> athrow (invalidPayload [path])
     | None \<Rightarrow>
         let publicKeyId = trim (ai_publicKeyId input);
             code = ai_providerCode input;
             sealedCredentials = seal [(''keyId'', publicKeyId), (''keySecret'', ai_keySecret input)]
                                   (paymentCredentialsAad tenantId code);
             sealedWebhookSecret = seal [(''webhookSecret'', ai_webhookSecret input)]
                                   (paymentWebhookSecretAad tenantId code)
         in acatch (commit (upsert_account_tx actorUserId
              \<lparr>pa_id = 0, pa_providerCode = code, pa_label = account_label input, pa_publicKeyId = publicKeyId,
               pa_sealedCredentials = sealedCredentials, pa_sealedWebhookSecret = sealedWebhookSecret,
               pa_credentialFingerprint = fingerprint sealedCredentials, pa_isEnabled = ai_isEnabled input,
               pa_updatedAt = 0\<rparr>)) (\<lambda>e.
            if pgError e = Some (''23505'', ''payment_accounts_one_enabled_key'') then athrow concurrentModification
            else athrow e))"

definition getEnabledAccount :: "payment_account_row option dbtx" where
  "getEnabledAccount = tread (\<lambda>db. find pa_isEnabled (db_paymentAccounts db))"

section \<open>Webhook evidence\<close>

record webhook_input =
  wi_providerCode :: payment_provider_code
  wi_gatewayEventId :: string
  wi_eventType :: string
  wi_orderId :: "uuid option"
  wi_paymentId :: "uuid option"

definition webhook_row :: "db \<Rightarrow> payment_provider_code \<Rightarrow> string \<Rightarrow> webhook_event_row option" where
  "webhook_row db code event = find (\<lambda>w. we_providerCode w = code \<and> we_gatewayEventId w = event) (db_webhookEvents db)"

definition recordWebhookEvent :: "webhook_input \<Rightarrow> (uuid \<times> bool) dbaction" where
  "recordWebhookEvent input =
    (if wi_gatewayEventId input = [] \<or> wi_eventType input = [] then athrow (invalidPayload [''gatewayEventId''])
     else
       acatch (commit (
         tbind draw_uuid (\<lambda>wid.
         tbind (tread (\<lambda>db. webhook_row db (wi_providerCode input) (wi_gatewayEventId input))) (\<lambda>existing.
         tbind (tguard (existing = None) (uniqueViolation ''pwe_gateway_event_key'')) (\<lambda>_.
         tbind (twrite (\<lambda>db. db\<lparr>db_webhookEvents := db_webhookEvents db @
           [\<lparr>we_id = wid, we_providerCode = wi_providerCode input, we_gatewayEventId = wi_gatewayEventId input,
             we_eventType = wi_eventType input, we_orderId = wi_orderId input, we_paymentId = wi_paymentId input\<rparr>]\<rparr>)) (\<lambda>_.
         treturn (wid, False))))))) (\<lambda>e.
         if pgError e = Some (''23505'', ''pwe_gateway_event_key'') then
           abind (commit (tread (\<lambda>db. webhook_row db (wi_providerCode input) (wi_gatewayEventId input)))) (\<lambda>existing.
             case existing of Some w \<Rightarrow> areturn (we_id w, True) | None \<Rightarrow> athrow e)
         else athrow e))"

section \<open>Payments\<close>

record payment_input =
  pin_orderId :: uuid
  pin_paymentAccountId :: uuid
  pin_providerCode :: payment_provider_code
  pin_amountPaise :: paise
  pin_gatewayOrderId :: string

definition insertPayment :: "payment_input \<Rightarrow> uuid dbtx" where
  "insertPayment input =
     tbind (tguard (is_safe_integer (pin_amountPaise input) \<and> pin_amountPaise input > 0) (invalidPayload [''amountPaise''])) (\<lambda>_.
     tbind draw_uuid (\<lambda>pid.
     tbind (tread (\<lambda>db. list_ex (\<lambda>p. py_id p = pid) (db_payments db))) (\<lambda>taken.
     tbind (tguard (\<not> taken) (uniqueViolation ''payments_pkey'')) (\<lambda>_.
     tbind (twrite (\<lambda>db. db\<lparr>db_payments := db_payments db @
       [\<lparr>py_id = pid, py_orderId = pin_orderId input, py_paymentAccountId = pin_paymentAccountId input,
         py_providerCode = pin_providerCode input, py_status = pay_created, py_amountPaise = pin_amountPaise input,
         py_gatewayOrderId = Some (pin_gatewayOrderId input), py_gatewayPaymentId = None, py_method = None,
         py_feePaise = None, py_feeTaxPaise = None, py_errorCode = None, py_errorDescription = None,
         py_capturedAt = None\<rparr>]\<rparr>)) (\<lambda>_.
     treturn pid)))))"

definition payment_known :: "db \<Rightarrow> uuid \<Rightarrow> bool" where
  "payment_known db pid \<longleftrightarrow> list_ex (\<lambda>p. py_id p = pid) (db_payments db)"

record capture_input =
  cap_gatewayPaymentId :: string
  cap_method :: "string option"
  cap_feePaise :: "paise option"
  cap_feeTaxPaise :: "paise option"

definition markPaymentCaptured :: "uuid \<Rightarrow> capture_input \<Rightarrow> unit dbtx" where
  "markPaymentCaptured pid input =
     tbind (tread (\<lambda>db. payment_known db pid \<longrightarrow>
        list_all (\<lambda>p. py_id p = pid \<or> py_gatewayPaymentId p \<noteq> Some (cap_gatewayPaymentId input)) (db_payments db))) (\<lambda>unique.
     tbind (tguard unique (uniqueViolation ''payments_gateway_payment_key'')) (\<lambda>_.
     tbind (tread (\<lambda>db. payment_known db pid)) (\<lambda>hit.
     tbind (twrite (\<lambda>db. db\<lparr>db_payments := upd (\<lambda>p. py_id p = pid)
       (\<lambda>p. p\<lparr>py_status := pay_captured, py_gatewayPaymentId := Some (cap_gatewayPaymentId input),
               py_method := cap_method input, py_feePaise := cap_feePaise input,
               py_feeTaxPaise := cap_feeTaxPaise input, py_capturedAt := Some (db_now db)\<rparr>) (db_payments db)\<rparr>)) (\<lambda>_.
     tguard hit notFound))))"

definition markPaymentFailed :: "uuid \<Rightarrow> string option \<Rightarrow> string option \<Rightarrow> unit dbtx" where
  "markPaymentFailed pid errorCode errorDescription =
     tbind (tread (\<lambda>db. payment_known db pid)) (\<lambda>hit.
     tbind (twrite (\<lambda>db. db\<lparr>db_payments := upd (\<lambda>p. py_id p = pid)
       (\<lambda>p. p\<lparr>py_status := pay_failed, py_errorCode := errorCode, py_errorDescription := errorDescription\<rparr>) (db_payments db)\<rparr>)) (\<lambda>_.
     tguard hit notFound))"

section \<open>Refund intents\<close>

definition REFUND_REASONS :: "string list" where
  "REFUND_REASONS = [''merchant_cancelled'', ''stock_shortfall'', ''late_capture_abandoned'']"

definition refund_of_payment :: "db \<Rightarrow> uuid \<Rightarrow> refund_row option" where
  "refund_of_payment db pid = find (\<lambda>f. rf_paymentId f = pid) (db_refunds db)"

record refund_input =
  ri_orderId :: uuid
  ri_paymentId :: uuid
  ri_amountPaise :: paise
  ri_reason :: string
  ri_createdByUserId :: "uuid option"

text \<open>INSERT .. ON CONFLICT DO NOTHING on the payment, then read the winner.\<close>

definition createRefundIntent :: "refund_input \<Rightarrow> (uuid \<times> bool) dbtx" where
  "createRefundIntent input =
     tbind (tguard (is_safe_integer (ri_amountPaise input) \<and> ri_amountPaise input > 0) (invalidPayload [''amountPaise''])) (\<lambda>_.
     tbind (tguard (ri_reason input \<in> set REFUND_REASONS) (invalidPayload [''reason''])) (\<lambda>_.
     tbind draw_uuid (\<lambda>rid.
     tbind (tread (\<lambda>db. refund_of_payment db (ri_paymentId input))) (\<lambda>existing.
     case existing of
       Some f \<Rightarrow> treturn (rf_id f, False)
     | None \<Rightarrow>
         tbind (tread (\<lambda>db. list_ex (\<lambda>f. rf_id f = rid) (db_refunds db))) (\<lambda>taken.
         tbind (tguard (\<not> taken) (uniqueViolation ''refunds_pkey'')) (\<lambda>_.
         tbind (twrite (\<lambda>db. db\<lparr>db_refunds := db_refunds db @
           [\<lparr>rf_id = rid, rf_orderId = ri_orderId input, rf_paymentId = ri_paymentId input,
             rf_amountPaise = ri_amountPaise input, rf_status = refund_pending, rf_reason = ri_reason input,
             rf_gatewayRefundId = None, rf_createdByUserId = ri_createdByUserId input\<rparr>]\<rparr>)) (\<lambda>_.
         treturn (rid, True))))))))"

record refund_job =
  rj_refundId :: uuid
  rj_orderId :: uuid
  rj_paymentId :: uuid
  rj_amountPaise :: paise
  rj_status :: refund_status
  rj_gatewayPaymentId :: "string option"
  rj_gatewayRefundId :: "string option"
  rj_account :: "payment_account_row option"

definition getRefundForProcessing :: "uuid \<Rightarrow> refund_job option dbaction" where
  "getRefundForProcessing rid = commit (
     tbind (tread (\<lambda>db. find (\<lambda>f. rf_id f = rid) (db_refunds db))) (\<lambda>found.
     case found of
       None \<Rightarrow> treturn None
     | Some f \<Rightarrow>
         tbind (tread (\<lambda>db. find (\<lambda>p. py_id p = rf_paymentId f) (db_payments db))) (\<lambda>payment.
         tbind getEnabledAccount (\<lambda>account.
         treturn (Some
           \<lparr>rj_refundId = rf_id f, rj_orderId = rf_orderId f, rj_paymentId = rf_paymentId f,
            rj_amountPaise = rf_amountPaise f, rj_status = rf_status f,
            rj_gatewayPaymentId = (case payment of Some p \<Rightarrow> py_gatewayPaymentId p | None \<Rightarrow> None),
            rj_gatewayRefundId = rf_gatewayRefundId f, rj_account = account\<rparr>)))))"

definition markRefundProcessing :: "uuid \<Rightarrow> string \<Rightarrow> unit dbaction" where
  "markRefundProcessing rid gatewayRefundId = commit (
     twrite (\<lambda>db. db\<lparr>db_refunds := upd (\<lambda>f. rf_id f = rid \<and> rf_status f = refund_pending)
       (\<lambda>f. f\<lparr>rf_status := refund_processing, rf_gatewayRefundId := Some gatewayRefundId\<rparr>) (db_refunds db)\<rparr>))"

definition refund_open :: "string \<Rightarrow> refund_row \<Rightarrow> bool" where
  "refund_open gatewayRefundId f \<longleftrightarrow> rf_gatewayRefundId f = Some gatewayRefundId \<and>
     rf_status f \<in> {refund_pending, refund_processing}"

definition markRefundProcessed :: "string \<Rightarrow> (uuid \<times> uuid) option dbtx" where
  "markRefundProcessed gatewayRefundId =
     tbind (tread (\<lambda>db. find (refund_open gatewayRefundId) (db_refunds db))) (\<lambda>hit.
     tbind (twrite (\<lambda>db. db\<lparr>db_refunds := upd (refund_open gatewayRefundId)
       (\<lambda>f. f\<lparr>rf_status := refund_processed\<rparr>) (db_refunds db)\<rparr>)) (\<lambda>_.
     treturn (map_option (\<lambda>f. (rf_id f, rf_orderId f)) hit)))"

end
