(* ===== verification/PromotionsServer.thy ===== *)
theory PromotionsServer
  imports Store OrdersServer
begin

text \<open>
  Promotion rows and coupon redemptions, \<open>packages/core/src/promotions/server.ts\<close>.  Limits are
  enforced by slots: a redemption takes the next slot of its promotion (and of its customer), and the
  unique indexes on the slots are the belt.
\<close>

section \<open>Writing promotions\<close>

record promotion_input =
  pi_code :: string
  pi_name :: string
  pi_status :: promotion_status
  pi_startsAt :: "millis option"
  pi_endsAt :: "millis option"
  pi_conditions :: "condition list"
  pi_effects :: "effect list"
  pi_usageLimitTotal :: "int option"
  pi_usageLimitPerCustomer :: "int option"

definition code_char :: "char \<Rightarrow> bool" where
  "code_char c \<longleftrightarrow> (65 \<le> (of_char c :: nat) \<and> (of_char c :: nat) \<le> 90) \<or> is_digit c \<or> c = CHR ''_'' \<or> c = CHR ''-''"

definition code_ok :: "string \<Rightarrow> bool" where
  "code_ok code \<longleftrightarrow> 3 \<le> length code \<and> length code \<le> 40 \<and> list_all code_char code"

definition USAGE_LIMIT_MAX :: int where
  "USAGE_LIMIT_MAX = 1000000"

definition limit_ok :: "int option \<Rightarrow> bool" where
  "limit_ok v = (case v of None \<Rightarrow> True | Some n \<Rightarrow> 1 \<le> n \<and> n \<le> USAGE_LIMIT_MAX)"

definition promotion_issues :: "promotion_input \<Rightarrow> string list" where
  "promotion_issues input =
     (if code_ok (to_upper (trim (pi_code input))) then [] else [''code'']) @
     (if 1 \<le> length (trim (pi_name input)) \<and> length (trim (pi_name input)) \<le> 120 then [] else [''name'']) @
     (case (pi_startsAt input, pi_endsAt input) of
        (Some s, Some e) \<Rightarrow> if s \<ge> e then [''endsAt''] else [] | _ \<Rightarrow> []) @
     (if length (pi_conditions input) > 20 then [''conditions'']
      else concat (map (\<lambda>(i, c). if condition_ok c then [] else [''conditions.'' @ show_nat i])
                       (enumerate 0 (pi_conditions input)))) @
     (if length (pi_effects input) < 1 then [''effects'']
      else if length (pi_effects input) > 10 then [''effects'']
      else concat (map (\<lambda>(i, e). if effect_ok e then [] else [''effects.'' @ show_nat i])
                       (enumerate 0 (pi_effects input)))) @
     (if limit_ok (pi_usageLimitTotal input) then [] else [''usageLimitTotal'']) @
     (if limit_ok (pi_usageLimitPerCustomer input) then [] else [''usageLimitPerCustomer''])"

text \<open>The validated input as the row it will be, its id still to come.\<close>

definition validatePromotionInput :: "promotion_input \<Rightarrow> (uuid \<Rightarrow> promotion_data) res" where
  "validatePromotionInput input =
     rbind (ensure (promotion_issues input = []) (invalidPayload (promotion_issues input))) (\<lambda>_.
     Inr (\<lambda>pid. \<lparr>pd_id = pid, pd_code = to_upper (trim (pi_code input)), pd_name = trim (pi_name input),
       pd_status = pi_status input, pd_startsAt = pi_startsAt input, pd_endsAt = pi_endsAt input,
       pd_conditions = pi_conditions input, pd_effects = pi_effects input,
       pd_usageLimitTotal = pi_usageLimitTotal input, pd_usageLimitPerCustomer = pi_usageLimitPerCustomer input\<rparr>))"

definition duplicateCode :: err where
  "duplicateCode = AppError ''duplicate_code'' 422 [''code'']"

definition mapWriteError :: "err \<Rightarrow> err" where
  "mapWriteError e = (if pgError e = Some (''23505'', ''promotions_tenant_code_key'') then duplicateCode else e)"

definition find_promotion :: "db \<Rightarrow> uuid \<Rightarrow> promotion_data option" where
  "find_promotion db pid = find (\<lambda>p. pd_id p = pid) (db_promotions db)"

text \<open>The merchant-facing part of the audit snapshot (times and rules are left to the row).\<close>

fun promotion_status_text :: "promotion_status \<Rightarrow> string" where
  "promotion_status_text promo_draft = ''draft''"
| "promotion_status_text promo_active = ''active''"
| "promotion_status_text promo_archived = ''archived''"

definition auditShape :: "promotion_data \<Rightarrow> json" where
  "auditShape p = JObject [(''code'', JString (pd_code p)), (''name'', JString (pd_name p)),
     (''status'', JString (promotion_status_text (pd_status p)))]"

definition promotion_audit :: "uuid \<Rightarrow> string \<Rightarrow> uuid \<Rightarrow> json \<Rightarrow> json \<Rightarrow> unit dbtx" where
  "promotion_audit actorUserId action pid before after = recordAudit
     \<lparr>ae_actorType = staff, ae_actorUserId = Some actorUserId, ae_action = action,
      ae_entityType = ''promotion'', ae_entityId = Some pid, ae_before = before, ae_after = after\<rparr>"

definition createPromotion :: "uuid \<Rightarrow> promotion_input \<Rightarrow> promotion_data dbaction" where
  "createPromotion actorUserId input =
    (case validatePromotionInput input of
       Inl e \<Rightarrow> athrow e
     | Inr row \<Rightarrow>
         acatch (commit (
           tbind draw_uuid (\<lambda>pid.
           tbind (tread (\<lambda>db. list_ex (\<lambda>p. pd_id p = pid) (db_promotions db))) (\<lambda>taken.
           tbind (tguard (\<not> taken) (uniqueViolation ''promotions_pkey'')) (\<lambda>_.
           tbind (tread (\<lambda>db. list_ex (\<lambda>p. pd_code p = pd_code (row pid)) (db_promotions db))) (\<lambda>dup.
           tbind (tguard (\<not> dup) (uniqueViolation ''promotions_tenant_code_key'')) (\<lambda>_.
           tbind (twrite (\<lambda>db. db\<lparr>db_promotions := db_promotions db @ [row pid]\<rparr>)) (\<lambda>_.
           tbind (promotion_audit actorUserId ''promotion.created'' pid JNull (auditShape (row pid))) (\<lambda>_.
           treturn (row pid)))))))))) (\<lambda>e. athrow (mapWriteError e)))"

definition updatePromotion :: "uuid \<Rightarrow> uuid \<Rightarrow> promotion_input \<Rightarrow> promotion_data dbaction" where
  "updatePromotion actorUserId pid input =
    (case validatePromotionInput input of
       Inl e \<Rightarrow> athrow e
     | Inr row \<Rightarrow>
         acatch (commit (
           tbind (tread (\<lambda>db. find_promotion db pid)) (\<lambda>found.
           case found of
             None \<Rightarrow> tthrow notFound
           | Some before \<Rightarrow>
               tbind (tread (\<lambda>db. list_ex (\<lambda>p. pd_id p \<noteq> pid \<and> pd_code p = pd_code (row pid)) (db_promotions db))) (\<lambda>dup.
               tbind (tguard (\<not> dup) (uniqueViolation ''promotions_tenant_code_key'')) (\<lambda>_.
               tbind (twrite (\<lambda>db. db\<lparr>db_promotions := upd (\<lambda>p. pd_id p = pid) (\<lambda>_. row pid) (db_promotions db)\<rparr>)) (\<lambda>_.
               tbind (promotion_audit actorUserId ''promotion.updated'' pid (auditShape before) (auditShape (row pid))) (\<lambda>_.
               treturn (row pid)))))))) (\<lambda>e. athrow (mapWriteError e)))"

definition archivePromotion :: "uuid \<Rightarrow> uuid \<Rightarrow> unit dbaction" where
  "archivePromotion actorUserId pid = commit (
     tbind (tread (\<lambda>db. find_promotion db pid)) (\<lambda>found.
     case found of
       None \<Rightarrow> tthrow notFound
     | Some existing \<Rightarrow>
         if pd_status existing = promo_archived then treturn () else
         tbind (twrite (\<lambda>db. db\<lparr>db_promotions := upd (\<lambda>p. pd_id p = pid) (\<lambda>p. p\<lparr>pd_status := promo_archived\<rparr>) (db_promotions db)\<rparr>)) (\<lambda>_.
         promotion_audit actorUserId ''promotion.archived'' pid
           (JObject [(''status'', JString (promotion_status_text (pd_status existing)))])
           (JObject [(''status'', JString ''archived'')]))))"

definition loadActivePromotionForUpdate :: "string \<Rightarrow> promotion_data option dbtx" where
  "loadActivePromotionForUpdate code =
     tread (\<lambda>db. find (\<lambda>p. pd_code p = to_upper (trim code) \<and> pd_status p = promo_active) (db_promotions db))"

section \<open>Redemption slots\<close>

definition redemptions_of :: "db \<Rightarrow> uuid \<Rightarrow> redemption_row list" where
  "redemptions_of db pid = filter (\<lambda>r. rd_promotionId r = pid) (db_redemptions db)"

definition countRedemptions :: "db \<Rightarrow> uuid \<Rightarrow> int" where
  "countRedemptions db pid = int (length (redemptions_of db pid))"

definition countCustomerRedemptions :: "db \<Rightarrow> uuid \<Rightarrow> uuid \<Rightarrow> int" where
  "countCustomerRedemptions db pid cid = int (length (filter (\<lambda>r. rd_customerId r = Some cid) (redemptions_of db pid)))"

datatype claim = claimed uuid int int | claim_exhausted

definition insert_redemption :: "redemption_row \<Rightarrow> unit dbtx" where
  "insert_redemption row =
     tbind (tread (\<lambda>db. list_all (\<lambda>r. rd_promotionId r = rd_promotionId row \<longrightarrow> rd_slot r \<noteq> rd_slot row) (db_redemptions db))) (\<lambda>ok.
     tbind (tguard ok (uniqueViolation ''cr_promo_slot_key'')) (\<lambda>_.
     tbind (tread (\<lambda>db. rd_customerId row = None \<or> list_all (\<lambda>r.
        rd_promotionId r = rd_promotionId row \<and> rd_customerId r = rd_customerId row \<longrightarrow>
        rd_customerSlot r \<noteq> rd_customerSlot row) (db_redemptions db))) (\<lambda>ok.
     tbind (tguard ok (uniqueViolation ''cr_promo_customer_slot_key'')) (\<lambda>_.
     tbind (tread (\<lambda>db. list_all (\<lambda>r. rd_promotionId r = rd_promotionId row \<longrightarrow> rd_orderId r \<noteq> rd_orderId row) (db_redemptions db))) (\<lambda>ok.
     tbind (tguard ok (uniqueViolation ''cr_promo_order_key'')) (\<lambda>_.
     twrite (\<lambda>db. db\<lparr>db_redemptions := db_redemptions db @ [row]\<rparr>)))))))"

definition claim_error :: "err \<Rightarrow> err" where
  "claim_error e =
    (if pgError e \<in> {Some (''23505'', ''cr_promo_slot_key''), Some (''23505'', ''cr_promo_customer_slot_key''),
                     Some (''23505'', ''cr_promo_order_key'')}
     then concurrentModification else e)"

definition claimRedemption :: "promotion_data \<Rightarrow> uuid \<Rightarrow> uuid option \<Rightarrow> paise \<Rightarrow> claim dbtx" where
  "claimRedemption promo oid customerId discountPaise =
     tbind (tguard (discountPaise \<ge> 0) (invalidPayload [''discountPaise''])) (\<lambda>_.
     tbind (tread (\<lambda>db. find (\<lambda>r. rd_orderId r = oid) (redemptions_of db (pd_id promo)))) (\<lambda>existing.
     case existing of
       Some r \<Rightarrow> treturn (claimed (rd_id r) (rd_slot r) (rd_customerSlot r))
     | None \<Rightarrow>
         tbind (tread (\<lambda>db. countRedemptions db (pd_id promo))) (\<lambda>slot.
         if (case pd_usageLimitTotal promo of None \<Rightarrow> False | Some n \<Rightarrow> slot \<ge> n) then treturn claim_exhausted else
         tbind (tread (\<lambda>db. case customerId of None \<Rightarrow> 0 | Some cid \<Rightarrow> countCustomerRedemptions db (pd_id promo) cid)) (\<lambda>customerSlot.
         if customerId \<noteq> None \<and> (case pd_usageLimitPerCustomer promo of None \<Rightarrow> False | Some n \<Rightarrow> customerSlot \<ge> n)
         then treturn claim_exhausted else
         tbind draw_uuid (\<lambda>rid.
         tbind (trethrow (insert_redemption
                  \<lparr>rd_id = rid, rd_promotionId = pd_id promo, rd_orderId = oid, rd_customerId = customerId,
                   rd_slot = slot, rd_customerSlot = customerSlot, rd_discountPaise = discountPaise\<rparr>) claim_error) (\<lambda>_.
         treturn (claimed rid slot customerSlot)))))))"

definition pending_claim :: "db \<Rightarrow> uuid \<Rightarrow> order_row \<Rightarrow> bool" where
  "pending_claim db pid r \<longleftrightarrow> or_promotionId r = Some pid \<and> or_status r = pending_payment \<and>
     (case or_expiresAt r of None \<Rightarrow> False | Some t \<Rightarrow> db_now db < t)"

definition countPendingClaims :: "db \<Rightarrow> uuid \<Rightarrow> int" where
  "countPendingClaims db pid = int (length (filter (pending_claim db pid) (db_orders db)))"

end
