(* ===== verification/InvoiceFormat.thy ===== *)
theory InvoiceFormat
  imports Errors
begin

text \<open>
  The text an invoice carries, \<open>packages/core/src/invoices/index.ts\<close>: the rendered number and the
  amount in words in the Indian system (crore, lakh, thousand, hundred).
\<close>

definition INVOICE_NUMBER_PAD :: nat where
  "INVOICE_NUMBER_PAD = 4"

definition formatInvoiceNumber :: "string \<Rightarrow> string \<Rightarrow> int \<Rightarrow> string res" where
  "formatInvoiceNumber prefix financialYear number =
    (if \<not> is_safe_integer number \<or> number < 0 then Inl (JsError ''formatInvoiceNumber'')
     else Inr (prefix @ ''/'' @ financialYear @ ''/'' @ pad_start INVOICE_NUMBER_PAD (CHR ''0'') (show_nat (nat number))))"

definition ONES :: "string list" where
  "ONES = [[], ''One'', ''Two'', ''Three'', ''Four'', ''Five'', ''Six'', ''Seven'', ''Eight'', ''Nine'', ''Ten'',
    ''Eleven'', ''Twelve'', ''Thirteen'', ''Fourteen'', ''Fifteen'', ''Sixteen'', ''Seventeen'', ''Eighteen'',
    ''Nineteen'']"

definition TENS :: "string list" where
  "TENS = [[], [], ''Twenty'', ''Thirty'', ''Forty'', ''Fifty'', ''Sixty'', ''Seventy'', ''Eighty'', ''Ninety'']"

definition twoDigitWords :: "nat \<Rightarrow> string" where
  "twoDigitWords n =
    (if n < 20 then ONES ! n
     else if n mod 10 = 0 then TENS ! (n div 10) else TENS ! (n div 10) @ ''-'' @ ONES ! (n mod 10))"

text \<open>\<open>parts.join(" ")\<close>.\<close>

fun join_words :: "string list \<Rightarrow> string" where
  "join_words [] = []"
| "join_words [w] = w"
| "join_words (w # ws) = w @ '' '' @ join_words ws"

definition threeDigitWords :: "nat \<Rightarrow> string" where
  "threeDigitWords n = join_words
     ((if n div 100 > 0 then [ONES ! (n div 100) @ '' Hundred''] else []) @
      (if n mod 100 > 0 then [twoDigitWords (n mod 100)] else []))"

function indianWords :: "nat \<Rightarrow> string" where
  "indianWords n =
    (if n \<ge> 10000000 then
       let crore = n div 10000000; rest = n mod 10000000; head = indianWords crore @ '' Crore''
       in if rest > 0 then head @ '' '' @ indianWords rest else head
     else
       let lakh = n div 100000; thousand = (n mod 100000) div 1000; rest = n mod 1000
       in join_words
         ((if lakh > 0 then [twoDigitWords lakh @ '' Lakh''] else []) @
          (if thousand > 0 then [twoDigitWords thousand @ '' Thousand''] else []) @
          (if rest > 0 then [threeDigitWords rest] else [])))"
  by auto

termination
  by (relation "measure id")
    (auto simp del: One_nat_def intro: less_le_trans[OF mod_less_divisor])

declare indianWords.simps [simp del]

definition amountInWords :: "int \<Rightarrow> string res" where
  "amountInWords amountPaise =
    (if \<not> is_safe_integer amountPaise \<or> amountPaise < 0 then Inl (JsError ''amountInWords'') else
     let rupees = nat amountPaise div 100; paise = nat amountPaise mod 100;
         rupeeUnit = (if rupees = 1 then ''Rupee'' else ''Rupees'');
         paisaUnit = (if paise = 1 then ''Paisa'' else ''Paise'')
     in Inr (if rupees = 0 \<and> paise = 0 then ''Zero Rupees Only''
       else if rupees = 0 then twoDigitWords paise @ '' '' @ paisaUnit @ '' Only''
       else if paise = 0 then indianWords rupees @ '' '' @ rupeeUnit @ '' Only''
       else indianWords rupees @ '' '' @ rupeeUnit @ '' and '' @ twoDigitWords paise @ '' '' @ paisaUnit @ '' Only''))"

end
