(* ===== verification/InvoicesServer.thy ===== *)
theory InvoicesServer
  imports Store InvoiceFormat
begin

text \<open>
  Invoice allocation and insertion, \<open>packages/core/src/invoices/server.ts\<close>.  Both run in the
  confirming transaction of the caller: a rollback returns the number.
\<close>

definition of_series :: "series_code \<Rightarrow> string \<Rightarrow> invoice_series_row \<Rightarrow> bool" where
  "of_series code fy r \<longleftrightarrow> is_seriesCode r = code \<and> is_financialYear r = fy"

definition find_series :: "db \<Rightarrow> series_code \<Rightarrow> string \<Rightarrow> invoice_series_row option" where
  "find_series db code fy = find (of_series code fy) (db_invoiceSeries db)"

text \<open>INSERT .. ON CONFLICT DO NOTHING.\<close>

definition ensure_series :: "series_code \<Rightarrow> string \<Rightarrow> string \<Rightarrow> unit dbtx" where
  "ensure_series code fy prefix = twrite (\<lambda>db. case find_series db code fy of
     Some _ \<Rightarrow> db
   | None \<Rightarrow> db\<lparr>db_invoiceSeries := db_invoiceSeries db @
       [\<lparr>is_seriesCode = code, is_financialYear = fy, is_prefix = prefix, is_nextNumber = 1\<rparr>]\<rparr>)"

definition allocateInvoiceNumber :: "series_code \<Rightarrow> string \<Rightarrow> string \<Rightarrow> (int \<times> string) dbtx" where
  "allocateInvoiceNumber code fy prefix =
     tbind (ensure_series code fy prefix) (\<lambda>_.
     tbind (tread (\<lambda>db. find_series db code fy)) (\<lambda>row.
     case row of
       None \<Rightarrow> tthrow (JsError ''invoice_series missing after upsert'')
     | Some r \<Rightarrow>
         tbind (tguard (in_int4 (is_nextNumber r + 1)) integerOutOfRange) (\<lambda>_.
         tbind (twrite (\<lambda>db. db\<lparr>db_invoiceSeries :=
            upd (of_series code fy) (\<lambda>r. r\<lparr>is_nextNumber := is_nextNumber r + 1\<rparr>) (db_invoiceSeries db)\<rparr>)) (\<lambda>_.
         tbind (tlift (formatInvoiceNumber (is_prefix r) fy (is_nextNumber r))) (\<lambda>invoiceNumber.
         treturn (is_nextNumber r, invoiceNumber))))))"

record invoice_input =
  ii_orderId :: uuid
  ii_docType :: invoice_doc_type
  ii_prefix :: string
  ii_seller :: invoice_seller
  ii_buyer :: invoice_buyer
  ii_placeOfSupply :: string
  ii_lines :: "invoice_doc_line list"
  ii_subtotalPaise :: paise
  ii_discountPaise :: paise
  ii_taxablePaise :: paise
  ii_cgstPaise :: paise
  ii_sgstPaise :: paise
  ii_igstPaise :: paise
  ii_totalPaise :: paise

fun SERIES_FOR_DOC_TYPE :: "invoice_doc_type \<Rightarrow> series_code" where
  "SERIES_FOR_DOC_TYPE tax_invoice = INV"
| "SERIES_FOR_DOC_TYPE bill_of_supply = BOS"

definition invoice_issues :: "invoice_input \<Rightarrow> string list" where
  "invoice_issues input =
     (if ii_lines input = [] then [''lines''] else []) @
     concat (map (\<lambda>(field, v). if \<not> is_safe_integer v \<or> v < 0 then [field] else [])
       [(''subtotalPaise'', ii_subtotalPaise input), (''discountPaise'', ii_discountPaise input),
        (''taxablePaise'', ii_taxablePaise input), (''cgstPaise'', ii_cgstPaise input),
        (''sgstPaise'', ii_sgstPaise input), (''igstPaise'', ii_igstPaise input),
        (''totalPaise'', ii_totalPaise input)]) @
     (if ii_docType input = bill_of_supply \<and> ii_cgstPaise input + ii_sgstPaise input + ii_igstPaise input \<noteq> 0
      then [''docType''] else [])"

definition insert_invoice :: "invoice_row \<Rightarrow> unit dbtx" where
  "insert_invoice row =
     tbind (tread (\<lambda>db. list_ex (\<lambda>i. iv_seriesCode i = iv_seriesCode row \<and> iv_financialYear i = iv_financialYear row \<and>
        iv_number i = iv_number row) (db_invoices db))) (\<lambda>taken.
     tbind (tguard (\<not> taken) (uniqueViolation ''invoices_series_number_key'')) (\<lambda>_.
     tbind (tread (\<lambda>db. list_ex (\<lambda>i. iv_orderId i = iv_orderId row \<and> iv_docType i = iv_docType row) (db_invoices db))) (\<lambda>issued.
     tbind (tguard (\<not> issued) (uniqueViolation ''invoices_order_doc_key'')) (\<lambda>_.
     twrite (\<lambda>db. db\<lparr>db_invoices := db_invoices db @ [row]\<rparr>)))))"

definition createInvoice :: "invoice_input \<Rightarrow> (uuid \<times> string) dbtx" where
  "createInvoice input =
     tbind (tguard (invoice_issues input = []) (invalidPayload (invoice_issues input))) (\<lambda>_.
     tbind (tread (\<lambda>db. financialYearOf (Some (db_now db)))) (\<lambda>fy.
     tbind (tlift fy) (\<lambda>financialYear.
     let seriesCode = SERIES_FOR_DOC_TYPE (ii_docType input) in
     tbind (allocateInvoiceNumber seriesCode financialYear (ii_prefix input)) (\<lambda>(number, invoiceNumber).
     tbind draw_uuid (\<lambda>iid.
     tbind (tread db_now) (\<lambda>now.
     tbind (insert_invoice
       \<lparr>iv_id = iid, iv_orderId = ii_orderId input, iv_docType = ii_docType input, iv_seriesCode = seriesCode,
        iv_financialYear = financialYear, iv_number = number, iv_invoiceNumber = invoiceNumber, iv_issuedAt = now,
        iv_seller = ii_seller input, iv_buyer = ii_buyer input, iv_placeOfSupply = ii_placeOfSupply input,
        iv_lines = ii_lines input, iv_subtotalPaise = ii_subtotalPaise input,
        iv_discountPaise = ii_discountPaise input, iv_taxablePaise = ii_taxablePaise input,
        iv_cgstPaise = ii_cgstPaise input, iv_sgstPaise = ii_sgstPaise input, iv_igstPaise = ii_igstPaise input,
        iv_totalPaise = ii_totalPaise input\<rparr>) (\<lambda>_.
     treturn (iid, invoiceNumber))))))))"

text \<open>The invoice a page renders: the latest one of the order.\<close>

definition getInvoiceForRender :: "db \<Rightarrow> uuid \<Rightarrow> invoice_row option" where
  "getInvoiceForRender db oid = find (\<lambda>i. iv_orderId i = oid) (rev (sort_key iv_issuedAt (db_invoices db)))"

end
