(* ===== verification/Fingerprint.thy ===== *)
theory Fingerprint
  imports Inventory "HOL-Library.Word"
begin

unbundle bit_operations_syntax

text \<open>
  The checkout fingerprint, \<open>packages/core/src/checkout/index.ts\<close>: a canonical JSON text of the
  request and its SHA-256.  Strings are ASCII, so \<open>TextEncoder\<close> maps each character to its code.  The
  lemmas show that the canonical text determines the normalized request and forgets nothing but
  line order, surrounding blanks and letter case.
\<close>

section \<open>SHA-256\<close>

type_synonym w32 = "32 word"

text \<open>
  The round constants \<open>K\<close> of the code are a table of 64 words.  They are written here by the rule
  that generates the table: the first 32 bits of the fractional parts of the cube roots of the first
  64 primes, the cube root found bit by bit from above.
\<close>

definition small_primes :: "nat list" where
  "small_primes = filter (\<lambda>n. list_all (\<lambda>d. n mod d \<noteq> 0) [2..<n]) [2..<312]"

definition cube_root :: "nat \<Rightarrow> nat" where
  "cube_root n = foldl (\<lambda>r b. if (r + 2 ^ b) ^ 3 \<le> n then r + 2 ^ b else r) 0 (rev [0..<36])"

definition sha_K :: "w32 list" where
  "sha_K = map (\<lambda>p. of_nat (cube_root (p * 2 ^ 96))) small_primes"

definition sha_H0 :: "w32 list" where
  "sha_H0 = [0x6a09e667, 0xbb67ae85, 0x3c6ef372, 0xa54ff53a, 0x510e527f, 0x9b05688c, 0x1f83d9ab, 0x5be0cd19]"

definition rotr :: "w32 \<Rightarrow> nat \<Rightarrow> w32" where
  "rotr x n = drop_bit n x OR push_bit (32 - n) x"

definition be32 :: "nat \<Rightarrow> nat list" where
  "be32 n = [n div 16777216 mod 256, n div 65536 mod 256, n div 256 mod 256, n mod 256]"

definition sha_pad :: "nat list \<Rightarrow> nat list" where
  "sha_pad data =
    (let n = length data; bitLength = 8 * n; paddedLength = (n + 9 + 63) div 64 * 64
     in data @ [0x80] @ replicate (paddedLength - n - 9) 0 @
        be32 (bitLength div 4294967296) @ be32 (bitLength mod 4294967296))"

definition get_uint32 :: "nat list \<Rightarrow> nat \<Rightarrow> w32" where
  "get_uint32 bytes i =
     of_nat (bytes ! i * 16777216 + bytes ! (i + 1) * 65536 + bytes ! (i + 2) * 256 + bytes ! (i + 3))"

definition schedule_word :: "w32 list \<Rightarrow> nat \<Rightarrow> w32" where
  "schedule_word w i =
    (let s0 = rotr (w ! (i - 15)) 7 XOR rotr (w ! (i - 15)) 18 XOR drop_bit 3 (w ! (i - 15));
         s1 = rotr (w ! (i - 2)) 17 XOR rotr (w ! (i - 2)) 19 XOR drop_bit 10 (w ! (i - 2))
     in w ! (i - 16) + s0 + w ! (i - 7) + s1)"

definition sha_schedule :: "nat list \<Rightarrow> nat \<Rightarrow> w32 list" where
  "sha_schedule padded offset =
     foldl (\<lambda>w i. w @ [schedule_word w i]) (map (\<lambda>i. get_uint32 padded (offset + i * 4)) [0..<16]) [16..<64]"

fun sha_round :: "w32 list \<Rightarrow> w32 list \<Rightarrow> nat \<Rightarrow> w32 list" where
  "sha_round w [a, b, c, d, e, f, g, hh] i =
    (let S1 = rotr e 6 XOR rotr e 11 XOR rotr e 25;
         ch = (e AND f) XOR (NOT e AND g);
         temp1 = hh + S1 + ch + sha_K ! i + w ! i;
         S0 = rotr a 2 XOR rotr a 13 XOR rotr a 22;
         maj = (a AND b) XOR (a AND c) XOR (b AND c);
         temp2 = S0 + maj
     in [temp1 + temp2, a, b, c, d + temp1, e, f, g])"
| "sha_round w h i = h"

definition sha_block :: "nat list \<Rightarrow> w32 list \<Rightarrow> nat \<Rightarrow> w32 list" where
  "sha_block padded h offset =
     map2 (+) h (foldl (sha_round (sha_schedule padded offset)) h [0..<64])"

definition hex_digit :: "nat \<Rightarrow> char" where
  "hex_digit d = (if d < 10 then digit_char d else char_of (87 + d))"

fun hex_digits :: "nat \<Rightarrow> nat \<Rightarrow> string" where
  "hex_digits 0 n = []"
| "hex_digits (Suc k) n = hex_digits k (n div 16) @ [hex_digit (n mod 16)]"

definition sha256Hex :: "string \<Rightarrow> string" where
  "sha256Hex message =
    (let padded = sha_pad (map of_char message);
         h = foldl (sha_block padded) sha_H0 (map (\<lambda>k. 64 * k) [0..<length padded div 64])
     in concat (map (\<lambda>x. hex_digits 8 (unat x)) h))"

section \<open>The canonical request\<close>

text \<open>The text form of a uuid: 32 hexadecimal digits in groups of 8, 4, 4, 4 and 12.\<close>

definition show_uuid :: "uuid \<Rightarrow> string" where
  "show_uuid u =
    (let h = hex_digits 32 u
     in take 8 h @ ''-'' @ take 4 (drop 8 h) @ ''-'' @ take 4 (drop 12 h) @ ''-'' @ take 4 (drop 16 h) @ ''-'' @ drop 20 h)"

text \<open>\<open>JSON.stringify\<close> of a string: quotes, backslashes and control characters are escaped.\<close>

definition json_char :: "char \<Rightarrow> string" where
  "json_char c =
    (if c = CHR 0x22 then [CHR 0x5C, CHR 0x22]
     else if c = CHR 0x5C then [CHR 0x5C, CHR 0x5C]
     else if c = CHR 0x08 then [CHR 0x5C, CHR ''b'']
     else if c = CHR 0x09 then [CHR 0x5C, CHR ''t'']
     else if c = CHR 0x0A then [CHR 0x5C, CHR ''n'']
     else if c = CHR 0x0C then [CHR 0x5C, CHR ''f'']
     else if c = CHR 0x0D then [CHR 0x5C, CHR ''r'']
     else if (of_char c :: nat) < 32 then [CHR 0x5C, CHR ''u''] @ hex_digits 4 (of_char c)
     else [c])"

definition json_string :: "string \<Rightarrow> string" where
  "json_string s = [CHR 0x22] @ concat (map json_char s) @ [CHR 0x22]"

record fingerprint_input =
  fi_lines :: "hold_line list"
  fi_pincode :: string
  fi_stateCode :: string
  fi_paymentMode :: string
  fi_couponCode :: "string option"
  fi_buyerPhone :: string

definition json_line :: "hold_line \<Rightarrow> string" where
  "json_line l = ''{'' @ json_string ''variantId'' @ '':'' @ json_string (show_uuid (hl_variantId l)) @ '','' @
     json_string ''quantity'' @ '':'' @ show_int (hl_quantity l) @ ''}''"

fun json_lines :: "hold_line list \<Rightarrow> string" where
  "json_lines [] = []"
| "json_lines [l] = json_line l"
| "json_lines (l # ls) = json_line l @ '','' @ json_lines ls"

definition coupon_key :: "string option \<Rightarrow> string option" where
  "coupon_key c = (case c of None \<Rightarrow> None | Some x \<Rightarrow> if to_upper (trim x) = [] then None else Some (to_upper (trim x)))"

definition canonical_json :: "fingerprint_input \<Rightarrow> string" where
  "canonical_json i =
     ''{'' @ json_string ''lines'' @ '':['' @ json_lines (sort_key hl_variantId (fi_lines i)) @ ''],'' @
     json_string ''pincode'' @ '':'' @ json_string (trim (fi_pincode i)) @ '','' @
     json_string ''stateCode'' @ '':'' @ json_string (to_upper (trim (fi_stateCode i))) @ '','' @
     json_string ''paymentMode'' @ '':'' @ json_string (fi_paymentMode i) @ '','' @
     json_string ''couponCode'' @ '':'' @
       (case coupon_key (fi_couponCode i) of None \<Rightarrow> ''null'' | Some c \<Rightarrow> json_string c) @ '','' @
     json_string ''buyerPhone'' @ '':'' @ json_string (trim (fi_buyerPhone i)) @ ''}''"

definition computeCheckoutFingerprint :: "fingerprint_input \<Rightarrow> string" where
  "computeCheckoutFingerprint i = sha256Hex (canonical_json i)"

section \<open>The canonical text determines the request\<close>

text \<open>Codes that can be read off the front of a text.\<close>

definition prefix_code :: "('a \<Rightarrow> string) \<Rightarrow> bool" where
  "prefix_code f \<longleftrightarrow> (\<forall>x y r s. f x @ r = f y @ s \<longrightarrow> x = y \<and> r = s)"

lemma prefix_codeD: "prefix_code f \<Longrightarrow> f x @ r = f y @ s \<Longrightarrow> x = y \<and> r = s"
  by (simp add: prefix_code_def)

lemma hex_digit_inj: "a < 16 \<Longrightarrow> b < 16 \<Longrightarrow> hex_digit a = hex_digit b \<Longrightarrow> a = b"
proof -
  assume "a < 16" "b < 16" and eq: "hex_digit a = hex_digit b"
  have val: "(of_char (hex_digit d) :: nat) = (if d < 10 then 48 + d else 87 + d)" if "d < 16" for d
    using that by (auto simp: hex_digit_def digit_char_def)
  from eq have "(of_char (hex_digit a) :: nat) = of_char (hex_digit b)" by simp
  then show "a = b" using val[OF \<open>a < 16\<close>] val[OF \<open>b < 16\<close>] by (auto split: if_splits)
qed

lemma length_hex_digits [simp]: "length (hex_digits k n) = k"
  by (induction k arbitrary: n) auto

lemma hex_digits_inj: "m < 16 ^ k \<Longrightarrow> n < 16 ^ k \<Longrightarrow> hex_digits k m = hex_digits k n \<Longrightarrow> m = n"
proof (induction k arbitrary: m n)
  case (Suc k)
  then have "m div 16 < 16 ^ k" "n div 16 < 16 ^ k"
    by (simp_all add: less_mult_imp_div_less)
  moreover have "hex_digits k (m div 16) = hex_digits k (n div 16)" "hex_digit (m mod 16) = hex_digit (n mod 16)"
    using Suc.prems(3) by simp_all
  ultimately have "m div 16 = n div 16" "m mod 16 = n mod 16"
    using Suc.IH hex_digit_inj[of "m mod 16" "n mod 16"] by auto
  then show ?case by (metis div_mult_mod_eq)
qed simp

definition json_escapes :: "(char \<times> char) list" where
  "json_escapes = [(CHR 0x22, CHR 0x22), (CHR 0x5C, CHR 0x5C), (CHR 0x08, CHR ''b''), (CHR 0x09, CHR ''t''),
     (CHR 0x0A, CHR ''n''), (CHR 0x0C, CHR ''f''), (CHR 0x0D, CHR ''r'')]"

lemma json_escapes_distinct: "distinct (map snd json_escapes)" "CHR ''u'' \<notin> snd ` set json_escapes"
  by (simp_all add: json_escapes_def)

lemma json_escapes_inj: "(c, x) \<in> set json_escapes \<Longrightarrow> (d, x) \<in> set json_escapes \<Longrightarrow> c = d"
  using json_escapes_distinct(1) by (metis (no_types, lifting) distinct_map inj_onD prod.inject snd_conv)

lemma json_char_short: "list_all (\<lambda>(c, x). json_char c = [CHR 0x5C, x]) json_escapes"
  by (simp add: json_escapes_def json_char_def)

lemma json_char_other:
  "c \<notin> fst ` set json_escapes \<Longrightarrow>
   json_char c = (if (of_char c :: nat) < 32 then CHR 0x5C # CHR ''u'' # hex_digits 4 (of_char c) else [c]) \<and>
   c \<noteq> CHR 0x5C \<and> c \<noteq> CHR 0x22"
proof -
  assume "c \<notin> fst ` set json_escapes"
  then have n: "c \<noteq> CHR 0x22" "c \<noteq> CHR 0x5C" "c \<noteq> CHR 0x08" "c \<noteq> CHR 0x09" "c \<noteq> CHR 0x0A" "c \<noteq> CHR 0x0C" "c \<noteq> CHR 0x0D"
    unfolding json_escapes_def
    by (simp_all only: list.set image_insert fst_conv insert_iff de_Morgan_disj not_False_eq_True)
  show ?thesis unfolding json_char_def if_not_P[OF n(1)] if_not_P[OF n(2)] if_not_P[OF n(3)] if_not_P[OF n(4)]
      if_not_P[OF n(5)] if_not_P[OF n(6)] if_not_P[OF n(7)]
    using n(1,2) by (simp only: append_Cons append_Nil simp_thms)
qed

lemma json_char_cases:
  obtains (plain) "json_char c = [c]" "c \<noteq> CHR 0x5C" "c \<noteq> CHR 0x22"
  | (short) x where "json_char c = [CHR 0x5C, x]" "(c, x) \<in> set json_escapes"
  | (hex) "json_char c = CHR 0x5C # CHR ''u'' # hex_digits 4 (of_char c)" "(of_char c :: nat) < 32"
proof (cases "c \<in> fst ` set json_escapes")
  case True
  then obtain y where y: "y \<in> set json_escapes" "c = fst y" by (rule imageE)
  have x: "(c, snd y) \<in> set json_escapes" using y by simp
  have "json_char c = [CHR 0x5C, snd y]" using json_char_short x unfolding list_all_iff by blast
  then show thesis using x by (rule short)
next
  case False
  note o = json_char_other[OF this]
  show thesis
  proof (cases "(of_char c :: nat) < 32")
    case True
    show thesis by (rule hex[OF _ True]) (simp only: o True if_True)
  next
    case False
    show thesis by (rule plain) (simp_all only: o False if_False simp_thms)
  qed
qed

lemma json_char_nonempty [simp]: "json_char c \<noteq> []"
  by (cases c rule: json_char_cases) auto

lemma json_char_front: "hd (json_char c) \<noteq> CHR 0x22"
  by (cases c rule: json_char_cases) auto

lemma json_char_prefix: "json_char c @ r = json_char d @ s \<Longrightarrow> c = d \<and> r = s"
proof (cases c rule: json_char_cases)
  case plain
  assume "json_char c @ r = json_char d @ s"
  with plain show ?thesis by (cases d rule: json_char_cases) auto
next
  case (short x)
  assume eq: "json_char c @ r = json_char d @ s"
  show ?thesis
  proof (cases d rule: json_char_cases)
    case (short y)
    then show ?thesis using eq \<open>json_char c = _\<close> \<open>(c, x) \<in> _\<close> json_escapes_inj by auto
  next
    case hex
    then have "x = CHR ''u''" using eq short by simp
    then show ?thesis using short json_escapes_distinct(2) by force
  qed (use eq short in auto)
next
  case hex
  assume eq: "json_char c @ r = json_char d @ s"
  show ?thesis
  proof (cases d rule: json_char_cases)
    case (short y)
    then have "y = CHR ''u''" using eq hex by simp
    then show ?thesis using short json_escapes_distinct(2) by force
  next
    case hex': hex
    have "hex_digits 4 (of_char c) = hex_digits 4 (of_char d) \<and> r = s"
      using eq unfolding hex hex' by simp
    moreover have "(of_char c :: nat) < 16 ^ 4" "(of_char d :: nat) < 16 ^ 4"
      using hex(2) hex'(2) by simp_all
    ultimately have "(of_char c :: nat) = of_char d" "r = s" using hex_digits_inj by blast+
    then show ?thesis by simp
  qed (use eq hex in auto)
qed

lemma json_body_prefix:
  "concat (map json_char s) @ CHR 0x22 # r = concat (map json_char t) @ CHR 0x22 # r' \<Longrightarrow> s = t \<and> r = r'"
proof (induction s arbitrary: t)
  case Nil
  then show ?case
  proof (cases t)
    case (Cons c cs)
    then have "hd (json_char c) = CHR 0x22"
      using Nil by simp (metis hd_append2 json_char_nonempty list.sel(1))
    then show ?thesis using json_char_front by blast
  qed simp
next
  case (Cons a s)
  show ?case
  proof (cases t)
    case Nil
    then have "hd (json_char a) = CHR 0x22"
      using Cons.prems by simp (metis hd_append2 json_char_nonempty list.sel(1))
    then show ?thesis using json_char_front by blast
  next
    case (Cons b bs)
    then have "json_char a @ concat (map json_char s) @ CHR 0x22 # r = json_char b @ concat (map json_char bs) @ CHR 0x22 # r'"
      using Cons.prems by simp
    then show ?thesis using json_char_prefix Cons.IH Cons by blast
  qed
qed

lemma json_string_prefix: "prefix_code json_string"
  unfolding prefix_code_def
proof (intro allI impI)
  fix x y r s
  assume "json_string x @ r = json_string y @ s"
  then have "concat (map json_char x) @ CHR 0x22 # r = concat (map json_char y) @ CHR 0x22 # s"
    unfolding json_string_def by (simp only: append.assoc append_Cons append_Nil list.inject)
  then show "x = y \<and> r = s" by (rule json_body_prefix)
qed

lemma show_uuid_inj: "u < 2 ^ 128 \<Longrightarrow> v < 2 ^ 128 \<Longrightarrow> show_uuid u = show_uuid v \<Longrightarrow> u = v"
proof -
  assume u: "u < 2 ^ 128" "v < 2 ^ 128" and eq: "show_uuid u = show_uuid v"
  define h where "h = hex_digits 32 u"
  define k where "k = hex_digits 32 v"
  have len: "length h = 32" "length k = 32" by (simp_all add: h_def k_def)
  from eq have "take 8 h @ ''-'' @ take 4 (drop 8 h) @ ''-'' @ take 4 (drop 12 h) @ ''-'' @ take 4 (drop 16 h) @ ''-'' @ drop 20 h =
     take 8 k @ ''-'' @ take 4 (drop 8 k) @ ''-'' @ take 4 (drop 12 k) @ ''-'' @ take 4 (drop 16 k) @ ''-'' @ drop 20 k"
    unfolding show_uuid_def Let_def h_def k_def .
  then have p: "take 8 h = take 8 k" "take 4 (drop 8 h) = take 4 (drop 8 k)" "take 4 (drop 12 h) = take 4 (drop 12 k)"
    "take 4 (drop 16 h) = take 4 (drop 16 k)" "drop 20 h = drop 20 k"
    using len by auto
  have split: "x = take 8 x @ take 4 (drop 8 x) @ take 4 (drop 12 x) @ take 4 (drop 16 x) @ drop 20 x" for x :: string
  proof -
    have d: "drop n x = take 4 (drop n x) @ drop (n + 4) x" for n
      by (metis append_take_drop_id drop_drop add.commute)
    show ?thesis using append_take_drop_id[of 8 x] d[of 8] d[of 12] d[of 16] by simp
  qed
  have "h = k" by (subst split[of h], subst split[of k]) (simp only: p)
  moreover have "u < 16 ^ 32" "v < 16 ^ 32" using u by simp_all
  ultimately show "u = v" using hex_digits_inj by (metis h_def k_def)
qed

lemma show_nat_brace: "CHR 0x7D \<notin> set (show_nat n)"
  using show_nat_digits[of "CHR 0x7D" n] by (auto simp: is_digit_def)

lemma show_int_brace: "CHR 0x7D \<notin> set (show_int i)"
  using show_nat_brace by (auto simp: show_int_def)

definition uuid_ok :: "uuid \<Rightarrow> bool" where
  "uuid_ok u \<longleftrightarrow> u < 2 ^ 128"

lemma json_line_prefix:
  assumes "uuid_ok (hl_variantId l)" "uuid_ok (hl_variantId l')" "json_line l @ r = json_line l' @ s"
  shows "l = l' \<and> r = s"
proof -
  have "json_string (show_uuid (hl_variantId l)) @ '','' @ json_string ''quantity'' @ '':'' @ show_int (hl_quantity l) @ ''}'' @ r =
    json_string (show_uuid (hl_variantId l')) @ '','' @ json_string ''quantity'' @ '':'' @ show_int (hl_quantity l') @ ''}'' @ s"
    using assms(3) unfolding json_line_def append.assoc same_append_eq .
  from prefix_codeD[OF json_string_prefix this]
  have u: "show_uuid (hl_variantId l) = show_uuid (hl_variantId l')"
    and q: "show_int (hl_quantity l) @ CHR 0x7D # r = show_int (hl_quantity l') @ CHR 0x7D # s"
    unfolding same_append_eq by simp_all
  have "hl_quantity l = hl_quantity l'" "r = s"
    using separator_split[OF show_int_brace show_int_brace q] by (simp_all add: show_int_inject)
  moreover have "hl_variantId l = hl_variantId l'" using show_uuid_inj[OF _ _ u] assms(1,2) by (simp add: uuid_ok_def)
  ultimately show ?thesis by simp
qed

lemma json_line_front: "\<exists>xs. json_line l = CHR 0x7B # xs"
  by (simp add: json_line_def)

lemma json_lines_Cons: "json_lines (l # ls) = json_line l @ (if ls = [] then [] else CHR '','' # json_lines ls)"
  by (cases ls) auto

lemma json_lines_prefix:
  assumes "list_all (\<lambda>l. uuid_ok (hl_variantId l)) ls" "list_all (\<lambda>l. uuid_ok (hl_variantId l)) ls'"
    and "json_lines ls @ CHR '']'' # r = json_lines ls' @ CHR '']'' # s"
  shows "ls = ls' \<and> r = s"
  using assms
proof (induction ls arbitrary: ls')
  case Nil
  then show ?case
  proof (cases ls')
    case (Cons l' ks)
    then show ?thesis using Nil json_line_front[of l'] by (auto simp: json_lines_Cons)
  qed simp
next
  case (Cons l ls)
  show ?case
  proof (cases ls')
    case Nil
    then show ?thesis using Cons.prems json_line_front[of l] by (auto simp: json_lines_Cons)
  next
    case ls': (Cons l' ks)
    have "json_line l @ (if ls = [] then [] else CHR '','' # json_lines ls) @ CHR '']'' # r =
        json_line l' @ (if ks = [] then [] else CHR '','' # json_lines ks) @ CHR '']'' # s"
      using Cons.prems(3) unfolding ls' json_lines_Cons by simp
    from json_line_prefix[OF _ _ this] have e: "l = l'"
      "(if ls = [] then [] else CHR '','' # json_lines ls) @ CHR '']'' # r = (if ks = [] then [] else CHR '','' # json_lines ks) @ CHR '']'' # s"
      using Cons.prems(1,2) ls' by simp_all
    show ?thesis
    proof (cases "ls = [] \<or> ks = []")
      case True
      then show ?thesis using e ls' by (auto split: if_splits)
    next
      case False
      then have "json_lines ls @ CHR '']'' # r = json_lines ks @ CHR '']'' # s" using e(2) by simp
      then show ?thesis using Cons.IH[of ks] Cons.prems(1,2) ls' e(1) by simp
    qed
  qed
qed

text \<open>What two requests must agree on to count as the same.\<close>

definition request_key :: "fingerprint_input \<Rightarrow> hold_line list \<times> string \<times> string \<times> string \<times> string option \<times> string" where
  "request_key i = (sort_key hl_variantId (fi_lines i), trim (fi_pincode i), to_upper (trim (fi_stateCode i)),
     fi_paymentMode i, coupon_key (fi_couponCode i), trim (fi_buyerPhone i))"

lemma canonical_json_request_key: "request_key i = request_key j \<Longrightarrow> canonical_json i = canonical_json j"
  by (simp add: request_key_def canonical_json_def)

lemma optional_json_prefix:
  assumes "(case a of None \<Rightarrow> ''null'' | Some c \<Rightarrow> json_string c) @ r = (case b of None \<Rightarrow> ''null'' | Some c \<Rightarrow> json_string c) @ s"
  shows "a = b \<and> r = s"
proof -
  have ne: "json_string x @ y \<noteq> ''null'' @ z" "''null'' @ z \<noteq> json_string x @ y" for x y z
    by (simp_all add: json_string_def)
  show ?thesis
  proof (cases a)
    case None
    then show ?thesis using assms ne(2) by (cases b) (simp_all del: append_Cons)
  next
    case (Some x)
    show ?thesis
    proof (cases b)
      case None
      then show ?thesis using assms ne(1) \<open>a = Some x\<close> by (simp del: append_Cons)
    next
      case (Some y)
      then have "json_string x @ r = json_string y @ s" using assms \<open>a = Some x\<close> by simp
      from prefix_codeD[OF json_string_prefix this] show ?thesis using \<open>a = Some x\<close> Some by simp
    qed
  qed
qed

lemma canonical_json_determines:
  assumes "list_all (\<lambda>l. uuid_ok (hl_variantId l)) (fi_lines i)" "list_all (\<lambda>l. uuid_ok (hl_variantId l)) (fi_lines j)"
    and eq: "canonical_json i = canonical_json j"
  shows "request_key i = request_key j"
proof -
  note strip = append.assoc same_append_eq
  have bracket: "'']'' @ xs = CHR '']'' # xs" "''],'' @ xs = CHR '']'' # '','' @ xs" for xs :: string by simp_all
  have 1: "list_all (\<lambda>l. uuid_ok (hl_variantId l)) (sort_key hl_variantId (fi_lines i))"
    "list_all (\<lambda>l. uuid_ok (hl_variantId l)) (sort_key hl_variantId (fi_lines j))"
    using assms(1,2) by (simp_all add: list_all_iff)
  note L = json_lines_prefix[OF 1 eq[unfolded canonical_json_def strip bracket]]
  note L2 = L[THEN conjunct2, unfolded strip]
  note P = prefix_codeD[OF json_string_prefix L2]
  note P2 = P[THEN conjunct2, unfolded strip]
  note S = prefix_codeD[OF json_string_prefix P2]
  note S2 = S[THEN conjunct2, unfolded strip]
  note M = prefix_codeD[OF json_string_prefix S2]
  note M2 = M[THEN conjunct2, unfolded strip]
  note C = optional_json_prefix[OF M2]
  note C2 = C[THEN conjunct2, unfolded strip]
  note B = prefix_codeD[OF json_string_prefix C2]
  show ?thesis using L P S M C B by (simp add: request_key_def)
qed

lemma sort_key_unique:
  assumes "mset xs = mset ys" "distinct (map f xs)"
  shows "sort_key f xs = sort_key f ys"
proof (rule properties_for_sort_key)
  show "mset (sort_key f ys) = mset xs" using assms by simp
  have inj: "inj_on f (set xs)" using assms(2) by (simp add: distinct_map)
  have "distinct xs" "distinct ys" using assms by (auto simp: distinct_map dest: mset_eq_imp_distinct_iff)
  fix k assume k: "k \<in> set (sort_key f ys)"
  have s: "set xs = set ys" using assms(1) by (rule mset_eq_setD)
  have "filter (\<lambda>x. f k = f x) zs = [k]" if "distinct zs" "set zs = set xs" for zs
  proof -
    have m: "k \<in> set zs" using k that s by simp
    have "filter (\<lambda>x. f k = f x) zs = filter (\<lambda>x. k = x) zs"
      by (rule filter_cong[OF refl]) (use inj m that in \<open>auto dest: inj_onD\<close>)
    also have "\<dots> = [k]" using that(1) m by (induction zs) (auto simp: filter_empty_conv)
    finally show ?thesis .
  qed
  from this[of "sort_key f ys"] this[of xs] \<open>distinct xs\<close> \<open>distinct ys\<close> s
  show "filter (\<lambda>x. f k = f x) (sort_key f ys) = filter (\<lambda>x. f k = f x) xs" by simp
qed simp

section \<open>Property\<close>

text \<open>
  C19.  The fingerprint identifies the request: requests that agree up to line order, surrounding
  blanks and the case of state and coupon have the same fingerprint, and two requests with the same
  fingerprint agree in that sense, unless their canonical texts are a collision of SHA-256.
\<close>

theorem fingerprint_identifies_request:
  assumes "list_all (\<lambda>l. uuid_ok (hl_variantId l)) (fi_lines i)" "list_all (\<lambda>l. uuid_ok (hl_variantId l)) (fi_lines j)"
  shows "(computeCheckoutFingerprint i = computeCheckoutFingerprint j) =
    (request_key i = request_key j \<or>
     canonical_json i \<noteq> canonical_json j \<and> sha256Hex (canonical_json i) = sha256Hex (canonical_json j)) \<and>
    (mset (fi_lines i) = mset (fi_lines j) \<and> distinct (map hl_variantId (fi_lines i)) \<longrightarrow>
     sort_key hl_variantId (fi_lines i) = sort_key hl_variantId (fi_lines j))"
  using canonical_json_determines[OF assms] canonical_json_request_key[of i j]
    sort_key_unique[of "fi_lines i" "fi_lines j" hl_variantId]
  by (auto simp: computeCheckoutFingerprint_def)

theorem fingerprint_identifies_request_witness:
  "computeCheckoutFingerprint \<lparr>fi_lines = [\<lparr>hl_variantId = 7, hl_quantity = 1\<rparr>, \<lparr>hl_variantId = 3, hl_quantity = 2\<rparr>],
       fi_pincode = ''560001'', fi_stateCode = ''29'', fi_paymentMode = ''cod'', fi_couponCode = Some ''ten'',
       fi_buyerPhone = ''+919800000000''\<rparr> =
   computeCheckoutFingerprint \<lparr>fi_lines = [\<lparr>hl_variantId = 3, hl_quantity = 2\<rparr>, \<lparr>hl_variantId = 7, hl_quantity = 1\<rparr>],
       fi_pincode = '' 560001'', fi_stateCode = ''29'', fi_paymentMode = ''cod'', fi_couponCode = Some ''TEN'',
       fi_buyerPhone = ''+919800000000''\<rparr>"
proof -
  let ?i = "\<lparr>fi_lines = [\<lparr>hl_variantId = 7, hl_quantity = 1\<rparr>, \<lparr>hl_variantId = 3, hl_quantity = 2\<rparr>],
       fi_pincode = ''560001'', fi_stateCode = ''29'', fi_paymentMode = ''cod'', fi_couponCode = Some ''ten'',
       fi_buyerPhone = ''+919800000000''\<rparr>"
  let ?j = "\<lparr>fi_lines = [\<lparr>hl_variantId = 3, hl_quantity = 2\<rparr>, \<lparr>hl_variantId = 7, hl_quantity = 1\<rparr>],
       fi_pincode = '' 560001'', fi_stateCode = ''29'', fi_paymentMode = ''cod'', fi_couponCode = Some ''TEN'',
       fi_buyerPhone = ''+919800000000''\<rparr>"
  have up: "char_of (84::nat) = CHR ''T''" "char_of (69::nat) = CHR ''E''" "char_of (78::nat) = CHR ''N''" by code_simp+
  have "request_key ?i = request_key ?j"
    by (simp add: request_key_def coupon_key_def trim_def to_upper_def char_upper_def is_space_def up)
  then show ?thesis using fingerprint_identifies_request[of ?i ?j] by (simp add: uuid_ok_def)
qed

end
