(* ===== verification/Checkout.thy ===== *)
theory Checkout
  imports OrdersServer Customers PaymentsServer PromotionsServer InvoicesServer Serviceability Fingerprint
begin

text \<open>
  Checkout orchestration, \<open>packages/core/src/checkout/server.ts\<close> and the payload of
  \<open>checkout/index.ts\<close>.  Each \<open>withTenant\<close> of the code is one transaction here, and the handlers
  string them together in the code's order, so a failure between two of them leaves what the first
  committed.  Two parameters stand for code outside the repository: \<open>email_ok\<close> (zod's e-mail
  check) and \<open>gateway\<close> (unsealing the account and the adapter's \<open>createGatewayOrder\<close>, which either
  throws or answers with a gateway order id).  Queue messages, cache purges and the signed order token
  come after the commits, are fail-soft and are left out.  Buyer-worded messages in event data are
  left out with the rest of the prose.
\<close>

section \<open>The payload\<close>

record checkout_payload =
  cp_idempotencyKey :: string
  cp_buyerName :: string
  cp_phone :: string
  cp_email :: "string option"
  cp_line1 :: string
  cp_line2 :: "string option"
  cp_city :: string
  cp_stateCode :: string
  cp_pincode :: string
  cp_buyerGstin :: "string option"
  cp_couponCode :: "string option"
  cp_paymentMode :: checkout_payment_mode

definition is_upper :: "char \<Rightarrow> bool" where
  "is_upper c \<longleftrightarrow> 65 \<le> (of_char c :: nat) \<and> (of_char c :: nat) \<le> 90"

text \<open>\<open>GSTIN_RE\<close>: \<open>/^[0-9]{2}[A-Z]{5}[0-9]{4}[A-Z][1-9A-Z]Z[0-9A-Z]$/\<close>.\<close>

definition gstin_ok :: "string \<Rightarrow> bool" where
  "gstin_ok g \<longleftrightarrow> length g = 15 \<and> list_all is_digit (take 2 g) \<and> list_all is_upper (take 5 (drop 2 g)) \<and>
     list_all is_digit (take 4 (drop 7 g)) \<and> is_upper (g ! 11) \<and>
     (is_upper (g ! 12) \<or> is_digit (g ! 12) \<and> g ! 12 \<noteq> CHR ''0'') \<and> g ! 13 = CHR ''Z'' \<and>
     (is_upper (g ! 14) \<or> is_digit (g ! 14))"

definition state_code_ok :: "string \<Rightarrow> bool" where
  "state_code_ok s \<longleftrightarrow> length s = 2 \<and> list_all is_digit s"

definition length_between :: "nat \<Rightarrow> nat \<Rightarrow> string \<Rightarrow> bool" where
  "length_between a b s \<longleftrightarrow> a \<le> length s \<and> length s \<le> b"

definition nullish :: "(string \<Rightarrow> bool) \<Rightarrow> string option \<Rightarrow> bool" where
  "nullish P v = (case v of None \<Rightarrow> True | Some s \<Rightarrow> P s)"

text \<open>\<open>checkoutPayloadSchema\<close>: the trims and case changes of the parse, then its checks.\<close>

definition parse_payload :: "checkout_payload \<Rightarrow> checkout_payload" where
  "parse_payload p = p
     \<lparr>cp_buyerName := trim (cp_buyerName p), cp_phone := trim (cp_phone p), cp_email := map_option trim (cp_email p),
      cp_line1 := trim (cp_line1 p), cp_line2 := map_option trim (cp_line2 p), cp_city := trim (cp_city p),
      cp_stateCode := trim (cp_stateCode p), cp_pincode := trim (cp_pincode p),
      cp_buyerGstin := map_option (\<lambda>g. to_upper (trim g)) (cp_buyerGstin p),
      cp_couponCode := map_option trim (cp_couponCode p)\<rparr>"

definition payload_issues :: "(string \<Rightarrow> bool) \<Rightarrow> checkout_payload \<Rightarrow> string list" where
  "payload_issues email_ok p = map fst (filter (\<lambda>(path, ok). \<not> ok)
     [(''idempotencyKey'', length_between 8 64 (cp_idempotencyKey p)),
      (''buyerName'', length_between 1 120 (cp_buyerName p)),
      (''phone'', phone_e164 (cp_phone p)),
      (''email'', nullish (\<lambda>e. email_ok e \<and> length e \<le> 200) (cp_email p)),
      (''shippingAddress.line1'', length_between 1 200 (cp_line1 p)),
      (''shippingAddress.line2'', nullish (length_between 0 200) (cp_line2 p)),
      (''shippingAddress.city'', length_between 1 100 (cp_city p)),
      (''shippingAddress.stateCode'', state_code_ok (cp_stateCode p)),
      (''shippingAddress.pincode'', pincode_ok (cp_pincode p)),
      (''buyerGstin'', nullish gstin_ok (cp_buyerGstin p)),
      (''couponCode'', nullish (length_between 0 40) (cp_couponCode p))])"

record clean_checkout =
  cc_idempotencyKey :: string
  cc_buyerName :: string
  cc_phone :: string
  cc_email :: "string option"
  cc_address :: address
  cc_buyerGstin :: "string option"
  cc_couponCode :: "string option"
  cc_paymentMode :: checkout_payment_mode

definition normalizePayload :: "(string \<Rightarrow> bool) \<Rightarrow> checkout_payload \<Rightarrow> clean_checkout res" where
  "normalizePayload email_ok payload =
    (let p = parse_payload payload; issues = payload_issues email_ok p in
     if issues \<noteq> [] then Inl (invalidPayload issues) else
     Inr \<lparr>cc_idempotencyKey = cp_idempotencyKey p, cc_buyerName = cp_buyerName p, cc_phone = cp_phone p,
          cc_email = trim_or_null (cp_email p),
          cc_address = \<lparr>ad_line1 = cp_line1 p, ad_line2 = trim_or_null (cp_line2 p), ad_city = cp_city p,
                        ad_stateCode = to_upper (trim (cp_stateCode p)), ad_pincode = cp_pincode p\<rparr>,
          cc_buyerGstin = trim_or_null (cp_buyerGstin p), cc_couponCode = coupon_key (cp_couponCode p),
          cc_paymentMode = cp_paymentMode p\<rparr>)"

section \<open>Seller and settings\<close>

definition loadSellerIdentity :: "tenant_row dbaction" where
  "loadSellerIdentity = commit (
     tbind (tread db_tenant) (\<lambda>row. case row of Some t \<Rightarrow> treturn t | None \<Rightarrow> tthrow (JsError ''Tenant not found'')))"

record checkout_settings =
  cs_advancePolicy :: advance_policy
  cs_flatFeePaise :: paise
  cs_freeAbovePaise :: "paise option"
  cs_invoicePrefix :: "string option"
  cs_sellerAddress :: string

definition or_zero :: "paise option \<Rightarrow> paise" where
  "or_zero p = (case p of Some n \<Rightarrow> n | None \<Rightarrow> 0)"

definition parse_checkout_settings :: "store_settings \<Rightarrow> checkout_settings" where
  "parse_checkout_settings s =
     \<lparr>cs_advancePolicy =
        \<lparr>ap_codEnabled = (read_setting s ''payments.cod_enabled'' \<noteq> Some (JBool False)),
         ap_advanceBps = read_paise s ''payments.advance_bps'',
         ap_minAdvancePaise = or_zero (read_paise s ''payments.min_advance_paise'')\<rparr>,
      cs_flatFeePaise = or_zero (read_paise s ''shipping.flat_fee_paise''),
      cs_freeAbovePaise = read_paise s ''shipping.free_above_paise'',
      cs_invoicePrefix =
        (case read_setting s ''invoicing.prefix'' of Some (JString v) \<Rightarrow> trim_or_null (Some v) | _ \<Rightarrow> None),
      cs_sellerAddress =
        (case read_setting s ''invoicing.seller_address'' of Some (JString v) \<Rightarrow> v | _ \<Rightarrow> [])\<rparr>"

definition readCheckoutSettings :: "checkout_settings dbaction" where
  "readCheckoutSettings = commit (tread (\<lambda>db. parse_checkout_settings (db_settings db)))"

section \<open>Order creation\<close>

text \<open>A cart line joined with its live variant and product: the last live read.\<close>

record checkout_row =
  kr_variantId :: uuid
  kr_quantity :: int
  kr_productId :: uuid
  kr_sku :: string
  kr_options :: "(string \<times> string) list"
  kr_pricePaise :: paise
  kr_title :: string
  kr_hsnCode :: "string option"
  kr_taxRateBps :: "int option"

definition sellable_variant :: "db \<Rightarrow> uuid \<Rightarrow> variant_row option" where
  "sellable_variant db v = find (\<lambda>r. pv_id r = v \<and> pv_isActive r \<and> pv_deletedAt r = None) (db_variants db)"

definition sellable_product :: "db \<Rightarrow> uuid \<Rightarrow> product_row option" where
  "sellable_product db p = find (\<lambda>r. pr_id r = p \<and> pr_status r = product_active \<and> pr_deletedAt r = None) (db_products db)"

definition join_line :: "db \<Rightarrow> cart_line_row \<Rightarrow> checkout_row option" where
  "join_line db l =
    (case sellable_variant db (cl_variantId l) of
       None \<Rightarrow> None
     | Some v \<Rightarrow>
         (case sellable_product db (pv_productId v) of
            None \<Rightarrow> None
          | Some p \<Rightarrow> Some
              \<lparr>kr_variantId = cl_variantId l, kr_quantity = cl_quantity l, kr_productId = pv_productId v,
               kr_sku = pv_sku v, kr_options = pv_options v, kr_pricePaise = pv_pricePaise v,
               kr_title = pr_title p, kr_hsnCode = pr_hsnCode p, kr_taxRateBps = pr_taxRateBps p\<rparr>))"

definition live_rows :: "db \<Rightarrow> uuid \<Rightarrow> checkout_row list" where
  "live_rows db cartId = List.map_filter (join_line db) (filter (\<lambda>l. cl_cartId l = cartId) (db_cartLines db))"

definition line_gross :: "checkout_row \<Rightarrow> paise" where
  "line_gross r = kr_pricePaise r * kr_quantity r"

definition row_rate :: "checkout_row \<Rightarrow> int" where
  "row_rate r = (case kr_taxRateBps r of Some n \<Rightarrow> n | None \<Rightarrow> 0)"

definition categories_of :: "db \<Rightarrow> uuid \<Rightarrow> uuid list" where
  "categories_of db pid = map snd (filter (\<lambda>(p, c). p = pid) (db_productCategories db))"

definition eval_cart_of :: "db \<Rightarrow> checkout_row list \<Rightarrow> paise \<Rightarrow> paise \<Rightarrow> eval_cart" where
  "eval_cart_of db rows subtotal shipping =
     \<lparr>ec_lines = map (\<lambda>r. \<lparr>el_variantId = kr_variantId r, el_productId = kr_productId r,
        el_categoryIds = categories_of db (kr_productId r), el_quantity = kr_quantity r,
        el_unitPricePaise = kr_pricePaise r\<rparr>) rows,
      ec_subtotalPaise = subtotal, ec_shippingPaise = shipping, ec_channel = web\<rparr>"

definition refuse :: "string \<Rightarrow> string list \<Rightarrow> err" where
  "refuse code paths = AppError code 422 paths"

definition pendingByCustomer :: "db \<Rightarrow> uuid \<Rightarrow> uuid \<Rightarrow> int" where
  "pendingByCustomer db pid cid =
     int (length (filter (\<lambda>r. pending_claim db pid r \<and> or_customerId r = Some cid) (db_orders db)))"

text \<open>The advisory caps under the promotion lock.\<close>

definition check_coupon_caps :: "promotion_data \<Rightarrow> uuid \<Rightarrow> unit dbtx" where
  "check_coupon_caps promo cid =
     tbind (tread (\<lambda>db. case pd_usageLimitTotal promo of None \<Rightarrow> True
        | Some n \<Rightarrow> countRedemptions db (pd_id promo) + countPendingClaims db (pd_id promo) < n)) (\<lambda>ok.
     tbind (tguard ok (refuse ''coupon_exhausted'' [''couponCode''])) (\<lambda>_.
     tbind (tread (\<lambda>db. case pd_usageLimitPerCustomer promo of None \<Rightarrow> True
        | Some n \<Rightarrow> countCustomerRedemptions db (pd_id promo) cid + pendingByCustomer db (pd_id promo) cid < n)) (\<lambda>ok.
     tguard ok (refuse ''coupon_exhausted'' [''couponCode'']))))"

text \<open>Discount, line discounts and shipping after the coupon.\<close>

definition apply_coupon :: "promotion_data \<Rightarrow> uuid \<times> millis option \<Rightarrow> checkout_row list \<Rightarrow> paise \<Rightarrow> paise \<Rightarrow>
    (paise \<times> paise list \<times> paise) dbtx" where
  "apply_coupon promo customer rows subtotal shippingBase =
     tbind (tread (\<lambda>db. evaluatePromotion promo (eval_cart_of db rows subtotal shippingBase)
        (Some \<lparr>ecu_id = Some (fst customer), ecu_isFirstOrder = (snd customer = None)\<rparr>) (db_now db))) (\<lambda>evaluation.
     case evaluation of
       Inl reason \<Rightarrow> tthrow (refuse ''coupon_not_applicable'' [''couponCode''])
     | Inr discount \<Rightarrow>
         tbind (check_coupon_caps promo (fst customer)) (\<lambda>_.
         case applyDiscountToLines (map line_gross rows) discount shippingBase of
           (lineDiscounts, shipping) \<Rightarrow> treturn (ad_discountPaise discount, lineDiscounts, shipping)))"

text \<open>The rate of the highest-value item line, which the shipping line is taxed at.\<close>

definition shipping_rate :: "(paise \<times> int) list \<Rightarrow> int" where
  "shipping_rate ls = snd (foldl (\<lambda>(highest, rate) (value, r). if value > highest then (value, r) else (highest, rate)) (- 1, 0) ls)"

definition tax_lines :: "checkout_row list \<Rightarrow> paise list \<Rightarrow> paise \<Rightarrow> int \<Rightarrow> taxable_line list" where
  "tax_lines rows itemTaxable shippingPaise shippingRate =
     map (\<lambda>(i, r, t). \<lparr>tl_lineId = ''item-'' @ show_nat i, tl_taxablePaise = t, tl_taxRateBps = row_rate r\<rparr>)
         (enumerate 0 (zip rows itemTaxable)) @
     (if shippingPaise > 0
      then [\<lparr>tl_lineId = ''shipping'', tl_taxablePaise = shippingPaise, tl_taxRateBps = shippingRate\<rparr>] else [])"

definition seller_tax_context :: "tenant_row \<Rightarrow> string \<Rightarrow> tax_context" where
  "seller_tax_context seller placeOfSupply =
     \<lparr>tc_sellerStateCode = (case tn_originStateCode seller of Some s \<Rightarrow> s | None \<Rightarrow> []),
      tc_placeOfSupplyStateCode = placeOfSupply, tc_registrationType = tn_taxRegistrationType seller,
      tc_inclusive = True\<rparr>"

text \<open>Order numbers: get-or-create the counter, then UPDATE .. RETURNING.\<close>

definition nextOrderNumber :: "int dbtx" where
  "nextOrderNumber =
     tbind (twrite (\<lambda>db. case db_orderCounter db of Some _ \<Rightarrow> db | None \<Rightarrow> db\<lparr>db_orderCounter := Some 1001\<rparr>)) (\<lambda>_.
     tbind (tread db_orderCounter) (\<lambda>counter.
     case counter of
       None \<Rightarrow> tthrow (JsError ''order_counters missing after upsert'')
     | Some n \<Rightarrow> tbind (twrite (\<lambda>db. db\<lparr>db_orderCounter := Some (n + 1)\<rparr>)) (\<lambda>_. treturn n)))"

definition insert_order :: "order_row \<Rightarrow> unit dbtx" where
  "insert_order row =
     tbind (tguard (or_totalPaise row = or_subtotalPaise row - or_discountPaise row + or_shippingPaise row)
              (checkViolation ''orders_amtcheck'')) (\<lambda>_.
     tbind (tguard (or_amountPaidPaise row \<ge> 0) (checkViolation ''orders_amount_paid_check'')) (\<lambda>_.
     tbind (tguard (or_codDuePaise row \<ge> 0) (checkViolation ''orders_cod_due_check'')) (\<lambda>_.
     tbind (tread (\<lambda>db. list_ex (\<lambda>r. or_id r = or_id row) (db_orders db))) (\<lambda>dup_id.
     tbind (tguard (\<not> dup_id) (uniqueViolation ''orders_pkey'')) (\<lambda>_.
     tbind (tread (\<lambda>db. list_ex (\<lambda>r. or_orderNumber r = or_orderNumber row) (db_orders db))) (\<lambda>dup_number.
     tbind (tguard (\<not> dup_number) (uniqueViolation ''orders_tenant_number_key'')) (\<lambda>_.
     tbind (tread (\<lambda>db. or_idempotencyKey row \<noteq> None \<and>
        list_ex (\<lambda>r. or_idempotencyKey r = or_idempotencyKey row) (db_orders db))) (\<lambda>dup_key.
     tbind (tguard (\<not> dup_key) (uniqueViolation ''orders_idem_key'')) (\<lambda>_.
     tbind (tread (\<lambda>db. or_cartId row \<noteq> None \<and> or_status row = pending_payment \<and>
        list_ex (\<lambda>r. or_cartId r = or_cartId row \<and> or_status r = pending_payment) (db_orders db))) (\<lambda>dup_cart.
     tbind (tguard (\<not> dup_cart) (uniqueViolation ''orders_tenant_cart_pending_key'')) (\<lambda>_.
     twrite (\<lambda>db. db\<lparr>db_orders := db_orders db @ [row]\<rparr>))))))))))))"

definition join_options :: "(string \<times> string) list \<Rightarrow> string" where
  "join_options opts = (case filter (\<lambda>v. v \<noteq> []) (map snd opts) of
     [] \<Rightarrow> [] | v # vs \<Rightarrow> foldl (\<lambda>s w. s @ '' / '' @ w) v vs)"

definition item_order_line :: "uuid \<Rightarrow> nat \<Rightarrow> checkout_row \<Rightarrow> paise \<Rightarrow> line_tax \<Rightarrow> order_line_row" where
  "item_order_line oid i r discount tax =
     \<lparr>ol_id = 0, ol_orderId = oid, ol_kind = item_line, ol_variantId = Some (kr_variantId r),
      ol_titleSnapshot = (if join_options (kr_options r) \<noteq> []
         then kr_title r @ '' ('' @ join_options (kr_options r) @ '')'' else kr_title r),
      ol_skuSnapshot = kr_sku r, ol_hsnSnapshot = kr_hsnCode r, ol_quantity = kr_quantity r,
      ol_unitPricePaise = kr_pricePaise r, ol_discountPaise = discount,
      ol_taxablePaise = lt_taxableExclusivePaise tax, ol_taxRateBps = row_rate r, ol_cgstPaise = lt_cgstPaise tax,
      ol_sgstPaise = lt_sgstPaise tax, ol_igstPaise = lt_igstPaise tax, ol_taxPaise = lt_taxPaise tax,
      ol_totalPaise = line_gross r - discount, ol_position = i\<rparr>"

definition shipping_order_line :: "uuid \<Rightarrow> nat \<Rightarrow> paise \<Rightarrow> int \<Rightarrow> line_tax \<Rightarrow> order_line_row" where
  "shipping_order_line oid linePosition shippingPaise rate tax =
     \<lparr>ol_id = 0, ol_orderId = oid, ol_kind = shipping_line, ol_variantId = None, ol_titleSnapshot = ''Shipping'',
      ol_skuSnapshot = [], ol_hsnSnapshot = None, ol_quantity = 1, ol_unitPricePaise = shippingPaise,
      ol_discountPaise = 0, ol_taxablePaise = lt_taxableExclusivePaise tax, ol_taxRateBps = rate,
      ol_cgstPaise = lt_cgstPaise tax, ol_sgstPaise = lt_sgstPaise tax, ol_igstPaise = lt_igstPaise tax,
      ol_taxPaise = lt_taxPaise tax, ol_totalPaise = shippingPaise, ol_position = linePosition\<rparr>"

text \<open>
  The snapshot lines, items then shipping.  \<open>taxes\<close> answers \<open>tax_lines\<close> in order, so the code's
  lookup by line id is the position.
\<close>

definition snapshot_lines :: "uuid \<Rightarrow> checkout_row list \<Rightarrow> paise list \<Rightarrow> paise \<Rightarrow> int \<Rightarrow> line_tax list \<Rightarrow> order_line_row list" where
  "snapshot_lines oid rows lineDiscounts shippingPaise rate taxes =
     map (\<lambda>(i, r, d, t). item_order_line oid i r d t) (enumerate 0 (zip rows (zip lineDiscounts taxes))) @
     (if shippingPaise > 0 then [shipping_order_line oid (length rows) shippingPaise rate (taxes ! length rows)] else [])"

definition insert_order_lines :: "order_line_row list \<Rightarrow> unit dbtx" where
  "insert_order_lines lines =
     tbind (tfor lines (\<lambda>l. tbind draw_uuid (\<lambda>lid. treturn (l\<lparr>ol_id := lid\<rparr>)))) (\<lambda>rows.
     tbind (tguard (list_all (\<lambda>l. ol_quantity l > 0) rows) (checkViolation ''order_lines_quantity_check'')) (\<lambda>_.
     twrite (\<lambda>db. db\<lparr>db_orderLines := db_orderLines db @ rows\<rparr>)))"

definition CHECKOUT_EXPIRY_MS :: millis where
  "CHECKOUT_EXPIRY_MS = 25 * 60000"

record created_order =
  co_orderId :: uuid
  co_orderNumber :: int
  co_totalPaise :: paise
  co_advancePaise :: paise
  co_codDuePaise :: paise
  co_holdLines :: "hold_line list"
  co_expiresAt :: millis

definition row_hold :: "checkout_row \<Rightarrow> hold_line" where
  "row_hold r = \<lparr>hl_variantId = kr_variantId r, hl_quantity = kr_quantity r\<rparr>"

definition fingerprint_of :: "hold_line list \<Rightarrow> clean_checkout \<Rightarrow> string" where
  "fingerprint_of lines clean = computeCheckoutFingerprint
     \<lparr>fi_lines = lines, fi_pincode = ad_pincode (cc_address clean), fi_stateCode = ad_stateCode (cc_address clean),
      fi_paymentMode = payment_mode_text (cc_paymentMode clean), fi_couponCode = cc_couponCode clean,
      fi_buyerPhone = cc_phone clean\<rparr>"

text \<open>Everything the amounts of the order are computed from.\<close>

record order_amounts =
  oa_subtotal :: paise
  oa_discount :: paise
  oa_shipping :: paise
  oa_tax :: paise
  oa_total :: paise
  oa_advance :: paise
  oa_codDue :: paise
  oa_lineDiscounts :: "paise list"
  oa_shippingRate :: int
  oa_taxes :: "line_tax list"

definition price_order :: "clean_checkout \<Rightarrow> tenant_row \<Rightarrow> checkout_settings \<Rightarrow> checkout_row list \<Rightarrow>
    paise \<times> paise list \<times> paise \<Rightarrow> order_amounts res" where
  "price_order clean seller settings rows coupon = (case coupon of (discount, lineDiscounts, shipping) \<Rightarrow>
     let subtotal = sum_list (map line_gross rows);
         itemTaxable = map (\<lambda>(r, d). line_gross r - d) (zip rows lineDiscounts);
         rate = shipping_rate (zip itemTaxable (map row_rate rows));
         amt = subtotal - discount + shipping
     in rbind (computeLineTaxes (tax_lines rows itemTaxable shipping rate)
                 (seller_tax_context seller (ad_stateCode (cc_address clean)))) (\<lambda>taxes.
        rbind (computeAdvanceSplit amt (cs_advancePolicy settings) (cc_paymentMode clean)) (\<lambda>(advance, codDue).
        Inr \<lparr>oa_subtotal = subtotal, oa_discount = discount, oa_shipping = shipping,
             oa_tax = sum_list (map lt_taxPaise taxes), oa_total = amt, oa_advance = advance, oa_codDue = codDue,
             oa_lineDiscounts = lineDiscounts, oa_shippingRate = rate, oa_taxes = taxes\<rparr>)))"

definition new_order :: "uuid \<Rightarrow> int \<Rightarrow> uuid \<Rightarrow> uuid \<Rightarrow> clean_checkout \<Rightarrow> promotion_data option \<Rightarrow> checkout_row list \<Rightarrow>
    order_amounts \<Rightarrow> millis \<Rightarrow> order_row" where
  "new_order oid number cartId cid clean promotion rows am now =
     \<lparr>or_id = oid, or_orderNumber = number, or_channel = web, or_status = pending_payment,
      or_paymentStatus = ops_pending, or_fulfilmentStatus = ful_unfulfilled, or_cartId = Some cartId,
      or_customerId = Some cid, or_idempotencyKey = Some (cc_idempotencyKey clean),
      or_checkoutFingerprint = Some (fingerprint_of (map row_hold rows) clean),
      or_buyerName = cc_buyerName clean, or_buyerPhoneE164 = cc_phone clean, or_buyerEmail = cc_email clean,
      or_shippingAddress = cc_address clean, or_placeOfSupply = ad_stateCode (cc_address clean),
      or_buyerGstin = cc_buyerGstin clean, or_paymentMode = cc_paymentMode clean,
      or_subtotalPaise = oa_subtotal am, or_discountPaise = oa_discount am, or_shippingPaise = oa_shipping am,
      or_taxPaise = oa_tax am, or_totalPaise = oa_total am, or_amountPaidPaise = 0, or_codDuePaise = oa_codDue am,
      or_promotionId = map_option pd_id promotion, or_couponCodeSnapshot = map_option pd_code promotion,
      or_paymentProvider = None, or_gatewayOrderRef = None, or_placedAt = now, or_confirmedAt = None,
      or_cancelledAt = None, or_cancelReason = None, or_expiresAt = Some (now + CHECKOUT_EXPIRY_MS)\<rparr>"

definition customer_actor_ctx :: order_actor where
  "customer_actor_ctx = \<lparr>oa_actorType = customer_actor, oa_actorUserId = None\<rparr>"

definition system_actor_ctx :: order_actor where
  "system_actor_ctx = \<lparr>oa_actorType = system, oa_actorUserId = None\<rparr>"

definition set_cart_status :: "uuid \<Rightarrow> cart_status \<Rightarrow> unit dbtx" where
  "set_cart_status cartId st = twrite (\<lambda>db. db\<lparr>db_carts :=
     upd (\<lambda>c. ca_id c = cartId) (\<lambda>c. c\<lparr>ca_status := st, ca_updatedAt := db_now db\<rparr>) (db_carts db)\<rparr>)"

text \<open>The writes of the order: number, row, snapshot lines, \<open>order.placed\<close>, cart conversion.\<close>

definition place_order :: "uuid \<Rightarrow> clean_checkout \<Rightarrow> checkout_row list \<Rightarrow> promotion_data option \<Rightarrow> uuid \<Rightarrow> order_amounts \<Rightarrow>
    created_order dbtx" where
  "place_order cartId clean rows promotion cid am =
     tbind nextOrderNumber (\<lambda>number.
     tbind draw_uuid (\<lambda>oid.
     tbind (tread db_now) (\<lambda>now.
     tbind (insert_order (new_order oid number cartId cid clean promotion rows am now)) (\<lambda>_.
     tbind (insert_order_lines (snapshot_lines oid rows (oa_lineDiscounts am) (oa_shipping am) (oa_shippingRate am) (oa_taxes am))) (\<lambda>_.
     tbind (insert_event customer_actor_ctx oid ''order.placed'' None (Some pending_payment)
              (JObject [(''orderNumber'', JNumber number), (''paymentMode'', JString (payment_mode_text (cc_paymentMode clean))),
                        (''totalPaise'', JNumber (oa_total am))])) (\<lambda>_.
     tbind (set_cart_status cartId cart_converted) (\<lambda>_.
     treturn \<lparr>co_orderId = oid, co_orderNumber = number, co_totalPaise = oa_total am, co_advancePaise = oa_advance am,
              co_codDuePaise = oa_codDue am, co_holdLines = map row_hold rows,
              co_expiresAt = now + CHECKOUT_EXPIRY_MS\<rparr>)))))))"

definition createOrderTx :: "uuid \<Rightarrow> clean_checkout \<Rightarrow> tenant_row \<Rightarrow> checkout_settings \<Rightarrow> created_order dbtx" where
  "createOrderTx cartId clean seller settings =
     tbind (tread (\<lambda>db. find (\<lambda>c. ca_id c = cartId) (db_carts db))) (\<lambda>cart.
     case cart of
       None \<Rightarrow> tthrow notFound
     | Some c \<Rightarrow>
     tbind (tguard (ca_status c = cart_active) (refuse ''cart_not_active'' [])) (\<lambda>_.
     tbind (tread (\<lambda>db. live_rows db cartId)) (\<lambda>rows.
     tbind (tguard (rows \<noteq> []) (refuse ''cart_empty'' [])) (\<lambda>_.
     tbind (case cc_couponCode clean of
              None \<Rightarrow> treturn None
            | Some code \<Rightarrow>
                tbind (loadActivePromotionForUpdate code) (\<lambda>found.
                tbind (tguard (found \<noteq> None) (refuse ''coupon_invalid'' [''couponCode''])) (\<lambda>_. treturn found))) (\<lambda>promotion.
     tbind (upsertCustomerByPhone (cc_phone clean) (Some (cc_buyerName clean)) (cc_email clean)) (\<lambda>customer.
     let subtotal = sum_list (map line_gross rows) in
     tbind (tlift (computeShippingFeePaise subtotal (cs_flatFeePaise settings) (cs_freeAbovePaise settings))) (\<lambda>shippingBase.
     tbind (case promotion of
              None \<Rightarrow> treturn (0, map (\<lambda>_. 0) rows, shippingBase)
            | Some promo \<Rightarrow> apply_coupon promo customer rows subtotal shippingBase) (\<lambda>coupon.
     tbind (tlift (price_order clean seller settings rows coupon)) (\<lambda>am.
     place_order cartId clean rows promotion (fst customer) am)))))))))"

section \<open>Cancelling a pending order\<close>

definition checkout_ref :: "uuid \<Rightarrow> reference" where
  "checkout_ref oid = \<lparr>rf_type = ''checkout'', rf_refId = oid\<rparr>"

definition release_softly :: "uuid \<Rightarrow> unit dbaction" where
  "release_softly oid = acatch (abind (releaseStock (checkout_ref oid)) (\<lambda>_. areturn ())) (\<lambda>_. areturn ())"

text \<open>Give the buyer the cart back.\<close>

definition revert_cart :: "uuid option \<Rightarrow> unit dbtx" where
  "revert_cart cartId = (case cartId of
     None \<Rightarrow> treturn ()
   | Some c \<Rightarrow> twrite (\<lambda>db. db\<lparr>db_carts :=
       upd (\<lambda>r. ca_id r = c \<and> ca_status r = cart_converted) (\<lambda>r. r\<lparr>ca_status := cart_active, ca_updatedAt := db_now db\<rparr>) (db_carts db)\<rparr>))"

definition cancelPendingTx :: "uuid \<Rightarrow> string \<Rightarrow> string \<Rightarrow> json \<Rightarrow> unit dbtx" where
  "cancelPendingTx oid reason name data =
     tbind (lockOrder oid) (\<lambda>found.
     case found of
       None \<Rightarrow> treturn ()
     | Some r \<Rightarrow>
         if or_status r \<noteq> pending_payment then treturn () else
         tbind (transitionOrder system_actor_ctx oid (or_status r) cancelled name data) (\<lambda>_.
         tbind (update_order oid (\<lambda>r. r\<lparr>or_cancelReason := Some reason\<rparr>)) (\<lambda>_.
         revert_cart (or_cartId r))))"

definition cancelPendingOrder :: "uuid \<Rightarrow> string \<Rightarrow> string \<Rightarrow> json \<Rightarrow> unit dbaction" where
  "cancelPendingOrder oid reason name data =
     abind (commit (cancelPendingTx oid reason name data)) (\<lambda>_. release_softly oid)"

section \<open>The confirmation door\<close>

definition hold_of_line :: "order_line_row \<Rightarrow> hold_line option" where
  "hold_of_line l = (if ol_kind l = item_line
     then map_option (\<lambda>v. \<lparr>hl_variantId = v, hl_quantity = ol_quantity l\<rparr>) (ol_variantId l) else None)"

definition holdLinesOf :: "order_line_row list \<Rightarrow> hold_line list" where
  "holdLinesOf lines = List.map_filter hold_of_line lines"

definition loadOrderLines :: "db \<Rightarrow> uuid \<Rightarrow> order_line_row list" where
  "loadOrderLines db oid = sort_key (\<lambda>l. (ol_position l, ol_id l)) (filter (\<lambda>l. ol_orderId l = oid) (db_orderLines db))"

definition doc_line :: "order_line_row \<Rightarrow> invoice_doc_line" where
  "doc_line l =
     \<lparr>dl_kind = ol_kind l, dl_titleSnapshot = ol_titleSnapshot l, dl_skuSnapshot = ol_skuSnapshot l,
      dl_hsnSnapshot = ol_hsnSnapshot l, dl_quantity = ol_quantity l, dl_unitPricePaise = ol_unitPricePaise l,
      dl_discountPaise = ol_discountPaise l, dl_taxablePaise = ol_taxablePaise l, dl_taxRateBps = ol_taxRateBps l,
      dl_cgstPaise = ol_cgstPaise l, dl_sgstPaise = ol_sgstPaise l, dl_igstPaise = ol_igstPaise l,
      dl_taxPaise = ol_taxPaise l, dl_totalPaise = ol_totalPaise l, dl_position = ol_position l\<rparr>"

definition sum_lines :: "(order_line_row \<Rightarrow> paise) \<Rightarrow> order_line_row list \<Rightarrow> paise" where
  "sum_lines f lines = sum_list (map f lines)"

definition invoice_of :: "order_row \<Rightarrow> order_line_row list \<Rightarrow> tenant_row \<Rightarrow> checkout_settings \<Rightarrow> invoice_input" where
  "invoice_of r lines seller settings =
    (let docType = docTypeFor (tn_taxRegistrationType seller); ad = or_shippingAddress r in
     \<lparr>ii_orderId = or_id r, ii_docType = docType,
      ii_prefix = (case cs_invoicePrefix settings of Some p \<Rightarrow> p
                   | None \<Rightarrow> if docType = tax_invoice then ''INV'' else ''BOS''),
      ii_seller = \<lparr>isl_legalName = tn_legalName seller, isl_gstin = tn_gstin seller,
        isl_address = cs_sellerAddress settings,
        isl_stateCode = (case tn_originStateCode seller of Some s \<Rightarrow> s | None \<Rightarrow> []),
        isl_taxRegistrationType = tn_taxRegistrationType seller\<rparr>,
      ii_buyer = \<lparr>ib_name = or_buyerName r, ib_phone = or_buyerPhoneE164 r, ib_email = or_buyerEmail r,
        ib_gstin = or_buyerGstin r,
        ib_shippingAddress = ad\<lparr>ad_stateCode := (if ad_stateCode ad \<noteq> [] then ad_stateCode ad else or_placeOfSupply r)\<rparr>\<rparr>,
      ii_placeOfSupply = or_placeOfSupply r, ii_lines = map doc_line lines, ii_subtotalPaise = or_subtotalPaise r,
      ii_discountPaise = or_discountPaise r, ii_taxablePaise = sum_lines ol_taxablePaise lines,
      ii_cgstPaise = sum_lines ol_cgstPaise lines, ii_sgstPaise = sum_lines ol_sgstPaise lines,
      ii_igstPaise = sum_lines ol_igstPaise lines, ii_totalPaise = or_totalPaise r\<rparr>)"

datatype on_exhausted = refuse_exhausted | overredeem

text \<open>The coupon step: claim a slot, and either refuse or flag an exhausted coupon.\<close>

definition claim_coupon :: "order_actor \<Rightarrow> order_row \<Rightarrow> on_exhausted \<Rightarrow> unit dbtx" where
  "claim_coupon actor r mode = (case or_promotionId r of
     None \<Rightarrow> treturn ()
   | Some pid \<Rightarrow>
       tbind (tread (\<lambda>db. find_promotion db pid)) (\<lambda>found.
       case found of
         None \<Rightarrow> treturn ()
       | Some promo \<Rightarrow>
           tbind (claimRedemption promo (or_id r) (or_customerId r) (or_discountPaise r)) (\<lambda>claim.
           case claim of
             claimed rid slot customerSlot \<Rightarrow> treturn ()
           | claim_exhausted \<Rightarrow>
               if mode = refuse_exhausted then tthrow (refuse ''coupon_exhausted'' []) else
               tbind (insertOrderEvent actor (or_id r) ''promotion.overredeemed''
                 (JObject [(''promotionId'', JString (show_uuid (pd_id promo))), (''code'', JString (pd_code promo)), (''discountPaise'', JNumber (or_discountPaise r))])) (\<lambda>_.
               treturn ()))))"

definition confirmOrderCore :: "order_actor \<Rightarrow> order_row \<Rightarrow> order_line_row list \<Rightarrow> tenant_row \<Rightarrow> checkout_settings \<Rightarrow>
    on_exhausted \<Rightarrow> uuid list dbtx" where
  "confirmOrderCore actor r lines seller settings mode =
     tbind (if holdLinesOf lines \<noteq> []
            then tbind (consumeStockWithin (checkout_ref (or_id r)) (holdLinesOf lines)) (\<lambda>(results, productIds). treturn productIds)
            else treturn []) (\<lambda>productIds.
     tbind (transitionOrder actor (or_id r) (or_status r) confirmed ''order.confirmed''
              (JObject [(''orderNumber'', JNumber (or_orderNumber r))])) (\<lambda>_.
     tbind (claim_coupon actor r mode) (\<lambda>_.
     tbind (createInvoice (invoice_of r lines seller settings)) (\<lambda>_.
     tbind (case or_customerId r of None \<Rightarrow> treturn () | Some cid \<Rightarrow> markFirstOrder cid) (\<lambda>_.
     tbind (recordAudit
              \<lparr>ae_actorType = oa_actorType actor, ae_actorUserId = oa_actorUserId actor, ae_action = ''order.status_changed'',
               ae_entityType = ''order'', ae_entityId = Some (or_id r),
               ae_before = JObject [(''status'', JString ''pending_payment'')],
               ae_after = JObject [(''status'', JString ''confirmed'')]\<rparr>) (\<lambda>_.
     treturn productIds))))))"

fun isStockFailure :: "err \<Rightarrow> bool" where
  "isStockFailure (ConsumeShortfallError _ _ _) = True"
| "isStockFailure (StockHeldError _ _) = True"
| "isStockFailure _ = False"

definition stockFailureToBuyerError :: "err \<Rightarrow> err dbaction" where
  "stockFailureToBuyerError e = (case e of
     ConsumeShortfallError v q cause \<Rightarrow>
       abind (commit (tread (\<lambda>db. case map_of (getAvailability db [v]) v of Some a \<Rightarrow> av_available a | None \<Rightarrow> 0)))
         (\<lambda>available. areturn (InsufficientAvailabilityError [(v, q, available)]))
   | _ \<Rightarrow> areturn e)"

definition invalidTransitionRefusal :: err where
  "invalidTransitionRefusal = refuse ''invalid_transition'' []"

definition confirmCodTx :: "uuid \<Rightarrow> tenant_row \<Rightarrow> checkout_settings \<Rightarrow> uuid list dbtx" where
  "confirmCodTx oid seller settings =
     tbind (lockOrder oid) (\<lambda>found.
     case found of
       None \<Rightarrow> tthrow notFound
     | Some r \<Rightarrow>
         tbind (tguard (or_status r = pending_payment) invalidTransitionRefusal) (\<lambda>_.
         tbind (tread (\<lambda>db. loadOrderLines db oid)) (\<lambda>lines.
         tbind (confirmOrderCore customer_actor_ctx r lines seller settings refuse_exhausted) (\<lambda>productIds.
         tbind (update_order oid (\<lambda>r'. if or_totalPaise r = 0
                  then r'\<lparr>or_paymentStatus := ops_paid, or_codDuePaise := 0\<rparr>
                  else r'\<lparr>or_paymentStatus := ops_pending, or_codDuePaise := or_totalPaise r\<rparr>)) (\<lambda>_.
         treturn productIds)))))"

definition confirmCodOrder :: "uuid \<Rightarrow> unit dbaction" where
  "confirmCodOrder oid =
     abind loadSellerIdentity (\<lambda>seller.
     abind readCheckoutSettings (\<lambda>settings.
     acatch (abind (commit (confirmCodTx oid seller settings)) (\<lambda>_. areturn ())) (\<lambda>e.
       if isStockFailure e then
         abind (stockFailureToBuyerError e) (\<lambda>buyerError.
         abind (cancelPendingOrder oid ''stock_shortfall'' ''order.oversold'' (JObject [])) (\<lambda>_.
         athrow buyerError))
       else if err_code e = Some ''coupon_exhausted'' then
         abind (cancelPendingOrder oid ''coupon_exhausted'' ''order.cancelled''
                  (JObject [(''reason'', JString ''coupon_exhausted'')])) (\<lambda>_. athrow e)
       else athrow e)))"

end
