(* ===== verification/CheckoutFlows.thy ===== *)
theory CheckoutFlows
  imports Checkout
begin

text \<open>
  The flows around the confirmation door, \<open>packages/core/src/checkout/server.ts\<close>: payment start,
  idempotent replay, \<open>startCheckout\<close>, the verified webhook events, expiry and the console cancel.
\<close>

datatype checkout_response =
    checkout_confirmed uuid
  | payment_required uuid string string paise

text \<open>
  The gateway's answer to a new order: a transport error, or the id in its response.  Both adapters
  (\<open>integrations/src/payments\<close>) refuse a response without one.
\<close>

type_synonym gateway = "payment_account_row \<Rightarrow> paise \<Rightarrow> uuid \<Rightarrow> string res"

definition requireStringId :: "string \<Rightarrow> string res" where
  "requireStringId value = (if value = [] then Inl (AppError ''gateway_error'' 502 []) else Inr value)"

definition createGatewayOrder :: "gateway \<Rightarrow> payment_account_row \<Rightarrow> paise \<Rightarrow> uuid \<Rightarrow> string res" where
  "createGatewayOrder gateway account amountPaise receipt = rbind (gateway account amountPaise receipt) requireStringId"

section \<open>Payment start\<close>

definition findPaymentByGatewayOrder :: "db \<Rightarrow> uuid \<Rightarrow> string \<Rightarrow> payment_row option" where
  "findPaymentByGatewayOrder db oid ref =
     find (\<lambda>p. py_orderId p = oid \<and> py_gatewayOrderId p = Some ref) (rev (db_payments db))"

text \<open>Storing a gateway order reference; the partial unique index refuses one another order has.\<close>

definition set_gateway_ref :: "uuid \<Rightarrow> string \<Rightarrow> payment_provider_code \<Rightarrow> unit dbtx" where
  "set_gateway_ref oid ref provider =
     tbind (tread (\<lambda>db. find_order db oid \<noteq> None \<longrightarrow>
        list_all (\<lambda>r. or_id r = oid \<or> or_gatewayOrderRef r \<noteq> Some ref) (db_orders db))) (\<lambda>unique.
     tbind (tguard unique (uniqueViolation ''orders_gateway_ref_key'')) (\<lambda>_.
     update_order oid (\<lambda>r. r\<lparr>or_gatewayOrderRef := Some ref, or_paymentProvider := Some provider\<rparr>)))"

text \<open>\<open>if (ref)\<close>: an absent or empty reference is falsy.\<close>

definition truthy :: "string option \<Rightarrow> string option" where
  "truthy s = (case s of Some x \<Rightarrow> if x = [] then None else Some x | None \<Rightarrow> None)"

definition storedGatewayRef :: "uuid \<Rightarrow> string option dbtx" where
  "storedGatewayRef oid = tbind (lockOrder oid) (\<lambda>found. treturn (case found of Some r \<Rightarrow> or_gatewayOrderRef r | None \<Rightarrow> None))"

text \<open>First writer wins: keep a different stored reference, else record the attempt.\<close>

definition recordGatewayOrder :: "uuid \<Rightarrow> payment_account_row \<Rightarrow> paise \<Rightarrow> string \<Rightarrow> string dbtx" where
  "recordGatewayOrder oid account amountPaise minted =
     tbind (storedGatewayRef oid) (\<lambda>stored.
     case (case truthy stored of Some ref \<Rightarrow> if ref \<noteq> minted then Some ref else None | None \<Rightarrow> None) of
       Some ref \<Rightarrow> treturn ref
     | None \<Rightarrow>
         tbind (tread (\<lambda>db. findPaymentByGatewayOrder db oid minted)) (\<lambda>existing.
         tbind (case existing of
                  Some p \<Rightarrow> treturn ()
                | None \<Rightarrow> tbind (insertPayment
                    \<lparr>pin_orderId = oid, pin_paymentAccountId = pa_id account, pin_providerCode = pa_providerCode account,
                     pin_amountPaise = amountPaise, pin_gatewayOrderId = minted\<rparr>) (\<lambda>_. treturn ())) (\<lambda>_.
         tbind (set_gateway_ref oid minted (pa_providerCode account)) (\<lambda>_.
         treturn minted))))"

definition startGatewayPayment :: "gateway \<Rightarrow> uuid \<Rightarrow> payment_account_row \<Rightarrow> paise \<Rightarrow> checkout_response dbaction" where
  "startGatewayPayment gateway oid account amountPaise =
     abind (commit (storedGatewayRef oid)) (\<lambda>storedRef.
     case truthy storedRef of
       Some ref \<Rightarrow> areturn (payment_required oid ref (pa_publicKeyId account) amountPaise)
     | None \<Rightarrow>
         abind (alift (createGatewayOrder gateway account amountPaise oid)) (\<lambda>minted.
         abind (commit (recordGatewayOrder oid account amountPaise minted)) (\<lambda>finalRef.
         areturn (payment_required oid finalRef (pa_publicKeyId account) amountPaise))))"

section \<open>Replays and the start of a checkout\<close>

definition failed_json :: "(uuid \<times> int \<times> int) list \<Rightarrow> json" where
  "failed_json failures = JObject [(''failedLines'', JArray (map (\<lambda>(v, q, a). JObject
     [(''variantId'', JString (show_uuid v)), (''requested'', JNumber q), (''available'', JNumber a)]) failures))]"

text \<open>[TX-B]: the holds; a shortage cancels the pending order before it is thrown.\<close>

definition hold_or_cancel :: "uuid \<Rightarrow> hold_line list \<Rightarrow> unit dbaction" where
  "hold_or_cancel oid lines =
     acatch (abind (holdStock (checkout_ref oid) lines) (\<lambda>_. areturn ())) (\<lambda>e.
       case e of
         InsufficientAvailabilityError failures \<Rightarrow>
           abind (cancelPendingOrder oid ''hold_failed'' ''order.hold_failed'' (failed_json failures)) (\<lambda>_. athrow e)
       | _ \<Rightarrow> athrow e)"

definition settled_response :: "order_status option \<Rightarrow> uuid \<Rightarrow> checkout_response res" where
  "settled_response st oid =
    (if st = None \<or> st = Some cancelled then Inl (refuse ''checkout_cancelled'' [])
     else if st = Some abandoned then Inl (refuse ''checkout_expired'' [])
     else Inr (checkout_confirmed oid))"

definition extend_ttl :: "uuid \<Rightarrow> order_row option dbtx" where
  "extend_ttl oid =
     tbind (lockOrder oid) (\<lambda>found.
     case found of
       None \<Rightarrow> treturn None
     | Some r \<Rightarrow>
         if or_status r \<noteq> pending_payment then treturn (Some r) else
         tbind (twrite (\<lambda>db. db\<lparr>db_orders := upd (\<lambda>r. or_id r = oid \<and> or_status r = pending_payment)
                  (\<lambda>r. r\<lparr>or_expiresAt := Some (db_now db + CHECKOUT_EXPIRY_MS)\<rparr>) (db_orders db)\<rparr>)) (\<lambda>_.
         treturn (Some r)))"

definition status_of :: "db \<Rightarrow> uuid \<Rightarrow> order_status option" where
  "status_of db oid = map_option or_status (find_order db oid)"

text \<open>A pending COD or zero-total order whose confirmation did not finish is finished.\<close>

definition finish_confirmation :: "uuid \<Rightarrow> checkout_response dbaction" where
  "finish_confirmation oid =
     abind (acatch (confirmCodOrder oid) (\<lambda>e.
       abind (commit (tread (\<lambda>db. status_of db oid))) (\<lambda>now.
       if now = Some confirmed then areturn () else athrow e))) (\<lambda>_.
     areturn (checkout_confirmed oid))"

definition replay_pending :: "gateway \<Rightarrow> order_row \<Rightarrow> order_line_row list \<Rightarrow> checkout_response dbaction" where
  "replay_pending gateway r lines =
     abind (hold_or_cancel (or_id r) (holdLinesOf lines)) (\<lambda>_.
     abind (commit (extend_ttl (or_id r))) (\<lambda>fresh.
     case (case fresh of Some f \<Rightarrow> if or_status f = pending_payment then Some f else None | None \<Rightarrow> None) of
       None \<Rightarrow> abind (release_softly (or_id r)) (\<lambda>_. alift (settled_response (map_option or_status fresh) (or_id r)))
     | Some f \<Rightarrow>
         if or_paymentMode r = cod \<or> or_totalPaise r = 0 then finish_confirmation (or_id r) else
         abind (commit getEnabledAccount) (\<lambda>account.
         case account of
           None \<Rightarrow> athrow (refuse ''payments_not_configured'' [])
         | Some a \<Rightarrow>
             let advance = or_totalPaise r - or_codDuePaise r in
             (case truthy (or_gatewayOrderRef f) of
                None \<Rightarrow> startGatewayPayment gateway (or_id r) a advance
              | Some ref \<Rightarrow> areturn (payment_required (or_id r) ref (pa_publicKeyId a) advance)))))"

definition replayCheckout :: "gateway \<Rightarrow> order_row \<Rightarrow> clean_checkout \<Rightarrow> checkout_response dbaction" where
  "replayCheckout gateway r clean =
     abind (commit (tread (\<lambda>db. loadOrderLines db (or_id r)))) (\<lambda>lines.
     if Some (fingerprint_of (holdLinesOf lines) clean) \<noteq> or_checkoutFingerprint r
     then athrow (refuse ''idempotency_key_reuse'' [])
     else if or_status r \<noteq> pending_payment then alift (settled_response (Some (or_status r)) (or_id r))
     else replay_pending gateway r lines)"

definition order_by_key :: "string \<Rightarrow> order_row option dbtx" where
  "order_by_key key = tread (\<lambda>db. find (\<lambda>r. or_idempotencyKey r = Some key) (db_orders db))"

definition check_states :: "clean_checkout \<Rightarrow> unit res" where
  "check_states clean =
     rbind (statesForPincode (ad_pincode (cc_address clean))) (\<lambda>allowed.
     ensure (allowed = [] \<or> ad_stateCode (cc_address clean) \<in> set allowed)
       (refuse ''pincode_state_mismatch'' [''shippingAddress.stateCode'']))"

definition require_serviceable :: "serviceability_result \<Rightarrow> unit res" where
  "require_serviceable s = (case s of
     serviceable m \<Rightarrow> Inr ()
   | pincode_unserviceable m \<Rightarrow> Inl (refuse ''pincode_unserviceable'' [''shippingAddress.pincode'']))"

definition seller_state_ok :: "tenant_row \<Rightarrow> bool" where
  "seller_state_ok seller \<longleftrightarrow> \<not> (tn_taxRegistrationType seller = regular \<and>
     (case tn_originStateCode seller of None \<Rightarrow> True | Some s \<Rightarrow> trim s = []))"

text \<open>[TX-A] with the code's handling of its failures: a lost race replays the winner.\<close>

definition create_or_replay :: "gateway \<Rightarrow> uuid \<Rightarrow> clean_checkout \<Rightarrow> tenant_row \<Rightarrow> checkout_settings \<Rightarrow>
    (checkout_response + created_order) dbaction" where
  "create_or_replay gateway cartId clean seller settings =
     acatch (abind (commit (createOrderTx cartId clean seller settings)) (\<lambda>created. areturn (Inr created))) (\<lambda>e.
       abind (if err_code e = Some ''cart_not_active'' \<or> pgError e = Some (''23505'', ''orders_idem_key'')
              then commit (order_by_key (cc_idempotencyKey clean)) else areturn None) (\<lambda>winner.
       case winner of
         Some w \<Rightarrow> abind (replayCheckout gateway w clean) (\<lambda>r. areturn (Inl r))
       | None \<Rightarrow>
           if pgError e = Some (''23505'', ''orders_tenant_cart_pending_key'') then athrow concurrentModification
           else athrow e))"

text \<open>After the order exists: hold, then confirm at placement or hand off to the gateway.\<close>

definition continue_checkout :: "gateway \<Rightarrow> clean_checkout \<Rightarrow> payment_account_row option \<Rightarrow> created_order \<Rightarrow> checkout_response dbaction" where
  "continue_checkout gateway clean account created =
     abind (hold_or_cancel (co_orderId created) (co_holdLines created)) (\<lambda>_.
     if cc_paymentMode clean = cod \<or> co_totalPaise created = 0
     then abind (confirmCodOrder (co_orderId created)) (\<lambda>_. areturn (checkout_confirmed (co_orderId created)))
     else (case account of
       None \<Rightarrow>
         abind (cancelPendingOrder (co_orderId created) ''payments_not_configured'' ''order.cancelled''
                  (JObject [(''reason'', JString ''payments_not_configured'')])) (\<lambda>_.
         athrow (refuse ''payments_not_configured'' [''paymentMode'']))
     | Some a \<Rightarrow> startGatewayPayment gateway (co_orderId created) a (co_advancePaise created)))"

definition startCheckout :: "(string \<Rightarrow> bool) \<Rightarrow> gateway \<Rightarrow> uuid \<Rightarrow> checkout_payload \<Rightarrow> checkout_response dbaction" where
  "startCheckout email_ok gateway cartId payload =
     abind (alift (normalizePayload email_ok payload)) (\<lambda>clean.
     abind (alift (check_states clean)) (\<lambda>_.
     abind readCheckoutSettings (\<lambda>settings.
     abind (alift (if cc_paymentMode clean \<noteq> prepaid
                   then rbind (computeAdvanceSplit 0 (cs_advancePolicy settings) (cc_paymentMode clean)) (\<lambda>_. Inr ())
                   else Inr ())) (\<lambda>_.
     abind (commit (order_by_key (cc_idempotencyKey clean))) (\<lambda>existing.
     case existing of
       Some r \<Rightarrow> replayCheckout gateway r clean
     | None \<Rightarrow>
     abind (commit (tbind (tread (\<lambda>db. checkServiceability (db_settings db) (ad_pincode (cc_address clean)) (cc_paymentMode clean))) tlift)) (\<lambda>service.
     abind (alift (require_serviceable service)) (\<lambda>_.
     abind (if cc_paymentMode clean \<noteq> cod then commit getEnabledAccount else areturn None) (\<lambda>account.
     abind loadSellerIdentity (\<lambda>seller.
     abind (alift (ensure (seller_state_ok seller) (refuse ''seller_state_unconfigured'' []))) (\<lambda>_.
     abind (create_or_replay gateway cartId clean seller settings) (\<lambda>outcome.
     case outcome of
       Inl response \<Rightarrow> areturn response
     | Inr created \<Rightarrow> continue_checkout gateway clean account created)))))))))))"

section \<open>Webhook events\<close>

record gateway_event =
  ge_eventId :: string
  ge_type :: string
  ge_gatewayOrderId :: string
  ge_gatewayPaymentId :: "string option"
  ge_gatewayRefundId :: "string option"
  ge_amountPaise :: paise
  ge_method :: "string option"
  ge_feePaise :: "paise option"
  ge_feeTaxPaise :: "paise option"
  ge_errorCode :: "string option"
  ge_errorDescription :: "string option"

definition captureOntoPayment :: "uuid \<Rightarrow> gateway_event \<Rightarrow> unit dbtx" where
  "captureOntoPayment pid event = markPaymentCaptured pid
     \<lparr>cap_gatewayPaymentId = (case ge_gatewayPaymentId event of Some x \<Rightarrow> x | None \<Rightarrow> ge_eventId event),
      cap_method = ge_method event, cap_feePaise = ge_feePaise event, cap_feeTaxPaise = ge_feeTaxPaise event\<rparr>"

definition order_by_ref :: "db \<Rightarrow> string \<Rightarrow> order_row option" where
  "order_by_ref db ref = find (\<lambda>r. or_gatewayOrderRef r = Some ref) (db_orders db)"

text \<open>The order and the payment a gateway order id stands for.\<close>

definition resolve_event :: "gateway_event \<Rightarrow> (order_row \<times> payment_row) option dbtx" where
  "resolve_event event = tread (\<lambda>db.
     case order_by_ref db (ge_gatewayOrderId event) of
       None \<Rightarrow> None
     | Some ref \<Rightarrow> (case find_order db (or_id ref) of
         None \<Rightarrow> None
       | Some r \<Rightarrow> map_option (\<lambda>p. (r, p)) (findPaymentByGatewayOrder db (or_id r) (ge_gatewayOrderId event))))"

datatype capture_result = cap_ignored | cap_replay | cap_mismatch | cap_late uuid bool | cap_confirmed

definition captureMismatch :: "order_row \<Rightarrow> payment_row \<Rightarrow> gateway_event \<Rightarrow> uuid \<Rightarrow> capture_result dbtx" where
  "captureMismatch r p event webhookEventId =
     tbind (markPaymentFailed (py_id p) (Some ''amount_mismatch'')
       (Some (''expected '' @ show_int (py_amountPaise p) @ '', gateway reported '' @ show_int (ge_amountPaise event)))) (\<lambda>_.
     tbind (insertOrderEvent system_actor_ctx (or_id r) ''payment.amount_mismatch''
       (JObject [(''expectedPaise'', JNumber (py_amountPaise p)), (''reportedPaise'', JNumber (ge_amountPaise event)),
                 (''webhookEventId'', JString (show_uuid webhookEventId))])) (\<lambda>_.
     treturn cap_mismatch))"

definition lateCapture :: "order_row \<Rightarrow> payment_row \<Rightarrow> gateway_event \<Rightarrow> uuid \<Rightarrow> capture_result dbtx" where
  "lateCapture r p event webhookEventId =
     tbind (captureOntoPayment (py_id p) event) (\<lambda>_.
     tbind (update_order (or_id r) (\<lambda>r'. r'\<lparr>or_amountPaidPaise := or_amountPaidPaise r' + ge_amountPaise event,
                                              or_paymentStatus := ops_refund_initiated\<rparr>)) (\<lambda>_.
     tbind (createRefundIntent
              \<lparr>ri_orderId = or_id r, ri_paymentId = py_id p, ri_amountPaise = ge_amountPaise event,
               ri_reason = ''late_capture_abandoned'', ri_createdByUserId = None\<rparr>) (\<lambda>(refundId, created).
     tbind (if created then tbind (insertOrderEvent system_actor_ctx (or_id r) ''payment.late_captured''
                (JObject [(''amountPaise'', JNumber (ge_amountPaise event)),
                          (''orderStatus'', JString (order_status_text (or_status r))),
                          (''webhookEventId'', JString (show_uuid webhookEventId))])) (\<lambda>_. treturn ())
            else treturn ()) (\<lambda>_.
     treturn (cap_late refundId created)))))"

definition confirmCapture :: "order_row \<Rightarrow> payment_row \<Rightarrow> gateway_event \<Rightarrow> tenant_row \<Rightarrow> checkout_settings \<Rightarrow> capture_result dbtx" where
  "confirmCapture r p event seller settings =
     tbind (captureOntoPayment (py_id p) event) (\<lambda>_.
     let paidAfter = or_amountPaidPaise r + ge_amountPaise event in
     tbind (update_order (or_id r) (\<lambda>r'. r'\<lparr>or_amountPaidPaise := paidAfter,
              or_paymentStatus := (if paidAfter \<ge> or_totalPaise r then ops_paid else ops_partially_paid)\<rparr>)) (\<lambda>_.
     tbind (tread (\<lambda>db. loadOrderLines db (or_id r))) (\<lambda>lines.
     tbind (confirmOrderCore system_actor_ctx r lines seller settings overredeem) (\<lambda>_.
     treturn cap_confirmed))))"

text \<open>[TX-2]: the money transaction.\<close>

definition capturedTx :: "gateway_event \<Rightarrow> uuid \<Rightarrow> tenant_row \<Rightarrow> checkout_settings \<Rightarrow> capture_result dbtx" where
  "capturedTx event webhookEventId seller settings =
     tbind (resolve_event event) (\<lambda>resolved.
     case resolved of
       None \<Rightarrow> treturn cap_ignored
     | Some (r, p) \<Rightarrow>
         if py_status p = pay_captured then treturn cap_replay
         else if ge_amountPaise event \<noteq> py_amountPaise p then captureMismatch r p event webhookEventId
         else if or_status r \<noteq> pending_payment then lateCapture r p event webhookEventId
         else confirmCapture r p event seller settings)"

text \<open>[TX-3]: money is never hostage to stock: record the capture, cancel, insert the refund intent.\<close>

definition oversoldTx :: "gateway_event \<Rightarrow> uuid option dbtx" where
  "oversoldTx event =
     tbind (resolve_event event) (\<lambda>resolved.
     case resolved of
       None \<Rightarrow> treturn None
     | Some (r, p) \<Rightarrow>
         tbind (if py_status p \<noteq> pay_captured
                then tbind (captureOntoPayment (py_id p) event) (\<lambda>_.
                     update_order (or_id r) (\<lambda>r'. r'\<lparr>or_amountPaidPaise := or_amountPaidPaise r' + ge_amountPaise event\<rparr>))
                else treturn ()) (\<lambda>_.
         tbind (if or_status r = pending_payment
                then tbind (transitionOrder system_actor_ctx (or_id r) (or_status r) cancelled ''order.oversold'' (JObject [])) (\<lambda>_.
                     tbind (update_order (or_id r) (\<lambda>r'. r'\<lparr>or_cancelReason := Some ''stock_shortfall'',
                                                              or_paymentStatus := ops_refund_initiated\<rparr>)) (\<lambda>_.
                     revert_cart (or_cartId r)))
                else treturn ()) (\<lambda>_.
         tbind (createRefundIntent
                  \<lparr>ri_orderId = or_id r, ri_paymentId = py_id p, ri_amountPaise = ge_amountPaise event,
                   ri_reason = ''stock_shortfall'', ri_createdByUserId = None\<rparr>) (\<lambda>(refundId, created).
         tbind (if created then tbind (insertOrderEvent system_actor_ctx (or_id r) ''payment.refund_initiated''
                    (JObject [(''refundId'', JString (show_uuid refundId)), (''amountPaise'', JNumber (ge_amountPaise event)),
                              (''reason'', JString ''stock_shortfall'')])) (\<lambda>_. treturn ())
                else treturn ()) (\<lambda>_.
         treturn (Some (or_id r)))))))"

definition oversoldCancel :: "gateway_event \<Rightarrow> unit dbaction" where
  "oversoldCancel event =
     abind (commit (oversoldTx event)) (\<lambda>result.
     case result of None \<Rightarrow> areturn () | Some oid \<Rightarrow> release_softly oid)"

definition processCaptured :: "gateway_event \<Rightarrow> uuid \<Rightarrow> unit dbaction" where
  "processCaptured event webhookEventId =
     abind loadSellerIdentity (\<lambda>seller.
     abind readCheckoutSettings (\<lambda>settings.
     acatch (abind (commit (capturedTx event webhookEventId seller settings)) (\<lambda>_. areturn ())) (\<lambda>e.
       if isStockFailure e then oversoldCancel event else athrow e)))"

definition processFailed :: "gateway_event \<Rightarrow> unit dbaction" where
  "processFailed event = commit (
     tbind (resolve_event event) (\<lambda>resolved.
     case resolved of
       None \<Rightarrow> treturn ()
     | Some (r, p) \<Rightarrow>
         if py_status p = pay_captured then treturn () else
         tbind (markPaymentFailed (py_id p) (ge_errorCode event) (ge_errorDescription event)) (\<lambda>_.
         tbind (insertOrderEvent system_actor_ctx (or_id r) ''payment.failed''
           (JObject [(''errorCode'', case ge_errorCode event of Some c \<Rightarrow> JString c | None \<Rightarrow> JNull)])) (\<lambda>_.
         treturn ()))))"

definition processRefundProcessed :: "gateway_event \<Rightarrow> unit dbaction" where
  "processRefundProcessed event =
    (case ge_gatewayRefundId event of
       None \<Rightarrow> areturn ()
     | Some gatewayRefundId \<Rightarrow>
         if gatewayRefundId = [] then areturn () else commit (
           tbind (markRefundProcessed gatewayRefundId) (\<lambda>hit.
           case hit of
             None \<Rightarrow> treturn ()
           | Some (refundId, oid) \<Rightarrow>
               tbind (update_order oid (\<lambda>r. r\<lparr>or_paymentStatus := ops_refunded\<rparr>)) (\<lambda>_.
               tbind (insertOrderEvent system_actor_ctx oid ''order.refunded''
                 (JObject [(''refundId'', JString (show_uuid refundId)), (''gatewayRefundId'', JString gatewayRefundId)])) (\<lambda>_.
               treturn ())))))"

definition confirmFromWebhookEvent :: "uuid \<Rightarrow> gateway_event \<Rightarrow> unit dbaction" where
  "confirmFromWebhookEvent webhookEventId event =
    (if ge_type event = ''payment.captured'' then processCaptured event webhookEventId
     else if ge_type event = ''payment.failed'' then processFailed event
     else if ge_type event = ''refund.processed'' then processRefundProcessed event
     else areturn ())"

section \<open>Expiry and the console cancel\<close>

datatype expiry_outcome = expiry_abandoned | still_pending | already_final

definition expireTx :: "uuid \<Rightarrow> expiry_outcome dbtx" where
  "expireTx oid =
     tbind (lockOrder oid) (\<lambda>found.
     case (case found of Some r \<Rightarrow> if or_status r = pending_payment then Some r else None | None \<Rightarrow> None) of
       None \<Rightarrow> treturn already_final
     | Some r \<Rightarrow>
         tbind (tread (\<lambda>db. case or_expiresAt r of Some t \<Rightarrow> t > db_now db | None \<Rightarrow> False)) (\<lambda>live.
         if live then treturn still_pending else
         tbind (transitionOrder system_actor_ctx oid (or_status r) abandoned ''order.abandoned''
                  (JObject [(''orderNumber'', JNumber (or_orderNumber r))])) (\<lambda>_.
         tbind (revert_cart (or_cartId r)) (\<lambda>_.
         treturn expiry_abandoned))))"

definition expireCheckout :: "uuid \<Rightarrow> expiry_outcome dbaction" where
  "expireCheckout oid =
     abind (commit (expireTx oid)) (\<lambda>outcome.
     if outcome = expiry_abandoned then abind (release_softly oid) (\<lambda>_. areturn outcome) else areturn outcome)"

definition CANCELLABLE_BY_STAFF :: "order_status list" where
  "CANCELLABLE_BY_STAFF = [confirmed, processing]"

definition restock_live :: "uuid \<Rightarrow> unit dbtx" where
  "restock_live oid =
     tbind (tread (\<lambda>db. filter (\<lambda>l. find_variant db (hl_variantId l) \<noteq> None) (holdLinesOf (loadOrderLines db oid)))) (\<lambda>lines.
     if lines = [] then treturn ()
     else tbind (restockWithin lines \<lparr>rf_type = ''order'', rf_refId = oid\<rparr>) (\<lambda>_. treturn ()))"

text \<open>The insert-once refund intent of a cancel, when money was captured.\<close>

definition refund_cancelled :: "order_actor \<Rightarrow> order_row \<Rightarrow> unit dbtx" where
  "refund_cancelled actor r =
    (if \<not> or_amountPaidPaise r > 0 then treturn () else
     tbind (tread (\<lambda>db. find (\<lambda>p. py_orderId p = or_id r \<and> py_status p = pay_captured) (rev (db_payments db)))) (\<lambda>captured.
     case captured of
       None \<Rightarrow> treturn ()
     | Some p \<Rightarrow>
         tbind (createRefundIntent
                  \<lparr>ri_orderId = or_id r, ri_paymentId = py_id p, ri_amountPaise = py_amountPaise p,
                   ri_reason = ''merchant_cancelled'', ri_createdByUserId = oa_actorUserId actor\<rparr>) (\<lambda>(refundId, created).
         tbind (update_order (or_id r) (\<lambda>r'. r'\<lparr>or_paymentStatus := ops_refund_initiated\<rparr>)) (\<lambda>_.
         if created then tbind (insertOrderEvent actor (or_id r) ''payment.refund_initiated''
             (JObject [(''refundId'', JString (show_uuid refundId)), (''amountPaise'', JNumber (py_amountPaise p)),
                       (''reason'', JString ''merchant_cancelled'')])) (\<lambda>_. treturn ())
         else treturn ()))))"

definition cancelOrder :: "uuid \<Rightarrow> uuid \<Rightarrow> string option \<Rightarrow> unit dbaction" where
  "cancelOrder actorUserId oid reason = commit (
     let actor = \<lparr>oa_actorType = staff, oa_actorUserId = Some actorUserId\<rparr>;
         given = (case reason of Some x \<Rightarrow> JString x | None \<Rightarrow> JNull) in
     tbind (lockOrder oid) (\<lambda>found.
     case found of
       None \<Rightarrow> tthrow notFound
     | Some r \<Rightarrow>
         tbind (tguard (or_status r \<in> set CANCELLABLE_BY_STAFF) invalidTransitionRefusal) (\<lambda>_.
         tbind (restock_live oid) (\<lambda>_.
         tbind (transitionOrder actor oid (or_status r) cancelled ''order.cancelled''
                  (JObject [(''reason'', given), (''orderNumber'', JNumber (or_orderNumber r))])) (\<lambda>_.
         tbind (update_order oid (\<lambda>r'. r'\<lparr>or_cancelReason := Some (case trim_or_null reason of Some x \<Rightarrow> x | None \<Rightarrow> ''merchant_cancelled'')\<rparr>)) (\<lambda>_.
         tbind (refund_cancelled actor r) (\<lambda>_.
         recordAudit
           \<lparr>ae_actorType = staff, ae_actorUserId = Some actorUserId, ae_action = ''order.cancelled'',
            ae_entityType = ''order'', ae_entityId = Some oid,
            ae_before = JObject [(''status'', JString (order_status_text (or_status r)))],
            ae_after = JObject [(''status'', JString ''cancelled''), (''reason'', given)]\<rparr>)))))))"

end
