(* ===== verification/CheckoutLaws.thy ===== *)
theory CheckoutLaws
  imports CheckoutFlows StockPromises
begin

text \<open>
  What an invariant of the order books has to promise, and what follows from it.  The books are the
  tables the money lives in: orders with their lines and events, payments, refunds, redemptions,
  invoices and the two counters; with them go the cart lines, which only the cart writes.  An
  invariant of the books is untouched by everything else (locale \<open>book_invariant\<close>); when every
  transaction that writes the books keeps it, so does every handler of the shop and every sequence of
  them (locale \<open>commerce_invariant\<close>).
\<close>

section \<open>The operations of the shop\<close>

text \<open>
  Whole handlers, and the transactions they are made of, so that a sequence of operations also
  describes handlers interleaved at their commits.
\<close>

datatype commerce_op =
    CoStart "string \<Rightarrow> bool" gateway uuid checkout_payload
  | CoCreate uuid clean_checkout tenant_row checkout_settings
  | CoCancelPending uuid string string json
  | CoConfirm uuid
  | CoPay gateway uuid payment_account_row paise
  | CoExtend uuid
  | CoWebhook uuid gateway_event
  | CoExpire uuid
  | CoCancel uuid uuid "string option"
  | CoManual uuid uuid order_status
  | CoRefundSent uuid string
  | CoEvidence webhook_input
  | CoPromoCreate uuid promotion_input
  | CoPromoUpdate uuid uuid promotion_input
  | CoPromoArchive uuid uuid
  | CoStock stock_op

fun exec_commerce :: "commerce_op \<Rightarrow> db \<Rightarrow> db" where
  "exec_commerce (CoStart email_ok gateway cartId payload) db = snd (startCheckout email_ok gateway cartId payload db)"
| "exec_commerce (CoCreate cartId clean seller settings) db = snd (commit (createOrderTx cartId clean seller settings) db)"
| "exec_commerce (CoCancelPending oid reason name data) db = snd (cancelPendingOrder oid reason name data db)"
| "exec_commerce (CoConfirm oid) db = snd (confirmCodOrder oid db)"
| "exec_commerce (CoPay gateway oid account amountPaise) db = snd (startGatewayPayment gateway oid account amountPaise db)"
| "exec_commerce (CoExtend oid) db = snd (commit (extend_ttl oid) db)"
| "exec_commerce (CoWebhook wid event) db = snd (confirmFromWebhookEvent wid event db)"
| "exec_commerce (CoExpire oid) db = snd (expireCheckout oid db)"
| "exec_commerce (CoCancel u oid reason) db = snd (cancelOrder u oid reason db)"
| "exec_commerce (CoManual u oid to) db = snd (manualTransition u oid to db)"
| "exec_commerce (CoRefundSent rid ref) db = snd (markRefundProcessing rid ref db)"
| "exec_commerce (CoEvidence input) db = snd (recordWebhookEvent input db)"
| "exec_commerce (CoPromoCreate u input) db = snd (createPromotion u input db)"
| "exec_commerce (CoPromoUpdate u pid input) db = snd (updatePromotion u pid input db)"
| "exec_commerce (CoPromoArchive u pid) db = snd (archivePromotion u pid db)"
| "exec_commerce (CoStock op) db = exec_stock op db"

section \<open>Off the books\<close>

definition books :: "db \<Rightarrow> db" where
  "books db = (empty_db 0 (\<lambda>_. 0))
     \<lparr>db_orderCounter := db_orderCounter db, db_orders := db_orders db, db_orderLines := db_orderLines db,
      db_orderEvents := db_orderEvents db, db_payments := db_payments db, db_refunds := db_refunds db,
      db_invoiceSeries := db_invoiceSeries db, db_invoices := db_invoices db, db_redemptions := db_redemptions db,
      db_cartLines := db_cartLines db\<rparr>"

locale book_invariant =
  fixes I :: "db \<Rightarrow> bool"
  assumes about_books: "I (books db) = I db"
begin

lemma same_books: "books db' = books db \<Longrightarrow> I db' = I db"
  using about_books[of db] about_books[of db'] by simp

lemma keeps_off_books: "(\<And>db. books (f db) = books db) \<Longrightarrow> keeps I (twrite f)"
  by (rule keeps_write) (blast dest: same_books)

lemma off_draw: "keeps I draw_uuid"
proof (rule keepsI)
  fix db x db' assume "I db" and d: "draw_uuid db = Inr (x, db')"
  moreover have "books db' = books db" using d by (auto simp: books_def)
  ultimately show "I db'" by (blast dest: same_books)
qed

lemma off_audit: "keeps I (recordAudit e)"
  unfolding recordAudit_def by (rule keeps_off_books) (simp add: books_def)

lemma off_location: "keeps I ensureDefaultLocation"
  unfolding ensureDefaultLocation_def by (intro keeps_rules off_draw keeps_off_books) (simp add: books_def)

lemma off_delete: "keeps I (deleteReservations P)"
  unfolding deleteReservations_def by (intro keeps_rules keeps_off_books) (simp add: books_def)

lemma off_reserve: "keeps I (insertReservation row)"
  unfolding insertReservation_def by (intro keeps_rules keeps_off_books) (simp add: books_def)

lemma off_move: "keeps I (applyMovement args)"
  unfolding applyMovement_def insertMovement_def projectLevel_def
  by (intro keeps_rules off_draw keeps_off_books) (simp_all add: books_def)

lemmas off_books = off_draw off_audit off_location off_delete off_reserve off_move

lemma keeps_variants: "keeps I (loadLineVariants ids)"
  unfolding loadLineVariants_def by (intro keeps_rules)

lemma keeps_hold: "keeps I (holdStockTx ref lines)"
  unfolding holdStockTx_def fitLine_def Let_def by (intro keeps_rules off_books keeps_variants)

lemma akeeps_hold: "akeeps I (holdStock ref lines)"
  unfolding holdStock_def by (intro keeps_rules keeps_hold)

lemma akeeps_release: "akeeps I (releaseStock ref)"
  unfolding releaseStock_def by (intro keeps_rules off_books)

lemma keeps_consume: "keeps I (consumeStockWithin ref lines)"
  unfolding consumeStockWithin_def consumeLine_def Let_def by (intro keeps_rules off_books keeps_variants)

lemma keeps_restock: "keeps I (restockWithin lines ref)"
  unfolding restockWithin_def restockLine_def Let_def by (intro keeps_rules off_books keeps_variants)

lemma keeps_customer: "keeps I (upsertCustomerByPhone phone name email)"
  unfolding upsertCustomerByPhone_def by (intro keeps_rules off_books keeps_off_books) (simp_all add: books_def)

lemma keeps_first_order: "keeps I (markFirstOrder cid)"
  unfolding markFirstOrder_def by (rule keeps_off_books) (simp add: books_def)

lemma keeps_cart: "keeps I (set_cart_status cartId st)" "keeps I (revert_cart c)"
  unfolding set_cart_status_def revert_cart_def by (intro keeps_rules keeps_off_books; simp add: books_def)+

lemma akeeps_release_softly: "akeeps I (release_softly oid)"
  unfolding release_softly_def by (intro keeps_rules akeeps_release)

lemma akeeps_record: "akeeps I (recordMovement u input)"
  unfolding recordMovement_def recordMovementTx_def Let_def by (intro keeps_rules off_books)

lemma akeeps_consume: "akeeps I (consumeStock ref lines)"
  unfolding consumeStock_def
  by (intro keeps_rules keeps_consume) (auto intro!: keeps_rules split: err.split)

lemma books_tick: "I (db\<lparr>db_now := n\<rparr>) = I db"
  by (rule same_books) (simp add: books_def)

lemma exec_stock_books: "I db \<Longrightarrow> I (exec_stock op db)"
  by (cases op) (simp_all add: akeepsD[OF akeeps_record] akeepsD[OF akeeps_consume] akeepsD[OF akeeps_hold]
      akeepsD[OF akeeps_release] akeepsD[OF akeeps_commit[OF keeps_restock]] books_tick)

lemma akeeps_promotions:
  "akeeps I (createPromotion u input)" "akeeps I (updatePromotion u pid input)" "akeeps I (archivePromotion u pid)"
  unfolding createPromotion_def updatePromotion_def archivePromotion_def promotion_audit_def
  by (intro keeps_rules off_books keeps_off_books; simp add: books_def)+

lemma akeeps_evidence: "akeeps I (recordWebhookEvent input)"
  unfolding recordWebhookEvent_def
  by (intro keeps_rules off_books keeps_off_books) (simp add: books_def)

end

section \<open>On the books\<close>

locale commerce_invariant = book_invariant +
  assumes place: "keeps I (place_order cartId clean rows promotion cid am)"
    and cancel_pending: "keeps I (cancelPendingTx oid reason name data)"
    and confirm_cod: "keeps I (confirmCodTx oid seller settings)"
    and gateway_order: "minted \<noteq> [] \<Longrightarrow> keeps I (recordGatewayOrder oid account amountPaise minted)"
    and extend: "keeps I (extend_ttl oid)"
    and captured: "keeps I (capturedTx event wid seller settings)"
    and oversold: "I db \<Longrightarrow> capturedTx event wid seller settings db = Inl e \<Longrightarrow> isStockFailure e \<Longrightarrow>
        oversoldTx event db = Inr (x, db') \<Longrightarrow> I db'"
    and failed: "akeeps I (processFailed event)"
    and refund_processed: "akeeps I (processRefundProcessed event)"
    and refund_sent: "akeeps I (markRefundProcessing rid ref)"
    and expire: "keeps I (expireTx oid)"
    and cancel: "akeeps I (cancelOrder u oid given)"
    and manual: "akeeps I (manualTransition u oid to)"
begin

lemma akeeps_loads: "akeeps I loadSellerIdentity" "akeeps I readCheckoutSettings"
  unfolding loadSellerIdentity_def readCheckoutSettings_def by (intro keeps_rules)+

lemma akeeps_cancel_pending: "akeeps I (cancelPendingOrder oid reason name data)"
  unfolding cancelPendingOrder_def by (intro keeps_rules cancel_pending akeeps_release_softly)

lemma akeeps_confirm: "akeeps I (confirmCodOrder oid)"
  unfolding confirmCodOrder_def stockFailureToBuyerError_def
  by (intro keeps_rules akeeps_loads confirm_cod akeeps_cancel_pending) (auto intro!: keeps_rules split: err.split)

lemma akeeps_hold_or_cancel: "akeeps I (hold_or_cancel oid lines)"
  unfolding hold_or_cancel_def
  by (intro keeps_rules akeeps_hold) (auto intro!: keeps_rules akeeps_cancel_pending split: err.split)

lemma akeeps_pay: "akeeps I (startGatewayPayment gateway oid account amountPaise)"
  unfolding startGatewayPayment_def storedGatewayRef_def lockOrder_def
  by (rule akeeps_bind, intro keeps_rules, rule akeeps_case_option, rule akeeps_bind_lift, intro keeps_rules gateway_order)
    (auto simp: createGatewayOrder_def requireStringId_def rbind_eq_Inr intro: akeeps_return split: if_splits)

lemma akeeps_replay: "akeeps I (replayCheckout gateway r clean)"
  unfolding replayCheckout_def replay_pending_def finish_confirmation_def getEnabledAccount_def Let_def
  by (intro keeps_rules akeeps_hold_or_cancel extend akeeps_release_softly akeeps_confirm akeeps_pay)

lemma keeps_create: "keeps I (createOrderTx cartId clean seller settings)"
  unfolding createOrderTx_def loadActivePromotionForUpdate_def apply_coupon_def check_coupon_caps_def Let_def
  by (intro keeps_rules keeps_customer place)

lemma akeeps_start: "akeeps I (startCheckout email_ok gateway cartId payload)"
  unfolding startCheckout_def order_by_key_def create_or_replay_def continue_checkout_def getEnabledAccount_def
  by (intro keeps_rules akeeps_loads akeeps_replay keeps_create akeeps_hold_or_cancel akeeps_confirm
      akeeps_cancel_pending akeeps_pay)

lemma akeeps_captured: "akeeps I (processCaptured event wid)"
proof -
  have main: "akeeps I (acatch (abind (commit (capturedTx event wid seller settings)) (\<lambda>_. areturn ()))
      (\<lambda>e. if isStockFailure e then oversoldCancel event else athrow e))" for seller settings
    unfolding akeeps_def
  proof (intro allI impI)
    fix db assume ok: "I db"
    show "I (snd (acatch (abind (commit (capturedTx event wid seller settings)) (\<lambda>_. areturn ()))
      (\<lambda>e. if isStockFailure e then oversoldCancel event else athrow e) db))"
    proof (cases "capturedTx event wid seller settings db")
      case (Inr r)
      then show ?thesis using keepsD[OF captured ok] by (cases r) (simp add: acatch_def abind_def commit_def areturn_def)
    next
      case (Inl e)
      have "I (snd (oversoldCancel event db))" if "isStockFailure e"
      proof (cases "oversoldTx event db")
        case (Inr r)
        then have "I (snd r)" using oversold[OF ok Inl that] by (cases r) simp
        then show ?thesis using Inr akeepsD[OF akeeps_release_softly]
          by (cases r) (simp add: oversoldCancel_def abind_def commit_def areturn_def split: option.split)
      qed (use ok in \<open>simp add: oversoldCancel_def abind_def commit_def\<close>)
      then show ?thesis using Inl ok by (simp add: acatch_def abind_def commit_def athrow_def)
    qed
  qed
  show ?thesis unfolding processCaptured_def by (intro akeeps_bind akeeps_loads main)
qed

lemma akeeps_webhook: "akeeps I (confirmFromWebhookEvent wid event)"
  unfolding confirmFromWebhookEvent_def by (intro keeps_rules akeeps_captured failed refund_processed)

lemma akeeps_expire: "akeeps I (expireCheckout oid)"
  unfolding expireCheckout_def by (intro keeps_rules expire akeeps_release_softly)

lemma exec_keeps: "I db \<Longrightarrow> I (exec_commerce op db)"
  by (cases op)
    (simp_all add: exec_stock_books akeepsD[OF akeeps_start] akeepsD[OF akeeps_commit[OF keeps_create]]
      akeepsD[OF akeeps_cancel_pending] akeepsD[OF akeeps_confirm] akeepsD[OF akeeps_pay]
      akeepsD[OF akeeps_commit[OF extend]] akeepsD[OF akeeps_webhook] akeepsD[OF akeeps_expire]
      akeepsD[OF cancel] akeepsD[OF manual] akeepsD[OF refund_sent] akeepsD[OF akeeps_evidence]
      akeepsD[OF akeeps_promotions(1)] akeepsD[OF akeeps_promotions(2)] akeepsD[OF akeeps_promotions(3)])

end

sublocale commerce_invariant \<subseteq> shop: invariant_system exec_commerce I
  by unfold_locales (rule exec_keeps)

end
