(* ===== verification/BookParts.thy ===== *)
theory BookParts
  imports CheckoutLaws
begin

text \<open>
  Most invariants of the books are kept by each writer of a table on its own, wherever a handler
  calls it.  \<open>book_parts\<close> lists those writers; whoever meets it meets \<open>commerce_invariant\<close>, so it
  holds along every sequence of the shop's operations.
\<close>

text \<open>The columns of an order no payment, cancellation reason or time-to-live touches.\<close>

definition frozen :: "order_row \<Rightarrow> order_row" where
  "frozen r = r\<lparr>or_paymentStatus := ops_pending, or_amountPaidPaise := 0, or_codDuePaise := 0, or_cancelReason := None,
     or_paymentProvider := None, or_gatewayOrderRef := None, or_expiresAt := None\<rparr>"

locale book_parts = book_invariant +
  assumes place: "keeps I (place_order cartId clean rows promotion cid am)"
    and transition: "keeps I (transitionOrder actor oid from to name data)"
    and event: "keeps I (insertOrderEvent actor oid name data)"
    and touch: "(\<And>db r. frozen (f db r) = frozen r) \<Longrightarrow>
        keeps I (twrite (\<lambda>db. db\<lparr>db_orders := upd P (f db) (db_orders db)\<rparr>))"
    and payment: "keeps I (insertPayment pin)"
    and capture: "keeps I (markPaymentCaptured pid cap)"
    and failure: "keeps I (markPaymentFailed pid code description)"
    and refund: "keeps I (createRefundIntent ri)"
    and refund_moves: "st \<noteq> refund_pending \<Longrightarrow> keeps I (twrite (\<lambda>db. db\<lparr>db_refunds := upd Q (\<lambda>f. f\<lparr>rf_status := st, rf_gatewayRefundId := g f\<rparr>) (db_refunds db)\<rparr>))"
    and claim: "keeps I (claimRedemption promo oid customerId discountPaise)"
    and invoice: "keeps I (createInvoice ii)"
begin

lemma update: "(\<And>r. frozen (f r) = frozen r) \<Longrightarrow> keeps I (update_order oid f)"
  unfolding update_order_def by (rule touch)

lemma keeps_gateway_ref: "keeps I (set_gateway_ref oid ref provider)"
  unfolding set_gateway_ref_def by (intro keeps_rules update) (simp add: frozen_def)

lemma keeps_capture_onto: "keeps I (captureOntoPayment pid event)"
  unfolding captureOntoPayment_def by (rule capture)

lemma keeps_resolve: "keeps I (resolve_event event)"
  unfolding resolve_event_def by (rule keeps_read)

lemma keeps_coupon: "keeps I (claim_coupon actor r mode)"
  unfolding claim_coupon_def by (intro keeps_rules claim event) (auto intro!: keeps_rules event split: claim.split)

lemma keeps_core: "keeps I (confirmOrderCore actor r lines seller settings mode)"
  unfolding confirmOrderCore_def
  by (intro keeps_rules keeps_consume transition keeps_coupon invoice keeps_first_order off_audit)

lemma keeps_restock_live: "keeps I (restock_live oid)"
  unfolding restock_live_def by (intro keeps_rules keeps_restock)

lemma keeps_refund_cancelled: "keeps I (refund_cancelled actor r)"
  unfolding refund_cancelled_def by (intro keeps_rules refund event update) (simp add: frozen_def)

lemma keeps_refund_processed: "keeps I (markRefundProcessed ref)"
proof -
  have "keeps I (twrite (\<lambda>db. db\<lparr>db_refunds := upd (refund_open ref) (\<lambda>f. f\<lparr>rf_status := refund_processed\<rparr>) (db_refunds db)\<rparr>))"
    using refund_moves[where Q = "refund_open ref" and st = refund_processed and g = rf_gatewayRefundId] by simp
  then show ?thesis unfolding markRefundProcessed_def by (intro keeps_rules)
qed

end

sublocale book_parts \<subseteq> whole: commerce_invariant
proof
  show "keeps I (place_order cartId clean rows promotion cid am)" for cartId clean rows promotion cid am
    by (rule place)
  show "keeps I (cancelPendingTx oid reason name data)" for oid reason name data
    unfolding cancelPendingTx_def lockOrder_def
    by (intro keeps_rules transition keeps_cart update) (simp add: frozen_def)
  show "keeps I (confirmCodTx oid seller settings)" for oid seller settings
    unfolding confirmCodTx_def lockOrder_def by (intro keeps_rules keeps_core update) (simp add: frozen_def)
  show "keeps I (recordGatewayOrder oid account amountPaise minted)" for oid account amountPaise minted
    unfolding recordGatewayOrder_def storedGatewayRef_def lockOrder_def
    by (intro keeps_rules payment keeps_gateway_ref)
  show "keeps I (extend_ttl oid)" for oid
    unfolding extend_ttl_def lockOrder_def by (intro keeps_rules touch) (simp add: frozen_def)
  show "keeps I (capturedTx event wid seller settings)" for event wid seller settings
    unfolding capturedTx_def captureMismatch_def lateCapture_def confirmCapture_def Let_def
    by (intro keeps_rules keeps_resolve failure event keeps_capture_onto update refund keeps_core)
      (simp_all add: frozen_def)
  have ov: "keeps I (oversoldTx event)" for event
    unfolding oversoldTx_def
    by (intro keeps_rules keeps_resolve keeps_capture_onto update transition keeps_cart refund event)
      (simp_all add: frozen_def)
  show "I db'" if "I db" "oversoldTx event db = Inr (x, db')" for event db x db'
    by (rule keepsD[OF ov that])
  show "akeeps I (processFailed event)" for event
    unfolding processFailed_def by (intro keeps_rules keeps_resolve failure event)
  show "akeeps I (processRefundProcessed event)" for event
    unfolding processRefundProcessed_def
    by (intro keeps_rules keeps_refund_processed update event) (simp add: frozen_def)
  show "akeeps I (markRefundProcessing rid ref)" for rid ref
    unfolding markRefundProcessing_def by (intro keeps_rules refund_moves) simp
  show "keeps I (expireTx oid)" for oid
    unfolding expireTx_def lockOrder_def by (intro keeps_rules transition keeps_cart)
  show "akeeps I (cancelOrder u oid given)" for u oid given
    unfolding cancelOrder_def lockOrder_def Let_def
    by (intro keeps_rules keeps_restock_live transition update keeps_refund_cancelled off_audit) (simp add: frozen_def)
  show "akeeps I (manualTransition u oid to)" for u oid to
    unfolding manualTransition_def lockOrder_def
    by (intro keeps_rules transition update off_audit) (simp add: frozen_def)
qed

section \<open>Writers of one table\<close>

text \<open>A transaction is off what \<open>hide\<close> leaves of the books when it never changes it.\<close>

definition off :: "(db \<Rightarrow> db) \<Rightarrow> 'a dbtx \<Rightarrow> bool" where
  "off hide m \<longleftrightarrow> (\<forall>c. keeps (\<lambda>db. hide (books db) = c) m)"

lemma offI: "(\<And>c. keeps (\<lambda>db. hide (books db) = c) m) \<Longrightarrow> off hide m"
  by (simp add: off_def)

lemma keeps_off: "off hide m \<Longrightarrow> (\<And>db. I (hide (books db)) = I db) \<Longrightarrow> keeps I m"
  unfolding off_def keeps_def hoare_def by metis

definition no_payments :: "db \<Rightarrow> db" where "no_payments db = db\<lparr>db_payments := []\<rparr>"
definition no_refunds :: "db \<Rightarrow> db" where "no_refunds db = db\<lparr>db_refunds := []\<rparr>"
definition no_redemptions :: "db \<Rightarrow> db" where "no_redemptions db = db\<lparr>db_redemptions := []\<rparr>"
definition no_invoices :: "db \<Rightarrow> db" where "no_invoices db = db\<lparr>db_invoices := [], db_invoiceSeries := []\<rparr>"
definition no_orders :: "db \<Rightarrow> db" where
  "no_orders db = db\<lparr>db_orderCounter := None, db_orders := [], db_orderLines := [], db_orderEvents := []\<rparr>"

lemmas hide_defs = no_payments_def no_refunds_def no_redemptions_def no_invoices_def no_orders_def books_def

lemma keeps_hidden: "(\<And>db. hide (books (f db)) = hide (books db)) \<Longrightarrow> keeps (\<lambda>db. hide (books db) = c) (twrite f)"
  by (rule keeps_write) simp

lemma keeps_hidden_draw: "keeps (\<lambda>db. hide (books db) = c) draw_uuid"
  by (rule keepsI) (auto simp: books_def)

lemmas hidden_rules = keeps_rules keeps_hidden keeps_hidden_draw

lemma off_payment: "off no_payments (insertPayment pin)"
  unfolding insertPayment_def by (intro offI hidden_rules) (simp add: hide_defs)

lemma off_capture: "off no_payments (markPaymentCaptured pid cap)"
  unfolding markPaymentCaptured_def by (intro offI hidden_rules) (simp add: hide_defs)

lemma off_failure: "off no_payments (markPaymentFailed pid code description)"
  unfolding markPaymentFailed_def by (intro offI hidden_rules) (simp add: hide_defs)

lemma off_refund: "off no_refunds (createRefundIntent ri)"
  unfolding createRefundIntent_def by (intro offI hidden_rules) (simp add: hide_defs)

lemma off_refund_moves: "off no_refunds (twrite (\<lambda>db. db\<lparr>db_refunds := upd Q (g db) (db_refunds db)\<rparr>))"
  by (intro offI hidden_rules) (simp add: hide_defs)

lemma off_claim: "off no_redemptions (claimRedemption promo oid customerId discountPaise)"
  unfolding claimRedemption_def insert_redemption_def by (intro offI hidden_rules) (simp add: hide_defs)

lemma off_invoice: "off no_invoices (createInvoice ii)"
  unfolding createInvoice_def insert_invoice_def allocateInvoiceNumber_def ensure_series_def Let_def
  by (intro offI hidden_rules) (simp_all add: hide_defs split: option.split)

lemma off_place: "off no_orders (place_order cartId clean rows promotion cid am)"
  unfolding place_order_def nextOrderNumber_def insert_order_def insert_order_lines_def insert_event_def set_cart_status_def
  by (intro offI hidden_rules) (simp_all add: hide_defs split: option.split)

lemma off_transition: "off no_orders (transitionOrder actor oid from to name data)"
  unfolding transitionOrder_def insert_event_def by (intro offI hidden_rules) (simp_all add: hide_defs)

lemma off_event: "off no_orders (insertOrderEvent actor oid name data)"
  unfolding insertOrderEvent_def insert_event_def by (intro offI hidden_rules) (simp_all add: hide_defs)

lemma off_touch: "off no_orders (twrite (\<lambda>db. db\<lparr>db_orders := upd P (f db) (db_orders db)\<rparr>))"
  by (intro offI hidden_rules) (simp add: hide_defs)

lemmas off_tables = off_payment off_capture off_failure off_refund off_refund_moves off_claim off_invoice
  off_place off_transition off_event off_touch

end
