(* ===== verification/SampleShop.thy ===== *)
theory SampleShop
  imports CheckoutLaws
begin

text \<open>
  A small shop the theorems are applied to: one GST-registered seller, one tracked variant with ten
  on the shelf, one order of two units waiting for its payment, and the gateway attempt that will
  pay for it.  \<open>shop_eval\<close> computes the handlers on it.
\<close>

definition sample_tenant :: tenant_row where
  "sample_tenant = \<lparr>tn_legalName = ''Acme'', tn_gstin = None, tn_originStateCode = Some ''29'',
     tn_taxRegistrationType = regular\<rparr>"

definition sample_address :: address where
  "sample_address = \<lparr>ad_line1 = ''1 Road'', ad_line2 = None, ad_city = ''Bengaluru'', ad_stateCode = ''29'',
     ad_pincode = ''560001''\<rparr>"

definition sample_order :: "checkout_payment_mode \<Rightarrow> order_row" where
  "sample_order mode =
     \<lparr>or_id = 50, or_orderNumber = 1001, or_channel = web, or_status = pending_payment,
      or_paymentStatus = ops_pending, or_fulfilmentStatus = ful_unfulfilled, or_cartId = Some 3,
      or_customerId = Some 7, or_idempotencyKey = Some ''key-0001'', or_checkoutFingerprint = None,
      or_buyerName = ''Asha'', or_buyerPhoneE164 = ''+919800000000'', or_buyerEmail = None,
      or_shippingAddress = sample_address, or_placeOfSupply = ''29'', or_buyerGstin = None, or_paymentMode = mode,
      or_subtotalPaise = 23600, or_discountPaise = 0, or_shippingPaise = 0, or_taxPaise = 3600, or_totalPaise = 23600,
      or_amountPaidPaise = 0, or_codDuePaise = (if mode = cod then 23600 else 0), or_promotionId = None,
      or_couponCodeSnapshot = None, or_paymentProvider = (if mode = cod then None else Some razorpay),
      or_gatewayOrderRef = (if mode = cod then None else Some ''order_gw''), or_placedAt = 0, or_confirmedAt = None,
      or_cancelledAt = None, or_cancelReason = None, or_expiresAt = Some 1500000\<rparr>"

definition sample_line :: order_line_row where
  "sample_line =
     \<lparr>ol_id = 51, ol_orderId = 50, ol_kind = item_line, ol_variantId = Some 11, ol_titleSnapshot = ''Mug'',
      ol_skuSnapshot = ''SKU'', ol_hsnSnapshot = None, ol_quantity = 2, ol_unitPricePaise = 11800, ol_discountPaise = 0,
      ol_taxablePaise = 20000, ol_taxRateBps = 1800, ol_cgstPaise = 1800, ol_sgstPaise = 1800, ol_igstPaise = 0,
      ol_taxPaise = 3600, ol_totalPaise = 23600, ol_position = 0\<rparr>"

definition sample_placed_event :: order_event_row where
  "sample_placed_event =
     \<lparr>oe_id = 52, oe_orderId = 50, oe_event = ''order.placed'', oe_fromStatus = None, oe_toStatus = Some pending_payment,
      oe_actorType = customer_actor, oe_actorUserId = None, oe_data = JNull\<rparr>"

definition sample_payment :: payment_row where
  "sample_payment =
     \<lparr>py_id = 60, py_orderId = 50, py_paymentAccountId = 61, py_providerCode = razorpay, py_status = pay_created,
      py_amountPaise = 23600, py_gatewayOrderId = Some ''order_gw'', py_gatewayPaymentId = None, py_method = None,
      py_feePaise = None, py_feeTaxPaise = None, py_errorCode = None, py_errorDescription = None, py_capturedAt = None\<rparr>"

text \<open>The shop with the order pending; \<open>now\<close> is the clock and \<open>stock\<close> what is on the shelf.\<close>

definition sample_shop :: "checkout_payment_mode \<Rightarrow> millis \<Rightarrow> int \<Rightarrow> db" where
  "sample_shop mode now stock = (empty_db now (\<lambda>n. 9000 + n))
     \<lparr>db_tenant := Some sample_tenant, db_variants := [sample_variant 11 True],
      db_locations := [\<lparr>loc_id = 8, loc_isDefault = True\<rparr>],
      db_movements := [\<lparr>sm_id = 9, sm_variantId = 11, sm_locationId = 8, sm_delta = stock, sm_reason = opening_balance,
        sm_note = None, sm_referenceType = None, sm_referenceId = None, sm_idempotencyKey = None, sm_createdByUserId = None\<rparr>],
      db_levels := [\<lparr>sl_variantId = 11, sl_locationId = 8, sl_onHand = stock\<rparr>],
      db_orderCounter := Some 1002, db_orders := [sample_order mode], db_orderLines := [sample_line],
      db_orderEvents := [sample_placed_event],
      db_payments := (if mode = cod then [] else [sample_payment])\<rparr>"

definition sample_capture :: gateway_event where
  "sample_capture =
     \<lparr>ge_eventId = ''evt_1'', ge_type = ''payment.captured'', ge_gatewayOrderId = ''order_gw'',
      ge_gatewayPaymentId = Some ''pay_gw'', ge_gatewayRefundId = None, ge_amountPaise = 23600, ge_method = None,
      ge_feePaise = None, ge_feeTaxPaise = None, ge_errorCode = None, ge_errorDescription = None\<rparr>"

lemmas shop_eval = stock_eval sample_shop_def sample_tenant_def sample_address_def sample_order_def sample_line_def
  sample_placed_event_def sample_payment_def sample_capture_def alift_def lockOrder_def find_order_def update_order_def
  transitionOrder_def assertTransition_def canTransition_def insertOrderEvent_def insert_event_def move_order_def
  revert_cart_def release_softly_def releaseStock_def deleteReservations_def checkout_ref_def
  system_actor_ctx_def customer_actor_ctx_def ensure_def

lemma expire_sample:
  "snd (expireCheckout 50 (sample_shop prepaid 2000000 10)) =
   (sample_shop prepaid 2000000 10)
     \<lparr>db_drawn := 1, db_orders := [(sample_order prepaid)\<lparr>or_status := abandoned\<rparr>],
      db_orderEvents := [sample_placed_event,
        \<lparr>oe_id = 9000, oe_orderId = 50, oe_event = ''order.abandoned'', oe_fromStatus = Some pending_payment,
         oe_toStatus = Some abandoned, oe_actorType = system, oe_actorUserId = None,
         oe_data = JObject [(''orderNumber'', JNumber 1001)]\<rparr>]\<rparr>"
  by (simp add: expireCheckout_def expireTx_def shop_eval)

definition captured_sample :: db where
  "captured_sample = snd (processCaptured sample_capture 70 (sample_shop prepaid 1000 10))"

lemma sample_financial_year: "financialYearOf (Some 1000) = Inr ''1969-70''"
  by code_simp

lemma sample_invoice_number: "formatInvoiceNumber ''INV'' ''1969-70'' 1 = Inr ''INV/1969-70/0001''"
  by code_simp

lemmas confirm_eval = loadSellerIdentity_def readCheckoutSettings_def capturedTx_def resolve_event_def order_by_ref_def
  findPaymentByGatewayOrder_def confirmCapture_def captureOntoPayment_def markPaymentCaptured_def payment_known_def
  loadOrderLines_def confirmOrderCore_def holdLinesOf_def hold_of_line_def List.map_filter_def
  consumeStockWithin_def consumeLine_def claim_coupon_def createInvoice_def invoice_of_def sum_lines_def
  doc_line_def invoice_issues_def allocateInvoiceNumber_def ensure_series_def find_series_def of_series_def
  insert_invoice_def markFirstOrder_def parse_checkout_settings_def read_setting_def is_safe_integer_def max_safe_integer_def
  productIds_of_def sample_financial_year sample_invoice_number trethrow_def moved_def put_level_def movement_of_def

text \<open>The capture confirms the order; without stock it cancels it and leaves a refund intent.\<close>

lemma captured_sample_eq:
  "map or_status (db_orders captured_sample) = [confirmed] \<and> map or_amountPaidPaise (db_orders captured_sample) = [23600] \<and>
   map iv_invoiceNumber (db_invoices captured_sample) = [''INV/1969-70/0001''] \<and>
   map sl_onHand (db_levels captured_sample) = [8] \<and> map py_status (db_payments captured_sample) = [pay_captured] \<and>
   db_refunds captured_sample = []"
  unfolding captured_sample_def by (simp add: processCaptured_def shop_eval confirm_eval)

definition oversold_sample :: db where
  "oversold_sample = snd (processCaptured sample_capture 70 (sample_shop prepaid 1000 1))"

lemmas oversold_eval = isStockFailure.simps is_app_error.simps oversoldCancel_def oversoldTx_def createRefundIntent_def
  refund_of_payment_def REFUND_REASONS_def invalidPayload_def checkViolation_def

lemma oversold_sample_eq:
  "map or_status (db_orders oversold_sample) = [cancelled] \<and> map sl_onHand (db_levels oversold_sample) = [1] \<and>
   map py_status (db_payments oversold_sample) = [pay_captured] \<and>
   map rf_amountPaise (db_refunds oversold_sample) = [23600] \<and> db_invoices oversold_sample = []"
  unfolding oversold_sample_def by (simp add: processCaptured_def shop_eval confirm_eval oversold_eval)

end
