(* ===== verification/OrderHistory.thy ===== *)
theory OrderHistory
  imports BookParts SampleShop "HOL-Library.Sublist"
begin

text \<open>
  The history of orders: what a status move and a placement leave behind, and two invariants of the
  whole shop.  The order events are a timeline whose replay gives every order's status, each move
  allowed by the table; and nothing of an order's snapshot, of its lines, events or invoices is ever
  rewritten.
\<close>

section \<open>What the writers leave behind\<close>

lemma insert_event_run:
  "insert_event actor oid name from to data db = Inr (db_uuidv7 db (db_drawn db),
     db\<lparr>db_drawn := Suc (db_drawn db), db_orderEvents := db_orderEvents db @
       [\<lparr>oe_id = db_uuidv7 db (db_drawn db), oe_orderId = oid, oe_event = name, oe_fromStatus = from, oe_toStatus = to,
         oe_actorType = oa_actorType actor, oe_actorUserId = oa_actorUserId actor, oe_data = data\<rparr>]\<rparr>)"
  by (simp add: insert_event_def tbind_run)

lemma transitionOrder_Inr:
  assumes "transitionOrder actor oid from to name data db = Inr (x, db')"
  shows "canTransition from to" "\<exists>r \<in> set (db_orders db). or_id r = oid \<and> or_status r = from"
    "db_orders db' = upd (\<lambda>r. or_id r = oid \<and> or_status r = from) (move_order (db_now db) to) (db_orders db)"
    "db_orderEvents db' = db_orderEvents db @
       [\<lparr>oe_id = x, oe_orderId = oid, oe_event = name, oe_fromStatus = Some from, oe_toStatus = Some to,
         oe_actorType = oa_actorType actor, oe_actorUserId = oa_actorUserId actor, oe_data = data\<rparr>]"
    "db_orderLines db' = db_orderLines db" "db_invoices db' = db_invoices db" "db_redemptions db' = db_redemptions db"
  using assms by (auto simp: transitionOrder_def tbind_run insert_event_run list_ex_iff split: sum.splits if_splits)

lemma insert_order_Inr:
  assumes "insert_order row db = Inr (x, db')"
  shows "db' = db\<lparr>db_orders := db_orders db @ [row]\<rparr>" "\<forall>r \<in> set (db_orders db). or_id r \<noteq> or_id row"
    "or_totalPaise row = or_subtotalPaise row - or_discountPaise row + or_shippingPaise row"
    "0 \<le> or_codDuePaise row"
  using assms by (auto simp: insert_order_def tbind_run list_ex_iff split: if_splits)

text \<open>The lines come out of the insert as they went in, each with an id of its own.\<close>

lemma tfor_line_ids:
  assumes "\<And>l db. f l db = Inr (l\<lparr>ol_id := db_uuidv7 db (db_drawn db)\<rparr>, db\<lparr>db_drawn := Suc (db_drawn db)\<rparr>)"
  shows "tfor lines f db = Inr (rows, db') \<Longrightarrow>
    (\<exists>n. db' = db\<lparr>db_drawn := n\<rparr>) \<and> list_all2 (\<lambda>l r. r = l\<lparr>ol_id := ol_id r\<rparr>) lines rows"
proof (induction lines arbitrary: db rows)
  case Nil
  then show ?case by (auto intro: exI[of _ "db_drawn db"])
next
  case (Cons l ls)
  from Cons.prems obtain y db1 rs where f: "f l db = Inr (y, db1)" and rows: "rows = y # rs" and rest: "tfor ls f db1 = Inr (rs, db')"
    by (auto simp: tbind_eq_Inr)
  have "y = l\<lparr>ol_id := db_uuidv7 db (db_drawn db)\<rparr>" "db1 = db\<lparr>db_drawn := Suc (db_drawn db)\<rparr>"
    using f unfolding assms by simp_all
  then show ?case using Cons.IH[OF rest] rows by auto
qed

lemma insert_order_lines_Inr:
  assumes "insert_order_lines lines db = Inr (x, db')"
  obtains rows n where "db' = db\<lparr>db_drawn := n, db_orderLines := db_orderLines db @ rows\<rparr>"
    and "list_all2 (\<lambda>l r. r = l\<lparr>ol_id := ol_id r\<rparr>) lines rows"
proof -
  obtain rows db1 where tf: "tfor lines (\<lambda>l. tbind draw_uuid (\<lambda>lid. treturn (l\<lparr>ol_id := lid\<rparr>))) db = Inr (rows, db1)"
    and db': "db' = db1\<lparr>db_orderLines := db_orderLines db1 @ rows\<rparr>"
    using assms by (auto simp: insert_order_lines_def tbind_eq_Inr split: if_splits)
  obtain n where n: "db1 = db\<lparr>db_drawn := n\<rparr>" and rows: "list_all2 (\<lambda>l r. r = l\<lparr>ol_id := ol_id r\<rparr>) lines rows"
    using tfor_line_ids[OF _ tf] by (auto simp: tbind_run)
  show thesis by (rule that[OF _ rows, of n]) (simp add: db' n)
qed

lemma nextOrderNumber_run:
  "nextOrderNumber db = Inr (case db_orderCounter db of Some n \<Rightarrow> n | None \<Rightarrow> 1001,
     db\<lparr>db_orderCounter := Some (case db_orderCounter db of Some n \<Rightarrow> n + 1 | None \<Rightarrow> 1002)\<rparr>)"
  by (simp add: nextOrderNumber_def tbind_run split: option.split)

lemma place_order_Inr:
  assumes "place_order cartId clean rows promotion cid am db = Inr (co, db')"
  obtains row e lines where "row = new_order (co_orderId co) (co_orderNumber co) cartId cid clean promotion rows am (db_now db)"
    and "co_orderNumber co = (case db_orderCounter db of Some n \<Rightarrow> n | None \<Rightarrow> 1001)"
    and "db_orderCounter db' = Some (co_orderNumber co + 1)"
    and "db_orders db' = db_orders db @ [row]" "\<forall>r \<in> set (db_orders db). or_id r \<noteq> or_id row"
    and "or_totalPaise row = or_subtotalPaise row - or_discountPaise row + or_shippingPaise row" "0 \<le> or_codDuePaise row"
    and "db_orderEvents db' = db_orderEvents db @ [e]" "oe_orderId e = or_id row" "oe_fromStatus e = None"
    and "oe_toStatus e = Some pending_payment" "db_orderLines db' = db_orderLines db @ lines"
    and "db_invoices db' = db_invoices db" "db_invoiceSeries db' = db_invoiceSeries db"
    and "db_redemptions db' = db_redemptions db" "db_refunds db' = db_refunds db" "db_payments db' = db_payments db"
proof -
  define oid where "oid = db_uuidv7 db (db_drawn db)"
  define n where "n = (case db_orderCounter db of Some n \<Rightarrow> n | None \<Rightarrow> 1001)"
  define row where "row = new_order oid n cartId cid clean promotion rows am (db_now db)"
  define db1 where "db1 = db\<lparr>db_orderCounter := Some (n + 1), db_drawn := Suc (db_drawn db)\<rparr>"
  have db1: "nextOrderNumber db = Inr (n, db\<lparr>db_orderCounter := Some (n + 1)\<rparr>)"
    by (simp add: nextOrderNumber_run n_def split: option.split)
  obtain e db2 db3 where 2: "insert_order row db1 = Inr ((), db2)"
    and 3: "insert_order_lines (snapshot_lines oid rows (oa_lineDiscounts am) (oa_shipping am) (oa_shippingRate am) (oa_taxes am)) db2 = Inr ((), db3)"
    and co: "co_orderId co = oid" "co_orderNumber co = n"
    and e: "db_orderEvents db' = db_orderEvents db3 @ [e]" "oe_orderId e = oid" "oe_fromStatus e = None"
      "oe_toStatus e = Some pending_payment"
    and rest: "db_orders db' = db_orders db3" "db_orderCounter db' = db_orderCounter db3" "db_orderLines db' = db_orderLines db3"
      "db_invoices db' = db_invoices db3" "db_invoiceSeries db' = db_invoiceSeries db3" "db_redemptions db' = db_redemptions db3"
      "db_refunds db' = db_refunds db3" "db_payments db' = db_payments db3"
    using assms unfolding place_order_def
    by (auto simp: tbind_eq_Inr db1 insert_event_run set_cart_status_def oid_def row_def db1_def)
  note 2 = insert_order_Inr[OF 2]
  obtain more k where 3: "db3 = db2\<lparr>db_drawn := k, db_orderLines := db_orderLines db2 @ more\<rparr>"
    by (rule insert_order_lines_Inr[OF 3])
  have r: "or_id row = oid" by (simp add: row_def new_order_def)
  show thesis
  proof (rule that[of row e more])
    show "row = new_order (co_orderId co) (co_orderNumber co) cartId cid clean promotion rows am (db_now db)"
      by (simp add: row_def co)
    show "co_orderNumber co = (case db_orderCounter db of Some n \<Rightarrow> n | None \<Rightarrow> 1001)" by (simp add: co n_def)
  qed (use 2 co e rest r in \<open>simp_all add: 3 db1_def row_def[symmetric]\<close>)
qed

lemma new_order_sel:
  "or_status (new_order oid n cartId cid clean promotion rows am now) = pending_payment"
  "or_id (new_order oid n cartId cid clean promotion rows am now) = oid"
  "or_orderNumber (new_order oid n cartId cid clean promotion rows am now) = n"
  "or_confirmedAt (new_order oid n cartId cid clean promotion rows am now) = None"
  "or_amountPaidPaise (new_order oid n cartId cid clean promotion rows am now) = 0"
  by (simp_all add: new_order_def)

section \<open>The timeline\<close>

text \<open>
  A legal history of one order: it starts with the placement, every further status event leaves
  from where the last one arrived, along the table.
\<close>

inductive timeline :: "order_event_row list \<Rightarrow> order_status \<Rightarrow> bool" where
  placed: "oe_fromStatus e = None \<Longrightarrow> oe_toStatus e = Some pending_payment \<Longrightarrow> timeline [e] pending_payment"
| moved: "timeline es s \<Longrightarrow> oe_fromStatus e = Some s \<Longrightarrow> oe_toStatus e = Some t \<Longrightarrow> canTransition s t \<Longrightarrow>
    timeline (es @ [e]) t"

inductive_cases timeline_NilE: "timeline [] s"

lemma timeline_reaches: "timeline es s \<Longrightarrow> canTransition\<^sup>*\<^sup>* pending_payment s"
  by (induction rule: timeline.induct) (auto intro: rtranclp.rtrancl_into_rtrancl)

lemma timeline_ranked: "timeline es s \<Longrightarrow> length es \<le> order_rank s + 1"
  by (induction rule: timeline.induct) (auto dest: orders.rank_step)

lemma order_rank_le: "order_rank s \<le> 9"
  by (cases s) simp_all

definition is_status_event :: "uuid \<Rightarrow> order_event_row \<Rightarrow> bool" where
  "is_status_event oid e \<longleftrightarrow> oe_orderId e = oid \<and> oe_toStatus e \<noteq> None"

definition status_events :: "db \<Rightarrow> uuid \<Rightarrow> order_event_row list" where
  "status_events db oid = filter (is_status_event oid) (db_orderEvents db)"

definition timeline_ok :: "db \<Rightarrow> bool" where
  "timeline_ok db \<longleftrightarrow> distinct (map or_id (db_orders db)) \<and>
     (\<forall>e \<in> set (db_orderEvents db). oe_toStatus e \<noteq> None \<longrightarrow> oe_orderId e \<in> or_id ` set (db_orders db)) \<and>
     (\<forall>r \<in> set (db_orders db). timeline (status_events db (or_id r)) (or_status r))"

lemma timeline_ok_fresh: "db_orders db = [] \<Longrightarrow> db_orderEvents db = [] \<Longrightarrow> timeline_ok db"
  by (simp add: timeline_ok_def)

lemma timeline_ok_same:
  assumes "db_orderEvents db' = db_orderEvents db" "map or_id (db_orders db') = map or_id (db_orders db)"
    and "map or_status (db_orders db') = map or_status (db_orders db)"
  shows "timeline_ok db' = timeline_ok db"
proof -
  have "map (\<lambda>r. (or_id r, or_status r)) (db_orders db') = map (\<lambda>r. (or_id r, or_status r)) (db_orders db)"
    using assms(2,3) by (simp add: zip_map_map[symmetric] map_zip_map[symmetric] zip_map_fst_snd list_eq_iff_nth_eq)
  then have "(\<lambda>r. (or_id r, or_status r)) ` set (db_orders db') = (\<lambda>r. (or_id r, or_status r)) ` set (db_orders db)"
    by (metis list.set_map)
  then have all: "(\<forall>r \<in> set (db_orders db'). P (or_id r) (or_status r)) = (\<forall>r \<in> set (db_orders db). P (or_id r) (or_status r))" for P
    by (auto simp: set_eq_iff image_iff) metis+
  moreover have "or_id ` set (db_orders db') = or_id ` set (db_orders db)" using assms(2) by (metis list.set_map)
  ultimately show ?thesis
    using all[of "\<lambda>oid s. timeline (filter (is_status_event oid) (db_orderEvents db)) s"]
    unfolding timeline_ok_def status_events_def assms(1,2) by simp
qed

lemma frozen_sel:
  "or_id (frozen r) = or_id r" "or_status (frozen r) = or_status r" "or_orderNumber (frozen r) = or_orderNumber r"
  "or_confirmedAt (frozen r) = or_confirmedAt r" "or_cancelledAt (frozen r) = or_cancelledAt r"
  by (simp_all add: frozen_def)

lemma frozenD:
  assumes "frozen r = frozen r'"
  shows "or_id r = or_id r'" "or_status r = or_status r'" "or_orderNumber r = or_orderNumber r'"
    "or_confirmedAt r = or_confirmedAt r'" "or_cancelledAt r = or_cancelledAt r'"
  using arg_cong[OF assms, of or_id] arg_cong[OF assms, of or_status] arg_cong[OF assms, of or_orderNumber]
    arg_cong[OF assms, of or_confirmedAt] arg_cong[OF assms, of or_cancelledAt] by (simp_all only: frozen_sel)

lemma touched_columns:
  assumes "\<And>r. frozen (f r) = frozen r"
  shows "map or_id (upd P f rows) = map or_id rows" "map or_status (upd P f rows) = map or_status rows"
    "map or_confirmedAt (upd P f rows) = map or_confirmedAt rows"
  by (rule map_upd, rule frozenD[OF assms])+

lemma move_order_sel:
  "or_id (move_order now to r) = or_id r" "or_status (move_order now to r) = to"
  "or_confirmedAt (move_order now to r) = (if to = confirmed then Some now else or_confirmedAt r)"
  by (simp_all add: move_order_def Let_def)

lemma status_event_append:
  "filter (is_status_event oid) (es @ [e]) = filter (is_status_event oid) es @ (if is_status_event oid e then [e] else [])"
  by simp

lemma timeline_place:
  assumes ok: "timeline_ok db" and "db_orders db' = db_orders db @ [row]" "\<forall>r \<in> set (db_orders db). or_id r \<noteq> or_id row"
    and "or_status row = pending_payment" "db_orderEvents db' = db_orderEvents db @ [e]" "oe_orderId e = or_id row"
    and "oe_fromStatus e = None" "oe_toStatus e = Some pending_payment"
  shows "timeline_ok db'"
proof -
  have none: "filter (is_status_event (or_id row)) (db_orderEvents db) = []"
    using ok assms(3) by (auto simp: timeline_ok_def is_status_event_def filter_empty_conv)
  have old: "status_events db' (or_id r) = status_events db (or_id r)" if "r \<in> set (db_orders db)" for r
    using that assms(3,5,6) by (auto simp: status_events_def is_status_event_def)
  have new: "status_events db' (or_id row) = [e]"
    using none assms(5,6,8) by (simp add: status_events_def is_status_event_def)
  show ?thesis
    using ok assms(2-8) old new timeline.placed[OF assms(7,8)] by (auto simp: timeline_ok_def)
qed

lemma timeline_move:
  assumes ok: "timeline_ok db" and can: "canTransition from to"
    and orders: "db_orders db' = upd (\<lambda>r. or_id r = oid \<and> or_status r = from) (move_order now to) (db_orders db)"
    and known: "\<exists>r \<in> set (db_orders db). or_id r = oid \<and> or_status r = from"
    and events: "db_orderEvents db' = db_orderEvents db @ [e]" "oe_orderId e = oid" "oe_fromStatus e = Some from" "oe_toStatus e = Some to"
  shows "timeline_ok db'"
proof -
  have ids: "map or_id (db_orders db') = map or_id (db_orders db)"
    unfolding orders by (rule map_upd) (rule move_order_sel)
  then have idset: "or_id ` set (db_orders db') = or_id ` set (db_orders db)" by (metis list.set_map)
  have line: "timeline (status_events db' (or_id r')) (or_status r')" if r': "r' \<in> set (db_orders db')" for r'
    using r' unfolding orders
  proof (cases rule: set_updE)
    case 1
    have "or_id r' \<noteq> oid"
      using 1 known ok unfolding timeline_ok_def by (metis distinct_map inj_onD)
    then show ?thesis
      using ok 1 events by (auto simp: timeline_ok_def status_events_def is_status_event_def)
  next
    case (2 r0)
    then have "status_events db' (or_id r') = status_events db (or_id r0) @ [e]" "or_status r' = to"
      using events by (simp_all add: status_events_def is_status_event_def move_order_sel)
    moreover have "timeline (status_events db (or_id r0)) from" using ok 2 by (auto simp: timeline_ok_def)
    ultimately show ?thesis using timeline.moved[OF _ events(3,4) can] by simp
  qed
  show ?thesis
    unfolding timeline_ok_def
  proof (intro conjI ballI impI)
    show "distinct (map or_id (db_orders db'))" using ok ids by (simp add: timeline_ok_def)
    show "oe_orderId e' \<in> or_id ` set (db_orders db')" if "e' \<in> set (db_orderEvents db')" "oe_toStatus e' \<noteq> None" for e'
      using that ok known events idset by (auto simp: timeline_ok_def intro: rev_image_eqI)
  qed (rule line)
qed

lemma timeline_ok_ignores:
  "timeline_ok (no_payments (books db)) = timeline_ok db" "timeline_ok (no_refunds (books db)) = timeline_ok db"
  "timeline_ok (no_redemptions (books db)) = timeline_ok db" "timeline_ok (no_invoices (books db)) = timeline_ok db"
  by (rule timeline_ok_same; simp add: hide_defs)+

interpretation timelines: book_parts timeline_ok
proof unfold_locales
  show "timeline_ok (books db) = timeline_ok db" for db
    by (rule timeline_ok_same) (simp_all add: books_def)
  show "keeps timeline_ok (place_order cartId clean rows promotion cid am)" for cartId clean rows promotion cid am
  proof (rule keepsI)
    fix db co db' assume ok: "timeline_ok db" and m: "place_order cartId clean rows promotion cid am db = Inr (co, db')"
    show "timeline_ok db'"
      by (rule place_order_Inr[OF m], rule timeline_place[OF ok]) (assumption | simp add: new_order_sel)+
  qed
  show "keeps timeline_ok (transitionOrder actor oid s t name data)" for actor oid s t name data
  proof (rule keepsI)
    fix db x db' assume ok: "timeline_ok db" and m: "transitionOrder actor oid s t name data db = Inr (x, db')"
    show "timeline_ok db'"
      by (rule timeline_move[OF ok transitionOrder_Inr(1,3,2,4)[OF m]]) simp_all
  qed
  show "keeps timeline_ok (insertOrderEvent actor oid name data)" for actor oid name data
  proof (rule keepsI)
    fix db x db' assume ok: "timeline_ok db" and m: "insertOrderEvent actor oid name data db = Inr (x, db')"
    show "timeline_ok db'"
      using ok m by (auto simp: insertOrderEvent_def insert_event_run timeline_ok_def status_events_def is_status_event_def)
  qed
  show "keeps timeline_ok (twrite (\<lambda>db. db\<lparr>db_orders := upd P (f db) (db_orders db)\<rparr>))"
    if "\<And>db r. frozen (f db r) = frozen r" for P and f :: "db \<Rightarrow> order_row \<Rightarrow> order_row"
    by (rule keeps_write, rule iffD2[OF timeline_ok_same]) (simp_all add: touched_columns[OF that])
qed (rule keeps_off, rule off_tables, rule timeline_ok_ignores)+

section \<open>Nothing is rewritten\<close>

text \<open>
  What an order was placed with: everything but its status, the timestamps of the moves and the columns
  \<open>frozen\<close> masks.
\<close>

definition snapshot :: "order_row \<Rightarrow> order_row" where
  "snapshot r = (frozen r)\<lparr>or_status := pending_payment, or_confirmedAt := None, or_cancelledAt := None\<rparr>"

definition progresses :: "order_row \<Rightarrow> order_row \<Rightarrow> bool" where
  "progresses r r' \<longleftrightarrow> snapshot r' = snapshot r \<and> canTransition\<^sup>*\<^sup>* (or_status r) (or_status r')"

definition all_progress :: "order_row list \<Rightarrow> order_row list \<Rightarrow> bool" where
  "all_progress base rows \<longleftrightarrow> length base \<le> length rows \<and> list_all2 progresses base (take (length base) rows)"

text \<open>Orders only progress and are only added; lines, events, invoices and redemptions are only added.\<close>

definition grown :: "db \<Rightarrow> db \<Rightarrow> bool" where
  "grown base db \<longleftrightarrow> all_progress (db_orders base) (db_orders db) \<and>
     prefix (db_orderLines base) (db_orderLines db) \<and> prefix (db_orderEvents base) (db_orderEvents db) \<and>
     prefix (db_invoices base) (db_invoices db) \<and> prefix (db_redemptions base) (db_redemptions db)"

lemma progresses_refl: "progresses r r"
  by (simp add: progresses_def)

lemma progresses_trans: "progresses r r' \<Longrightarrow> progresses r' r'' \<Longrightarrow> progresses r r''"
  by (auto simp: progresses_def)

lemma grown_refl: "grown db db"
  by (simp add: grown_def all_progress_def progresses_refl list.rel_refl)

lemma all_progress_append: "all_progress base rows \<Longrightarrow> all_progress base (rows @ added)"
  by (auto simp: all_progress_def)

lemma all_progress_upd:
  assumes "\<And>r. P r \<Longrightarrow> progresses r (f r)" and "all_progress base rows"
  shows "all_progress base (upd P f rows)"
proof -
  have step: "list_all2 progresses (take (length base) rows) (take (length base) (upd P f rows))"
    by (rule list_all2_all_nthI) (auto simp: upd_def intro: progresses_refl assms(1))
  have start: "list_all2 progresses base (take (length base) rows)" using assms(2) by (simp add: all_progress_def)
  have "list_all2 progresses base (take (length base) (upd P f rows))"
    by (rule list_all2_trans[OF _ start step]) (rule progresses_trans)
  then show ?thesis using assms(2) by (simp add: all_progress_def)
qed

lemma snapshot_frozen: "frozen r = frozen r' \<Longrightarrow> snapshot r = snapshot r'"
  unfolding snapshot_def by (rule arg_cong)

lemma progresses_touch: "frozen (f r) = frozen r \<Longrightarrow> progresses r (f r)"
  unfolding progresses_def by (auto dest: snapshot_frozen frozenD(2))

lemma progresses_move: "canTransition (or_status r) to \<Longrightarrow> progresses r (move_order now to r)"
  by (auto simp: progresses_def snapshot_def frozen_def move_order_def Let_def)

lemma grown_ignores:
  "grown base (books db) = grown base db"
  "grown base (no_payments (books db)) = grown base db" "grown base (no_refunds (books db)) = grown base db"
  by (simp_all add: grown_def hide_defs)

lemma grown_draw: "keeps (grown base) draw_uuid"
  by (rule keepsI) (auto simp: grown_def)

lemma grown_add:
  "keeps (grown base) (twrite (\<lambda>db. db\<lparr>db_redemptions := db_redemptions db @ [rd]\<rparr>))"
  "keeps (grown base) (twrite (\<lambda>db. db\<lparr>db_invoices := db_invoices db @ [iv]\<rparr>))"
  "keeps (grown base) (twrite (\<lambda>db. db\<lparr>db_invoiceSeries := g db\<rparr>))"
  "keeps (grown base) (ensure_series code fy pre)"
  unfolding ensure_series_def
  by (rule keeps_write; simp add: grown_def prefix_prefix split: option.split)+

interpretation progress: book_parts "grown base" for base
proof unfold_locales
  show "grown base (books db) = grown base db" for db by (rule grown_ignores)
  show "keeps (grown base) (place_order cartId clean rows promotion cid am)" for cartId clean rows promotion cid am
  proof (rule keepsI)
    fix db co db' assume g: "grown base db" and m: "place_order cartId clean rows promotion cid am db = Inr (co, db')"
    show "grown base db'"
      by (rule place_order_Inr[OF m]) (use g in \<open>simp add: grown_def prefix_prefix all_progress_append\<close>)
  qed
  show "keeps (grown base) (transitionOrder actor oid s t name data)" for actor oid s t name data
  proof (rule keepsI)
    fix db x db' assume g: "grown base db" and m: "transitionOrder actor oid s t name data db = Inr (x, db')"
    note t = transitionOrder_Inr[OF m]
    have "all_progress (db_orders base) (db_orders db')"
      unfolding t(3) by (rule all_progress_upd) (use g t(1) in \<open>auto simp: grown_def intro: progresses_move\<close>)
    then show "grown base db'" using g t(4-) by (simp add: grown_def prefix_prefix)
  qed
  show "keeps (grown base) (insertOrderEvent actor oid name data)" for actor oid name data
    by (rule keepsI) (auto simp: insertOrderEvent_def insert_event_run grown_def prefix_prefix)
  show "keeps (grown base) (twrite (\<lambda>db. db\<lparr>db_orders := upd P (f db) (db_orders db)\<rparr>))"
    if frozen: "\<And>db r. frozen (f db r) = frozen r" for P and f :: "db \<Rightarrow> order_row \<Rightarrow> order_row"
    by (rule keeps_write) (simp add: grown_def all_progress_upd progresses_touch frozen)
  show "keeps (grown base) (claimRedemption promo oid customerId discountPaise)" for promo oid customerId discountPaise
    unfolding claimRedemption_def insert_redemption_def by (intro keeps_rules grown_draw grown_add)
  show "keeps (grown base) (createInvoice ii)" for ii
    unfolding createInvoice_def insert_invoice_def allocateInvoiceNumber_def Let_def
    by (intro keeps_rules grown_draw grown_add)
qed (rule keeps_off, rule off_tables, rule grown_ignores)+

section \<open>Properties\<close>

text \<open>
  C12.  However the shop's handlers are called and interleaved, the order events of every order replay to its
  status: they start with the placement, each leaves from where the last arrived and follows the
  table.  So an order has at most ten status events, and its status is reachable from a fresh checkout.
\<close>

theorem order_timeline_replays:
  assumes "timeline_ok db"
  shows "timeline_ok (run_ops exec_commerce ops db) \<and>
    (\<forall>r \<in> set (db_orders (run_ops exec_commerce ops db)).
       length (status_events (run_ops exec_commerce ops db) (or_id r)) \<le> 10 \<and>
       canTransition\<^sup>*\<^sup>* pending_payment (or_status r))"
proof -
  have ok: "timeline_ok (run_ops exec_commerce ops db)" using assms by (rule timelines.whole.shop.run_inv)
  show ?thesis
  proof (intro conjI ballI ok)
    fix r assume "r \<in> set (db_orders (run_ops exec_commerce ops db))"
    then have t: "timeline (status_events (run_ops exec_commerce ops db) (or_id r)) (or_status r)"
      using ok by (simp add: timeline_ok_def)
    show "length (status_events (run_ops exec_commerce ops db) (or_id r)) \<le> 10"
      using timeline_ranked[OF t] order_rank_le[of "or_status r"] by linarith
    show "canTransition\<^sup>*\<^sup>* pending_payment (or_status r)" by (rule timeline_reaches[OF t])
  qed
qed

lemma timeline_ok_sample: "timeline_ok (sample_shop mode now stock)"
  by (auto simp: timeline_ok_def status_events_def is_status_event_def sample_shop_def sample_order_def sample_placed_event_def
      empty_db_def intro: timeline.placed)

theorem order_timeline_replays_witness:
  "timeline_ok (run_ops exec_commerce [CoWebhook 70 sample_capture] (sample_shop prepaid 1000 10)) \<and>
   map or_status (db_orders (run_ops exec_commerce [CoWebhook 70 sample_capture] (sample_shop prepaid 1000 10))) = [confirmed]"
  using order_timeline_replays[OF timeline_ok_sample, of "[CoWebhook 70 sample_capture]" prepaid 1000 10] captured_sample_eq
  by (simp add: run_ops_def captured_sample_def confirmFromWebhookEvent_def sample_capture_def)

text \<open>
  C18.  Nothing in the order books is ever rewritten.  Along every sequence of the shop's operations an order keeps
  everything it was placed with (number, buyer, address, amounts, coupon) and its status only moves
  along the transition table, so never back; order lines, order events, invoices and coupon
  redemptions are only ever appended.
\<close>

theorem books_only_grow:
  "grown db (run_ops exec_commerce ops db)"
  by (rule progress.whole.shop.run_inv[OF grown_refl])

end
