(* ===== verification/InvoiceLaws.thy ===== *)
theory InvoiceLaws
  imports OrderHistory
begin

text \<open>
  Invoice numbering.  A series of a financial year counts 1, 2, 3 and so on without a gap: the numbers come
  from the counter row inside the confirming transaction, so a rolled-back confirmation takes none.
\<close>

section \<open>What an allocation leaves behind\<close>

definition with_series :: "series_code \<Rightarrow> string \<Rightarrow> string \<Rightarrow> invoice_series_row list \<Rightarrow> invoice_series_row list" where
  "with_series code fy pre rows = (case find (of_series code fy) rows of
     Some _ \<Rightarrow> rows
   | None \<Rightarrow> rows @ [\<lparr>is_seriesCode = code, is_financialYear = fy, is_prefix = pre, is_nextNumber = 1\<rparr>])"

lemma ensure_series_run:
  "ensure_series code fy pre db = Inr ((), db\<lparr>db_invoiceSeries := with_series code fy pre (db_invoiceSeries db)\<rparr>)"
  by (simp add: ensure_series_def with_series_def find_series_def split: option.split)

lemma allocateInvoiceNumber_run:
  "allocateInvoiceNumber code fy pre db =
    (case find (of_series code fy) (with_series code fy pre (db_invoiceSeries db)) of
       None \<Rightarrow> Inl (JsError ''invoice_series missing after upsert'')
     | Some r \<Rightarrow>
         if \<not> in_int4 (is_nextNumber r + 1) then Inl integerOutOfRange else
         (case formatInvoiceNumber (is_prefix r) fy (is_nextNumber r) of
            Inl e \<Rightarrow> Inl e
          | Inr rendered \<Rightarrow> Inr ((is_nextNumber r, rendered),
              db\<lparr>db_invoiceSeries := upd (of_series code fy) (\<lambda>r. r\<lparr>is_nextNumber := is_nextNumber r + 1\<rparr>)
                   (with_series code fy pre (db_invoiceSeries db))\<rparr>)))"
  by (simp add: allocateInvoiceNumber_def tbind_run ensure_series_run find_series_def split: option.split sum.split)

lemma allocateInvoiceNumber_Inr:
  assumes "allocateInvoiceNumber code fy pre db = Inr ((number, rendered), db')"
  shows "\<exists>r. find (of_series code fy) (with_series code fy pre (db_invoiceSeries db)) = Some r \<and>
     number = is_nextNumber r \<and> formatInvoiceNumber (is_prefix r) fy number = Inr rendered \<and>
     db' = db\<lparr>db_invoiceSeries := upd (of_series code fy) (\<lambda>r. r\<lparr>is_nextNumber := is_nextNumber r + 1\<rparr>)
                 (with_series code fy pre (db_invoiceSeries db))\<rparr>"
  using assms unfolding allocateInvoiceNumber_run by (auto split: option.splits sum.splits if_splits)

lemma insert_invoice_Inr:
  assumes "insert_invoice row db = Inr (x, db')"
  shows "db' = db\<lparr>db_invoices := db_invoices db @ [row]\<rparr>"
    "\<forall>j \<in> set (db_invoices db). \<not> (iv_orderId j = iv_orderId row \<and> iv_docType j = iv_docType row)"
  using assms by (auto simp: insert_invoice_def tbind_run list_ex_iff split: if_splits)

definition invoice_row_of :: "invoice_input \<Rightarrow> series_code \<Rightarrow> string \<Rightarrow> int \<Rightarrow> string \<Rightarrow> uuid \<Rightarrow> millis \<Rightarrow> invoice_row" where
  "invoice_row_of ii code fy number rendered iid now =
     \<lparr>iv_id = iid, iv_orderId = ii_orderId ii, iv_docType = ii_docType ii, iv_seriesCode = code,
      iv_financialYear = fy, iv_number = number, iv_invoiceNumber = rendered, iv_issuedAt = now,
      iv_seller = ii_seller ii, iv_buyer = ii_buyer ii, iv_placeOfSupply = ii_placeOfSupply ii,
      iv_lines = ii_lines ii, iv_subtotalPaise = ii_subtotalPaise ii, iv_discountPaise = ii_discountPaise ii,
      iv_taxablePaise = ii_taxablePaise ii, iv_cgstPaise = ii_cgstPaise ii, iv_sgstPaise = ii_sgstPaise ii,
      iv_igstPaise = ii_igstPaise ii, iv_totalPaise = ii_totalPaise ii\<rparr>"

lemma createInvoice_Inr:
  assumes "createInvoice ii db = Inr (x, db')"
  obtains i r fy where "financialYearOf (Some (db_now db)) = Inr fy"
    and "find (of_series (SERIES_FOR_DOC_TYPE (ii_docType ii)) fy)
          (with_series (SERIES_FOR_DOC_TYPE (ii_docType ii)) fy (ii_prefix ii) (db_invoiceSeries db)) = Some r"
    and "db_invoiceSeries db' = upd (of_series (SERIES_FOR_DOC_TYPE (ii_docType ii)) fy) (\<lambda>r. r\<lparr>is_nextNumber := is_nextNumber r + 1\<rparr>)
          (with_series (SERIES_FOR_DOC_TYPE (ii_docType ii)) fy (ii_prefix ii) (db_invoiceSeries db))"
    and "db_invoices db' = db_invoices db @ [i]" "iv_seriesCode i = SERIES_FOR_DOC_TYPE (ii_docType ii)" "iv_financialYear i = fy"
    and "iv_number i = is_nextNumber r" "formatInvoiceNumber (is_prefix r) fy (is_nextNumber r) = Inr (iv_invoiceNumber i)"
    and "iv_orderId i = ii_orderId ii" "iv_docType i = ii_docType ii" "iv_totalPaise i = ii_totalPaise ii"
    and "iv_lines i = ii_lines ii" "iv_taxablePaise i = ii_taxablePaise ii" "iv_id i = fst x" "snd x = iv_invoiceNumber i"
    and "\<forall>j \<in> set (db_invoices db). \<not> (iv_orderId j = iv_orderId i \<and> iv_docType j = iv_docType i)"
    and "invoice_issues ii = []" "db_orders db' = db_orders db" "db_orderEvents db' = db_orderEvents db"
proof -
  let ?code = "SERIES_FOR_DOC_TYPE (ii_docType ii)"
  obtain fy where fy: "financialYearOf (Some (db_now db)) = Inr fy" by (simp add: financialYearOf_def Let_def)
  have ok: "invoice_issues ii = []"
    using assms by (cases "invoice_issues ii = []") (simp_all add: createInvoice_def tbind_run)
  obtain number rendered db1 where alloc: "allocateInvoiceNumber ?code fy (ii_prefix ii) db = Inr ((number, rendered), db1)"
    and ins: "insert_invoice (invoice_row_of ii ?code fy number rendered (db_uuidv7 db1 (db_drawn db1)) (db_now db1))
        (db1\<lparr>db_drawn := Suc (db_drawn db1)\<rparr>) = Inr ((), db')"
    and x: "x = (db_uuidv7 db1 (db_drawn db1), rendered)"
    using assms unfolding createInvoice_def Let_def by (auto simp: tbind_eq_Inr ok fy invoice_row_of_def)
  obtain r where r: "find (of_series ?code fy) (with_series ?code fy (ii_prefix ii) (db_invoiceSeries db)) = Some r"
    "number = is_nextNumber r" "formatInvoiceNumber (is_prefix r) fy number = Inr rendered"
    and db1: "db1 = db\<lparr>db_invoiceSeries := upd (of_series ?code fy) (\<lambda>r. r\<lparr>is_nextNumber := is_nextNumber r + 1\<rparr>)
                 (with_series ?code fy (ii_prefix ii) (db_invoiceSeries db))\<rparr>"
    using allocateInvoiceNumber_Inr[OF alloc] by blast
  note i = insert_invoice_Inr[OF ins]
  show thesis
    by (rule that[OF fy r(1), of "invoice_row_of ii ?code fy number rendered (db_uuidv7 db1 (db_drawn db1)) (db_now db1)"])
      (use r ok i x in \<open>simp_all add: db1 invoice_row_of_def\<close>)
qed

section \<open>Gapless series\<close>

definition series_key :: "invoice_series_row \<Rightarrow> series_code \<times> string" where
  "series_key r = (is_seriesCode r, is_financialYear r)"

definition invoice_key :: "invoice_row \<Rightarrow> series_code \<times> string" where
  "invoice_key i = (iv_seriesCode i, iv_financialYear i)"

text \<open>The numbers a series has issued, in the order of issue.\<close>

definition issued :: "invoice_row list \<Rightarrow> invoice_series_row \<Rightarrow> int list" where
  "issued invoices r = map iv_number (filter (\<lambda>i. invoice_key i = series_key r) invoices)"

definition numbered :: "invoice_series_row list \<Rightarrow> invoice_row list \<Rightarrow> bool" where
  "numbered series invoices \<longleftrightarrow> distinct (map series_key series) \<and>
     (\<forall>r \<in> set series. 1 \<le> is_nextNumber r \<and> issued invoices r = [1..is_nextNumber r - 1]) \<and>
     (\<forall>i \<in> set invoices. CHR ''/'' \<notin> set (iv_financialYear i) \<and> (\<exists>r \<in> set series. series_key r = invoice_key i \<and>
        formatInvoiceNumber (is_prefix r) (is_financialYear r) (iv_number i) = Inr (iv_invoiceNumber i)))"

definition invoices_ok :: "db \<Rightarrow> bool" where
  "invoices_ok db \<longleftrightarrow> numbered (db_invoiceSeries db) (db_invoices db) \<and>
     distinct (map (\<lambda>i. (iv_orderId i, iv_docType i)) (db_invoices db))"

lemma of_series_key: "of_series code fy r \<longleftrightarrow> series_key r = (code, fy)"
  by (simp add: of_series_def series_key_def)

lemma with_series_numbered:
  assumes "numbered series invoices"
  shows "numbered (with_series code fy pre series) invoices"
proof (cases "find (of_series code fy) series")
  case None
  have fresh: "(code, fy) \<notin> series_key ` set series" using None by (auto simp: find_None_set of_series_key)
  have "invoice_key i \<in> series_key ` set series" if "i \<in> set invoices" for i
    using assms that unfolding numbered_def by (metis image_eqI)
  then have "\<forall>i \<in> set invoices. invoice_key i \<noteq> (code, fy)" using fresh by metis
  then have "issued invoices \<lparr>is_seriesCode = code, is_financialYear = fy, is_prefix = pre, is_nextNumber = 1\<rparr> = []"
    by (simp add: issued_def series_key_def filter_empty_conv)
  then show ?thesis
    using assms fresh None by (auto simp: numbered_def with_series_def series_key_def)
qed (use assms in \<open>simp add: with_series_def\<close>)

lemma numbered_step:
  assumes ok: "numbered series invoices" and r: "r \<in> set series" "series_key r = (code, fy)"
    and i: "invoice_key i = (code, fy)" "iv_number i = is_nextNumber r" "CHR ''/'' \<notin> set fy"
    and rendered: "formatInvoiceNumber (is_prefix r) fy (is_nextNumber r) = Inr (iv_invoiceNumber i)"
  shows "numbered (upd (of_series code fy) (\<lambda>r. r\<lparr>is_nextNumber := is_nextNumber r + 1\<rparr>) series) (invoices @ [i])"
    (is "numbered ?series _")
proof -
  have keys: "map series_key ?series = map series_key series"
    by (rule map_upd) (simp add: series_key_def)
  have the: "r' = r" if "r' \<in> set series" "series_key r' = (code, fy)" for r'
    using that r ok unfolding numbered_def by (metis distinct_map inj_onD)
  have counts: "1 \<le> is_nextNumber r' \<and> issued (invoices @ [i]) r' = [1..is_nextNumber r' - 1]" if "r' \<in> set ?series" for r'
    using that
  proof (cases rule: set_updE)
    case 1
    then show ?thesis using ok i(1) by (auto simp: numbered_def issued_def of_series_key)
  next
    case (2 r0)
    then have "r0 = r" using the by (simp add: of_series_key)
    then have now: "issued invoices r = [1..is_nextNumber r - 1]" "1 \<le> is_nextNumber r" "r' = r\<lparr>is_nextNumber := is_nextNumber r + 1\<rparr>"
      using ok r 2 by (auto simp: numbered_def)
    have "issued (invoices @ [i]) r' = issued invoices r @ [is_nextNumber r]"
      using i r(2) now(3) by (simp add: issued_def series_key_def)
    also have "\<dots> = [1..is_nextNumber r' - 1]"
      using now upto_rec2[of 1 "is_nextNumber r"] by simp
    finally show ?thesis using now by simp
  qed
  have row: "\<exists>r' \<in> set ?series. series_key r' = invoice_key j \<and>
      formatInvoiceNumber (is_prefix r') (is_financialYear r') (iv_number j) = Inr (iv_invoiceNumber j)"
    if "r0 \<in> set series" "series_key r0 = invoice_key j"
      "formatInvoiceNumber (is_prefix r0) (is_financialYear r0) (iv_number j) = Inr (iv_invoiceNumber j)" for j r0
    using that by (intro bexI[of _ "if of_series code fy r0 then r0\<lparr>is_nextNumber := is_nextNumber r0 + 1\<rparr> else r0"])
      (auto simp: upd_def series_key_def)
  have "\<forall>j \<in> set (invoices @ [i]). CHR ''/'' \<notin> set (iv_financialYear j) \<and> (\<exists>r' \<in> set ?series. series_key r' = invoice_key j \<and>
      formatInvoiceNumber (is_prefix r') (is_financialYear r') (iv_number j) = Inr (iv_invoiceNumber j))"
  proof
    fix j assume "j \<in> set (invoices @ [i])"
    then consider "j \<in> set invoices" | "j = i" by auto
    then show "CHR ''/'' \<notin> set (iv_financialYear j) \<and> (\<exists>r' \<in> set ?series. series_key r' = invoice_key j \<and>
      formatInvoiceNumber (is_prefix r') (is_financialYear r') (iv_number j) = Inr (iv_invoiceNumber j))"
    proof cases
      case 1
      then show ?thesis using ok row unfolding numbered_def by blast
    next
      case 2
      then show ?thesis using row[OF r(1), of i] r i rendered by (simp add: invoice_key_def series_key_def)
    qed
  qed
  then show ?thesis unfolding numbered_def keys using ok counts by (simp add: numbered_def)
qed

lemma financial_year_chars:
  assumes "financialYearOf (Some t) = Inr fy"
  shows "CHR ''/'' \<notin> set fy"
proof -
  have digits: "CHR ''/'' \<notin> set (show_nat n)" for n
    using show_nat_digits[of "CHR ''/''" n] by (auto simp: is_digit_def)
  have "CHR ''/'' \<notin> set (show_int k)" for k by (auto simp: show_int_def digits)
  then show ?thesis using assms by (auto simp: financialYearOf_def Let_def pad_start_def)
qed

text \<open>The rendered number determines the financial year and the number.\<close>

lemma formatInvoiceNumber_inj:
  assumes "formatInvoiceNumber p fy n = Inr s" "formatInvoiceNumber p' fy' n' = Inr s"
    and "CHR ''/'' \<notin> set fy" "CHR ''/'' \<notin> set fy'"
  shows "fy = fy' \<and> n = n'"
proof -
  let ?d = "\<lambda>n. pad_start INVOICE_NUMBER_PAD (CHR ''0'') (show_nat (nat n))"
  have nn: "0 \<le> n" "0 \<le> n'" and e: "p @ ''/'' @ fy @ ''/'' @ ?d n = p' @ ''/'' @ fy' @ ''/'' @ ?d n'"
    using assms(1,2) by (auto simp: formatInvoiceNumber_def split: if_splits)
  have "CHR ''/'' \<notin> set (?d n)" for n
    using show_nat_digits[of "CHR ''/''" "nat n"] by (auto simp: pad_start_def is_digit_def)
  moreover have "rev (?d n) @ CHR ''/'' # (rev fy @ CHR ''/'' # rev p) = rev (?d n') @ CHR ''/'' # (rev fy' @ CHR ''/'' # rev p')"
    using arg_cong[OF e, of rev] by simp
  ultimately have parts: "rev (?d n) = rev (?d n')" "rev fy @ CHR ''/'' # rev p = rev fy' @ CHR ''/'' # rev p'"
    using separator_split[of "CHR ''/''" "rev (?d n)" "rev (?d n')"] by auto
  then have "fy = fy'" using separator_split[of "CHR ''/''" "rev fy" "rev fy'"] assms(3,4) by simp
  moreover have "read_nat (?d n) = read_nat (?d n')" using parts(1) by simp
  then have "n = n'" using nn by (simp add: read_nat_pad)
  ultimately show ?thesis by simp
qed

lemma distinct_by_class:
  assumes "\<And>k. distinct (map f (filter (\<lambda>x. g x = k) xs))"
  shows "distinct (map (\<lambda>x. (g x, f x)) xs)"
  using assms
proof (induction xs)
  case (Cons x xs)
  have "distinct (map f (filter (\<lambda>y. g y = k) xs))" for k
    using Cons.prems[of k] by (auto split: if_splits)
  moreover have "(g x, f x) \<notin> (\<lambda>x. (g x, f x)) ` set xs" using Cons.prems[of "g x"] by auto
  ultimately show ?case using Cons.IH by simp
qed simp

lemma numbered_unique:
  assumes "numbered series invoices"
  shows "distinct (map (\<lambda>i. (iv_seriesCode i, iv_invoiceNumber i)) invoices)"
proof -
  have "distinct (map iv_number (filter (\<lambda>i. invoice_key i = k) invoices))" for k
  proof (cases "k \<in> series_key ` set series")
    case True
    then show ?thesis using assms by (auto simp: numbered_def issued_def)
  next
    case False
    have "invoice_key i \<in> series_key ` set series" if "i \<in> set invoices" for i
      using assms that unfolding numbered_def by (metis image_eqI)
    then have "filter (\<lambda>i. invoice_key i = k) invoices = []" using False by (auto simp: filter_empty_conv)
    then show ?thesis by simp
  qed
  then have d: "distinct (map (\<lambda>i. (invoice_key i, iv_number i)) invoices)" by (rule distinct_by_class)
  have same: "(invoice_key i, iv_number i) = (invoice_key j, iv_number j)"
    if ij: "i \<in> set invoices" "j \<in> set invoices" "(iv_seriesCode i, iv_invoiceNumber i) = (iv_seriesCode j, iv_invoiceNumber j)" for i j
  proof -
    have "\<exists>p. formatInvoiceNumber p (iv_financialYear i) (iv_number i) = Inr (iv_invoiceNumber i) \<and> CHR ''/'' \<notin> set (iv_financialYear i)"
      if i: "i \<in> set invoices" for i
    proof -
      obtain r where "series_key r = invoice_key i" "CHR ''/'' \<notin> set (iv_financialYear i)"
        "formatInvoiceNumber (is_prefix r) (is_financialYear r) (iv_number i) = Inr (iv_invoiceNumber i)"
        using assms i unfolding numbered_def by blast
      then show ?thesis by (intro exI[of _ "is_prefix r"]) (simp add: series_key_def invoice_key_def)
    qed
    from this[OF ij(1)] this[OF ij(2)] obtain p p' where
      "formatInvoiceNumber p (iv_financialYear i) (iv_number i) = Inr (iv_invoiceNumber i)"
      "formatInvoiceNumber p' (iv_financialYear j) (iv_number j) = Inr (iv_invoiceNumber i)"
      "CHR ''/'' \<notin> set (iv_financialYear i)" "CHR ''/'' \<notin> set (iv_financialYear j)"
      using ij(3) by auto
    then show ?thesis using formatInvoiceNumber_inj ij(3) by (auto simp: invoice_key_def)
  qed
  have "inj_on (\<lambda>i. (invoice_key i, iv_number i)) (set invoices)" "distinct invoices" using d by (auto simp: distinct_map)
  then have "inj_on (\<lambda>i. (iv_seriesCode i, iv_invoiceNumber i)) (set invoices)"
    using same unfolding inj_on_def by blast
  then show ?thesis using \<open>distinct invoices\<close> by (simp add: distinct_map)
qed

lemma find_series_member:
  "find (of_series code fy) rows = Some r \<Longrightarrow> r \<in> set rows \<and> series_key r = (code, fy)"
  using find_eq_Some[of "of_series code fy" rows r] by (simp add: of_series_key)

lemma keeps_invoices_create: "keeps invoices_ok (createInvoice ii)"
proof (rule keepsI)
  fix db x db' assume ok: "invoices_ok db" and m: "createInvoice ii db = Inr (x, db')"
  let ?code = "SERIES_FOR_DOC_TYPE (ii_docType ii)"
  obtain i r fy where fy: "financialYearOf (Some (db_now db)) = Inr fy"
    and r: "find (of_series ?code fy) (with_series ?code fy (ii_prefix ii) (db_invoiceSeries db)) = Some r"
    and series: "db_invoiceSeries db' = upd (of_series ?code fy) (\<lambda>r. r\<lparr>is_nextNumber := is_nextNumber r + 1\<rparr>)
          (with_series ?code fy (ii_prefix ii) (db_invoiceSeries db))"
    and i: "db_invoices db' = db_invoices db @ [i]" "iv_seriesCode i = ?code" "iv_financialYear i = fy" "iv_number i = is_nextNumber r"
      "formatInvoiceNumber (is_prefix r) fy (is_nextNumber r) = Inr (iv_invoiceNumber i)"
      "\<forall>j \<in> set (db_invoices db). \<not> (iv_orderId j = iv_orderId i \<and> iv_docType j = iv_docType i)"
    using m by (rule createInvoice_Inr)
  have "numbered (db_invoiceSeries db') (db_invoices db')"
    unfolding series i(1)
    by (rule numbered_step[where r = r])
      (use ok find_series_member[OF r] i financial_year_chars[OF fy] in
        \<open>simp_all add: invoices_ok_def with_series_numbered invoice_key_def\<close>)
  then show "invoices_ok db'" using ok i by (auto simp: invoices_ok_def)
qed

lemma invoices_ok_ignores:
  "invoices_ok (books db) = invoices_ok db"
  "invoices_ok (no_payments (books db)) = invoices_ok db" "invoices_ok (no_refunds (books db)) = invoices_ok db"
  "invoices_ok (no_redemptions (books db)) = invoices_ok db" "invoices_ok (no_orders (books db)) = invoices_ok db"
  by (simp_all add: invoices_ok_def hide_defs)

interpretation invoicing: book_parts invoices_ok
proof unfold_locales
  show "invoices_ok (books db) = invoices_ok db" for db by (rule invoices_ok_ignores)
qed (rule keeps_invoices_create | rule keeps_off, rule off_tables, rule invoices_ok_ignores)+

lemma invoices_ok_fresh: "db_invoices db = [] \<Longrightarrow> db_invoiceSeries db = [] \<Longrightarrow> invoices_ok db"
  by (simp add: invoices_ok_def numbered_def)

section \<open>Properties\<close>

text \<open>
  C13.  Invoice numbers are gapless and unique.  Whatever the shop's operations do, and however many of
  them fail, every series of a financial year has issued exactly the numbers 1 up to the one before its
  counter, in that order; no two invoices of a series code render the same number, in any year; and
  no order has two invoices of the same kind.
\<close>

theorem invoices_gapless:
  assumes "invoices_ok db"
  shows "let db' = run_ops exec_commerce ops db in
    (\<forall>r \<in> set (db_invoiceSeries db'). issued (db_invoices db') r = [1..is_nextNumber r - 1]) \<and>
    distinct (map (\<lambda>i. (iv_seriesCode i, iv_invoiceNumber i)) (db_invoices db')) \<and>
    distinct (map (\<lambda>i. (iv_orderId i, iv_docType i)) (db_invoices db'))"
proof -
  have "invoices_ok (run_ops exec_commerce ops db)" using assms by (rule invoicing.whole.shop.run_inv)
  then have n: "numbered (db_invoiceSeries (run_ops exec_commerce ops db)) (db_invoices (run_ops exec_commerce ops db))"
    and d: "distinct (map (\<lambda>i. (iv_orderId i, iv_docType i)) (db_invoices (run_ops exec_commerce ops db)))"
    by (simp_all add: invoices_ok_def)
  show ?thesis unfolding Let_def using numbered_unique[OF n] n d by (simp add: numbered_def)
qed

theorem invoices_gapless_witness:
  "map iv_invoiceNumber (db_invoices (run_ops exec_commerce [CoWebhook 70 sample_capture] (sample_shop prepaid 1000 10))) =
     [''INV/1969-70/0001''] \<and>
   distinct (map (\<lambda>i. (iv_seriesCode i, iv_invoiceNumber i))
     (db_invoices (run_ops exec_commerce [CoWebhook 70 sample_capture] (sample_shop prepaid 1000 10))))"
proof -
  have "invoices_ok (sample_shop prepaid 1000 10)" by (rule invoices_ok_fresh) (simp_all add: sample_shop_def empty_db_def)
  from invoices_gapless[OF this, of "[CoWebhook 70 sample_capture]"] show ?thesis
    using captured_sample_eq
    by (simp add: run_ops_def captured_sample_def confirmFromWebhookEvent_def sample_capture_def Let_def)
qed

text \<open>
  One setting, \<open>invoicing.prefix\<close>, seeds both series: the two documents of a seller that
  changes its registration within a year can carry the same rendered number.
\<close>

theorem both_series_can_render_alike:
  "\<exists>db1 db2 r1 r2. allocateInvoiceNumber BOS ''1969-70'' ''ACME'' (empty_db 0 id) = Inr (r1, db1) \<and>
     allocateInvoiceNumber INV ''1969-70'' ''ACME'' db1 = Inr (r2, db2) \<and> snd r1 = snd r2"
proof -
  have "formatInvoiceNumber ''ACME'' ''1969-70'' 1 = Inr ''ACME/1969-70/0001''" by code_simp
  then show ?thesis
    by (simp add: allocateInvoiceNumber_run with_series_def of_series_def empty_db_def in_int4_def int4_max_def)
qed

end
