(* ===== verification/Ledger.thy ===== *)
theory Ledger
  imports Enums Orders
begin

text \<open>
  The money of the shop, abstractly: accounts (orders with what was paid on them), attempts
  (payments), refund intents, and the cash collected at the doorstep.  \<open>MoneyLaws\<close> shows that the
  checkout code implements these steps; here they are shown to keep the books.
\<close>

record account =
  ac_id :: uuid
  ac_status :: order_status
  ac_ref :: "string option"
  ac_paid :: paise

record attempt =
  at_id :: uuid
  at_order :: uuid
  at_gateway :: "string option"
  at_amount :: paise
  at_captured :: bool

record intent =
  in_payment :: uuid
  in_order :: uuid
  in_amount :: paise

record ledger =
  lg_accounts :: "account list"
  lg_attempts :: "attempt list"
  lg_intents :: "intent list"
  lg_cash :: "(uuid \<times> paise) list"

section \<open>The books\<close>

definition captured_total :: "ledger \<Rightarrow> uuid \<Rightarrow> paise" where
  "captured_total L oid = sum_list (map at_amount (filter (\<lambda>a. at_order a = oid \<and> at_captured a) (lg_attempts L)))"

definition cash_total :: "ledger \<Rightarrow> uuid \<Rightarrow> paise" where
  "cash_total L oid = sum_list (map snd (filter (\<lambda>c. fst c = oid) (lg_cash L)))"

definition refunded_in :: "ledger \<Rightarrow> attempt \<Rightarrow> bool" where
  "refunded_in L a \<longleftrightarrow> (\<exists>i \<in> set (lg_intents L). in_payment i = at_id a)"

definition handed_over :: "order_status set" where
  "handed_over = {delivered, return_requested, return_picked, refunded}"

text \<open>Ids are keys, an attempt is one gateway order, captures belong to the order's own gateway order.\<close>

definition keyed :: "ledger \<Rightarrow> bool" where
  "keyed L \<longleftrightarrow> distinct (map ac_id (lg_accounts L)) \<and> distinct (map at_id (lg_attempts L)) \<and>
     distinct (map (\<lambda>a. (at_order a, at_gateway a)) (lg_attempts L)) \<and> distinct (map in_payment (lg_intents L))"

definition attempts_ok :: "ledger \<Rightarrow> bool" where
  "attempts_ok L \<longleftrightarrow> (\<forall>c \<in> set (lg_accounts L). ac_ref c \<noteq> Some []) \<and>
     (\<forall>a \<in> set (lg_attempts L). 0 < at_amount a \<and> (at_captured a \<longrightarrow>
        (\<exists>c \<in> set (lg_accounts L). ac_id c = at_order a \<and> ac_ref c = at_gateway a \<and> at_gateway a \<noteq> None)))"

definition intents_ok :: "ledger \<Rightarrow> bool" where
  "intents_ok L \<longleftrightarrow> (\<forall>i \<in> set (lg_intents L). \<exists>a \<in> set (lg_attempts L). at_captured a \<and>
     at_id a = in_payment i \<and> at_order a = in_order i \<and> at_amount a = in_amount i)"

definition cash_ok :: "ledger \<Rightarrow> bool" where
  "cash_ok L \<longleftrightarrow> (\<forall>x \<in> set (lg_cash L). \<exists>c \<in> set (lg_accounts L). ac_id c = fst x \<and> ac_status c \<in> handed_over)"

text \<open>What was paid is what was captured and collected; \<open>ex\<close> is an account \<open>k\<close> behind, mid-transaction.\<close>

definition balanced :: "uuid option \<Rightarrow> paise \<Rightarrow> ledger \<Rightarrow> bool" where
  "balanced ex k L \<longleftrightarrow> (\<forall>c \<in> set (lg_accounts L).
     ac_paid c + (if ex = Some (ac_id c) then k else 0) = captured_total L (ac_id c) + cash_total L (ac_id c))"

text \<open>Nothing is captured on a pending order; a dead order's captures are being refunded.\<close>

definition settled :: "ledger \<Rightarrow> account \<Rightarrow> bool" where
  "settled L c \<longleftrightarrow> (\<forall>a \<in> set (lg_attempts L). at_order a = ac_id c \<longrightarrow> at_captured a \<longrightarrow>
     ac_status c \<noteq> pending_payment \<and> (ac_status c \<in> {cancelled, abandoned} \<longrightarrow> refunded_in L a))"

definition all_settled :: "uuid option \<Rightarrow> ledger \<Rightarrow> bool" where
  "all_settled ex L \<longleftrightarrow> (\<forall>c \<in> set (lg_accounts L). ex \<noteq> Some (ac_id c) \<longrightarrow> settled L c)"

definition sound :: "uuid option \<Rightarrow> paise \<Rightarrow> ledger \<Rightarrow> bool" where
  "sound ex k L \<longleftrightarrow> keyed L \<and> attempts_ok L \<and> intents_ok L \<and> cash_ok L \<and> balanced ex k L \<and> all_settled ex L"

lemmas sound_parts = keyed_def attempts_ok_def intents_ok_def cash_ok_def balanced_def all_settled_def

section \<open>The steps\<close>

definition on_account :: "uuid \<Rightarrow> (account \<Rightarrow> account) \<Rightarrow> ledger \<Rightarrow> ledger" where
  "on_account oid f L = L\<lparr>lg_accounts := upd (\<lambda>c. ac_id c = oid) f (lg_accounts L)\<rparr>"

definition move_account :: "uuid \<Rightarrow> order_status \<Rightarrow> ledger \<Rightarrow> ledger" where
  "move_account oid t = on_account oid (\<lambda>c. c\<lparr>ac_status := t\<rparr>)"

definition credit :: "uuid \<Rightarrow> paise \<Rightarrow> ledger \<Rightarrow> ledger" where
  "credit oid k = on_account oid (\<lambda>c. c\<lparr>ac_paid := ac_paid c + k\<rparr>)"

definition capture :: "uuid \<Rightarrow> ledger \<Rightarrow> ledger" where
  "capture pid L = L\<lparr>lg_attempts := upd (\<lambda>a. at_id a = pid) (\<lambda>a. a\<lparr>at_captured := True\<rparr>) (lg_attempts L)\<rparr>"

definition add_intent :: "intent \<Rightarrow> ledger \<Rightarrow> ledger" where
  "add_intent i L = L\<lparr>lg_intents := lg_intents L @ [i]\<rparr>"

definition add_attempt :: "attempt \<Rightarrow> ledger \<Rightarrow> ledger" where
  "add_attempt a L = L\<lparr>lg_attempts := lg_attempts L @ [a]\<rparr>"

definition collect :: "uuid \<Rightarrow> paise \<Rightarrow> ledger \<Rightarrow> ledger" where
  "collect oid k L = L\<lparr>lg_cash := lg_cash L @ [(oid, k)]\<rparr>"

definition open_account :: "account \<Rightarrow> ledger \<Rightarrow> ledger" where
  "open_account c L = L\<lparr>lg_accounts := lg_accounts L @ [c]\<rparr>"

lemmas ledger_steps = on_account_def move_account_def credit_def capture_def add_intent_def add_attempt_def
  collect_def open_account_def

lemma ledger_fields [simp]:
  "lg_attempts (on_account oid f L) = lg_attempts L" "lg_intents (on_account oid f L) = lg_intents L"
  "lg_cash (on_account oid f L) = lg_cash L"
  "lg_accounts (capture pid L) = lg_accounts L" "lg_intents (capture pid L) = lg_intents L" "lg_cash (capture pid L) = lg_cash L"
  "lg_accounts (add_intent i L) = lg_accounts L" "lg_attempts (add_intent i L) = lg_attempts L"
  "lg_cash (add_intent i L) = lg_cash L" "lg_intents (add_intent i L) = lg_intents L @ [i]"
  "lg_accounts (add_attempt a L) = lg_accounts L" "lg_intents (add_attempt a L) = lg_intents L"
  "lg_cash (add_attempt a L) = lg_cash L" "lg_attempts (add_attempt a L) = lg_attempts L @ [a]"
  "lg_accounts (collect oid k L) = lg_accounts L" "lg_attempts (collect oid k L) = lg_attempts L"
  "lg_intents (collect oid k L) = lg_intents L" "lg_cash (collect oid k L) = lg_cash L @ [(oid, k)]"
  "lg_attempts (open_account c L) = lg_attempts L" "lg_intents (open_account c L) = lg_intents L"
  "lg_cash (open_account c L) = lg_cash L" "lg_accounts (open_account c L) = lg_accounts L @ [c]"
  by (simp_all add: ledger_steps)

lemma totals_steps [simp]:
  "captured_total (on_account oid f L) o' = captured_total L o'" "cash_total (on_account oid f L) o' = cash_total L o'"
  "captured_total (add_intent i L) o' = captured_total L o'" "cash_total (add_intent i L) o' = cash_total L o'"
  "cash_total (add_attempt a L) o' = cash_total L o'" "cash_total (capture pid L) o' = cash_total L o'"
  "captured_total (collect oid k L) o' = captured_total L o'"
  "captured_total (open_account c L) o' = captured_total L o'" "cash_total (open_account c L) o' = cash_total L o'"
  "cash_total (collect oid k L) o' = cash_total L o' + (if oid = o' then k else 0)"
  by (simp_all add: captured_total_def cash_total_def ledger_steps)

lemma in_upd: "r \<in> set rows \<Longrightarrow> (if P r then f r else r) \<in> set (upd P f rows)"
  by (auto simp: upd_def)

lemma upd_absent: "k \<notin> g ` set rows \<Longrightarrow> upd (\<lambda>r. g r = k) f rows = rows"
  by (induction rows) auto

lemma the_account:
  "keyed L \<Longrightarrow> c \<in> set (lg_accounts L) \<Longrightarrow> c' \<in> set (lg_accounts L) \<Longrightarrow> ac_id c = ac_id c' \<Longrightarrow> c = c'"
  unfolding keyed_def by (blast intro: distinct_map_eq)

lemma the_attempt:
  "keyed L \<Longrightarrow> a \<in> set (lg_attempts L) \<Longrightarrow> a' \<in> set (lg_attempts L) \<Longrightarrow> at_id a = at_id a' \<Longrightarrow> a = a'"
  unfolding keyed_def by (blast intro: distinct_map_eq)

lemma soundD:
  assumes "sound ex k L"
  shows "keyed L" "attempts_ok L" "intents_ok L" "cash_ok L" "balanced ex k L" "all_settled ex L"
  using assms by (simp_all add: sound_def)

lemma captured_account:
  assumes "sound ex k L" "a \<in> set (lg_attempts L)" "at_captured a" "c \<in> set (lg_accounts L)" "ac_id c = at_order a"
  shows "ac_ref c = at_gateway a" "at_gateway a \<noteq> None"
proof -
  obtain c' where "c' \<in> set (lg_accounts L)" "ac_id c' = at_order a" "ac_ref c' = at_gateway a" "at_gateway a \<noteq> None"
    using soundD(2)[OF assms(1)] assms(2,3) unfolding attempts_ok_def by blast
  moreover have "c' = c" using the_account[OF soundD(1)[OF assms(1)]] calculation assms(4,5) by simp
  ultimately show "ac_ref c = at_gateway a" "at_gateway a \<noteq> None" by auto
qed

text \<open>An order has at most one captured attempt: the one of its gateway order.\<close>

lemma one_capture:
  assumes "sound ex k L" "a \<in> set (lg_attempts L)" "a' \<in> set (lg_attempts L)" "at_captured a" "at_captured a'"
    and "at_order a = at_order a'"
  shows "a = a'"
proof -
  obtain c where c: "c \<in> set (lg_accounts L)" "ac_id c = at_order a" "ac_id c = at_order a'"
    using soundD(2)[OF assms(1)] assms(2,4,6) unfolding attempts_ok_def by metis
  have g: "at_gateway a = at_gateway a'"
    using captured_account(1)[OF assms(1,2,4) c(1,2)] captured_account(1)[OF assms(1,3,5) c(1,3)] by simp
  have "distinct (map (\<lambda>a. (at_order a, at_gateway a)) (lg_attempts L))"
    using soundD(1)[OF assms(1)] by (simp add: keyed_def)
  from distinct_map_eq[OF this assms(2,3)] show ?thesis using assms(6) g by simp
qed

lemma sound_weaken: "sound None 0 L \<Longrightarrow> sound (Some oid) 0 L"
  by (simp add: sound_def balanced_def all_settled_def)

lemma sound_close:
  "sound (Some oid) 0 L \<Longrightarrow> (\<And>c. c \<in> set (lg_accounts L) \<Longrightarrow> ac_id c = oid \<Longrightarrow> settled L c) \<Longrightarrow> sound None 0 L"
  by (auto simp: sound_def balanced_def all_settled_def)

lemma captured_capture:
  assumes "distinct (map at_id (lg_attempts L))" "a \<in> set (lg_attempts L)" "\<not> at_captured a"
  shows "captured_total (capture (at_id a) L) oid = captured_total L oid + (if at_order a = oid then at_amount a else 0)"
proof -
  have "sum_list (map at_amount (filter (\<lambda>a. at_order a = oid \<and> at_captured a) (upd (\<lambda>b. at_id b = at_id a) (\<lambda>b. b\<lparr>at_captured := True\<rparr>) xs)))
    = sum_list (map at_amount (filter (\<lambda>a. at_order a = oid \<and> at_captured a) xs)) + (if at_order a = oid then at_amount a else 0)"
    if "distinct (map at_id xs)" "a \<in> set xs" for xs :: "attempt list"
    using that
  proof (induction xs)
    case (Cons b xs)
    show ?case
    proof (cases "b = a")
      case True
      then have "upd (\<lambda>b. at_id b = at_id a) (\<lambda>b. b\<lparr>at_captured := True\<rparr>) xs = xs"
        using Cons.prems(1) by (intro upd_absent) auto
      then show ?thesis using True assms(3) by simp
    next
      case False
      then have "a \<in> set xs" "at_id b \<noteq> at_id a" using Cons.prems by auto
      then show ?thesis using Cons by simp
    qed
  qed simp
  then show ?thesis using assms(1,2) by (simp add: captured_total_def capture_def)
qed

section \<open>Steps keep the books\<close>

lemma settled_steps [simp]:
  "settled (on_account oid f L) c = settled L c" "settled (collect oid k L) c = settled L c"
  "settled (open_account c' L) c = settled L c"
  by (simp_all add: settled_def refunded_in_def ledger_steps)

lemma sound_on_account:
  assumes "sound ex k L" and f: "\<And>c. ac_id (f c) = ac_id c" "\<And>c. ac_ref (f c) = ac_ref c"
    and other: "\<And>c :: account. ac_id c \<noteq> oid \<Longrightarrow> (ex' = Some (ac_id c) \<longleftrightarrow> ex = Some (ac_id c)) \<and> (ex = Some (ac_id c) \<longrightarrow> k' = k)"
    and c: "\<And>c. c \<in> set (lg_accounts L) \<Longrightarrow> ac_id c = oid \<Longrightarrow>
      (ac_status c \<in> handed_over \<longrightarrow> ac_status (f c) \<in> handed_over) \<and> (ex' \<noteq> Some oid \<longrightarrow> settled L (f c)) \<and>
      ac_paid (f c) + (if ex' = Some oid then k' else 0) = ac_paid c + (if ex = Some oid then k else 0)"
  shows "sound ex' k' (on_account oid f L)"
proof -
  let ?L = "on_account oid f L"
  have acc: "lg_accounts ?L = upd (\<lambda>c. ac_id c = oid) f (lg_accounts L)" by (simp add: on_account_def)
  have there: "\<exists>c' \<in> set (lg_accounts ?L). ac_id c' = ac_id c \<and> ac_ref c' = ac_ref c \<and> (ac_status c \<in> handed_over \<longrightarrow> ac_status c' \<in> handed_over)"
    if "c \<in> set (lg_accounts L)" for c
    unfolding acc by (rule bexI[OF _ in_upd[OF that]]) (use c[OF that] f in auto)
  have each: "ac_ref c' \<noteq> Some [] \<and> (ex' \<noteq> Some (ac_id c') \<longrightarrow> settled L c') \<and>
      ac_paid c' + (if ex' = Some (ac_id c') then k' else 0) = captured_total L (ac_id c') + cash_total L (ac_id c')"
    if "c' \<in> set (lg_accounts ?L)" for c'
    using that[unfolded acc]
  proof (cases rule: set_updE)
    case 1
    then show ?thesis using other[of c'] soundD(2,5,6)[OF assms(1)]
      unfolding attempts_ok_def balanced_def all_settled_def by (cases "ex = Some (ac_id c')") auto
  next
    case (2 c0)
    moreover have "ac_ref c0 \<noteq> Some []" using 2(1) soundD(2)[OF assms(1)] unfolding attempts_ok_def by blast
    moreover have "ac_paid c0 + (if ex = Some oid then k else 0) = captured_total L oid + cash_total L oid"
      using 2(1,2) soundD(5)[OF assms(1)] unfolding balanced_def by auto
    ultimately show ?thesis using c[OF 2(1,2)] f[of c0] by simp
  qed
  show ?thesis
  proof (unfold sound_def, intro conjI)
    show "keyed ?L" using soundD(1)[OF assms(1)] f by (simp add: keyed_def acc map_upd)
    show "attempts_ok ?L" using soundD(2)[OF assms(1)] there each unfolding attempts_ok_def ledger_fields by metis
    show "intents_ok ?L" using soundD(3)[OF assms(1)] by (simp add: intents_ok_def)
    show "cash_ok ?L" using soundD(4)[OF assms(1)] there unfolding cash_ok_def ledger_fields by metis
    show "balanced ex' k' ?L" using each by (simp add: balanced_def)
    show "all_settled ex' ?L" using each by (simp add: all_settled_def)
  qed
qed

lemma credit_sound: "sound (Some oid) k L \<Longrightarrow> sound (Some oid) 0 (credit oid k L)"
  unfolding credit_def by (rule sound_on_account) auto

lemma move_sound:
  assumes "sound ex 0 L"
    and "\<And>c. c \<in> set (lg_accounts L) \<Longrightarrow> ac_id c = oid \<Longrightarrow> (ac_status c \<in> handed_over \<longrightarrow> t \<in> handed_over) \<and>
      (ex \<noteq> Some oid \<longrightarrow> settled L (c\<lparr>ac_status := t\<rparr>))"
  shows "sound ex 0 (move_account oid t L)"
  unfolding move_account_def by (rule sound_on_account[OF assms(1)]) (use assms(2) in auto)

lemma capture_sound:
  assumes L: "sound None 0 L" and a: "a \<in> set (lg_attempts L)" "\<not> at_captured a"
    and c: "c \<in> set (lg_accounts L)" "ac_id c = at_order a" "ac_ref c = at_gateway a" "at_gateway a \<noteq> None"
  shows "sound (Some (at_order a)) (at_amount a) (capture (at_id a) L)"
proof -
  let ?L = "capture (at_id a) L"
  let ?f = "\<lambda>b. b\<lparr>at_captured := True\<rparr>"
  have att: "lg_attempts ?L = upd (\<lambda>b. at_id b = at_id a) ?f (lg_attempts L)"
    by (simp add: capture_def)
  have b: "b \<in> set (lg_attempts L) \<or> b = ?f a" if "b \<in> set (lg_attempts ?L)" for b
    using that[unfolded att] the_attempt[OF soundD(1)[OF L] _ a(1)] by (cases rule: set_updE) auto
  have keep: "\<exists>b' \<in> set (lg_attempts ?L). at_captured b' \<and> at_id b' = at_id b \<and> at_order b' = at_order b \<and> at_amount b' = at_amount b"
    if "b \<in> set (lg_attempts L)" "at_captured b" for b
    unfolding att by (rule bexI[OF _ in_upd[OF that(1)]]) (use that in auto)
  show ?thesis
  proof (unfold sound_def, intro conjI)
    have "map at_id (lg_attempts ?L) = map at_id (lg_attempts L)"
      "map (\<lambda>a. (at_order a, at_gateway a)) (lg_attempts ?L) = map (\<lambda>a. (at_order a, at_gateway a)) (lg_attempts L)"
      unfolding att by (intro map_upd; simp)+
    then show "keyed ?L" using soundD(1)[OF L] by (simp add: keyed_def)
    show "attempts_ok ?L" using soundD(2)[OF L] c b a(1) unfolding attempts_ok_def ledger_fields by (auto dest!: b)
    show "intents_ok ?L" using soundD(3)[OF L] keep unfolding intents_ok_def ledger_fields by metis
    show "cash_ok ?L" using soundD(4)[OF L] by (simp add: cash_ok_def)
    show "balanced (Some (at_order a)) (at_amount a) ?L"
      using soundD(5)[OF L] captured_capture[OF _ a, of] soundD(1)[OF L]
      by (auto simp: balanced_def keyed_def)
    show "all_settled (Some (at_order a)) ?L"
      using soundD(6)[OF L] unfolding all_settled_def settled_def refunded_in_def ledger_fields by (auto dest!: b)
  qed
qed

lemma add_intent_sound:
  assumes L: "sound ex k L" and a: "a \<in> set (lg_attempts L)" "at_captured a" "at_id a = in_payment i"
    "at_order a = in_order i" "at_amount a = in_amount i" "\<not> refunded_in L a"
  shows "sound ex k (add_intent i L)"
proof -
  have "settled (add_intent i L) c" if "settled L c" for c
    using that unfolding settled_def refunded_in_def by auto
  moreover have "keyed (add_intent i L)"
    using soundD(1)[OF L] a(3,6) by (auto simp: keyed_def refunded_in_def)
  moreover have "intents_ok (add_intent i L)"
    using soundD(3)[OF L] a by (auto simp: intents_ok_def)
  ultimately show ?thesis
    using L unfolding sound_def balanced_def all_settled_def
    by (auto simp: attempts_ok_def cash_ok_def)
qed

lemma add_attempt_sound:
  assumes L: "sound ex k L"
    and a: "\<not> at_captured a" "0 < at_amount a" "at_id a \<notin> at_id ` set (lg_attempts L)"
      "\<And>b. b \<in> set (lg_attempts L) \<Longrightarrow> (at_order b, at_gateway b) \<noteq> (at_order a, at_gateway a)"
  shows "sound ex k (add_attempt a L)"
proof -
  have "settled (add_attempt a L) c" if "settled L c" for c
    using that a(1) unfolding settled_def refunded_in_def by auto
  moreover have "keyed (add_attempt a L)"
    using soundD(1)[OF L] a(3,4) by (force simp: keyed_def)
  moreover have "captured_total (add_attempt a L) oid = captured_total L oid" for oid
    using a(1) by (simp add: captured_total_def)
  moreover have "attempts_ok (add_attempt a L)" "intents_ok (add_attempt a L)"
    using soundD(2,3)[OF L] a(1,2) by (auto simp: attempts_ok_def intents_ok_def)
  ultimately show ?thesis
    using L unfolding sound_def balanced_def all_settled_def by (auto simp: cash_ok_def)
qed

lemma collect_sound:
  assumes L: "sound None 0 L" and c: "c \<in> set (lg_accounts L)" "ac_id c = oid" "ac_status c \<in> handed_over"
  shows "sound (Some oid) k (collect oid k L)"
proof -
  have "keyed (collect oid k L)" "attempts_ok (collect oid k L)" "intents_ok (collect oid k L)" "cash_ok (collect oid k L)"
    "lg_accounts (collect oid k L) = lg_accounts L"
    using soundD[OF L] c by (auto simp: keyed_def attempts_ok_def intents_ok_def cash_ok_def)
  then show ?thesis using soundD(5,6)[OF L] by (auto simp: sound_def balanced_def all_settled_def)
qed

lemma open_account_sound:
  assumes L: "sound None 0 L" and c: "ac_id c \<notin> ac_id ` set (lg_accounts L)" "ac_ref c = None" "ac_paid c = 0"
  shows "sound None 0 (open_account c L)"
proof -
  have none: "at_order a \<noteq> ac_id c" if "a \<in> set (lg_attempts L)" "at_captured a" for a
    using soundD(2)[OF L] that c(1) unfolding attempts_ok_def by (metis image_eqI)
  then have "filter (\<lambda>a. at_order a = ac_id c \<and> at_captured a) (lg_attempts L) = []" by (auto simp: filter_empty_conv)
  then have zero: "captured_total L (ac_id c) = 0" "settled L c"
    using none by (auto simp: captured_total_def settled_def)
  have cash: "fst x \<noteq> ac_id c" if "x \<in> set (lg_cash L)" for x
    using soundD(4)[OF L] that c(1) unfolding cash_ok_def by (metis image_eqI)
  then have "cash_total L (ac_id c) = 0" by (simp add: cash_total_def filter_empty_conv)
  moreover have "keyed (open_account c L)" "attempts_ok (open_account c L)" "intents_ok (open_account c L)" "cash_ok (open_account c L)"
    using soundD[OF L] c by (auto simp: keyed_def attempts_ok_def intents_ok_def cash_ok_def)
  ultimately show ?thesis
    using soundD(5,6)[OF L] zero c by (auto simp: sound_def balanced_def all_settled_def)
qed

text \<open>Giving an order its gateway order: it had none, or this one.\<close>

lemma set_ref_sound:
  assumes L: "sound None 0 L" and g: "g \<noteq> []"
    and r: "\<And>c. c \<in> set (lg_accounts L) \<Longrightarrow> ac_id c = oid \<Longrightarrow> ac_ref c = None \<or> ac_ref c = Some [] \<or> ac_ref c = Some g"
  shows "sound None 0 (on_account oid (\<lambda>c. c\<lparr>ac_ref := Some g\<rparr>) L)"
proof -
  let ?f = "\<lambda>c. c\<lparr>ac_ref := Some g\<rparr>"
  let ?L = "on_account oid ?f L"
  have acc: "lg_accounts ?L = upd (\<lambda>c. ac_id c = oid) ?f (lg_accounts L)"
    by (simp add: on_account_def)
  have orig: "\<exists>c' \<in> set (lg_accounts L). ac_id c' = ac_id c \<and> ac_status c' = ac_status c \<and> ac_paid c' = ac_paid c"
    if "c \<in> set (lg_accounts ?L)" for c
    using that[unfolded acc] by (cases rule: set_updE) auto
  show ?thesis
  proof (unfold sound_def, intro conjI)
    show "keyed ?L" using soundD(1)[OF L] by (simp add: keyed_def acc map_upd)
    have "ac_ref c \<noteq> Some []" if "c \<in> set (lg_accounts ?L)" for c
      using that[unfolded acc] soundD(2)[OF L] g unfolding attempts_ok_def by (cases rule: set_updE) auto
    moreover have "\<exists>c \<in> set (lg_accounts ?L). ac_id c = at_order a \<and> ac_ref c = at_gateway a \<and> at_gateway a \<noteq> None"
      if a: "a \<in> set (lg_attempts L)" "at_captured a" for a
    proof -
      obtain c where c: "c \<in> set (lg_accounts L)" "ac_id c = at_order a" "ac_ref c = at_gateway a" "at_gateway a \<noteq> None"
        using soundD(2)[OF L] a unfolding attempts_ok_def by blast
      moreover have "ac_ref c \<noteq> Some []" using c(1) soundD(2)[OF L] unfolding attempts_ok_def by blast
      ultimately show ?thesis unfolding acc by (intro bexI[OF _ in_upd[OF c(1)]]) (use r[OF c(1)] in auto)
    qed
    ultimately show "attempts_ok ?L" using soundD(2)[OF L] unfolding attempts_ok_def ledger_fields by blast
    show "intents_ok ?L" using soundD(3)[OF L] by (simp add: intents_ok_def)
    have "\<exists>c' \<in> set (lg_accounts ?L). ac_id c' = ac_id c \<and> ac_status c' = ac_status c" if "c \<in> set (lg_accounts L)" for c
      unfolding acc by (rule bexI[OF _ in_upd[OF that]]) auto
    then show "cash_ok ?L" using soundD(4)[OF L] unfolding cash_ok_def ledger_fields by metis
    show "balanced None 0 ?L" using soundD(5)[OF L] orig unfolding balanced_def by fastforce
    have "settled L c" if "c \<in> set (lg_accounts ?L)" for c
      using orig[OF that] soundD(6)[OF L] by (auto simp: all_settled_def settled_def)
    then show "all_settled None ?L" by (simp add: all_settled_def)
  qed
qed


section \<open>The ledger as a machine\<close>

text \<open>An uncaptured attempt on an order whose gateway order it is.\<close>

definition awaiting :: "ledger \<Rightarrow> account \<Rightarrow> attempt \<Rightarrow> bool" where
  "awaiting L c a \<longleftrightarrow> c \<in> set (lg_accounts L) \<and> a \<in> set (lg_attempts L) \<and> ac_id c = at_order a \<and>
     ac_ref c = at_gateway a \<and> at_gateway a \<noteq> None \<and> \<not> at_captured a"

definition receive :: "attempt \<Rightarrow> ledger \<Rightarrow> ledger" where
  "receive a L = credit (at_order a) (at_amount a) (capture (at_id a) L)"

definition refund_of :: "attempt \<Rightarrow> intent" where
  "refund_of a = \<lparr>in_payment = at_id a, in_order = at_order a, in_amount = at_amount a\<rparr>"

inductive ledger_step :: "ledger \<Rightarrow> ledger \<Rightarrow> bool" where
  opened: "ac_id c \<notin> ac_id ` set (lg_accounts L) \<Longrightarrow> ac_ref c = None \<Longrightarrow> ac_paid c = 0 \<Longrightarrow> ac_status c = pending_payment \<Longrightarrow>
    ledger_step L (open_account c L)"
| attempting: "\<not> at_captured a \<Longrightarrow> 0 < at_amount a \<Longrightarrow> at_id a \<notin> at_id ` set (lg_attempts L) \<Longrightarrow>
    (\<And>b. b \<in> set (lg_attempts L) \<Longrightarrow> (at_order b, at_gateway b) \<noteq> (at_order a, at_gateway a)) \<Longrightarrow> ledger_step L (add_attempt a L)"
| referencing: "g \<noteq> [] \<Longrightarrow>
    (\<And>c. c \<in> set (lg_accounts L) \<Longrightarrow> ac_id c = oid \<Longrightarrow> ac_ref c = None \<or> ac_ref c = Some [] \<or> ac_ref c = Some g) \<Longrightarrow>
    ledger_step L (on_account oid (\<lambda>c. c\<lparr>ac_ref := Some g\<rparr>) L)"
| leaving_pending: "c \<in> set (lg_accounts L) \<Longrightarrow> ac_status c = pending_payment \<Longrightarrow> t \<in> {confirmed, cancelled, abandoned} \<Longrightarrow>
    ledger_step L (move_account (ac_id c) t L)"
| paying: "awaiting L c a \<Longrightarrow> ac_status c = pending_payment \<Longrightarrow> ledger_step L (move_account (ac_id c) confirmed (receive a L))"
| paying_late: "awaiting L c a \<Longrightarrow> ac_status c \<noteq> pending_payment \<Longrightarrow> ledger_step L (add_intent (refund_of a) (receive a L))"
| paying_oversold: "awaiting L c a \<Longrightarrow> ac_status c = pending_payment \<Longrightarrow>
    ledger_step L (add_intent (refund_of a) (move_account (ac_id c) cancelled (receive a L)))"
| cancelling: "c \<in> set (lg_accounts L) \<Longrightarrow> ac_status c \<in> {confirmed, processing} \<Longrightarrow>
    (\<And>a. a \<in> set (lg_attempts L) \<Longrightarrow> at_captured a \<Longrightarrow> at_order a = ac_id c \<Longrightarrow> refunded_in L a) \<Longrightarrow>
    ledger_step L (move_account (ac_id c) cancelled L)"
| refunding: "c \<in> set (lg_accounts L) \<Longrightarrow> ac_status c \<in> {confirmed, processing} \<Longrightarrow> a \<in> set (lg_attempts L) \<Longrightarrow>
    at_captured a \<Longrightarrow> at_order a = ac_id c \<Longrightarrow> \<not> refunded_in L a \<Longrightarrow>
    ledger_step L (add_intent (refund_of a) (move_account (ac_id c) cancelled L))"
| fulfilling: "c \<in> set (lg_accounts L) \<Longrightarrow> ac_status c \<in> {confirmed, processing, ready_to_ship, shipped} \<Longrightarrow>
    t \<in> {processing, ready_to_ship, shipped, out_for_delivery} \<Longrightarrow> ledger_step L (move_account (ac_id c) t L)"
| delivering: "c \<in> set (lg_accounts L) \<Longrightarrow> ac_status c \<in> {shipped, out_for_delivery} \<Longrightarrow>
    ledger_step L (credit (ac_id c) k (collect (ac_id c) k (move_account (ac_id c) delivered L)))"

lemma not_handed_over [simp]:
  "pending_payment \<notin> handed_over" "confirmed \<notin> handed_over" "processing \<notin> handed_over" "ready_to_ship \<notin> handed_over"
  "shipped \<notin> handed_over" "out_for_delivery \<notin> handed_over" "cancelled \<notin> handed_over" "abandoned \<notin> handed_over"
  "delivered \<in> handed_over"
  by (simp_all add: handed_over_def)

lemma settled_status:
  "settled L c \<Longrightarrow> ac_status c = pending_payment \<Longrightarrow> t \<noteq> pending_payment \<Longrightarrow> settled L (c\<lparr>ac_status := t\<rparr>)"
  "t \<notin> {pending_payment, cancelled, abandoned} \<Longrightarrow> settled L (c\<lparr>ac_status := t\<rparr>)"
  by (auto simp: settled_def)

lemma account_settled: "sound None 0 L \<Longrightarrow> c \<in> set (lg_accounts L) \<Longrightarrow> settled L c"
  using soundD(6) by (fastforce simp: all_settled_def)

lemma receive_sound:
  assumes "sound None 0 L" "awaiting L c a"
  shows "sound (Some (at_order a)) 0 (receive a L)"
  unfolding receive_def using assms by (intro credit_sound capture_sound) (auto simp: awaiting_def)


lemma account_fields [simp]:
  "lg_accounts (receive a L) = upd (\<lambda>c. ac_id c = at_order a) (\<lambda>c. c\<lparr>ac_paid := ac_paid c + at_amount a\<rparr>) (lg_accounts L)"
  "lg_accounts (move_account oid t L) = upd (\<lambda>c. ac_id c = oid) (\<lambda>c. c\<lparr>ac_status := t\<rparr>) (lg_accounts L)"
  "lg_attempts (move_account oid t L) = lg_attempts L" "lg_intents (move_account oid t L) = lg_intents L"
  "lg_intents (receive a L) = lg_intents L"
  by (simp_all add: receive_def move_account_def credit_def on_account_def)

lemma received:
  assumes "sound None 0 L" "awaiting L c a"
  shows "a\<lparr>at_captured := True\<rparr> \<in> set (lg_attempts (receive a L))" "\<not> refunded_in (receive a L) a"
proof -
  have a: "a \<in> set (lg_attempts L)" "\<not> at_captured a" using assms(2) by (simp_all add: awaiting_def)
  show "a\<lparr>at_captured := True\<rparr> \<in> set (lg_attempts (receive a L))"
    using in_upd[OF a(1), of "\<lambda>b. at_id b = at_id a" "\<lambda>b. b\<lparr>at_captured := True\<rparr>"] by (simp add: receive_def credit_def capture_def)
  have "at_id b \<noteq> at_id a" if "b \<in> set (lg_attempts L)" "at_captured b" for b
    using that a the_attempt[OF soundD(1)[OF assms(1)] that(1) a(1)] by auto
  then show "\<not> refunded_in (receive a L) a"
    using soundD(3)[OF assms(1)] unfolding intents_ok_def refunded_in_def account_fields by metis
qed

lemma same_status:
  assumes "keyed L" "c \<in> set (lg_accounts L)" "c' \<in> set (lg_accounts L)" "ac_id c' = ac_id c"
  shows "c' = c"
  using the_account[OF assms(1,3,2,4)] .

lemma refund_close:
  assumes M: "sound (Some oid) 0 M" and a: "a \<in> set (lg_attempts M)" "at_captured a" "at_order a = oid" "\<not> refunded_in M a"
    and st: "\<And>c. c \<in> set (lg_accounts M) \<Longrightarrow> ac_id c = oid \<Longrightarrow> ac_status c \<noteq> pending_payment"
  shows "sound None 0 (add_intent (refund_of a) M)"
proof (rule sound_close)
  show M': "sound (Some oid) 0 (add_intent (refund_of a) M)"
    by (rule add_intent_sound[OF M a(1,2) _ _ _ a(4)]) (simp_all add: refund_of_def)
  have only: "b = a" if "b \<in> set (lg_attempts M)" "at_captured b" "at_order b = oid" for b
    using one_capture[OF M that(1) a(1) that(2) a(2)] that(3) a(3) by simp
  have refunded: "refunded_in (add_intent (refund_of a) M) a" by (simp add: refunded_in_def refund_of_def)
  fix c assume "c \<in> set (lg_accounts (add_intent (refund_of a) M))" and id: "ac_id c = oid"
  then have "ac_status c \<noteq> pending_payment" using st by simp
  then show "settled (add_intent (refund_of a) M) c"
    using only refunded id unfolding settled_def by auto
qed

lemma move_known:
  assumes L: "sound ex 0 L" and c: "c \<in> set (lg_accounts L)" "ac_status c \<notin> handed_over"
    and s: "ex \<noteq> Some (ac_id c) \<Longrightarrow> settled L (c\<lparr>ac_status := t\<rparr>)"
  shows "sound ex 0 (move_account (ac_id c) t L)"
proof (rule move_sound[OF L])
  fix c' assume c': "c' \<in> set (lg_accounts L)" "ac_id c' = ac_id c"
  show "(ac_status c' \<in> handed_over \<longrightarrow> t \<in> handed_over) \<and> (ex \<noteq> Some (ac_id c) \<longrightarrow> settled L (c'\<lparr>ac_status := t\<rparr>))"
    unfolding same_status[OF soundD(1)[OF L] c(1) c'] using c(2) s by simp
qed

lemma move_exempt:
  assumes "sound (Some oid) 0 L" "\<And>c. c \<in> set (lg_accounts L) \<Longrightarrow> ac_id c = oid \<Longrightarrow> ac_status c \<notin> handed_over"
  shows "sound (Some oid) 0 (move_account oid t L)"
  by (rule move_sound[OF assms(1)]) (use assms(2) in auto)

lemma receive_statuses:
  assumes "sound None 0 L" "awaiting L c a" "c' \<in> set (lg_accounts (receive a L))" "ac_id c' = at_order a"
  shows "ac_status c' = ac_status c"
  using assms(3,4) same_status[OF soundD(1)[OF assms(1)], of c] assms(2)
  by (auto simp: awaiting_def elim!: set_updE)

theorem ledger_step_sound:
  assumes "ledger_step L L'" "sound None 0 L"
  shows "sound None 0 L'"
  using assms
proof (induction rule: ledger_step.induct)
  case (opened c L)
  then show ?case by (intro open_account_sound)
next
  case (attempting a L)
  then show ?case by (intro add_attempt_sound) auto
next
  case (referencing g L oid)
  then show ?case by (intro set_ref_sound) auto
next
  case (leaving_pending c L t)
  then show ?case
    by (intro move_known settled_status(1) account_settled) auto
next
  case (paying L c a)
  then have id: "ac_id c = at_order a" by (simp add: awaiting_def)
  show ?case unfolding id
  proof (rule sound_close)
    show "sound (Some (at_order a)) 0 (move_account (at_order a) confirmed (receive a L))"
      by (rule move_exempt[OF receive_sound]) (use paying receive_statuses in auto)
  qed (auto simp: settled_def elim!: set_updE)
next
  case (paying_late L c a)
  have "sound None 0 (add_intent (refund_of (a\<lparr>at_captured := True\<rparr>)) (receive a L))"
    by (rule refund_close[OF receive_sound received(1)]) (use paying_late receive_statuses received(2) in \<open>auto simp: refunded_in_def\<close>)
  then show ?case by (simp add: refund_of_def)
next
  case (paying_oversold L c a)
  then have id: "ac_id c = at_order a" by (simp add: awaiting_def)
  let ?M = "move_account (at_order a) cancelled (receive a L)"
  have "sound None 0 (add_intent (refund_of (a\<lparr>at_captured := True\<rparr>)) ?M)"
  proof (rule refund_close)
    show "sound (Some (at_order a)) 0 ?M"
      by (rule move_exempt[OF receive_sound]) (use paying_oversold receive_statuses in auto)
  qed (use received[OF paying_oversold(3,1)] in \<open>auto simp: refunded_in_def elim!: set_updE\<close>)
  then show ?case by (simp add: refund_of_def id)
next
  case (cancelling c L)
  then show ?case by (intro move_known) (auto simp: settled_def refunded_in_def)
next
  case (refunding c L a)
  show ?case
  proof (rule refund_close)
    show "sound (Some (ac_id c)) 0 (move_account (ac_id c) cancelled L)"
      by (rule move_known[OF sound_weaken]) (use refunding in auto)
  qed (use refunding in \<open>auto simp: refunded_in_def elim!: set_updE\<close>)
next
  case (fulfilling c L t)
  then show ?case by (intro move_known settled_status(2)) auto
next
  case (delivering c L k)
  have "sound None 0 (move_account (ac_id c) delivered L)"
    by (rule move_known[OF _ _ _ settled_status(2)]) (use delivering in auto)
  then have "sound (Some (ac_id c)) k (collect (ac_id c) k (move_account (ac_id c) delivered L))"
    by (rule collect_sound[OF _ in_upd[OF delivering(1), of "\<lambda>c'. ac_id c' = ac_id c" "\<lambda>c. c\<lparr>ac_status := delivered\<rparr>", folded account_fields]]) auto
  then show ?case
    by (rule sound_close[OF credit_sound]) (auto simp: settled_def credit_def on_account_def elim!: set_updE)
qed

theorem ledger_steps_sound: "ledger_step\<^sup>*\<^sup>* L L' \<Longrightarrow> sound None 0 L \<Longrightarrow> sound None 0 L'"
  by (induction rule: rtranclp_induct) (auto intro: ledger_step_sound)

end
