(* ===== verification/LedgerView.thy ===== *)
theory LedgerView
  imports Ledger OrderHistory
begin

text \<open>
  The ledger a database stands for, and what each writer of the order books does to it.  A transaction is
  \<open>unseen\<close> when the ledger does not change; the others are the ledger's elementary steps.
\<close>

section \<open>Reading the ledger off the tables\<close>

definition account_of :: "order_row \<Rightarrow> account" where
  "account_of r = \<lparr>ac_id = or_id r, ac_status = or_status r, ac_ref = or_gatewayOrderRef r, ac_paid = or_amountPaidPaise r\<rparr>"

definition attempt_of :: "payment_row \<Rightarrow> attempt" where
  "attempt_of p = \<lparr>at_id = py_id p, at_order = py_orderId p, at_gateway = py_gatewayOrderId p,
     at_amount = py_amountPaise p, at_captured = (py_status p = pay_captured)\<rparr>"

definition intent_of :: "refund_row \<Rightarrow> intent" where
  "intent_of f = \<lparr>in_payment = rf_paymentId f, in_order = rf_orderId f, in_amount = rf_amountPaise f\<rparr>"

text \<open>Cash is recorded on the event that hands the order over.\<close>

definition cod_collected :: "json \<Rightarrow> paise" where
  "cod_collected d = (case d of
     JObject kvs \<Rightarrow> (case map_of kvs ''codCollectedPaise'' of Some (JNumber n) \<Rightarrow> n | _ \<Rightarrow> 0) | _ \<Rightarrow> 0)"

definition handovers :: "order_event_row \<Rightarrow> (uuid \<times> paise) list" where
  "handovers e = (if oe_toStatus e = Some delivered then [(oe_orderId e, cod_collected (oe_data e))] else [])"

definition view :: "db \<Rightarrow> ledger" where
  "view db = \<lparr>lg_accounts = map account_of (db_orders db), lg_attempts = map attempt_of (db_payments db),
     lg_intents = map intent_of (db_refunds db), lg_cash = concat (map handovers (db_orderEvents db))\<rparr>"

lemma row_views [simp]:
  "ac_id (account_of r) = or_id r" "ac_status (account_of r) = or_status r"
  "ac_ref (account_of r) = or_gatewayOrderRef r" "ac_paid (account_of r) = or_amountPaidPaise r"
  "at_id (attempt_of p) = py_id p" "at_order (attempt_of p) = py_orderId p" "at_gateway (attempt_of p) = py_gatewayOrderId p"
  "at_amount (attempt_of p) = py_amountPaise p" "at_captured (attempt_of p) = (py_status p = pay_captured)"
  "in_payment (intent_of f) = rf_paymentId f" "in_order (intent_of f) = rf_orderId f" "in_amount (intent_of f) = rf_amountPaise f"
  by (simp_all add: account_of_def attempt_of_def intent_of_def)

lemma view_fields [simp]:
  "lg_accounts (view db) = map account_of (db_orders db)" "lg_attempts (view db) = map attempt_of (db_payments db)"
  "lg_intents (view db) = map intent_of (db_refunds db)" "lg_cash (view db) = concat (map handovers (db_orderEvents db))"
  by (simp_all add: view_def)

lemma view_eqI:
  "map account_of (db_orders db') = lg_accounts L \<Longrightarrow> map attempt_of (db_payments db') = lg_attempts L \<Longrightarrow>
   map intent_of (db_refunds db') = lg_intents L \<Longrightarrow> concat (map handovers (db_orderEvents db')) = lg_cash L \<Longrightarrow> view db' = L"
  by (simp add: view_def)

lemma view_books: "view (books db) = view db"
  by (simp add: view_def books_def)

lemma map_upd_through:
  "(\<And>r. r \<in> set rows \<Longrightarrow> P r = Q (g r)) \<Longrightarrow> (\<And>r. r \<in> set rows \<Longrightarrow> P r \<Longrightarrow> g (f r) = h (g r)) \<Longrightarrow>
   map g (upd P f rows) = upd Q h (map g rows)"
  by (induction rows) auto

section \<open>Unseen writes\<close>

definition unseen :: "'a dbtx \<Rightarrow> bool" where
  "unseen m \<longleftrightarrow> (\<forall>L. keeps (\<lambda>db. view db = L) m)"

lemma unseenI: "(\<And>L. keeps (\<lambda>db. view db = L) m) \<Longrightarrow> unseen m"
  by (simp add: unseen_def)

lemma unseenD: "unseen m \<Longrightarrow> m db = Inr (x, db') \<Longrightarrow> view db' = view db"
  unfolding unseen_def by (blast dest: keepsD)

interpretation off_ledger: book_invariant "\<lambda>db. view db = L" for L
  by unfold_locales (simp add: view_books)

lemma unseen_write: "(\<And>db. view (f db) = view db) \<Longrightarrow> keeps (\<lambda>db. view db = L) (twrite f)"
  by (rule keeps_write) simp

lemma unseen_draw: "keeps (\<lambda>db. view db = L) draw_uuid"
  by (rule off_ledger.off_draw)

lemmas unseen_rules = keeps_rules unseen_draw unseen_write

lemma unseen_touch:
  "(\<And>db r. account_of (f db r) = account_of r) \<Longrightarrow> unseen (twrite (\<lambda>db. db\<lparr>db_orders := upd P (f db) (db_orders db)\<rparr>))"
  by (intro unseenI unseen_write view_eqI) (simp_all add: map_upd)

lemma unseen_update: "(\<And>r. account_of (f r) = account_of r) \<Longrightarrow> unseen (update_order oid f)"
  unfolding update_order_def by (rule unseen_touch)

lemma unseen_event: "unseen (insertOrderEvent actor oid name data)"
  unfolding insertOrderEvent_def insert_event_def
  by (intro unseenI unseen_rules) (simp add: view_def handovers_def)

lemma unseen_claim: "unseen (claimRedemption promo oid customerId discountPaise)"
  unfolding claimRedemption_def insert_redemption_def
  by (intro unseenI unseen_rules) (simp add: view_def)

lemma unseen_invoice: "unseen (createInvoice ii)"
  unfolding createInvoice_def insert_invoice_def allocateInvoiceNumber_def ensure_series_def Let_def
  by (intro unseenI unseen_rules) (simp_all add: view_def split: option.split)

lemma unseen_refund_moves:
  "unseen (twrite (\<lambda>db. db\<lparr>db_refunds := upd Q (\<lambda>f. f\<lparr>rf_status := st, rf_gatewayRefundId := g f\<rparr>) (db_refunds db)\<rparr>))"
  by (intro unseenI unseen_write view_eqI) (simp_all add: map_upd intent_of_def)

lemma unseen_off:
  "unseen (recordAudit e)" "unseen (revert_cart c)" "unseen (set_cart_status cartId st)"
  "unseen (consumeStockWithin ref lines)" "unseen (restockWithin lines ref)" "unseen (markFirstOrder cid)"
  by (intro unseenI off_ledger.off_audit off_ledger.keeps_cart off_ledger.keeps_consume off_ledger.keeps_restock
      off_ledger.keeps_first_order)+

lemma unseen_coupon: "unseen (claim_coupon actor r mode)"
  using unseen_claim unseen_event unfolding claim_coupon_def unseen_def
  by (intro allI keeps_rules) (auto intro!: keeps_rules split: claim.split)

lemma unseen_restock_live: "unseen (restock_live oid)"
  using unseen_off(5) unfolding restock_live_def unseen_def by (intro allI keeps_rules) auto

section \<open>The writers of the books as ledger steps\<close>

lemma keyed_ids: "keyed (view db) \<Longrightarrow> distinct (map or_id (db_orders db))"
  by (simp add: keyed_def comp_def)

lemma the_order:
  "keyed (view db) \<Longrightarrow> r \<in> set (db_orders db) \<Longrightarrow> r' \<in> set (db_orders db) \<Longrightarrow> or_id r = or_id r' \<Longrightarrow> r = r'"
  by (blast intro: distinct_map_eq dest: keyed_ids)

lemma the_payment:
  "keyed (view db) \<Longrightarrow> p \<in> set (db_payments db) \<Longrightarrow> p' \<in> set (db_payments db) \<Longrightarrow> py_id p = py_id p' \<Longrightarrow> p = p'"
  by (rule distinct_map_eq[of py_id]) (simp_all add: keyed_def comp_def)

lemma found_order: "find_order db oid = Some r \<Longrightarrow> r \<in> set (db_orders db) \<and> or_id r = oid"
  unfolding find_order_def by (rule find_eq_Some)

lemma not_found: "find_order db oid = None \<Longrightarrow> r \<in> set (db_orders db) \<Longrightarrow> or_id r \<noteq> oid"
  by (auto simp: find_order_def find_None_set)

lemma view_update:
  assumes "update_order oid f db = Inr (x, db')"
    and "\<And>r. r \<in> set (db_orders db) \<Longrightarrow> or_id r = oid \<Longrightarrow> account_of (f r) = h (account_of r)"
  shows "view db' = on_account oid h (view db)"
  using assms(1) map_upd_through[of "db_orders db" "\<lambda>r. or_id r = oid" "\<lambda>c. ac_id c = oid" account_of f h] assms(2)
  by (intro view_eqI) (auto simp: update_order_def on_account_def)

lemma view_transition:
  assumes m: "transitionOrder actor oid s t name data db = Inr (x, db')" and k: "keyed (view db)"
  shows "view db' = (if t = delivered then collect oid (cod_collected data) else id) (move_account oid t (view db))"
    and "\<exists>r \<in> set (db_orders db). or_id r = oid \<and> or_status r = s"
proof -
  note tr = transitionOrder_Inr[OF m]
  show "\<exists>r \<in> set (db_orders db). or_id r = oid \<and> or_status r = s" by (rule tr(2))
  then have "(or_id r = oid \<and> or_status r = s) = (or_id r = oid)" if "r \<in> set (db_orders db)" for r
    using that the_order[OF k] by blast
  then have "map account_of (db_orders db') = upd (\<lambda>c. ac_id c = oid) (\<lambda>c. c\<lparr>ac_status := t\<rparr>) (map account_of (db_orders db))"
    unfolding tr(3) by (intro map_upd_through) (simp_all add: account_of_def move_order_def Let_def)
  moreover have "db_payments db' = db_payments db" "db_refunds db' = db_refunds db"
    using m by (auto simp: transitionOrder_def tbind_run insert_event_run split: sum.splits if_splits)
  ultimately show "view db' = (if t = delivered then collect oid (cod_collected data) else id) (move_account oid t (view db))"
    by (intro view_eqI) (auto simp: tr(4) handovers_def collect_def move_account_def on_account_def)
qed

lemma view_place:
  assumes "place_order cartId clean rows promotion cid am db = Inr (co, db')"
  obtains c where "view db' = open_account c (view db)" "ac_id c \<notin> ac_id ` set (lg_accounts (view db))"
    "ac_ref c = None" "ac_paid c = 0" "ac_status c = pending_payment"
proof -
  obtain row e where row: "row = new_order (co_orderId co) (co_orderNumber co) cartId cid clean promotion rows am (db_now db)"
    and db': "db_orders db' = db_orders db @ [row]" "\<forall>r \<in> set (db_orders db). or_id r \<noteq> or_id row"
      "db_orderEvents db' = db_orderEvents db @ [e]" "oe_toStatus e = Some pending_payment"
      "db_refunds db' = db_refunds db" "db_payments db' = db_payments db"
    by (rule place_order_Inr[OF assms])
  show thesis
  proof (rule that[of "account_of row"])
    show "view db' = open_account (account_of row) (view db)"
      using db' by (intro view_eqI) (simp_all add: open_account_def handovers_def)
    show "ac_id (account_of row) \<notin> ac_id ` set (lg_accounts (view db))" using db'(2) by (auto simp: image_iff)
  qed (simp_all add: row new_order_def)
qed

lemma view_payment:
  assumes "insertPayment pin db = Inr (pid, db')"
  shows "view db' = add_attempt \<lparr>at_id = pid, at_order = pin_orderId pin, at_gateway = Some (pin_gatewayOrderId pin),
      at_amount = pin_amountPaise pin, at_captured = False\<rparr> (view db)"
    and "0 < pin_amountPaise pin" "pid \<notin> at_id ` set (lg_attempts (view db))"
  using assms
  by (auto simp: insertPayment_def tbind_run draw_uuid_run list_ex_iff view_def add_attempt_def attempt_of_def split: if_splits)

lemma view_capture:
  assumes "captureOntoPayment pid event db = Inr (x, db')"
  shows "view db' = capture pid (view db)"
proof -
  have "map attempt_of (db_payments db') = upd (\<lambda>a. at_id a = pid) (\<lambda>a. a\<lparr>at_captured := True\<rparr>) (map attempt_of (db_payments db))"
    and "db_orders db' = db_orders db" "db_refunds db' = db_refunds db" "db_orderEvents db' = db_orderEvents db"
    using assms by (auto simp: captureOntoPayment_def markPaymentCaptured_def tbind_run attempt_of_def
        intro!: map_upd_through split: if_splits)
  then show ?thesis by (intro view_eqI) (simp_all add: capture_def)
qed

lemma view_failure:
  assumes "markPaymentFailed pid code description db = Inr (x, db')"
    and "\<And>p. p \<in> set (db_payments db) \<Longrightarrow> py_id p = pid \<Longrightarrow> py_status p \<noteq> pay_captured"
  shows "view db' = view db"
proof -
  have "map attempt_of (upd (\<lambda>p. py_id p = pid) f rows) = map attempt_of rows"
    if "\<And>p. p \<in> set rows \<Longrightarrow> py_id p = pid \<Longrightarrow> attempt_of (f p) = attempt_of p" for f rows
    using that by (induction rows) auto
  then have "map attempt_of (db_payments db') = map attempt_of (db_payments db)"
    and "db_orders db' = db_orders db" "db_refunds db' = db_refunds db" "db_orderEvents db' = db_orderEvents db"
    using assms by (auto simp: markPaymentFailed_def tbind_run attempt_of_def split: if_splits)
  then show ?thesis by (intro view_eqI) simp_all
qed

lemma view_refund:
  assumes m: "createRefundIntent ri db = Inr ((rid, created), db')"
  shows "view db' = (if \<exists>i \<in> set (lg_intents (view db)). in_payment i = ri_paymentId ri then view db
    else add_intent \<lparr>in_payment = ri_paymentId ri, in_order = ri_orderId ri, in_amount = ri_amountPaise ri\<rparr> (view db))"
  using m find_None_set[of "\<lambda>f. rf_paymentId f = ri_paymentId ri" "db_refunds db"] find_eq_Some[of "\<lambda>f. rf_paymentId f = ri_paymentId ri" "db_refunds db"]
  by (auto simp: createRefundIntent_def refund_of_payment_def tbind_run draw_uuid_run view_def add_intent_def intent_of_def
      split: if_splits option.splits)

end
