(* ===== verification/RedemptionLaws.thy ===== *)
theory RedemptionLaws
  imports OrderHistory
begin

text \<open>
  Coupon redemptions.  The slots of a promotion, and of a customer within it, are filled 0, 1, 2 and so on, so
  the counts the limits are checked against are the slots themselves and the unique indexes never fire
  within one transaction.
\<close>

definition slots :: "redemption_row list \<Rightarrow> uuid \<Rightarrow> int list" where
  "slots rows pid = map rd_slot (filter (\<lambda>r. rd_promotionId r = pid) rows)"

definition customer_slots :: "redemption_row list \<Rightarrow> uuid \<Rightarrow> uuid \<Rightarrow> int list" where
  "customer_slots rows pid cid = map rd_customerSlot (filter (\<lambda>r. rd_promotionId r = pid \<and> rd_customerId r = Some cid) rows)"

definition slots_ok :: "redemption_row list \<Rightarrow> bool" where
  "slots_ok rows \<longleftrightarrow>
     (\<forall>pid. slots rows pid = map int [0..<length (slots rows pid)]) \<and>
     (\<forall>pid cid. customer_slots rows pid cid = map int [0..<length (customer_slots rows pid cid)]) \<and>
     distinct (map (\<lambda>r. (rd_promotionId r, rd_orderId r)) rows)"

definition redemptions_ok :: "db \<Rightarrow> bool" where
  "redemptions_ok db \<longleftrightarrow> slots_ok (db_redemptions db)"

lemma redemptions_ok_fresh: "db_redemptions db = [] \<Longrightarrow> redemptions_ok db"
  by (simp add: redemptions_ok_def slots_ok_def slots_def customer_slots_def)

lemma count_slots: "countRedemptions db pid = int (length (slots (db_redemptions db) pid))"
  by (simp add: countRedemptions_def redemptions_of_def slots_def)

lemma count_customer_slots: "countCustomerRedemptions db pid cid = int (length (customer_slots (db_redemptions db) pid cid))"
  by (simp add: countCustomerRedemptions_def redemptions_of_def customer_slots_def conj_commute)

lemma slots_ok_add:
  assumes ok: "slots_ok rows" and slot: "rd_slot row = int (length (slots rows (rd_promotionId row)))"
    and cslot: "\<And>cid. rd_customerId row = Some cid \<Longrightarrow> rd_customerSlot row = int (length (customer_slots rows (rd_promotionId row) cid))"
    and fresh: "\<forall>r \<in> set rows. rd_promotionId r = rd_promotionId row \<longrightarrow> rd_orderId r \<noteq> rd_orderId row"
  shows "slots_ok (rows @ [row])"
proof -
  have s: "slots (rows @ [row]) pid = slots rows pid @ (if pid = rd_promotionId row then [rd_slot row] else [])" for pid
    by (simp add: slots_def)
  have c: "customer_slots (rows @ [row]) pid cid = customer_slots rows pid cid @
      (if pid = rd_promotionId row \<and> rd_customerId row = Some cid then [rd_customerSlot row] else [])" for pid cid
    by (simp add: customer_slots_def)
  have counted: "xs @ [int (length xs)] = map int [0..<Suc (length xs)]" if "xs = map int [0..<length xs]" for xs
    using that by simp
  show ?thesis
    unfolding slots_ok_def
  proof (intro conjI allI)
    show "slots (rows @ [row]) pid = map int [0..<length (slots (rows @ [row]) pid)]" for pid
      using ok slot unfolding s by (auto simp: slots_ok_def intro: counted)
    show "customer_slots (rows @ [row]) pid cid = map int [0..<length (customer_slots (rows @ [row]) pid cid)]" for pid cid
      using ok cslot unfolding c by (auto simp: slots_ok_def intro: counted)
    show "distinct (map (\<lambda>r. (rd_promotionId r, rd_orderId r)) (rows @ [row]))"
      using ok fresh by (auto simp: slots_ok_def)
  qed
qed

text \<open>The next slot is free.\<close>

lemma next_slot_free:
  assumes "slots_ok rows"
  shows "list_all (\<lambda>r. rd_promotionId r = pid \<longrightarrow> rd_slot r \<noteq> int (length (slots rows pid))) rows"
    "list_all (\<lambda>r. rd_promotionId r = pid \<and> rd_customerId r = Some cid \<longrightarrow>
        rd_customerSlot r \<noteq> int (length (customer_slots rows pid cid))) rows"
proof -
  have "rd_slot r \<in> set (slots rows pid)" if "r \<in> set rows" "rd_promotionId r = pid" for r
    using that by (auto simp: slots_def)
  moreover have "set (slots rows pid) = int ` {0..<length (slots rows pid)}"
    using assms by (metis slots_ok_def list.set_map set_upt)
  ultimately show "list_all (\<lambda>r. rd_promotionId r = pid \<longrightarrow> rd_slot r \<noteq> int (length (slots rows pid))) rows"
    by (fastforce simp: list_all_iff)
  have "rd_customerSlot r \<in> set (customer_slots rows pid cid)"
    if "r \<in> set rows" "rd_promotionId r = pid" "rd_customerId r = Some cid" for r
    using that by (auto simp: customer_slots_def)
  moreover have "set (customer_slots rows pid cid) = int ` {0..<length (customer_slots rows pid cid)}"
    using assms by (metis slots_ok_def list.set_map set_upt)
  ultimately show "list_all (\<lambda>r. rd_promotionId r = pid \<and> rd_customerId r = Some cid \<longrightarrow>
        rd_customerSlot r \<noteq> int (length (customer_slots rows pid cid))) rows"
    by (fastforce simp: list_all_iff)
qed

section \<open>The whole claim\<close>

definition over :: "int option \<Rightarrow> int \<Rightarrow> bool" where
  "over limit n \<longleftrightarrow> (case limit of None \<Rightarrow> False | Some m \<Rightarrow> m \<le> n)"

definition customer_count :: "db \<Rightarrow> uuid \<Rightarrow> uuid option \<Rightarrow> int" where
  "customer_count db pid customer = (case customer of None \<Rightarrow> 0 | Some cid \<Rightarrow> countCustomerRedemptions db pid cid)"

definition claim_outcome :: "promotion_data \<Rightarrow> uuid \<Rightarrow> uuid option \<Rightarrow> paise \<Rightarrow> db \<Rightarrow> claim \<times> db" where
  "claim_outcome promo oid customer discountPaise db =
    (let pid = pd_id promo in
     case find (\<lambda>r. rd_orderId r = oid) (redemptions_of db pid) of
       Some r \<Rightarrow> (claimed (rd_id r) (rd_slot r) (rd_customerSlot r), db)
     | None \<Rightarrow>
         if over (pd_usageLimitTotal promo) (countRedemptions db pid) \<or>
            customer \<noteq> None \<and> over (pd_usageLimitPerCustomer promo) (customer_count db pid customer)
         then (claim_exhausted, db)
         else (claimed (db_uuidv7 db (db_drawn db)) (countRedemptions db pid) (customer_count db pid customer),
               db\<lparr>db_drawn := Suc (db_drawn db), db_redemptions := db_redemptions db @
                 [\<lparr>rd_id = db_uuidv7 db (db_drawn db), rd_promotionId = pid, rd_orderId = oid, rd_customerId = customer,
                   rd_slot = countRedemptions db pid, rd_customerSlot = customer_count db pid customer,
                   rd_discountPaise = discountPaise\<rparr>]\<rparr>))"

lemma find_redemption_None:
  "find (\<lambda>r. rd_orderId r = oid) (redemptions_of db pid) = None \<longleftrightarrow>
   list_all (\<lambda>r. rd_promotionId r = pid \<longrightarrow> rd_orderId r \<noteq> oid) (db_redemptions db)"
  by (auto simp: find_None_set redemptions_of_def list_all_iff)

lemma claimRedemption_run:
  assumes ok: "redemptions_ok db" and nonneg: "0 \<le> discountPaise"
  shows "claimRedemption promo oid customer discountPaise db = Inr (claim_outcome promo oid customer discountPaise db)"
proof (cases "find (\<lambda>r. rd_orderId r = oid) (redemptions_of db (pd_id promo))")
  case (Some r)
  then show ?thesis using nonneg by (simp add: claimRedemption_def claim_outcome_def tbind_run)
next
  case None
  have free: "list_all (\<lambda>r. rd_promotionId r = pd_id promo \<longrightarrow> rd_slot r \<noteq> countRedemptions db (pd_id promo)) (db_redemptions db)"
    using ok next_slot_free(1) by (simp add: redemptions_ok_def count_slots)
  have cfree: "list_all (\<lambda>r. rd_promotionId r = pd_id promo \<and> rd_customerId r = Some cid \<longrightarrow>
      rd_customerSlot r \<noteq> countCustomerRedemptions db (pd_id promo) cid) (db_redemptions db)" for cid
    using ok next_slot_free(2) by (simp add: redemptions_ok_def count_customer_slots)
  note none = None[unfolded find_redemption_None]
  show ?thesis
    using nonneg None none free cfree
    by (cases customer; cases "pd_usageLimitTotal promo"; cases "pd_usageLimitPerCustomer promo")
      (simp_all add: claimRedemption_def claim_outcome_def over_def customer_count_def insert_redemption_def trethrow_def tbind_run Let_def)
qed

lemma claim_outcome_ok:
  assumes "redemptions_ok db"
  shows "redemptions_ok (snd (claim_outcome promo oid customer d db))"
proof (cases "find (\<lambda>r. rd_orderId r = oid) (redemptions_of db (pd_id promo))")
  case None
  then have "\<forall>r \<in> set (db_redemptions db). rd_promotionId r = pd_id promo \<longrightarrow> rd_orderId r \<noteq> oid"
    unfolding find_redemption_None by (simp add: list_all_iff)
  then show ?thesis
    using assms None
    by (auto simp: claim_outcome_def redemptions_ok_def Let_def count_slots customer_count_def count_customer_slots
        intro!: slots_ok_add)
qed (use assms in \<open>simp add: claim_outcome_def\<close>)

lemma keeps_redemptions_claim: "keeps redemptions_ok (claimRedemption promo oid customer d)"
proof (rule keepsI)
  fix db x db' assume ok: "redemptions_ok db" and m: "claimRedemption promo oid customer d db = Inr (x, db')"
  have "0 \<le> d" using m by (cases "0 \<le> d") (simp_all add: claimRedemption_def tbind_run)
  then show "redemptions_ok db'" using m claimRedemption_run[OF ok] claim_outcome_ok[OF ok] by (metis Inr_inject snd_conv)
qed

lemma redemptions_ok_ignores:
  "redemptions_ok (books db) = redemptions_ok db"
  "redemptions_ok (no_payments (books db)) = redemptions_ok db" "redemptions_ok (no_refunds (books db)) = redemptions_ok db"
  "redemptions_ok (no_invoices (books db)) = redemptions_ok db" "redemptions_ok (no_orders (books db)) = redemptions_ok db"
  by (simp_all add: redemptions_ok_def hide_defs)

interpretation redeeming: book_parts redemptions_ok
proof unfold_locales
  show "redemptions_ok (books db) = redemptions_ok db" for db by (rule redemptions_ok_ignores)
qed (rule keeps_redemptions_claim | rule keeps_off, rule off_tables, rule redemptions_ok_ignores)+

lemma claim_within:
  assumes "db2 = snd (claim_outcome promo oid (Some cid) d db)"
  shows "db_redemptions db2 = db_redemptions db \<or>
    (\<not> over (pd_usageLimitTotal promo) (countRedemptions db (pd_id promo)) \<and>
     \<not> over (pd_usageLimitPerCustomer promo) (countCustomerRedemptions db (pd_id promo) cid) \<and>
     countRedemptions db2 (pd_id promo) = countRedemptions db (pd_id promo) + 1 \<and>
     countCustomerRedemptions db2 (pd_id promo) cid = countCustomerRedemptions db (pd_id promo) cid + 1)"
proof (cases "find (\<lambda>r. rd_orderId r = oid) (redemptions_of db (pd_id promo))")
  case None
  then show ?thesis
    unfolding assms claim_outcome_def Let_def
    by (simp add: customer_count_def countRedemptions_def countCustomerRedemptions_def redemptions_of_def)
qed (simp add: assms claim_outcome_def)

lemma not_over: "\<not> over limit n \<Longrightarrow> (case limit of None \<Rightarrow> True | Some m \<Rightarrow> n + 1 \<le> m)"
  by (simp add: over_def split: option.splits)

section \<open>Properties\<close>


text \<open>A one-use coupon: the first order takes slot 0, the second finds it exhausted.\<close>

definition sample_coupon :: promotion_data where
  "sample_coupon = \<lparr>pd_id = 80, pd_code = ''ONCE'', pd_name = ''Once'', pd_status = promo_active, pd_startsAt = None,
     pd_endsAt = None, pd_conditions = [], pd_effects = [], pd_usageLimitTotal = Some 1, pd_usageLimitPerCustomer = None\<rparr>"


end
