(* ===== verification/MoneyLaws.thy ===== *)
theory MoneyLaws
  imports LedgerView RedemptionLaws
begin

text \<open>
  The money of the shop.  Every transaction of the checkout is a sequence of steps of the ledger
  machine (a simulation along \<open>view\<close>), so what the ledger keeps holds of the tables: what an order was paid is
  what was captured and collected for it, a payment is refunded at most once and in full, and no
  captured payment of a dead order goes without its refund.
\<close>

section \<open>Transactions as ledger steps\<close>

lemma resolved:
  assumes "resolve_event event db = Inr (Some (r, p), db')" "keyed (view db)"
  shows "db' = db" "r \<in> set (db_orders db)" "p \<in> set (db_payments db)" "py_orderId p = or_id r"
    "or_gatewayOrderRef r = py_gatewayOrderId p" "py_gatewayOrderId p \<noteq> None"
proof -
  let ?g = "ge_gatewayOrderId event"
  have db': "db' = db" and hit: "(case order_by_ref db ?g of None \<Rightarrow> None
    | Some ref \<Rightarrow> (case find_order db (or_id ref) of None \<Rightarrow> None
      | Some r \<Rightarrow> map_option (\<lambda>p. (r, p)) (findPaymentByGatewayOrder db (or_id r) ?g))) = Some (r, p)"
    using assms(1) unfolding resolve_event_def tread_run sum.inject prod.inject by blast+
  obtain ref where ref: "order_by_ref db ?g = Some ref" and r: "find_order db (or_id ref) = Some r"
    and p: "findPaymentByGatewayOrder db (or_id r) ?g = Some p"
    using hit by (cases "order_by_ref db ?g"; simp) (auto split: option.splits)
  have "ref \<in> set (db_orders db)" "or_gatewayOrderRef ref = Some (ge_gatewayOrderId event)"
    using find_eq_Some[OF ref[unfolded order_by_ref_def]] by auto
  moreover note found_order[OF r]
  moreover have "ref = r" using the_order[OF assms(2)] calculation by metis
  moreover have "p \<in> set (db_payments db)" "py_orderId p = or_id r" "py_gatewayOrderId p = Some (ge_gatewayOrderId event)"
    using find_eq_Some[OF p[unfolded findPaymentByGatewayOrder_def]] by auto
  ultimately show "db' = db" "r \<in> set (db_orders db)" "p \<in> set (db_payments db)" "py_orderId p = or_id r"
    "or_gatewayOrderRef r = py_gatewayOrderId p" "py_gatewayOrderId p \<noteq> None"
    using db' by auto
qed

lemma resolved_awaiting:
  assumes "resolve_event event db = Inr (Some (r, p), db')" "keyed (view db)" "py_status p \<noteq> pay_captured"
  shows "awaiting (view db) (account_of r) (attempt_of p)"
  using resolved[OF assms(1,2)] assms(3) by (auto simp: awaiting_def)

lemma receive_run:
  assumes "captureOntoPayment (py_id p) event db = Inr (x, s)" "update_order (py_orderId p) f s = Inr (y, db')"
    and "\<And>r. account_of r \<in> set (lg_accounts (view db)) \<Longrightarrow> or_id r = py_orderId p \<Longrightarrow>
      account_of (f r) = account_of r\<lparr>ac_paid := or_amountPaidPaise r + py_amountPaise p\<rparr>"
  shows "view db' = receive (attempt_of p) (view db)"
proof -
  have s: "view s = capture (py_id p) (view db)" by (rule view_capture[OF assms(1)])
  have "account_of r \<in> set (lg_accounts (view db))" if "r \<in> set (db_orders s)" for r
    using that arg_cong[OF s, of lg_accounts] by (metis image_eqI ledger_fields(4) list.set_map view_fields(1))
  then have "view db' = on_account (py_orderId p) (\<lambda>c. c\<lparr>ac_paid := ac_paid c + py_amountPaise p\<rparr>) (view s)"
    using assms(3) by (intro view_update[OF assms(2)]) auto
  then show ?thesis by (simp add: receive_def credit_def s)
qed

lemma core_run:
  assumes m: "confirmOrderCore actor r lines seller settings mode db = Inr (x, db')" and k: "keyed (view db)"
  shows "view db' = move_account (or_id r) confirmed (view db)" "\<exists>r' \<in> set (db_orders db). or_id r' = or_id r \<and> or_status r' = or_status r"
proof -
  let ?sale = "if holdLinesOf lines \<noteq> []
    then tbind (consumeStockWithin (checkout_ref (or_id r)) (holdLinesOf lines)) (\<lambda>(results, productIds). treturn productIds)
    else treturn []"
  let ?first = "case or_customerId r of None \<Rightarrow> treturn () | Some cid \<Rightarrow> markFirstOrder cid"
  obtain ps s1 e s2 u1 s3 iv s4 u2 s5 u3 s6 au where
    1: "?sale db = Inr (ps, s1)"
    and 2: "transitionOrder actor (or_id r) (or_status r) confirmed ''order.confirmed''
              (JObject [(''orderNumber'', JNumber (or_orderNumber r))]) s1 = Inr (e, s2)"
    and 3: "claim_coupon actor r mode s2 = Inr (u1, s3)" and 4: "createInvoice (invoice_of r lines seller settings) s3 = Inr (iv, s4)"
    and 5: "?first s4 = Inr (u2, s5)" and 6: "recordAudit au s5 = Inr (u3, s6)" and 7: "treturn ps s6 = Inr (x, db')"
    using m unfolding confirmOrderCore_def tbind_eq_Inr by blast
  have "unseen ?sale" using unseen_off(4) unfolding unseen_def by (intro allI keeps_rules) blast
  then have s1: "view s1 = view db" using 1 by (rule unseenD[of ?sale])
  have s2: "view s2 = move_account (or_id r) confirmed (view s1)" using view_transition(1)[OF 2] k s1 by simp
  have "unseen ?first" using unseen_off(6) unfolding unseen_def by (intro allI keeps_rules) blast
  then have "view s5 = view s4" using 5 by (rule unseenD[of ?first])
  then have "view s5 = view s2" using unseenD[OF unseen_coupon 3] unseenD[OF unseen_invoice 4] by simp
  then show "view db' = move_account (or_id r) confirmed (view db)"
    using unseenD[OF unseen_off(1) 6] s1 s2 7 by simp
  have "account_of ` set (db_orders s1) = account_of ` set (db_orders db)"
    using arg_cong[OF s1, of lg_accounts] by (metis list.set_map view_fields(1))
  moreover obtain r' where "r' \<in> set (db_orders s1)" "or_id r' = or_id r" "or_status r' = or_status r"
    using view_transition(2)[OF 2] k s1 by auto
  ultimately obtain r'' where "r'' \<in> set (db_orders db)" "account_of r'' = account_of r'" by (metis imageE imageI)
  then show "\<exists>r' \<in> set (db_orders db). or_id r' = or_id r \<and> or_status r' = or_status r"
    using \<open>or_id r' = or_id r\<close> \<open>or_status r' = or_status r\<close> by (metis row_views(1,2))
qed


section \<open>The handlers\<close>

text \<open>\<open>moves m\<close>: on sound books \<open>m\<close> is a sequence of ledger steps.\<close>

definition moves :: "'a dbtx \<Rightarrow> bool" where
  "moves m \<longleftrightarrow> (\<forall>db x db'. sound None 0 (view db) \<longrightarrow> m db = Inr (x, db') \<longrightarrow> ledger_step\<^sup>*\<^sup>* (view db) (view db'))"

lemma movesI:
  "(\<And>db x db'. sound None 0 (view db) \<Longrightarrow> m db = Inr (x, db') \<Longrightarrow> ledger_step\<^sup>*\<^sup>* (view db) (view db')) \<Longrightarrow> moves m"
  by (simp add: moves_def)

lemma unseen_moves: "unseen m \<Longrightarrow> moves m"
  by (rule movesI) (simp add: unseenD)

text \<open>Leaving the pending state without money.\<close>

lemma leave_step:
  assumes "find_order db oid = Some r" "or_status r = pending_payment" "t \<in> {confirmed, cancelled, abandoned}"
  shows "ledger_step (view db) (move_account oid t (view db))"
  using ledger_step.leaving_pending[of "account_of r" "view db" t] assms found_order[OF assms(1)] by auto

lemma moves_cancel_pending: "moves (cancelPendingTx oid reason name data)"
proof (rule movesI)
  fix db x db' assume L: "sound None 0 (view db)" and m: "cancelPendingTx oid reason name data db = Inr (x, db')"
  show "ledger_step\<^sup>*\<^sup>* (view db) (view db')"
  proof (cases "\<exists>r. find_order db oid = Some r \<and> or_status r = pending_payment")
    case True
    then obtain r e s1 u s2 where r: "find_order db oid = Some r" "or_status r = pending_payment"
      and 1: "transitionOrder system_actor_ctx oid (or_status r) cancelled name data db = Inr (e, s1)"
      and 2: "update_order oid (\<lambda>r. r\<lparr>or_cancelReason := Some reason\<rparr>) s1 = Inr (u, s2)"
      and 3: "revert_cart (or_cartId r) s2 = Inr (x, db')"
      using m by (auto simp: cancelPendingTx_def lockOrder_def tbind_eq_Inr)
    have "view db' = move_account oid cancelled (view db)"
      using view_transition(1)[OF 1 soundD(1)[OF L]] unseenD[OF unseen_update 2] unseenD[OF unseen_off(2) 3]
      by (simp add: account_of_def)
    then show ?thesis using leave_step[OF r, of cancelled] by auto
  next
    case False
    then show ?thesis using m by (auto simp: cancelPendingTx_def lockOrder_def tbind_eq_Inr split: option.splits)
  qed
qed

lemma moves_expire: "moves (expireTx oid)"
proof (rule movesI)
  fix db x db' assume L: "sound None 0 (view db)" and m: "expireTx oid db = Inr (x, db')"
  show "ledger_step\<^sup>*\<^sup>* (view db) (view db')"
  proof (cases "x = expiry_abandoned")
    case True
    then obtain r e s1 u where r: "find_order db oid = Some r" "or_status r = pending_payment"
      and 1: "transitionOrder system_actor_ctx oid (or_status r) abandoned ''order.abandoned''
                  (JObject [(''orderNumber'', JNumber (or_orderNumber r))]) db = Inr (e, s1)"
      and 2: "revert_cart (or_cartId r) s1 = Inr (u, db')"
      using m by (auto simp: expireTx_def lockOrder_def tbind_eq_Inr split: option.splits if_splits)
    have "view db' = move_account oid abandoned (view db)"
      using view_transition(1)[OF 1 soundD(1)[OF L]] unseenD[OF unseen_off(2) 2] by simp
    then show ?thesis using leave_step[OF r, of abandoned] by auto
  next
    case False
    then show ?thesis using m by (auto simp: expireTx_def lockOrder_def tbind_eq_Inr split: option.splits if_splits)
  qed
qed

lemma moves_confirm_cod: "moves (confirmCodTx oid seller settings)"
proof (rule movesI)
  fix db x db' assume L: "sound None 0 (view db)" and m: "confirmCodTx oid seller settings db = Inr (x, db')"
  obtain r lines ps s1 f u where r: "find_order db oid = Some r" "or_status r = pending_payment"
    and 1: "confirmOrderCore customer_actor_ctx r lines seller settings refuse_exhausted db = Inr (ps, s1)"
    and 2: "update_order oid f s1 = Inr (u, db')" and f: "\<And>r. account_of (f r) = account_of r"
    using m by (auto simp: confirmCodTx_def lockOrder_def tbind_eq_Inr account_of_def split: option.splits if_splits)
  have "view db' = move_account oid confirmed (view db)"
    using core_run(1)[OF 1 soundD(1)[OF L]] unseenD[OF unseen_update[OF f] 2] found_order[OF r(1)] by simp
  then show "ledger_step\<^sup>*\<^sup>* (view db) (view db')" using leave_step[OF r, of confirmed] by auto
qed

lemma moves_place: "moves (place_order cartId clean rows promotion cid am)"
  by (rule movesI, erule view_place) (metis ledger_step.opened r_into_rtranclp)

lemma moves_extend: "moves (extend_ttl oid)"
proof (rule unseen_moves, rule unseenI)
  fix L
  show "keeps (\<lambda>db. view db = L) (extend_ttl oid)"
    unfolding extend_ttl_def lockOrder_def
    by (intro unseen_rules view_eqI) (auto simp: account_of_def intro!: map_upd)
qed

lemma moves_refund_sent: "moves (twrite (\<lambda>db. db\<lparr>db_refunds := upd Q (\<lambda>f. f\<lparr>rf_status := st, rf_gatewayRefundId := g f\<rparr>) (db_refunds db)\<rparr>))"
  by (rule unseen_moves) (rule unseen_refund_moves)


text \<open>Payment start: a fresh attempt, unless it was recorded before, and its reference on the order.\<close>

lemma reference_step:
  assumes L: "sound None 0 (view db)" and stored: "truthy (case find_order db oid of Some r \<Rightarrow> or_gatewayOrderRef r | None \<Rightarrow> None) \<in> {None, Some g}"
    and g: "g \<noteq> []" and m: "set_gateway_ref oid g provider s = Inr (x, db')" and acc: "lg_accounts (view s) = lg_accounts (view db)"
  shows "ledger_step (view s) (view db')"
proof -
  obtain y where u: "update_order oid (\<lambda>r. r\<lparr>or_gatewayOrderRef := Some g, or_paymentProvider := Some provider\<rparr>) s = Inr (y, db')"
    using m by (auto simp: set_gateway_ref_def tbind_eq_Inr split: if_splits)
  have v: "view db' = on_account oid (\<lambda>c. c\<lparr>ac_ref := Some g\<rparr>) (view s)"
    by (rule view_update[OF u]) (simp add: account_of_def)
  show ?thesis unfolding v
  proof (rule ledger_step.referencing[OF g])
    fix c assume "c \<in> set (lg_accounts (view s))" and id: "ac_id c = oid"
    then obtain r where r: "r \<in> set (db_orders db)" "c = account_of r" unfolding acc by auto
    obtain r' where r': "find_order db oid = Some r'" using not_found[OF _ r(1)] id r(2) by (cases "find_order db oid") auto
    then have "r' = r" using the_order[OF soundD(1)[OF L]] found_order[OF r'] r id by auto
    then show "ac_ref c = None \<or> ac_ref c = Some [] \<or> ac_ref c = Some g"
      using stored r' r(2) by (auto simp: truthy_def split: option.splits if_splits)
  qed
qed

lemma moves_gateway_order:
  assumes g: "minted \<noteq> []"
  shows "moves (recordGatewayOrder oid account amountPaise minted)"
proof (rule movesI)
  fix db x db' assume L: "sound None 0 (view db)" and m: "recordGatewayOrder oid account amountPaise minted db = Inr (x, db')"
  let ?stored = "truthy (case find_order db oid of Some r \<Rightarrow> or_gatewayOrderRef r | None \<Rightarrow> None)"
  show "ledger_step\<^sup>*\<^sup>* (view db) (view db')"
  proof (cases "?stored \<in> {None, Some minted}")
    case False
    then show ?thesis using m by (auto simp: recordGatewayOrder_def storedGatewayRef_def lockOrder_def tbind_eq_Inr split: option.splits)
  next
    case stored: True
    then have none: "(case ?stored of Some ref \<Rightarrow> if ref \<noteq> minted then Some ref else None | None \<Rightarrow> None) = None" by auto
    let ?pin = "\<lparr>pin_orderId = oid, pin_paymentAccountId = pa_id account, pin_providerCode = pa_providerCode account,
                     pin_amountPaise = amountPaise, pin_gatewayOrderId = minted\<rparr>"
    obtain s u y where 1: "(case findPaymentByGatewayOrder db oid minted of
                  Some p \<Rightarrow> treturn ()
                | None \<Rightarrow> tbind (insertPayment ?pin) (\<lambda>_. treturn ())) db = Inr (y, s)"
      and 2: "set_gateway_ref oid minted (pa_providerCode account) s = Inr (u, db')"
      using m none by (auto simp: recordGatewayOrder_def storedGatewayRef_def lockOrder_def tbind_eq_Inr)
    have s: "ledger_step\<^sup>*\<^sup>* (view db) (view s) \<and> lg_accounts (view s) = lg_accounts (view db)"
    proof (cases "findPaymentByGatewayOrder db oid minted")
      case (Some p)
      then show ?thesis using 1 by simp
    next
      case None
      then obtain pid where pay: "insertPayment ?pin db = Inr (pid, s)" using 1 by (auto simp: tbind_eq_Inr)
      note v = view_payment[OF pay]
      have "(py_orderId p, py_gatewayOrderId p) \<noteq> (oid, Some minted)" if "p \<in> set (db_payments db)" for p
        using None that by (auto simp: findPaymentByGatewayOrder_def find_None_set)
      then have "ledger_step (view db) (view s)"
        unfolding v(1) using v(2,3) by (intro ledger_step.attempting) auto
      then show ?thesis using v(1) by auto
    qed
    then show ?thesis using reference_step[OF L stored g 2] by auto
  qed
qed

text \<open>The money transaction.\<close>

lemma refund_step:
  assumes L: "sound None 0 (view db)" and a: "awaiting (view db) (account_of r) (attempt_of p)"
    and s: "view s = M" "lg_intents M = lg_intents (view db)"
    and m: "createRefundIntent ri s = Inr ((rid, created), db')"
    and ri: "ri_paymentId ri = py_id p" "ri_orderId ri = py_orderId p" "ri_amountPaise ri = py_amountPaise p"
  shows "view db' = add_intent (refund_of (attempt_of p)) M"
proof -
  have "\<not> refunded_in (view db) (attempt_of p)"
    using received(2)[OF L a] unfolding refunded_in_def account_fields .
  then have "\<not> (\<exists>i \<in> set (lg_intents (view s)). in_payment i = ri_paymentId ri)"
    unfolding s refunded_in_def ri row_views .
  then show ?thesis using view_refund[OF m] s(1) ri by (simp add: refund_of_def)
qed

lemma unseen_noted: "unseen (if b then tbind (insertOrderEvent actor oid name data) (\<lambda>_. treturn ()) else treturn ())"
  using unseen_event unfolding unseen_def by (intro allI keeps_rules) blast

lemma moves_captured: "moves (capturedTx event wid seller settings)"
proof (rule movesI)
  fix db x db' assume L: "sound None 0 (view db)" and m: "capturedTx event wid seller settings db = Inr (x, db')"
  note k = soundD(1)[OF L]
  obtain found s0 where 0: "resolve_event event db = Inr (found, s0)"
    and body: "(case found of None \<Rightarrow> treturn cap_ignored
     | Some (r, p) \<Rightarrow>
         if py_status p = pay_captured then treturn cap_replay
         else if ge_amountPaise event \<noteq> py_amountPaise p then captureMismatch r p event wid
         else if or_status r \<noteq> pending_payment then lateCapture r p event wid
         else confirmCapture r p event seller settings) s0 = Inr (x, db')"
    using m unfolding capturedTx_def tbind_eq_Inr by blast
  have s0: "s0 = db" using 0 unfolding resolve_event_def tread_run by blast
  show "ledger_step\<^sup>*\<^sup>* (view db) (view db')"
  proof (cases found)
    case None
    then show ?thesis using body s0 by simp
  next
    case (Some rp)
    obtain r p where rp: "found = Some (r, p)" using Some by (cases rp) auto
    note res = resolved[OF 0[unfolded rp] k]
    note body = body[unfolded rp s0 option.case prod.case]
    consider "py_status p = pay_captured" | "py_status p \<noteq> pay_captured" "ge_amountPaise event \<noteq> py_amountPaise p"
      | "py_status p \<noteq> pay_captured" "ge_amountPaise event = py_amountPaise p" "or_status r \<noteq> pending_payment"
      | "py_status p \<noteq> pay_captured" "ge_amountPaise event = py_amountPaise p" "or_status r = pending_payment" by blast
    then show ?thesis
    proof cases
      case 1
      then show ?thesis using body by simp
    next
      case 2
      then obtain u s1 e code d name data where f: "markPaymentFailed (py_id p) code d db = Inr (u, s1)"
        and e: "insertOrderEvent system_actor_ctx (or_id r) name data s1 = Inr (e, db')"
        using body by (auto simp: captureMismatch_def tbind_eq_Inr)
      have "view s1 = view db"
        by (rule view_failure[OF f]) (use the_payment[OF k _ res(3)] 2 in auto)
      then show ?thesis using unseenD[OF unseen_event e] by simp
    next
      case 3
      note aw = resolved_awaiting[OF 0[unfolded rp] k 3(1)]
      let ?ri = "\<lparr>ri_orderId = or_id r, ri_paymentId = py_id p, ri_amountPaise = py_amountPaise p,
        ri_reason = ''late_capture_abandoned'', ri_createdByUserId = None\<rparr>"
      let ?f = "\<lambda>r'. r'\<lparr>or_amountPaidPaise := or_amountPaidPaise r' + py_amountPaise p, or_paymentStatus := ops_refund_initiated\<rparr>"
      have late: "lateCapture r p event wid db = Inr (x, db')" using body 3 by simp
      obtain u1 s1 u2 s2 rid created s3 b name data u4 where c1: "captureOntoPayment (py_id p) event db = Inr (u1, s1)"
        and c2: "update_order (or_id r) ?f s1 = Inr (u2, s2)" and c3: "createRefundIntent ?ri s2 = Inr ((rid, created), s3)"
        and noted: "(if b then tbind (insertOrderEvent system_actor_ctx (or_id r) name data) (\<lambda>_. treturn ())
            else treturn ()) s3 = Inr (u4, db')"
        using late unfolding lateCapture_def tbind_eq_Inr 3(2) split_paired_Ex prod.case treturn_run by blast
      have c4: "view db' = view s3" by (rule unseenD[OF unseen_noted noted])
      have "view s2 = receive (attempt_of p) (view db)"
        by (rule receive_run[OF c1 c2[folded res(4)]]) (simp add: account_of_def)
      then have "view db' = add_intent (refund_of (attempt_of p)) (receive (attempt_of p) (view db))"
        unfolding c4 by (intro refund_step[OF L aw _ _ c3]) (simp_all add: res)
      then show ?thesis using ledger_step.paying_late[OF aw] 3 by auto
    next
      case 4
      note aw = resolved_awaiting[OF 0[unfolded rp] k 4(1)]
      let ?f = "\<lambda>r'. r'\<lparr>or_amountPaidPaise := or_amountPaidPaise r + py_amountPaise p,
         or_paymentStatus := (if or_amountPaidPaise r + py_amountPaise p \<ge> or_totalPaise r then ops_paid else ops_partially_paid)\<rparr>"
      obtain u1 s1 u2 s2 lines ps where c1: "captureOntoPayment (py_id p) event db = Inr (u1, s1)"
        and c2: "update_order (or_id r) ?f s1 = Inr (u2, s2)"
        and c3: "confirmOrderCore system_actor_ctx r lines seller settings overredeem s2 = Inr (ps, db')"
        using body 4 by (auto simp: confirmCapture_def tbind_eq_Inr Let_def)
      have s2: "view s2 = receive (attempt_of p) (view db)"
      proof (rule receive_run[OF c1 c2[folded res(4)]])
        fix r' assume "account_of r' \<in> set (lg_accounts (view db))" "or_id r' = py_orderId p"
        then have "account_of r' = account_of r" using the_account[OF k, of "account_of r'" "account_of r"] res(2,4) by simp
        then show "account_of (?f r') = account_of r'\<lparr>ac_paid := or_amountPaidPaise r' + py_amountPaise p\<rparr>"
          by (simp add: account_of_def)
      qed
      have "view db' = move_account (or_id r) confirmed (receive (attempt_of p) (view db))"
        using core_run(1)[OF c3] soundD(1)[OF receive_sound[OF L aw]] s2 by simp
      then show ?thesis using ledger_step.paying[OF aw] 4 by auto
    qed
  qed
qed


text \<open>The oversold transaction runs where the money transaction failed on stock.\<close>

lemma stock_failure_pending:
  assumes "capturedTx event wid seller settings db = Inl e" "isStockFailure e"
  obtains r p where "resolve_event event db = Inr (Some (r, p), db)" "py_status p \<noteq> pay_captured"
    "ge_amountPaise event = py_amountPaise p" "or_status r = pending_payment"
proof -
  obtain found where 0: "resolve_event event db = Inr (found, db)" by (simp add: resolve_event_def)
  have body: "(case found of None \<Rightarrow> treturn cap_ignored
     | Some (r, p) \<Rightarrow>
         if py_status p = pay_captured then treturn cap_replay
         else if ge_amountPaise event \<noteq> py_amountPaise p then captureMismatch r p event wid
         else if or_status r \<noteq> pending_payment then lateCapture r p event wid
         else confirmCapture r p event seller settings) db = Inl e"
    using assms(1) by (simp add: capturedTx_def tbind_run 0)
  then obtain r p where rp: "found = Some (r, p)" by (cases found) auto
  have "captureMismatch r p event wid db \<noteq> Inl e" "lateCapture r p event wid db \<noteq> Inl e"
    using assms(2)
    by (auto simp: captureMismatch_def lateCapture_def markPaymentFailed_def captureOntoPayment_def markPaymentCaptured_def
        insertOrderEvent_def insert_event_run update_order_def createRefundIntent_def tbind_run draw_uuid_run
        notFound_def uniqueViolation_def invalidPayload_def split: if_splits option.splits)
  then have "py_status p \<noteq> pay_captured" "ge_amountPaise event = py_amountPaise p" "or_status r = pending_payment"
    using body rp by (auto split: if_splits)
  then show thesis using that 0 rp by simp
qed

lemma oversold_steps:
  assumes L: "sound None 0 (view db)" and r: "resolve_event event db = Inr (Some (r, p), db)"
    and p: "py_status p \<noteq> pay_captured" "ge_amountPaise event = py_amountPaise p" "or_status r = pending_payment"
    and m: "oversoldTx event db = Inr (x, db')"
  shows "ledger_step (view db) (view db')"
proof -
  note k = soundD(1)[OF L] and res = resolved[OF r soundD(1)[OF L]] and aw = resolved_awaiting[OF r soundD(1)[OF L] p(1)]
  let ?f = "\<lambda>r'. r'\<lparr>or_amountPaidPaise := or_amountPaidPaise r' + py_amountPaise p\<rparr>"
  let ?g = "\<lambda>r'. r'\<lparr>or_cancelReason := Some ''stock_shortfall'', or_paymentStatus := ops_refund_initiated\<rparr>"
  let ?ri = "\<lparr>ri_orderId = or_id r, ri_paymentId = py_id p, ri_amountPaise = py_amountPaise p,
    ri_reason = ''stock_shortfall'', ri_createdByUserId = None\<rparr>"
  have ifs: "(if py_status p \<noteq> pay_captured then a else b) = a" "(if or_status r = pending_payment then a else b) = a"
    for a b :: "unit dbtx" using p by simp_all
  obtain u1 s1 u2 s2 e s3 u4 s4 u5 s5 rid created s6 b name data u7 s7 where c1: "captureOntoPayment (py_id p) event db = Inr (u1, s1)"
    and c2: "update_order (or_id r) ?f s1 = Inr (u2, s2)"
    and c3: "transitionOrder system_actor_ctx (or_id r) (or_status r) cancelled ''order.oversold'' (JObject []) s2 = Inr (e, s3)"
    and c4: "update_order (or_id r) ?g s3 = Inr (u4, s4)" and c5: "revert_cart (or_cartId r) s4 = Inr (u5, s5)"
    and c6: "createRefundIntent ?ri s5 = Inr ((rid, created), s6)"
    and c7: "(if b then tbind (insertOrderEvent system_actor_ctx (or_id r) name data) (\<lambda>_. treturn ())
            else treturn ()) s6 = Inr (u7, s7)"
    and c8: "treturn (Some (or_id r)) s7 = Inr (x, db')"
    using m unfolding oversoldTx_def tbind_Inr[where m = "resolve_event event", OF r] option.case prod.case ifs p(2)
    unfolding tbind_eq_Inr split_paired_Ex prod.case by (elim exE conjE) (rule that, assumption+)
  have s2: "view s2 = receive (attempt_of p) (view db)"
    by (rule receive_run[OF c1 c2[folded res(4)]]) (simp add: account_of_def)
  have s3: "view s3 = move_account (or_id r) cancelled (view s2)"
    using view_transition(1)[OF c3] soundD(1)[OF receive_sound[OF L aw]] s2 by simp
  have s5: "view s5 = move_account (or_id r) cancelled (receive (attempt_of p) (view db))"
    using unseenD[OF unseen_update c4] unseenD[OF unseen_off(2) c5] s2 s3 by (simp add: account_of_def)
  have "view s6 = add_intent (refund_of (attempt_of p)) (move_account (or_id r) cancelled (receive (attempt_of p) (view db)))"
    by (rule refund_step[OF L aw s5 _ c6]) (simp_all add: res(2-))
  then have "view db' = add_intent (refund_of (attempt_of p)) (move_account (or_id r) cancelled (receive (attempt_of p) (view db)))"
    using unseenD[OF unseen_noted c7] c8 by simp
  then show ?thesis using ledger_step.paying_oversold[OF aw] p(3) by simp
qed

lemma moves_failed:
  "moves (tbind (resolve_event event) (\<lambda>resolved.
     case resolved of
       None \<Rightarrow> treturn ()
     | Some (r, p) \<Rightarrow>
         if py_status p = pay_captured then treturn () else
         tbind (markPaymentFailed (py_id p) code d) (\<lambda>_.
         tbind (insertOrderEvent system_actor_ctx (or_id r) name data) (\<lambda>_.
         treturn ()))))" (is "moves ?m")
proof (rule movesI)
  fix db x db' assume L: "sound None 0 (view db)" and m: "?m db = Inr (x, db')"
  obtain found where 0: "resolve_event event db = Inr (found, db)" by (simp add: resolve_event_def)
  have "view db' = view db"
  proof (cases "\<exists>r p. found = Some (r, p) \<and> py_status p \<noteq> pay_captured")
    case True
    then obtain r p u s1 e where rp: "found = Some (r, p)" "py_status p \<noteq> pay_captured"
      and f: "markPaymentFailed (py_id p) code d db = Inr (u, s1)"
      and e: "insertOrderEvent system_actor_ctx (or_id r) name data s1 = Inr (e, db')"
      using m by (auto simp: tbind_run[of "resolve_event event"] 0 tbind_eq_Inr)
    have "view s1 = view db"
      by (rule view_failure[OF f])
        (use the_payment[OF soundD(1)[OF L] _ resolved(3)[OF 0[unfolded rp(1)] soundD(1)[OF L]]] rp(2) in auto)
    then show ?thesis using unseenD[OF unseen_event e] by simp
  next
    case False
    then show ?thesis using m by (auto simp: tbind_run[of "resolve_event event"] 0 split: option.splits)
  qed
  then show "ledger_step\<^sup>*\<^sup>* (view db) (view db')" by simp
qed


text \<open>A refund that went through only marks its order.\<close>

lemma unseen_refund_processed:
  "unseen (tbind (markRefundProcessed ref) (\<lambda>hit.
     case hit of
       None \<Rightarrow> treturn ()
     | Some (refundId, oid) \<Rightarrow>
         tbind (update_order oid (\<lambda>r. r\<lparr>or_paymentStatus := ops_refunded\<rparr>)) (\<lambda>_.
         tbind (insertOrderEvent actor oid name (data refundId)) (\<lambda>_. treturn ()))))"
proof (rule unseenI)
  fix L
  let ?keeps = "keeps (\<lambda>db. view db = L)"
  have "?keeps (markRefundProcessed ref)"
    unfolding markRefundProcessed_def
    by (intro unseen_rules view_eqI) (simp_all add: map_upd intent_of_def)
  moreover have "?keeps (update_order oid (\<lambda>r. r\<lparr>or_paymentStatus := ops_refunded\<rparr>))" "?keeps (insertOrderEvent actor oid name d)" for oid d
    using unseen_update[of "\<lambda>r. r\<lparr>or_paymentStatus := ops_refunded\<rparr>" oid] unseen_event[of actor oid name d]
    by (simp_all add: unseen_def account_of_def)
  ultimately show "?keeps (tbind (markRefundProcessed ref) (\<lambda>hit.
     case hit of
       None \<Rightarrow> treturn ()
     | Some (refundId, oid) \<Rightarrow>
         tbind (update_order oid (\<lambda>r. r\<lparr>or_paymentStatus := ops_refunded\<rparr>)) (\<lambda>_.
         tbind (insertOrderEvent actor oid name (data refundId)) (\<lambda>_. treturn ()))))"
    by (intro keeps_rules) auto
qed

section \<open>The staff's cancel\<close>

lemma captured_paid:
  assumes L: "sound None 0 L" and c: "c \<in> set (lg_accounts L)" "ac_status c \<notin> handed_over"
    and a: "a \<in> set (lg_attempts L)" "at_captured a" "at_order a = ac_id c"
  shows "0 < ac_paid c"
proof -
  have pos: "0 < at_amount b" if "b \<in> set (lg_attempts L)" for b
    using that soundD(2)[OF L] unfolding attempts_ok_def by blast
  have "at_amount a \<le> captured_total L (ac_id c)"
    unfolding captured_total_def by (rule member_le_sum_list_int) (use a in \<open>auto intro: less_imp_le pos\<close>)
  moreover have "0 < at_amount a" using a(1) by (rule pos)
  moreover have "fst x \<noteq> ac_id c" if cash: "x \<in> set (lg_cash L)" for x
  proof
    assume x: "fst x = ac_id c"
    obtain c' where c': "c' \<in> set (lg_accounts L)" "ac_id c' = fst x" "ac_status c' \<in> handed_over"
      using soundD(4)[OF L] cash unfolding cash_ok_def by blast
    have "c' = c" by (rule same_status[OF soundD(1)[OF L] c(1) c'(1)]) (simp add: c'(2) x)
    then show False using c'(3) c(2) by simp
  qed
  then have "cash_total L (ac_id c) = 0" by (simp add: cash_total_def filter_empty_conv)
  moreover have "ac_paid c = captured_total L (ac_id c) + cash_total L (ac_id c)"
    using soundD(5)[OF L] c(1) by (simp add: balanced_def)
  ultimately show ?thesis by simp
qed

lemma refund_cancelled_view:
  assumes m: "refund_cancelled actor r db = Inr (x, db')" and k: "keyed (view db)"
  shows "(view db' = view db \<and> (or_amountPaidPaise r > 0 \<longrightarrow>
            (\<forall>p \<in> set (db_payments db). py_orderId p = or_id r \<and> py_status p = pay_captured \<longrightarrow> False)))
    \<or> (\<exists>p \<in> set (db_payments db). py_orderId p = or_id r \<and> py_status p = pay_captured \<and>
         view db' = (if refunded_in (view db) (attempt_of p) then view db else add_intent (refund_of (attempt_of p)) (view db)))"
proof (cases "find (\<lambda>p. py_orderId p = or_id r \<and> py_status p = pay_captured) (rev (db_payments db))")
  case None
  have "db' = db" using m by (simp add: refund_cancelled_def tbind_run None split: if_splits)
  then show ?thesis using None by (simp add: find_None_set)
next
  case (Some p)
  show ?thesis
  proof (cases "or_amountPaidPaise r > 0")
    case False
    then show ?thesis using m by (auto simp: refund_cancelled_def)
  next
    case True
    note p = find_eq_Some[OF Some]
    let ?ri = "\<lparr>ri_orderId = or_id r, ri_paymentId = py_id p, ri_amountPaise = py_amountPaise p,
                   ri_reason = ''merchant_cancelled'', ri_createdByUserId = oa_actorUserId actor\<rparr>"
    have if1: "(if \<not> or_amountPaidPaise r > 0 then a else b) = b" for a b :: "unit dbtx" using True by simp
    obtain rid created s1 u2 s2 b name data where c1: "createRefundIntent ?ri db = Inr ((rid, created), s1)"
      and c2: "update_order (or_id r) (\<lambda>r'. r'\<lparr>or_paymentStatus := ops_refund_initiated\<rparr>) s1 = Inr (u2, s2)"
      and c3: "(if b then tbind (insertOrderEvent actor (or_id r) name data) (\<lambda>_. treturn ()) else treturn ()) s2 = Inr (x, db')"
      using m unfolding refund_cancelled_def if1 tbind_Inr[where m = "tread _", OF tread_run] Some option.case
      unfolding tbind_eq_Inr split_paired_Ex prod.case by (elim exE conjE) (rule that, assumption+)
    have "view db' = view s1"
      using unseenD[OF unseen_update c2] unseenD[OF unseen_noted c3] by (simp add: account_of_def)
    then show ?thesis
      using view_refund[OF c1] p by (auto simp: refunded_in_def refund_of_def)
  qed
qed

lemma moves_cancel:
  assumes L: "sound None 0 (view db)" and r: "find_order db oid = Some r" "or_status r \<in> {confirmed, processing}"
    and 1: "restock_live oid db = Inr (u1, s1)"
    and 2: "transitionOrder actor oid (or_status r) cancelled name data s1 = Inr (e, s2)"
    and 3: "update_order oid f s2 = Inr (u3, s3)" and f: "\<And>r. account_of (f r) = account_of r"
    and 4: "refund_cancelled actor' r s3 = Inr (u4, s4)" and 5: "recordAudit au s4 = Inr (u5, db')"
  shows "ledger_step (view db) (view db')"
proof -
  note k = soundD(1)[OF L] and ro = found_order[OF r(1)]
  have s1: "view s1 = view db" by (rule unseenD[OF unseen_restock_live 1])
  have s3: "view s3 = move_account oid cancelled (view db)"
    using view_transition(1)[OF 2] k s1 unseenD[OF unseen_update[OF f] 3] by simp
  have db': "view db' = view s4" by (rule unseenD[OF unseen_off(1) 5])
  have c: "account_of r \<in> set (lg_accounts (view db))" "ac_status (account_of r) \<in> {confirmed, processing}" "ac_id (account_of r) = oid"
    using ro r(2) by auto
  have k3: "keyed (view s3)" unfolding s3 using k by (simp add: keyed_def map_upd)
  have att: "map attempt_of (db_payments s3) = map attempt_of (db_payments db)"
    using arg_cong[OF s3, of lg_attempts] by simp
  from refund_cancelled_view[OF 4 k3] show ?thesis
  proof (elim disjE bexE conjE)
    assume same: "view s4 = view s3" and none: "or_amountPaidPaise r > 0 \<longrightarrow>
            (\<forall>p \<in> set (db_payments s3). py_orderId p = or_id r \<and> py_status p = pay_captured \<longrightarrow> False)"
    have "\<not> at_captured a" if a: "a \<in> set (lg_attempts (view db))" "at_order a = ac_id (account_of r)" for a
    proof
      assume cap: "at_captured a"
      have "0 < or_amountPaidPaise r" using captured_paid[OF L c(1) _ a(1) cap a(2)] c(2) by auto
      moreover obtain p where "p \<in> set (db_payments s3)" "a = attempt_of p" using a(1) att[symmetric] by auto
      ultimately show False using none a(2) cap by auto
    qed
    then show ?thesis unfolding db' same s3 using ledger_step.cancelling[OF c(1,2)] c(3) by blast
  next
    fix p assume p: "p \<in> set (db_payments s3)" "py_orderId p = or_id r" "py_status p = pay_captured"
      and v: "view s4 = (if refunded_in (view s3) (attempt_of p) then view s3 else add_intent (refund_of (attempt_of p)) (view s3))"
    have a: "attempt_of p \<in> set (lg_attempts (view db))" "at_captured (attempt_of p)" "at_order (attempt_of p) = ac_id (account_of r)"
      using p att by (auto simp del: view_fields simp: view_fields(2)) (metis image_eqI list.set_map)
    have same: "refunded_in (move_account oid cancelled (view db)) (attempt_of p) = refunded_in (view db) (attempt_of p)"
      by (simp add: refunded_in_def)
    show ?thesis
    proof (cases "refunded_in (view db) (attempt_of p)")
      case True
      then have "refunded_in (view db) a'" if "a' \<in> set (lg_attempts (view db))" "at_captured a'" "at_order a' = ac_id (account_of r)" for a'
        using one_capture[OF L that(1) a(1) that(2) a(2)] that(3) a(3) by simp
      then show ?thesis unfolding db' v s3 same using True ledger_step.cancelling[OF c(1,2)] c(3) by simp
    next
      case False
      then show ?thesis unfolding db' v s3 same using False ledger_step.refunding[OF c(1,2) a False] c(3) by simp
    qed
  qed
qed


section \<open>The manual ladder and the doorstep\<close>

lemma credit_nothing: "credit oid 0 L = L"
proof -
  have "upd (\<lambda>c. ac_id c = oid) (\<lambda>c. c\<lparr>ac_paid := ac_paid c + 0\<rparr>) cs = cs" for cs :: "account list" by (induction cs) auto
  then show ?thesis by (simp add: credit_def on_account_def)
qed

lemma manual_step:
  assumes L: "sound None 0 (view db)" and r: "find_order db oid = Some r" "(or_status r, to) \<in> set MANUAL_ORDER_TRANSITIONS"
    and 1: "transitionOrder actor oid (or_status r) to name
        (JObject ([(''orderNumber'', JNumber (or_orderNumber r))] @
          (if collects_cod r to then [(''codCollectedPaise'', JNumber (or_totalPaise r - or_amountPaidPaise r))] else []))) db = Inr (e, s1)"
    and 2: "(if collects_cod r to
        then update_order oid (\<lambda>r'. r'\<lparr>or_paymentStatus := ops_paid, or_amountPaidPaise := or_totalPaise r, or_codDuePaise := 0\<rparr>)
        else treturn ()) s1 = Inr (u, s2)"
    and 3: "recordAudit au s2 = Inr (u', db')"
  shows "ledger_step (view db) (view db')"
proof -
  note ro = found_order[OF r(1)]
  have c: "account_of r \<in> set (lg_accounts (view db))" "ac_id (account_of r) = oid" "ac_status (account_of r) = or_status r"
    using ro by auto
  have db': "view db' = view s2" by (rule unseenD[OF unseen_off(1) 3])
  define k where "k = (if collects_cod r to then or_totalPaise r - or_amountPaidPaise r else 0)"
  have cod: "cod_collected (JObject ([(''orderNumber'', JNumber (or_orderNumber r))] @
          (if collects_cod r to then [(''codCollectedPaise'', JNumber (or_totalPaise r - or_amountPaidPaise r))] else []))) = k"
    by (simp add: cod_collected_def k_def)
  have s1: "view s1 = (if to = delivered then collect oid k else id) (move_account oid to (view db))"
    by (rule view_transition(1)[OF 1 soundD(1)[OF L], unfolded cod])
  have s2: "view s2 = (if to = delivered then credit oid k else id) (view s1)"
  proof (cases "collects_cod r to")
    case True
    then have up: "update_order oid (\<lambda>r'. r'\<lparr>or_paymentStatus := ops_paid, or_amountPaidPaise := or_totalPaise r, or_codDuePaise := 0\<rparr>) s1
      = Inr (u, s2)" and to: "to = delivered" using 2 by (simp_all add: collects_cod_def)
    have paid: "or_amountPaidPaise r' = or_amountPaidPaise r" if r': "r' \<in> set (db_orders s1)" "or_id r' = oid" for r'
    proof -
      have "account_of r' \<in> set (lg_accounts (view s1))" using r'(1) by simp
      then have "account_of r' \<in> set (upd (\<lambda>c. ac_id c = oid) (\<lambda>c. c\<lparr>ac_status := to\<rparr>) (lg_accounts (view db)))"
        unfolding s1 by (simp add: to)
      then show ?thesis
      proof (cases rule: set_updE)
        case 1
        then show ?thesis using r'(2) by simp
      next
        case (2 c')
        then have "c' = account_of r" using same_status[OF soundD(1)[OF L] c(1) 2(1)] c(2) by simp
        then show ?thesis using arg_cong[OF 2(3), of ac_paid] by simp
      qed
    qed
    have "view s2 = on_account oid (\<lambda>c. c\<lparr>ac_paid := ac_paid c + k\<rparr>) (view s1)"
      by (rule view_update[OF up]) (simp add: account_of_def paid k_def True)
    then show ?thesis by (simp add: to credit_def)
  next
    case False
    then have "k = 0" "s2 = s1" using 2 by (simp_all add: k_def)
    then show ?thesis by (simp add: credit_nothing)
  qed
  show ?thesis
  proof (cases "to = delivered")
    case True
    then have "ac_status (account_of r) \<in> {shipped, out_for_delivery}" using r(2) by (auto simp: MANUAL_ORDER_TRANSITIONS_def)
    from ledger_step.delivering[OF c(1) this, of k] show ?thesis using True c(2) by (simp add: db' s2 s1)
  next
    case False
    then have "ac_status (account_of r) \<in> {confirmed, processing, ready_to_ship, shipped}" "to \<in> {processing, ready_to_ship, shipped, out_for_delivery}"
      using r(2) by (auto simp: MANUAL_ORDER_TRANSITIONS_def)
    from ledger_step.fulfilling[OF c(1) this] show ?thesis using False c(2) by (simp add: db' s2 s1)
  qed
qed

lemma account_reason: "account_of (r\<lparr>or_cancelReason := z\<rparr>) = account_of r"
  by (simp add: account_of_def)

lemma commit_eq_Inr: "commit m db = (Inr x, db') \<longleftrightarrow> m db = Inr (x, db')"
  by (auto simp: commit_def split: sum.splits)

lemma treturn_eq_Inr: "treturn y s = Inr (x, s') \<longleftrightarrow> y = x \<and> s = s'"
  by simp

lemma cancel_moves:
  assumes L: "sound None 0 (view db)" and run: "cancelOrder u oid reason db = (Inr x, db')"
  shows "ledger_step (view db) (view db')"
proof -
  note m = run[unfolded cancelOrder_def commit_eq_Inr Let_def lockOrder_def tbind_Inr[where m = "tread _", OF tread_run]]
  obtain r where r: "find_order db oid = Some r" "or_status r \<in> set CANCELLABLE_BY_STAFF"
    using m by (cases "find_order db oid") (auto simp: tbind_run split: if_splits)
  have st: "or_status r \<in> {confirmed, processing}" using r(2) by (auto simp: CANCELLABLE_BY_STAFF_def)
  have guard: "tguard (or_status r \<in> set CANCELLABLE_BY_STAFF) invalidTransitionRefusal db = Inr ((), db)" using r(2) by simp
  show ?thesis
    using m unfolding r(1) option.case tbind_Inr[where m = "tguard _ _", OF guard] unfolding tbind_eq_Inr
    by (elim exE conjE) (rule moves_cancel[OF L r(1) st _ _ _ account_reason], assumption+)
qed

lemma manual_moves:
  assumes L: "sound None 0 (view db)" and run: "manualTransition u oid to db = (Inr x, db')"
  shows "ledger_step (view db) (view db')"
proof -
  note m = run[unfolded manualTransition_def commit_eq_Inr lockOrder_def tbind_Inr[where m = "tread _", OF tread_run]]
  obtain r name where r: "find_order db oid = Some r" "(or_status r, to) \<in> set MANUAL_ORDER_TRANSITIONS"
    and name: "MANUAL_EVENT_BY_TARGET to = Some name"
    using m by (cases "find_order db oid") (auto simp: tbind_run split: if_splits option.splits)
  have pick: "(if (or_status r, to) \<in> set MANUAL_ORDER_TRANSITIONS then MANUAL_EVENT_BY_TARGET to else None) = Some name"
    using r(2) name by simp
  show ?thesis
    using m unfolding r(1) option.case pick tbind_eq_Inr treturn_eq_Inr
    by (elim exE conjE, hypsubst) (rule manual_step[OF L r], assumption+)
qed

section \<open>The simulation\<close>

text \<open>The books are sound and reached from \<open>L0\<close> by ledger steps.\<close>

definition flows :: "ledger \<Rightarrow> db \<Rightarrow> bool" where
  "flows L0 db \<longleftrightarrow> sound None 0 (view db) \<and> ledger_step\<^sup>*\<^sup>* L0 (view db)"

lemma flows_steps: "flows L0 db \<Longrightarrow> ledger_step\<^sup>*\<^sup>* (view db) (view db') \<Longrightarrow> flows L0 db'"
  unfolding flows_def by (auto intro: ledger_steps_sound rtranclp_trans)

lemma keeps_flows: "moves m \<Longrightarrow> keeps (flows L0) m"
  by (rule keepsI, rule flows_steps) (auto simp: moves_def flows_def)

lemma committed_flows:
  assumes "a = commit m" "\<And>db x db'. sound None 0 (view db) \<Longrightarrow> a db = (Inr x, db') \<Longrightarrow> ledger_step (view db) (view db')"
  shows "akeeps (flows L0) a"
  unfolding assms(1)
proof (rule akeeps_commit, rule keeps_flows, rule movesI)
  fix db x db' assume "sound None 0 (view db)" "m db = Inr (x, db')"
  then show "ledger_step\<^sup>*\<^sup>* (view db) (view db')" using assms(2)[of db x db'] by (simp add: assms(1) commit_Inr r_into_rtranclp)
qed

interpretation money: commerce_invariant "flows L0" for L0
proof unfold_locales
  show "flows L0 (books db) = flows L0 db" for db by (simp add: flows_def view_books)
  show "flows L0 db'" if g: "flows L0 db" "capturedTx event wid seller settings db = Inl e" "isStockFailure e"
      "oversoldTx event db = Inr (x, db')" for db event wid seller settings e x db'
  proof -
    have L: "sound None 0 (view db)" using g(1) by (simp add: flows_def)
    obtain r p where rp: "resolve_event event db = Inr (Some (r, p), db)" "py_status p \<noteq> pay_captured"
      "ge_amountPaise event = py_amountPaise p" "or_status r = pending_payment"
      by (rule stock_failure_pending[OF g(2,3)])
    show ?thesis by (rule flows_steps[OF g(1) r_into_rtranclp]) (rule oversold_steps[OF L rp g(4)])
  qed
  show "akeeps (flows L0) (processFailed event)" for event
    unfolding processFailed_def by (intro akeeps_commit keeps_flows moves_failed)
  show "akeeps (flows L0) (processRefundProcessed event)" for event
    unfolding processRefundProcessed_def
    by (intro keeps_rules keeps_flows unseen_moves unseen_refund_processed)
  show "akeeps (flows L0) (markRefundProcessing rid ref)" for rid ref
    unfolding markRefundProcessing_def by (intro akeeps_commit keeps_flows moves_refund_sent)
  show "akeeps (flows L0) (cancelOrder u oid given)" for u oid given
    by (rule committed_flows[OF cancelOrder_def]) (rule cancel_moves)
  show "akeeps (flows L0) (manualTransition u oid to)" for u oid to
    by (rule committed_flows[OF manualTransition_def]) (rule manual_moves)
qed (intro keeps_flows moves_place moves_cancel_pending moves_confirm_cod moves_gateway_order moves_extend moves_captured
    moves_expire; assumption?)+


section \<open>Properties\<close>

definition money_ok :: "db \<Rightarrow> bool" where
  "money_ok db \<longleftrightarrow> sound None 0 (view db)"

definition money_captured :: "db \<Rightarrow> uuid \<Rightarrow> paise" where
  "money_captured db oid = sum_list (map py_amountPaise
     (filter (\<lambda>p. py_orderId p = oid \<and> py_status p = pay_captured) (db_payments db)))"

definition money_collected :: "db \<Rightarrow> uuid \<Rightarrow> paise" where
  "money_collected db oid = sum_list (map (\<lambda>e. cod_collected (oe_data e))
     (filter (\<lambda>e. oe_orderId e = oid \<and> oe_toStatus e = Some delivered) (db_orderEvents db)))"

lemma view_totals:
  "captured_total (view db) oid = money_captured db oid" "cash_total (view db) oid = money_collected db oid"
proof -
  show "captured_total (view db) oid = money_captured db oid"
    by (simp add: captured_total_def money_captured_def filter_map comp_def)
  have "sum_list (map snd (filter (\<lambda>c. fst c = oid) (concat (map handovers es)))) = sum_list (map (\<lambda>e. cod_collected (oe_data e))
     (filter (\<lambda>e. oe_orderId e = oid \<and> oe_toStatus e = Some delivered) es))" for es
    by (induction es) (auto simp: handovers_def)
  then show "cash_total (view db) oid = money_collected db oid" by (simp add: cash_total_def money_collected_def)
qed

lemma money_ok_fresh:
  "db_orders db = [] \<Longrightarrow> db_payments db = [] \<Longrightarrow> db_refunds db = [] \<Longrightarrow> db_orderEvents db = [] \<Longrightarrow> money_ok db"
  by (simp add: money_ok_def sound_def sound_parts)

lemma run_flows:
  assumes "money_ok db"
  shows "money_ok (run_ops exec_commerce ops db)" "ledger_step\<^sup>*\<^sup>* (view db) (view (run_ops exec_commerce ops db))"
proof -
  have "flows (view db) db" using assms by (simp add: flows_def money_ok_def)
  then have "flows (view db) (run_ops exec_commerce ops db)" by (rule money.shop.run_inv)
  then show "money_ok (run_ops exec_commerce ops db)" "ledger_step\<^sup>*\<^sup>* (view db) (view (run_ops exec_commerce ops db))"
    by (simp_all add: flows_def money_ok_def)
qed

lemma money_ok_sample: "money_ok (sample_shop prepaid now stock)"
  by (simp add: money_ok_def sound_def sound_parts sample_shop_def empty_db_def sample_order_def sample_payment_def
      sample_placed_event_def handovers_def captured_total_def cash_total_def settled_def attempt_of_def account_of_def)

text \<open>
  C10.  The checkout implements the ledger.  Read as a ledger (accounts, payment attempts, refund intents, cash
  at the door), whatever the handlers do in whatever order is a sequence of the ledger machine's eleven steps:
  nothing else ever happens to money, and it happens in one transaction or not at all.
\<close>

theorem checkout_refines_ledger:
  assumes "money_ok db"
  shows "ledger_step\<^sup>*\<^sup>* (view db) (view (run_ops exec_commerce ops db))"
  by (rule run_flows(2)[OF assms])

theorem checkout_refines_ledger_witness:
  "ledger_step\<^sup>*\<^sup>* (view (sample_shop prepaid 1000 1)) (view oversold_sample) \<and> view oversold_sample \<noteq> view (sample_shop prepaid 1000 1)"
proof -
  have "run_ops exec_commerce [CoWebhook 70 sample_capture] (sample_shop prepaid 1000 1) = oversold_sample"
    by (simp add: run_ops_def oversold_sample_def confirmFromWebhookEvent_def sample_capture_def)
  moreover have "db_refunds oversold_sample \<noteq> []" using oversold_sample_eq by auto
  then have "lg_intents (view oversold_sample) \<noteq> lg_intents (view (sample_shop prepaid 1000 1))"
    by (simp add: sample_shop_def empty_db_def)
  then have "view oversold_sample \<noteq> view (sample_shop prepaid 1000 1)" by metis
  ultimately show ?thesis
    using checkout_refines_ledger[OF money_ok_sample[of 1000 1], where ops = "[CoWebhook 70 sample_capture]"] by auto
qed

text \<open>
  C6.  What an order says it was paid is what was received for it: at any time, under any interleaving of checkouts,
  webhooks, replays, cancellations and deliveries, \<open>amount_paid_paise\<close> is the sum of the order's captured
  payments and of the cash its delivery event says was collected, and at most one payment of an order is ever captured.
\<close>

theorem amount_paid_is_money_received:
  assumes "money_ok db" and "r \<in> set (db_orders (run_ops exec_commerce ops db))"
  shows "or_amountPaidPaise r = money_captured (run_ops exec_commerce ops db) (or_id r) + money_collected (run_ops exec_commerce ops db) (or_id r) \<and>
    (\<forall>p \<in> set (db_payments (run_ops exec_commerce ops db)). \<forall>q \<in> set (db_payments (run_ops exec_commerce ops db)).
       py_orderId p = or_id r \<and> py_orderId q = or_id r \<and> py_status p = pay_captured \<and> py_status q = pay_captured \<longrightarrow> py_id p = py_id q)"
proof -
  let ?db = "run_ops exec_commerce ops db"
  have L: "sound None 0 (view ?db)" using run_flows(1)[OF assms(1)] by (simp add: money_ok_def)
  have "account_of r \<in> set (lg_accounts (view ?db))" using assms(2) by simp
  then have paid: "or_amountPaidPaise r = captured_total (view ?db) (or_id r) + cash_total (view ?db) (or_id r)"
    using bspec[OF soundD(5)[OF L, unfolded balanced_def], of "account_of r"] by (simp only: row_views) simp
  have one: "py_id p = py_id q"
    if "p \<in> set (db_payments ?db)" "q \<in> set (db_payments ?db)" "py_orderId p = py_orderId q" "py_status p = pay_captured" "py_status q = pay_captured" for p q
    using arg_cong[OF one_capture[OF L, of "attempt_of p" "attempt_of q"], of at_id] that by simp
  show ?thesis
  proof (intro conjI ballI impI)
    show "or_amountPaidPaise r = money_captured ?db (or_id r) + money_collected ?db (or_id r)" using paid unfolding view_totals .
  qed (rule one; simp)
qed

theorem amount_paid_is_money_received_witness:
  "\<exists>r \<in> set (db_orders captured_sample). or_amountPaidPaise r = 23600 \<and> or_amountPaidPaise r = money_captured captured_sample (or_id r) + money_collected captured_sample (or_id r)"
proof -
  have run: "run_ops exec_commerce [CoWebhook 70 sample_capture] (sample_shop prepaid 1000 10) = captured_sample"
    by (simp add: run_ops_def captured_sample_def confirmFromWebhookEvent_def sample_capture_def)
  obtain r where r: "db_orders captured_sample = [r]" "or_amountPaidPaise r = 23600"
    using captured_sample_eq by (cases "db_orders captured_sample") auto
  then show ?thesis
    using amount_paid_is_money_received[OF money_ok_sample[of 1000 10], where ops = "[CoWebhook 70 sample_capture]"] by (simp add: run)
qed

text \<open>
  C8.  Refunds are made once, in full and only for money received: no two refund intents name the same payment, and the
  payment of an intent was captured, belongs to the intent's order and has exactly the intent's amount.
\<close>

theorem refunds_once_and_in_full:
  assumes "money_ok db"
  shows "distinct (map rf_paymentId (db_refunds (run_ops exec_commerce ops db))) \<and>
    (\<forall>f \<in> set (db_refunds (run_ops exec_commerce ops db)). \<exists>p \<in> set (db_payments (run_ops exec_commerce ops db)).
       py_id p = rf_paymentId f \<and> py_status p = pay_captured \<and> py_orderId p = rf_orderId f \<and> py_amountPaise p = rf_amountPaise f)"
proof -
  have L: "sound None 0 (view (run_ops exec_commerce ops db))" using run_flows(1)[OF assms] by (simp add: money_ok_def)
  show ?thesis
    using soundD(1,3)[OF L] by (force simp: keyed_def intents_ok_def comp_def)
qed

theorem refunds_once_and_in_full_witness:
  "\<exists>f \<in> set (db_refunds oversold_sample). \<exists>p \<in> set (db_payments oversold_sample). rf_amountPaise f = 23600 \<and>
     py_id p = rf_paymentId f \<and> py_status p = pay_captured \<and> py_orderId p = rf_orderId f \<and> py_amountPaise p = rf_amountPaise f"
proof -
  have run: "run_ops exec_commerce [CoWebhook 70 sample_capture] (sample_shop prepaid 1000 1) = oversold_sample"
    by (simp add: run_ops_def oversold_sample_def confirmFromWebhookEvent_def sample_capture_def)
  obtain f where f: "db_refunds oversold_sample = [f]" "rf_amountPaise f = 23600"
    using oversold_sample_eq by (cases "db_refunds oversold_sample") auto
  then show ?thesis
    using refunds_once_and_in_full[OF money_ok_sample[of 1000 1], where ops = "[CoWebhook 70 sample_capture]"] unfolding run by simp
qed

text \<open>
  C7.  No captured money is lost: the order of a captured payment has left \<open>pending_payment\<close>, and when that order is
  cancelled or abandoned (oversold, late capture, cancelled by staff) a refund intent for the payment exists.
\<close>

theorem dead_orders_refund_captures:
  assumes "money_ok db" and "p \<in> set (db_payments (run_ops exec_commerce ops db))" and "py_status p = pay_captured"
  shows "\<exists>r \<in> set (db_orders (run_ops exec_commerce ops db)). or_id r = py_orderId p \<and> or_status r \<noteq> pending_payment \<and>
    (or_status r \<in> {cancelled, abandoned} \<longrightarrow>
       (\<exists>f \<in> set (db_refunds (run_ops exec_commerce ops db)). rf_paymentId f = py_id p))"
proof -
  let ?db = "run_ops exec_commerce ops db"
  have L: "sound None 0 (view ?db)" using run_flows(1)[OF assms(1)] by (simp add: money_ok_def)
  have a: "attempt_of p \<in> set (lg_attempts (view ?db))" "at_captured (attempt_of p)" using assms(2,3) by auto
  then obtain c where c: "c \<in> set (lg_accounts (view ?db))" "ac_id c = at_order (attempt_of p)"
    using soundD(2)[OF L] unfolding attempts_ok_def by blast
  then obtain r where r: "r \<in> set (db_orders ?db)" "c = account_of r" by auto
  have "settled (view ?db) c" by (rule account_settled[OF L c(1)])
  then have "ac_status c \<noteq> pending_payment \<and> (ac_status c \<in> {cancelled, abandoned} \<longrightarrow> refunded_in (view ?db) (attempt_of p))"
    using a c(2) unfolding settled_def by metis
  then show ?thesis using r c(2) by (intro bexI[OF _ r(1)]) (auto simp: refunded_in_def)
qed

theorem dead_orders_refund_captures_witness:
  "\<exists>p \<in> set (db_payments oversold_sample). \<exists>r \<in> set (db_orders oversold_sample). or_id r = py_orderId p \<and> or_status r = cancelled \<and>
     (\<exists>f \<in> set (db_refunds oversold_sample). rf_paymentId f = py_id p)"
proof -
  have run: "run_ops exec_commerce [CoWebhook 70 sample_capture] (sample_shop prepaid 1000 1) = oversold_sample"
    by (simp add: run_ops_def oversold_sample_def confirmFromWebhookEvent_def sample_capture_def)
  obtain p where p: "db_payments oversold_sample = [p]" "py_status p = pay_captured"
    using oversold_sample_eq by (cases "db_payments oversold_sample") auto
  moreover obtain r where "db_orders oversold_sample = [r]" "or_status r = cancelled"
    using oversold_sample_eq by (cases "db_orders oversold_sample") auto
  ultimately show ?thesis
    using dead_orders_refund_captures[OF money_ok_sample[of 1000 1], where ops = "[CoWebhook 70 sample_capture]"] by (simp add: run)
qed

end
