(* ===== verification/CsvText.thy ===== *)
theory CsvText
  imports Prelude
begin

text \<open>
  CSV as text, the first half of \<open>packages/core/src/catalog/csv.ts\<close>: the incremental reader, the
  formula guard and the writer.  The byte order mark the reader drops is not an ASCII character and
  is left out.
\<close>

section \<open>The reader\<close>

datatype reader_state = field_start | unquoted | quoted | after_quote

record csv_reader =
  rd_state :: reader_state
  rd_field :: string
  rd_record :: "string list"
  rd_pendingLf :: bool
  rd_emitted :: nat

definition new_reader :: csv_reader where
  "new_reader = \<lparr>rd_state = field_start, rd_field = [], rd_record = [], rd_pendingLf = False, rd_emitted = 0\<rparr>"

definition CR :: char where "CR = CHR 0x0D"
definition LF :: char where "LF = CHR 0x0A"

definition quote :: char where "quote = CHR 0x22"

definition endField :: "csv_reader \<Rightarrow> csv_reader" where
  "endField r = r\<lparr>rd_record := rd_record r @ [rd_field r], rd_field := [], rd_state := field_start\<rparr>"

definition flush_record :: "csv_reader \<Rightarrow> csv_reader \<times> string list list" where
  "flush_record r =
    (r\<lparr>rd_emitted := rd_emitted r + 1, rd_field := [], rd_record := [], rd_state := field_start\<rparr>, [rd_record r @ [rd_field r]])"

definition endRecord :: "char \<Rightarrow> csv_reader \<Rightarrow> csv_reader \<times> string list list" where
  "endRecord c r = flush_record (if c = CR then r\<lparr>rd_pendingLf := True\<rparr> else r)"

definition add_char :: "char \<Rightarrow> csv_reader \<Rightarrow> csv_reader" where
  "add_char c r = r\<lparr>rd_field := rd_field r @ [c]\<rparr>"

text \<open>One character: the next reader and the record it completed, if any.\<close>

definition read_char :: "csv_reader \<Rightarrow> char \<Rightarrow> csv_reader \<times> string list list" where
  "read_char r c =
    (case rd_state r of
       field_start \<Rightarrow>
         if c = quote then (r\<lparr>rd_state := quoted\<rparr>, [])
         else if c = CHR '','' then (r\<lparr>rd_record := rd_record r @ [[]]\<rparr>, [])
         else if c = CR \<or> c = LF then endRecord c r
         else (r\<lparr>rd_field := [c], rd_state := unquoted\<rparr>, [])
     | unquoted \<Rightarrow>
         if c = CHR '','' then (endField r, [])
         else if c = CR \<or> c = LF then endRecord c r
         else (add_char c r, [])
     | quoted \<Rightarrow>
         if c = quote then (r\<lparr>rd_state := after_quote\<rparr>, []) else (add_char c r, [])
     | after_quote \<Rightarrow>
         if c = quote then ((add_char quote r)\<lparr>rd_state := quoted\<rparr>, [])
         else if c = CHR '','' then (endField r, [])
         else if c = CR \<or> c = LF then endRecord c r
         else ((add_char c r)\<lparr>rd_state := unquoted\<rparr>, []))"

text \<open>The line feed of a CR LF pair is skipped.\<close>

definition csv_step :: "csv_reader \<Rightarrow> char \<Rightarrow> csv_reader \<times> string list list" where
  "csv_step r c =
    (if rd_pendingLf r \<and> c = LF then (r\<lparr>rd_pendingLf := False\<rparr>, [])
     else read_char (r\<lparr>rd_pendingLf := False\<rparr>) c)"

fun csv_push :: "csv_reader \<Rightarrow> string \<Rightarrow> csv_reader \<times> string list list" where
  "csv_push r [] = (r, [])"
| "csv_push r (c # cs) = (let (r1, out) = csv_step r c; (r2, more) = csv_push r1 cs in (r2, out @ more))"

text \<open>\<open>end()\<close>: an unclosed quote is an error at the record it is in.\<close>

definition csv_end :: "csv_reader \<Rightarrow> (nat, string list list) result" where
  "csv_end r =
    (if rd_state r = quoted then Inl (rd_emitted r + 1)
     else if rd_state r = field_start \<and> rd_field r = [] \<and> rd_record r = [] then Inr []
     else Inr (snd (flush_record r)))"

definition parseCsvRecords :: "string \<Rightarrow> (nat, string list list) result" where
  "parseCsvRecords text = (let (r, records) = csv_push new_reader text in rbind (csv_end r) (\<lambda>more. Inr (records @ more)))"

text \<open>A streamed upload: the chunks are pushed as they arrive, then the reader is ended.\<close>

fun push_chunks :: "csv_reader \<Rightarrow> string list \<Rightarrow> csv_reader \<times> string list list" where
  "push_chunks r [] = (r, [])"
| "push_chunks r (chunk # chunks) =
    (let (r1, out) = csv_push r chunk; (r2, more) = push_chunks r1 chunks in (r2, out @ more))"

section \<open>The formula guard and the writer\<close>

definition FORMULA_LEAD :: "string" where
  "FORMULA_LEAD = [CHR ''='', CHR ''+'', CHR ''-'', CHR ''@'', CHR 0x09, CHR 0x0D]"

definition apostrophe :: char where "apostrophe = CHR 0x27"

definition escapeFormula :: "string \<Rightarrow> string" where
  "escapeFormula v = (case v of
     c # _ \<Rightarrow> if c = apostrophe \<or> c \<in> set FORMULA_LEAD then apostrophe # v else v
   | [] \<Rightarrow> v)"

definition unescapeFormula :: "string \<Rightarrow> string" where
  "unescapeFormula v = (case v of
     c # c' # r \<Rightarrow> if c = apostrophe \<and> (c' = apostrophe \<or> c' \<in> set FORMULA_LEAD) then c' # r else v
   | _ \<Rightarrow> v)"

fun double_quotes :: "string \<Rightarrow> string" where
  "double_quotes [] = []"
| "double_quotes (c # cs) = (if c = quote then [quote, quote] else [c]) @ double_quotes cs"

definition needs_quotes :: "string \<Rightarrow> bool" where
  "needs_quotes g \<longleftrightarrow> CHR '','' \<in> set g \<or> quote \<in> set g \<or> LF \<in> set g \<or> CR \<in> set g \<or> g \<noteq> trim g"

definition formatCsvValue :: "string \<Rightarrow> string" where
  "formatCsvValue v =
    (let guarded = escapeFormula v in
     if needs_quotes guarded then quote # double_quotes guarded @ [quote] else guarded)"

definition formatCsvRecord :: "string list \<Rightarrow> string" where
  "formatCsvRecord values = join_with '','' (map formatCsvValue values) @ [CR, LF]"

section \<open>Chunks do not matter\<close>

lemma csv_push_append:
  "csv_push r (s @ t) = (let (r1, out) = csv_push r s; (r2, more) = csv_push r1 t in (r2, out @ more))"
  by (induction s arbitrary: r) (auto simp: Let_def split: prod.splits)

lemma push_chunks_concat: "push_chunks r chunks = csv_push r (concat chunks)"
  by (induction chunks arbitrary: r) (auto simp: csv_push_append Let_def split: prod.splits)

text \<open>
  However an upload is cut into chunks, even inside a quoted value or between a CR and its LF, the reader
  produces the records of the whole file.
\<close>

theorem chunked_reading_is_whole_reading:
  "(let (r, records) = push_chunks new_reader chunks in rbind (csv_end r) (\<lambda>more. Inr (records @ more))) =
   parseCsvRecords (concat chunks)"
  by (simp add: push_chunks_concat parseCsvRecords_def)

section \<open>Reading back what was written\<close>

lemma unescape_escape [simp]: "unescapeFormula (escapeFormula v) = v"
  by (auto simp: escapeFormula_def unescapeFormula_def apostrophe_def FORMULA_LEAD_def split: list.splits)

lemmas csv_chars = CR_def LF_def quote_def

definition in_state :: "reader_state \<Rightarrow> string \<Rightarrow> string list \<Rightarrow> nat \<Rightarrow> csv_reader" where
  "in_state st f rec n = \<lparr>rd_state = st, rd_field = f, rd_record = rec, rd_pendingLf = False, rd_emitted = n\<rparr>"

lemma new_reader_state: "new_reader = in_state field_start [] [] 0"
  by (simp add: new_reader_def in_state_def)

lemmas reader_eval = csv_step_def read_char_def in_state_def endField_def add_char_def endRecord_def flush_record_def

lemma push_quoted: "csv_push (in_state quoted f rec n) (double_quotes s) = (in_state quoted (f @ s) rec n, [])"
  by (induction s arbitrary: f) (auto simp: reader_eval csv_chars)

lemma push_unquoted:
  "CHR '','' \<notin> set s \<Longrightarrow> LF \<notin> set s \<Longrightarrow> CR \<notin> set s \<Longrightarrow>
   csv_push (in_state unquoted f rec n) s = (in_state unquoted (f @ s) rec n, [])"
  by (induction s arbitrary: f) (auto simp: reader_eval csv_chars)

text \<open>After a value, the separator and the line end close it.\<close>

definition holds_value :: "csv_reader \<Rightarrow> string \<Rightarrow> string list \<Rightarrow> nat \<Rightarrow> bool" where
  "holds_value r v rec n \<longleftrightarrow>
     r = in_state unquoted v rec n \<or> r = in_state after_quote v rec n \<or> v = [] \<and> r = in_state field_start [] rec n"

lemma push_value:
  obtains r where "csv_push (in_state field_start [] rec n) (formatCsvValue v) = (r, [])" "holds_value r (escapeFormula v) rec n"
proof (cases "needs_quotes (escapeFormula v)")
  case True
  have "csv_push (in_state field_start [] rec n) (formatCsvValue v) = (in_state after_quote (escapeFormula v) rec n, [])"
    using push_quoted[of "[]" rec n "escapeFormula v"] True
    by (simp add: formatCsvValue_def Let_def csv_push_append) (simp add: reader_eval csv_chars)
  then show thesis using that by (simp add: holds_value_def)
next
  case False
  show thesis
  proof (cases "escapeFormula v")
    case Nil
    then show thesis using that[of "in_state field_start [] rec n"] False by (simp add: formatCsvValue_def holds_value_def)
  next
    case (Cons c cs)
    have "csv_step (in_state field_start [] rec n) c = (in_state unquoted [c] rec n, [])"
      using False Cons by (auto simp: needs_quotes_def reader_eval)
    then show thesis
      using that[of "in_state unquoted (c # cs) rec n"] push_unquoted[of cs "[c]" rec n] False Cons
      by (simp add: formatCsvValue_def holds_value_def needs_quotes_def)
  qed
qed

lemma value_comma: "holds_value r v rec n \<Longrightarrow> csv_step r (CHR '','') = (in_state field_start [] (rec @ [v]) n, [])"
  by (auto simp: holds_value_def reader_eval csv_chars)

lemma value_line_end:
  "holds_value r v rec n \<Longrightarrow> csv_push r [CR, LF] = (in_state field_start [] [] (n + 1), [rec @ [v]])"
  by (auto simp: holds_value_def reader_eval csv_chars)


lemma formatCsvRecord_Cons: "vs \<noteq> [] \<Longrightarrow> formatCsvRecord (v # vs) = formatCsvValue v @ CHR '','' # formatCsvRecord vs"
  by (cases vs) (simp_all add: formatCsvRecord_def)

lemma push_record:
  "vs \<noteq> [] \<Longrightarrow> csv_push (in_state field_start [] rec n) (formatCsvRecord vs) =
     (in_state field_start [] [] (n + 1), [rec @ map escapeFormula vs])"
proof (induction vs arbitrary: rec)
  case (Cons v vs)
  obtain r where r: "csv_push (in_state field_start [] rec n) (formatCsvValue v) = (r, [])" "holds_value r (escapeFormula v) rec n"
    by (rule push_value)
  show ?case
  proof (cases "vs = []")
    case True
    then show ?thesis using r(1) value_line_end[OF r(2)] by (simp add: formatCsvRecord_def csv_push_append)
  next
    case False
    then show ?thesis
      using r(1) value_comma[OF r(2)] Cons.IH[OF False] by (simp add: formatCsvRecord_Cons csv_push_append)
  qed
qed simp

lemma push_records:
  "list_all (\<lambda>vs. vs \<noteq> []) rows \<Longrightarrow> csv_push (in_state field_start [] [] n) (concat (map formatCsvRecord rows)) =
     (in_state field_start [] [] (n + length rows), map (map escapeFormula) rows)"
  by (induction rows arbitrary: n) (simp_all add: push_record csv_push_append)

lemma parse_written:
  "list_all (\<lambda>vs. vs \<noteq> []) rows \<Longrightarrow> parseCsvRecords (concat (map formatCsvRecord rows)) = Inr (map (map escapeFormula) rows)"
  using push_records[of rows 0]
  by (simp add: parseCsvRecords_def new_reader_state csv_end_def) (simp add: in_state_def)

text \<open>
  Whatever values a file is written from, commas, quotes, line breaks and leading formula characters included,
  reading the file gives the values back, record by record.
\<close>

theorem csv_text_roundtrip:
  assumes "list_all (\<lambda>vs. vs \<noteq> []) rows"
  shows "rbind (parseCsvRecords (concat (map formatCsvRecord rows))) (\<lambda>records. Inr (map (map unescapeFormula) records)) = Inr rows"
  using parse_written[OF assms] by (simp add: comp_def)

theorem csv_text_roundtrip_witness:
  "rbind (parseCsvRecords (concat (map formatCsvRecord [[''=1+1'', ''a,b''], [[quote, LF], []]])))
     (\<lambda>records. Inr (map (map unescapeFormula) records)) = Inr [[''=1+1'', ''a,b''], [[quote, LF], []]]"
  by (rule csv_text_roundtrip) simp

text \<open>No value starts a formula in the file, and no two values are written alike.\<close>

lemma escape_safe: "escapeFormula v = c # cs \<Longrightarrow> c \<notin> set FORMULA_LEAD"
  by (auto simp: escapeFormula_def apostrophe_def FORMULA_LEAD_def split: list.splits if_splits)

lemma escape_injective: "escapeFormula v = escapeFormula w \<Longrightarrow> v = w"
  by (metis unescape_escape)

end
