(* ===== verification/CatalogMoney.thy ===== *)
theory CatalogMoney
  imports Prelude
begin

text \<open>
  Amounts at the boundary with people, \<open>packages/core/src/catalog/money.ts\<close>: reading what a merchant
  typed and printing what a machine reads.  Of the currency signs only \<open>$\<close> is an ASCII character.
  \<open>discountPercent\<close> divides floating point numbers and \<open>formatPaise\<close> is the runtime's formatter; both
  are left out.
\<close>

datatype invalid_amount = amount_empty | not_plain_number | decimal_places nat | amount_too_large

definition strip_currency :: "string \<Rightarrow> string" where
  "strip_currency s = (case s of c # r \<Rightarrow> if c = CHR ''$'' then dropWhile is_space r else s | [] \<Rightarrow> [])"

definition clean_amount :: "string \<Rightarrow> string" where
  "clean_amount input = filter (\<lambda>c. \<not> is_space c) (filter (\<lambda>c. c \<noteq> CHR '','') (strip_currency (trim input)))"

text \<open>\<open>/^(-)?(\d+)(?:\.(\d+))?$/\<close>: the sign, the whole part and the fraction.\<close>

definition match_amount :: "string \<Rightarrow> (bool \<times> string \<times> string option) option" where
  "match_amount s =
    (let negative = (s \<noteq> [] \<and> hd s = CHR ''-''); body = (if negative then tl s else s);
         whole = takeWhile is_digit body; rest = dropWhile is_digit body
     in if whole = [] then None
        else if rest = [] then Some (negative, whole, None)
        else if hd rest = CHR ''.'' \<and> tl rest \<noteq> [] \<and> list_all is_digit (tl rest) then Some (negative, whole, Some (tl rest))
        else None)"

definition pad_end :: "nat \<Rightarrow> char \<Rightarrow> string \<Rightarrow> string" where
  "pad_end n c s = s @ replicate (n - length s) c"

definition parseAmountToPaise :: "string \<Rightarrow> (invalid_amount, paise) result" where
  "parseAmountToPaise input =
    (let cleaned = clean_amount input in
     if cleaned = [] then Inl amount_empty else
     case match_amount cleaned of
       None \<Rightarrow> Inl not_plain_number
     | Some (negative, whole, fraction) \<Rightarrow>
         let digits = (case fraction of Some f \<Rightarrow> f | None \<Rightarrow> []) in
         if length digits > 2 then Inl (decimal_places (length digits)) else
         let paise = int (read_nat whole) * 100 + int (read_nat (pad_end 2 (CHR ''0'') digits)) in
         if \<not> is_safe_integer paise then Inl amount_too_large
         else Inr (if negative then - paise else paise))"

definition paiseToDecimalString :: "paise \<Rightarrow> string" where
  "paiseToDecimalString p =
    (let a = nat \<bar>p\<bar> in
     (if p < 0 then ''-'' else []) @ show_nat (a div 100) @ ''.'' @ pad_start 2 (CHR ''0'') (show_nat (a mod 100)))"

definition hasValidDiscount :: "paise \<Rightarrow> paise option \<Rightarrow> bool" where
  "hasValidDiscount price compareAt \<longleftrightarrow> (case compareAt of None \<Rightarrow> False | Some c \<Rightarrow> c > price)"

section \<open>Printing and reading back\<close>

lemma takeWhile_digits: "list_all is_digit ds \<Longrightarrow> takeWhile is_digit (ds @ CHR ''.'' # r) = ds"
  by (induction ds) simp_all

lemma dropWhile_digits: "list_all is_digit ds \<Longrightarrow> dropWhile is_digit (ds @ CHR ''.'' # r) = CHR ''.'' # r"
  by (induction ds) simp_all

lemma all_digits_show: "list_all is_digit (show_nat n)"
  using show_nat_digits by (simp add: list_all_iff)

lemma length_show_nat_100: "n < 100 \<Longrightarrow> length (show_nat n) \<le> 2"
  by (subst show_nat.simps) (auto simp: show_nat.simps[of "n div 10"])

lemma two_digits:
  assumes "n < 100"
  shows "length (pad_start 2 (CHR ''0'') (show_nat n)) = 2" "list_all is_digit (pad_start 2 (CHR ''0'') (show_nat n))"
  using length_show_nat_100[OF assms] all_digits_show[of n]
  by (auto simp: pad_start_def list_all_iff is_digit_def)

lemma match_decimal:
  assumes "list_all is_digit ds" "ds \<noteq> []" "list_all is_digit fs" "fs \<noteq> []"
  shows "match_amount ((if neg then ''-'' else []) @ ds @ CHR ''.'' # fs) = Some (neg, ds, Some fs)"
proof (cases neg)
  case True
  then show ?thesis using assms by (simp add: match_amount_def takeWhile_digits dropWhile_digits)
next
  case False
  obtain d ds' where d: "ds = d # ds'" "is_digit d" using assms(1,2) by (cases ds) auto
  then have "d \<noteq> CHR ''-''" by auto
  then show ?thesis using False assms d
    by (simp add: match_amount_def takeWhile_digits dropWhile_digits Let_def)
qed

lemma hundreds: "int (n div 100) * 100 + int (n mod 100) = int n"
  by (metis div_mult_mod_eq of_nat_add of_nat_mult of_nat_numeral)

lemma parse_printed:
  assumes "is_safe_integer p"
  shows "parseAmountToPaise (paiseToDecimalString p) = Inr p"
proof -
  define ds where "ds = show_nat (nat \<bar>p\<bar> div 100)"
  define fs where "fs = pad_start 2 (CHR ''0'') (show_nat (nat \<bar>p\<bar> mod 100))"
  define s where "s = (if p < 0 then ''-'' else []) @ ds @ CHR ''.'' # fs"
  have ds: "list_all is_digit ds" "ds \<noteq> []" by (simp_all add: ds_def all_digits_show)
  have fs: "list_all is_digit fs" "length fs = 2" unfolding fs_def by (rule two_digits; simp)+
  have s: "paiseToDecimalString p = s" by (simp add: paiseToDecimalString_def s_def ds_def fs_def Let_def)
  have plain: "list_all (\<lambda>c. \<not> is_space c \<and> c \<noteq> CHR '','' \<and> c \<noteq> CHR ''$'') s"
    using ds(1) fs(1) by (auto simp: s_def list_all_iff is_space_def is_digit_def)
  have "filter (\<lambda>c. c \<noteq> CHR '','') s = s" "filter (\<lambda>c. \<not> is_space c) s = s" "strip_currency s = s"
    using plain by (auto simp: filter_id_conv list_all_iff strip_currency_def split: list.split)
  then have clean: "clean_amount s = s"
    using plain by (simp add: clean_amount_def trim_no_space list_all_iff)
  have "match_amount s = Some (p < 0, ds, Some fs)"
    unfolding s_def using ds fs by (intro match_decimal) auto
  moreover have "s \<noteq> []" by (simp add: s_def)
  moreover have "int (read_nat ds) * 100 + int (read_nat (pad_end 2 (CHR ''0'') fs)) = \<bar>p\<bar>"
    using fs(2) hundreds[of "nat \<bar>p\<bar>"] by (simp add: ds_def fs_def pad_end_def read_nat_pad)
  moreover have "is_safe_integer \<bar>p\<bar>" using assms by (auto simp: is_safe_integer_def)
  ultimately show ?thesis using fs(2) by (simp add: parseAmountToPaise_def s clean Let_def)
qed

text \<open>A printed amount has neither blanks nor letters.\<close>

lemma printed_plain: "list_all (\<lambda>c. is_digit c \<or> c = CHR ''.'' \<or> c = CHR ''-'') (paiseToDecimalString p)"
  using all_digits_show[of "nat \<bar>p\<bar> div 100"] two_digits(2)[of "nat \<bar>p\<bar> mod 100"]
  by (auto simp: paiseToDecimalString_def Let_def list_all_iff)

text \<open>
  Printing an amount and reading it back is the identity on every representable amount of paise, positive or
  negative, and no two amounts are printed alike: an exported price is the price.
\<close>

theorem amount_roundtrip:
  assumes "is_safe_integer p"
  shows "parseAmountToPaise (paiseToDecimalString p) = Inr p"
  by (rule parse_printed[OF assms])

theorem amount_roundtrip_witness:
  "parseAmountToPaise (paiseToDecimalString (- 129905)) = Inr (- 129905)"
  by (rule amount_roundtrip) (simp add: is_safe_integer_def max_safe_integer_def)

text \<open>Whatever is read is representable.\<close>

lemma parse_amount_safe: "parseAmountToPaise s = Inr p \<Longrightarrow> is_safe_integer p"
  by (auto simp: parseAmountToPaise_def is_safe_integer_def Let_def split: if_splits option.splits)

end
