(* ===== verification/Slug.thy ===== *)
theory Slug
  imports Prelude
begin

text \<open>
  Slugs, \<open>packages/core/src/catalog/slug.ts\<close>.  On ASCII titles: the Unicode normalisation is the
  identity there, and a letter or digit of any script is an ASCII one.  The lookup whether a slug is
  taken is a parameter (the caller's query on \<open>url_slugs\<close>).
\<close>

definition MAX_SLUG_LENGTH :: nat where
  "MAX_SLUG_LENGTH = 96"

definition RESERVED_SLUGS :: "string list" where
  "RESERVED_SLUGS =
    [''cart'', ''checkout'', ''search'', ''account'', ''orders'', ''order'', ''login'', ''logout'', ''register'', ''api'',
     ''admin'', ''console'', ''sitemap'', ''sitemap.xml'', ''robots.txt'', ''favicon.ico'', ''_next'', ''static'', ''assets'',
     ''media'', ''products'', ''product'', ''categories'', ''category'', ''collections'', ''collection'', ''pages'',
     ''policies'', ''404'', ''500'']"

abbreviation hyphen :: char where "hyphen \<equiv> CHR ''-''"

text \<open>\<open>replace(/[^\p{L}\p{N}]+/gu, "-")\<close>: a run of separators becomes one hyphen.\<close>

function hyphenate :: "string \<Rightarrow> string" where
  "hyphenate [] = []"
| "hyphenate (c # cs) = (if is_alnum c then c # hyphenate cs else hyphen # hyphenate (dropWhile (\<lambda>c. \<not> is_alnum c) cs))"
  by pat_completeness auto
termination
  by (relation "measure length") (auto intro: le_imp_less_Suc length_dropWhile_le)

definition strip_end :: "string \<Rightarrow> string" where
  "strip_end s = rev (dropWhile (\<lambda>c. c = hyphen) (rev s))"

definition strip_hyphens :: "string \<Rightarrow> string" where
  "strip_hyphens s = strip_end (dropWhile (\<lambda>c. c = hyphen) s)"

text \<open>\<open>lastIndexOf("-")\<close>.\<close>

definition last_hyphen :: "string \<Rightarrow> nat option" where
  "last_hyphen s = (if hyphen \<in> set s then Some (length s - 1 - length (takeWhile (\<lambda>c. c \<noteq> hyphen) (rev s))) else None)"

definition cut_slug :: "string \<Rightarrow> string" where
  "cut_slug slug =
    (let s = take MAX_SLUG_LENGTH slug;
         s' = (case last_hyphen s of Some i \<Rightarrow> if i \<ge> MAX_SLUG_LENGTH div 2 then take i s else s | None \<Rightarrow> s)
     in strip_end s')"

definition slugify :: "string option \<Rightarrow> string \<Rightarrow> string" where
  "slugify fallback input =
    (let slug = strip_hyphens (hyphenate (to_lower input));
         slug' = (if length slug > MAX_SLUG_LENGTH then cut_slug slug else slug)
     in if slug' \<noteq> [] then slug'
        else (case fallback of Some f \<Rightarrow> if f \<noteq> [] then f else ''item'' | None \<Rightarrow> ''item''))"

section \<open>Free slugs\<close>

definition truncateForSuffix :: "string \<Rightarrow> nat \<Rightarrow> string" where
  "truncateForSuffix base n =
    (let room = MAX_SLUG_LENGTH - length (show_nat n) - 1 in
     if length base \<le> room then base else strip_end (take room base))"

definition slug_candidate :: "string \<Rightarrow> nat \<Rightarrow> string" where
  "slug_candidate base n = truncateForSuffix base n @ hyphen # show_nat n"

text \<open>\<open>for (let n = 2; n <= maxAttempts; n++)\<close>; None is the error thrown after the loop.\<close>

function try_suffixes :: "(string \<Rightarrow> bool) \<Rightarrow> string \<Rightarrow> nat \<Rightarrow> nat \<Rightarrow> string option" where
  "try_suffixes isTaken base maxAttempts n =
    (if n > maxAttempts then None
     else if \<not> isTaken (slug_candidate base n) then Some (slug_candidate base n)
     else try_suffixes isTaken base maxAttempts (n + 1))"
  by pat_completeness auto
termination
  by (relation "measure (\<lambda>(_, _, m, n). m + 1 - n)") auto

declare try_suffixes.simps [simp del]

definition availableSlug :: "(string \<Rightarrow> bool) \<Rightarrow> nat \<Rightarrow> string \<Rightarrow> string option" where
  "availableSlug isTaken maxAttempts desired =
    (let base = (if desired \<in> set RESERVED_SLUGS then desired @ ''-item'' else desired) in
     if \<not> isTaken base then Some base else try_suffixes isTaken base maxAttempts 2)"

section \<open>Resolution of a request\<close>

record slug_row =
  sr_slug :: string
  sr_entityType :: string
  sr_entityId :: uuid
  sr_isCanonical :: bool

datatype slug_resolution = render string uuid | redirect string | slug_notFound

definition resolveSlug :: "slug_row option \<Rightarrow> (string \<Rightarrow> uuid \<Rightarrow> string option) \<Rightarrow> slug_resolution" where
  "resolveSlug requested canonicalFor =
    (case requested of
       None \<Rightarrow> slug_notFound
     | Some r \<Rightarrow>
         if sr_isCanonical r then render (sr_entityType r) (sr_entityId r)
         else (case canonicalFor (sr_entityType r) (sr_entityId r) of
                 Some c \<Rightarrow> if c = [] then slug_notFound else redirect c
               | None \<Rightarrow> slug_notFound))"

section \<open>What a slug looks like\<close>

text \<open>Lower-case letters and digits in words, single hyphens between them.\<close>

definition slug_char :: "char \<Rightarrow> bool" where
  "slug_char c \<longleftrightarrow> is_alnum c \<and> char_lower c = c"

fun single_hyphens :: "string \<Rightarrow> bool" where
  "single_hyphens (a # b # s) \<longleftrightarrow> \<not> (a = hyphen \<and> b = hyphen) \<and> single_hyphens (b # s)"
| "single_hyphens _ \<longleftrightarrow> True"

definition slug_shape :: "string \<Rightarrow> bool" where
  "slug_shape s \<longleftrightarrow> s \<noteq> [] \<and> list_all (\<lambda>c. slug_char c \<or> c = hyphen) s \<and> hd s \<noteq> hyphen \<and> last s \<noteq> hyphen \<and> single_hyphens s"

lemma hyphen_not_alnum [simp]: "\<not> is_alnum hyphen"
  by (simp add: is_alnum_def is_digit_def)

lemma alnum_lower: "is_alnum (char_lower c) = is_alnum c"
  by (auto simp: is_alnum_def is_digit_def of_char_lower)

lemma single_hyphens_Cons: "single_hyphens (a # s) \<longleftrightarrow> (s = [] \<or> \<not> (a = hyphen \<and> hd s = hyphen)) \<and> single_hyphens s"
  by (cases s) auto

lemma hyphenate_chars:
  "list_all (\<lambda>c. is_alnum c \<longrightarrow> char_lower c = c) s \<Longrightarrow> list_all (\<lambda>c. slug_char c \<or> c = hyphen) (hyphenate s)"
  by (induction s rule: hyphenate.induct) (auto simp: slug_char_def list_all_iff dest: set_dropWhileD)

lemma hyphenate_head: "s \<noteq> [] \<Longrightarrow> hyphenate s \<noteq> [] \<and> (hd (hyphenate s) = hyphen \<longleftrightarrow> \<not> is_alnum (hd s))"
  by (cases s) auto

lemma hyphenate_single: "single_hyphens (hyphenate s)"
proof (induction s rule: hyphenate.induct)
  case (2 c cs)
  show ?case
  proof (cases "is_alnum c")
    case True
    then show ?thesis using 2(1) by (auto simp: single_hyphens_Cons)
  next
    case False
    let ?d = "dropWhile (\<lambda>c. \<not> is_alnum c) cs"
    show ?thesis
    proof (cases "?d = []")
      case True
      have "hyphenate (c # cs) = hyphen # hyphenate ?d" using False by simp
      also have "\<dots> = [hyphen]" by (simp only: True hyphenate.simps(1))
      finally show ?thesis by simp
    next
      case ne: False
      have "is_alnum (hd ?d)" using hd_dropWhile[OF ne] by simp
      then have "hd (hyphenate ?d) \<noteq> hyphen" using hyphenate_head[OF ne] by blast
      then show ?thesis using 2(2)[OF False] False by (simp add: single_hyphens_Cons)
    qed
  qed
qed simp

lemma hyphenate_id:
  "list_all (\<lambda>c. is_alnum c \<or> c = hyphen) s \<Longrightarrow> single_hyphens s \<Longrightarrow> hyphenate s = s"
proof (induction s rule: hyphenate.induct)
  case (2 c cs)
  show ?case
  proof (cases "is_alnum c")
    case True
    then show ?thesis using 2 by (auto simp: single_hyphens_Cons)
  next
    case False
    then have "dropWhile (\<lambda>c. \<not> is_alnum c) cs = cs" using 2(3,4) by (cases cs) auto
    then show ?thesis using 2 False by (auto simp: single_hyphens_Cons)
  qed
qed simp

text \<open>Cutting and stripping keep the shape of the inside.\<close>

definition inner_ok :: "string \<Rightarrow> bool" where
  "inner_ok s \<longleftrightarrow> list_all (\<lambda>c. slug_char c \<or> c = hyphen) s \<and> single_hyphens s"

lemma single_hyphens_append: "single_hyphens (s @ t) \<Longrightarrow> single_hyphens s \<and> single_hyphens t"
  by (induction s) (auto simp: single_hyphens_Cons)

lemma inner_append: "inner_ok (s @ t) \<Longrightarrow> inner_ok s \<and> inner_ok t"
  unfolding inner_ok_def by (auto dest: single_hyphens_append)

lemma inner_take: "inner_ok s \<Longrightarrow> inner_ok (take n s)"
  using inner_append[of "take n s" "drop n s"] by simp

lemma inner_dropWhile: "inner_ok s \<Longrightarrow> inner_ok (dropWhile P s)"
  using inner_append[of "takeWhile P s" "dropWhile P s"] by simp

lemma strip_end_prefix: "\<exists>t. s = strip_end s @ t"
proof -
  have "rev s = takeWhile (\<lambda>c. c = hyphen) (rev s) @ dropWhile (\<lambda>c. c = hyphen) (rev s)" by simp
  then have "s = rev (dropWhile (\<lambda>c. c = hyphen) (rev s)) @ rev (takeWhile (\<lambda>c. c = hyphen) (rev s))" by (metis rev_append rev_rev_ident)
  then show ?thesis unfolding strip_end_def by blast
qed

lemma inner_strip_end: "inner_ok s \<Longrightarrow> inner_ok (strip_end s)"
  using strip_end_prefix[of s] inner_append by metis

lemma strip_end_last: "strip_end s \<noteq> [] \<Longrightarrow> last (strip_end s) \<noteq> hyphen"
  unfolding strip_end_def using hd_dropWhile[of "\<lambda>c. c = hyphen" "rev s"] by (simp add: last_rev)

lemma strip_end_hd: "strip_end s \<noteq> [] \<Longrightarrow> hd (strip_end s) = hd s"
  using strip_end_prefix[of s] by (metis hd_append2)

lemma strip_end_length: "length (strip_end s) \<le> length s"
  unfolding strip_end_def using length_dropWhile_le[of _ "rev s"] by simp

lemma strip_end_id: "s = [] \<or> last s \<noteq> hyphen \<Longrightarrow> strip_end s = s"
  by (cases s rule: rev_cases) (auto simp: strip_end_def)

lemma strip_hyphens_inner: "inner_ok s \<Longrightarrow> inner_ok (strip_hyphens s)"
  unfolding strip_hyphens_def by (intro inner_strip_end inner_dropWhile)

lemma strip_hyphens_hd:
  assumes "strip_hyphens s \<noteq> []"
  shows "hd (strip_hyphens s) \<noteq> hyphen"
proof -
  let ?d = "dropWhile (\<lambda>c. c = hyphen) s"
  have "?d \<noteq> []"
  proof
    assume "?d = []"
    then have "strip_hyphens s = strip_end []" unfolding strip_hyphens_def by (rule arg_cong)
    then show False using assms by (simp add: strip_end_def)
  qed
  then have "hd ?d \<noteq> hyphen" by (rule hd_dropWhile)
  then show ?thesis using strip_end_hd assms unfolding strip_hyphens_def by metis
qed

lemma strip_hyphens_last: "strip_hyphens s \<noteq> [] \<Longrightarrow> last (strip_hyphens s) \<noteq> hyphen"
  unfolding strip_hyphens_def by (rule strip_end_last)

lemma strip_hyphens_id:
  assumes "s = [] \<or> hd s \<noteq> hyphen \<and> last s \<noteq> hyphen"
  shows "strip_hyphens s = s"
proof -
  have "dropWhile (\<lambda>c. c = hyphen) s = s" using assms by (cases s) auto
  then show ?thesis unfolding strip_hyphens_def using assms strip_end_id[of s] by auto
qed

lemma cut_slug_ok:
  assumes "inner_ok s" "hd s \<noteq> hyphen" "s \<noteq> []"
  shows "inner_ok (cut_slug s)" "length (cut_slug s) \<le> MAX_SLUG_LENGTH" "cut_slug s \<noteq> []"
    "hd (cut_slug s) \<noteq> hyphen" "last (cut_slug s) \<noteq> hyphen"
proof -
  let ?s = "take MAX_SLUG_LENGTH s"
  have whole: "?s = take MAX_SLUG_LENGTH ?s" by simp
  have "\<exists>i\<ge>MAX_SLUG_LENGTH div 2. cut_slug s = strip_end (take i ?s)"
  proof (cases "\<exists>i\<ge>MAX_SLUG_LENGTH div 2. last_hyphen ?s = Some i")
    case True
    then show ?thesis unfolding cut_slug_def Let_def by auto
  next
    case False
    then have "cut_slug s = strip_end ?s" unfolding cut_slug_def Let_def by (auto split: option.splits)
    then have "cut_slug s = strip_end (take MAX_SLUG_LENGTH ?s)" by (simp only: whole[symmetric])
    then show ?thesis by (intro exI[of _ MAX_SLUG_LENGTH]) simp
  qed
  then obtain i where i: "cut_slug s = strip_end (take i ?s)" "i \<ge> MAX_SLUG_LENGTH div 2" by blast
  have "0 < i" using i(2) assms(3) by (auto simp: MAX_SLUG_LENGTH_def)
  then obtain c t where t: "take i ?s = c # t" "c = hd s" using assms(3) by (cases s; cases i) (auto simp: MAX_SLUG_LENGTH_def)
  have ok: "inner_ok (take i ?s)" using assms(1) by (intro inner_take)
  show "inner_ok (cut_slug s)" unfolding i(1) by (rule inner_strip_end[OF ok])
  show "length (cut_slug s) \<le> MAX_SLUG_LENGTH" unfolding i(1) using strip_end_length[of "take i ?s"] by simp
  have "hyphen \<noteq> c" using assms(2) t(2) by simp
  then show ne: "cut_slug s \<noteq> []" unfolding i(1) t(1) strip_end_def by (auto simp: dropWhile_eq_Nil_conv)
  show "hd (cut_slug s) \<noteq> hyphen" using strip_end_hd[of "take i ?s"] ne i(1) t \<open>hyphen \<noteq> c\<close> by simp
  show "last (cut_slug s) \<noteq> hyphen" using strip_end_last[of "take i ?s"] ne i(1) by simp
qed


lemma slug_shape_inner: "slug_shape s \<longleftrightarrow> s \<noteq> [] \<and> inner_ok s \<and> hd s \<noteq> hyphen \<and> last s \<noteq> hyphen"
  unfolding slug_shape_def inner_ok_def by blast

lemma hyphenate_inner: "inner_ok (hyphenate (to_lower s))"
  unfolding inner_ok_def to_lower_def by (intro conjI hyphenate_single hyphenate_chars) (simp add: list_all_iff)

lemma slug_shape_fixed:
  assumes "slug_shape s" "length s \<le> MAX_SLUG_LENGTH"
  shows "slugify fallback s = s"
proof -
  have chars: "list_all (\<lambda>c. slug_char c \<or> c = hyphen) s" using assms(1) unfolding slug_shape_def by blast
  have "char_lower hyphen = hyphen" by (simp add: char_lower_def)
  then have "to_lower s = s" unfolding to_lower_def using chars by (intro map_idI) (auto simp: list_all_iff slug_char_def)
  moreover have "hyphenate s = s"
    using assms(1) chars unfolding slug_shape_def by (intro hyphenate_id) (auto simp: list_all_iff slug_char_def)
  moreover have "strip_hyphens s = s" using assms(1) unfolding slug_shape_def by (intro strip_hyphens_id) blast
  ultimately show ?thesis using assms unfolding slugify_def slug_shape_def by (simp add: Let_def)
qed

lemma slugify_shape:
  assumes "case fallback of None \<Rightarrow> True | Some f \<Rightarrow> f = [] \<or> slug_shape f \<and> length f \<le> MAX_SLUG_LENGTH"
  shows "slug_shape (slugify fallback input) \<and> length (slugify fallback input) \<le> MAX_SLUG_LENGTH"
proof -
  define slug where "slug = strip_hyphens (hyphenate (to_lower input))"
  define slug' where "slug' = (if length slug > MAX_SLUG_LENGTH then cut_slug slug else slug)"
  have result: "slugify fallback input = (if slug' \<noteq> [] then slug'
        else (case fallback of Some f \<Rightarrow> if f \<noteq> [] then f else ''item'' | None \<Rightarrow> ''item''))"
    unfolding slugify_def slug_def slug'_def Let_def ..
  have item: "slug_shape ''item'' \<and> length ''item'' \<le> MAX_SLUG_LENGTH" by code_simp
  have inner: "inner_ok slug" unfolding slug_def by (intro strip_hyphens_inner hyphenate_inner)
  have ends: "slug \<noteq> [] \<Longrightarrow> hd slug \<noteq> hyphen \<and> last slug \<noteq> hyphen"
    unfolding slug_def by (blast dest: strip_hyphens_hd strip_hyphens_last)
  show ?thesis
  proof (cases "slug' = []")
    case True
    then show ?thesis using assms item unfolding result by (cases fallback) auto
  next
    case False
    have "slug_shape slug' \<and> length slug' \<le> MAX_SLUG_LENGTH"
    proof (cases "length slug > MAX_SLUG_LENGTH")
      case True
      then have ne: "slug \<noteq> []" by auto
      have "slug' = cut_slug slug" using True unfolding slug'_def by simp
      then show ?thesis using cut_slug_ok[OF inner] ends[OF ne] ne unfolding slug_shape_inner by simp
    next
      case short: False
      then have "slug' = slug" unfolding slug'_def by simp
      then show ?thesis using False inner ends short unfolding slug_shape_inner by simp
    qed
    then show ?thesis using False unfolding result by simp
  qed
qed

text \<open>
  A slug is made of lower-case words: whatever the title, slugify returns at most 96
  characters, letters and digits in lower case with single hyphens between words and none at the
  ends, never the empty string; and slugify applied to a slug it made changes nothing.
\<close>
theorem slugs_are_words:
  assumes "case fallback of None \<Rightarrow> True | Some f \<Rightarrow> f = [] \<or> slug_shape f \<and> length f \<le> MAX_SLUG_LENGTH"
  shows "slug_shape (slugify fallback input) \<and> length (slugify fallback input) \<le> MAX_SLUG_LENGTH \<and>
    slugify other (slugify fallback input) = slugify fallback input"
  using slugify_shape[OF assms] slug_shape_fixed by blast

theorem slugs_are_words_witness:
  "slugify None ''  Blue Linen -- Shirt (XL)!'' = ''blue-linen-shirt-xl'' \<and> slug_shape ''blue-linen-shirt-xl'' \<and>
   slugify (Some ''product'') ''---'' = ''product'' \<and> slug_shape ''product'' \<and>
   length (slugify (Some ''product'') ''---'') \<le> MAX_SLUG_LENGTH"
proof -
  have a: "slugify None ''  Blue Linen -- Shirt (XL)!'' = ''blue-linen-shirt-xl''" by code_simp
  have f: "slug_shape ''product'' \<and> length ''product'' \<le> MAX_SLUG_LENGTH" by code_simp
  have b: "slugify (Some ''product'') ''---'' = ''product''" by code_simp
  show ?thesis
    using slugs_are_words[of None "''  Blue Linen -- Shirt (XL)!''" None] slugs_are_words[of "Some ''product''" "''---''" None] f
    unfolding a b by simp
qed

section \<open>The search for a free slug\<close>

lemma try_suffixes_Some:
  "try_suffixes isTaken base m n = Some s \<Longrightarrow>
   \<exists>k\<ge>n. k \<le> m \<and> s = slug_candidate base k \<and> \<not> isTaken s \<and> (\<forall>j\<in>{n..<k}. isTaken (slug_candidate base j))"
proof (induction isTaken base m n rule: try_suffixes.induct)
  case (1 isTaken base m n)
  show ?case
  proof (cases "n > m")
    case True
    then show ?thesis using 1(2) by (simp add: try_suffixes.simps[of isTaken base m n])
  next
    case False
    show ?thesis
    proof (cases "isTaken (slug_candidate base n)")
      case taken: True
      then have "try_suffixes isTaken base m (n + 1) = Some s" using 1(2) False by (simp add: try_suffixes.simps[of isTaken base m n])
      then obtain k where k: "k \<ge> n + 1" "k \<le> m" "s = slug_candidate base k" "\<not> isTaken s" "\<forall>j\<in>{n + 1..<k}. isTaken (slug_candidate base j)"
        using 1(1)[OF False] taken by blast
      have "\<forall>j\<in>{n..<k}. isTaken (slug_candidate base j)"
      proof
        fix j assume "j \<in> {n..<k}"
        then show "isTaken (slug_candidate base j)" using k(5) taken by (cases "j = n") auto
      qed
      then show ?thesis using k by (intro exI[of _ k]) auto
    next
      case free: False
      then show ?thesis using 1(2) False by (intro exI[of _ n]) (simp add: try_suffixes.simps[of isTaken base m n])
    qed
  qed
qed

lemma try_suffixes_None:
  "try_suffixes isTaken base m n = None \<Longrightarrow> k \<in> {n..m} \<Longrightarrow> isTaken (slug_candidate base k)"
proof (induction isTaken base m n rule: try_suffixes.induct)
  case (1 isTaken base m n)
  then have n: "\<not> n > m" by simp
  then have taken: "isTaken (slug_candidate base n)" "try_suffixes isTaken base m (n + 1) = None"
    using 1(2) by (simp_all add: try_suffixes.simps[of isTaken base m n] split: if_splits)
  show ?case
  proof (cases "k = n")
    case False
    then show ?thesis using 1(1)[OF n] taken 1(3) by simp
  qed (simp add: taken)
qed

lemma slug_candidate_inject: "slug_candidate base j = slug_candidate base k \<Longrightarrow> j = k"
proof -
  assume e: "slug_candidate base j = slug_candidate base k"
  have no: "hyphen \<notin> set (rev (show_nat n))" for n using show_nat_not_minus[of n] by simp
  have "rev (show_nat j) @ hyphen # rev (truncateForSuffix base j) = rev (show_nat k) @ hyphen # rev (truncateForSuffix base k)"
    using arg_cong[OF e, of rev] unfolding slug_candidate_def by simp
  then have "rev (show_nat j) = rev (show_nat k)" using separator_split[OF no no] by blast
  then show ?thesis by simp
qed

lemma length_show_nat: "n < 10 ^ Suc k \<Longrightarrow> length (show_nat n) \<le> Suc k"
proof (induction k arbitrary: n)
  case (Suc k)
  show ?case
  proof (cases "n < 10")
    case False
    then have "length (show_nat (n div 10)) \<le> Suc k" using Suc by (intro Suc(1)) (simp add: less_mult_imp_div_less)
    then show ?thesis using False by (simp add: show_nat.simps[of n])
  qed (simp add: show_nat.simps[of n])
qed (subst show_nat.simps, simp)

lemma length_candidate:
  assumes "n < 10 ^ 20"
  shows "length (slug_candidate base n) \<le> MAX_SLUG_LENGTH"
proof -
  have "length (show_nat n) \<le> 20" using length_show_nat[of n 19] assms by simp
  moreover have "length (truncateForSuffix base n) \<le> MAX_SLUG_LENGTH - length (show_nat n) - 1"
    unfolding truncateForSuffix_def Let_def
    using strip_end_length[of "take (MAX_SLUG_LENGTH - length (show_nat n) - 1) base"] by auto
  ultimately show ?thesis unfolding slug_candidate_def by (simp add: MAX_SLUG_LENGTH_def)
qed


definition slug_base :: "string \<Rightarrow> string" where
  "slug_base desired = (if desired \<in> set RESERVED_SLUGS then desired @ ''-item'' else desired)"

lemma availableSlug_base:
  "availableSlug isTaken m desired =
    (if \<not> isTaken (slug_base desired) then Some (slug_base desired) else try_suffixes isTaken (slug_base desired) m 2)"
  unfolding availableSlug_def slug_base_def Let_def ..

lemma reserved_facts: "list_all (\<lambda>r. length r \<le> 20 \<and> hyphen \<notin> set r) RESERVED_SLUGS"
  by code_simp

lemma reserved_no_hyphen: "hyphen \<in> set s \<Longrightarrow> s \<notin> set RESERVED_SLUGS"
  using reserved_facts by (auto simp: list_all_iff)

lemma slug_base_ok:
  "slug_base desired \<notin> set RESERVED_SLUGS"
  "length desired \<le> MAX_SLUG_LENGTH \<Longrightarrow> length (slug_base desired) \<le> MAX_SLUG_LENGTH"
proof -
  show "slug_base desired \<notin> set RESERVED_SLUGS"
    by (cases "desired \<in> set RESERVED_SLUGS") (simp_all add: slug_base_def reserved_no_hyphen)
  show "length desired \<le> MAX_SLUG_LENGTH \<Longrightarrow> length (slug_base desired) \<le> MAX_SLUG_LENGTH"
    using reserved_facts by (auto simp: slug_base_def list_all_iff MAX_SLUG_LENGTH_def)
qed

lemma candidate_not_reserved: "slug_candidate base n \<notin> set RESERVED_SLUGS"
  by (rule reserved_no_hyphen) (simp add: slug_candidate_def)

text \<open>
  A slug the search answers is free: nobody has it, it is not one of the storefront's own
  paths, it fits the 96 characters when the wish did, and it is the first free one in the order
  wish, wish-2, wish-3 and so on.
\<close>
theorem available_slug_is_free:
  assumes "availableSlug isTaken maxAttempts desired = Some s" "length desired \<le> MAX_SLUG_LENGTH" "maxAttempts < 10 ^ 20"
  shows "\<not> isTaken s \<and> s \<notin> set RESERVED_SLUGS \<and> length s \<le> MAX_SLUG_LENGTH \<and>
    (s = slug_base desired \<or>
     (\<exists>k\<in>{2..maxAttempts}. s = slug_candidate (slug_base desired) k \<and>
        isTaken (slug_base desired) \<and> (\<forall>j\<in>{2..<k}. isTaken (slug_candidate (slug_base desired) j))))"
proof (cases "isTaken (slug_base desired)")
  case False
  then show ?thesis using assms slug_base_ok[of desired] unfolding availableSlug_base by auto
next
  case True
  then have "try_suffixes isTaken (slug_base desired) maxAttempts 2 = Some s" using assms(1) unfolding availableSlug_base by simp
  then obtain k where k: "k \<ge> 2" "k \<le> maxAttempts" "s = slug_candidate (slug_base desired) k" "\<not> isTaken s"
      "\<forall>j\<in>{2..<k}. isTaken (slug_candidate (slug_base desired) j)"
    using try_suffixes_Some by blast
  have "length s \<le> MAX_SLUG_LENGTH" unfolding k(3) using assms(3) k(2) by (intro length_candidate) simp
  moreover have "s \<notin> set RESERVED_SLUGS" unfolding k(3) by (rule candidate_not_reserved)
  ultimately show ?thesis using k True by auto
qed

theorem available_slug_is_free_witness:
  "\<not> (''cart-item-3'' \<in> {''cart-item'', ''cart-item-2''}) \<and> ''cart-item-3'' \<notin> set RESERVED_SLUGS \<and>
   length ''cart-item-3'' \<le> MAX_SLUG_LENGTH"
proof -
  have a: "availableSlug (\<lambda>s. s = ''cart-item'' \<or> s = ''cart-item-2'') 100 ''cart'' = Some ''cart-item-3''" by code_simp
  show ?thesis using available_slug_is_free[OF a] by (simp add: MAX_SLUG_LENGTH_def)
qed

text \<open>
  The search ends with an answer: when fewer than \<open>maxAttempts - 1\<close> slugs are taken at all, it
  finds a free one, whatever the wish (the suffixes it tries are different slugs).
\<close>
theorem free_slug_found:
  assumes "finite {s. isTaken s}" "card {s. isTaken s} < maxAttempts - 1"
  shows "\<exists>s. availableSlug isTaken maxAttempts desired = Some s"
proof (rule ccontr)
  let ?c = "slug_candidate (slug_base desired)"
  assume "\<nexists>s. availableSlug isTaken maxAttempts desired = Some s"
  then have "try_suffixes isTaken (slug_base desired) maxAttempts 2 = None"
    unfolding availableSlug_base by (auto split: if_splits)
  then have "?c ` {2..maxAttempts} \<subseteq> {s. isTaken s}" using try_suffixes_None by blast
  then have "card (?c ` {2..maxAttempts}) \<le> card {s. isTaken s}" using assms(1) by (rule card_mono[rotated])
  moreover have "card (?c ` {2..maxAttempts}) = card {2..maxAttempts}"
    by (rule card_image) (auto intro!: inj_onI dest: slug_candidate_inject)
  ultimately show False using assms(2) by simp
qed

theorem free_slug_found_witness:
  "\<exists>s. availableSlug (\<lambda>s. s \<in> {''shirt'', ''shirt-2''}) 100 ''shirt'' = Some s"
proof (rule free_slug_found)
  show "finite {s. s \<in> {''shirt'', ''shirt-2''}}" by simp
  show "card {s. s \<in> {''shirt'', ''shirt-2''}} < (100::nat) - 1" by (simp only: Collect_mem_eq) simp
qed

end
