(* ===== verification/Options.thy ===== *)
theory Options
  imports Prelude "HOL-Library.List_Lexorder" "HOL-Library.Char_ord"
begin

text \<open>
  Variant option matrices, \<open>packages/core/src/catalog/options.ts\<close>.  A selection is an object from
  axis names to values: a list of pairs in the order of its keys, each key once.  Strings are compared
  character by character, as JavaScript sorts them.  The messages of the issues are left out.
\<close>

record option_axis =
  ax_name :: string
  ax_values :: "string list"

type_synonym option_selection = "(string \<times> string) list"

datatype matrix_code = duplicate_axis | duplicate_value | empty_axis | unknown_axis | missing_axis | unknown_value
  | duplicate_combination | unexpected_options | multiple_variants_without_options

record matrix_issue =
  mi_code :: matrix_code
  mi_variantIndex :: "nat option"

text \<open>A property of an object is set: its name keeps its place, or comes last.\<close>

fun set_entry :: "'k \<Rightarrow> 'v \<Rightarrow> ('k \<times> 'v) list \<Rightarrow> ('k \<times> 'v) list" where
  "set_entry k v [] = [(k, v)]"
| "set_entry k v ((k', v') # r) = (if k' = k then (k, v) # r else (k', v') # set_entry k v r)"

section \<open>Keys and combinations\<close>

definition NUL :: char where "NUL = CHR 0x00"
definition SOH :: char where "SOH = CHR 0x01"

definition optionKey :: "option_selection \<Rightarrow> string" where
  "optionKey selection =
    join_with [SOH] (map (\<lambda>k. k @ NUL # (case map_of selection k of Some v \<Rightarrow> v | None \<Rightarrow> [])) (sort (map fst selection)))"

fun extend_combinations :: "option_selection list \<Rightarrow> option_axis list \<Rightarrow> option_selection list" where
  "extend_combinations acc [] = acc"
| "extend_combinations acc (a # axes) =
    extend_combinations (concat (map (\<lambda>partial. map (\<lambda>v. set_entry (ax_name a) v partial) (ax_values a)) acc)) axes"

definition cartesianCombinations :: "option_axis list \<Rightarrow> option_selection list" where
  "cartesianCombinations axes = extend_combinations [[]] axes"

section \<open>Validation\<close>

text \<open>The names every object inherits: \<open>name in object\<close> holds of them too.\<close>

definition OBJECT_PROTOTYPE :: "string list" where
  "OBJECT_PROTOTYPE =
    [''constructor'', ''hasOwnProperty'', ''isPrototypeOf'', ''propertyIsEnumerable'', ''toLocaleString'', ''toString'', ''valueOf'',
     ''__defineGetter__'', ''__defineSetter__'', ''__lookupGetter__'', ''__lookupSetter__'', ''__proto__'']"

definition in_object :: "string \<Rightarrow> option_selection \<Rightarrow> bool" where
  "in_object name obj \<longleftrightarrow> name \<in> fst ` set obj \<or> name \<in> set OBJECT_PROTOTYPE"

definition axis_issue :: "matrix_code \<Rightarrow> matrix_issue" where
  "axis_issue code = \<lparr>mi_code = code, mi_variantIndex = None\<rparr>"

definition variant_issue :: "nat \<Rightarrow> matrix_code \<Rightarrow> matrix_issue" where
  "variant_issue i code = \<lparr>mi_code = code, mi_variantIndex = Some i\<rparr>"

fun repeated :: "'a list \<Rightarrow> 'a list \<Rightarrow> 'a list" where
  "repeated seen [] = []"
| "repeated seen (v # vs) = (if v \<in> set seen then v # repeated seen vs else repeated (v # seen) vs)"

fun axis_issues :: "string list \<Rightarrow> option_axis list \<Rightarrow> matrix_issue list" where
  "axis_issues names [] = []"
| "axis_issues names (a # axes) =
    (if ax_name a \<in> set names then [axis_issue duplicate_axis] else []) @
    (if ax_values a = [] then [axis_issue empty_axis] else []) @
    map (\<lambda>_. axis_issue duplicate_value) (repeated [] (ax_values a)) @
    axis_issues (ax_name a # names) axes"

text \<open>\<open>new Map(axes.map(...))\<close>: the last axis of a name wins.\<close>

definition allowed_values :: "option_axis list \<Rightarrow> string \<Rightarrow> string list option" where
  "allowed_values axes = map_of (rev (map (\<lambda>a. (ax_name a, ax_values a)) axes))"

definition entry_issues :: "option_axis list \<Rightarrow> nat \<Rightarrow> string \<times> string \<Rightarrow> matrix_issue list" where
  "entry_issues axes i entry =
    (case allowed_values axes (fst entry) of
       None \<Rightarrow> [variant_issue i unknown_axis]
     | Some values \<Rightarrow> if snd entry \<notin> set values then [variant_issue i unknown_value] else [])"

definition missing_issues :: "option_axis list \<Rightarrow> nat \<Rightarrow> option_selection \<Rightarrow> matrix_issue list" where
  "missing_issues axes i options =
    map (\<lambda>_. variant_issue i missing_axis) (filter (\<lambda>a. \<not> in_object (ax_name a) options) axes)"

fun variant_issues :: "option_axis list \<Rightarrow> string list \<Rightarrow> nat \<Rightarrow> option_selection list \<Rightarrow> matrix_issue list" where
  "variant_issues axes combinations i [] = []"
| "variant_issues axes combinations i (options # variants) =
    concat (map (entry_issues axes i) options) @ missing_issues axes i options @
    (if optionKey options \<in> set combinations
     then variant_issue i duplicate_combination # variant_issues axes combinations (i + 1) variants
     else variant_issues axes (optionKey options # combinations) (i + 1) variants)"

definition validateVariantMatrix :: "option_axis list \<Rightarrow> option_selection list \<Rightarrow> matrix_issue list" where
  "validateVariantMatrix axes variants =
    axis_issues [] axes @
    (if axes = []
     then (if length variants > 1 then [axis_issue multiple_variants_without_options] else []) @
          concat (map (\<lambda>(i, options). if options \<noteq> [] then [variant_issue i unexpected_options] else []) (enumerate 0 variants))
     else variant_issues axes [] 0 variants)"

section \<open>Selecting a variant\<close>

definition agrees :: "option_selection \<Rightarrow> option_selection \<Rightarrow> bool" where
  "agrees options constraints \<longleftrightarrow> list_all (\<lambda>(name, v). map_of options name = Some v) constraints"

definition reachable_on_axis :: "option_selection list \<Rightarrow> option_selection \<Rightarrow> option_axis \<Rightarrow> string list" where
  "reachable_on_axis variants selection a =
    (let constraints = filter (\<lambda>(name, _). name \<noteq> ax_name a) selection;
         reachable = List.map_filter (\<lambda>options. if agrees options constraints then map_of options (ax_name a) else None) variants
     in filter (\<lambda>v. v \<in> set reachable) (ax_values a))"

definition reachableValues :: "option_axis list \<Rightarrow> option_selection list \<Rightarrow> option_selection \<Rightarrow> (string \<times> string list) list" where
  "reachableValues axes variants selection =
    foldl (\<lambda>result a. set_entry (ax_name a) (reachable_on_axis variants selection a) result) [] axes"

definition matchVariant :: "option_selection list \<Rightarrow> option_selection \<Rightarrow> option_selection option" where
  "matchVariant variants selection = find (\<lambda>options. optionKey options = optionKey selection) variants"

section \<open>Keys identify selections\<close>

text \<open>An object has each key once, and its text does not contain the separators.\<close>

definition plain_selection :: "option_selection \<Rightarrow> bool" where
  "plain_selection s \<longleftrightarrow> distinct (map fst s) \<and>
     list_all (\<lambda>(k, v). NUL \<notin> set k \<and> SOH \<notin> set k \<and> NUL \<notin> set v \<and> SOH \<notin> set v) s"

lemma join_split:
  assumes "list_all (\<lambda>p. c \<notin> set p \<and> p \<noteq> []) ps" "list_all (\<lambda>p. c \<notin> set p \<and> p \<noteq> []) qs" "join_with [c] ps = join_with [c] qs"
  shows "ps = qs"
  using assms
proof (induction ps arbitrary: qs)
  case Nil
  then show ?case by (cases qs; cases "tl qs") auto
next
  case (Cons p ps)
  from Cons.prems obtain q qs' where q: "qs = q # qs'" by (cases qs; cases ps) auto
  show ?case
  proof (cases "ps = []")
    case True
    show ?thesis
    proof (cases "qs' = []")
      case False
      then have "join_with [c] qs = q @ c # join_with [c] qs'" unfolding q by (cases qs') simp_all
      then have "c \<in> set (join_with [c] (p # ps))" using Cons.prems(3) by simp
      then show ?thesis using True Cons.prems(1) by simp
    qed (use True q Cons.prems(3) in simp)
  next
    case False
    then have j: "join_with [c] (p # ps) = p @ c # join_with [c] ps" by (cases ps) simp_all
    have "qs' \<noteq> []"
    proof
      assume "qs' = []"
      then have "c \<in> set q" using j Cons.prems(3) q by auto
      then show False using Cons.prems(2) q by simp
    qed
    then have "join_with [c] qs = q @ c # join_with [c] qs'" unfolding q by (cases qs') simp_all
    then have "p = q \<and> join_with [c] ps = join_with [c] qs'"
      using j Cons.prems q by (intro separator_split[of c]) simp_all
    then show ?thesis using Cons.IH[of qs'] Cons.prems(1,2) q by simp
  qed
qed

definition key_parts :: "option_selection \<Rightarrow> string list" where
  "key_parts s = map (\<lambda>k. k @ NUL # (case map_of s k of Some v \<Rightarrow> v | None \<Rightarrow> [])) (sort (map fst s))"

lemma optionKey_parts: "optionKey s = join_with [SOH] (key_parts s)"
  by (simp add: optionKey_def key_parts_def)

lemma plain_lookup: "plain_selection s \<Longrightarrow> map_of s k = Some v \<Longrightarrow> NUL \<notin> set k \<and> SOH \<notin> set k \<and> NUL \<notin> set v \<and> SOH \<notin> set v"
  by (auto simp: plain_selection_def list_all_iff dest: map_of_SomeD)

lemma parts_plain:
  assumes "plain_selection s"
  shows "list_all (\<lambda>p. SOH \<notin> set p \<and> p \<noteq> []) (key_parts s)"
proof -
  have sep: "SOH \<noteq> NUL" by (simp add: SOH_def NUL_def)
  have "SOH \<notin> set (k @ NUL # (case map_of s k of Some v \<Rightarrow> v | None \<Rightarrow> []))" if k: "k \<in> fst ` set s" for k
  proof -
    obtain v where "map_of s k = Some v" using k by (metis map_of_eq_None_iff option.exhaust)
    then show ?thesis using plain_lookup[OF assms] sep by simp
  qed
  then show ?thesis unfolding key_parts_def by (auto simp: list_all_iff)
qed

lemma parts_lookup:
  assumes "plain_selection s" "plain_selection t" "key_parts s = key_parts t"
  shows "map_of s = map_of t"
proof
  fix k
  have get: "map_of a k = Some v" if plain: "plain_selection a" and p: "k @ NUL # v \<in> set (key_parts a)" "NUL \<notin> set k" for a k v
  proof -
    obtain k' where k': "k' \<in> fst ` set a" "k @ NUL # v = k' @ NUL # (case map_of a k' of Some v \<Rightarrow> v | None \<Rightarrow> [])"
      using p(1) unfolding key_parts_def by auto
    obtain v' where v': "map_of a k' = Some v'" using k'(1) by (metis map_of_eq_None_iff option.exhaust)
    have "NUL \<notin> set k'" using plain_lookup[OF plain v'] by blast
    then have "k = k' \<and> v = v'" using separator_split[OF p(2) _ k'(2)] v' by simp
    then show ?thesis using v' by simp
  qed
  have put: "k @ NUL # v \<in> set (key_parts a)" if "map_of a k = Some v" for a k v
    using that map_of_SomeD[OF that] unfolding key_parts_def by force
  show "map_of s k = map_of t k"
  proof (cases "map_of s k")
    case (Some v)
    then have "k @ NUL # v \<in> set (key_parts t)" using put assms(3) by metis
    then show ?thesis using get[OF assms(2)] plain_lookup[OF assms(1) Some] Some by simp
  next
    case None
    show ?thesis
    proof (cases "map_of t k")
      case (Some v)
      then have "k @ NUL # v \<in> set (key_parts s)" using put assms(3) by metis
      then show ?thesis using get[OF assms(1)] plain_lookup[OF assms(2) Some] Some by simp
    qed (simp add: None)
  qed
qed

lemma lookup_parts:
  assumes "plain_selection s" "plain_selection t" "map_of s = map_of t"
  shows "key_parts s = key_parts t"
proof -
  have "set (map fst s) = set (map fst t)" using assms(3) by (metis dom_map_of_conv_image_fst list.set_map)
  moreover have "distinct (map fst s)" "distinct (map fst t)" using assms(1,2) by (simp_all add: plain_selection_def)
  ultimately have "sort (map fst s) = sort (map fst t)" by (simp add: sorted_distinct_set_unique)
  then show ?thesis unfolding key_parts_def using assms(3) by simp
qed

lemma optionKey_iff:
  assumes "plain_selection s" "plain_selection t"
  shows "optionKey s = optionKey t \<longleftrightarrow> map_of s = map_of t"
proof
  assume "optionKey s = optionKey t"
  then have "key_parts s = key_parts t"
    unfolding optionKey_parts using parts_plain assms by (intro join_split) blast+
  then show "map_of s = map_of t" by (rule parts_lookup[OF assms])
next
  assume "map_of s = map_of t"
  then show "optionKey s = optionKey t" unfolding optionKey_parts using lookup_parts[OF assms] by simp
qed

section \<open>What a validated matrix gives\<close>

lemma repeated_Nil: "repeated seen vs = [] \<Longrightarrow> distinct vs \<and> set vs \<inter> set seen = {}"
  by (induction seen vs rule: repeated.induct) (auto split: if_splits)

lemma axis_issues_Nil:
  "axis_issues names axes = [] \<Longrightarrow> distinct (map ax_name axes) \<and> set (map ax_name axes) \<inter> set names = {} \<and>
     list_all (\<lambda>a. ax_values a \<noteq> [] \<and> distinct (ax_values a)) axes"
proof (induction names axes rule: axis_issues.induct)
  case (2 names a axes)
  then have "repeated [] (ax_values a) = []" "ax_values a \<noteq> []" "ax_name a \<notin> set names" "axis_issues (ax_name a # names) axes = []"
    by (auto split: if_splits)
  then show ?case using 2(1) repeated_Nil[of "[]" "ax_values a"] by auto
qed simp

lemma map_of_rev_distinct:
  assumes "distinct (map fst xs)"
  shows "map_of (rev xs) = map_of xs"
proof
  fix k
  have d: "distinct (map fst (rev xs))" using assms by (simp add: rev_map[symmetric])
  show "map_of (rev xs) k = map_of xs k"
  proof (cases "map_of xs k")
    case None
    then have "map_of (rev xs) k = None" unfolding map_of_eq_None_iff by simp
    then show ?thesis using None by simp
  next
    case (Some v)
    then have "(k, v) \<in> set (rev xs)" by (simp add: map_of_SomeD)
    then show ?thesis using map_of_is_SomeI[OF d] Some by simp
  qed
qed

lemma allowed_distinct:
  assumes "distinct (map ax_name axes)"
  shows "allowed_values axes = map_of (map (\<lambda>a. (ax_name a, ax_values a)) axes)"
  unfolding allowed_values_def by (rule map_of_rev_distinct) (simp add: assms comp_def)

lemma allowed_iff:
  assumes "distinct (map ax_name axes)"
  shows "allowed_values axes name = Some values \<longleftrightarrow> (\<exists>a \<in> set axes. ax_name a = name \<and> ax_values a = values)"
  unfolding allowed_distinct[OF assms] using assms by (subst map_of_eq_Some_iff) (auto simp: comp_def)

text \<open>A selection fits the axes: it names exactly them, each with one of its values.\<close>

definition fits :: "option_axis list \<Rightarrow> option_selection \<Rightarrow> bool" where
  "fits axes options \<longleftrightarrow> fst ` set options = ax_name ` set axes \<and>
     (\<forall>a \<in> set axes. \<exists>v \<in> set (ax_values a). map_of options (ax_name a) = Some v)"

lemma variant_fits:
  assumes "distinct (map ax_name axes)" "\<forall>a \<in> set axes. ax_name a \<notin> set OBJECT_PROTOTYPE" "plain_selection options"
    "concat (map (entry_issues axes i) options) = []" "missing_issues axes i options = []"
  shows "fits axes options"
proof -
  have entry: "\<exists>a \<in> set axes. ax_name a = k \<and> v \<in> set (ax_values a)" if "(k, v) \<in> set options" for k v
  proof -
    have "entry_issues axes i (k, v) = []" using assms(4) that by auto
    then obtain vals where "allowed_values axes k = Some vals" "v \<in> set vals"
      by (auto simp: entry_issues_def split: option.splits if_splits)
    then show ?thesis using allowed_iff[OF assms(1), of k vals] by auto
  qed
  have own: "ax_name a \<in> fst ` set options" if "a \<in> set axes" for a
    using assms(2,5) that by (auto simp: missing_issues_def in_object_def filter_empty_conv)
  have "\<exists>v \<in> set (ax_values a). map_of options (ax_name a) = Some v" if a: "a \<in> set axes" for a
  proof -
    obtain v where v: "(ax_name a, v) \<in> set options" using own[OF a] by auto
    then obtain b where b: "b \<in> set axes" "ax_name b = ax_name a" "v \<in> set (ax_values b)" using entry by blast
    have "b = a" using assms(1) a b(1,2) by (simp add: distinct_map inj_on_def)
    moreover have "map_of options (ax_name a) = Some v"
      using v assms(3) by (intro map_of_is_SomeI) (simp_all add: plain_selection_def)
    ultimately show ?thesis using b(3) by blast
  qed
  then show ?thesis unfolding fits_def using entry own by force
qed

lemma variant_issues_Nil:
  "variant_issues axes combinations i variants = [] \<Longrightarrow>
   list_all (\<lambda>o'. \<exists>j. concat (map (entry_issues axes j) o') = [] \<and> missing_issues axes j o' = []) variants \<and>
   distinct (map optionKey variants) \<and> set (map optionKey variants) \<inter> set combinations = {}"
proof (induction axes combinations i variants rule: variant_issues.induct)
  case (2 axes combinations i options variants)
  then have k: "optionKey options \<notin> set combinations" by (auto split: if_splits)
  then have "variant_issues axes (optionKey options # combinations) (i + 1) variants = []"
    "concat (map (entry_issues axes i) options) = []" "missing_issues axes i options = []" using 2(3) by auto
  then show ?case using 2(2)[OF k] k by auto
qed simp

lemma valid_matrix:
  assumes "validateVariantMatrix axes variants = []" "axes \<noteq> []" "\<forall>a \<in> set axes. ax_name a \<notin> set OBJECT_PROTOTYPE"
    "list_all plain_selection variants"
  shows "distinct (map ax_name axes)" "list_all (fits axes) variants" "distinct (map map_of variants)"
proof -
  have issues: "axis_issues [] axes = []" "variant_issues axes [] 0 variants = []"
    using assms(1,2) by (simp_all add: validateVariantMatrix_def)
  show names: "distinct (map ax_name axes)" using axis_issues_Nil[OF issues(1)] by blast
  note v = variant_issues_Nil[OF issues(2)]
  show "list_all (fits axes) variants"
    using v assms(4) variant_fits[OF names assms(3)] by (auto simp: list_all_iff)
  have "distinct (map optionKey variants)" using v by blast
  then show "distinct (map map_of variants)"
    unfolding distinct_map inj_on_def using assms(4) optionKey_iff by (metis list_all_iff)
qed

lemma map_of_set_entry [simp]: "map_of (set_entry k v s) = (map_of s)(k \<mapsto> v)"
  by (induction k v s rule: set_entry.induct) (auto simp: fun_eq_iff)

lemma combinations_reach:
  assumes "\<forall>a \<in> set axes. \<exists>v \<in> set (ax_values a). g (ax_name a) = Some v" "p \<in> set acc"
  shows "\<exists>c \<in> set (extend_combinations acc axes). map_of c = (\<lambda>n. if n \<in> ax_name ` set axes then g n else map_of p n)"
  using assms
proof (induction acc axes arbitrary: p rule: extend_combinations.induct)
  case (2 acc a axes)
  obtain v where v: "v \<in> set (ax_values a)" "g (ax_name a) = Some v" using 2(2) by auto
  let ?p = "set_entry (ax_name a) v p"
  have "?p \<in> set (concat (map (\<lambda>partial. map (\<lambda>v. set_entry (ax_name a) v partial) (ax_values a)) acc))" using v(1) 2(3) by auto
  then obtain c where c: "c \<in> set (extend_combinations acc (a # axes))"
      "map_of c = (\<lambda>n. if n \<in> ax_name ` set axes then g n else map_of ?p n)"
    using 2(1)[of ?p] 2(2) by auto
  have "map_of c = (\<lambda>n. if n \<in> ax_name ` set (a # axes) then g n else map_of p n)"
    unfolding c(2) using v(2) by (auto simp: fun_eq_iff)
  then show ?case using c(1) by blast
qed auto

lemma length_combinations: "length (extend_combinations acc axes) = length acc * prod_list (map (length \<circ> ax_values) axes)"
proof (induction acc axes rule: extend_combinations.induct)
  case (2 acc a axes)
  have "length (concat (map (\<lambda>partial. map (\<lambda>v. set_entry (ax_name a) v partial) (ax_values a)) acc)) = length acc * length (ax_values a)"
    by (induction acc) simp_all
  then show ?case using 2 by (simp add: ac_simps)
qed simp


definition shirt_axes :: "option_axis list" where
  "shirt_axes = [\<lparr>ax_name = ''Size'', ax_values = [''M'', ''L'']\<rparr>, \<lparr>ax_name = ''Colour'', ax_values = [''Red'', ''Blue'']\<rparr>]"

definition shirt_variants :: "option_selection list" where
  "shirt_variants = [[(''Size'', ''M''), (''Colour'', ''Red'')], [(''Colour'', ''Blue''), (''Size'', ''M'')], [(''Size'', ''L''), (''Colour'', ''Red'')]]"

lemma shirt_valid:
  "validateVariantMatrix shirt_axes shirt_variants = []" "shirt_axes \<noteq> []"
  "\<forall>a \<in> set shirt_axes. ax_name a \<notin> set OBJECT_PROTOTYPE" "list_all plain_selection shirt_variants"
  by code_simp+


text \<open>The condition on names is needed: an option called \<open>constructor\<close> is never missed.\<close>

lemma inherited_name_not_missed:
  "validateVariantMatrix [\<lparr>ax_name = ''constructor'', ax_values = [''A'']\<rparr>] [[]] = []"
  by code_simp

section \<open>The selector of a product page\<close>

lemma agrees_iff: "agrees options constraints \<longleftrightarrow> (\<forall>(n, w) \<in> set constraints. map_of options n = Some w)"
  by (simp add: agrees_def list_all_iff)

lemma set_map_filter: "set (List.map_filter f xs) = {y. \<exists>x \<in> set xs. f x = Some y}"
  by (induction xs) (auto simp: List.map_filter_simps split: option.split)

lemma reachable_iff:
  "v \<in> set (reachable_on_axis variants selection a) \<longleftrightarrow> v \<in> set (ax_values a) \<and>
     (\<exists>options \<in> set variants. map_of options (ax_name a) = Some v \<and>
        (\<forall>(n, w) \<in> set selection. n \<noteq> ax_name a \<longrightarrow> map_of options n = Some w))"
proof -
  have c: "agrees options (filter (\<lambda>(n, _). n \<noteq> ax_name a) selection) \<longleftrightarrow>
      (\<forall>(n, w) \<in> set selection. n \<noteq> ax_name a \<longrightarrow> map_of options n = Some w)" for options
    unfolding agrees_iff by auto
  show ?thesis unfolding reachable_on_axis_def Let_def set_filter set_map_filter c by auto
qed

lemma reachable_lookup:
  assumes "distinct (map ax_name axes)" "a \<in> set axes"
  shows "map_of (reachableValues axes variants selection) (ax_name a) = Some (reachable_on_axis variants selection a)"
proof -
  have "distinct (map ax_name axes) \<Longrightarrow>
      map_of (foldl (\<lambda>result a. set_entry (ax_name a) (f a) result) r axes) k =
        (case find (\<lambda>a. ax_name a = k) axes of Some a \<Rightarrow> Some (f a) | None \<Rightarrow> map_of r k)" for f :: "option_axis \<Rightarrow> string list" and r k
  proof (induction axes arbitrary: r)
    case (Cons b axes)
    have "find (\<lambda>a. ax_name a = ax_name b) axes = None" using Cons.prems by (auto simp: find_None_iff image_iff)
    then show ?case using Cons by (auto split: option.split)
  qed simp
  moreover have "find (\<lambda>b. ax_name b = ax_name a) axes = Some a"
  proof -
    have "find (\<lambda>b. ax_name b = ax_name a) axes \<noteq> None" using assms(2) by (auto simp: find_None_iff)
    then obtain b where b: "find (\<lambda>b. ax_name b = ax_name a) axes = Some b" by blast
    then have "b = a" using find_eq_Some[OF b] assms by (auto simp: distinct_map inj_on_def)
    then show ?thesis using b by simp
  qed
  ultimately show ?thesis unfolding reachableValues_def using assms(1) by simp
qed



end
