(* ===== verification/CsvCatalog.thy ===== *)
theory CsvCatalog
  imports CsvText CatalogMoney Slug Options
begin

text \<open>
  The catalog sheet, the second half of \<open>packages/core/src/catalog/csv.ts\<close>: records become product
  drafts, every problem of the file is collected, and a product becomes the lines of an export.

  A column is named by its string, as in the code.  An undefined value is the outer None and a null
  the inner one.  A function that takes \<open>report\<close> returns the columns it reported beside its value;
  the messages are left out.
\<close>

type_synonym csv_column = string
type_synonym 'a reported = "'a \<times> csv_column option list"

section \<open>Limits and columns\<close>

definition MAX_HANDLE :: nat where "MAX_HANDLE = 200"
definition MAX_TITLE :: nat where "MAX_TITLE = 200"
definition MAX_SUMMARY :: nat where "MAX_SUMMARY = 500"
definition MAX_DESCRIPTION :: nat where "MAX_DESCRIPTION = 60000"
definition MAX_PRODUCT_TYPE :: nat where "MAX_PRODUCT_TYPE = 80"
definition MAX_VENDOR :: nat where "MAX_VENDOR = 120"
definition MAX_TAG :: nat where "MAX_TAG = 40"
definition MAX_TAGS :: nat where "MAX_TAGS = 50"
definition MAX_HSN :: nat where "MAX_HSN = 12"
definition MAX_SEO_TITLE :: nat where "MAX_SEO_TITLE = 120"
definition MAX_SEO_DESCRIPTION :: nat where "MAX_SEO_DESCRIPTION = 320"
definition MAX_OPTION_NAME :: nat where "MAX_OPTION_NAME = 40"
definition MAX_OPTION_VALUE :: nat where "MAX_OPTION_VALUE = 60"
definition MAX_SKU :: nat where "MAX_SKU = 64"
definition MAX_BARCODE :: nat where "MAX_BARCODE = 64"
definition MAX_AMOUNT_TEXT :: nat where "MAX_AMOUNT_TEXT = 24"
definition MAX_WEIGHT_GRAMS :: int where "MAX_WEIGHT_GRAMS = 500000"
definition MAX_LOW_STOCK_AT :: int where "MAX_LOW_STOCK_AT = 100000"
definition MAX_TAX_RATE_BPS :: int where "MAX_TAX_RATE_BPS = 10000"
definition MAX_VARIANTS_PER_PRODUCT :: nat where "MAX_VARIANTS_PER_PRODUCT = 200"
definition MAX_OPTION_VALUES :: nat where "MAX_OPTION_VALUES = 50"
definition MAX_OPTION_AXES :: nat where "MAX_OPTION_AXES = 3"

lemmas csv_limits = MAX_HANDLE_def MAX_TITLE_def MAX_SUMMARY_def MAX_DESCRIPTION_def MAX_PRODUCT_TYPE_def MAX_VENDOR_def MAX_TAG_def MAX_TAGS_def MAX_HSN_def MAX_SEO_TITLE_def MAX_SEO_DESCRIPTION_def MAX_OPTION_NAME_def MAX_OPTION_VALUE_def MAX_SKU_def MAX_BARCODE_def MAX_AMOUNT_TEXT_def MAX_WEIGHT_GRAMS_def MAX_LOW_STOCK_AT_def MAX_TAX_RATE_BPS_def MAX_VARIANTS_PER_PRODUCT_def MAX_OPTION_VALUES_def MAX_OPTION_AXES_def

definition CSV_COLUMNS :: "csv_column list" where
  "CSV_COLUMNS =
    [''handle'', ''title'', ''status'', ''summary'', ''description'', ''product_type'', ''vendor'', ''tags'',
     ''hsn_code'', ''tax_rate_percent'', ''seo_title'', ''seo_description'', ''seo_noindex'',
     ''option1_name'', ''option1_value'', ''option2_name'', ''option2_value'', ''option3_name'', ''option3_value'',
     ''sku'', ''barcode'', ''price'', ''compare_at_price'', ''cost'', ''weight_grams'', ''low_stock_at'',
     ''variant_active'', ''variant_tracks_inventory'']"

definition REQUIRED_CSV_COLUMNS :: "csv_column list" where
  "REQUIRED_CSV_COLUMNS = [''handle'', ''title'', ''sku'', ''price'', ''weight_grams'']"

definition CSV_PRODUCT_STATUSES :: "string list" where
  "CSV_PRODUCT_STATUSES = [''draft'', ''active'', ''archived'']"

definition OPTION_INDEXES :: "nat list" where
  "OPTION_INDEXES = [1, 2, 3]"

definition option_name_column :: "nat \<Rightarrow> csv_column" where
  "option_name_column n = ''option'' @ show_nat n @ ''_name''"

definition option_value_column :: "nat \<Rightarrow> csv_column" where
  "option_value_column n = ''option'' @ show_nat n @ ''_value''"

section \<open>Drafts and issues\<close>

record csv_issue =
  is_row :: nat
  is_column :: "csv_column option"

record csv_variant_draft =
  vd_row :: nat
  vd_sku :: string
  vd_pricePaise :: int
  vd_weightGrams :: int
  vd_barcode :: "string option option"
  vd_compareAtPaise :: "int option option"
  vd_costPaise :: "int option option"
  vd_lowStockAt :: "int option option"
  vd_isActive :: "bool option"
  vd_tracksInventory :: "bool option"
  vd_options :: "option_selection option"

record csv_product_draft =
  pd_handle :: string
  pd_row :: nat
  pd_title :: string
  pd_status :: "string option"
  pd_summary :: "string option option"
  pd_description :: "string option option"
  pd_productType :: "string option option"
  pd_vendor :: "string option option"
  pd_tags :: "string list option"
  pd_hsnCode :: "string option option"
  pd_taxRateBps :: "int option option"
  pd_seoTitle :: "string option option"
  pd_seoDescription :: "string option option"
  pd_seoNoindex :: "bool option"
  pd_optionNames :: "string list option"
  pd_variants :: "csv_variant_draft list"

definition empty_draft :: "string \<Rightarrow> nat \<Rightarrow> csv_product_draft" where
  "empty_draft handle row =
    \<lparr>pd_handle = handle, pd_row = row, pd_title = [], pd_status = None, pd_summary = None, pd_description = None,
     pd_productType = None, pd_vendor = None, pd_tags = None, pd_hsnCode = None, pd_taxRateBps = None,
     pd_seoTitle = None, pd_seoDescription = None, pd_seoNoindex = None, pd_optionNames = None, pd_variants = []\<rparr>"

section \<open>Cells\<close>

text \<open>\<open>SLUGGABLE\<close>: a letter or a digit.\<close>

definition sluggable :: "string \<Rightarrow> bool" where
  "sluggable s \<longleftrightarrow> list_ex is_alnum s"

definition readHandle :: "string option \<Rightarrow> string option reported" where
  "readHandle raw =
    (case raw of
       None \<Rightarrow> (None, [])
     | Some h \<Rightarrow>
         if h = [] then (None, [Some ''handle''])
         else if length h > MAX_HANDLE then (None, [Some ''handle''])
         else if \<not> sluggable h then (None, [Some ''handle''])
         else (Some (slugify (Some ''item'') h), []))"

text \<open>\<open>/^[+-]?\d+(?:\.\d+)?[eE][+-]?\d+$/\<close>.\<close>

definition drop_sign :: "string \<Rightarrow> string" where
  "drop_sign s = (case s of c # r \<Rightarrow> if c = CHR ''+'' \<or> c = CHR ''-'' then r else s | [] \<Rightarrow> [])"

definition all_digits :: "string \<Rightarrow> bool" where
  "all_digits s \<longleftrightarrow> s \<noteq> [] \<and> list_all is_digit s"

definition SCIENTIFIC_NOTATION :: "string \<Rightarrow> bool" where
  "SCIENTIFIC_NOTATION raw \<longleftrightarrow>
    (let s = drop_sign raw; whole = takeWhile is_digit s; r = dropWhile is_digit s;
         fraction = (if r \<noteq> [] \<and> hd r = CHR ''.'' then takeWhile is_digit (tl r) else ''0'');
         r' = (if r \<noteq> [] \<and> hd r = CHR ''.'' then dropWhile is_digit (tl r) else r)
     in whole \<noteq> [] \<and> fraction \<noteq> [] \<and> r' \<noteq> [] \<and> (hd r' = CHR ''e'' \<or> hd r' = CHR ''E'') \<and> all_digits (drop_sign (tl r')))"

definition readSku :: "string option \<Rightarrow> string option reported" where
  "readSku raw =
    (case raw of
       None \<Rightarrow> (None, [])
     | Some s \<Rightarrow>
         if s = [] then (None, [Some ''sku''])
         else if length s > MAX_SKU then (None, [Some ''sku''])
         else if SCIENTIFIC_NOTATION s then (None, [Some ''sku''])
         else (Some s, []))"

definition readBarcode :: "string \<Rightarrow> string option reported" where
  "readBarcode raw =
    (if raw = [] then (None, [])
     else if length raw > MAX_BARCODE then (None, [Some ''barcode''])
     else if SCIENTIFIC_NOTATION raw then (None, [Some ''barcode''])
     else (Some raw, []))"

definition readAmount :: "string option \<Rightarrow> csv_column \<Rightarrow> bool \<Rightarrow> int option reported" where
  "readAmount raw column required =
    (case raw of
       None \<Rightarrow> (None, [])
     | Some s \<Rightarrow>
         if s = [] then (None, if required then [Some column] else [])
         else if length s > MAX_AMOUNT_TEXT then (None, [Some column])
         else (case parseAmountToPaise s of
                 Inl _ \<Rightarrow> (None, [Some column])
               | Inr paise \<Rightarrow> if paise < 0 then (None, [Some column]) else (Some paise, [])))"

definition readPercentAsBps :: "string \<Rightarrow> int option reported" where
  "readPercentAsBps raw =
    (case readAmount (Some raw) ''tax_rate_percent'' False of
       (None, reports) \<Rightarrow> (None, reports)
     | (Some bps, reports) \<Rightarrow>
         if bps > MAX_TAX_RATE_BPS then (None, reports @ [Some ''tax_rate_percent'']) else (Some bps, reports))"

text \<open>\<open>/^(\d+)(?:\.0+)?$/\<close> on the cell without commas and white space.\<close>

definition readWholeNumber :: "string \<Rightarrow> int option" where
  "readWholeNumber raw =
    (let cleaned = filter (\<lambda>c. \<not> is_space c) (filter (\<lambda>c. c \<noteq> CHR '','') raw);
         whole = takeWhile is_digit cleaned; r = dropWhile is_digit cleaned
     in if whole = [] then None
        else if \<not> (r = [] \<or> (hd r = CHR ''.'' \<and> tl r \<noteq> [] \<and> list_all (\<lambda>c. c = CHR ''0'') (tl r))) then None
        else if is_safe_integer (int (read_nat whole)) then Some (int (read_nat whole)) else None)"

definition readWeight :: "string option \<Rightarrow> int option reported" where
  "readWeight raw =
    (case raw of
       None \<Rightarrow> (None, [])
     | Some s \<Rightarrow>
         if s = [] then (None, [Some ''weight_grams''])
         else (case readWholeNumber s of
                 None \<Rightarrow> (None, [Some ''weight_grams''])
               | Some grams \<Rightarrow> if grams > MAX_WEIGHT_GRAMS then (None, [Some ''weight_grams'']) else (Some grams, [])))"

definition readLowStock :: "string \<Rightarrow> int option reported" where
  "readLowStock raw =
    (if raw = [] then (None, [])
     else (case readWholeNumber raw of
             None \<Rightarrow> (None, [Some ''low_stock_at''])
           | Some v \<Rightarrow> if v > MAX_LOW_STOCK_AT then (None, [Some ''low_stock_at'']) else (Some v, [])))"

definition TRUE_WORDS :: "string list" where
  "TRUE_WORDS = [''true'', ''yes'', ''y'', ''1'', ''active'', ''t'']"

definition FALSE_WORDS :: "string list" where
  "FALSE_WORDS = [''false'', ''no'', ''n'', ''0'', ''inactive'', ''f'']"

definition readBoolean :: "string \<Rightarrow> csv_column \<Rightarrow> bool option reported" where
  "readBoolean raw column =
    (if raw = [] then (None, [])
     else if to_lower raw \<in> set TRUE_WORDS then (Some True, [])
     else if to_lower raw \<in> set FALSE_WORDS then (Some False, [])
     else (None, [Some column]))"

text \<open>\<open>raw.split(",")\<close>, and the loop over the parts.\<close>

fun split_commas :: "string \<Rightarrow> string list" where
  "split_commas [] = [[]]"
| "split_commas (c # cs) =
    (if c = CHR '','' then [] # split_commas cs
     else (case split_commas cs of p # ps \<Rightarrow> (c # p) # ps | [] \<Rightarrow> [[c]]))"

fun collect_tags :: "string list \<Rightarrow> string list \<Rightarrow> string list option" where
  "collect_tags tags [] = Some tags"
| "collect_tags tags (part # parts) =
    (let tag = trim part in
     if tag = [] then collect_tags tags parts
     else if length tag > MAX_TAG then None
     else collect_tags (if tag \<in> set tags then tags else tags @ [tag]) parts)"

definition readTags :: "string \<Rightarrow> string list option reported" where
  "readTags raw =
    (if raw = [] then (Some [], [])
     else (case collect_tags [] (split_commas raw) of
             None \<Rightarrow> (None, [Some ''tags''])
           | Some tags \<Rightarrow> if length tags > MAX_TAGS then (None, [Some ''tags'']) else (Some tags, [])))"

section \<open>One row as a variant\<close>

text \<open>A cell of a column the file has, or undefined; an optional column is read only when it is there.\<close>

definition value_of :: "string option \<Rightarrow> string" where
  "value_of c = (case c of Some v \<Rightarrow> v | None \<Rightarrow> [])"

definition if_has :: "bool \<Rightarrow> 'a reported \<Rightarrow> 'a option reported" where
  "if_has h r = (if h then (Some (fst r), snd r) else (None, []))"

definition readVariant ::
  "string option \<Rightarrow> (csv_column \<Rightarrow> string option) \<Rightarrow> (csv_column \<Rightarrow> bool) \<Rightarrow> nat \<Rightarrow> csv_variant_draft option reported" where
  "readVariant sku cell has row =
    (let (price, r1) = readAmount (cell ''price'') ''price'' True;
         (weight, r2) = readWeight (cell ''weight_grams'')
     in case (sku, price, weight) of
          (Some s, Some p, Some w) \<Rightarrow>
            (let (barcode, r3) = if_has (has ''barcode'') (readBarcode (value_of (cell ''barcode'')));
                 (compareAt, r4) = if_has (has ''compare_at_price'') (readAmount (cell ''compare_at_price'') ''compare_at_price'' False);
                 (cost, r5) = if_has (has ''cost'') (readAmount (cell ''cost'') ''cost'' False);
                 (lowStock, r6) = if_has (has ''low_stock_at'') (readLowStock (value_of (cell ''low_stock_at'')));
                 (active, r7) = if_has (has ''variant_active'') (readBoolean (value_of (cell ''variant_active'')) ''variant_active'');
                 (tracks, r8) = if_has (has ''variant_tracks_inventory'')
                                  (readBoolean (value_of (cell ''variant_tracks_inventory'')) ''variant_tracks_inventory'')
             in (Some \<lparr>vd_row = row, vd_sku = s, vd_pricePaise = p, vd_weightGrams = w, vd_barcode = barcode,
                       vd_compareAtPaise = compareAt, vd_costPaise = cost, vd_lowStockAt = lowStock,
                       vd_isActive = Option.bind active (\<lambda>x. x), vd_tracksInventory = Option.bind tracks (\<lambda>x. x),
                       vd_options = None\<rparr>,
                 r1 @ r2 @ r3 @ r4 @ r5 @ r6 @ r7 @ r8))
        | _ \<Rightarrow> (None, r1 @ r2))"

section \<open>Product columns folded over the rows of a handle\<close>

text \<open>The local function \<open>text\<close> of mergeProductFields.\<close>

definition merge_text ::
  "(csv_column \<Rightarrow> string option) \<Rightarrow> (csv_column \<Rightarrow> bool) \<Rightarrow> csv_column \<Rightarrow> nat \<Rightarrow> string option option \<Rightarrow> string option option reported"
where
  "merge_text cell has column limit current =
    (if \<not> has column then (None, [])
     else let v = value_of (cell column) in
       if v = [] then (case current of None \<Rightarrow> (Some None, []) | Some _ \<Rightarrow> (current, []))
       else if length v > limit then (current, [Some column])
       else (case current of
               Some (Some old) \<Rightarrow> if old \<noteq> v then (current, [Some column]) else (Some (Some v), [])
             | _ \<Rightarrow> (Some (Some v), [])))"

definition merge_title ::
  "(csv_column \<Rightarrow> string option) \<Rightarrow> (csv_column \<Rightarrow> bool) \<Rightarrow> string \<Rightarrow> string reported" where
  "merge_title cell has current =
    (if \<not> has ''title'' then (current, [])
     else let v = value_of (cell ''title'') in
       if length v > MAX_TITLE then (current, [Some ''title''])
       else if v = [] then (current, [])
       else if current \<noteq> [] \<and> current \<noteq> v then (current, [Some ''title''])
       else (v, []))"

definition merge_status ::
  "(csv_column \<Rightarrow> string option) \<Rightarrow> (csv_column \<Rightarrow> bool) \<Rightarrow> string option \<Rightarrow> string option reported" where
  "merge_status cell has current =
    (if \<not> has ''status'' then (current, [])
     else let v = to_lower (value_of (cell ''status'')) in
       if v = [] then (current, [])
       else if v \<notin> set CSV_PRODUCT_STATUSES then (current, [Some ''status''])
       else if current \<noteq> None \<and> current \<noteq> Some v then (current, [Some ''status''])
       else (Some v, []))"

definition merge_tags ::
  "(csv_column \<Rightarrow> string option) \<Rightarrow> (csv_column \<Rightarrow> bool) \<Rightarrow> string list option \<Rightarrow> string list option reported" where
  "merge_tags cell has current =
    (if \<not> has ''tags'' then (current, [])
     else (case readTags (value_of (cell ''tags'')) of
             (None, reports) \<Rightarrow> (current, reports)
           | (Some tags, reports) \<Rightarrow>
               (case current of
                  Some (t # ts) \<Rightarrow>
                    if tags \<noteq> [] \<and> t # ts \<noteq> tags then (current, reports @ [Some ''tags'']) else (current, reports)
                | _ \<Rightarrow> (Some tags, reports))))"

definition merge_tax_rate ::
  "(csv_column \<Rightarrow> string option) \<Rightarrow> (csv_column \<Rightarrow> bool) \<Rightarrow> int option option \<Rightarrow> int option option reported" where
  "merge_tax_rate cell has current =
    (if \<not> has ''tax_rate_percent'' then (current, [])
     else let raw = value_of (cell ''tax_rate_percent'') in
       if raw = [] then (case current of None \<Rightarrow> (Some None, []) | Some _ \<Rightarrow> (current, []))
       else (case readPercentAsBps raw of
               (None, reports) \<Rightarrow> (current, reports)
             | (Some bps, reports) \<Rightarrow>
                 (case current of
                    Some (Some old) \<Rightarrow>
                      if old \<noteq> bps then (current, reports @ [Some ''tax_rate_percent'']) else (Some (Some bps), reports)
                  | _ \<Rightarrow> (Some (Some bps), reports))))"

definition merge_noindex ::
  "(csv_column \<Rightarrow> string option) \<Rightarrow> (csv_column \<Rightarrow> bool) \<Rightarrow> bool option \<Rightarrow> bool option reported" where
  "merge_noindex cell has current =
    (if \<not> has ''seo_noindex'' then (current, [])
     else (case readBoolean (value_of (cell ''seo_noindex'')) ''seo_noindex'' of
             (None, reports) \<Rightarrow> (current, reports)
           | (Some v, reports) \<Rightarrow>
               if current \<noteq> None \<and> current \<noteq> Some v then (current, reports @ [Some ''seo_noindex'']) else (Some v, reports)))"

definition mergeProductFields ::
  "csv_product_draft \<Rightarrow> (csv_column \<Rightarrow> string option) \<Rightarrow> (csv_column \<Rightarrow> bool) \<Rightarrow> csv_product_draft reported" where
  "mergeProductFields d cell has =
    (let (title, r1) = merge_title cell has (pd_title d);
         (summary, r2) = merge_text cell has ''summary'' MAX_SUMMARY (pd_summary d);
         (description, r3) = merge_text cell has ''description'' MAX_DESCRIPTION (pd_description d);
         (productType, r4) = merge_text cell has ''product_type'' MAX_PRODUCT_TYPE (pd_productType d);
         (vendor, r5) = merge_text cell has ''vendor'' MAX_VENDOR (pd_vendor d);
         (hsnCode, r6) = merge_text cell has ''hsn_code'' MAX_HSN (pd_hsnCode d);
         (seoTitle, r7) = merge_text cell has ''seo_title'' MAX_SEO_TITLE (pd_seoTitle d);
         (seoDescription, r8) = merge_text cell has ''seo_description'' MAX_SEO_DESCRIPTION (pd_seoDescription d);
         (status, r9) = merge_status cell has (pd_status d);
         (tags, r10) = merge_tags cell has (pd_tags d);
         (taxRateBps, r11) = merge_tax_rate cell has (pd_taxRateBps d);
         (noindex, r12) = merge_noindex cell has (pd_seoNoindex d)
     in (d\<lparr>pd_title := title, pd_summary := summary, pd_description := description, pd_productType := productType,
           pd_vendor := vendor, pd_hsnCode := hsnCode, pd_seoTitle := seoTitle, pd_seoDescription := seoDescription,
           pd_status := status, pd_tags := tags, pd_taxRateBps := taxRateBps, pd_seoNoindex := noindex\<rparr>,
         r1 @ r2 @ r3 @ r4 @ r5 @ r6 @ r7 @ r8 @ r9 @ r10 @ r11 @ r12))"

section \<open>Option columns\<close>

text \<open>The slots of a handle hold the name of option 1, 2 and 3, or null.\<close>

definition merge_axis_name ::
  "(csv_column \<Rightarrow> string option) \<Rightarrow> (csv_column \<Rightarrow> bool) \<Rightarrow> string option list \<Rightarrow> nat \<Rightarrow> string option list reported" where
  "merge_axis_name cell has slots n =
    (let column = option_name_column n; v = value_of (cell column) in
     if \<not> has column \<or> v = [] then (slots, [])
     else if length v > MAX_OPTION_NAME then (slots, [Some column])
     else if slots ! (n - 1) \<noteq> None \<and> slots ! (n - 1) \<noteq> Some v then (slots, [Some column])
     else (slots[n - 1 := Some v], []))"

fun mergeAxisNames ::
  "(csv_column \<Rightarrow> string option) \<Rightarrow> (csv_column \<Rightarrow> bool) \<Rightarrow> string option list \<Rightarrow> nat list \<Rightarrow> string option list reported" where
  "mergeAxisNames cell has slots [] = (slots, [])"
| "mergeAxisNames cell has slots (n # ns) =
    (let (slots', r) = merge_axis_name cell has slots n; (slots'', r') = mergeAxisNames cell has slots' ns
     in (slots'', r @ r'))"

definition read_option ::
  "string option list \<Rightarrow> (csv_column \<Rightarrow> string option) \<Rightarrow> option_selection \<Rightarrow> nat \<Rightarrow> option_selection reported" where
  "read_option slots cell options n =
    (let column = option_value_column n; v = value_of (cell column) in
     case slots ! (n - 1) of
       None \<Rightarrow> (options, if v \<noteq> [] then [Some column] else [])
     | Some name \<Rightarrow>
         if v = [] then (options, [Some column])
         else if length v > MAX_OPTION_VALUE then (options, [Some column])
         else (set_entry name v options, []))"

fun readOptions ::
  "string option list \<Rightarrow> (csv_column \<Rightarrow> string option) \<Rightarrow> option_selection \<Rightarrow> nat list \<Rightarrow> option_selection reported" where
  "readOptions slots cell options [] = (options, [])"
| "readOptions slots cell options (n # ns) =
    (let (options', r) = read_option slots cell options n; (options'', r') = readOptions slots cell options' ns
     in (options'', r @ r'))"

text \<open>The loop of finaliseAxisNames, up to the last slot with a name.\<close>

fun final_names :: "string list \<Rightarrow> nat \<Rightarrow> string option list \<Rightarrow> string list reported" where
  "final_names names i [] = (names, [])"
| "final_names names i (slot # slots) =
    (if list_all (\<lambda>s. s = None) (slot # slots) then (names, [])
     else (case slot of
             None \<Rightarrow> (let (ns, r) = final_names names (i + 1) slots in (ns, Some (option_name_column (i + 1)) # r))
           | Some name \<Rightarrow>
               if name \<in> set names
               then (let (ns, r) = final_names names (i + 1) slots in (ns, Some (option_name_column (i + 1)) # r))
               else final_names (names @ [name]) (i + 1) slots))"

definition finaliseAxisNames :: "string option list \<Rightarrow> string list reported" where
  "finaliseAxisNames slots = final_names [] 0 slots"

definition option_values :: "string \<Rightarrow> csv_variant_draft list \<Rightarrow> string list" where
  "option_values name variants =
    js_unique (List.map_filter (\<lambda>v. case vd_options v of Some options \<Rightarrow> map_of options name | None \<Rightarrow> None) variants)"

fun countOptionValues :: "nat \<Rightarrow> string list \<Rightarrow> csv_variant_draft list \<Rightarrow> csv_column option list" where
  "countOptionValues i [] variants = []"
| "countOptionValues i (name # names) variants =
    (if length (option_values name variants) > MAX_OPTION_VALUES then [Some (option_value_column (i + 1))] else [])
     @ countOptionValues (i + 1) names variants"

section \<open>The file\<close>

text \<open>The header row: the first position of every known column, and the columns that come twice.\<close>

fun read_header :: "nat \<Rightarrow> string list \<Rightarrow> (csv_column \<times> nat) list \<Rightarrow> (csv_column \<times> nat) list reported" where
  "read_header i [] indexOf = (indexOf, [])"
| "read_header i (raw # header) indexOf =
    (let name = to_lower (trim raw) in
     if name \<notin> set CSV_COLUMNS then read_header (i + 1) header indexOf
     else if map_of indexOf name \<noteq> None
       then (let (ix, r) = read_header (i + 1) header indexOf in (ix, Some name # r))
     else read_header (i + 1) header (indexOf @ [(name, i)]))"

definition csv_cell :: "(csv_column \<times> nat) list \<Rightarrow> string list \<Rightarrow> csv_column \<Rightarrow> string option" where
  "csv_cell indexOf record column =
    (case map_of indexOf column of
       None \<Rightarrow> None
     | Some i \<Rightarrow>
         let raw = unescapeFormula (if i < length record then record ! i else []) in
         Some (if column = ''description'' then raw else trim raw))"

definition csv_has :: "(csv_column \<times> nat) list \<Rightarrow> csv_column \<Rightarrow> bool" where
  "csv_has indexOf column \<longleftrightarrow> map_of indexOf column \<noteq> None"

definition has_option_columns :: "(csv_column \<Rightarrow> bool) \<Rightarrow> bool" where
  "has_option_columns has \<longleftrightarrow> list_ex (\<lambda>n. has (option_name_column n) \<or> has (option_value_column n)) OPTION_INDEXES"

text \<open>
  The loop over the records: the drafts in the order of their first row, the axis slots of each
  handle, the readable SKUs with their rows, the rows seen, and the issues so far.
\<close>

record csv_scan =
  sc_products :: "csv_product_draft list"
  sc_slots :: "string \<Rightarrow> string option list option"
  sc_skuRows :: "(string \<times> nat) list"
  sc_rowCount :: nat
  sc_issues :: "csv_issue list"

definition empty_scan :: "csv_issue list \<Rightarrow> csv_scan" where
  "empty_scan issues =
    \<lparr>sc_products = [], sc_slots = (\<lambda>_. None), sc_skuRows = [], sc_rowCount = 0, sc_issues = issues\<rparr>"

definition at_row :: "nat \<Rightarrow> csv_column option list \<Rightarrow> csv_issue list" where
  "at_row row columns = map (\<lambda>c. \<lparr>is_row = row, is_column = c\<rparr>) columns"

definition blank_record :: "string list \<Rightarrow> bool" where
  "blank_record record \<longleftrightarrow> list_all (\<lambda>v. trim v = []) record"

definition new_slots :: "string option list" where
  "new_slots = map (\<lambda>_. None) OPTION_INDEXES"

text \<open>What a row does to the draft and the slots of its handle.\<close>

definition row_into_draft ::
  "(csv_column \<Rightarrow> string option) \<Rightarrow> (csv_column \<Rightarrow> bool) \<Rightarrow> csv_variant_draft option
   \<Rightarrow> csv_product_draft \<Rightarrow> string option list \<Rightarrow> (csv_product_draft \<times> string option list) reported" where
  "row_into_draft cell has variant draft slots =
    (let (d, r1) = mergeProductFields draft cell has;
         (slots', r2) = (if has_option_columns has then mergeAxisNames cell has slots OPTION_INDEXES else (slots, []))
     in case variant of
          None \<Rightarrow> ((d, slots'), r1 @ r2)
        | Some v \<Rightarrow>
            (let (v', r3) = (if has_option_columns has
                             then (let (options, r) = readOptions slots' cell [] OPTION_INDEXES in (v\<lparr>vd_options := Some options\<rparr>, r))
                             else (v, []))
             in ((d\<lparr>pd_variants := pd_variants d @ [v']\<rparr>, slots'), r1 @ r2 @ r3)))"

definition enter_handle :: "string \<Rightarrow> nat \<Rightarrow> csv_scan \<Rightarrow> csv_scan" where
  "enter_handle handle row sc =
    (case find (\<lambda>d. pd_handle d = handle) (sc_products sc) of
       Some _ \<Rightarrow> sc
     | None \<Rightarrow> sc\<lparr>sc_products := sc_products sc @ [empty_draft handle row], sc_slots := (sc_slots sc)(handle := Some new_slots)\<rparr>)"

definition slots_of :: "csv_scan \<Rightarrow> string \<Rightarrow> string option list" where
  "slots_of sc handle = (case sc_slots sc handle of Some s \<Rightarrow> s | None \<Rightarrow> [])"

definition merge_row ::
  "string \<Rightarrow> (csv_column \<Rightarrow> string option) \<Rightarrow> (csv_column \<Rightarrow> bool) \<Rightarrow> csv_variant_draft option \<Rightarrow> nat \<Rightarrow> csv_scan \<Rightarrow> csv_scan" where
  "merge_row handle cell has variant row sc =
    (case find (\<lambda>d. pd_handle d = handle) (sc_products sc) of
       None \<Rightarrow> sc
     | Some draft \<Rightarrow>
         (let ((d, slots), r) = row_into_draft cell has variant draft (slots_of sc handle)
          in sc\<lparr>sc_products := upd (\<lambda>p. pd_handle p = handle) (\<lambda>_. d) (sc_products sc),
                sc_slots := (sc_slots sc)(handle := Some slots), sc_issues := sc_issues sc @ at_row row r\<rparr>))"

text \<open>A row that is not blank is counted, with its SKU when that can be read, and what its cells reported.\<close>

definition count_row :: "nat \<Rightarrow> string option \<Rightarrow> csv_column option list \<Rightarrow> csv_scan \<Rightarrow> csv_scan" where
  "count_row row sku reports sc =
    sc\<lparr>sc_rowCount := sc_rowCount sc + 1,
       sc_skuRows := sc_skuRows sc @ (case sku of Some s \<Rightarrow> [(s, row)] | None \<Rightarrow> []),
       sc_issues := sc_issues sc @ at_row row reports\<rparr>"

definition scan_row :: "(csv_column \<times> nat) list \<Rightarrow> nat \<Rightarrow> string list \<Rightarrow> csv_scan \<Rightarrow> csv_scan" where
  "scan_row indexOf row record sc =
    (if blank_record record then sc
     else let cell = csv_cell indexOf record; has = csv_has indexOf;
              (handle, r1) = readHandle (cell ''handle'');
              (sku, r2) = readSku (cell ''sku'');
              (variant, r3) = readVariant sku cell has row;
              sc1 = count_row row sku (r1 @ r2 @ r3) sc
          in case handle of
               None \<Rightarrow> sc1
             | Some h \<Rightarrow> merge_row h cell has variant row (enter_handle h row sc1))"

fun scan_rows :: "(csv_column \<times> nat) list \<Rightarrow> nat \<Rightarrow> string list list \<Rightarrow> csv_scan \<Rightarrow> csv_scan" where
  "scan_rows indexOf row [] sc = sc"
| "scan_rows indexOf row (record # records) sc = scan_rows indexOf (row + 1) records (scan_row indexOf row record sc)"

text \<open>The checks after the last row, in the order of the code.\<close>

definition finish_draft :: "(csv_column \<Rightarrow> bool) \<Rightarrow> string option list \<Rightarrow> csv_product_draft \<Rightarrow> csv_product_draft reported" where
  "finish_draft has slots d =
    (let r1 = (if pd_title d = [] \<and> has ''title'' then [Some ''title''] else []);
         r2 = (if pd_variants d = [] then [None] else []);
         r3 = (if length (pd_variants d) > MAX_VARIANTS_PER_PRODUCT then [Some ''handle''] else []);
         (d4, r4) = (if has_option_columns has
                     then (let (names, r) = finaliseAxisNames slots
                           in (d\<lparr>pd_optionNames := Some names\<rparr>, r @ countOptionValues 0 names (pd_variants d)))
                     else (d, []));
         d5 = (if has ''seo_noindex'' \<and> pd_seoNoindex d4 = None then d4\<lparr>pd_seoNoindex := Some False\<rparr> else d4)
     in (d5, r1 @ r2 @ r3 @ r4))"

definition finish_scan :: "(csv_column \<Rightarrow> bool) \<Rightarrow> csv_scan \<Rightarrow> csv_product_draft list \<times> csv_issue list" where
  "finish_scan has sc =
    (let finished = map (\<lambda>d. finish_draft has (slots_of sc (pd_handle d)) d) (sc_products sc)
     in (map fst finished, concat (map2 (\<lambda>d f. at_row (pd_row d) (snd f)) (sc_products sc) finished)))"

fun duplicateSkuIssues :: "(string \<times> nat) list \<Rightarrow> string list \<Rightarrow> csv_issue list" where
  "duplicateSkuIssues [] seen = []"
| "duplicateSkuIssues ((sku, row) # rows) seen =
    (if sku \<in> set seen then \<lparr>is_row = row, is_column = Some ''sku''\<rparr> # duplicateSkuIssues rows seen
     else duplicateSkuIssues rows (sku # seen))"

record parsed_catalog =
  pc_products :: "csv_product_draft list"
  pc_issues :: "csv_issue list"
  pc_rowCount :: nat

definition parseCatalogCsv :: "string list list \<Rightarrow> parsed_catalog" where
  "parseCatalogCsv records =
    (case records of
       [] \<Rightarrow> \<lparr>pc_products = [], pc_issues = at_row 1 [None], pc_rowCount = 0\<rparr>
     | header # rows \<Rightarrow>
         (let (indexOf, twice) = read_header 0 header [];
              has = csv_has indexOf;
              missing = map Some (filter (\<lambda>c. \<not> has c) REQUIRED_CSV_COLUMNS);
              sc = scan_rows indexOf 2 rows (empty_scan (at_row 1 (twice @ missing)));
              (products, issues) = finish_scan has sc
          in \<lparr>pc_products = products, pc_issues = sc_issues sc @ issues @ duplicateSkuIssues (sc_skuRows sc) [],
               pc_rowCount = sc_rowCount sc\<rparr>))"

section \<open>Export\<close>

record export_variant =
  ev_sku :: string
  ev_barcode :: "string option"
  ev_options :: option_selection
  ev_pricePaise :: int
  ev_compareAtPaise :: "int option"
  ev_costPaise :: "int option"
  ev_weightGrams :: int
  ev_lowStockAt :: "int option"
  ev_isActive :: bool
  ev_tracksInventory :: bool

record export_product =
  ep_slug :: string
  ep_title :: string
  ep_status :: string
  ep_summary :: "string option"
  ep_description :: "string option"
  ep_productType :: "string option"
  ep_vendor :: "string option"
  ep_tags :: "string list"
  ep_hsnCode :: "string option"
  ep_taxRateBps :: "int option"
  ep_seoTitle :: "string option"
  ep_seoDescription :: "string option"
  ep_seoNoindex :: bool
  ep_axes :: "option_axis list"
  ep_variants :: "export_variant list"

definition yes_no :: "bool \<Rightarrow> string" where
  "yes_no b = (if b then ''true'' else ''false'')"

definition amount_cell :: "int option \<Rightarrow> string" where
  "amount_cell a = (case a of None \<Rightarrow> [] | Some p \<Rightarrow> paiseToDecimalString p)"

definition product_cells :: "export_product \<Rightarrow> (csv_column \<times> string) list" where
  "product_cells p =
    [(''handle'', ep_slug p), (''title'', ep_title p), (''status'', ep_status p), (''summary'', value_of (ep_summary p)),
     (''description'', value_of (ep_description p)), (''product_type'', value_of (ep_productType p)),
     (''vendor'', value_of (ep_vendor p)), (''tags'', join_with '', '' (ep_tags p)), (''hsn_code'', value_of (ep_hsnCode p)),
     (''tax_rate_percent'', amount_cell (ep_taxRateBps p)), (''seo_title'', value_of (ep_seoTitle p)),
     (''seo_description'', value_of (ep_seoDescription p)), (''seo_noindex'', yes_no (ep_seoNoindex p))]"

definition option_cells :: "option_axis list \<Rightarrow> option_selection \<Rightarrow> nat \<Rightarrow> (csv_column \<times> string) list" where
  "option_cells axes options n =
    (if n - 1 < length axes
     then [(option_name_column n, ax_name (axes ! (n - 1))), (option_value_column n, value_of (map_of options (ax_name (axes ! (n - 1)))))]
     else [(option_name_column n, []), (option_value_column n, [])])"

definition variant_cells :: "export_variant \<Rightarrow> (csv_column \<times> string) list" where
  "variant_cells v =
    [(''sku'', ev_sku v), (''barcode'', value_of (ev_barcode v)), (''price'', paiseToDecimalString (ev_pricePaise v)),
     (''compare_at_price'', amount_cell (ev_compareAtPaise v)), (''cost'', amount_cell (ev_costPaise v)),
     (''weight_grams'', show_int (ev_weightGrams v)),
     (''low_stock_at'', case ev_lowStockAt v of None \<Rightarrow> [] | Some n \<Rightarrow> show_int n),
     (''variant_active'', yes_no (ev_isActive v)), (''variant_tracks_inventory'', yes_no (ev_tracksInventory v))]"

definition row_cells :: "export_product \<Rightarrow> export_variant \<Rightarrow> (csv_column \<times> string) list" where
  "row_cells p v =
    product_cells p @ concat (map (option_cells (take MAX_OPTION_AXES (ep_axes p)) (ev_options v)) OPTION_INDEXES) @ variant_cells v"

definition row_values :: "export_product \<Rightarrow> export_variant \<Rightarrow> string list" where
  "row_values p v = map (\<lambda>column. value_of (map_of (row_cells p v) column)) CSV_COLUMNS"

definition productToCsvRows :: "export_product \<Rightarrow> string list" where
  "productToCsvRows p = map (\<lambda>v. formatCsvRecord (row_values p v)) (ep_variants p)"

definition catalogCsvHeader :: string where
  "catalogCsvHeader = formatCsvRecord CSV_COLUMNS"

definition export_text :: "export_product list \<Rightarrow> string" where
  "export_text products = catalogCsvHeader @ concat (concat (map productToCsvRows products))"

end
