(* ===== verification/CsvRoundtrip.thy ===== *)
theory CsvRoundtrip
  imports CsvCatalog
begin

text \<open>
  An export read back: the sheet \<open>productToCsvRows\<close> writes is parsed, by the reader and
  \<open>parseCatalogCsv\<close>, into drafts that state exactly what was exported.
\<close>

section \<open>The cells of an exported row\<close>

definition sheet_index :: "(csv_column \<times> nat) list" where
  "sheet_index = zip CSV_COLUMNS [0..<28]"

lemma header_index: "read_header 0 CSV_COLUMNS [] = (sheet_index, [])"
  by code_simp

lemma header_written: "map escapeFormula CSV_COLUMNS = CSV_COLUMNS"
  by code_simp

lemma all_columns: "list_all (csv_has sheet_index) CSV_COLUMNS"
  by code_simp

definition sheet_has :: "csv_column \<Rightarrow> bool" where
  "sheet_has = csv_has sheet_index"

definition sheet_record :: "export_product \<Rightarrow> export_variant \<Rightarrow> string list" where
  "sheet_record p v = map escapeFormula (row_values p v)"

definition sheet_cell :: "export_product \<Rightarrow> export_variant \<Rightarrow> csv_column \<Rightarrow> string option" where
  "sheet_cell p v = csv_cell sheet_index (sheet_record p v)"

lemma distinct_columns: "distinct CSV_COLUMNS" "length CSV_COLUMNS = 28"
  by code_simp+

lemma sheet_index_nth: "i < 28 \<Longrightarrow> map_of sheet_index (CSV_COLUMNS ! i) = Some i"
  unfolding sheet_index_def using distinct_columns by (simp add: map_of_zip_nth)

lemma sheet_cell_column:
  assumes "column \<in> set CSV_COLUMNS"
  shows "sheet_cell p v column =
    Some (let raw = value_of (map_of (row_cells p v) column) in if column = ''description'' then raw else trim raw)"
proof -
  obtain i where i: "i < 28" "column = CSV_COLUMNS ! i"
    using assms distinct_columns by (auto simp: in_set_conv_nth)
  have "sheet_record p v ! i = escapeFormula (value_of (map_of (row_cells p v) column))" "i < length (sheet_record p v)"
    using i distinct_columns by (simp_all add: sheet_record_def row_values_def)
  then show ?thesis unfolding sheet_cell_def csv_cell_def i(2) sheet_index_nth[OF i(1)] by (simp add: Let_def)
qed

lemma sheet_has_column: "column \<in> set CSV_COLUMNS \<Longrightarrow> sheet_has column"
  using all_columns by (simp add: sheet_has_def list_all_iff)

lemma option_columns:
  "option_name_column 1 = ''option1_name''" "option_name_column 2 = ''option2_name''" "option_name_column 3 = ''option3_name''"
  "option_value_column 1 = ''option1_value''" "option_value_column 2 = ''option2_value''" "option_value_column 3 = ''option3_value''"
  by code_simp+

definition axis_name :: "export_product \<Rightarrow> nat \<Rightarrow> string" where
  "axis_name p n = (if n - 1 < length (take MAX_OPTION_AXES (ep_axes p)) then ax_name (ep_axes p ! (n - 1)) else [])"

definition axis_value :: "export_product \<Rightarrow> export_variant \<Rightarrow> nat \<Rightarrow> string" where
  "axis_value p v n =
    (if n - 1 < length (take MAX_OPTION_AXES (ep_axes p)) then value_of (map_of (ev_options v) (ax_name (ep_axes p ! (n - 1)))) else [])"

lemma option_cells_pair:
  "option_cells (take MAX_OPTION_AXES (ep_axes p)) (ev_options v) n =
     [(option_name_column n, axis_name p n), (option_value_column n, axis_value p v n)]"
  unfolding option_cells_def axis_name_def axis_value_def by simp

lemma row_cells_list:
  "row_cells p v = product_cells p @
    [(''option1_name'', axis_name p 1), (''option1_value'', axis_value p v 1), (''option2_name'', axis_name p 2),
     (''option2_value'', axis_value p v 2), (''option3_name'', axis_name p 3), (''option3_value'', axis_value p v 3)] @ variant_cells v"
  unfolding row_cells_def OPTION_INDEXES_def option_cells_pair list.map concat.simps option_columns by simp

lemma sheet_cells:
  "sheet_cell p v ''handle'' = Some (trim (ep_slug p))"
  "sheet_cell p v ''title'' = Some (trim (ep_title p))"
  "sheet_cell p v ''status'' = Some (trim (ep_status p))"
  "sheet_cell p v ''summary'' = Some (trim (value_of (ep_summary p)))"
  "sheet_cell p v ''description'' = Some (value_of (ep_description p))"
  "sheet_cell p v ''product_type'' = Some (trim (value_of (ep_productType p)))"
  "sheet_cell p v ''vendor'' = Some (trim (value_of (ep_vendor p)))"
  "sheet_cell p v ''tags'' = Some (trim (join_with '', '' (ep_tags p)))"
  "sheet_cell p v ''hsn_code'' = Some (trim (value_of (ep_hsnCode p)))"
  "sheet_cell p v ''tax_rate_percent'' = Some (trim (amount_cell (ep_taxRateBps p)))"
  "sheet_cell p v ''seo_title'' = Some (trim (value_of (ep_seoTitle p)))"
  "sheet_cell p v ''seo_description'' = Some (trim (value_of (ep_seoDescription p)))"
  "sheet_cell p v ''seo_noindex'' = Some (trim (yes_no (ep_seoNoindex p)))"
  "sheet_cell p v ''sku'' = Some (trim (ev_sku v))"
  "sheet_cell p v ''barcode'' = Some (trim (value_of (ev_barcode v)))"
  "sheet_cell p v ''price'' = Some (trim (paiseToDecimalString (ev_pricePaise v)))"
  "sheet_cell p v ''compare_at_price'' = Some (trim (amount_cell (ev_compareAtPaise v)))"
  "sheet_cell p v ''cost'' = Some (trim (amount_cell (ev_costPaise v)))"
  "sheet_cell p v ''weight_grams'' = Some (trim (show_int (ev_weightGrams v)))"
  "sheet_cell p v ''low_stock_at'' = Some (trim (case ev_lowStockAt v of None \<Rightarrow> [] | Some n \<Rightarrow> show_int n))"
  "sheet_cell p v ''variant_active'' = Some (trim (yes_no (ev_isActive v)))"
  "sheet_cell p v ''variant_tracks_inventory'' = Some (trim (yes_no (ev_tracksInventory v)))"
  by (subst sheet_cell_column; simp add: CSV_COLUMNS_def row_cells_list product_cells_def variant_cells_def value_of_def)+

lemma sheet_option_cells:
  assumes "n \<in> {1, 2, 3}"
  shows "sheet_cell p v (option_name_column n) = Some (trim (axis_name p n))"
    "sheet_cell p v (option_value_column n) = Some (trim (axis_value p v n))"
proof -
  have "n = 1 \<or> n = 2 \<or> n = 3" using assms by simp
  moreover have "sheet_cell p v ''option1_name'' = Some (trim (axis_name p 1))" "sheet_cell p v ''option1_value'' = Some (trim (axis_value p v 1))"
    "sheet_cell p v ''option2_name'' = Some (trim (axis_name p 2))" "sheet_cell p v ''option2_value'' = Some (trim (axis_value p v 2))"
    "sheet_cell p v ''option3_name'' = Some (trim (axis_name p 3))" "sheet_cell p v ''option3_value'' = Some (trim (axis_value p v 3))"
    by (subst sheet_cell_column; simp add: CSV_COLUMNS_def row_cells_list product_cells_def variant_cells_def value_of_def)+
  ultimately show "sheet_cell p v (option_name_column n) = Some (trim (axis_name p n))"
    "sheet_cell p v (option_value_column n) = Some (trim (axis_value p v n))"
    using option_columns by auto
qed

section \<open>What can be exported exactly\<close>

definition plain_text :: "nat \<Rightarrow> string \<Rightarrow> bool" where
  "plain_text limit s \<longleftrightarrow> s \<noteq> [] \<and> trimmed s \<and> length s \<le> limit"

definition optional :: "('a \<Rightarrow> bool) \<Rightarrow> 'a option \<Rightarrow> bool" where
  "optional P x = (case x of None \<Rightarrow> True | Some v \<Rightarrow> P v)"

definition amount_ok :: "int \<Rightarrow> bool" where
  "amount_ok p \<longleftrightarrow> 0 \<le> p \<and> p \<le> max_safe_integer"

definition tags_ok :: "string list \<Rightarrow> bool" where
  "tags_ok tags \<longleftrightarrow> list_all (\<lambda>t. plain_text MAX_TAG t \<and> CHR '','' \<notin> set t) tags \<and> distinct tags \<and> length tags \<le> MAX_TAGS"

definition exportable_variant :: "option_axis list \<Rightarrow> export_variant \<Rightarrow> bool" where
  "exportable_variant axes v \<longleftrightarrow>
     plain_text MAX_SKU (ev_sku v) \<and> \<not> SCIENTIFIC_NOTATION (ev_sku v) \<and>
     optional (\<lambda>b. plain_text MAX_BARCODE b \<and> \<not> SCIENTIFIC_NOTATION b) (ev_barcode v) \<and>
     amount_ok (ev_pricePaise v) \<and> optional amount_ok (ev_compareAtPaise v) \<and> optional amount_ok (ev_costPaise v) \<and>
     0 \<le> ev_weightGrams v \<and> ev_weightGrams v \<le> MAX_WEIGHT_GRAMS \<and>
     optional (\<lambda>n. 0 \<le> n \<and> n \<le> MAX_LOW_STOCK_AT) (ev_lowStockAt v) \<and>
     list_all (\<lambda>a. plain_text MAX_OPTION_VALUE (value_of (map_of (ev_options v) (ax_name a)))) axes"

definition axis_choices :: "string \<Rightarrow> export_variant list \<Rightarrow> string list" where
  "axis_choices name variants = js_unique (map (\<lambda>v. value_of (map_of (ev_options v) name)) variants)"

definition exportable :: "export_product \<Rightarrow> bool" where
  "exportable p \<longleftrightarrow>
     slug_shape (ep_slug p) \<and> length (ep_slug p) \<le> MAX_SLUG_LENGTH \<and> plain_text MAX_TITLE (ep_title p) \<and>
     ep_status p \<in> set CSV_PRODUCT_STATUSES \<and> optional (plain_text MAX_SUMMARY) (ep_summary p) \<and>
     optional (\<lambda>s. s \<noteq> [] \<and> length s \<le> MAX_DESCRIPTION) (ep_description p) \<and>
     optional (plain_text MAX_PRODUCT_TYPE) (ep_productType p) \<and> optional (plain_text MAX_VENDOR) (ep_vendor p) \<and>
     tags_ok (ep_tags p) \<and> optional (plain_text MAX_HSN) (ep_hsnCode p) \<and>
     optional (\<lambda>r. 0 \<le> r \<and> r \<le> MAX_TAX_RATE_BPS) (ep_taxRateBps p) \<and>
     optional (plain_text MAX_SEO_TITLE) (ep_seoTitle p) \<and> optional (plain_text MAX_SEO_DESCRIPTION) (ep_seoDescription p) \<and>
     length (ep_axes p) \<le> MAX_OPTION_AXES \<and> list_all (\<lambda>a. plain_text MAX_OPTION_NAME (ax_name a)) (ep_axes p) \<and>
     distinct (map ax_name (ep_axes p)) \<and>
     ep_variants p \<noteq> [] \<and> length (ep_variants p) \<le> MAX_VARIANTS_PER_PRODUCT \<and>
     list_all (exportable_variant (ep_axes p)) (ep_variants p) \<and>
     list_all (\<lambda>a. length (axis_choices (ax_name a) (ep_variants p)) \<le> MAX_OPTION_VALUES) (ep_axes p)"

section \<open>Reading the written cells\<close>

lemma slug_char_not_space: "slug_char c \<or> c = hyphen \<Longrightarrow> \<not> is_space c"
  by (auto simp: slug_char_def is_alnum_def is_space_def is_digit_def)

lemma trim_slug: "slug_shape s \<Longrightarrow> trim s = s"
  using slug_char_not_space unfolding slug_shape_def list_all_iff by (intro trim_no_space) (auto simp: list_all_iff)

lemma slug_sluggable: "slug_shape s \<Longrightarrow> sluggable s"
  unfolding slug_shape_def sluggable_def by (cases s) (auto simp: slug_char_def)

lemma read_handle:
  assumes "slug_shape s" "length s \<le> MAX_SLUG_LENGTH"
  shows "readHandle (Some s) = (Some s, [])"
proof -
  have "s \<noteq> []" using assms(1) by (simp add: slug_shape_def)
  then show ?thesis
    using assms slug_sluggable[OF assms(1)] slug_shape_fixed[OF assms]
    by (simp add: readHandle_def MAX_SLUG_LENGTH_def MAX_HANDLE_def)
qed

lemma trim_plain: "plain_text n s \<Longrightarrow> trim s = s"
  by (simp add: plain_text_def trim_trimmed)

lemma trim_Nil [simp]: "trim [] = []"
  by (simp add: trim_def)

lemma value_of_simps [simp]: "value_of None = []" "value_of (Some s) = s"
  by (simp_all add: value_of_def)

lemma optional_simps [simp]: "optional P None" "optional P (Some x) = P x"
  by (simp_all add: optional_def)

lemma length_printed:
  assumes "amount_ok p"
  shows "length (paiseToDecimalString p) \<le> MAX_AMOUNT_TEXT"
proof -
  have "nat \<bar>p\<bar> div 100 < 10 ^ 17" using assms by (intro le_less_trans[OF div_le_dividend]) (auto simp: amount_ok_def max_safe_integer_def)
  then have "length (show_nat (nat \<bar>p\<bar> div 100)) \<le> 17" using length_show_nat[of "nat \<bar>p\<bar> div 100" 16] by simp
  moreover have "length (pad_start 2 (CHR ''0'') (show_nat (nat \<bar>p\<bar> mod 100))) = 2" by (rule two_digits) simp
  ultimately show ?thesis using assms by (simp add: paiseToDecimalString_def Let_def amount_ok_def MAX_AMOUNT_TEXT_def)
qed

lemma printed_ne [simp]: "paiseToDecimalString p \<noteq> []"
  by (simp add: paiseToDecimalString_def Let_def)

lemma number_char_not_space: "is_digit c \<or> c = CHR ''.'' \<or> c = CHR ''-'' \<Longrightarrow> \<not> is_space c"
  by (auto simp: digit_not_space) (auto simp: is_space_def)

lemma trim_printed [simp]: "trim (paiseToDecimalString p) = paiseToDecimalString p"
proof (rule trim_no_space)
  show "list_all (\<lambda>c. \<not> is_space c) (paiseToDecimalString p)"
    using printed_plain[of p] number_char_not_space unfolding list_all_iff by blast
qed

lemma read_amount: "amount_ok p \<Longrightarrow> readAmount (Some (paiseToDecimalString p)) column required = (Some p, [])"
  using length_printed[of p] parse_printed[of p]
  by (simp add: readAmount_def amount_ok_def is_safe_integer_def)

lemma trim_amount_cell [simp]: "trim (amount_cell a) = amount_cell a"
  by (cases a) (simp_all add: amount_cell_def)

lemma read_amount_cell: "optional amount_ok a \<Longrightarrow> readAmount (Some (amount_cell a)) column False = (a, [])"
  by (cases a) (simp_all add: amount_cell_def read_amount, simp add: readAmount_def)

lemma show_int_digits: "0 \<le> n \<Longrightarrow> list_all is_digit (show_int n)"
  using all_digits_show by (simp add: show_int_def)

lemma show_int_ne [simp]: "show_int n \<noteq> []"
  by (simp add: show_int_def)

lemma trim_show_int: "0 \<le> n \<Longrightarrow> trim (show_int n) = show_int n"
  using show_int_digits[of n] by (intro trim_no_space) (auto simp: list_all_iff digit_not_space)

lemma takeWhile_all: "list_all P xs \<Longrightarrow> takeWhile P xs = xs \<and> dropWhile P xs = []"
  by (induction xs) simp_all

lemma read_whole_number:
  assumes "0 \<le> n" "n \<le> max_safe_integer"
  shows "readWholeNumber (show_int n) = Some n"
proof -
  let ?s = "show_int n"
  have d: "list_all is_digit ?s" by (rule show_int_digits[OF assms(1)])
  have "filter (\<lambda>c. c \<noteq> CHR '','') ?s = ?s" "filter (\<lambda>c. \<not> is_space c) ?s = ?s"
    using d by (auto simp: filter_id_conv list_all_iff digit_not_space)
  moreover have "int (read_nat ?s) = n" using assms(1) by (simp add: show_int_def)
  moreover have "is_safe_integer n" using assms by (simp add: is_safe_integer_def)
  ultimately show ?thesis by (simp add: readWholeNumber_def Let_def conjunct1[OF takeWhile_all[OF d]] conjunct2[OF takeWhile_all[OF d]])
qed

lemma read_weight: "0 \<le> n \<Longrightarrow> n \<le> MAX_WEIGHT_GRAMS \<Longrightarrow> readWeight (Some (show_int n)) = (Some n, [])"
  by (simp add: readWeight_def read_whole_number MAX_WEIGHT_GRAMS_def max_safe_integer_def)

definition low_stock_cell :: "int option \<Rightarrow> string" where
  "low_stock_cell n = (case n of None \<Rightarrow> [] | Some k \<Rightarrow> show_int k)"

lemma read_low_stock:
  "optional (\<lambda>k. 0 \<le> k \<and> k \<le> MAX_LOW_STOCK_AT) n \<Longrightarrow> readLowStock (trim (low_stock_cell n)) = (n, [])"
  by (cases n)
     (simp_all add: readLowStock_def low_stock_cell_def trim_show_int read_whole_number MAX_LOW_STOCK_AT_def max_safe_integer_def)

lemma trim_yes_no [simp]: "trim (yes_no b) = yes_no b"
  by (simp add: yes_no_def trim_def is_space_def)

lemma read_yes_no [simp]: "readBoolean (yes_no b) column = (Some b, [])"
proof -
  have t: "to_lower ''true'' = ''true''" "''true'' \<in> set TRUE_WORDS"
    "to_lower ''false'' = ''false''" "''false'' \<notin> set TRUE_WORDS" "''false'' \<in> set FALSE_WORDS" by code_simp+
  show ?thesis by (cases b) (simp_all add: yes_no_def readBoolean_def t)
qed

lemma read_sku: "plain_text MAX_SKU s \<Longrightarrow> \<not> SCIENTIFIC_NOTATION s \<Longrightarrow> readSku (Some s) = (Some s, [])"
  by (simp add: readSku_def plain_text_def)

lemma read_barcode:
  "optional (\<lambda>b. plain_text MAX_BARCODE b \<and> \<not> SCIENTIFIC_NOTATION b) b \<Longrightarrow> readBarcode (trim (value_of b)) = (b, [])"
  by (cases b) (auto simp: readBarcode_def trim_plain plain_text_def trim_trimmed)

section \<open>Tags\<close>

lemma split_commas_ne [simp]: "split_commas s \<noteq> []"
  by (induction s) (auto split: list.splits)

lemma split_commas_part: "CHR '','' \<notin> set t \<Longrightarrow> split_commas t = [t]"
  by (induction t) auto

lemma split_commas_Cons: "CHR '','' \<notin> set t \<Longrightarrow> split_commas (t @ CHR '','' # r) = t # split_commas r"
  by (induction t) auto

lemma split_joined:
  "list_all (\<lambda>t. CHR '','' \<notin> set t) (t # tags) \<Longrightarrow>
   split_commas (join_with '', '' (t # tags)) = t # map (\<lambda>t. CHR '' '' # t) tags"
proof (induction tags arbitrary: t)
  case Nil
  then show ?case by (simp add: split_commas_part)
next
  case (Cons u tags)
  have "split_commas (CHR '' '' # join_with '', '' (u # tags)) = (CHR '' '' # u) # map (\<lambda>t. CHR '' '' # t) tags"
    using Cons by (simp add: split_commas_part)
  then show ?case using Cons(2) by (simp add: split_commas_Cons)
qed

lemma trim_blank_front: "trim (CHR '' '' # s) = trim s"
  by (simp add: trim_def is_space_def)

lemma collect_parts:
  "list_all (\<lambda>t. plain_text MAX_TAG t) tags \<Longrightarrow> distinct (acc @ tags) \<Longrightarrow> map trim parts = tags \<Longrightarrow>
   collect_tags acc parts = Some (acc @ tags)"
proof (induction tags arbitrary: acc parts)
  case (Cons t tags)
  then obtain part parts' where p: "parts = part # parts'" "trim part = t" "map trim parts' = tags" by auto
  have "collect_tags (acc @ [t]) parts' = Some ((acc @ [t]) @ tags)" using Cons p by (intro Cons.IH) auto
  then show ?case using Cons.prems(1,2) p by (simp add: plain_text_def)
qed simp

lemma join_hd: "t \<noteq> [] \<Longrightarrow> hd (join_with sep (t # tags)) = hd t"
  by (cases tags) simp_all

lemma join_last: "tags \<noteq> [] \<Longrightarrow> list_all (\<lambda>t. t \<noteq> []) tags \<Longrightarrow> join_with sep tags \<noteq> [] \<and> last (join_with sep tags) = last (last tags)"
proof (induction tags)
  case (Cons t tags)
  then show ?case by (cases tags) auto
qed simp

lemma trim_joined: "list_all (plain_text n) tags \<Longrightarrow> trim (join_with sep tags) = join_with sep tags"
proof (cases tags)
  case (Cons t r)
  assume ok: "list_all (plain_text n) tags"
  then have ne: "list_all (\<lambda>t. t \<noteq> []) tags" by (auto simp: list_all_iff plain_text_def)
  have "plain_text n (last tags)" "plain_text n t" using ok Cons by (auto simp: list_all_iff)
  then have "\<not> is_space (hd (join_with sep tags))" "\<not> is_space (last (join_with sep tags))"
    using join_hd[of t sep r] join_last[OF _ ne, of sep] Cons by (auto simp: plain_text_def trimmed_def)
  then show ?thesis by (intro trim_trimmed) (simp add: trimmed_def)
qed simp

lemma read_tags:
  assumes "tags_ok tags"
  shows "readTags (trim (join_with '', '' tags)) = (Some tags, [])"
proof (cases tags)
  case Nil
  then show ?thesis by (simp add: readTags_def)
next
  case (Cons t r)
  have ok: "list_all (plain_text MAX_TAG) tags" "list_all (\<lambda>t. CHR '','' \<notin> set t) tags" "distinct tags" "length tags \<le> MAX_TAGS"
    using assms by (auto simp: tags_ok_def list_all_iff)
  let ?j = "join_with '', '' tags"
  have ne: "?j \<noteq> []" using join_last[of tags] ok(1) Cons by (auto simp: list_all_iff plain_text_def)
  have parts: "split_commas ?j = t # map (\<lambda>t. CHR '' '' # t) r" using split_joined ok(2) Cons by blast
  have "map trim (split_commas ?j) = tags"
    unfolding parts using ok(1) Cons by (auto simp: trim_blank_front trim_plain list_all_iff intro!: map_idI)
  then have "collect_tags [] (split_commas ?j) = Some tags"
    using collect_parts[of tags "[]"] ok by simp
  then show ?thesis using ne ok(4) trim_joined[OF ok(1)] by (simp add: readTags_def)
qed

section \<open>A row as a variant\<close>

definition axis_selection :: "option_axis list \<Rightarrow> option_selection \<Rightarrow> option_selection" where
  "axis_selection axes options = map (\<lambda>a. (ax_name a, value_of (map_of options (ax_name a)))) axes"

text \<open>The draft an exported variant becomes.\<close>

definition variant_draft :: "nat \<Rightarrow> option_selection option \<Rightarrow> export_variant \<Rightarrow> csv_variant_draft" where
  "variant_draft row options v =
    \<lparr>vd_row = row, vd_sku = ev_sku v, vd_pricePaise = ev_pricePaise v, vd_weightGrams = ev_weightGrams v,
     vd_barcode = Some (ev_barcode v), vd_compareAtPaise = Some (ev_compareAtPaise v), vd_costPaise = Some (ev_costPaise v),
     vd_lowStockAt = Some (ev_lowStockAt v), vd_isActive = Some (ev_isActive v), vd_tracksInventory = Some (ev_tracksInventory v),
     vd_options = options\<rparr>"

lemma sheet_has_all:
  "sheet_has ''handle''" "sheet_has ''title''" "sheet_has ''status''" "sheet_has ''summary''" "sheet_has ''description''"
  "sheet_has ''product_type''" "sheet_has ''vendor''" "sheet_has ''tags''" "sheet_has ''hsn_code''" "sheet_has ''tax_rate_percent''"
  "sheet_has ''seo_title''" "sheet_has ''seo_description''" "sheet_has ''seo_noindex''" "sheet_has ''sku''" "sheet_has ''barcode''"
  "sheet_has ''price''" "sheet_has ''compare_at_price''" "sheet_has ''cost''" "sheet_has ''weight_grams''" "sheet_has ''low_stock_at''"
  "sheet_has ''variant_active''" "sheet_has ''variant_tracks_inventory''"
  by (rule sheet_has_column; simp add: CSV_COLUMNS_def)+

lemma sheet_has_options: "n \<in> {1, 2, 3} \<Longrightarrow> sheet_has (option_name_column n)" "has_option_columns sheet_has"
proof -
  have h: "sheet_has ''option1_name''" "sheet_has ''option2_name''" "sheet_has ''option3_name''"
    by (rule sheet_has_column; simp add: CSV_COLUMNS_def)+
  show "n \<in> {1, 2, 3} \<Longrightarrow> sheet_has (option_name_column n)" using h option_columns by auto
  show "has_option_columns sheet_has"
    using h(1) unfolding has_option_columns_def OPTION_INDEXES_def list_ex_iff option_columns(1)[symmetric]
    by (intro bexI[of _ 1] disjI1) simp_all
qed

lemma read_variant:
  assumes "exportable_variant axes v"
  shows "readVariant (Some (ev_sku v)) (sheet_cell p v) sheet_has row = (Some (variant_draft row None v), [])"
proof -
  note ok = assms[unfolded exportable_variant_def]
  have cells: "readAmount (sheet_cell p v ''price'') ''price'' True = (Some (ev_pricePaise v), [])"
    "readWeight (sheet_cell p v ''weight_grams'') = (Some (ev_weightGrams v), [])"
    "readBarcode (value_of (sheet_cell p v ''barcode'')) = (ev_barcode v, [])"
    "readAmount (sheet_cell p v ''compare_at_price'') ''compare_at_price'' False = (ev_compareAtPaise v, [])"
    "readAmount (sheet_cell p v ''cost'') ''cost'' False = (ev_costPaise v, [])"
    "readLowStock (value_of (sheet_cell p v ''low_stock_at'')) = (ev_lowStockAt v, [])"
    using ok by (simp_all add: sheet_cells read_amount read_amount_cell read_weight trim_show_int read_barcode
        read_low_stock[unfolded low_stock_cell_def])
  show ?thesis
    unfolding readVariant_def cells if_has_def
    by (simp add: sheet_has_all sheet_cells variant_draft_def)
qed

section \<open>A row in the draft of its product\<close>

definition axis_slots :: "export_product \<Rightarrow> string option list" where
  "axis_slots p = map (\<lambda>n. if axis_name p n = [] then None else Some (axis_name p n)) OPTION_INDEXES"

text \<open>The draft after the rows read so far; the names are filled in at the end of the file.\<close>

definition filled :: "export_product \<Rightarrow> nat \<Rightarrow> string list option \<Rightarrow> csv_variant_draft list \<Rightarrow> csv_product_draft" where
  "filled p row names variants =
    \<lparr>pd_handle = ep_slug p, pd_row = row, pd_title = ep_title p, pd_status = Some (ep_status p),
     pd_summary = Some (ep_summary p), pd_description = Some (ep_description p), pd_productType = Some (ep_productType p),
     pd_vendor = Some (ep_vendor p), pd_tags = Some (ep_tags p), pd_hsnCode = Some (ep_hsnCode p),
     pd_taxRateBps = Some (ep_taxRateBps p), pd_seoTitle = Some (ep_seoTitle p), pd_seoDescription = Some (ep_seoDescription p),
     pd_seoNoindex = Some (ep_seoNoindex p), pd_optionNames = names, pd_variants = variants\<rparr>"

lemma merge_text_sheet:
  assumes "cell column = Some (value_of t)" "has column" "optional (\<lambda>s. s \<noteq> [] \<and> length s \<le> limit) t"
    "current = None \<or> current = Some t"
  shows "merge_text cell has column limit current = (Some t, [])"
  using assms by (cases t) (auto simp: merge_text_def)

lemma trim_value: "optional (plain_text n) t \<Longrightarrow> trim (value_of t) = value_of t"
  by (cases t) (simp_all add: trim_plain)

lemma plain_optional: "optional (plain_text n) t \<Longrightarrow> optional (\<lambda>s. s \<noteq> [] \<and> length s \<le> n) t"
  by (cases t) (simp_all add: plain_text_def)

lemma merge_plain:
  assumes "sheet_cell p v column = Some (trim (value_of t))" "sheet_has column" "optional (plain_text limit) t"
    "current = None \<or> current = Some t"
  shows "merge_text (sheet_cell p v) sheet_has column limit current = (Some t, [])"
  using assms by (intro merge_text_sheet plain_optional) (simp_all add: trim_value)

lemma status_lower: "s \<in> set CSV_PRODUCT_STATUSES \<Longrightarrow> trim s = s \<and> to_lower s = s \<and> s \<noteq> []"
  by (auto simp: CSV_PRODUCT_STATUSES_def trim_def is_space_def to_lower_def char_lower_def)

lemma merge_status_sheet:
  assumes "ep_status p \<in> set CSV_PRODUCT_STATUSES" "current = None \<or> current = Some (ep_status p)"
  shows "merge_status (sheet_cell p v) sheet_has current = (Some (ep_status p), [])"
  using assms status_lower[OF assms(1)] by (auto simp: merge_status_def sheet_has_all sheet_cells)

lemma merge_title_sheet:
  assumes "plain_text MAX_TITLE (ep_title p)" "current = [] \<or> current = ep_title p"
  shows "merge_title (sheet_cell p v) sheet_has current = (ep_title p, [])"
  using assms trim_plain[OF assms(1)] by (auto simp: merge_title_def sheet_has_all sheet_cells plain_text_def)

lemma merge_tags_sheet:
  assumes "tags_ok (ep_tags p)" "current = None \<or> current = Some (ep_tags p)"
  shows "merge_tags (sheet_cell p v) sheet_has current = (Some (ep_tags p), [])"
  using assms(2) read_tags[OF assms(1)]
  by (auto simp: merge_tags_def sheet_has_all sheet_cells split: option.splits list.splits)

lemma merge_tax_rate_sheet:
  assumes "optional (\<lambda>r. 0 \<le> r \<and> r \<le> MAX_TAX_RATE_BPS) (ep_taxRateBps p)"
    "current = None \<or> current = Some (ep_taxRateBps p)"
  shows "merge_tax_rate (sheet_cell p v) sheet_has current = (Some (ep_taxRateBps p), [])"
proof (cases "ep_taxRateBps p")
  case None
  then show ?thesis using assms(2) by (auto simp: merge_tax_rate_def sheet_has_all sheet_cells amount_cell_def)
next
  case (Some r)
  then have r: "amount_ok r" "r \<le> MAX_TAX_RATE_BPS" using assms(1)
    by (simp_all add: amount_ok_def MAX_TAX_RATE_BPS_def max_safe_integer_def)
  then have "readPercentAsBps (paiseToDecimalString r) = (Some r, [])"
    by (simp add: readPercentAsBps_def read_amount)
  then show ?thesis using assms(2) Some by (auto simp: merge_tax_rate_def sheet_has_all sheet_cells amount_cell_def)
qed

lemma merge_noindex_sheet:
  "current = None \<or> current = Some (ep_seoNoindex p) \<Longrightarrow>
   merge_noindex (sheet_cell p v) sheet_has current = (Some (ep_seoNoindex p), [])"
  by (auto simp: merge_noindex_def sheet_has_all sheet_cells)

lemma merge_fields:
  assumes "exportable p" "d = empty_draft (ep_slug p) row \<or> d = filled p row None vs"
  shows "mergeProductFields d (sheet_cell p v) sheet_has = (filled p row None (pd_variants d), [])"
proof -
  note ok = assms(1)[unfolded exportable_def]
  let ?c = "sheet_cell p v"
  have d: "pd_title d = [] \<or> pd_title d = ep_title p" "pd_summary d = None \<or> pd_summary d = Some (ep_summary p)"
    "pd_description d = None \<or> pd_description d = Some (ep_description p)"
    "pd_productType d = None \<or> pd_productType d = Some (ep_productType p)"
    "pd_vendor d = None \<or> pd_vendor d = Some (ep_vendor p)" "pd_hsnCode d = None \<or> pd_hsnCode d = Some (ep_hsnCode p)"
    "pd_seoTitle d = None \<or> pd_seoTitle d = Some (ep_seoTitle p)"
    "pd_seoDescription d = None \<or> pd_seoDescription d = Some (ep_seoDescription p)"
    "pd_status d = None \<or> pd_status d = Some (ep_status p)" "pd_tags d = None \<or> pd_tags d = Some (ep_tags p)"
    "pd_taxRateBps d = None \<or> pd_taxRateBps d = Some (ep_taxRateBps p)"
    "pd_seoNoindex d = None \<or> pd_seoNoindex d = Some (ep_seoNoindex p)"
    using assms(2) by (auto simp: empty_draft_def filled_def)
  have texts:
    "merge_title ?c sheet_has (pd_title d) = (ep_title p, [])"
    "merge_text ?c sheet_has ''summary'' MAX_SUMMARY (pd_summary d) = (Some (ep_summary p), [])"
    "merge_text ?c sheet_has ''description'' MAX_DESCRIPTION (pd_description d) = (Some (ep_description p), [])"
    "merge_text ?c sheet_has ''product_type'' MAX_PRODUCT_TYPE (pd_productType d) = (Some (ep_productType p), [])"
    "merge_text ?c sheet_has ''vendor'' MAX_VENDOR (pd_vendor d) = (Some (ep_vendor p), [])"
    "merge_text ?c sheet_has ''hsn_code'' MAX_HSN (pd_hsnCode d) = (Some (ep_hsnCode p), [])"
    "merge_text ?c sheet_has ''seo_title'' MAX_SEO_TITLE (pd_seoTitle d) = (Some (ep_seoTitle p), [])"
    "merge_text ?c sheet_has ''seo_description'' MAX_SEO_DESCRIPTION (pd_seoDescription d) = (Some (ep_seoDescription p), [])"
    using ok d by (simp_all add: merge_title_sheet merge_plain merge_text_sheet sheet_cells sheet_has_all)
  have others:
    "merge_status ?c sheet_has (pd_status d) = (Some (ep_status p), [])"
    "merge_tags ?c sheet_has (pd_tags d) = (Some (ep_tags p), [])"
    "merge_tax_rate ?c sheet_has (pd_taxRateBps d) = (Some (ep_taxRateBps p), [])"
    "merge_noindex ?c sheet_has (pd_seoNoindex d) = (Some (ep_seoNoindex p), [])"
    using ok d by (simp_all add: merge_status_sheet merge_tags_sheet merge_tax_rate_sheet merge_noindex_sheet)
  show ?thesis
    unfolding mergeProductFields_def texts others using assms(2) by (auto simp: filled_def empty_draft_def)
qed

section \<open>Options\<close>

lemma axes_cases:
  assumes "length axes \<le> MAX_OPTION_AXES"
  obtains "axes = []" | a where "axes = [a]" | a b where "axes = [a, b]" | a b c where "axes = [a, b, c]"
  using assms unfolding MAX_OPTION_AXES_def
  by (cases axes; cases "tl axes"; cases "tl (tl axes)"; cases "tl (tl (tl axes))") auto

lemma axis_name_plain:
  assumes "exportable p" "axis_name p n \<noteq> []"
  shows "plain_text MAX_OPTION_NAME (axis_name p n)"
proof -
  have "n - 1 < length (ep_axes p)" "axis_name p n = ax_name (ep_axes p ! (n - 1))"
    using assms(2) by (auto simp: axis_name_def split: if_splits)
  then show ?thesis using assms(1) by (auto simp: exportable_def list_all_length)
qed

lemma trim_axis_name: "exportable p \<Longrightarrow> trim (axis_name p n) = axis_name p n"
  by (cases "axis_name p n = []") (simp_all add: axis_name_plain trim_plain[OF axis_name_plain])

lemma merge_axis_step:
  assumes "exportable p" "n \<in> {1, 2, 3}" "axis_name p n = [] \<or> slots ! (n - 1) = None \<or> slots ! (n - 1) = Some (axis_name p n)"
  shows "merge_axis_name (sheet_cell p v) sheet_has slots n =
    (if axis_name p n = [] then slots else slots[n - 1 := Some (axis_name p n)], [])"
proof (cases "axis_name p n = []")
  case True
  then show ?thesis
    by (simp add: merge_axis_name_def Let_def sheet_option_cells[OF assms(2)])
next
  case False
  then have "plain_text MAX_OPTION_NAME (axis_name p n)" by (rule axis_name_plain[OF assms(1)])
  then show ?thesis using False assms(3) sheet_has_options(1)[OF assms(2)]
    by (auto simp: merge_axis_name_def Let_def sheet_option_cells[OF assms(2)] trim_axis_name[OF assms(1)] plain_text_def)
qed

lemma option_index: "(1::nat) \<in> {1, 2, 3}" "(2::nat) \<in> {1, 2, 3}" "(3::nat) \<in> {1, 2, 3}"
  by simp_all

lemma merge_axis_sheet:
  assumes "exportable p" "slots = new_slots \<or> slots = axis_slots p"
  shows "mergeAxisNames (sheet_cell p v) sheet_has slots OPTION_INDEXES = (axis_slots p, [])"
proof -
  define slot where "slot n = (if axis_name p n = [] then None else Some (axis_name p n))" for n
  have lists: "new_slots = [None, None, None]" "axis_slots p = [slot 1, slot 2, slot 3]"
    by (simp_all add: new_slots_def axis_slots_def OPTION_INDEXES_def slot_def)
  obtain x y z where s: "slots = [x, y, z]" "x = None \<or> x = slot 1" "y = None \<or> y = slot 2" "z = None \<or> z = slot 3"
    using assms(2) unfolding lists by auto
  have 1: "merge_axis_name (sheet_cell p v) sheet_has [x, y, z] 1 = ([slot 1, y, z], [])"
    using s(2) by (subst merge_axis_step[OF assms(1) option_index(1)]) (auto simp: slot_def split: if_splits)
  have 2: "merge_axis_name (sheet_cell p v) sheet_has [slot 1, y, z] 2 = ([slot 1, slot 2, z], [])"
    using s(3) by (subst merge_axis_step[OF assms(1) option_index(2)]) (auto simp: slot_def split: if_splits)
  have 3: "merge_axis_name (sheet_cell p v) sheet_has [slot 1, slot 2, z] 3 = ([slot 1, slot 2, slot 3], [])"
    using s(4) by (subst merge_axis_step[OF assms(1) option_index(3)]) (auto simp: slot_def split: if_splits)
  show ?thesis unfolding s(1) lists(2) OPTION_INDEXES_def mergeAxisNames.simps 1 2 3 Let_def prod.case by simp
qed

lemma set_entry_new: "k \<notin> set (map fst s) \<Longrightarrow> set_entry k v s = s @ [(k, v)]"
  by (induction s rule: set_entry.induct) auto

lemma read_option_step:
  assumes "exportable_variant (ep_axes p) v" "n \<in> {1, 2, 3}" "length (ep_axes p) \<le> MAX_OPTION_AXES" "exportable p"
  shows "read_option (axis_slots p) (sheet_cell p v) options n =
    (if n - 1 < length (ep_axes p) then set_entry (axis_name p n) (axis_value p v n) options else options, [])"
proof -
  have slot: "axis_slots p ! (n - 1) = (if axis_name p n = [] then None else Some (axis_name p n))"
    using assms(2) by (auto simp: axis_slots_def OPTION_INDEXES_def)
  show ?thesis
  proof (cases "n - 1 < length (ep_axes p)")
    case True
    let ?a = "ep_axes p ! (n - 1)"
    have n: "axis_name p n = ax_name ?a" "axis_value p v n = value_of (map_of (ev_options v) (ax_name ?a))"
      using True assms(3) by (simp_all add: axis_name_def axis_value_def)
    have "plain_text MAX_OPTION_VALUE (axis_value p v n)" "plain_text MAX_OPTION_NAME (axis_name p n)"
      using True assms(1,4) unfolding n by (auto simp: exportable_variant_def exportable_def list_all_length)
    then show ?thesis
      using True slot by (simp add: read_option_def Let_def sheet_option_cells[OF assms(2)] trim_plain plain_text_def trim_trimmed)
  next
    case False
    then have "axis_name p n = []" "axis_value p v n = []" by (simp_all add: axis_name_def axis_value_def)
    then show ?thesis using False slot by (simp add: read_option_def Let_def sheet_option_cells[OF assms(2)])
  qed
qed

lemma read_options_sheet:
  assumes "exportable p" "exportable_variant (ep_axes p) v"
  shows "readOptions (axis_slots p) (sheet_cell p v) [] OPTION_INDEXES = (axis_selection (ep_axes p) (ev_options v), [])"
proof -
  have len: "length (ep_axes p) \<le> MAX_OPTION_AXES" and names: "distinct (map ax_name (ep_axes p))"
    using assms(1) unfolding exportable_def by blast+
  note step = read_option_step[OF assms(2) _ len assms(1)]
  have three: "MAX_OPTION_AXES = 3" by (simp add: MAX_OPTION_AXES_def)
  have opts: "readOptions (axis_slots p) (sheet_cell p v) [] OPTION_INDEXES =
    (let f = (\<lambda>n options. if n - 1 < length (ep_axes p) then set_entry (axis_name p n) (axis_value p v n) options else options)
     in (f 3 (f 2 (f 1 [])), []))"
    unfolding OPTION_INDEXES_def readOptions.simps step[OF option_index(1)] step[OF option_index(2)] step[OF option_index(3)]
    by (simp add: Let_def)
  from len show ?thesis unfolding opts
    by (cases rule: axes_cases; insert names)
       (simp_all add: axis_name_def axis_value_def axis_selection_def three numeral_eq_Suc)
qed

section \<open>The rows of a product\<close>

definition exported_variant :: "export_product \<Rightarrow> nat \<Rightarrow> export_variant \<Rightarrow> csv_variant_draft" where
  "exported_variant p row v = variant_draft row (Some (axis_selection (ep_axes p) (ev_options v))) v"

lemma row_into_draft_sheet:
  assumes "exportable p" "exportable_variant (ep_axes p) v"
    "d = empty_draft (ep_slug p) row0 \<and> slots = new_slots \<or> d = filled p row0 None vs \<and> slots = axis_slots p"
  shows "row_into_draft (sheet_cell p v) sheet_has (Some (variant_draft row None v)) d slots =
    ((filled p row0 None (pd_variants d @ [exported_variant p row v]), axis_slots p), [])"
proof -
  have f: "mergeProductFields d (sheet_cell p v) sheet_has = (filled p row0 None (pd_variants d), [])"
    using assms(3) by (intro merge_fields[OF assms(1), of _ _ vs]) blast
  have m: "mergeAxisNames (sheet_cell p v) sheet_has slots OPTION_INDEXES = (axis_slots p, [])"
    using assms(3) by (intro merge_axis_sheet[OF assms(1)]) blast
  show ?thesis
    unfolding row_into_draft_def f using m sheet_has_options(2) read_options_sheet[OF assms(1,2)]
    by (simp add: exported_variant_def variant_draft_def filled_def)
qed

lemma trim_eq_Nil: "trim s = [] \<longleftrightarrow> list_all is_space s"
proof
  assume "trim s = []"
  then have "dropWhile is_space (rev (dropWhile is_space s)) = []" by (simp add: trim_def)
  then have "\<forall>c \<in> set (dropWhile is_space s). is_space c" by simp
  then have "dropWhile is_space s = []" using hd_dropWhile[of is_space s] by (cases "dropWhile is_space s") auto
  then show "list_all is_space s" by (simp add: list_all_iff)
next
  assume "list_all is_space s"
  then show "trim s = []" by (auto simp: trim_def list_all_iff dest: set_dropWhileD)
qed

lemma sheet_not_blank:
  assumes "slug_shape (ep_slug p)"
  shows "\<not> blank_record (sheet_record p v)"
proof -
  have ne: "ep_slug p \<noteq> []" using assms by (simp add: slug_shape_def)
  then have "slug_char (hd (ep_slug p)) \<or> hd (ep_slug p) = hyphen"
    using assms hd_in_set[OF ne] unfolding slug_shape_def list_all_iff by blast
  then have "\<not> is_space (hd (ep_slug p))" "ep_slug p \<noteq> []" using ne by (simp_all add: slug_char_not_space)
  then have "\<not> list_all is_space (escapeFormula (ep_slug p))"
    by (cases "ep_slug p") (auto simp: escapeFormula_def)
  moreover have "escapeFormula (ep_slug p) \<in> set (sheet_record p v)"
    by (simp add: sheet_record_def row_values_def CSV_COLUMNS_def row_cells_list product_cells_def)
  ultimately show ?thesis unfolding blank_record_def list_all_iff using trim_eq_Nil by (auto simp: list_all_iff)
qed

lemma upd_last: "\<forall>x \<in> set xs. \<not> P x \<Longrightarrow> P y \<Longrightarrow> upd P f (xs @ [y]) = xs @ [f y]"
  by (induction xs) simp_all

lemma find_last: "\<forall>x \<in> set xs. \<not> P x \<Longrightarrow> P y \<Longrightarrow> find P (xs @ [y]) = Some y"
  by (induction xs) simp_all

lemma at_row_Nil [simp]: "at_row row [] = []"
  by (simp add: at_row_def)

text \<open>The scan in front of the rows of a product and inside them.\<close>

definition product_scan :: "csv_scan \<Rightarrow> export_product \<Rightarrow> nat \<Rightarrow> csv_variant_draft list \<Rightarrow> (string \<times> nat) list \<Rightarrow> csv_scan" where
  "product_scan sc p row variants skus =
    sc\<lparr>sc_products := sc_products sc @ [filled p row None variants], sc_slots := (sc_slots sc)(ep_slug p := Some (axis_slots p)),
       sc_skuRows := sc_skuRows sc @ skus, sc_rowCount := sc_rowCount sc + length variants\<rparr>"

definition fresh_in :: "csv_scan \<Rightarrow> string \<Rightarrow> bool" where
  "fresh_in sc handle \<longleftrightarrow> (\<forall>d \<in> set (sc_products sc). pd_handle d \<noteq> handle)"

lemma read_row_cells:
  assumes "exportable p" "exportable_variant (ep_axes p) v"
  shows "readHandle (sheet_cell p v ''handle'') = (Some (ep_slug p), [])" "readSku (sheet_cell p v ''sku'') = (Some (ev_sku v), [])"
proof -
  have s: "slug_shape (ep_slug p)" "length (ep_slug p) \<le> MAX_SLUG_LENGTH" using assms(1) by (simp_all add: exportable_def)
  show "readHandle (sheet_cell p v ''handle'') = (Some (ep_slug p), [])"
    unfolding sheet_cells trim_slug[OF s(1)] by (rule read_handle[OF s])
  have k: "plain_text MAX_SKU (ev_sku v)" "\<not> SCIENTIFIC_NOTATION (ev_sku v)" using assms(2) by (simp_all add: exportable_variant_def)
  show "readSku (sheet_cell p v ''sku'') = (Some (ev_sku v), [])"
    unfolding sheet_cells trim_plain[OF k(1)] by (rule read_sku[OF k])
qed

lemma scan_first_row:
  assumes "exportable p" "exportable_variant (ep_axes p) v" "fresh_in sc (ep_slug p)"
  shows "scan_row sheet_index row (sheet_record p v) sc = product_scan sc p row [exported_variant p row v] [(ev_sku v, row)]"
proof -
  have slug: "slug_shape (ep_slug p)" using assms(1) by (simp add: exportable_def)
  have none: "find (\<lambda>d. pd_handle d = ep_slug p) (sc_products sc) = None"
    using assms(3) by (simp add: find_None_iff fresh_in_def)
  have cells: "csv_cell sheet_index (sheet_record p v) = sheet_cell p v" "csv_has sheet_index = sheet_has"
    by (simp_all add: sheet_cell_def sheet_has_def fun_eq_iff)
  have row: "row_into_draft (sheet_cell p v) sheet_has (Some (variant_draft row None v)) (empty_draft (ep_slug p) row) new_slots =
    ((filled p row None [exported_variant p row v], axis_slots p), [])"
    by (subst row_into_draft_sheet[OF assms(1,2)]) (auto simp: empty_draft_def)
  have handle: "pd_handle (empty_draft (ep_slug p) row) = ep_slug p" by (simp add: empty_draft_def)
  show ?thesis
    unfolding scan_row_def cells read_row_cells[OF assms(1,2)] Let_def prod.case
    using sheet_not_blank[OF slug] assms(3)
    by (simp add: read_variant[OF assms(2)] enter_handle_def none merge_row_def find_last upd_last handle fresh_in_def
        slots_of_def row product_scan_def count_row_def)
qed

lemma scan_next_row:
  assumes "exportable p" "exportable_variant (ep_axes p) v" "fresh_in sc (ep_slug p)"
  shows "scan_row sheet_index row (sheet_record p v) (product_scan sc p row0 vs skus) =
    product_scan sc p row0 (vs @ [exported_variant p row v]) (skus @ [(ev_sku v, row)])"
proof -
  have slug: "slug_shape (ep_slug p)" using assms(1) by (simp add: exportable_def)
  have cells: "csv_cell sheet_index (sheet_record p v) = sheet_cell p v" "csv_has sheet_index = sheet_has"
    by (simp_all add: sheet_cell_def sheet_has_def fun_eq_iff)
  have row: "row_into_draft (sheet_cell p v) sheet_has (Some (variant_draft row None v)) (filled p row0 None vs) (axis_slots p) =
    ((filled p row0 None (vs @ [exported_variant p row v]), axis_slots p), [])"
    by (subst row_into_draft_sheet[OF assms(1,2)]) (auto simp: filled_def)
  have handle: "pd_handle (filled p row0 None us) = ep_slug p" for us by (simp add: filled_def)
  show ?thesis
    unfolding scan_row_def cells read_row_cells[OF assms(1,2)] Let_def prod.case
    using sheet_not_blank[OF slug] assms(3)
    by (simp add: read_variant[OF assms(2)] enter_handle_def merge_row_def find_last upd_last handle fresh_in_def
        slots_of_def row product_scan_def count_row_def)
qed

fun exported_variants :: "export_product \<Rightarrow> nat \<Rightarrow> export_variant list \<Rightarrow> csv_variant_draft list" where
  "exported_variants p row [] = []"
| "exported_variants p row (v # vs) = exported_variant p row v # exported_variants p (row + 1) vs"

fun sku_rows :: "nat \<Rightarrow> export_variant list \<Rightarrow> (string \<times> nat) list" where
  "sku_rows row [] = []"
| "sku_rows row (v # vs) = (ev_sku v, row) # sku_rows (row + 1) vs"

lemma scan_next_rows:
  assumes "exportable p" "fresh_in sc (ep_slug p)"
  shows "list_all (exportable_variant (ep_axes p)) vs \<Longrightarrow>
    scan_rows sheet_index row (map (sheet_record p) vs) (product_scan sc p row0 us skus) =
    product_scan sc p row0 (us @ exported_variants p row vs) (skus @ sku_rows row vs)"
proof (induction vs arbitrary: row us skus)
  case (Cons v vs)
  then show ?case using scan_next_row[OF assms(1) _ assms(2), of v row row0 us skus] by simp
qed simp

lemma scan_product:
  assumes "exportable p" "fresh_in sc (ep_slug p)"
  shows "scan_rows sheet_index row (map (sheet_record p) (ep_variants p)) sc =
    product_scan sc p row (exported_variants p row (ep_variants p)) (sku_rows row (ep_variants p))"
proof -
  obtain v vs where v: "ep_variants p = v # vs" using assms(1) by (cases "ep_variants p") (auto simp: exportable_def)
  then have ok: "exportable_variant (ep_axes p) v" "list_all (exportable_variant (ep_axes p)) vs"
    using assms(1) by (auto simp: exportable_def)
  show ?thesis
    unfolding v using scan_first_row[OF assms(1) ok(1) assms(2), of row]
      scan_next_rows[OF assms ok(2), of "row + 1" row "[exported_variant p row v]" "[(ev_sku v, row)]"] by simp
qed

lemma scan_rows_append:
  "scan_rows ix row (xs @ ys) sc = scan_rows ix (row + length xs) ys (scan_rows ix row xs sc)"
  by (induction xs arbitrary: row sc) simp_all

section \<open>A whole export\<close>

definition product_rows :: "export_product \<Rightarrow> string list list" where
  "product_rows p = map (row_values p) (ep_variants p)"

fun exported_drafts :: "nat \<Rightarrow> export_product list \<Rightarrow> csv_product_draft list" where
  "exported_drafts row [] = []"
| "exported_drafts row (p # ps) =
    filled p row (Some (map ax_name (ep_axes p))) (exported_variants p row (ep_variants p))
      # exported_drafts (row + length (ep_variants p)) ps"

fun raw_drafts :: "nat \<Rightarrow> export_product list \<Rightarrow> csv_product_draft list" where
  "raw_drafts row [] = []"
| "raw_drafts row (p # ps) =
    filled p row None (exported_variants p row (ep_variants p)) # raw_drafts (row + length (ep_variants p)) ps"

lemma scan_products:
  assumes "list_all exportable ps" "distinct (map ep_slug ps)" "\<forall>p \<in> set ps. fresh_in sc (ep_slug p)"
  shows "\<exists>slots. scan_rows sheet_index row (concat (map (\<lambda>p. map (sheet_record p) (ep_variants p)) ps)) sc =
    sc\<lparr>sc_products := sc_products sc @ raw_drafts row ps, sc_slots := slots,
       sc_skuRows := sc_skuRows sc @ sku_rows row (concat (map ep_variants ps)),
       sc_rowCount := sc_rowCount sc + length (concat (map ep_variants ps))\<rparr> \<and>
    (\<forall>p \<in> set ps. slots (ep_slug p) = Some (axis_slots p)) \<and>
    (\<forall>h. h \<notin> set (map ep_slug ps) \<longrightarrow> slots h = sc_slots sc h)"
  using assms
proof (induction ps arbitrary: row sc)
  case Nil
  then show ?case by (intro exI[of _ "sc_slots sc"]) simp
next
  case (Cons p ps)
  let ?n = "length (ep_variants p)"
  have p: "exportable p" "fresh_in sc (ep_slug p)" using Cons.prems by auto
  define sc1 where "sc1 = product_scan sc p row (exported_variants p row (ep_variants p)) (sku_rows row (ep_variants p))"
  have fresh: "\<forall>q \<in> set ps. fresh_in sc1 (ep_slug q)"
    using Cons.prems(2,3) by (auto simp: fresh_in_def sc1_def product_scan_def filled_def)
  have len: "length (exported_variants p r vs) = length vs" for r vs by (induction vs arbitrary: r) auto
  have skus: "sku_rows r (us @ vs) = sku_rows r us @ sku_rows (r + length us) vs" for r us vs
    by (induction us arbitrary: r) auto
  from Cons.IH[of sc1 "row + ?n"] Cons.prems(1,2) fresh obtain slots where
    slots: "scan_rows sheet_index (row + ?n) (concat (map (\<lambda>p. map (sheet_record p) (ep_variants p)) ps)) sc1 =
      sc1\<lparr>sc_products := sc_products sc1 @ raw_drafts (row + ?n) ps, sc_slots := slots,
         sc_skuRows := sc_skuRows sc1 @ sku_rows (row + ?n) (concat (map ep_variants ps)),
         sc_rowCount := sc_rowCount sc1 + length (concat (map ep_variants ps))\<rparr>"
    "\<forall>q \<in> set ps. slots (ep_slug q) = Some (axis_slots q)" "\<forall>h. h \<notin> set (map ep_slug ps) \<longrightarrow> slots h = sc_slots sc1 h"
    by auto
  have own: "slots (ep_slug p) = Some (axis_slots p)" using slots(3) Cons.prems(2) by (simp add: sc1_def product_scan_def)
  have rest: "\<forall>h. h \<notin> set (map ep_slug (p # ps)) \<longrightarrow> slots h = sc_slots sc h"
    using slots(3) by (simp add: sc1_def product_scan_def)
  show ?case
    using slots(1,2) own rest scan_product[OF p, of row]
    by (intro exI[of _ slots]) (simp add: scan_rows_append sc1_def[symmetric] skus, simp add: sc1_def product_scan_def len)
qed

lemma final_names_sheet:
  assumes "exportable p"
  shows "finaliseAxisNames (axis_slots p) = (map ax_name (ep_axes p), [])"
proof -
  have len: "length (ep_axes p) \<le> MAX_OPTION_AXES" and names: "distinct (map ax_name (ep_axes p))"
    and plain: "list_all (\<lambda>a. plain_text MAX_OPTION_NAME (ax_name a)) (ep_axes p)"
    using assms unfolding exportable_def by blast+
  have three: "MAX_OPTION_AXES = 3" by (simp add: MAX_OPTION_AXES_def)
  from len show ?thesis
    by (cases rule: axes_cases; insert names plain)
       (auto simp: finaliseAxisNames_def axis_slots_def OPTION_INDEXES_def axis_name_def three plain_text_def numeral_eq_Suc)
qed

lemma map_of_selection:
  "a \<in> set axes \<Longrightarrow> map_of (axis_selection axes options) (ax_name a) = Some (value_of (map_of options (ax_name a)))"
  unfolding axis_selection_def by (induction axes) auto

lemma option_values_sheet:
  assumes "a \<in> set (ep_axes p)"
  shows "option_values (ax_name a) (exported_variants p row vs) = axis_choices (ax_name a) vs"
proof -
  have "List.map_filter (\<lambda>v. case vd_options v of Some options \<Rightarrow> map_of options (ax_name a) | None \<Rightarrow> None) (exported_variants p row vs) =
    map (\<lambda>v. value_of (map_of (ev_options v) (ax_name a))) vs"
    by (induction vs arbitrary: row)
       (simp_all add: List.map_filter_simps exported_variant_def variant_draft_def map_of_selection[OF assms])
  then show ?thesis unfolding option_values_def axis_choices_def by simp
qed

lemma count_values_sheet:
  assumes "list_all (\<lambda>a. length (axis_choices (ax_name a) vs) \<le> MAX_OPTION_VALUES) axes" "set axes \<subseteq> set (ep_axes p)"
  shows "countOptionValues i (map ax_name axes) (exported_variants p row vs) = []"
  using assms
proof (induction axes arbitrary: i)
  case (Cons a axes)
  then show ?case using option_values_sheet[of a p row vs] by simp
qed simp

lemma length_exported [simp]: "length (exported_variants p row vs) = length vs"
  by (induction vs arbitrary: row) simp_all

lemma finish_sheet:
  assumes "exportable p"
  shows "finish_draft sheet_has (axis_slots p) (filled p row None (exported_variants p row (ep_variants p))) =
    (filled p row (Some (map ax_name (ep_axes p))) (exported_variants p row (ep_variants p)), [])"
proof -
  note ok = assms[unfolded exportable_def]
  have "countOptionValues 0 (map ax_name (ep_axes p)) (exported_variants p row (ep_variants p)) = []"
    using ok by (intro count_values_sheet) simp_all
  moreover have "exported_variants p row (ep_variants p) \<noteq> []" using ok length_exported[of p row "ep_variants p"] by (metis length_0_conv)
  moreover have "ep_title p \<noteq> []" "length (ep_variants p) \<le> MAX_VARIANTS_PER_PRODUCT" using ok by (simp_all add: plain_text_def)
  ultimately show ?thesis
    using final_names_sheet[OF assms] sheet_has_options(2) by (simp add: finish_draft_def filled_def sheet_has_all)
qed

lemma finish_products:
  assumes "list_all exportable ps" "\<forall>p \<in> set ps. sc_slots sc (ep_slug p) = Some (axis_slots p)"
  shows "map (\<lambda>d. finish_draft sheet_has (slots_of sc (pd_handle d)) d) (raw_drafts row ps) =
    map (\<lambda>d. (d, [])) (exported_drafts row ps)"
  using assms
proof (induction ps arbitrary: row)
  case (Cons p ps)
  have "slots_of sc (pd_handle (filled p row None vs)) = axis_slots p" for vs
    using Cons.prems(2) by (simp add: slots_of_def filled_def)
  then show ?case using Cons finish_sheet[of p row] by simp
qed simp

lemma no_issues: "concat (map2 (\<lambda>d f. at_row (pd_row d) (snd f)) ds (map (\<lambda>d. (d, [])) es)) = []"
  by (induction ds es rule: list_induct2') simp_all

lemma no_duplicates:
  "distinct (map ev_sku vs) \<Longrightarrow> \<forall>v \<in> set vs. ev_sku v \<notin> set seen \<Longrightarrow> duplicateSkuIssues (sku_rows row vs) seen = []"
proof (induction vs arbitrary: row seen)
  case (Cons v vs)
  have "ev_sku u \<noteq> ev_sku v" if "u \<in> set vs" for u using Cons.prems(1) that by (auto simp: image_iff)
  then have "\<forall>u \<in> set vs. ev_sku u \<notin> set (ev_sku v # seen)" using Cons.prems(2) by auto
  then have "duplicateSkuIssues (sku_rows (row + 1) vs) (ev_sku v # seen) = []" using Cons.prems(1) by (intro Cons.IH) simp_all
  then show ?case using Cons.prems by simp
qed simp

lemma parse_sheet:
  assumes "list_all exportable ps" "distinct (map ep_slug ps)" "distinct (map ev_sku (concat (map ep_variants ps)))"
  shows "parseCatalogCsv (CSV_COLUMNS # concat (map (\<lambda>p. map (sheet_record p) (ep_variants p)) ps)) =
    \<lparr>pc_products = exported_drafts 2 ps, pc_issues = [], pc_rowCount = length (concat (map ep_variants ps))\<rparr>"
proof -
  have missing: "filter (\<lambda>c. \<not> sheet_has c) REQUIRED_CSV_COLUMNS = []"
    by (simp add: REQUIRED_CSV_COLUMNS_def sheet_has_all)
  have fresh: "\<forall>p \<in> set ps. fresh_in (empty_scan []) (ep_slug p)" by (simp add: fresh_in_def empty_scan_def)
  obtain slots where slots: "scan_rows sheet_index 2 (concat (map (\<lambda>p. map (sheet_record p) (ep_variants p)) ps)) (empty_scan []) =
    (empty_scan [])\<lparr>sc_products := raw_drafts 2 ps, sc_slots := slots,
       sc_skuRows := sku_rows 2 (concat (map ep_variants ps)), sc_rowCount := length (concat (map ep_variants ps))\<rparr>"
    "\<forall>p \<in> set ps. slots (ep_slug p) = Some (axis_slots p)"
    using scan_products[OF assms(1,2) fresh, of 2] by (auto simp: empty_scan_def)
  let ?sc = "(empty_scan [])\<lparr>sc_products := raw_drafts 2 ps, sc_slots := slots,
       sc_skuRows := sku_rows 2 (concat (map ep_variants ps)), sc_rowCount := length (concat (map ep_variants ps))\<rparr>"
  have slots': "\<forall>p \<in> set ps. sc_slots ?sc (ep_slug p) = Some (axis_slots p)" using slots(2) by simp
  have finish: "map (\<lambda>d. finish_draft sheet_has (slots_of ?sc (pd_handle d)) d) (raw_drafts 2 ps) = map (\<lambda>d. (d, [])) (exported_drafts 2 ps)"
    by (rule finish_products[OF assms(1) slots'])
  have done': "finish_scan sheet_has ?sc = (exported_drafts 2 ps, [])"
  proof -
    have "sc_products ?sc = raw_drafts 2 ps" by simp
    then show ?thesis unfolding finish_scan_def Let_def by (simp only: finish no_issues) (simp add: comp_def)
  qed
  have dup: "duplicateSkuIssues (sku_rows 2 (concat (map ep_variants ps))) [] = []"
    by (rule no_duplicates[OF assms(3)]) simp
  show ?thesis
    unfolding parseCatalogCsv_def list.case header_index Let_def prod.case sheet_has_def[symmetric] missing
    using slots(1) done' dup by (simp add: empty_scan_def)
qed

lemma read_export:
  assumes "list_all exportable ps" "distinct (map ep_slug ps)" "distinct (map ev_sku (concat (map ep_variants ps)))"
  shows "rbind (parseCsvRecords (export_text ps)) (\<lambda>records. Inr (parseCatalogCsv records)) =
    Inr \<lparr>pc_products = exported_drafts 2 ps, pc_issues = [], pc_rowCount = length (concat (map ep_variants ps))\<rparr>"
proof -
  let ?rows = "CSV_COLUMNS # concat (map product_rows ps)"
  have written: "export_text ps = concat (map formatCsvRecord ?rows)"
    unfolding export_text_def catalogCsvHeader_def productToCsvRows_def product_rows_def
    by (simp add: map_concat comp_def)
  have "row_values p v \<noteq> []" for p v by (simp add: row_values_def CSV_COLUMNS_def)
  then have "list_all (\<lambda>vs. vs \<noteq> []) ?rows" using distinct_columns(2) by (auto simp: list_all_iff product_rows_def)
  then have "parseCsvRecords (export_text ps) = Inr (map (map escapeFormula) ?rows)"
    unfolding written by (rule parse_written)
  moreover have "map (map escapeFormula) ?rows = CSV_COLUMNS # concat (map (\<lambda>p. map (sheet_record p) (ep_variants p)) ps)"
    unfolding sheet_record_def[abs_def] by (simp add: header_written map_concat comp_def product_rows_def)
  ultimately show ?thesis using parse_sheet[OF assms] by simp
qed


definition sample_variant :: "string \<Rightarrow> string \<Rightarrow> export_variant" where
  "sample_variant sku size' =
    \<lparr>ev_sku = sku, ev_barcode = None, ev_options = [(''Size'', size')], ev_pricePaise = 129900, ev_compareAtPaise = Some 149900,
     ev_costPaise = None, ev_weightGrams = 250, ev_lowStockAt = Some 3, ev_isActive = True, ev_tracksInventory = True\<rparr>"

definition sample_product :: "export_variant list \<Rightarrow> export_product" where
  "sample_product variants =
    \<lparr>ep_slug = ''blue-shirt'', ep_title = ''Blue Shirt'', ep_status = ''active'', ep_summary = Some ''=soft, cool'',
     ep_description = Some ''<p>Linen</p>'', ep_productType = None, ep_vendor = Some ''Acme'', ep_tags = [''linen'', ''summer''],
     ep_hsnCode = Some ''6205'', ep_taxRateBps = Some 1250, ep_seoTitle = None, ep_seoDescription = None, ep_seoNoindex = False,
     ep_axes = [\<lparr>ax_name = ''Size'', ax_values = [''M'', ''L'']\<rparr>], ep_variants = variants\<rparr>"

definition sample_products :: "export_product list" where
  "sample_products = [sample_product [sample_variant ''BS-M'' ''M'', sample_variant ''BS-L'' ''L'']]"

lemma sample_products_exportable:
  "list_all exportable sample_products" "distinct (map ep_slug sample_products)"
  "distinct (map ev_sku (concat (map ep_variants sample_products)))" "length (concat (map ep_variants sample_products)) = 2"
proof -
  have texts: "slug_shape ''blue-shirt''" "\<not> SCIENTIFIC_NOTATION ''BS-M''" "\<not> SCIENTIFIC_NOTATION ''BS-L''" by code_simp+
  show "list_all exportable sample_products"
    by (simp add: sample_products_def sample_product_def sample_variant_def exportable_def exportable_variant_def plain_text_def
        trimmed_def is_space_def texts tags_ok_def amount_ok_def max_safe_integer_def CSV_PRODUCT_STATUSES_def axis_choices_def
        js_unique_def csv_limits MAX_SLUG_LENGTH_def)
  show "distinct (map ep_slug sample_products)" "distinct (map ev_sku (concat (map ep_variants sample_products)))"
    "length (concat (map ep_variants sample_products)) = 2" by code_simp+
qed


text \<open>
  The condition on SKUs is needed: a SKU such as \<open>5E2\<close>, which the console accepts, is exported but
  its row is refused when the file comes back.
\<close>

lemma scientific_sku_refused:
  assumes "plain_text MAX_SKU (ev_sku v)" "SCIENTIFIC_NOTATION (ev_sku v)"
  shows "readSku (csv_cell sheet_index (map escapeFormula (row_values p v)) ''sku'') = (None, [Some ''sku''])"
proof -
  have "csv_cell sheet_index (map escapeFormula (row_values p v)) ''sku'' = Some (ev_sku v)"
    using sheet_cells(14)[of p v] trim_plain[OF assms(1)] by (simp add: sheet_cell_def sheet_record_def)
  then show ?thesis using assms by (simp add: readSku_def plain_text_def)
qed

lemma scientific_sku_example: "SCIENTIFIC_NOTATION ''5E2'' \<and> SCIENTIFIC_NOTATION ''12e-3''"
  by code_simp

end
