(* ===== verification/CsvImport.thy ===== *)
theory CsvImport
  imports CsvRoundtrip
begin

text \<open>
  What an import accepts: a file with no issue has been read completely, row by row, and its drafts
  keep the limits of the catalog.
\<close>

section \<open>Readers that reported nothing\<close>

lemma readHandle_ok:
  "readHandle raw = (x, []) \<Longrightarrow> raw \<noteq> None \<Longrightarrow> \<exists>h. raw = Some h \<and> h \<noteq> [] \<and> x = Some (slugify (Some ''item'') h)"
  by (auto simp: readHandle_def split: option.splits if_splits)

lemma readHandle_shape: "fst (readHandle raw) = Some h \<Longrightarrow> slug_shape h \<and> length h \<le> MAX_SLUG_LENGTH"
proof -
  assume "fst (readHandle raw) = Some h"
  then obtain t where h: "h = slugify (Some ''item'') t" by (auto simp: readHandle_def split: option.splits if_splits)
  have "slug_shape ''item'' \<and> length ''item'' \<le> MAX_SLUG_LENGTH" by code_simp
  then show ?thesis unfolding h by (intro slugify_shape) simp
qed

lemma readSku_ok: "readSku raw = (x, []) \<Longrightarrow> raw \<noteq> None \<Longrightarrow> \<exists>s. raw = Some s \<and> x = Some s"
  by (auto simp: readSku_def split: option.splits if_splits)

lemma readSku_bounds: "fst (readSku raw) = Some s \<Longrightarrow> raw = Some s \<and> s \<noteq> [] \<and> length s \<le> MAX_SKU \<and> \<not> SCIENTIFIC_NOTATION s"
  by (auto simp: readSku_def split: option.splits if_splits)

lemma readAmount_bounds:
  "fst (readAmount raw column required) = Some p \<Longrightarrow> \<exists>s. raw = Some s \<and> parseAmountToPaise s = Inr p \<and> 0 \<le> p \<and> p \<le> max_safe_integer"
  by (auto simp: readAmount_def is_safe_integer_def split: option.splits if_splits sum.splits dest: parse_amount_safe)

lemma readAmount_ok: "readAmount raw column True = (x, []) \<Longrightarrow> raw \<noteq> None \<Longrightarrow> \<exists>p. x = Some p"
  by (auto simp: readAmount_def split: option.splits if_splits sum.splits)

lemma readWholeNumber_nonneg: "readWholeNumber s = Some n \<Longrightarrow> 0 \<le> n"
  by (auto simp: readWholeNumber_def Let_def split: if_splits)

lemma readWeight_bounds:
  "fst (readWeight raw) = Some g \<Longrightarrow> \<exists>s. raw = Some s \<and> readWholeNumber s = Some g \<and> 0 \<le> g \<and> g \<le> MAX_WEIGHT_GRAMS"
  by (auto simp: readWeight_def split: option.splits if_splits dest: readWholeNumber_nonneg)

lemma readWeight_ok: "readWeight raw = (x, []) \<Longrightarrow> raw \<noteq> None \<Longrightarrow> \<exists>g. x = Some g"
proof -
  assume r: "readWeight raw = (x, [])" "raw \<noteq> None"
  then obtain s where "raw = Some s" by blast
  then show ?thesis using r(1) by (cases "readWholeNumber s") (simp_all add: readWeight_def split: if_splits, metis+)
qed

section \<open>The variant of a row\<close>

text \<open>A draft states what the cells of its row say.\<close>

definition variant_from :: "(csv_column \<Rightarrow> string option) \<Rightarrow> nat \<Rightarrow> csv_variant_draft \<Rightarrow> bool" where
  "variant_from cell row v \<longleftrightarrow>
     vd_row v = row \<and> cell ''sku'' = Some (vd_sku v) \<and> vd_sku v \<noteq> [] \<and> length (vd_sku v) \<le> MAX_SKU \<and>
     (\<exists>s. cell ''price'' = Some s \<and> parseAmountToPaise s = Inr (vd_pricePaise v)) \<and>
     0 \<le> vd_pricePaise v \<and> vd_pricePaise v \<le> max_safe_integer \<and>
     (\<exists>s. cell ''weight_grams'' = Some s \<and> readWholeNumber s = Some (vd_weightGrams v)) \<and>
     0 \<le> vd_weightGrams v \<and> vd_weightGrams v \<le> MAX_WEIGHT_GRAMS"

lemma readVariant_fields:
  assumes "fst (readVariant sku cell has row) = Some v"
  shows "vd_row v = row" "sku = Some (vd_sku v)" "fst (readAmount (cell ''price'') ''price'' True) = Some (vd_pricePaise v)"
    "fst (readWeight (cell ''weight_grams'')) = Some (vd_weightGrams v)"
proof -
  obtain x r1 where x: "readAmount (cell ''price'') ''price'' True = (x, r1)" by fastforce
  obtain w r2 where w: "readWeight (cell ''weight_grams'') = (w, r2)" by fastforce
  obtain s p g where e: "sku = Some s" "x = Some p" "w = Some g"
    using assms unfolding readVariant_def x w by (cases sku; cases x; cases w) auto
  have "vd_row v = row \<and> vd_sku v = s \<and> vd_pricePaise v = p \<and> vd_weightGrams v = g"
    using assms unfolding readVariant_def x w e by (auto simp: Let_def split: prod.splits)
  then show "vd_row v = row" "sku = Some (vd_sku v)" "fst (readAmount (cell ''price'') ''price'' True) = Some (vd_pricePaise v)"
    "fst (readWeight (cell ''weight_grams'')) = Some (vd_weightGrams v)"
    using e x w by simp_all
qed

lemma readVariant_from:
  assumes "fst (readVariant (fst (readSku (cell ''sku''))) cell has row) = Some v"
  shows "variant_from cell row v"
proof -
  note f = readVariant_fields[OF assms]
  show ?thesis
    unfolding variant_from_def
    using f(1) readSku_bounds[OF f(2)] readAmount_bounds[OF f(3)] readWeight_bounds[OF f(4)] by blast
qed

lemma readVariant_ok:
  assumes "readVariant (Some s) cell has row = (x, [])" "cell ''price'' \<noteq> None" "cell ''weight_grams'' \<noteq> None"
  shows "\<exists>v. x = Some v"
proof -
  obtain y r1 where y: "readAmount (cell ''price'') ''price'' True = (y, r1)" by fastforce
  obtain w r2 where w: "readWeight (cell ''weight_grams'') = (w, r2)" by fastforce
  have r: "r1 = [] \<and> r2 = []"
    using assms(1) unfolding readVariant_def y w by (auto simp: Let_def split: prod.splits option.splits)
  obtain p g where "y = Some p" "w = Some g"
    using readAmount_ok[of "cell ''price''" "''price''" y] readWeight_ok[of "cell ''weight_grams''" w] assms(2,3) y w r by auto
  then show ?thesis
    using assms(1) unfolding readVariant_def y w by (auto simp: Let_def split: prod.splits)
qed

section \<open>One row of the scan\<close>

lemma merge_fields_keeps:
  "pd_handle (fst (mergeProductFields d cell has)) = pd_handle d"
  "pd_variants (fst (mergeProductFields d cell has)) = pd_variants d"
  by (simp_all add: mergeProductFields_def Let_def split: prod.split)

text \<open>What a row adds to its draft: nothing, or its variant with the options filled in.\<close>

lemma row_into_draft_adds:
  "pd_handle (fst (fst (row_into_draft cell has variant d slots))) = pd_handle d \<and>
   (\<exists>added. pd_variants (fst (fst (row_into_draft cell has variant d slots))) = pd_variants d @ added \<and>
      list_all2 (\<lambda>v' v. \<exists>options. v' = v\<lparr>vd_options := options\<rparr>) added (case variant of None \<Rightarrow> [] | Some v \<Rightarrow> [v]))"
proof (cases variant)
  case None
  then show ?thesis using merge_fields_keeps[of d cell has]
    by (auto simp: row_into_draft_def Let_def split: prod.splits)
next
  case (Some v)
  have "\<exists>options. v = v\<lparr>vd_options := options\<rparr>" by (rule exI[of _ "vd_options v"]) simp
  then show ?thesis using merge_fields_keeps[of d cell has] Some
    by (auto simp: row_into_draft_def Let_def split: prod.splits)
qed

lemma upd_found:
  assumes "distinct (map f rows)" "find (\<lambda>r. f r = k) rows = Some r"
  shows "\<exists>xs ys. rows = xs @ r # ys \<and> f r = k \<and> upd (\<lambda>r. f r = k) (\<lambda>_. r') rows = xs @ r' # ys"
  using assms
proof (induction rows)
  case (Cons s rows)
  show ?case
  proof (cases "f s = k")
    case True
    have "f s \<notin> f ` set rows" using Cons.prems(1) by simp
    then have "f r \<noteq> k" if "r \<in> set rows" for r using True that by (metis imageI)
    then have "upd (\<lambda>r. f r = k) (\<lambda>_. r') rows = rows" by (intro upd_noop)
    then show ?thesis using True Cons.prems(2) by (intro exI[of _ "[]"] exI[of _ rows]) simp
  next
    case False
    then obtain xs ys where "rows = xs @ r # ys" "f r = k" "upd (\<lambda>r. f r = k) (\<lambda>_. r') rows = xs @ r' # ys"
      using Cons by auto
    then show ?thesis using False by (intro exI[of _ "s # xs"] exI[of _ ys]) simp
  qed
qed simp

text \<open>
  The invariant of the scan: every handle has one draft, handles are slugs, and the readable SKUs
  include those of all variants.
\<close>

definition variant_key :: "csv_variant_draft \<Rightarrow> string \<times> nat" where
  "variant_key v = (vd_sku v, vd_row v)"

definition draft_bounds :: "csv_variant_draft \<Rightarrow> bool" where
  "draft_bounds v \<longleftrightarrow> vd_sku v \<noteq> [] \<and> length (vd_sku v) \<le> MAX_SKU \<and> 0 \<le> vd_pricePaise v \<and> vd_pricePaise v \<le> max_safe_integer \<and>
     0 \<le> vd_weightGrams v \<and> vd_weightGrams v \<le> MAX_WEIGHT_GRAMS"

definition scan_ok :: "csv_scan \<Rightarrow> bool" where
  "scan_ok sc \<longleftrightarrow>
     distinct (map pd_handle (sc_products sc)) \<and>
     (\<forall>h \<in> set (map pd_handle (sc_products sc)). slug_shape h \<and> length h \<le> MAX_SLUG_LENGTH) \<and>
     mset (map variant_key (concat (map pd_variants (sc_products sc)))) \<subseteq># mset (sc_skuRows sc) \<and>
     (\<forall>v \<in> set (concat (map pd_variants (sc_products sc))). draft_bounds v)"

lemma enter_handle_products:
  obtains d where "find (\<lambda>d. pd_handle d = h) (sc_products (enter_handle h row sc)) = Some d"
    "pd_handle d = h" "sc_issues (enter_handle h row sc) = sc_issues sc" "sc_skuRows (enter_handle h row sc) = sc_skuRows sc"
    "sc_rowCount (enter_handle h row sc) = sc_rowCount sc"
    "sc_products (enter_handle h row sc) = sc_products sc \<or>
       (\<forall>d \<in> set (sc_products sc). pd_handle d \<noteq> h) \<and> sc_products (enter_handle h row sc) = sc_products sc @ [empty_draft h row]"
proof (cases "find (\<lambda>d. pd_handle d = h) (sc_products sc)")
  case (Some d)
  then show thesis using that[of d] find_eq_Some[OF Some] by (simp add: enter_handle_def)
next
  case None
  have e: "pd_handle (empty_draft h row) = h" by (simp add: empty_draft_def)
  have none: "\<forall>d \<in> set (sc_products sc). pd_handle d \<noteq> h" using None by (simp add: find_None_iff)
  then have "find (\<lambda>d. pd_handle d = h) (sc_products sc @ [empty_draft h row]) = Some (empty_draft h row)"
    by (simp add: find_append None e)
  then show thesis using that[of "empty_draft h row"] None none e by (simp add: enter_handle_def)
qed

lemma enter_handle_ok:
  assumes "scan_ok sc" "slug_shape h" "length h \<le> MAX_SLUG_LENGTH"
  shows "scan_ok (enter_handle h row sc)"
proof (rule enter_handle_products[of h row sc])
  fix d
  assume e: "sc_skuRows (enter_handle h row sc) = sc_skuRows sc"
    "sc_products (enter_handle h row sc) = sc_products sc \<or>
       (\<forall>d \<in> set (sc_products sc). pd_handle d \<noteq> h) \<and> sc_products (enter_handle h row sc) = sc_products sc @ [empty_draft h row]"
  have "pd_handle (empty_draft h row) = h" "pd_variants (empty_draft h row) = []" by (simp_all add: empty_draft_def)
  then show ?thesis using e assms unfolding scan_ok_def by auto
qed

text \<open>A row merged into the draft of its handle.\<close>

lemma merge_row_products:
  assumes "find (\<lambda>d. pd_handle d = h) (sc_products sc) = Some d" "distinct (map pd_handle (sc_products sc))"
  obtains xs ys d' added r where "sc_products sc = xs @ d # ys" "sc_products (merge_row h cell has variant row sc) = xs @ d' # ys"
    "pd_handle d' = h" "pd_handle d = h" "pd_variants d' = pd_variants d @ added"
    "list_all2 (\<lambda>v' v. \<exists>options. v' = v\<lparr>vd_options := options\<rparr>) added (case variant of None \<Rightarrow> [] | Some v \<Rightarrow> [v])"
    "sc_issues (merge_row h cell has variant row sc) = sc_issues sc @ r"
    "sc_skuRows (merge_row h cell has variant row sc) = sc_skuRows sc"
    "sc_rowCount (merge_row h cell has variant row sc) = sc_rowCount sc"
proof -
  obtain d' slots r where m: "row_into_draft cell has variant d (slots_of sc h) = ((d', slots), r)" by (metis surj_pair)
  obtain added where added: "pd_handle d' = pd_handle d" "pd_variants d' = pd_variants d @ added"
    "list_all2 (\<lambda>v' v. \<exists>options. v' = v\<lparr>vd_options := options\<rparr>) added (case variant of None \<Rightarrow> [] | Some v \<Rightarrow> [v])"
    using row_into_draft_adds[of cell has variant d "slots_of sc h"] unfolding m fst_conv by blast
  obtain xs ys where s: "sc_products sc = xs @ d # ys" "pd_handle d = h"
    "upd (\<lambda>p. pd_handle p = h) (\<lambda>_. d') (sc_products sc) = xs @ d' # ys"
    using upd_found[OF assms(2,1)] by blast
  have "merge_row h cell has variant row sc =
    sc\<lparr>sc_products := xs @ d' # ys, sc_slots := (sc_slots sc)(h := Some slots), sc_issues := sc_issues sc @ at_row row r\<rparr>"
    unfolding merge_row_def assms(1) option.case m Let_def prod.case s(3) ..
  then show thesis
    by (intro that[of xs ys d' added "at_row row r"]) (use s(1,2) added in simp_all)
qed

lemma merge_row_ok:
  assumes "scan_ok sc" "find (\<lambda>d. pd_handle d = h) (sc_products sc) = Some d"
    "\<forall>v. variant = Some v \<longrightarrow> draft_bounds v"
    "mset (map variant_key (concat (map pd_variants (sc_products sc)) @ (case variant of None \<Rightarrow> [] | Some v \<Rightarrow> [v]))) \<subseteq># mset (sc_skuRows sc)"
  shows "scan_ok (merge_row h cell has variant row sc)"
proof -
  have dist: "distinct (map pd_handle (sc_products sc))" using assms(1) by (simp add: scan_ok_def)
  from assms(2) dist show ?thesis
  proof (rule merge_row_products[where cell = cell and has = has and variant = variant and row = row])
    fix xs ys d' added r
    assume m: "sc_products sc = xs @ d # ys" "sc_products (merge_row h cell has variant row sc) = xs @ d' # ys"
      "pd_handle d' = h" "pd_handle d = h" "pd_variants d' = pd_variants d @ added"
      "list_all2 (\<lambda>v' v. \<exists>options. v' = v\<lparr>vd_options := options\<rparr>) added (case variant of None \<Rightarrow> [] | Some v \<Rightarrow> [v])"
      "sc_skuRows (merge_row h cell has variant row sc) = sc_skuRows sc"
    have keys: "map variant_key added = map variant_key (case variant of None \<Rightarrow> [] | Some v \<Rightarrow> [v])"
      using m(6) by (cases variant) (auto simp: list_all2_Cons2 variant_key_def)
    have "mset (map variant_key (concat (map pd_variants (xs @ d' # ys)))) =
      mset (map variant_key (concat (map pd_variants (sc_products sc)) @ (case variant of None \<Rightarrow> [] | Some v \<Rightarrow> [v])))"
      using keys unfolding m(1) by (simp add: m(5))
    moreover have "\<forall>v \<in> set added. draft_bounds v"
      using m(6) assms(3) by (cases variant) (auto simp: list_all2_Cons2 draft_bounds_def)
    moreover have "map pd_handle (xs @ d' # ys) = map pd_handle (sc_products sc)" unfolding m(1) by (simp add: m(3,4))
    moreover have "set (concat (map pd_variants (xs @ d' # ys))) = set (concat (map pd_variants (sc_products sc))) \<union> set added"
      unfolding m(1) by (auto simp: m(5))
    ultimately show ?thesis
      using assms(1,4) unfolding scan_ok_def m(2,7) by (simp only:) blast
  qed
qed

text \<open>What a row does, with its parts named.\<close>

lemma scan_row_parts:
  obtains handle r1 sku r2 variant r3 where
    "readHandle (csv_cell indexOf record ''handle'') = (handle, r1)" "readSku (csv_cell indexOf record ''sku'') = (sku, r2)"
    "readVariant sku (csv_cell indexOf record) (csv_has indexOf) row = (variant, r3)"
    "\<not> blank_record record \<longrightarrow> scan_row indexOf row record sc =
       (case handle of
          None \<Rightarrow> count_row row sku (r1 @ r2 @ r3) sc
        | Some h \<Rightarrow> merge_row h (csv_cell indexOf record) (csv_has indexOf) variant row (enter_handle h row (count_row row sku (r1 @ r2 @ r3) sc)))"
proof -
  obtain handle r1 where h: "readHandle (csv_cell indexOf record ''handle'') = (handle, r1)" by fastforce
  obtain sku r2 where s: "readSku (csv_cell indexOf record ''sku'') = (sku, r2)" by fastforce
  obtain variant r3 where v: "readVariant sku (csv_cell indexOf record) (csv_has indexOf) row = (variant, r3)" by fastforce
  show thesis
    by (rule that[OF h s v], rule impI, unfold scan_row_def Let_def h s v prod.case, simp only: if_False)
qed

lemma scan_row_ok:
  assumes "scan_ok sc"
  shows "scan_ok (scan_row indexOf row record sc)"
proof (cases "blank_record record")
  case False
  let ?cell = "csv_cell indexOf record" and ?has = "csv_has indexOf"
  obtain handle r1 sku r2 variant r3 where h: "readHandle (?cell ''handle'') = (handle, r1)"
    and s: "readSku (?cell ''sku'') = (sku, r2)" and v: "readVariant sku ?cell ?has row = (variant, r3)"
    and parts: "\<not> blank_record record \<longrightarrow> scan_row indexOf row record sc =
       (case handle of
          None \<Rightarrow> count_row row sku (r1 @ r2 @ r3) sc
        | Some h \<Rightarrow> merge_row h ?cell ?has variant row (enter_handle h row (count_row row sku (r1 @ r2 @ r3) sc)))"
    by (rule scan_row_parts[of indexOf "record" row sc])
  define sc1 where "sc1 = count_row row sku (r1 @ r2 @ r3) sc"
  have e: "scan_row indexOf row record sc = (case handle of None \<Rightarrow> sc1 | Some h \<Rightarrow> merge_row h ?cell ?has variant row (enter_handle h row sc1))"
    unfolding sc1_def by (rule parts[rule_format, OF False])
  have ok1: "scan_ok sc1"
    using assms unfolding scan_ok_def sc1_def count_row_def by (simp add: subset_mset.le_supI1 subset_mset.add_increasing2)
  have cells: "variant_from ?cell row u" if "variant = Some u" for u
    using readVariant_from[of ?cell ?has row u] s v that by simp
  have sku: "sku = Some (vd_sku u) \<and> vd_row u = row" if "variant = Some u" for u
    using readVariant_fields[of sku ?cell ?has row u] v that by simp
  show ?thesis
  proof (cases handle)
    case None
    then show ?thesis using e ok1 by simp
  next
    case (Some h')
    have shape: "slug_shape h' \<and> length h' \<le> MAX_SLUG_LENGTH" using readHandle_shape[of "?cell ''handle''" h'] h Some by simp
    let ?sc2 = "enter_handle h' row sc1"
    have ok2: "scan_ok ?sc2" using enter_handle_ok[OF ok1] shape by blast
    have fields: "\<forall>v. variant = Some v \<longrightarrow> draft_bounds v"
      using cells by (simp add: variant_from_def draft_bounds_def)
    show ?thesis
    proof (rule enter_handle_products[of h' row sc1])
      fix d
      assume d: "find (\<lambda>d. pd_handle d = h') (sc_products ?sc2) = Some d" "sc_skuRows ?sc2 = sc_skuRows sc1"
        "sc_products ?sc2 = sc_products sc1 \<or>
         (\<forall>d \<in> set (sc_products sc1). pd_handle d \<noteq> h') \<and> sc_products ?sc2 = sc_products sc1 @ [empty_draft h' row]"
      have "concat (map pd_variants (sc_products ?sc2)) = concat (map pd_variants (sc_products sc))"
        using d(3) by (auto simp: sc1_def count_row_def empty_draft_def)
      moreover have "mset (map variant_key (case variant of None \<Rightarrow> [] | Some v \<Rightarrow> [v])) \<subseteq># mset (case sku of Some s \<Rightarrow> [(s, row)] | None \<Rightarrow> [])"
        using sku by (cases variant) (auto simp: variant_key_def)
      moreover have "mset (map variant_key (concat (map pd_variants (sc_products sc)))) \<subseteq># mset (sc_skuRows sc)"
        using assms by (simp add: scan_ok_def)
      moreover have "sc_skuRows sc1 = sc_skuRows sc @ (case sku of Some s \<Rightarrow> [(s, row)] | None \<Rightarrow> [])" by (simp add: sc1_def count_row_def)
      ultimately have "mset (map variant_key (concat (map pd_variants (sc_products ?sc2)) @ (case variant of None \<Rightarrow> [] | Some v \<Rightarrow> [v])))
        \<subseteq># mset (sc_skuRows ?sc2)"
        unfolding d(2) by (simp add: subset_mset.add_mono)
      then have "scan_ok (merge_row h' ?cell ?has variant row ?sc2)" by (rule merge_row_ok[OF ok2 d(1) fields])
      then show ?thesis using e Some by simp
    qed
  qed
qed (simp add: scan_row_def assms)

lemma scan_rows_ok: "scan_ok sc \<Longrightarrow> scan_ok (scan_rows indexOf row records sc)"
  by (induction records arbitrary: row sc) (simp_all add: scan_row_ok)

section \<open>No row is lost\<close>

text \<open>A row is covered when its variant is in the draft of its handle.\<close>

definition covered :: "(csv_column \<times> nat) list \<Rightarrow> csv_product_draft list \<Rightarrow> nat \<Rightarrow> string list \<Rightarrow> bool" where
  "covered indexOf products row record \<longleftrightarrow>
     (\<exists>d \<in> set products. \<exists>v \<in> set (pd_variants d). variant_from (csv_cell indexOf record) row v \<and>
        (\<exists>h. csv_cell indexOf record ''handle'' = Some h \<and> pd_handle d = slugify (Some ''item'') h))"

text \<open>A later row keeps the drafts, up to what it appends.\<close>

definition drafts_grown :: "csv_product_draft list \<Rightarrow> csv_product_draft list \<Rightarrow> bool" where
  "drafts_grown ps qs \<longleftrightarrow> (\<forall>d \<in> set ps. \<exists>d' \<in> set qs. pd_handle d' = pd_handle d \<and> set (pd_variants d) \<subseteq> set (pd_variants d'))"

lemma drafts_grown_refl [simp]: "drafts_grown ps ps"
  by (auto simp: drafts_grown_def)

lemma drafts_grown_trans: "drafts_grown ps qs \<Longrightarrow> drafts_grown qs rs \<Longrightarrow> drafts_grown ps rs"
  unfolding drafts_grown_def by (metis subset_trans)

lemma covered_grown: "covered indexOf ps row record \<Longrightarrow> drafts_grown ps qs \<Longrightarrow> covered indexOf qs row record"
proof -
  assume c: "covered indexOf ps row record" and g: "drafts_grown ps qs"
  obtain d v where d: "d \<in> set ps" "v \<in> set (pd_variants d)" "variant_from (csv_cell indexOf record) row v"
      "\<exists>h. csv_cell indexOf record ''handle'' = Some h \<and> pd_handle d = slugify (Some ''item'') h"
    using c unfolding covered_def by blast
  obtain d' where d': "d' \<in> set qs" "pd_handle d' = pd_handle d" "set (pd_variants d) \<subseteq> set (pd_variants d')"
    using g d(1) unfolding drafts_grown_def by blast
  show ?thesis unfolding covered_def using d(2,3,4) d'(1,3) unfolding d'(2)[symmetric] by blast
qed

lemma scan_row_effect:
  assumes "scan_ok sc"
  shows "drafts_grown (sc_products sc) (sc_products (scan_row indexOf row record sc))"
    "\<exists>r. sc_issues (scan_row indexOf row record sc) = sc_issues sc @ r"
    "sc_rowCount (scan_row indexOf row record sc) = sc_rowCount sc + (if blank_record record then 0 else 1)"
    "\<not> blank_record record \<Longrightarrow> list_all (csv_has indexOf) REQUIRED_CSV_COLUMNS \<Longrightarrow>
     sc_issues (scan_row indexOf row record sc) = [] \<Longrightarrow> covered indexOf (sc_products (scan_row indexOf row record sc)) row record"
proof -
  let ?cell = "csv_cell indexOf record" and ?has = "csv_has indexOf" and ?sc' = "scan_row indexOf row record sc"
  obtain handle r1 sku r2 variant r3 where h: "readHandle (?cell ''handle'') = (handle, r1)"
    and s: "readSku (?cell ''sku'') = (sku, r2)" and v: "readVariant sku ?cell ?has row = (variant, r3)"
    and parts: "\<not> blank_record record \<longrightarrow> scan_row indexOf row record sc =
       (case handle of
          None \<Rightarrow> count_row row sku (r1 @ r2 @ r3) sc
        | Some h \<Rightarrow> merge_row h ?cell ?has variant row (enter_handle h row (count_row row sku (r1 @ r2 @ r3) sc)))"
    by (rule scan_row_parts[of indexOf "record" row sc])
  define sc1 where "sc1 = count_row row sku (r1 @ r2 @ r3) sc"
  have e: "\<not> blank_record record \<Longrightarrow> ?sc' = (case handle of None \<Rightarrow> sc1 | Some h \<Rightarrow> merge_row h ?cell ?has variant row (enter_handle h row sc1))"
    unfolding sc1_def by (rule parts[rule_format])
  have same: "sc_products sc1 = sc_products sc" "sc_rowCount sc1 = sc_rowCount sc + 1"
    "sc_issues sc1 = sc_issues sc @ at_row row (r1 @ r2 @ r3)" by (simp_all add: sc1_def count_row_def)
  have merged: "drafts_grown (sc_products sc) (sc_products (merge_row h' ?cell ?has variant row (enter_handle h' row sc1))) \<and>
      (\<exists>r. sc_issues (merge_row h' ?cell ?has variant row (enter_handle h' row sc1)) = sc_issues sc1 @ r) \<and>
      sc_rowCount (merge_row h' ?cell ?has variant row (enter_handle h' row sc1)) = sc_rowCount sc1 \<and>
      (\<forall>v. variant = Some v \<longrightarrow> (\<exists>d' \<in> set (sc_products (merge_row h' ?cell ?has variant row (enter_handle h' row sc1))).
         pd_handle d' = h' \<and> (\<exists>options. v\<lparr>vd_options := options\<rparr> \<in> set (pd_variants d'))))"
    if shape: "slug_shape h'" "length h' \<le> MAX_SLUG_LENGTH" for h'
  proof (rule enter_handle_products[of h' row sc1])
    fix d
    let ?sc2 = "enter_handle h' row sc1"
    assume d: "find (\<lambda>d. pd_handle d = h') (sc_products ?sc2) = Some d" "pd_handle d = h'" "sc_issues ?sc2 = sc_issues sc1"
      "sc_skuRows ?sc2 = sc_skuRows sc1" "sc_rowCount ?sc2 = sc_rowCount sc1"
      "sc_products ?sc2 = sc_products sc1 \<or>
       (\<forall>d \<in> set (sc_products sc1). pd_handle d \<noteq> h') \<and> sc_products ?sc2 = sc_products sc1 @ [empty_draft h' row]"
    have "distinct (map pd_handle (sc_products ?sc2))"
      using assms d(6) unfolding same(1) by (auto simp: scan_ok_def empty_draft_def)
    with d(1) show ?thesis
    proof (rule merge_row_products[where cell = ?cell and has = ?has and variant = variant and row = row])
      fix xs ys d' added r
      assume m: "sc_products ?sc2 = xs @ d # ys" "sc_products (merge_row h' ?cell ?has variant row ?sc2) = xs @ d' # ys"
        "pd_handle d' = h'" "pd_variants d' = pd_variants d @ added"
        "list_all2 (\<lambda>v' v. \<exists>options. v' = v\<lparr>vd_options := options\<rparr>) added (case variant of None \<Rightarrow> [] | Some v \<Rightarrow> [v])"
        "sc_issues (merge_row h' ?cell ?has variant row ?sc2) = sc_issues ?sc2 @ r"
        "sc_rowCount (merge_row h' ?cell ?has variant row ?sc2) = sc_rowCount ?sc2"
      have "drafts_grown (sc_products sc) (sc_products ?sc2)" using d(6) unfolding same(1) by (auto simp: drafts_grown_def)
      moreover have "drafts_grown (sc_products ?sc2) (xs @ d' # ys)" unfolding m(1) drafts_grown_def using m(3,4) d(2) by auto
      ultimately have "drafts_grown (sc_products sc) (xs @ d' # ys)" by (rule drafts_grown_trans)
      moreover have "\<exists>options. u\<lparr>vd_options := options\<rparr> \<in> set (pd_variants d')" if "variant = Some u" for u
        using m(4,5) that by (auto simp: list_all2_Cons2)
      ultimately show ?thesis using m(2,3,6,7) d(3,5) by auto
    qed
  qed
  have shape: "slug_shape h' \<and> length h' \<le> MAX_SLUG_LENGTH" if "handle = Some h'" for h'
    using readHandle_shape[of "?cell ''handle''" h'] h that by simp
  have blank: "blank_record record \<Longrightarrow> ?sc' = sc" by (simp add: scan_row_def)
  have main: "drafts_grown (sc_products sc) (sc_products ?sc') \<and> (\<exists>r. sc_issues ?sc' = sc_issues sc1 @ r) \<and> sc_rowCount ?sc' = sc_rowCount sc1 \<and>
      (\<forall>h' v. handle = Some h' \<and> variant = Some v \<longrightarrow>
         (\<exists>d' \<in> set (sc_products ?sc'). pd_handle d' = h' \<and> (\<exists>options. v\<lparr>vd_options := options\<rparr> \<in> set (pd_variants d'))))"
    if nb: "\<not> blank_record record"
  proof (cases handle)
    case None
    then have "?sc' = sc1" using e[OF nb] by simp
    then show ?thesis using None same(1) by simp
  next
    case (Some h')
    then have eq: "?sc' = merge_row h' ?cell ?has variant row (enter_handle h' row sc1)" using e[OF nb] by simp
    have "slug_shape h'" "length h' \<le> MAX_SLUG_LENGTH" using shape[OF Some] by blast+
    from merged[OF this] show ?thesis unfolding eq Some by blast
  qed
  show "drafts_grown (sc_products sc) (sc_products ?sc')"
    using main blank by (cases "blank_record record") (simp, blast)
  show "\<exists>r. sc_issues ?sc' = sc_issues sc @ r"
  proof (cases "blank_record record")
    case False
    then obtain r where "sc_issues ?sc' = sc_issues sc1 @ r" using main by blast
    then show ?thesis unfolding same(3) by simp
  qed (simp add: blank)
  show "sc_rowCount ?sc' = sc_rowCount sc + (if blank_record record then 0 else 1)"
    using main blank same(2) by (cases "blank_record record") simp_all
  show "covered indexOf (sc_products ?sc') row record"
    if a: "\<not> blank_record record" "list_all ?has REQUIRED_CSV_COLUMNS" "sc_issues ?sc' = []"
  proof -
    have some: "?cell c \<noteq> None" if "c \<in> set REQUIRED_CSV_COLUMNS" for c
      using a(2) that by (auto simp: list_all_iff csv_has_def csv_cell_def Let_def split: option.split)
    then have cells: "?cell ''handle'' \<noteq> None" "?cell ''sku'' \<noteq> None" "?cell ''price'' \<noteq> None" "?cell ''weight_grams'' \<noteq> None"
      by (simp_all add: REQUIRED_CSV_COLUMNS_def)
    have "sc_issues sc1 = []" using a(3) main[OF a(1)] by auto
    then have r: "r1 = []" "r2 = []" "r3 = []" using same(3) by (simp_all add: at_row_def)
    obtain t where t: "?cell ''handle'' = Some t" "handle = Some (slugify (Some ''item'') t)"
      using readHandle_ok[of "?cell ''handle''" handle] h r cells by auto
    obtain k where k: "sku = Some k" using readSku_ok[of "?cell ''sku''" sku] s r cells by auto
    obtain u where u: "variant = Some u" using readVariant_ok[of k ?cell ?has row variant] v r k cells by auto
    have vf: "variant_from ?cell row u" using readVariant_from[of ?cell ?has row u] s v u by simp
    obtain d' options where d': "d' \<in> set (sc_products ?sc')" "pd_handle d' = slugify (Some ''item'') t"
        "u\<lparr>vd_options := options\<rparr> \<in> set (pd_variants d')"
      using main[OF a(1)] u t(2) by blast
    have "variant_from ?cell row (u\<lparr>vd_options := options\<rparr>)" using vf by (simp add: variant_from_def)
    then show ?thesis using d' t(1) unfolding covered_def by blast
  qed
qed

lemma scan_rows_effect:
  assumes "scan_ok sc"
  shows "drafts_grown (sc_products sc) (sc_products (scan_rows indexOf row records sc)) \<and>
    (\<exists>r. sc_issues (scan_rows indexOf row records sc) = sc_issues sc @ r) \<and>
    sc_rowCount (scan_rows indexOf row records sc) = sc_rowCount sc + length (filter (\<lambda>r. \<not> blank_record r) records) \<and>
    (list_all (csv_has indexOf) REQUIRED_CSV_COLUMNS \<longrightarrow> sc_issues (scan_rows indexOf row records sc) = [] \<longrightarrow>
      (\<forall>i < length records. \<not> blank_record (records ! i) \<longrightarrow>
         covered indexOf (sc_products (scan_rows indexOf row records sc)) (row + i) (records ! i)))"
  using assms
proof (induction records arbitrary: row sc)
  case (Cons rw records)
  let ?sc1 = "scan_row indexOf row rw sc"
  let ?sc2 = "scan_rows indexOf (row + 1) records ?sc1"
  note eff = scan_row_effect[OF Cons.prems]
  have ok1: "scan_ok ?sc1" by (rule scan_row_ok[OF Cons.prems])
  note ih = Cons.IH[OF ok1, of "row + 1"]
  obtain r1 where r1: "sc_issues ?sc1 = sc_issues sc @ r1" using eff(2) by blast
  obtain r2 where r2: "sc_issues ?sc2 = sc_issues ?sc1 @ r2" using ih by blast
  have g: "drafts_grown (sc_products ?sc1) (sc_products ?sc2)" using ih by blast
  have covers: "covered indexOf (sc_products ?sc2) (row + i) ((rw # records) ! i)"
    if a: "list_all (csv_has indexOf) REQUIRED_CSV_COLUMNS" "sc_issues ?sc2 = []" "i < length (rw # records)"
      "\<not> blank_record ((rw # records) ! i)" for i
  proof (cases i)
    case 0
    have "sc_issues ?sc1 = []" using a(2) r2 by simp
    then have "covered indexOf (sc_products ?sc1) row rw" using eff(4) a(1,4) 0 by simp
    then show ?thesis using covered_grown[OF _ g] 0 by simp
  next
    case (Suc j)
    then have "j < length records" "\<not> blank_record (records ! j)" using a(3,4) by simp_all
    then have "covered indexOf (sc_products ?sc2) (row + 1 + j) (records ! j)" using ih a(1,2) by blast
    then show ?thesis using Suc by simp
  qed
  have "sc_rowCount ?sc2 = sc_rowCount sc + length (filter (\<lambda>r. \<not> blank_record r) (rw # records))"
    using ih eff(3) by simp
  then show ?case using drafts_grown_trans[OF eff(1) g] r1 r2 covers by simp
qed simp

text \<open>A property of the scan that counting, entering a handle and merging keep is kept by a row.\<close>

lemma scan_row_keeps:
  assumes "P sc" "\<And>sku reports. P (count_row row sku reports sc)"
    "\<And>h sc. P sc \<Longrightarrow> P (enter_handle h row sc)" "\<And>h cell has variant sc. P sc \<Longrightarrow> P (merge_row h cell has variant row sc)"
  shows "P (scan_row indexOf row record sc)"
proof (cases "blank_record record")
  case False
  obtain handle r1 sku r2 variant r3 where
    "scan_row indexOf row record sc =
       (case handle of
          None \<Rightarrow> count_row row sku (r1 @ r2 @ r3) sc
        | Some h \<Rightarrow> merge_row h (csv_cell indexOf record) (csv_has indexOf) variant row (enter_handle h row (count_row row sku (r1 @ r2 @ r3) sc)))"
    by (rule scan_row_parts[of indexOf "record" row sc]) (use False in blast)
  then show ?thesis using assms(2-4) by (cases handle) simp_all
qed (simp add: scan_row_def assms(1))

lemma scan_row_skus: "length (sc_skuRows sc) \<le> sc_rowCount sc \<Longrightarrow>
  length (sc_skuRows (scan_row indexOf row record sc)) \<le> sc_rowCount (scan_row indexOf row record sc)"
  by (rule scan_row_keeps[where P = "\<lambda>sc. length (sc_skuRows sc) \<le> sc_rowCount sc"])
     (auto simp: count_row_def enter_handle_def merge_row_def Let_def split: option.split prod.split)

lemma scan_rows_skus: "length (sc_skuRows sc) \<le> sc_rowCount sc \<Longrightarrow>
  length (sc_skuRows (scan_rows indexOf row records sc)) \<le> sc_rowCount (scan_rows indexOf row records sc)"
  by (induction records arbitrary: row sc) (simp_all add: scan_row_skus)

section \<open>The whole file\<close>

lemma finish_draft_keeps:
  "pd_handle (fst (finish_draft has slots d)) = pd_handle d" "pd_variants (fst (finish_draft has slots d)) = pd_variants d"
  by (auto simp: finish_draft_def Let_def split: prod.split)

lemma empty_scan_ok: "scan_ok (empty_scan issues)"
  by (simp add: scan_ok_def empty_scan_def)

lemma at_row_eq_Nil [simp]: "at_row row r = [] \<longleftrightarrow> r = []"
  by (simp add: at_row_def)

lemma parsed_scan:
  assumes "pc_issues (parseCatalogCsv (header # rows)) = []"
  obtains indexOf sc where "read_header 0 header [] = (indexOf, [])" "list_all (csv_has indexOf) REQUIRED_CSV_COLUMNS"
    "sc = scan_rows indexOf 2 rows (empty_scan [])" "sc_issues sc = []" "duplicateSkuIssues (sc_skuRows sc) [] = []"
    "finish_scan (csv_has indexOf) sc = (pc_products (parseCatalogCsv (header # rows)), [])"
    "pc_rowCount (parseCatalogCsv (header # rows)) = sc_rowCount sc"
proof -
  obtain indexOf twice where h: "read_header 0 header [] = (indexOf, twice)" by fastforce
  define missing where "missing = map Some (filter (\<lambda>c. \<not> csv_has indexOf c) REQUIRED_CSV_COLUMNS)"
  define sc where "sc = scan_rows indexOf 2 rows (empty_scan (at_row 1 (twice @ missing)))"
  obtain products issues where f: "finish_scan (csv_has indexOf) sc = (products, issues)" by fastforce
  have p: "parseCatalogCsv (header # rows) =
    \<lparr>pc_products = products, pc_issues = sc_issues sc @ issues @ duplicateSkuIssues (sc_skuRows sc) [], pc_rowCount = sc_rowCount sc\<rparr>"
    unfolding parseCatalogCsv_def list.case h Let_def prod.case missing_def[symmetric] sc_def[symmetric] f ..
  then have none: "sc_issues sc = []" "issues = []" "duplicateSkuIssues (sc_skuRows sc) [] = []" using assms by simp_all
  obtain r where "sc_issues sc = sc_issues (empty_scan (at_row 1 (twice @ missing))) @ r"
    using scan_rows_effect[OF empty_scan_ok, of "at_row 1 (twice @ missing)" indexOf 2 rows] unfolding sc_def by blast
  then have start: "twice = []" "missing = []" using none(1) by (simp_all add: empty_scan_def)
  have "list_all (csv_has indexOf) REQUIRED_CSV_COLUMNS"
    using start(2) by (auto simp: missing_def list_all_iff filter_empty_conv)
  then show thesis
    using that[of indexOf sc] h start none f p by (simp add: sc_def at_row_def)
qed

lemma finished_products:
  assumes "finish_scan has sc = (products, issues)"
  shows "map pd_handle products = map pd_handle (sc_products sc)" "map pd_variants products = map pd_variants (sc_products sc)"
  using assms by (auto simp: finish_scan_def Let_def finish_draft_keeps)

lemma covered_finished:
  assumes "covered indexOf ps row record" "map pd_handle qs = map pd_handle ps" "map pd_variants qs = map pd_variants ps"
  shows "covered indexOf qs row record"
proof (rule covered_grown[OF assms(1)])
  show "drafts_grown ps qs" unfolding drafts_grown_def
  proof
    fix d assume "d \<in> set ps"
    then obtain i where i: "i < length ps" "d = ps ! i" by (auto simp: in_set_conv_nth)
    have len: "length qs = length ps" using assms(2) by (metis length_map)
    then have q: "i < length qs" using i(1) by simp
    have "map pd_handle qs ! i = map pd_handle ps ! i" "map pd_variants qs ! i = map pd_variants ps ! i" by (simp_all only: assms(2,3))
    then have same: "pd_handle (qs ! i) = pd_handle d" "pd_variants (qs ! i) = pd_variants d"
      unfolding nth_map[OF q] nth_map[OF i(1)] i(2) by blast+
    have "qs ! i \<in> set qs" by (rule nth_mem[OF q])
    then show "\<exists>d' \<in> set qs. pd_handle d' = pd_handle d \<and> set (pd_variants d) \<subseteq> set (pd_variants d')" by (rule rev_bexI) (simp add: same)
  qed
qed

lemma mset_distinct:
  assumes "mset xs \<subseteq># mset ys" "distinct ys"
  shows "distinct xs"
proof -
  obtain zs where "mset zs = mset ys - mset xs" using ex_mset by blast
  then have "mset (xs @ zs) = mset ys" using assms(1) by simp
  then have "distinct (xs @ zs)" using assms(2) mset_eq_imp_distinct_iff by blast
  then show ?thesis by simp
qed

lemma no_duplicates_distinct:
  "duplicateSkuIssues rows seen = [] \<Longrightarrow> distinct (map fst rows) \<and> set (map fst rows) \<inter> set seen = {}"
  by (induction rows seen rule: duplicateSkuIssues.induct) (auto split: if_splits)


lemma sample_file_clean:
  "parseCatalogCsv (CSV_COLUMNS # concat (map (\<lambda>p. map (sheet_record p) (ep_variants p)) sample_products)) =
    \<lparr>pc_products = exported_drafts 2 sample_products, pc_issues = [], pc_rowCount = 2\<rparr>"
  using parse_sheet[OF sample_products_exportable(1-3)] sample_products_exportable(4) by simp


section \<open>The limits\<close>

lemma final_names_distinct: "distinct names \<Longrightarrow> distinct (fst (final_names names i slots))"
  by (induction names i slots rule: final_names.induct) (auto split: option.split prod.splits)

lemma countOptionValues_ok:
  "countOptionValues i names variants = [] \<Longrightarrow> list_all (\<lambda>n. length (option_values n variants) \<le> MAX_OPTION_VALUES) names"
  by (induction names arbitrary: i) (auto split: if_splits)

definition product_ok :: "csv_product_draft \<Rightarrow> bool" where
  "product_ok d \<longleftrightarrow>
     slug_shape (pd_handle d) \<and> length (pd_handle d) \<le> MAX_SLUG_LENGTH \<and> pd_title d \<noteq> [] \<and>
     pd_variants d \<noteq> [] \<and> length (pd_variants d) \<le> MAX_VARIANTS_PER_PRODUCT \<and> list_all draft_bounds (pd_variants d) \<and>
     (case pd_optionNames d of None \<Rightarrow> True | Some names \<Rightarrow>
        distinct names \<and> list_all (\<lambda>n. length (option_values n (pd_variants d)) \<le> MAX_OPTION_VALUES) names)"

lemma finish_draft_ok:
  assumes "finish_draft has slots d = (d', [])" "has ''title''" "pd_optionNames d = None"
  shows "pd_title d' \<noteq> [] \<and> pd_variants d' \<noteq> [] \<and> length (pd_variants d') \<le> MAX_VARIANTS_PER_PRODUCT \<and>
    (case pd_optionNames d' of None \<Rightarrow> True | Some names \<Rightarrow>
        distinct names \<and> list_all (\<lambda>n. length (option_values n (pd_variants d')) \<le> MAX_OPTION_VALUES) names)"
proof -
  obtain names r where n: "finaliseAxisNames slots = (names, r)" by fastforce
  have "distinct names" using final_names_distinct[of "[]" 0 slots] n by (simp add: finaliseAxisNames_def)
  then show ?thesis
    using assms unfolding finish_draft_def n
    by (auto simp: Let_def split: if_splits dest: countOptionValues_ok)
qed

lemma map2_same: "map2 g xs (map h xs) = map (\<lambda>x. g x (h x)) xs"
  by (induction xs) simp_all

definition unnamed :: "csv_scan \<Rightarrow> bool" where
  "unnamed sc \<longleftrightarrow> (\<forall>d \<in> set (sc_products sc). pd_optionNames d = None)"

lemma row_into_draft_names: "pd_optionNames (fst (fst (row_into_draft cell has variant d slots))) = pd_optionNames d"
proof -
  have fields: "pd_optionNames (fst (mergeProductFields d cell has)) = pd_optionNames d"
    by (simp add: mergeProductFields_def Let_def split: prod.split)
  show ?thesis using fields by (cases variant) (auto simp: row_into_draft_def Let_def split: prod.splits)
qed

lemma merge_row_unnamed:
  assumes "unnamed sc"
  shows "unnamed (merge_row h cell has variant row sc)"
proof (cases "find (\<lambda>d. pd_handle d = h) (sc_products sc)")
  case (Some d)
  obtain d' slots r where m: "row_into_draft cell has variant d (slots_of sc h) = ((d', slots), r)" by (metis surj_pair)
  have "pd_optionNames d = None" using assms find_eq_Some[OF Some] by (simp add: unnamed_def)
  then have "pd_optionNames d' = None" using row_into_draft_names[of cell has variant d "slots_of sc h"] m by simp
  moreover have "sc_products (merge_row h cell has variant row sc) = upd (\<lambda>p. pd_handle p = h) (\<lambda>_. d') (sc_products sc)"
    unfolding merge_row_def Some option.case m Let_def prod.case by simp
  ultimately show ?thesis using assms unfolding unnamed_def by (auto elim!: set_updE)
qed (simp add: merge_row_def assms)

lemma scan_row_unnamed: "unnamed sc \<Longrightarrow> unnamed (scan_row indexOf row record sc)"
proof (rule scan_row_keeps[where P = unnamed])
  show "unnamed (enter_handle h row sc)" if "unnamed sc" for h sc
    using that by (auto simp: unnamed_def enter_handle_def empty_draft_def split: option.split)
qed (simp_all add: merge_row_unnamed, simp_all add: unnamed_def count_row_def)

lemma scan_rows_unnamed: "unnamed sc \<Longrightarrow> unnamed (scan_rows indexOf row records sc)"
  by (induction records arbitrary: row sc) (simp_all add: scan_row_unnamed)

lemma clean_file_limits:
  assumes "pc_issues (parseCatalogCsv (header # rows)) = []"
  shows "distinct (map pd_handle (pc_products (parseCatalogCsv (header # rows)))) \<and>
    list_all product_ok (pc_products (parseCatalogCsv (header # rows))) \<and>
    distinct (map vd_sku (concat (map pd_variants (pc_products (parseCatalogCsv (header # rows))))))"
proof -
  let ?ps = "pc_products (parseCatalogCsv (header # rows))"
  obtain indexOf sc where req: "list_all (csv_has indexOf) REQUIRED_CSV_COLUMNS"
    and sc: "sc = scan_rows indexOf 2 rows (empty_scan [])" and dup: "duplicateSkuIssues (sc_skuRows sc) [] = []"
    and f: "finish_scan (csv_has indexOf) sc = (?ps, [])"
    by (rule parsed_scan[OF assms])
  have ok: "scan_ok sc" unfolding sc by (rule scan_rows_ok[OF empty_scan_ok])
  have unnamed: "unnamed sc" unfolding sc by (rule scan_rows_unnamed) (simp add: unnamed_def empty_scan_def)
  have title: "csv_has indexOf ''title''" using req by (simp add: REQUIRED_CSV_COLUMNS_def)
  note same = finished_products[OF f]
  have "distinct (map fst (map variant_key (concat (map pd_variants (sc_products sc)))))"
  proof (rule mset_distinct)
    show "mset (map fst (map variant_key (concat (map pd_variants (sc_products sc))))) \<subseteq># mset (map fst (sc_skuRows sc))"
      unfolding mset_map[of fst] using ok by (intro image_mset_subseteq_mono) (simp add: scan_ok_def)
    show "distinct (map fst (sc_skuRows sc))" using no_duplicates_distinct[OF dup] by simp
  qed
  then have skus: "distinct (map vd_sku (concat (map pd_variants ?ps)))"
    unfolding same(2) by (simp add: comp_def variant_key_def)
  have finished: "?ps = map (\<lambda>d. fst (finish_draft (csv_has indexOf) (slots_of sc (pd_handle d)) d)) (sc_products sc)"
    and quiet: "\<forall>d \<in> set (sc_products sc). snd (finish_draft (csv_has indexOf) (slots_of sc (pd_handle d)) d) = []"
    using f by (auto simp: finish_scan_def Let_def comp_def map2_same)
  have "product_ok (fst (finish_draft (csv_has indexOf) (slots_of sc (pd_handle d)) d))" if d: "d \<in> set (sc_products sc)" for d
  proof -
    let ?f = "finish_draft (csv_has indexOf) (slots_of sc (pd_handle d)) d"
    have e: "?f = (fst ?f, [])" using quiet d by (metis prod.collapse)
    have b: "slug_shape (pd_handle d)" "length (pd_handle d) \<le> MAX_SLUG_LENGTH" "list_all draft_bounds (pd_variants d)"
      using ok d by (auto simp: scan_ok_def list_all_iff)
    have "pd_optionNames d = None" using unnamed d by (simp add: unnamed_def)
    from finish_draft_ok[OF e title this] show ?thesis
      unfolding product_ok_def using b by (simp add: finish_draft_keeps)
  qed
  then have "list_all product_ok ?ps" unfolding finished by (simp add: list_all_iff)
  moreover have "distinct (map pd_handle ?ps)" unfolding same(1) using ok by (simp add: scan_ok_def)
  ultimately show ?thesis using skus by blast
qed

text \<open>
  A file that is accepted keeps the limits of the catalog: its products have different handles,
  each a slug; every product has a title and between 1 and 200 variants; option names are distinct and
  no option takes more than 50 values; no two variants of the file share a SKU; every price is a
  representable amount that is not negative and every weight is between 0 and 500 kg.
\<close>
theorem clean_file_within_limits:
  assumes "pc_issues (parseCatalogCsv (header # rows)) = []"
  shows "distinct (map pd_handle (pc_products (parseCatalogCsv (header # rows)))) \<and>
    list_all product_ok (pc_products (parseCatalogCsv (header # rows))) \<and>
    distinct (map vd_sku (concat (map pd_variants (pc_products (parseCatalogCsv (header # rows))))))"
  by (rule clean_file_limits[OF assms])

theorem clean_file_within_limits_witness:
  "list_all product_ok (exported_drafts 2 sample_products)"
  using clean_file_within_limits[of CSV_COLUMNS "concat (map (\<lambda>p. map (sheet_record p) (ep_variants p)) sample_products)"]
  unfolding sample_file_clean by simp

end
