(* ===== verification/Categories.thy ===== *)
theory Categories
  imports Prelude
begin

text \<open>
  Category trees, \<open>packages/core/src/catalog/categories.ts\<close>: the path of a category, whether one lies
  under another, and the ids of a subtree.  The traversals keep an explicit stack and a set of ids
  they have seen.  \<open>buildCategoryTree\<close> sorts with the locale of the runtime and is left out.
\<close>

record category_node =
  cn_id :: uuid
  cn_parentId :: "uuid option"
  cn_title :: string
  cn_position :: int

definition MAX_DEPTH :: nat where "MAX_DEPTH = 32"

text \<open>\<open>new Map(nodes.map((n) => [n.id, n]))\<close>: the last node of an id wins.\<close>

definition node_of :: "category_node list \<Rightarrow> uuid \<Rightarrow> category_node option" where
  "node_of nodes i = find (\<lambda>n. cn_id n = i) (rev nodes)"

fun climb :: "category_node list \<Rightarrow> nat \<Rightarrow> category_node option \<Rightarrow> category_node list \<Rightarrow> category_node list" where
  "climb nodes fuel None path = path"
| "climb nodes 0 (Some n) path = path"
| "climb nodes (Suc fuel) (Some n) path =
    climb nodes fuel (case cn_parentId n of Some p \<Rightarrow> node_of nodes p | None \<Rightarrow> None) (n # path)"

definition categoryPath :: "category_node list \<Rightarrow> uuid \<Rightarrow> category_node list" where
  "categoryPath nodes i = climb nodes MAX_DEPTH (node_of nodes i) []"

definition childrenOf :: "category_node list \<Rightarrow> uuid \<Rightarrow> uuid list" where
  "childrenOf nodes i = map cn_id (filter (\<lambda>n. cn_parentId n = Some i) nodes)"

text \<open>The loops pop from the end of the stack, which is the head of the list here.\<close>

definition parent_ids :: "category_node list \<Rightarrow> uuid set" where
  "parent_ids nodes = {p. \<exists>n \<in> set nodes. cn_parentId n = Some p}"

lemma finite_parent_ids [simp]: "finite (parent_ids nodes)"
proof -
  have "parent_ids nodes \<subseteq> the ` cn_parentId ` set nodes" unfolding parent_ids_def by force
  then show ?thesis by (rule finite_subset) simp
qed

lemma childrenOf_leaf: "i \<notin> parent_ids nodes \<Longrightarrow> childrenOf nodes i = []"
  by (auto simp: childrenOf_def parent_ids_def filter_empty_conv)

lemma unseen_parents_decrease:
  assumes "i \<notin> set seen" "i \<in> parent_ids nodes"
  shows "card (parent_ids nodes - set (i # seen)) < card (parent_ids nodes - set seen)"
  using assms by (intro psubset_card_mono) auto

function search_down :: "category_node list \<Rightarrow> uuid \<Rightarrow> uuid list \<Rightarrow> uuid list \<Rightarrow> bool" where
  "search_down nodes candidate seen [] = False"
| "search_down nodes candidate seen (i # stack) =
    (if i \<in> set seen then search_down nodes candidate seen stack
     else if i = candidate then True
     else search_down nodes candidate (i # seen) (rev (childrenOf nodes i) @ stack))"
  by pat_completeness auto
termination
proof (relation "measures [\<lambda>(nodes, c, seen, stack). card (parent_ids nodes - set seen), \<lambda>(nodes, c, seen, stack). length stack]", goal_cases)
  case (3 nodes c seen i stack)
  show ?case
  proof (cases "i \<in> parent_ids nodes")
    case True
    then show ?thesis using unseen_parents_decrease[OF 3(1) True] by simp
  next
    case False
    then have "parent_ids nodes - set (i # seen) = parent_ids nodes - set seen" by auto
    then show ?thesis using childrenOf_leaf[OF False] by simp
  qed
qed simp_all

definition isDescendant :: "category_node list \<Rightarrow> uuid \<Rightarrow> uuid \<Rightarrow> bool" where
  "isDescendant nodes rootId candidateId \<longleftrightarrow> rootId = candidateId \<or> search_down nodes candidateId [] [rootId]"

function collect_down :: "category_node list \<Rightarrow> uuid list \<Rightarrow> uuid list \<Rightarrow> uuid list" where
  "collect_down nodes out [] = out"
| "collect_down nodes out (i # stack) =
    (if i \<in> set out then collect_down nodes out stack
     else collect_down nodes (out @ [i]) (rev (childrenOf nodes i) @ stack))"
  by pat_completeness auto
termination
proof (relation "measures [\<lambda>(nodes, out, stack). card (parent_ids nodes - set out), \<lambda>(nodes, out, stack). length stack]", goal_cases)
  case (3 nodes out i stack)
  show ?case
  proof (cases "i \<in> parent_ids nodes")
    case True
    then show ?thesis using unseen_parents_decrease[OF 3 True] by simp
  next
    case False
    then have "parent_ids nodes - set (out @ [i]) = parent_ids nodes - set out" by auto
    then show ?thesis using childrenOf_leaf[OF False] by simp
  qed
qed simp_all

text \<open>In \<open>subtreeIds\<close> the ids seen are the ids put out, so one list stands for both.\<close>

definition subtreeIds :: "category_node list \<Rightarrow> uuid \<Rightarrow> uuid list" where
  "subtreeIds nodes rootId = collect_down nodes [] [rootId]"

section \<open>What the traversals reach\<close>

definition child_of :: "category_node list \<Rightarrow> (uuid \<times> uuid) set" where
  "child_of nodes = {(p, i). i \<in> set (childrenOf nodes p)}"

lemma child_of_iff: "(p, i) \<in> child_of nodes \<longleftrightarrow> (\<exists>n \<in> set nodes. cn_id n = i \<and> cn_parentId n = Some p)"
  by (auto simp: child_of_def childrenOf_def)

text \<open>
  The invariant of the loops: from an id that was seen, every step leads to one seen or still on
  the stack.
\<close>

definition frontier :: "category_node list \<Rightarrow> uuid set \<Rightarrow> uuid set \<Rightarrow> bool" where
  "frontier nodes seen stack \<longleftrightarrow> (\<forall>p \<in> seen. \<forall>i. (p, i) \<in> child_of nodes \<longrightarrow> i \<in> seen \<or> i \<in> stack)"

lemma frontier_closed:
  assumes "frontier nodes seen stack" "(x, y) \<in> (child_of nodes)\<^sup>*" "x \<in> seen"
  shows "y \<in> seen \<or> (\<exists>z \<in> stack. (z, y) \<in> (child_of nodes)\<^sup>*)"
  using assms(2,3)
proof (induction rule: converse_rtrancl_induct)
  case (step x z)
  then show ?case using assms(1) unfolding frontier_def by blast
qed blast

lemma search_down_iff:
  "candidate \<notin> set seen \<Longrightarrow> frontier nodes (set seen) (set stack) \<Longrightarrow>
   search_down nodes candidate seen stack \<longleftrightarrow> (\<exists>i \<in> set stack. (i, candidate) \<in> (child_of nodes)\<^sup>*)"
proof (induction nodes candidate seen stack rule: search_down.induct)
  case (2 nodes candidate seen i stack)
  show ?case
  proof (cases "i \<in> set seen")
    case True
    then have f: "frontier nodes (set seen) (set stack)" using 2(4) unfolding frontier_def by auto
    have "\<exists>z \<in> set stack. (z, candidate) \<in> (child_of nodes)\<^sup>*" if "(i, candidate) \<in> (child_of nodes)\<^sup>*"
      using frontier_closed[OF f that True] 2(3) by blast
    then show ?thesis using 2(1)[OF True 2(3) f] True by auto
  next
    case False
    show ?thesis
    proof (cases "i = candidate")
      case True
      then show ?thesis using False by auto
    next
      case ne: False
      have f: "frontier nodes (set (i # seen)) (set (rev (childrenOf nodes i) @ stack))"
        using 2(4) unfolding frontier_def by (auto simp: child_of_def)
      have "(i, candidate) \<in> (child_of nodes)\<^sup>* \<longleftrightarrow> (\<exists>j \<in> set (childrenOf nodes i). (j, candidate) \<in> (child_of nodes)\<^sup>*)"
        using ne by (auto simp: child_of_def elim: converse_rtranclE intro: converse_rtrancl_into_rtrancl)
      moreover have "candidate \<notin> set (i # seen)" using 2(3) ne by simp
      ultimately show ?thesis using 2(2)[OF False ne _ f] False ne by auto
    qed
  qed
qed simp

lemma isDescendant_iff: "isDescendant nodes r c \<longleftrightarrow> (r, c) \<in> (child_of nodes)\<^sup>*"
  unfolding isDescendant_def using search_down_iff[of c "[]" nodes "[r]"] by (auto simp: frontier_def)

lemma collect_down_iff:
  "distinct out \<Longrightarrow> frontier nodes (set out) (set stack) \<Longrightarrow>
   distinct (collect_down nodes out stack) \<and>
   set (collect_down nodes out stack) = set out \<union> {c. \<exists>i \<in> set stack. (i, c) \<in> (child_of nodes)\<^sup>*}"
proof (induction nodes out stack rule: collect_down.induct)
  case (2 nodes out i stack)
  show ?case
  proof (cases "i \<in> set out")
    case True
    then have f: "frontier nodes (set out) (set stack)" using 2(4) unfolding frontier_def by auto
    then show ?thesis using 2(1)[OF True 2(3) f] frontier_closed[OF f _ True] True by auto
  next
    case False
    have f: "frontier nodes (set (out @ [i])) (set (rev (childrenOf nodes i) @ stack))"
      using 2(4) unfolding frontier_def by (auto simp: child_of_def)
    have reach: "(i, c) \<in> (child_of nodes)\<^sup>* \<longleftrightarrow> i = c \<or> (\<exists>j \<in> set (childrenOf nodes i). (j, c) \<in> (child_of nodes)\<^sup>*)" for c
      by (auto simp: child_of_def elim: converse_rtranclE intro: converse_rtrancl_into_rtrancl)
    have "distinct (out @ [i])" using 2(3) False by simp
    from 2(2)[OF False this f] show ?thesis using False reach by auto
  qed
qed auto

text \<open>
  C30.  The traversals end on every category list, a cyclic one included, and are exact: one category
  lies under another when a chain of parents leads there, and the ids of a subtree are those, each once.
\<close>
theorem subtree_traversals_exact:
  "(isDescendant nodes root candidate \<longleftrightarrow> (root, candidate) \<in> {(p, i). \<exists>n \<in> set nodes. cn_id n = i \<and> cn_parentId n = Some p}\<^sup>*) \<and>
   distinct (subtreeIds nodes root) \<and> (candidate \<in> set (subtreeIds nodes root) \<longleftrightarrow> isDescendant nodes root candidate)"
proof -
  have c: "child_of nodes = {(p, i). \<exists>n \<in> set nodes. cn_id n = i \<and> cn_parentId n = Some p}" using child_of_iff by blast
  have "distinct (subtreeIds nodes root) \<and> set (subtreeIds nodes root) = {c. (root, c) \<in> (child_of nodes)\<^sup>*}"
    unfolding subtreeIds_def using collect_down_iff[of "[]" nodes "[root]"] by (simp add: frontier_def)
  then show ?thesis unfolding isDescendant_iff c by blast
qed

section \<open>Moving a branch\<close>

text \<open>A forest: every category has one node, and no chain of parents comes back.\<close>

definition forest :: "category_node list \<Rightarrow> bool" where
  "forest nodes \<longleftrightarrow> distinct (map cn_id nodes) \<and> acyclic (child_of nodes)"

definition reparent :: "uuid \<Rightarrow> uuid option \<Rightarrow> category_node list \<Rightarrow> category_node list" where
  "reparent i parent nodes = upd (\<lambda>n. cn_id n = i) (\<lambda>n. n\<lparr>cn_parentId := parent\<rparr>) nodes"

lemma child_of_reparent:
  "child_of (reparent i parent nodes) \<subseteq> (child_of nodes - {(p, i) | p. True}) \<union> (case parent of Some p \<Rightarrow> {(p, i)} | None \<Rightarrow> {})"
proof
  fix e assume e: "e \<in> child_of (reparent i parent nodes)"
  obtain q j where qj: "e = (q, j)" by fastforce
  then obtain n where n: "n \<in> set (reparent i parent nodes)" "cn_id n = j" "cn_parentId n = Some q"
    using e child_of_iff by auto
  from n(1) obtain m where m: "m \<in> set nodes" "n = (if cn_id m = i then m\<lparr>cn_parentId := parent\<rparr> else m)"
    unfolding reparent_def upd_def by auto
  show "e \<in> (child_of nodes - {(p, i) | p. True}) \<union> (case parent of Some p \<Rightarrow> {(p, i)} | None \<Rightarrow> {})"
  proof (cases "cn_id m = i")
    case True
    then show ?thesis using m(2) n(2,3) qj by simp
  next
    case False
    then have "(q, j) \<in> child_of nodes" "j \<noteq> i" using m n(2,3) child_of_iff by auto
    then show ?thesis using qj by simp
  qed
qed

lemma reparent_forest:
  assumes "forest nodes" "\<forall>p. parent = Some p \<longrightarrow> (i, p) \<notin> (child_of nodes)\<^sup>*"
  shows "forest (reparent i parent nodes)"
proof -
  let ?r = "child_of nodes - {(p, i) | p. True}"
  have ac: "acyclic ?r" using assms(1) by (auto simp: forest_def intro: acyclic_subset)
  have "acyclic (?r \<union> (case parent of Some p \<Rightarrow> {(p, i)} | None \<Rightarrow> {}))"
  proof (cases parent)
    case (Some p)
    have "?r\<^sup>* \<subseteq> (child_of nodes)\<^sup>*" by (rule rtrancl_mono) blast
    then have "(i, p) \<notin> ?r\<^sup>*" using assms(2) Some by blast
    then show ?thesis using ac Some by (simp add: acyclic_insert)
  qed (use ac in simp)
  then have "acyclic (child_of (reparent i parent nodes))" using child_of_reparent by (rule acyclic_subset)
  moreover have "distinct (map cn_id (reparent i parent nodes))"
    using assms(1) by (simp add: forest_def reparent_def map_upd)
  ultimately show ?thesis by (simp add: forest_def)
qed

end
