(* ===== verification/CatalogWrites.thy ===== *)
theory CatalogWrites
  imports Store Slug Options Categories
begin

text \<open>
  Catalog authoring, \<open>packages/core/src/catalog/writes.ts\<close>, over the catalog tables of one tenant.
  Row-level security hides the other tenants' rows, so the \<open>tenant_id\<close> columns and the tenant
  predicates are left out, and so are the columns that only book-keep (\<open>created_at\<close>, \<open>updated_at\<close>,
  \<open>created_by\<close>, \<open>updated_by\<close>) and the purge of the storefront cache.  The HTML sanitiser is a
  parameter.
\<close>

section \<open>Tables\<close>

record seo_data =
  seo_title :: "string option"
  seo_description :: "string option"
  seo_noindex :: bool

record catalog_product =
  cp_id :: uuid
  cp_title :: string
  cp_summary :: "string option"
  cp_description :: "string option"
  cp_status :: product_status
  cp_productType :: "string option"
  cp_vendor :: "string option"
  cp_tags :: "string list"
  cp_hsnCode :: "string option"
  cp_taxRateBps :: "int option"
  cp_seo :: seo_data
  cp_publishedAt :: "millis option"
  cp_deletedAt :: "millis option"

record catalog_variant =
  cv_id :: uuid
  cv_productId :: uuid
  cv_sku :: string
  cv_barcode :: "string option"
  cv_options :: option_selection
  cv_pricePaise :: paise
  cv_compareAtPaise :: "paise option"
  cv_costPaise :: "paise option"
  cv_weightGrams :: int
  cv_lowStockAt :: "int option"
  cv_tracksInventory :: bool
  cv_imageMediaId :: "uuid option"
  cv_isActive :: bool
  cv_position :: nat
  cv_deletedAt :: "millis option"

text \<open>An option with its values in order; the values cascade with their option.\<close>

record option_row =
  op_id :: uuid
  op_productId :: uuid
  op_name :: string
  op_position :: nat
  op_values :: "string list"

record member_row =
  mb_productId :: uuid
  mb_memberId :: uuid
  mb_position :: nat

record media_row =
  me_id :: uuid
  me_alt :: "string option"
  me_deletedAt :: "millis option"

record taxonomy_row =
  tx_id :: uuid
  tx_parentId :: "uuid option"
  tx_title :: string
  tx_description :: "string option"
  tx_position :: int
  tx_isVisible :: bool
  tx_seo :: seo_data
  tx_deletedAt :: "millis option"

record catalog_db =
  cdb_now :: millis
  cdb_uuidv7 :: "nat \<Rightarrow> uuid"
  cdb_drawn :: nat
  cdb_products :: "catalog_product list"
  cdb_variants :: "catalog_variant list"
  cdb_options :: "option_row list"
  cdb_productCategories :: "member_row list"
  cdb_productCollections :: "member_row list"
  cdb_productMedia :: "member_row list"
  cdb_media :: "media_row list"
  cdb_categories :: "taxonomy_row list"
  cdb_collections :: "taxonomy_row list"
  cdb_urlSlugs :: "slug_row list"
  cdb_audit :: "audit_row list"

type_synonym 'a ctx = "(catalog_db, 'a) tx"
type_synonym 'a caction = "(catalog_db, 'a) action"

definition new_catalog_id :: "uuid ctx" where
  "new_catalog_id = (\<lambda>db. Inr (cdb_uuidv7 db (cdb_drawn db), db\<lparr>cdb_drawn := Suc (cdb_drawn db)\<rparr>))"

definition audit_catalog :: "uuid \<Rightarrow> string \<Rightarrow> string \<Rightarrow> uuid \<Rightarrow> json \<Rightarrow> json \<Rightarrow> unit ctx" where
  "audit_catalog actor action entityType entityId before after = twrite (\<lambda>db. db\<lparr>cdb_audit := cdb_audit db @
     [\<lparr>au_actorType = staff, au_actorUserId = Some actor, au_action = action, au_entityType = entityType,
       au_entityId = Some entityId, au_before = before, au_after = after\<rparr>]\<rparr>)"

section \<open>Errors\<close>

definition CatalogValidationError :: "string list \<Rightarrow> err" where
  "CatalogValidationError paths = AppError ''catalog_invalid'' 422 paths"

definition ProductNotFoundError :: err where "ProductNotFoundError = AppError ''not_found'' 404 []"
definition TaxonomyNotFoundError :: err where "TaxonomyNotFoundError = AppError ''not_found'' 404 []"

section \<open>Payloads\<close>

record variant_input =
  vi_id :: "uuid option"
  vi_sku :: string
  vi_barcode :: "string option"
  vi_options :: option_selection
  vi_pricePaise :: paise
  vi_compareAtPaise :: "paise option"
  vi_costPaise :: "paise option"
  vi_weightGrams :: int
  vi_lowStockAt :: "int option"
  vi_tracksInventory :: bool
  vi_imageMediaId :: "uuid option"
  vi_isActive :: bool

record product_input =
  pi_title :: string
  pi_slug :: "string option"
  pi_summary :: "string option"
  pi_description :: "string option"
  pi_status :: product_status
  pi_productType :: "string option"
  pi_vendor :: "string option"
  pi_tags :: "string list"
  pi_hsnCode :: "string option"
  pi_taxRateBps :: "int option"
  pi_seo :: seo_data
  pi_axes :: "option_axis list"
  pi_variants :: "variant_input list"
  pi_categoryIds :: "uuid list"
  pi_collectionIds :: "uuid list"
  pi_media :: "(uuid \<times> string option) list"

record product_result =
  rs_productId :: uuid
  rs_slug :: string
  rs_previousSlug :: "string option"

definition desired_slug :: "string option \<Rightarrow> string \<Rightarrow> string" where
  "desired_slug slug title' = (case slug of Some s \<Rightarrow> if trim s \<noteq> [] then trim s else title' | None \<Rightarrow> title')"

definition cleanDescription :: "(string \<Rightarrow> string) \<Rightarrow> string option \<Rightarrow> string option" where
  "cleanDescription sanitize raw = (case raw of None \<Rightarrow> None | Some r \<Rightarrow> if sanitize r = [] then None else Some (sanitize r))"

definition cleanSeo :: "seo_data \<Rightarrow> seo_data" where
  "cleanSeo seo = \<lparr>seo_title = trim_or_null (seo_title seo), seo_description = trim_or_null (seo_description seo), seo_noindex = seo_noindex seo\<rparr>"

section \<open>Slug history\<close>

definition canonical_slug :: "slug_row list \<Rightarrow> string \<Rightarrow> uuid \<Rightarrow> string option" where
  "canonical_slug rows entityType entityId =
    map_option sr_slug (find (\<lambda>r. sr_entityType r = entityType \<and> sr_entityId r = entityId \<and> sr_isCanonical r) rows)"

text \<open>Taken means taken by another entity.\<close>

definition slug_taken :: "slug_row list \<Rightarrow> uuid \<Rightarrow> string \<Rightarrow> bool" where
  "slug_taken rows entityId candidate =
    (case find (\<lambda>r. sr_slug r = candidate) rows of Some r \<Rightarrow> sr_entityId r \<noteq> entityId | None \<Rightarrow> False)"

definition demote :: "string \<Rightarrow> uuid \<Rightarrow> slug_row list \<Rightarrow> slug_row list" where
  "demote entityType entityId rows =
    upd (\<lambda>r. sr_entityType r = entityType \<and> sr_entityId r = entityId \<and> sr_isCanonical r) (\<lambda>r. r\<lparr>sr_isCanonical := False\<rparr>) rows"

definition has_canonical :: "string \<Rightarrow> uuid \<Rightarrow> slug_row list \<Rightarrow> bool" where
  "has_canonical entityType entityId rows \<longleftrightarrow>
    list_ex (\<lambda>r. sr_entityType r = entityType \<and> sr_entityId r = entityId \<and> sr_isCanonical r) rows"

text \<open>
  \<open>INSERT .. ON CONFLICT (slug) DO UPDATE SET is_canonical = true WHERE entity_id = ..\<close>, answering
  whether a row came back; the partial unique index allows one canonical row per entity.
\<close>

definition promote :: "string \<Rightarrow> string \<Rightarrow> uuid \<Rightarrow> slug_row list \<Rightarrow> (bool \<times> slug_row list) res" where
  "promote slug entityType entityId rows =
    (case find (\<lambda>r. sr_slug r = slug) rows of
       None \<Rightarrow>
         if has_canonical entityType entityId rows then Inl (uniqueViolation ''url_slugs_one_canonical_key'')
         else Inr (True, rows @ [\<lparr>sr_slug = slug, sr_entityType = entityType, sr_entityId = entityId, sr_isCanonical = True\<rparr>])
     | Some r \<Rightarrow>
         if sr_entityId r \<noteq> entityId then Inr (False, rows)
         else if has_canonical (sr_entityType r) entityId (filter (\<lambda>q. sr_slug q \<noteq> slug) rows)
           then Inl (uniqueViolation ''url_slugs_one_canonical_key'')
         else Inr (True, upd (\<lambda>q. sr_slug q = slug) (\<lambda>q. q\<lparr>sr_isCanonical := True\<rparr>) rows))"

definition set_canonical :: "string \<Rightarrow> uuid \<Rightarrow> string \<Rightarrow> slug_row list \<Rightarrow> ((string \<times> string option) \<times> slug_row list) res" where
  "set_canonical entityType entityId desired rows =
    (let current = canonical_slug rows entityType entityId; base = slugify (Some ''item'') desired in
     case availableSlug (slug_taken rows entityId) 100 base of
       None \<Rightarrow> Inl (JsError ''no free slug'')
     | Some slug \<Rightarrow>
         if current = Some slug then Inr ((slug, None), rows)
         else rbind (promote slug entityType entityId (demote entityType entityId rows)) (\<lambda>(promoted, rows').
           if promoted then Inr ((slug, current), rows') else Inl (CatalogValidationError [''slug''])))"

definition setCanonicalSlug :: "string \<Rightarrow> uuid \<Rightarrow> string \<Rightarrow> (string \<times> string option) ctx" where
  "setCanonicalSlug entityType entityId desired =
    (\<lambda>db. case set_canonical entityType entityId desired (cdb_urlSlugs db) of
            Inl e \<Rightarrow> Inl e
          | Inr (answer, rows) \<Rightarrow> Inr (answer, db\<lparr>cdb_urlSlugs := rows\<rparr>))"

section \<open>Validation\<close>

definition assertVisible :: "uuid list \<Rightarrow> uuid list \<Rightarrow> string \<Rightarrow> unit ctx" where
  "assertVisible found requested path =
    (let missing = filter (\<lambda>i. i \<notin> set found) requested
     in tguard (missing = []) (CatalogValidationError (map (\<lambda>_. path) missing)))"

definition assertMediaVisible :: "uuid list \<Rightarrow> unit ctx" where
  "assertMediaVisible ids =
    (if ids = [] then treturn ()
     else tbind (tread (\<lambda>db. map me_id (filter (\<lambda>m. me_id m \<in> set ids \<and> me_deletedAt m = None) (cdb_media db))))
       (\<lambda>rows. assertVisible rows ids ''media''))"

definition live_taxonomy :: "taxonomy_row list \<Rightarrow> uuid list \<Rightarrow> uuid list" where
  "live_taxonomy rows ids = map tx_id (filter (\<lambda>t. tx_id t \<in> set ids \<and> tx_deletedAt t = None) rows)"

definition assertTaxonomyVisible :: "uuid list \<Rightarrow> uuid list \<Rightarrow> unit ctx" where
  "assertTaxonomyVisible categoryIds collectionIds =
    tbind (if categoryIds = [] then treturn ()
           else tbind (tread (\<lambda>db. live_taxonomy (cdb_categories db) categoryIds)) (\<lambda>rows. assertVisible rows categoryIds ''categoryIds''))
      (\<lambda>_. if collectionIds = [] then treturn ()
           else tbind (tread (\<lambda>db. live_taxonomy (cdb_collections db) collectionIds)) (\<lambda>rows. assertVisible rows collectionIds ''collectionIds''))"

definition variant_path :: "nat \<Rightarrow> string" where
  "variant_path i = ''variants.'' @ show_nat i"

definition matrixIssues :: "product_input \<Rightarrow> string list" where
  "matrixIssues inp =
    map (\<lambda>issue. case mi_variantIndex issue of None \<Rightarrow> ''axes'' | Some i \<Rightarrow> variant_path i)
      (validateVariantMatrix (pi_axes inp) (map vi_options (pi_variants inp)))"

text \<open>The first index of each SKU of the payload, and the indexes where a SKU comes again.\<close>

fun sku_indexes :: "nat \<Rightarrow> string list \<Rightarrow> (string \<times> nat) list \<Rightarrow> (string \<times> nat) list \<times> nat list" where
  "sku_indexes i [] seen = (seen, [])"
| "sku_indexes i (sku # skus) seen =
    (case map_of seen sku of
       Some _ \<Rightarrow> (let (seen', twice) = sku_indexes (i + 1) skus seen in (seen', i # twice))
     | None \<Rightarrow> sku_indexes (i + 1) skus (seen @ [(sku, i)]))"

definition sku_path :: "nat \<Rightarrow> string" where
  "sku_path i = variant_path i @ ''.sku''"

definition skuIssues :: "uuid option \<Rightarrow> variant_input list \<Rightarrow> string list ctx" where
  "skuIssues productId variants =
    (let (seen, twice) = sku_indexes 0 (map vi_sku variants) [] in
     if seen = [] then treturn (map sku_path twice)
     else tbind (tread (\<lambda>db. map cv_sku (filter (\<lambda>v. cv_sku v \<in> fst ` set seen \<and> cv_deletedAt v = None \<and>
                                   (case productId of None \<Rightarrow> True | Some p \<Rightarrow> cv_productId v \<noteq> p)) (cdb_variants db))))
       (\<lambda>clashes. treturn (map sku_path twice @ List.map_filter (\<lambda>sku. map_option sku_path (map_of seen sku)) clashes)))"

section \<open>Child rows\<close>

definition insert_option :: "uuid \<Rightarrow> nat \<times> option_axis \<Rightarrow> unit ctx" where
  "insert_option productId entry =
    (case entry of (position, axis) \<Rightarrow>
     tbind new_catalog_id (\<lambda>i.
     tbind (tread cdb_options) (\<lambda>rows.
     tbind (tguard (\<not> list_ex (\<lambda>r. op_productId r = productId \<and> op_name r = ax_name axis) rows)
                   (uniqueViolation ''product_options_product_name_key'')) (\<lambda>_.
     tbind (tguard (distinct (ax_values axis)) (uniqueViolation ''product_option_values_key'')) (\<lambda>_.
     twrite (\<lambda>db. db\<lparr>cdb_options := cdb_options db @
       [\<lparr>op_id = i, op_productId = productId, op_name = ax_name axis, op_position = position, op_values = ax_values axis\<rparr>]\<rparr>))))))"

definition writeOptions :: "uuid \<Rightarrow> option_axis list \<Rightarrow> unit ctx" where
  "writeOptions productId axes =
    tbind (twrite (\<lambda>db. db\<lparr>cdb_options := filter (\<lambda>r. op_productId r \<noteq> productId) (cdb_options db)\<rparr>)) (\<lambda>_.
    tbind (tfor (enumerate 0 axes) (insert_option productId)) (\<lambda>_. treturn ()))"

text \<open>The two passes that settle which existing row each submitted variant edits.\<close>

fun claim_ids :: "uuid set \<Rightarrow> uuid set \<Rightarrow> variant_input list \<Rightarrow> uuid option list \<times> uuid set" where
  "claim_ids own claimed [] = ([], claimed)"
| "claim_ids own claimed (v # vs) =
    (case vi_id v of
       Some i \<Rightarrow>
         if i \<in> own \<and> i \<notin> claimed then (let (ts, c) = claim_ids own (insert i claimed) vs in (Some i # ts, c))
         else (let (ts, c) = claim_ids own claimed vs in (None # ts, c))
     | None \<Rightarrow> (let (ts, c) = claim_ids own claimed vs in (None # ts, c)))"

fun claim_skus :: "(string \<Rightarrow> uuid option) \<Rightarrow> uuid set \<Rightarrow> variant_input list \<Rightarrow> uuid option list \<Rightarrow> uuid option list" where
  "claim_skus bySku claimed (v # vs) (Some i # ts) = Some i # claim_skus bySku claimed vs ts"
| "claim_skus bySku claimed (v # vs) (None # ts) =
    (case bySku (vi_sku v) of
       Some i \<Rightarrow>
         if i \<notin> claimed then Some i # claim_skus bySku (insert i claimed) vs ts else None # claim_skus bySku claimed vs ts
     | None \<Rightarrow> None # claim_skus bySku claimed vs ts)"
| "claim_skus bySku claimed _ _ = []"

definition variant_targets :: "catalog_variant list \<Rightarrow> variant_input list \<Rightarrow> uuid option list" where
  "variant_targets live' variants =
    (let (targets, claimed) = claim_ids (cv_id ` set live') {} variants
     in claim_skus (map_of (rev (map (\<lambda>v. (cv_sku v, cv_id v)) live'))) claimed variants targets)"

definition DEFAULT_LOW_STOCK_AT :: int where "DEFAULT_LOW_STOCK_AT = 2"

definition variant_columns :: "uuid \<Rightarrow> uuid \<Rightarrow> nat \<Rightarrow> variant_input \<Rightarrow> catalog_variant" where
  "variant_columns i productId position v =
    \<lparr>cv_id = i, cv_productId = productId, cv_sku = vi_sku v, cv_barcode = vi_barcode v, cv_options = vi_options v,
     cv_pricePaise = vi_pricePaise v, cv_compareAtPaise = vi_compareAtPaise v, cv_costPaise = vi_costPaise v,
     cv_weightGrams = vi_weightGrams v,
     cv_lowStockAt = (if vi_tracksInventory v \<and> vi_lowStockAt v = None then Some DEFAULT_LOW_STOCK_AT else vi_lowStockAt v),
     cv_tracksInventory = vi_tracksInventory v, cv_imageMediaId = vi_imageMediaId v, cv_isActive = vi_isActive v,
     cv_position = position, cv_deletedAt = None\<rparr>"

text \<open>The unique indexes over the live rows, other than the row written, and the CHECK constraints.\<close>

definition variant_constraints :: "catalog_variant \<Rightarrow> catalog_variant list \<Rightarrow> unit res" where
  "variant_constraints row rows =
    (let others = filter (\<lambda>v. cv_id v \<noteq> cv_id row \<and> cv_deletedAt v = None) rows in
     if cv_pricePaise row < 0 then Inl (checkViolation ''product_variants_price_check'')
     else if (case cv_compareAtPaise row of Some c \<Rightarrow> c < 0 | None \<Rightarrow> False) then Inl (checkViolation ''product_variants_compare_at_check'')
     else if cv_weightGrams row < 0 then Inl (checkViolation ''product_variants_weight_check'')
     else if list_ex (\<lambda>v. cv_sku v = cv_sku row) others then Inl (uniqueViolation ''product_variants_tenant_sku_key'')
     else if list_ex (\<lambda>v. cv_productId v = cv_productId row \<and> set (cv_options v) = set (cv_options row)) others
       then Inl (uniqueViolation ''product_variants_option_combo_key'')
     else Inr ())"

definition write_variant :: "uuid \<Rightarrow> nat \<times> variant_input \<times> uuid option \<Rightarrow> unit ctx" where
  "write_variant productId entry =
    (case entry of (position, v, target) \<Rightarrow>
     case target of
       Some i \<Rightarrow>
         tbind (tread cdb_variants) (\<lambda>rows.
         case find (\<lambda>r. cv_id r = i) rows of
           None \<Rightarrow> treturn ()
         | Some r \<Rightarrow>
             tbind (tlift (variant_constraints (variant_columns i (cv_productId r) position v) rows)) (\<lambda>_.
             twrite (\<lambda>db. db\<lparr>cdb_variants := upd (\<lambda>r. cv_id r = i) (\<lambda>_. variant_columns i (cv_productId r) position v) (cdb_variants db)\<rparr>)))
     | None \<Rightarrow>
         tbind new_catalog_id (\<lambda>i.
         tbind (tread cdb_variants) (\<lambda>rows.
         tbind (tguard (\<not> list_ex (\<lambda>r. cv_id r = i) rows) (uniqueViolation ''product_variants_pkey'')) (\<lambda>_.
         tbind (tlift (variant_constraints (variant_columns i productId position v) rows)) (\<lambda>_.
         twrite (\<lambda>db. db\<lparr>cdb_variants := cdb_variants db @ [variant_columns i productId position v]\<rparr>))))))"

definition writeVariants :: "uuid \<Rightarrow> variant_input list \<Rightarrow> unit ctx" where
  "writeVariants productId variants =
    tbind (tread (\<lambda>db. filter (\<lambda>v. cv_productId v = productId \<and> cv_deletedAt v = None) (cdb_variants db))) (\<lambda>live'.
    tbind (twrite (\<lambda>db. db\<lparr>cdb_variants := upd (\<lambda>v. cv_productId v = productId \<and> cv_deletedAt v = None)
                                          (\<lambda>v. v\<lparr>cv_deletedAt := Some (cdb_now db)\<rparr>) (cdb_variants db)\<rparr>)) (\<lambda>_.
    tbind (tfor (enumerate 0 (zip variants (variant_targets live' variants))) (write_variant productId)) (\<lambda>_. treturn ())))"

definition members :: "uuid \<Rightarrow> uuid list \<Rightarrow> member_row list" where
  "members productId ids =
    map (\<lambda>(position, i). \<lparr>mb_productId = productId, mb_memberId = i, mb_position = position\<rparr>) (enumerate 0 ids)"

definition replace_members :: "uuid \<Rightarrow> uuid list \<Rightarrow> member_row list \<Rightarrow> member_row list" where
  "replace_members productId ids rows = filter (\<lambda>r. mb_productId r \<noteq> productId) rows @ members productId ids"

definition writeMembership :: "uuid \<Rightarrow> uuid list \<Rightarrow> uuid list \<Rightarrow> unit ctx" where
  "writeMembership productId categoryIds collectionIds =
    twrite (\<lambda>db. db\<lparr>cdb_productCategories := replace_members productId (js_unique categoryIds) (cdb_productCategories db),
                   cdb_productCollections := replace_members productId (js_unique collectionIds) (cdb_productCollections db)\<rparr>)"

text \<open>The first occurrence of an image wins.\<close>

fun first_of_each :: "uuid list \<Rightarrow> (uuid \<times> 'a) list \<Rightarrow> (uuid \<times> 'a) list" where
  "first_of_each seen [] = []"
| "first_of_each seen ((i, a) # items) =
    (if i \<in> set seen then first_of_each seen items else (i, a) # first_of_each (i # seen) items)"

definition writeGallery :: "uuid \<Rightarrow> (uuid \<times> string option) list \<Rightarrow> unit ctx" where
  "writeGallery productId items =
    (let items' = first_of_each [] items in
     twrite (\<lambda>db. db\<lparr>cdb_productMedia := replace_members productId (map fst items') (cdb_productMedia db),
       cdb_media := foldl (\<lambda>rows (i, alt). case alt of None \<Rightarrow> rows | Some a \<Rightarrow> upd (\<lambda>m. me_id m = i) (\<lambda>m. m\<lparr>me_alt := Some a\<rparr>) rows)
                     (cdb_media db) items'\<rparr>))"

definition referencedMediaIds :: "product_input \<Rightarrow> uuid list" where
  "referencedMediaIds inp =
    js_unique (map fst (pi_media inp) @ List.map_filter vi_imageMediaId (pi_variants inp))"

section \<open>Products\<close>

definition product_status_text :: "product_status \<Rightarrow> string" where
  "product_status_text st = (case st of product_draft \<Rightarrow> ''draft'' | product_active \<Rightarrow> ''active'' | product_archived \<Rightarrow> ''archived'')"

definition json_ids :: "uuid list \<Rightarrow> json" where
  "json_ids ids = JArray (map (\<lambda>i. JNumber (int i)) ids)"

definition product_snapshot :: "string \<Rightarrow> string option \<Rightarrow> product_status \<Rightarrow> nat \<Rightarrow> uuid list \<Rightarrow> uuid list \<Rightarrow> json" where
  "product_snapshot title' slug st n categoryIds collectionIds =
    JObject [(''title'', JString title'), (''slug'', case slug of Some s \<Rightarrow> JString s | None \<Rightarrow> JNull),
      (''status'', JString (product_status_text st)), (''variantCount'', JNumber (int n)),
      (''categoryIds'', json_ids categoryIds), (''collectionIds'', json_ids collectionIds)]"

definition snapshotOf :: "product_input \<Rightarrow> string \<Rightarrow> json" where
  "snapshotOf inp slug =
    product_snapshot (pi_title inp) (Some slug) (pi_status inp) (length (pi_variants inp)) (pi_categoryIds inp) (pi_collectionIds inp)"

definition snapshotProduct :: "uuid \<Rightarrow> string \<Rightarrow> product_status \<Rightarrow> json ctx" where
  "snapshotProduct productId title' st =
    tread (\<lambda>db. product_snapshot title' (canonical_slug (cdb_urlSlugs db) ''product'' productId) st
      (length (filter (\<lambda>v. cv_productId v = productId \<and> cv_deletedAt v = None) (cdb_variants db)))
      (map mb_memberId (filter (\<lambda>r. mb_productId r = productId) (cdb_productCategories db)))
      (map mb_memberId (filter (\<lambda>r. mb_productId r = productId) (cdb_productCollections db))))"

text \<open>The columns of a product row the payload sets.\<close>

definition product_columns :: "(string \<Rightarrow> string) \<Rightarrow> product_input \<Rightarrow> uuid \<Rightarrow> millis option \<Rightarrow> millis option \<Rightarrow> catalog_product" where
  "product_columns sanitize inp i publishedAt deletedAt =
    \<lparr>cp_id = i, cp_title = pi_title inp, cp_summary = pi_summary inp, cp_description = cleanDescription sanitize (pi_description inp),
     cp_status = pi_status inp, cp_productType = pi_productType inp, cp_vendor = pi_vendor inp, cp_tags = pi_tags inp,
     cp_hsnCode = pi_hsnCode inp, cp_taxRateBps = pi_taxRateBps inp, cp_seo = cleanSeo (pi_seo inp),
     cp_publishedAt = publishedAt, cp_deletedAt = deletedAt\<rparr>"

definition tax_rate_ok :: "int option \<Rightarrow> bool" where
  "tax_rate_ok r = (case r of None \<Rightarrow> True | Some bps \<Rightarrow> 0 \<le> bps \<and> bps \<le> 10000)"

text \<open>What both product writes check, and the rows they write below the product row.\<close>

definition check_product :: "uuid option \<Rightarrow> product_input \<Rightarrow> unit ctx" where
  "check_product productId inp =
    tbind (skuIssues productId (pi_variants inp)) (\<lambda>skus.
    tbind (tguard (matrixIssues inp @ skus = []) (CatalogValidationError (matrixIssues inp @ skus))) (\<lambda>_.
    tbind (assertMediaVisible (referencedMediaIds inp)) (\<lambda>_.
    assertTaxonomyVisible (pi_categoryIds inp) (pi_collectionIds inp))))"

definition write_children :: "uuid \<Rightarrow> product_input \<Rightarrow> unit ctx" where
  "write_children productId inp =
    tbind (writeOptions productId (pi_axes inp)) (\<lambda>_.
    tbind (writeVariants productId (pi_variants inp)) (\<lambda>_.
    tbind (writeMembership productId (pi_categoryIds inp) (pi_collectionIds inp)) (\<lambda>_.
    writeGallery productId (pi_media inp))))"

definition createProductInTx :: "(string \<Rightarrow> string) \<Rightarrow> uuid \<Rightarrow> product_input \<Rightarrow> product_result ctx" where
  "createProductInTx sanitize actor inp =
    tbind (check_product None inp) (\<lambda>_.
    tbind new_catalog_id (\<lambda>productId.
    tbind (tread id) (\<lambda>db.
    tbind (tguard (\<not> list_ex (\<lambda>p. cp_id p = productId) (cdb_products db)) (uniqueViolation ''products_pkey'')) (\<lambda>_.
    tbind (tguard (tax_rate_ok (pi_taxRateBps inp)) (checkViolation ''products_tax_rate_check'')) (\<lambda>_.
    tbind (twrite (\<lambda>db. db\<lparr>cdb_products := cdb_products db @
       [product_columns sanitize inp productId (if pi_status inp = product_active then Some (cdb_now db) else None) None]\<rparr>)) (\<lambda>_.
    tbind (setCanonicalSlug ''product'' productId (desired_slug (pi_slug inp) (pi_title inp))) (\<lambda>(slug, _).
    tbind (write_children productId inp) (\<lambda>_.
    tbind (audit_catalog actor ''product.created'' ''product'' productId JNull (snapshotOf inp slug)) (\<lambda>_.
    treturn \<lparr>rs_productId = productId, rs_slug = slug, rs_previousSlug = None\<rparr>)))))))))"

definition updateProductInTx :: "(string \<Rightarrow> string) \<Rightarrow> uuid \<Rightarrow> uuid \<Rightarrow> product_input \<Rightarrow> product_result ctx" where
  "updateProductInTx sanitize actor productId inp =
    tbind (tread (\<lambda>db. find (\<lambda>p. cp_id p = productId \<and> cp_deletedAt p = None) (cdb_products db))) (\<lambda>found.
    case found of
      None \<Rightarrow> tthrow ProductNotFoundError
    | Some existing \<Rightarrow>
        tbind (check_product (Some productId) inp) (\<lambda>_.
        tbind (snapshotProduct productId (cp_title existing) (cp_status existing)) (\<lambda>before.
        tbind (tguard (tax_rate_ok (pi_taxRateBps inp)) (checkViolation ''products_tax_rate_check'')) (\<lambda>_.
        tbind (twrite (\<lambda>db. db\<lparr>cdb_products := upd (\<lambda>p. cp_id p = productId)
           (\<lambda>p. product_columns sanitize inp productId
                  (case cp_publishedAt existing of Some t \<Rightarrow> Some t | None \<Rightarrow> if pi_status inp = product_active then Some (cdb_now db) else None)
                  (cp_deletedAt p)) (cdb_products db)\<rparr>)) (\<lambda>_.
        tbind (setCanonicalSlug ''product'' productId (desired_slug (pi_slug inp) (pi_title inp))) (\<lambda>(slug, previous).
        tbind (write_children productId inp) (\<lambda>_.
        tbind (audit_catalog actor (if previous = None then ''product.updated'' else ''product.slug_changed'') ''product'' productId
                 before (snapshotOf inp slug)) (\<lambda>_.
        treturn \<lparr>rs_productId = productId, rs_slug = slug, rs_previousSlug = previous\<rparr>))))))))"

definition createProduct :: "(string \<Rightarrow> string) \<Rightarrow> uuid \<Rightarrow> product_input \<Rightarrow> product_result caction" where
  "createProduct sanitize actor inp = commit (createProductInTx sanitize actor inp)"

definition updateProduct :: "(string \<Rightarrow> string) \<Rightarrow> uuid \<Rightarrow> uuid \<Rightarrow> product_input \<Rightarrow> product_result caction" where
  "updateProduct sanitize actor productId inp = commit (updateProductInTx sanitize actor productId inp)"

section \<open>Categories and collections\<close>

record taxonomy_input =
  ti_title :: string
  ti_slug :: "string option"
  ti_description :: "string option"
  ti_parentId :: "uuid option"
  ti_position :: int
  ti_isVisible :: bool
  ti_seo :: seo_data

record taxonomy_result =
  tr_id :: uuid
  tr_slug :: string
  tr_previousSlug :: "string option"

definition taxonomy_json :: "string \<Rightarrow> string option \<Rightarrow> bool \<Rightarrow> json" where
  "taxonomy_json title' slug visible =
    JObject [(''title'', JString title'), (''slug'', case slug of Some s \<Rightarrow> JString s | None \<Rightarrow> JNull), (''isVisible'', JBool visible)]"

definition taxonomy_columns :: "(string \<Rightarrow> string) \<Rightarrow> taxonomy_input \<Rightarrow> uuid \<Rightarrow> uuid option \<Rightarrow> millis option \<Rightarrow> taxonomy_row" where
  "taxonomy_columns sanitize inp i parent deletedAt =
    \<lparr>tx_id = i, tx_parentId = parent, tx_title = ti_title inp, tx_description = cleanDescription sanitize (ti_description inp),
     tx_position = ti_position inp, tx_isVisible = ti_isVisible inp, tx_seo = cleanSeo (ti_seo inp), tx_deletedAt = deletedAt\<rparr>"

definition assertCategoryExists :: "uuid \<Rightarrow> unit ctx" where
  "assertCategoryExists i =
    tbind (tread (\<lambda>db. find (\<lambda>t. tx_id t = i \<and> tx_deletedAt t = None) (cdb_categories db))) (\<lambda>found.
    tguard (found \<noteq> None) (CatalogValidationError [''parentId'']))"

definition category_nodes :: "taxonomy_row list \<Rightarrow> category_node list" where
  "category_nodes rows =
    map (\<lambda>t. \<lparr>cn_id = tx_id t, cn_parentId = tx_parentId t, cn_title = tx_title t, cn_position = tx_position t\<rparr>)
      (filter (\<lambda>t. tx_deletedAt t = None) rows)"

definition resolveParent :: "uuid \<Rightarrow> uuid option \<Rightarrow> uuid option ctx" where
  "resolveParent categoryId parentId =
    (case parentId of
       None \<Rightarrow> treturn None
     | Some p \<Rightarrow>
         tbind (assertCategoryExists p) (\<lambda>_.
         tbind (tread (\<lambda>db. category_nodes (cdb_categories db))) (\<lambda>nodes.
         tbind (tguard (\<not> isDescendant nodes categoryId p) (CatalogValidationError [''parentId''])) (\<lambda>_.
         treturn (Some p)))))"

text \<open>\<open>categories_parent_not_self_check\<close>.\<close>

definition not_own_parent :: "uuid \<Rightarrow> uuid option \<Rightarrow> unit ctx" where
  "not_own_parent i parent = tguard (parent \<noteq> Some i) (checkViolation ''categories_parent_not_self_check'')"

definition createCategory :: "(string \<Rightarrow> string) \<Rightarrow> uuid \<Rightarrow> taxonomy_input \<Rightarrow> taxonomy_result caction" where
  "createCategory sanitize actor inp = commit (
    tbind (case ti_parentId inp of None \<Rightarrow> treturn () | Some p \<Rightarrow> assertCategoryExists p) (\<lambda>_.
    tbind new_catalog_id (\<lambda>i.
    tbind (tread cdb_categories) (\<lambda>rows.
    tbind (tguard (\<not> list_ex (\<lambda>t. tx_id t = i) rows) (uniqueViolation ''categories_pkey'')) (\<lambda>_.
    tbind (not_own_parent i (ti_parentId inp)) (\<lambda>_.
    tbind (twrite (\<lambda>db. db\<lparr>cdb_categories := cdb_categories db @ [taxonomy_columns sanitize inp i (ti_parentId inp) None]\<rparr>)) (\<lambda>_.
    tbind (setCanonicalSlug ''category'' i (desired_slug (ti_slug inp) (ti_title inp))) (\<lambda>(slug, _).
    tbind (audit_catalog actor ''category.created'' ''category'' i JNull (taxonomy_json (ti_title inp) (Some slug) (ti_isVisible inp))) (\<lambda>_.
    treturn \<lparr>tr_id = i, tr_slug = slug, tr_previousSlug = None\<rparr>)))))))))"

definition updateCategory :: "(string \<Rightarrow> string) \<Rightarrow> uuid \<Rightarrow> uuid \<Rightarrow> taxonomy_input \<Rightarrow> taxonomy_result caction" where
  "updateCategory sanitize actor categoryId inp = commit (
    tbind (tread (\<lambda>db. find (\<lambda>t. tx_id t = categoryId \<and> tx_deletedAt t = None) (cdb_categories db))) (\<lambda>found.
    case found of
      None \<Rightarrow> tthrow TaxonomyNotFoundError
    | Some existing \<Rightarrow>
        tbind (resolveParent categoryId (ti_parentId inp)) (\<lambda>parentId.
        tbind (not_own_parent categoryId parentId) (\<lambda>_.
        tbind (twrite (\<lambda>db. db\<lparr>cdb_categories := upd (\<lambda>t. tx_id t = categoryId)
          (\<lambda>t. taxonomy_columns sanitize inp categoryId parentId (tx_deletedAt t)) (cdb_categories db)\<rparr>)) (\<lambda>_.
        tbind (setCanonicalSlug ''category'' categoryId (desired_slug (ti_slug inp) (ti_title inp))) (\<lambda>(slug, previous).
        tbind (audit_catalog actor (if previous = None then ''category.updated'' else ''category.slug_changed'') ''category'' categoryId
                 (taxonomy_json (tx_title existing) previous (tx_isVisible existing))
                 (taxonomy_json (ti_title inp) (Some slug) (ti_isVisible inp))) (\<lambda>_.
        treturn \<lparr>tr_id = categoryId, tr_slug = slug, tr_previousSlug = previous\<rparr>)))))))"

definition createCollection :: "(string \<Rightarrow> string) \<Rightarrow> uuid \<Rightarrow> taxonomy_input \<Rightarrow> taxonomy_result caction" where
  "createCollection sanitize actor inp = commit (
    tbind new_catalog_id (\<lambda>i.
    tbind (tread cdb_collections) (\<lambda>rows.
    tbind (tguard (\<not> list_ex (\<lambda>t. tx_id t = i) rows) (uniqueViolation ''collections_pkey'')) (\<lambda>_.
    tbind (twrite (\<lambda>db. db\<lparr>cdb_collections := cdb_collections db @ [taxonomy_columns sanitize inp i None None]\<rparr>)) (\<lambda>_.
    tbind (setCanonicalSlug ''collection'' i (desired_slug (ti_slug inp) (ti_title inp))) (\<lambda>(slug, _).
    tbind (audit_catalog actor ''collection.created'' ''collection'' i JNull (taxonomy_json (ti_title inp) (Some slug) (ti_isVisible inp))) (\<lambda>_.
    treturn \<lparr>tr_id = i, tr_slug = slug, tr_previousSlug = None\<rparr>)))))))"

definition updateCollection :: "(string \<Rightarrow> string) \<Rightarrow> uuid \<Rightarrow> uuid \<Rightarrow> taxonomy_input \<Rightarrow> taxonomy_result caction" where
  "updateCollection sanitize actor collectionId inp = commit (
    tbind (tread (\<lambda>db. find (\<lambda>t. tx_id t = collectionId \<and> tx_deletedAt t = None) (cdb_collections db))) (\<lambda>found.
    case found of
      None \<Rightarrow> tthrow TaxonomyNotFoundError
    | Some existing \<Rightarrow>
        tbind (twrite (\<lambda>db. db\<lparr>cdb_collections := upd (\<lambda>t. tx_id t = collectionId)
          (\<lambda>t. taxonomy_columns sanitize inp collectionId None (tx_deletedAt t)) (cdb_collections db)\<rparr>)) (\<lambda>_.
        tbind (setCanonicalSlug ''collection'' collectionId (desired_slug (ti_slug inp) (ti_title inp))) (\<lambda>(slug, previous).
        tbind (audit_catalog actor (if previous = None then ''collection.updated'' else ''collection.slug_changed'') ''collection'' collectionId
                 (taxonomy_json (tx_title existing) previous (tx_isVisible existing))
                 (taxonomy_json (ti_title inp) (Some slug) (ti_isVisible inp))) (\<lambda>_.
        treturn \<lparr>tr_id = collectionId, tr_slug = slug, tr_previousSlug = previous\<rparr>)))))"

section \<open>Runs\<close>

text \<open>The operations of the module.\<close>

datatype catalog_op =
    CreateProduct product_input
  | UpdateProduct uuid product_input
  | CreateCategory taxonomy_input
  | UpdateCategory uuid taxonomy_input
  | CreateCollection taxonomy_input
  | UpdateCollection uuid taxonomy_input

definition catalog_step :: "(string \<Rightarrow> string) \<Rightarrow> uuid \<Rightarrow> catalog_op \<Rightarrow> catalog_db \<Rightarrow> catalog_db" where
  "catalog_step sanitize actor op db =
    (case op of
       CreateProduct inp \<Rightarrow> snd (createProduct sanitize actor inp db)
     | UpdateProduct i inp \<Rightarrow> snd (updateProduct sanitize actor i inp db)
     | CreateCategory inp \<Rightarrow> snd (createCategory sanitize actor inp db)
     | UpdateCategory i inp \<Rightarrow> snd (updateCategory sanitize actor i inp db)
     | CreateCollection inp \<Rightarrow> snd (createCollection sanitize actor inp db)
     | UpdateCollection i inp \<Rightarrow> snd (updateCollection sanitize actor i inp db))"

definition catalog_run :: "(string \<Rightarrow> string) \<Rightarrow> uuid \<Rightarrow> catalog_op list \<Rightarrow> catalog_db \<Rightarrow> catalog_db" where
  "catalog_run sanitize actor ops db = foldl (\<lambda>db op. catalog_step sanitize actor op db) db ops"

end
