(* ===== verification/SlugHistory.thy ===== *)
theory SlugHistory
  imports CatalogWrites
begin

text \<open>
  What the slug history promises: an address that was ever given out stays with its entity and always
  leads to its page, whatever the writers of the catalog do.
\<close>

section \<open>The table of slugs\<close>

text \<open>
  Slugs are unique, an entity has one type, and every entity in the table has exactly one canonical
  slug.
\<close>

definition slug_rows_ok :: "slug_row list \<Rightarrow> bool" where
  "slug_rows_ok rows \<longleftrightarrow>
     distinct (map sr_slug rows) \<and>
     (\<forall>r \<in> set rows. \<forall>q \<in> set rows. sr_entityId r = sr_entityId q \<longrightarrow> sr_entityType r = sr_entityType q) \<and>
     (\<forall>r \<in> set rows. \<forall>q \<in> set rows. sr_isCanonical r \<longrightarrow> sr_isCanonical q \<longrightarrow> sr_entityId r = sr_entityId q \<longrightarrow> r = q) \<and>
     (\<forall>r \<in> set rows. \<exists>q \<in> set rows. sr_entityId q = sr_entityId r \<and> sr_isCanonical q)"

text \<open>No slug is given away: each keeps its entity.\<close>

definition same_owner :: "slug_row \<Rightarrow> slug_row \<Rightarrow> bool" where
  "same_owner r q \<longleftrightarrow> sr_slug q = sr_slug r \<and> sr_entityType q = sr_entityType r \<and> sr_entityId q = sr_entityId r"

definition slugs_kept :: "slug_row list \<Rightarrow> slug_row list \<Rightarrow> bool" where
  "slugs_kept rows rows' \<longleftrightarrow> (\<forall>r \<in> set rows. \<exists>q \<in> set rows'. same_owner r q)"

lemma slugs_kept_refl [simp]: "slugs_kept rows rows"
  by (auto simp: slugs_kept_def same_owner_def)

lemma slugs_kept_trans: "slugs_kept a b \<Longrightarrow> slugs_kept b c \<Longrightarrow> slugs_kept a c"
  unfolding slugs_kept_def same_owner_def by (metis (no_types, lifting))

text \<open>An id is new to the table, or has the type it is used with.\<close>

definition type_fits :: "string \<Rightarrow> uuid \<Rightarrow> slug_row list \<Rightarrow> bool" where
  "type_fits entityType entityId rows \<longleftrightarrow> (\<forall>r \<in> set rows. sr_entityId r = entityId \<longrightarrow> sr_entityType r = entityType)"

lemma demote_rows:
  "set (demote entityType entityId rows) =
    (\<lambda>r. if sr_entityType r = entityType \<and> sr_entityId r = entityId then r\<lparr>sr_isCanonical := False\<rparr> else r) ` set rows"
proof -
  have e: "(if sr_entityType r = entityType \<and> sr_entityId r = entityId \<and> sr_isCanonical r then r\<lparr>sr_isCanonical := False\<rparr> else r) =
      (if sr_entityType r = entityType \<and> sr_entityId r = entityId then r\<lparr>sr_isCanonical := False\<rparr> else r)" for r :: slug_row
    by (cases "sr_isCanonical r") auto
  show ?thesis unfolding demote_def upd_def set_map e ..
qed

lemma demote_slugs: "map sr_slug (demote entityType entityId rows) = map sr_slug rows"
  unfolding demote_def by (rule map_upd) simp

lemma find_slug:
  assumes "distinct (map sr_slug rows)"
  shows "find (\<lambda>r. sr_slug r = s) rows = Some r \<longleftrightarrow> r \<in> set rows \<and> sr_slug r = s"
proof
  assume "find (\<lambda>r. sr_slug r = s) rows = Some r"
  then show "r \<in> set rows \<and> sr_slug r = s" by (rule find_eq_Some)
next
  assume r: "r \<in> set rows \<and> sr_slug r = s"
  then have "find (\<lambda>r. sr_slug r = s) rows \<noteq> None" unfolding find_None_set by blast
  then obtain q where q: "find (\<lambda>r. sr_slug r = s) rows = Some q" by blast
  then have "q \<in> set rows \<and> sr_slug q = s" by (rule find_eq_Some)
  then have "q = r" using r distinct_map_eq[OF assms, of q r] by simp
  then show "find (\<lambda>r. sr_slug r = s) rows = Some r" using q by simp
qed

lemma image_if_only:
  assumes "r \<in> A" "P r" "\<And>x. x \<in> A \<Longrightarrow> P x \<Longrightarrow> x = r"
  shows "(\<lambda>x. if P x then g x else x) ` A = insert (g r) {x \<in> A. \<not> P x}"
proof (rule set_eqI)
  fix y
  show "y \<in> (\<lambda>x. if P x then g x else x) ` A \<longleftrightarrow> y \<in> insert (g r) {x \<in> A. \<not> P x}" (is "?l = ?r")
  proof
    assume ?l
    then obtain x where x: "x \<in> A" "y = (if P x then g x else x)" by blast
    then show ?r using assms(3)[of x] by (cases "P x") simp_all
  next
    assume ?r
    then show ?l
    proof
      assume "y = g r"
      then show ?thesis using assms(1,2) by (intro image_eqI[of _ _ r]) simp_all
    next
      assume "y \<in> {x \<in> A. \<not> P x}"
      then show ?thesis by (intro image_eqI[of _ _ y]) simp_all
    qed
  qed
qed

text \<open>
  The rows after the canonical slug moved: those of the entity are demoted, and the new slug is the
  one canonical row.
\<close>

definition demoted :: "uuid \<Rightarrow> slug_row \<Rightarrow> slug_row" where
  "demoted entityId r = (if sr_entityId r = entityId then r\<lparr>sr_isCanonical := False\<rparr> else r)"

lemma demoted_simps [simp]:
  "sr_slug (demoted i r) = sr_slug r" "sr_entityType (demoted i r) = sr_entityType r" "sr_entityId (demoted i r) = sr_entityId r"
  "sr_entityId r = i \<Longrightarrow> \<not> sr_isCanonical (demoted i r)" "sr_entityId r \<noteq> i \<Longrightarrow> demoted i r = r"
  by (simp_all add: demoted_def)

definition moved_rows :: "string \<Rightarrow> string \<Rightarrow> uuid \<Rightarrow> slug_row list \<Rightarrow> slug_row list \<Rightarrow> bool" where
  "moved_rows slug entityType entityId rows rows' \<longleftrightarrow>
     distinct (map sr_slug rows') \<and>
     set rows' = insert \<lparr>sr_slug = slug, sr_entityType = entityType, sr_entityId = entityId, sr_isCanonical = True\<rparr>
       (demoted entityId ` {r \<in> set rows. sr_slug r \<noteq> slug})"

lemma promote_moves:
  assumes "distinct (map sr_slug rows)" "type_fits entityType entityId rows" "\<not> slug_taken rows entityId slug"
  shows "\<exists>rows'. promote slug entityType entityId (demote entityType entityId rows) = Inr (True, rows') \<and> moved_rows slug entityType entityId rows rows'"
proof -
  let ?d = "demote entityType entityId rows"
  have set_d: "set ?d = demoted entityId ` set rows"
    unfolding demote_rows
  proof (rule image_cong[OF refl])
    fix r assume r: "r \<in> set rows"
    then have "sr_entityId r = entityId \<Longrightarrow> sr_entityType r = entityType" using assms(2) unfolding type_fits_def by blast
    then show "(if sr_entityType r = entityType \<and> sr_entityId r = entityId then r\<lparr>sr_isCanonical := False\<rparr> else r) = demoted entityId r"
      by (cases "sr_entityId r = entityId") (simp_all add: demoted_def)
  qed
  have dist: "distinct (map sr_slug ?d)" unfolding demote_slugs by (rule assms(1))
  have off: "\<not> sr_isCanonical r" if r: "r \<in> set ?d" "sr_entityId r = entityId" for r
  proof -
    obtain q where "r = demoted entityId q" using r(1) unfolding set_d by blast
    then show ?thesis using r(2) by (cases "sr_entityId q = entityId") simp_all
  qed
  have none: "\<not> has_canonical t entityId (filter P ?d)" for t P
    unfolding has_canonical_def list_ex_iff set_filter using off by blast
  have none': "\<not> has_canonical entityType entityId ?d"
    unfolding has_canonical_def list_ex_iff using off by blast
  show ?thesis
  proof (cases "find (\<lambda>r. sr_slug r = slug) ?d")
    case None
    let ?new = "\<lparr>sr_slug = slug, sr_entityType = entityType, sr_entityId = entityId, sr_isCanonical = True\<rparr>"
    have new: "\<forall>r \<in> set ?d. sr_slug r \<noteq> slug" using None by (simp add: find_None_set)
    then have "slug \<notin> set (map sr_slug ?d)" by auto
    then have "slug \<notin> set (map sr_slug rows)" by (simp only: demote_slugs not_False_eq_True)
    then have old: "{r \<in> set rows. sr_slug r \<noteq> slug} = set rows" by auto
    have "set (?d @ [?new]) = insert ?new (set ?d)" by simp
    moreover have "distinct (map sr_slug (?d @ [?new]))" using dist new by auto
    ultimately have "moved_rows slug entityType entityId rows (?d @ [?new])"
      unfolding moved_rows_def old set_d by blast
    then show ?thesis using None none' by (simp add: promote_def)
  next
    case (Some r)
    have r: "r \<in> set ?d" "sr_slug r = slug" using find_eq_Some[OF Some] by simp_all
    then obtain q where q: "q \<in> set rows" "r = demoted entityId q" using set_d by auto
    have "sr_slug q = slug" using q(2) r(2) by (auto split: if_splits)
    then have "find (\<lambda>r. sr_slug r = slug) rows = Some q" using find_slug[OF assms(1)] q(1) by blast
    then have own: "sr_entityId q = entityId" using assms(3) by (simp add: slug_taken_def)
    then have rid: "sr_entityId r = entityId" "sr_entityType r = entityType"
      using q assms(2) by (auto simp: type_fits_def)
    let ?u = "upd (\<lambda>q. sr_slug q = slug) (\<lambda>q. q\<lparr>sr_isCanonical := True\<rparr>) ?d"
    have only: "x = r" if "x \<in> set ?d" "sr_slug x = slug" for x
      using distinct_map_eq[OF dist that(1) r(1)] that(2) r(2) by simp
    have "set ?u = insert (r\<lparr>sr_isCanonical := True\<rparr>) {x \<in> set ?d. sr_slug x \<noteq> slug}"
      unfolding upd_def set_map by (rule image_if_only[of r "set ?d" "\<lambda>q. sr_slug q = slug"]) (use only r in blast)+
    moreover have "r\<lparr>sr_isCanonical := True\<rparr> = \<lparr>sr_slug = slug, sr_entityType = entityType, sr_entityId = entityId, sr_isCanonical = True\<rparr>"
      using r(2) rid by (cases r) simp
    moreover have "{x \<in> set ?d. sr_slug x \<noteq> slug} = demoted entityId ` {r \<in> set rows. sr_slug r \<noteq> slug}" unfolding set_d by auto
    moreover have "map sr_slug ?u = map sr_slug ?d" by (rule map_upd) simp
    ultimately have "moved_rows slug entityType entityId rows ?u" unfolding moved_rows_def using dist by simp
    then show ?thesis using Some rid none by (simp add: promote_def)
  qed
qed

lemma moved_slug_ok:
  assumes "slug_rows_ok rows" "moved_rows slug entityType entityId rows rows'" "type_fits entityType entityId rows"
    "\<not> slug_taken rows entityId slug"
  shows "slug_rows_ok rows'" "slugs_kept rows rows'" "type_fits entityType entityId rows'"
proof -
  let ?new = "\<lparr>sr_slug = slug, sr_entityType = entityType, sr_entityId = entityId, sr_isCanonical = True\<rparr>"
  have dist: "distinct (map sr_slug rows')" and rows': "set rows' = insert ?new (demoted entityId ` {r \<in> set rows. sr_slug r \<noteq> slug})"
    using assms(2) by (simp_all add: moved_rows_def)
  have f: "sr_entityId (demoted entityId r) = sr_entityId r" "sr_entityType (demoted entityId r) = sr_entityType r" "sr_slug (demoted entityId r) = sr_slug r" for r by simp_all
  have old: "x = ?new \<or> (\<exists>r \<in> set rows. sr_slug r \<noteq> slug \<and> x = demoted entityId r)" if "x \<in> set rows'" for x using that rows' by auto
  have owner: "sr_entityId r = entityId" if "r \<in> set rows" "sr_slug r = slug" for r
  proof -
    have "find (\<lambda>r. sr_slug r = slug) rows = Some r" using find_slug[of rows slug r] assms(1) that by (simp add: slug_rows_ok_def)
    then show ?thesis using assms(4) by (simp add: slug_taken_def)
  qed
  show fits: "type_fits entityType entityId rows'"
    unfolding type_fits_def
  proof (intro ballI impI)
    fix x assume x: "x \<in> set rows'" "sr_entityId x = entityId"
    from old[OF x(1)] show "sr_entityType x = entityType"
    proof
      assume "\<exists>r \<in> set rows. sr_slug r \<noteq> slug \<and> x = demoted entityId r"
      then obtain r where r: "r \<in> set rows" "x = demoted entityId r" by blast
      then have "sr_entityId r = entityId" using x(2) f(1)[of r] by simp
      then show ?thesis using assms(3) r f(2)[of r] unfolding type_fits_def by simp
    qed simp
  qed
  have types: "sr_entityType x = sr_entityType y" if xy: "x \<in> set rows'" "y \<in> set rows'" "sr_entityId x = sr_entityId y" for x y
  proof (cases "sr_entityId x = entityId")
    case True
    then show ?thesis using fits xy unfolding type_fits_def by simp
  next
    case False
    have "x \<in> set rows" using old[OF xy(1)] False by auto
    moreover have "y \<in> set rows" using old[OF xy(2)] False xy(3) by auto
    ultimately show ?thesis using assms(1) xy(3) unfolding slug_rows_ok_def by blast
  qed
  have canon: "x = y" if "x \<in> set rows'" "y \<in> set rows'" "sr_isCanonical x" "sr_isCanonical y" "sr_entityId x = sr_entityId y" for x y
  proof (cases "sr_entityId x = entityId")
    case True
    have "u = ?new" if u: "u \<in> set rows'" "sr_entityId u = entityId" "sr_isCanonical u" for u
    proof (rule ccontr)
      assume "u \<noteq> ?new"
      then obtain r where r: "u = demoted entityId r" using old[OF u(1)] by blast
      then have "sr_entityId r = entityId" using u(2) f(1)[of r] by simp
      then show False using r u(3) by simp
    qed
    moreover have "sr_entityId y = entityId" using that(5) True by simp
    ultimately have "x = ?new" "y = ?new" using that(1-4) True by blast+
    then show ?thesis by simp
  next
    case False
    then have "x \<in> set rows" "y \<in> set rows" using old[OF that(1)] old[OF that(2)] that(5) by auto
    then show ?thesis using assms(1) that(3-5) unfolding slug_rows_ok_def by blast
  qed
  have has: "\<exists>q \<in> set rows'. sr_entityId q = sr_entityId x \<and> sr_isCanonical q" if x: "x \<in> set rows'" for x
  proof (cases "sr_entityId x = entityId")
    case True
    then show ?thesis using rows' by (intro bexI[of _ ?new]) simp_all
  next
    case False
    then have "x \<in> set rows" using old[OF x] by auto
    then obtain q where q: "q \<in> set rows" "sr_entityId q = sr_entityId x" "sr_isCanonical q" using assms(1) unfolding slug_rows_ok_def by blast
    then have "sr_slug q \<noteq> slug" using owner False by metis
    then have "q \<in> set rows'" using q(1,2) False rows' by (auto simp: image_iff)
    then show ?thesis using q(2,3) by blast
  qed
  show "slug_rows_ok rows'" unfolding slug_rows_ok_def using dist types canon has by blast
  show "slugs_kept rows rows'" unfolding slugs_kept_def
  proof
    fix r assume r: "r \<in> set rows"
    show "\<exists>q \<in> set rows'. same_owner r q"
    proof (cases "sr_slug r = slug")
      case True
      then show ?thesis using owner[OF r True] assms(3) r rows' by (intro bexI[of _ ?new]) (auto simp: same_owner_def type_fits_def)
    next
      case False
      then have "demoted entityId r \<in> set rows'" using r rows' by blast
      then show ?thesis using f by (intro bexI[of _ "demoted entityId r"]) (auto simp: same_owner_def)
    qed
  qed
qed

section \<open>Moving the canonical slug\<close>

lemma slug_candidate_nonempty: "slug_candidate base n \<noteq> []"
  by (simp add: slug_candidate_def)

lemma availableSlug_free:
  assumes "availableSlug isTaken m (slugify f desired) = Some s"
  shows "\<not> isTaken s \<and> s \<noteq> []"
proof -
  have "slugify f desired \<noteq> []" by (cases f) (simp_all add: slugify_def Let_def)
  then have base: "slug_base (slugify f desired) \<noteq> []" by (simp add: slug_base_def)
  show ?thesis
  proof (cases "isTaken (slug_base (slugify f desired))")
    case True
    then have "try_suffixes isTaken (slug_base (slugify f desired)) m 2 = Some s" using assms by (simp add: availableSlug_base)
    then show ?thesis using try_suffixes_Some slug_candidate_nonempty by metis
  next
    case False
    then show ?thesis using assms base by (simp add: availableSlug_base)
  qed
qed

lemma canonical_slug_Some:
  assumes "canonical_slug rows entityType entityId = Some s"
  shows "\<exists>r \<in> set rows. sr_slug r = s \<and> sr_entityType r = entityType \<and> sr_entityId r = entityId \<and> sr_isCanonical r"
proof -
  obtain r where r: "find (\<lambda>r. sr_entityType r = entityType \<and> sr_entityId r = entityId \<and> sr_isCanonical r) rows = Some r" "sr_slug r = s"
    using assms unfolding canonical_slug_def by blast
  show ?thesis using find_eq_Some[OF r(1)] r(2) by blast
qed

lemma set_canonical_moves:
  assumes ok: "slug_rows_ok rows" and fits: "type_fits entityType entityId rows"
    and set: "set_canonical entityType entityId desired rows = Inr ((slug, previous), rows')"
  shows "slug_rows_ok rows'" "slugs_kept rows rows'" "slug \<noteq> []"
    "\<lparr>sr_slug = slug, sr_entityType = entityType, sr_entityId = entityId, sr_isCanonical = True\<rparr> \<in> set rows'"
    "\<And>r. r \<in> set rows' \<Longrightarrow> sr_slug r = slug \<and> sr_entityId r = entityId \<or> (\<exists>q \<in> set rows. same_owner q r)"
proof -
  let ?base = "slugify (Some ''item'') desired"
  let ?new = "\<lparr>sr_slug = slug, sr_entityType = entityType, sr_entityId = entityId, sr_isCanonical = True\<rparr>"
  obtain s where s: "availableSlug (slug_taken rows entityId) 100 ?base = Some s"
    using set unfolding set_canonical_def Let_def by (cases "availableSlug (slug_taken rows entityId) 100 ?base") simp_all
  have free: "\<not> slug_taken rows entityId s" "s \<noteq> []" using availableSlug_free[OF s] by blast+
  obtain rows1 where rows1: "promote s entityType entityId (demote entityType entityId rows) = Inr (True, rows1)"
    "moved_rows s entityType entityId rows rows1"
    using promote_moves[OF _ fits free(1)] ok unfolding slug_rows_ok_def by blast
  have cases: "slug = s \<and> (canonical_slug rows entityType entityId = Some s \<and> rows' = rows \<or> rows' = rows1)"
    using set unfolding set_canonical_def Let_def s by (simp add: rows1(1) rbind_def split: if_splits)
  have "slug_rows_ok rows' \<and> slugs_kept rows rows' \<and> ?new \<in> set rows' \<and>
    (\<forall>r \<in> set rows'. sr_slug r = slug \<and> sr_entityId r = entityId \<or> (\<exists>q \<in> set rows. same_owner q r))"
  proof (cases "rows' = rows1")
    case True
    have slug: "slug = s" using cases by blast
    have set': "set rows' = insert ?new (demoted entityId ` {r \<in> set rows. sr_slug r \<noteq> s})"
      using rows1(2) unfolding moved_rows_def True slug by blast
    have "sr_slug r = slug \<and> sr_entityId r = entityId \<or> (\<exists>q \<in> set rows. same_owner q r)" if r: "r \<in> set rows'" for r
    proof (cases "r = ?new")
      case False
      then obtain q where "q \<in> set rows" "r = demoted entityId q" using r set' by blast
      then show ?thesis unfolding same_owner_def by auto
    qed simp
    moreover have "?new \<in> set rows'" using set' by simp
    ultimately show ?thesis using moved_slug_ok[OF ok rows1(2) fits free(1)] True by blast
  next
    case False
    then have rows: "rows' = rows" "canonical_slug rows entityType entityId = Some slug" using cases by blast+
    then obtain r where r: "r \<in> set rows" "sr_slug r = slug" "sr_entityType r = entityType" "sr_entityId r = entityId" "sr_isCanonical r"
      using canonical_slug_Some by blast
    have "r = ?new" using r(2-5) by (cases r) simp
    then show ?thesis using r(1) rows(1) ok by (auto simp: same_owner_def)
  qed
  then show "slug_rows_ok rows'" "slugs_kept rows rows'" "?new \<in> set rows'"
    "\<And>r. r \<in> set rows' \<Longrightarrow> sr_slug r = slug \<and> sr_entityId r = entityId \<or> (\<exists>q \<in> set rows. same_owner q r)" by blast+
  show "slug \<noteq> []" using cases free(2) by blast
qed

section \<open>The catalog as a whole\<close>

text \<open>The entities of the catalog, each with its type.\<close>

definition entities :: "catalog_db \<Rightarrow> (string \<times> uuid) set" where
  "entities db = Pair ''product'' ` cp_id ` set (cdb_products db) \<union> Pair ''category'' ` tx_id ` set (cdb_categories db) \<union>
                 Pair ''collection'' ` tx_id ` set (cdb_collections db)"

definition addressed :: "slug_row list \<Rightarrow> string \<times> uuid \<Rightarrow> bool" where
  "addressed rows e \<longleftrightarrow> (\<exists>r \<in> set rows. sr_entityType r = fst e \<and> sr_entityId r = snd e)"

text \<open>
  What holds between the statements of a transaction: the slugs of before are kept, every entity but
  those of \<open>X\<close> has one, ids come from the stream of uuids, and no slug is empty.
\<close>

definition slugs_inv :: "slug_row list \<Rightarrow> (string \<times> uuid) set \<Rightarrow> catalog_db \<Rightarrow> bool" where
  "slugs_inv before X db \<longleftrightarrow>
     slug_rows_ok (cdb_urlSlugs db) \<and> slugs_kept before (cdb_urlSlugs db) \<and>
     (\<forall>r \<in> set (cdb_urlSlugs db). sr_slug r \<noteq> [] \<and> sr_entityId r \<in> cdb_uuidv7 db ` {..<cdb_drawn db}) \<and>
     inj (cdb_uuidv7 db) \<and>
     (\<forall>e \<in> entities db. e \<notin> X \<longrightarrow> addressed (cdb_urlSlugs db) e)"

lemma slugs_invD:
  assumes "slugs_inv before X db"
  shows "slug_rows_ok (cdb_urlSlugs db)" "slugs_kept before (cdb_urlSlugs db)" "inj (cdb_uuidv7 db)"
    "r \<in> set (cdb_urlSlugs db) \<Longrightarrow> sr_slug r \<noteq> []"
    "r \<in> set (cdb_urlSlugs db) \<Longrightarrow> sr_entityId r \<in> cdb_uuidv7 db ` {..<cdb_drawn db}"
    "e \<in> entities db \<Longrightarrow> e \<notin> X \<Longrightarrow> addressed (cdb_urlSlugs db) e"
  using assms unfolding slugs_inv_def by simp_all

text \<open>The predicate looks at these columns only.\<close>

lemma slugs_inv_cong:
  assumes "cdb_urlSlugs db' = cdb_urlSlugs db" "cdb_uuidv7 db' = cdb_uuidv7 db" "cdb_drawn db' \<ge> cdb_drawn db"
    "entities db' - X \<subseteq> entities db"
  shows "slugs_inv before X db \<Longrightarrow> slugs_inv before X db'"
proof -
  assume inv: "slugs_inv before X db"
  have "cdb_uuidv7 db ` {..<cdb_drawn db} \<subseteq> cdb_uuidv7 db' ` {..<cdb_drawn db'}" using assms(2,3) by auto
  then show ?thesis using inv assms(4) unfolding slugs_inv_def assms(1,2) by blast
qed

lemma kept_addressed: "slugs_kept rows rows' \<Longrightarrow> addressed rows e \<Longrightarrow> addressed rows' e"
  unfolding slugs_kept_def addressed_def same_owner_def by (metis (no_types, lifting))

lemma addressed_fits: "slug_rows_ok rows \<Longrightarrow> addressed rows (t, i) \<Longrightarrow> type_fits t i rows"
  unfolding slug_rows_ok_def addressed_def type_fits_def by (metis (no_types, lifting) fst_conv snd_conv)

text \<open>An id is settled for a type when it was drawn and no other type uses it.\<close>

definition settled :: "string \<Rightarrow> uuid \<Rightarrow> catalog_db \<Rightarrow> bool" where
  "settled t i db \<longleftrightarrow> type_fits t i (cdb_urlSlugs db) \<and> i \<in> cdb_uuidv7 db ` {..<cdb_drawn db}"

lemma setCanonicalSlug_inv:
  "hoare (\<lambda>db. slugs_inv before {(t, i)} db \<and> settled t i db) (setCanonicalSlug t i desired) (\<lambda>_. slugs_inv before {})"
proof (rule hoareI)
  fix db answer db'
  assume inv: "slugs_inv before {(t, i)} db \<and> settled t i db" and run: "setCanonicalSlug t i desired db = Inr (answer, db')"
  let ?rows = "cdb_urlSlugs db"
  obtain slug previous rows where set: "set_canonical t i desired ?rows = Inr ((slug, previous), rows)" and db': "db' = db\<lparr>cdb_urlSlugs := rows\<rparr>"
    using run unfolding setCanonicalSlug_def by (auto split: sum.splits)
  have ok: "slug_rows_ok ?rows" and fits: "type_fits t i ?rows" using inv unfolding slugs_inv_def settled_def by blast+
  note moves = set_canonical_moves[OF ok fits set]
  have drawn: "sr_slug r \<noteq> [] \<and> sr_entityId r \<in> cdb_uuidv7 db ` {..<cdb_drawn db}" if r: "r \<in> set rows" for r
  proof (cases "sr_slug r = slug \<and> sr_entityId r = i")
    case True
    then show ?thesis using moves(3) inv unfolding settled_def by blast
  next
    case False
    then obtain q where "q \<in> set ?rows" "same_owner q r" using moves(5)[OF r] by blast
    then show ?thesis using inv unfolding slugs_inv_def same_owner_def by simp
  qed
  have all: "addressed rows e" if e: "e \<in> entities db" for e
  proof (cases "e = (t, i)")
    case True
    then show ?thesis unfolding addressed_def by (intro bexI[OF _ moves(4)]) simp_all
  next
    case False
    then have "addressed ?rows e" using inv e unfolding slugs_inv_def by blast
    then show ?thesis using kept_addressed[OF moves(2)] by blast
  qed
  have "entities db' = entities db" unfolding db' entities_def by simp
  moreover have "slugs_kept before rows" using slugs_kept_trans[OF _ moves(2)] inv unfolding slugs_inv_def by blast
  ultimately show "slugs_inv before {} db'" using moves(1) drawn all inv unfolding slugs_inv_def db' by simp
qed

section \<open>The writers\<close>

lemma new_catalog_id_inv:
  "hoare (slugs_inv before X) new_catalog_id (\<lambda>i db. slugs_inv before X db \<and> (\<forall>t. settled t i db))"
proof (rule hoareI)
  fix db i db'
  assume inv: "slugs_inv before X db" and run: "new_catalog_id db = Inr (i, db')"
  then have i: "i = cdb_uuidv7 db (cdb_drawn db)" and db': "db' = db\<lparr>cdb_drawn := Suc (cdb_drawn db)\<rparr>"
    unfolding new_catalog_id_def by simp_all
  have "sr_entityId r \<noteq> i" if row: "r \<in> set (cdb_urlSlugs db)" for r
  proof -
    obtain k where k: "k < cdb_drawn db" "sr_entityId r = cdb_uuidv7 db k" using slugs_invD(5)[OF inv row] by blast
    show ?thesis
    proof
      assume "sr_entityId r = i"
      then have "k = cdb_drawn db" using k(2) i injD[OF slugs_invD(3)[OF inv]] by simp
      then show False using k(1) by simp
    qed
  qed
  then have fits: "type_fits t i (cdb_urlSlugs db')" for t unfolding type_fits_def db' by simp
  have drawn: "i \<in> cdb_uuidv7 db' ` {..<cdb_drawn db'}" unfolding db' i by simp
  have "settled t i db'" for t unfolding settled_def by (rule conjI[OF fits drawn])
  moreover have "slugs_inv before X db'" by (rule slugs_inv_cong[OF _ _ _ _ inv]) (simp_all add: db' entities_def)
  ultimately show "slugs_inv before X db' \<and> (\<forall>t. settled t i db')" by blast
qed

lemma new_catalog_id_keeps: "keeps (slugs_inv before X) new_catalog_id"
  using new_catalog_id_inv unfolding keeps_def hoare_def by blast

lemma write_keeps:
  assumes "\<And>db. cdb_urlSlugs (f db) = cdb_urlSlugs db" "\<And>db. cdb_uuidv7 (f db) = cdb_uuidv7 db" "\<And>db. cdb_drawn (f db) = cdb_drawn db"
    "\<And>db. entities (f db) = entities db"
  shows "keeps (slugs_inv before X) (twrite f)"
  by (rule keeps_write, rule slugs_inv_cong) (simp_all add: assms)

lemma children_keep: "keeps (slugs_inv before X) (write_children productId inp)"
  unfolding write_children_def writeOptions_def insert_option_def writeVariants_def write_variant_def writeMembership_def writeGallery_def
    case_prod_beta Let_def
  by (intro keeps_rules new_catalog_id_keeps write_keeps) (simp_all add: entities_def)

lemma check_keeps: "keeps (slugs_inv before X) (check_product productId inp)"
  unfolding check_product_def skuIssues_def assertMediaVisible_def assertTaxonomyVisible_def assertVisible_def case_prod_beta Let_def
  by (intro keeps_rules)

lemma audit_keeps: "keeps (slugs_inv before X) (audit_catalog a b c d e f)"
  unfolding audit_catalog_def by (intro write_keeps) (simp_all add: entities_def)

text \<open>The shape the six writers share: a row is written, its slug set, the rest keeps both.\<close>

lemma keeps_then: "keeps P m \<Longrightarrow> (\<And>x. hoare P (f x) Q) \<Longrightarrow> hoare P (tbind m f) Q"
  unfolding keeps_def by (rule hoare_bind)

lemma write_then_slug:
  assumes "\<And>db. cdb_urlSlugs (w db) = cdb_urlSlugs db" "\<And>db. cdb_uuidv7 (w db) = cdb_uuidv7 db" "\<And>db. cdb_drawn (w db) = cdb_drawn db"
    "\<And>db. entities (w db) \<subseteq> insert (t, i) (entities db)"
    "\<And>answer. keeps (slugs_inv before {}) (f answer)"
  shows "hoare (\<lambda>db. slugs_inv before {} db \<and> settled t i db) (tbind (twrite w) (\<lambda>_. tbind (setCanonicalSlug t i desired) f))
    (\<lambda>_. slugs_inv before {})"
proof (rule hoare_bind)
  show "hoare (\<lambda>db. slugs_inv before {} db \<and> settled t i db) (twrite w) (\<lambda>_ db. slugs_inv before {(t, i)} db \<and> settled t i db)"
  proof (rule hoareI)
    fix db u db' assume pre: "slugs_inv before {} db \<and> settled t i db" and run: "twrite w db = Inr (u, db')"
    have db': "db' = w db" using run by simp
    have "slugs_inv before {(t, i)} db" using pre unfolding slugs_inv_def by blast
    then have "slugs_inv before {(t, i)} db'"
      by (rule slugs_inv_cong[rotated 4]) (use assms(1-4)[of db] db' in auto)
    moreover have "settled t i db'" using pre unfolding db' settled_def assms(1-3) by (rule conjunct2)
    ultimately show "slugs_inv before {(t, i)} db' \<and> settled t i db'" by blast
  qed
  show "hoare (\<lambda>db. slugs_inv before {(t, i)} db \<and> settled t i db) (tbind (setCanonicalSlug t i desired) f) (\<lambda>_. slugs_inv before {})" for u :: unit
    by (rule hoare_bind[OF setCanonicalSlug_inv]) (use assms(5) in \<open>simp add: keeps_def\<close>)
qed

lemma settled_keeps [keeps_rules]:
  "keeps (\<lambda>db. slugs_inv before {} db \<and> settled t i db) (tread f)"
  "keeps (\<lambda>db. slugs_inv before {} db \<and> settled t i db) (tguard ok e)"
  by (rule keeps_read keeps_guard)+

lemma draw_settled:
  "(\<And>i. hoare (\<lambda>db. slugs_inv before {} db \<and> settled t i db) (f i) Q) \<Longrightarrow> hoare (slugs_inv before {}) (tbind new_catalog_id f) Q"
  by (rule hoare_bind[OF new_catalog_id_inv]) (auto simp: hoare_def)

text \<open>An entity of the catalog is settled.\<close>

lemma entity_settled:
  assumes "slugs_inv before {} db" "(t, i) \<in> entities db"
  shows "settled t i db"
proof -
  have "addressed (cdb_urlSlugs db) (t, i)" "slug_rows_ok (cdb_urlSlugs db)" using assms unfolding slugs_inv_def by blast+
  then show ?thesis using addressed_fits assms(1) unfolding settled_def slugs_inv_def addressed_def by (metis (no_types, lifting) snd_conv)
qed

lemma find_settled:
  assumes "hoare (slugs_inv before {}) (f None) Q" "\<And>p. hoare (\<lambda>db. slugs_inv before {} db \<and> settled t i db) (f (Some p)) Q"
    "\<And>db p. g db = Some p \<Longrightarrow> (t, i) \<in> entities db"
  shows "hoare (slugs_inv before {}) (tbind (tread g) f) Q"
proof (rule hoareI)
  fix db x db' assume inv: "slugs_inv before {} db" and run: "tbind (tread g) f db = Inr (x, db')"
  have run: "f (g db) db = Inr (x, db')" using run by (simp add: tbind_def)
  show "Q x db'"
  proof (cases "g db")
    case None
    then show ?thesis using hoareD[OF assms(1) inv] run by simp
  next
    case (Some p)
    have "slugs_inv before {} db \<and> settled t i db" using inv entity_settled[OF inv assms(3)[OF Some]] by (rule conjI)
    then show ?thesis using hoareD[OF assms(2)] run Some by simp
  qed
qed

lemma found_entity:
  "find (\<lambda>p. cp_id p = i \<and> cp_deletedAt p = None) (cdb_products db) = Some p \<Longrightarrow> (''product'', i) \<in> entities db"
  "find (\<lambda>t. tx_id t = i \<and> tx_deletedAt t = None) (cdb_categories db) = Some c \<Longrightarrow> (''category'', i) \<in> entities db"
  "find (\<lambda>t. tx_id t = i \<and> tx_deletedAt t = None) (cdb_collections db) = Some c \<Longrightarrow> (''collection'', i) \<in> entities db"
  by (auto simp: entities_def dest!: find_eq_Some)

lemma throw_inv: "hoare P (tthrow e) Q"
  by (simp add: hoare_def)

lemma entities_upd:
  "(\<And>p. cp_id p = i \<Longrightarrow> cp_id (f p) = i) \<Longrightarrow> cp_id ` set (upd (\<lambda>p. cp_id p = i) f ps) = cp_id ` set ps"
  "(\<And>t. tx_id t = i \<Longrightarrow> tx_id (g t) = i) \<Longrightarrow> tx_id ` set (upd (\<lambda>t. tx_id t = i) g ts) = tx_id ` set ts"
  by (induction ps, simp_all) (induction ts, simp_all)

lemmas settled_steps = keeps_then[OF settled_keeps(1)] keeps_then[OF settled_keeps(2)]

lemmas entity_simps = entities_def product_columns_def taxonomy_columns_def entities_upd

lemma rest_keeps:
  "keeps (slugs_inv before {}) (tbind (write_children i inp) (\<lambda>_. tbind (audit_catalog a b c d e g) (\<lambda>_. treturn r)))"
  "keeps (slugs_inv before {}) (tbind (audit_catalog a b c d e g) (\<lambda>_. treturn r'))"
  by (intro keeps_rules children_keep audit_keeps)+

lemma create_product_inv: "keeps (slugs_inv before {}) (createProductInTx sanitize actor inp)"
  unfolding createProductInTx_def keeps_def case_prod_beta
  by (rule keeps_then[OF check_keeps], rule draw_settled, (rule settled_steps)+, rule write_then_slug)
     (simp_all add: entity_simps rest_keeps)

lemma update_product_inv: "keeps (slugs_inv before {}) (updateProductInTx sanitize actor productId inp)"
proof -
  have check: "keeps (\<lambda>db. slugs_inv before {} db \<and> settled t i db) (check_product p inp)" for t i p
    unfolding check_product_def skuIssues_def assertMediaVisible_def assertTaxonomyVisible_def assertVisible_def case_prod_beta Let_def
    by (intro keeps_rules)
  show ?thesis
    unfolding updateProductInTx_def keeps_def case_prod_beta
  proof (rule find_settled[where t = "''product''" and i = productId], goal_cases)
    case (2 p)
    show ?case unfolding option.case
      by (rule keeps_then[OF check], unfold snapshotProduct_def, (rule settled_steps)+, rule write_then_slug)
         (simp_all add: entity_simps rest_keeps subset_insertI del: Un_subset_iff)
  qed (simp_all add: throw_inv found_entity)
qed

lemma category_inv:
  "akeeps (slugs_inv before {}) (createCategory sanitize actor inp)"
  "akeeps (slugs_inv before {}) (updateCategory sanitize actor categoryId inp)"
proof -
  have parent: "keeps (slugs_inv before {}) (case p of None \<Rightarrow> treturn () | Some p \<Rightarrow> assertCategoryExists p)" for p
    unfolding assertCategoryExists_def by (intro keeps_rules)
  have resolve: "keeps (\<lambda>db. slugs_inv before {} db \<and> settled t i db) (resolveParent categoryId p)" for t i p
    unfolding resolveParent_def assertCategoryExists_def by (intro keeps_rules)
  show "akeeps (slugs_inv before {}) (createCategory sanitize actor inp)"
    unfolding createCategory_def case_prod_beta not_own_parent_def
    by (rule akeeps_commit, unfold keeps_def, rule keeps_then[OF parent], rule draw_settled, (rule settled_steps)+, rule write_then_slug)
       (simp_all add: entity_simps rest_keeps)
  show "akeeps (slugs_inv before {}) (updateCategory sanitize actor categoryId inp)"
    unfolding updateCategory_def case_prod_beta not_own_parent_def
  proof (rule akeeps_commit, unfold keeps_def, rule find_settled[where t = "''category''" and i = categoryId], goal_cases)
    case (2 p)
    show ?case unfolding option.case
      by (rule keeps_then[OF resolve], rule settled_steps, rule write_then_slug)
         (simp_all add: entity_simps rest_keeps subset_insertI del: Un_subset_iff)
  qed (simp_all add: throw_inv found_entity)
qed

lemma collection_inv:
  "akeeps (slugs_inv before {}) (createCollection sanitize actor inp)"
  "akeeps (slugs_inv before {}) (updateCollection sanitize actor collectionId inp)"
proof -
  show "akeeps (slugs_inv before {}) (createCollection sanitize actor inp)"
    unfolding createCollection_def case_prod_beta
    by (rule akeeps_commit, unfold keeps_def, rule draw_settled, (rule settled_steps)+, rule write_then_slug)
       (simp_all add: entity_simps rest_keeps)
  show "akeeps (slugs_inv before {}) (updateCollection sanitize actor collectionId inp)"
    unfolding updateCollection_def case_prod_beta
  proof (rule akeeps_commit, unfold keeps_def, rule find_settled[where t = "''collection''" and i = collectionId], goal_cases)
    case (2 p)
    show ?case unfolding option.case by (rule write_then_slug) (simp_all add: entity_simps rest_keeps subset_insertI del: Un_subset_iff)
  qed (simp_all add: throw_inv found_entity)
qed

lemma catalog_step_inv: "slugs_inv before {} db \<Longrightarrow> slugs_inv before {} (catalog_step sanitize actor op db)"
  unfolding catalog_step_def createProduct_def updateProduct_def
  by (cases op) (simp_all add: akeepsD category_inv collection_inv akeeps_commit create_product_inv update_product_inv)

lemma catalog_run_inv: "slugs_inv before {} db \<Longrightarrow> slugs_inv before {} (catalog_run sanitize actor ops db)"
  unfolding catalog_run_def by (induction ops arbitrary: db) (simp_all add: catalog_step_inv)

section \<open>Requests\<close>

text \<open>\<open>resolveStorefrontSlug\<close> of \<open>queries.ts\<close>, with the lookup of the canonical slugs of some entities.\<close>

definition canonicalSlugs :: "slug_row list \<Rightarrow> string \<Rightarrow> uuid list \<Rightarrow> uuid \<rightharpoonup> string" where
  "canonicalSlugs rows entityType entityIds =
    map_of (rev (map (\<lambda>r. (sr_entityId r, sr_slug r))
      (filter (\<lambda>r. sr_entityType r = entityType \<and> sr_isCanonical r \<and> sr_entityId r \<in> set entityIds) rows)))"

definition resolveStorefrontSlug :: "string \<Rightarrow> catalog_db \<Rightarrow> slug_resolution" where
  "resolveStorefrontSlug slug db =
    (case find (\<lambda>r. sr_slug r = slug) (cdb_urlSlugs db) of
       None \<Rightarrow> resolveSlug None (\<lambda>_ _. None)
     | Some r \<Rightarrow>
         if sr_isCanonical r then resolveSlug (Some r) (\<lambda>_ _. None)
         else let canonical = canonicalSlugs (cdb_urlSlugs db) (sr_entityType r) [sr_entityId r]
              in resolveSlug (Some r) (\<lambda>_ i. canonical i))"

lemma one_canonical:
  "slug_rows_ok rows \<Longrightarrow> r \<in> set rows \<Longrightarrow> q \<in> set rows \<Longrightarrow> sr_isCanonical r \<Longrightarrow> sr_isCanonical q \<Longrightarrow>
   sr_entityId r = sr_entityId q \<Longrightarrow> r = q"
  unfolding slug_rows_ok_def by blast

lemma canonicalSlugs_one:
  assumes "slug_rows_ok rows" "c \<in> set rows" "sr_isCanonical c"
  shows "canonicalSlugs rows (sr_entityType c) [sr_entityId c] (sr_entityId c) = Some (sr_slug c)"
proof -
  let ?rows = "filter (\<lambda>r. sr_entityType r = sr_entityType c \<and> sr_isCanonical r \<and> sr_entityId r \<in> set [sr_entityId c]) rows"
  have only: "r = c" if "r \<in> set ?rows" for r
  proof (rule one_canonical[OF assms(1)])
    show "r \<in> set rows" "sr_isCanonical r" "sr_entityId r = sr_entityId c" using that by simp_all
  qed (use assms(2,3) in simp_all)
  let ?pairs = "rev (map (\<lambda>r. (sr_entityId r, sr_slug r)) ?rows)"
  have "c \<in> set ?rows" using assms(2,3) by simp
  then have c: "(sr_entityId c, sr_slug c) \<in> set ?pairs" unfolding set_rev set_map by (rule rev_image_eqI) (rule refl)
  show ?thesis
  proof (cases "map_of ?pairs (sr_entityId c)")
    case None
    then have "sr_entityId c \<notin> fst ` set ?pairs" by (rule map_of_eq_None_iff[THEN iffD1])
    then show ?thesis using image_eqI[of _ fst, OF _ c] by simp
  next
    case (Some s)
    then have "(sr_entityId c, s) \<in> set ?pairs" by (rule map_of_SomeD)
    then obtain r where r: "r \<in> set ?rows" "s = sr_slug r" unfolding set_rev set_map by blast
    then show ?thesis using only[OF r(1)] Some unfolding canonicalSlugs_def by (simp only:)
  qed
qed

text \<open>Leads to the page: shown, or sent on to a slug that shows it.\<close>

definition leads_to :: "catalog_db \<Rightarrow> string \<Rightarrow> string \<Rightarrow> uuid \<Rightarrow> bool" where
  "leads_to db slug entityType entityId \<longleftrightarrow>
    (case resolveStorefrontSlug slug db of
       render t i \<Rightarrow> t = entityType \<and> i = entityId
     | redirect c \<Rightarrow> resolveStorefrontSlug c db = render entityType entityId
     | slug_notFound \<Rightarrow> False)"

lemma resolves:
  assumes ok: "slug_rows_ok (cdb_urlSlugs db)" and ne: "\<forall>r \<in> set (cdb_urlSlugs db). sr_slug r \<noteq> []"
    and r: "r \<in> set (cdb_urlSlugs db)"
  shows "leads_to db (sr_slug r) (sr_entityType r) (sr_entityId r)"
proof -
  let ?rows = "cdb_urlSlugs db"
  have dist: "distinct (map sr_slug ?rows)" using ok by (simp add: slug_rows_ok_def)
  have canon: "resolveStorefrontSlug (sr_slug c) db = render (sr_entityType c) (sr_entityId c)"
    if c: "c \<in> set ?rows" "sr_isCanonical c" for c
  proof -
    have "find (\<lambda>r. sr_slug r = sr_slug c) ?rows = Some c" using find_slug[OF dist] c(1) by blast
    then show ?thesis using c(2) by (simp add: resolveStorefrontSlug_def resolveSlug_def)
  qed
  show ?thesis
  proof (cases "sr_isCanonical r")
    case True
    then show ?thesis using canon[OF r] by (simp add: leads_to_def)
  next
    case False
    obtain c where c: "c \<in> set ?rows" "sr_entityId c = sr_entityId r" "sr_isCanonical c"
      using ok r unfolding slug_rows_ok_def by blast
    have t: "sr_entityType c = sr_entityType r" using ok r c(1,2) unfolding slug_rows_ok_def by blast
    have "find (\<lambda>q. sr_slug q = sr_slug r) ?rows = Some r" using find_slug[OF dist] r by blast
    moreover have "sr_slug c \<noteq> []" using ne c(1) by blast
    ultimately have "resolveStorefrontSlug (sr_slug r) db = redirect (sr_slug c)"
      using canonicalSlugs_one[OF ok c(1,3)] False c(2) t by (simp add: resolveStorefrontSlug_def resolveSlug_def)
    then show ?thesis using canon[OF c(1,3)] c(2) t by (simp add: leads_to_def)
  qed
qed

text \<open>A catalog in order: what the tables hold between two operations.\<close>

definition catalog_ok :: "catalog_db \<Rightarrow> bool" where
  "catalog_ok db \<longleftrightarrow> slugs_inv [] {} db"

lemma catalog_ok_start: "catalog_ok db \<Longrightarrow> slugs_inv (cdb_urlSlugs db) {} db"
  unfolding catalog_ok_def slugs_inv_def by simp

text \<open>
  C27.  An address never breaks.  Whatever products, categories and collections are created, renamed
  or edited, in whatever order and whether the writes succeed or fail, every address the store had
  before still leads to the page of the same entity, shown there or by one permanent redirect; and
  every entity of the catalog has an address.
\<close>

theorem urls_never_break:
  assumes "catalog_ok db"
  shows "let db' = catalog_run sanitize actor ops db in catalog_ok db' \<and>
    list_all (\<lambda>r. leads_to db' (sr_slug r) (sr_entityType r) (sr_entityId r)) (cdb_urlSlugs db) \<and>
    (\<forall>(t, i) \<in> entities db'. \<exists>slug. leads_to db' slug t i)"
proof -
  let ?db' = "catalog_run sanitize actor ops db"
  have inv: "slugs_inv (cdb_urlSlugs db) {} ?db'" by (rule catalog_run_inv[OF catalog_ok_start[OF assms]])
  have all: "leads_to ?db' (sr_slug q) (sr_entityType q) (sr_entityId q)" if "q \<in> set (cdb_urlSlugs ?db')" for q
    using resolves[OF slugs_invD(1)[OF inv] _ that] slugs_invD(4)[OF inv] by blast
  have "leads_to ?db' (sr_slug r) (sr_entityType r) (sr_entityId r)" if r: "r \<in> set (cdb_urlSlugs db)" for r
  proof -
    obtain q where q: "q \<in> set (cdb_urlSlugs ?db')" "same_owner r q" using slugs_invD(2)[OF inv] r unfolding slugs_kept_def by blast
    then show ?thesis using all[OF q(1)] unfolding same_owner_def by simp
  qed
  moreover have "\<exists>slug. leads_to ?db' slug t i" if e: "(t, i) \<in> entities ?db'" for t i
  proof -
    obtain q where "q \<in> set (cdb_urlSlugs ?db')" "sr_entityType q = t" "sr_entityId q = i"
      using slugs_invD(6)[OF inv e] unfolding addressed_def by auto
    then show ?thesis using all by blast
  qed
  moreover have "catalog_ok ?db'" using inv unfolding catalog_ok_def slugs_inv_def slugs_kept_def by simp
  ultimately show ?thesis by (auto simp: Let_def list_all_iff)
qed

text \<open>A store with one category, whose title changes twice.\<close>

definition linen_input :: "string \<Rightarrow> taxonomy_input" where
  "linen_input title' = \<lparr>ti_title = title', ti_slug = None, ti_description = None, ti_parentId = None, ti_position = 0, ti_isVisible = True,
     ti_seo = \<lparr>seo_title = None, seo_description = None, seo_noindex = False\<rparr>\<rparr>"

definition linen_catalog :: catalog_db where
  "linen_catalog =
    \<lparr>cdb_now = 1000, cdb_uuidv7 = (\<lambda>n. n), cdb_drawn = 1, cdb_products = [], cdb_variants = [], cdb_options = [],
     cdb_productCategories = [], cdb_productCollections = [], cdb_productMedia = [], cdb_media = [],
     cdb_categories = [taxonomy_columns (\<lambda>s. s) (linen_input ''Linen'') 0 None None], cdb_collections = [],
     cdb_urlSlugs = [\<lparr>sr_slug = ''linen'', sr_entityType = ''category'', sr_entityId = 0, sr_isCanonical = True\<rparr>], cdb_audit = []\<rparr>"

lemma linen_catalog_ok: "catalog_ok linen_catalog"
  unfolding catalog_ok_def slugs_inv_def linen_catalog_def slug_rows_ok_def slugs_kept_def entities_def addressed_def taxonomy_columns_def
  by (simp add: inj_on_def)

theorem urls_never_break_witness:
  "catalog_ok (catalog_run (\<lambda>s. s) 7 [UpdateCategory 0 (linen_input ''Pure Linen''), CreateCollection (linen_input ''Linen'')] linen_catalog) \<and>
   leads_to (catalog_run (\<lambda>s. s) 7 [UpdateCategory 0 (linen_input ''Pure Linen''), CreateCollection (linen_input ''Linen'')] linen_catalog)
     ''linen'' ''category'' 0"
  using urls_never_break[OF linen_catalog_ok, where sanitize = "\<lambda>s. s" and actor = 7
      and ops = "[UpdateCategory 0 (linen_input ''Pure Linen''), CreateCollection (linen_input ''Linen'')]"]
  by (simp add: Let_def linen_catalog_def)

lemma linen_renamed:
  "resolveStorefrontSlug ''linen''
     (catalog_run (\<lambda>s. s) 7 [UpdateCategory 0 (linen_input ''Pure Linen''), CreateCollection (linen_input ''Linen'')] linen_catalog) =
   redirect ''pure-linen''"
  by code_simp

end
