(* ===== verification/CategoryTree.thy ===== *)
theory CategoryTree
  imports CatalogWrites
begin

text \<open>
  The categories under all writes of the catalog: the tree stays a forest, which is what lets the
  console and the storefront walk it.
\<close>

text \<open>Ids are unique, a parent is a category of the table, and no live category is below itself.\<close>

definition category_tree_ok :: "taxonomy_row list \<Rightarrow> bool" where
  "category_tree_ok rows \<longleftrightarrow>
     distinct (map tx_id rows) \<and> (\<forall>t \<in> set rows. \<forall>p. tx_parentId t = Some p \<longrightarrow> p \<in> tx_id ` set rows) \<and>
     acyclic (child_of (category_nodes rows))"

definition tree_ok :: "catalog_db \<Rightarrow> bool" where
  "tree_ok db \<longleftrightarrow> category_tree_ok (cdb_categories db)"

lemma child_of_nodes:
  "(p, i) \<in> child_of (category_nodes rows) \<longleftrightarrow> (\<exists>t \<in> set rows. tx_deletedAt t = None \<and> tx_id t = i \<and> tx_parentId t = Some p)"
  unfolding child_of_iff category_nodes_def by auto

text \<open>A category is added below one of the table, or as a root.\<close>

lemma insert_category:
  assumes ok: "category_tree_ok rows" and new: "tx_id t \<notin> tx_id ` set rows"
    and parent: "\<forall>p. tx_parentId t = Some p \<longrightarrow> p \<in> tx_id ` set rows"
  shows "category_tree_ok (rows @ [t])"
proof -
  let ?c = "child_of (category_nodes rows)"
  let ?e = "case tx_parentId t of Some p \<Rightarrow> {(p, tx_id t)} | None \<Rightarrow> {}"
  have ac: "acyclic ?c" and fk: "\<forall>t \<in> set rows. \<forall>p. tx_parentId t = Some p \<longrightarrow> p \<in> tx_id ` set rows"
    using ok unfolding category_tree_ok_def by blast+
  have sub: "child_of (category_nodes (rows @ [t])) \<subseteq> ?c \<union> ?e"
  proof
    fix e assume e: "e \<in> child_of (category_nodes (rows @ [t]))"
    obtain p i where pi: "e = (p, i)" by fastforce
    then obtain u where u: "u \<in> set (rows @ [t])" "tx_deletedAt u = None" "tx_id u = i" "tx_parentId u = Some p"
      using e child_of_nodes by blast
    show "e \<in> ?c \<union> ?e"
    proof (cases "u = t")
      case True
      then show ?thesis using u pi by simp
    next
      case False
      then show ?thesis using u pi child_of_nodes by auto
    qed
  qed
  have leaf: "(tx_id t, x) \<notin> ?c" for x using fk new unfolding child_of_nodes by blast
  have stuck: "x = tx_id t" if "(tx_id t, x) \<in> ?c\<^sup>*" for x
    using that leaf by (cases rule: converse_rtranclE) blast+
  have "acyclic (?c \<union> ?e)"
  proof (cases "tx_parentId t")
    case (Some p)
    then have "(tx_id t, p) \<notin> ?c\<^sup>*" using stuck parent new by blast
    then show ?thesis using Some ac by (simp add: acyclic_insert)
  qed (use ac in simp)
  then have "acyclic (child_of (category_nodes (rows @ [t])))" using sub by (rule acyclic_subset)
  moreover have "distinct (map tx_id (rows @ [t]))" using ok new unfolding category_tree_ok_def by simp
  ultimately show ?thesis using fk parent unfolding category_tree_ok_def by auto
qed

text \<open>A category is moved to a category that is not below it.\<close>

lemma move_category:
  assumes ok: "category_tree_ok rows" and keeps: "\<And>t. tx_id (f t) = i" "\<And>t. tx_parentId (f t) = parent"
    "\<And>t. tx_deletedAt (f t) = tx_deletedAt t"
    and parent: "\<forall>p. parent = Some p \<longrightarrow> p \<in> tx_id ` set rows \<and> (i, p) \<notin> (child_of (category_nodes rows))\<^sup>*"
  shows "category_tree_ok (upd (\<lambda>t. tx_id t = i) f rows)"
proof -
  let ?rows = "upd (\<lambda>t. tx_id t = i) f rows"
  let ?c = "child_of (category_nodes rows)"
  let ?r = "?c - {(p, i) | p. True}"
  let ?e = "case parent of Some p \<Rightarrow> {(p, i)} | None \<Rightarrow> {}"
  have ids: "map tx_id ?rows = map tx_id rows" unfolding upd_def map_map comp_def by (intro map_cong[OF refl]) (simp add: keeps(1))
  then have set_ids: "tx_id ` set ?rows = tx_id ` set rows" by (metis set_map)
  have ac: "acyclic ?c" and fk: "\<forall>t \<in> set rows. \<forall>p. tx_parentId t = Some p \<longrightarrow> p \<in> tx_id ` set rows"
    using ok unfolding category_tree_ok_def by blast+
  have row: "tx_id u = i \<and> tx_parentId u = parent \<or> tx_id u \<noteq> i \<and> u \<in> set rows" if "u \<in> set ?rows" for u
    using that keeps(1,2) unfolding upd_def by auto
  have sub: "child_of (category_nodes ?rows) \<subseteq> ?r \<union> ?e"
  proof
    fix e assume e: "e \<in> child_of (category_nodes ?rows)"
    obtain p j where pj: "e = (p, j)" by fastforce
    then obtain u where u: "u \<in> set ?rows" "tx_deletedAt u = None" "tx_id u = j" "tx_parentId u = Some p"
      using e child_of_nodes by blast
    show "e \<in> ?r \<union> ?e"
    proof (cases "j = i")
      case True
      then have "parent = Some p" using row[OF u(1)] u(3,4) by simp
      then show ?thesis using True pj by simp
    next
      case False
      then have "u \<in> set rows" using row[OF u(1)] u(3) by blast
      then have "(p, j) \<in> ?c" using u(2-4) child_of_nodes by blast
      then show ?thesis using False pj by blast
    qed
  qed
  have ac_r: "acyclic ?r" using ac by (rule acyclic_subset) blast
  have "acyclic (?r \<union> ?e)"
  proof (cases parent)
    case (Some p)
    have "(i, p) \<notin> ?r\<^sup>*" using parent Some rtrancl_mono[of ?r ?c] by blast
    then show ?thesis using Some ac_r by (simp add: acyclic_insert)
  qed (use ac_r in simp)
  then have "acyclic (child_of (category_nodes ?rows))" using sub by (rule acyclic_subset)
  moreover have "\<forall>t \<in> set ?rows. \<forall>p. tx_parentId t = Some p \<longrightarrow> p \<in> tx_id ` set ?rows"
  proof (intro ballI allI impI)
    fix t p assume t: "t \<in> set ?rows" "tx_parentId t = Some p"
    show "p \<in> tx_id ` set ?rows" unfolding set_ids using row[OF t(1)] t(2) parent fk by auto
  qed
  ultimately show ?thesis using ok unfolding category_tree_ok_def ids by blast
qed

section \<open>The writers\<close>

lemma tree_write: "(\<And>db. cdb_categories (f db) = cdb_categories db) \<Longrightarrow> keeps (\<lambda>db. P (cdb_categories db)) (twrite f)"
  by (rule keeps_write) simp

text \<open>Statements that leave the categories alone.\<close>

lemma leaves_categories:
  "keeps (\<lambda>db. P (cdb_categories db)) new_catalog_id"
  "keeps (\<lambda>db. P (cdb_categories db)) (setCanonicalSlug t i desired)"
  "keeps (\<lambda>db. P (cdb_categories db)) (audit_catalog a b c d e f)"
  "keeps (\<lambda>db. P (cdb_categories db)) (check_product productId inp)"
proof -
  show "keeps (\<lambda>db. P (cdb_categories db)) new_catalog_id"
    unfolding new_catalog_id_def by (auto intro: keepsI)
  show "keeps (\<lambda>db. P (cdb_categories db)) (setCanonicalSlug t i desired)"
    unfolding setCanonicalSlug_def by (auto intro!: keepsI split: sum.splits)
  show "keeps (\<lambda>db. P (cdb_categories db)) (audit_catalog a b c d e f)"
    unfolding audit_catalog_def by (intro tree_write) simp
  show "keeps (\<lambda>db. P (cdb_categories db)) (check_product productId inp)"
    unfolding check_product_def skuIssues_def assertMediaVisible_def assertTaxonomyVisible_def assertVisible_def case_prod_beta Let_def
    by (intro keeps_rules)
qed

lemma leaves_categories':
  "keeps (\<lambda>db. P (cdb_categories db)) (write_children productId inp)"
  unfolding write_children_def writeOptions_def insert_option_def writeVariants_def write_variant_def writeMembership_def writeGallery_def
    case_prod_beta Let_def
  by (intro keeps_rules leaves_categories tree_write) simp_all

lemma hoare_read: "(\<And>x. hoare (\<lambda>s. P s \<and> x = g s) (f x) Q) \<Longrightarrow> hoare P (tbind (tread g) f) Q"
  by (auto simp: hoare_def tbind_def)

lemma hoare_guard: "(ok \<Longrightarrow> hoare P (f ()) Q) \<Longrightarrow> hoare P (tbind (tguard ok e) f) Q"
  by (auto simp: hoare_def tbind_def)

lemma hoare_throw: "hoare P (tthrow e) Q"
  by (simp add: hoare_def)

lemma hoare_weaken: "hoare P m Q \<Longrightarrow> (\<And>s. P' s \<Longrightarrow> P s) \<Longrightarrow> hoare P' m Q"
  unfolding hoare_def by blast

lemma keeps_after: "keeps P m \<Longrightarrow> (\<And>x. hoare P (f x) Q) \<Longrightarrow> hoare P (tbind m f) Q"
  unfolding keeps_def by (rule hoare_bind)

text \<open>A row is written, the rest of the transaction leaves the categories alone.\<close>

lemma write_then_rest:
  assumes "\<And>db. P (cdb_categories db) \<Longrightarrow> category_tree_ok (cdb_categories (w db))" "\<And>x. keeps tree_ok (f x)"
  shows "hoare (\<lambda>db. P (cdb_categories db)) (tbind (twrite w) f) (\<lambda>_. tree_ok)"
proof (rule hoare_bind)
  show "hoare (\<lambda>db. P (cdb_categories db)) (twrite w) (\<lambda>_. tree_ok)" using assms(1) by (simp add: hoare_def tree_ok_def)
  show "hoare tree_ok (f x) (\<lambda>_. tree_ok)" for x using assms(2) by (simp add: keeps_def)
qed

lemma tree_keeps [keeps_rules]:
  "keeps tree_ok new_catalog_id" "keeps tree_ok (setCanonicalSlug t i desired)" "keeps tree_ok (audit_catalog a b c d e f)"
  "keeps tree_ok (check_product productId inp)" "keeps tree_ok (write_children j inp)"
  unfolding tree_ok_def by (rule leaves_categories leaves_categories')+

text \<open>The parent of a new category, and of one that moves.\<close>

definition parent_found :: "uuid option \<Rightarrow> taxonomy_row list \<Rightarrow> bool" where
  "parent_found parent rows \<longleftrightarrow> category_tree_ok rows \<and> (\<forall>p. parent = Some p \<longrightarrow> p \<in> tx_id ` set rows)"

definition parent_above :: "uuid \<Rightarrow> uuid option \<Rightarrow> taxonomy_row list \<Rightarrow> bool" where
  "parent_above i parent rows \<longleftrightarrow>
     parent_found parent rows \<and> (\<forall>p. parent = Some p \<longrightarrow> (i, p) \<notin> (child_of (category_nodes rows))\<^sup>*)"

lemma assertCategoryExists_found:
  "hoare tree_ok (assertCategoryExists p) (\<lambda>_ db. parent_found (Some p) (cdb_categories db))"
proof (rule hoareI)
  fix db u db' assume t: "tree_ok db" and run: "assertCategoryExists p db = Inr (u, db')"
  then have found: "find (\<lambda>t. tx_id t = p \<and> tx_deletedAt t = None) (cdb_categories db) \<noteq> None" and db': "db' = db"
    unfolding assertCategoryExists_def by (simp_all add: tbind_eq_Inr split: if_splits)
  then have "p \<in> tx_id ` set (cdb_categories db)" unfolding find_None_set by blast
  then show "parent_found (Some p) (cdb_categories db')" using t unfolding db' parent_found_def tree_ok_def by simp
qed

lemma resolveParent_above:
  "hoare tree_ok (resolveParent i parent) (\<lambda>q db. parent_above i q (cdb_categories db))"
proof (cases parent)
  case None
  then show ?thesis by (simp add: resolveParent_def hoare_def parent_above_def parent_found_def tree_ok_def)
next
  case (Some p)
  have "hoare (\<lambda>db. parent_found (Some p) (cdb_categories db))
    (tbind (tread (\<lambda>db. category_nodes (cdb_categories db))) (\<lambda>nodes.
       tbind (tguard (\<not> isDescendant nodes i p) (CatalogValidationError [''parentId''])) (\<lambda>_. treturn (Some p))))
    (\<lambda>q db. parent_above i q (cdb_categories db))"
    by (rule hoare_read, rule hoare_guard) (auto simp: hoare_def parent_above_def isDescendant_iff)
  then show ?thesis unfolding resolveParent_def Some option.case by (rule hoare_bind[OF assertCategoryExists_found])
qed

lemma createCategory_tree: "akeeps tree_ok (createCategory sanitize actor inp)"
  unfolding createCategory_def case_prod_beta not_own_parent_def
proof (rule akeeps_commit, unfold keeps_def, rule hoare_bind)
  show "hoare tree_ok (case ti_parentId inp of None \<Rightarrow> treturn () | Some p \<Rightarrow> assertCategoryExists p)
      (\<lambda>_ db. parent_found (ti_parentId inp) (cdb_categories db))"
  proof (cases "ti_parentId inp")
    case None
    then show ?thesis by (simp add: hoare_def parent_found_def tree_ok_def)
  next
    case (Some p)
    then show ?thesis using assertCategoryExists_found[of p] by simp
  qed
next
  fix u :: unit
  show "hoare (\<lambda>db. parent_found (ti_parentId inp) (cdb_categories db))
     (tbind new_catalog_id (\<lambda>i. tbind (tread cdb_categories) (\<lambda>rows.
        tbind (tguard (\<not> list_ex (\<lambda>t. tx_id t = i) rows) (uniqueViolation ''categories_pkey'')) (\<lambda>_.
        tbind (tguard (ti_parentId inp \<noteq> Some i) (checkViolation ''categories_parent_not_self_check'')) (\<lambda>_.
        tbind (twrite (\<lambda>db. db\<lparr>cdb_categories := cdb_categories db @ [taxonomy_columns sanitize inp i (ti_parentId inp) None]\<rparr>)) (\<lambda>_.
        tbind (setCanonicalSlug ''category'' i (desired_slug (ti_slug inp) (ti_title inp))) (\<lambda>p.
        tbind (audit_catalog actor ''category.created'' ''category'' i JNull (taxonomy_json (ti_title inp) (Some (fst p)) (ti_isVisible inp)))
          (\<lambda>_. treturn \<lparr>tr_id = i, tr_slug = fst p, tr_previousSlug = None\<rparr>))))))))
     (\<lambda>_. tree_ok)"
  proof (rule keeps_after[OF leaves_categories(1)], rule hoare_read, rule hoare_guard, rule hoare_guard, goal_cases)
    case (1 i rows)
    have new: "category_tree_ok (rows @ [taxonomy_columns sanitize inp i (ti_parentId inp) None])" if "parent_found (ti_parentId inp) rows"
      using that 1(1) insert_category[of rows "taxonomy_columns sanitize inp i (ti_parentId inp) None"]
      by (auto simp: parent_found_def taxonomy_columns_def list_ex_iff)
    show ?case
    proof (rule hoare_weaken[OF write_then_rest[where P = "\<lambda>r. parent_found (ti_parentId inp) r \<and> r = rows"]], goal_cases)
      case (1 db)
      then show ?case using new by auto
    next
      case (2 x)
      show ?case by (intro keeps_rules)
    next
      case (3 db)
      then show ?case by blast
    qed
  qed
qed

lemma updateCategory_tree: "akeeps tree_ok (updateCategory sanitize actor categoryId inp)"
  unfolding updateCategory_def case_prod_beta not_own_parent_def
proof (rule akeeps_commit, unfold keeps_def, rule keeps_after[OF keeps_read], goal_cases)
  case (1 found)
  show ?case
  proof (cases found)
    case (Some t)
    have moved: "category_tree_ok (upd (\<lambda>t. tx_id t = categoryId) (\<lambda>t. taxonomy_columns sanitize inp categoryId q (tx_deletedAt t)) rows)"
      if "parent_above categoryId q rows" for q rows
      by (rule move_category[where parent = q]) (use that in \<open>simp_all add: parent_above_def parent_found_def taxonomy_columns_def\<close>)
    show ?thesis unfolding Some option.case
      by (rule hoare_bind[OF resolveParent_above], rule hoare_guard, rule write_then_rest) (use moved in simp, intro keeps_rules)
  qed (simp add: hoare_throw)
qed

lemma other_writers_tree:
  "akeeps tree_ok (createProduct sanitize actor pinp)" "akeeps tree_ok (updateProduct sanitize actor productId pinp)"
  "akeeps tree_ok (createCollection sanitize actor inp)" "akeeps tree_ok (updateCollection sanitize actor i inp)"
proof -
  have w: "keeps tree_ok (twrite f)" if "\<And>db. cdb_categories (f db) = cdb_categories db" for f
    using tree_write[OF that] unfolding tree_ok_def .
  show "akeeps tree_ok (createProduct sanitize actor pinp)"
    unfolding createProduct_def createProductInTx_def case_prod_beta by (intro keeps_rules w) simp
  show "akeeps tree_ok (updateProduct sanitize actor productId pinp)"
    unfolding updateProduct_def updateProductInTx_def snapshotProduct_def case_prod_beta by (intro keeps_rules w) simp
  show "akeeps tree_ok (createCollection sanitize actor inp)"
    unfolding createCollection_def case_prod_beta by (intro keeps_rules w) simp
  show "akeeps tree_ok (updateCollection sanitize actor i inp)"
    unfolding updateCollection_def case_prod_beta by (intro keeps_rules w) simp
qed

text \<open>
  C28.  No write of the catalog ties the categories into a loop: whatever is created, renamed or
  moved, in whatever order, ids stay unique, every parent is a category of the store, and no category
  comes to lie below itself.
\<close>

theorem categories_stay_a_forest:
  assumes "tree_ok db"
  shows "tree_ok (catalog_run sanitize actor ops db)"
  unfolding catalog_run_def using assms
proof (induction ops arbitrary: db)
  case (Cons op ops)
  have "tree_ok (catalog_step sanitize actor op db)"
    using Cons.prems by (cases op) (simp_all add: catalog_step_def akeepsD createCategory_tree updateCategory_tree other_writers_tree)
  then show ?case using Cons.IH by simp
qed simp

text \<open>Two categories, the second filed under the first; filing the first under the second is refused.\<close>

definition category_input :: "string \<Rightarrow> uuid option \<Rightarrow> taxonomy_input" where
  "category_input title' parent =
    \<lparr>ti_title = title', ti_slug = None, ti_description = None, ti_parentId = parent, ti_position = 0, ti_isVisible = True,
     ti_seo = \<lparr>seo_title = None, seo_description = None, seo_noindex = False\<rparr>\<rparr>"

definition empty_catalog :: catalog_db where
  "empty_catalog =
    \<lparr>cdb_now = 1000, cdb_uuidv7 = (\<lambda>n. n), cdb_drawn = 0, cdb_products = [], cdb_variants = [], cdb_options = [],
     cdb_productCategories = [], cdb_productCollections = [], cdb_productMedia = [], cdb_media = [],
     cdb_categories = [], cdb_collections = [], cdb_urlSlugs = [], cdb_audit = []\<rparr>"

definition loop_attempt :: "catalog_op list" where
  "loop_attempt = [CreateCategory (category_input ''Men'' None), CreateCategory (category_input ''Shirts'' (Some 0)),
     UpdateCategory 0 (category_input ''Men'' (Some 1))]"

theorem categories_stay_a_forest_witness:
  "tree_ok (catalog_run (\<lambda>s. s) 7 loop_attempt empty_catalog) \<and>
   map tx_parentId (cdb_categories (catalog_run (\<lambda>s. s) 7 loop_attempt empty_catalog)) = [None, Some 0]"
proof
  show "tree_ok (catalog_run (\<lambda>s. s) 7 loop_attempt empty_catalog)"
    by (rule categories_stay_a_forest)
       (simp add: tree_ok_def category_tree_ok_def empty_catalog_def category_nodes_def child_of_def childrenOf_def acyclic_def)
  show "map tx_parentId (cdb_categories (catalog_run (\<lambda>s. s) 7 loop_attempt empty_catalog)) = [None, Some 0]"
    by code_simp
qed

end
