(* ===== verification/CatalogImport.thy ===== *)
theory CatalogImport
  imports CatalogWrites CsvCatalog
begin

text \<open>
  The import runner and the export, \<open>packages/core/src/catalog/bulk.ts\<close>, with the two reads of
  \<open>console-queries.ts\<close> they rest on.  A draft is merged over the stored product and written through
  the write layer when that changes something; the whole file is one transaction, rolled back by a dry
  run.  Messages and the cache purge are left out.
\<close>

section \<open>Reading a product\<close>

record console_variant =
  kv_id :: uuid
  kv_sku :: string
  kv_barcode :: "string option"
  kv_options :: option_selection
  kv_pricePaise :: paise
  kv_compareAtPaise :: "paise option"
  kv_costPaise :: "paise option"
  kv_weightGrams :: int
  kv_lowStockAt :: "int option"
  kv_tracksInventory :: bool
  kv_imageMediaId :: "uuid option"
  kv_isActive :: bool

record console_product =
  kp_id :: uuid
  kp_slug :: "string option"
  kp_title :: string
  kp_summary :: "string option"
  kp_description :: "string option"
  kp_status :: product_status
  kp_productType :: "string option"
  kp_vendor :: "string option"
  kp_tags :: "string list"
  kp_hsnCode :: "string option"
  kp_taxRateBps :: "int option"
  kp_seo :: seo_data
  kp_axes :: "option_axis list"
  kp_variants :: "console_variant list"
  kp_media :: "uuid list"
  kp_categoryIds :: "uuid list"
  kp_collectionIds :: "uuid list"

definition console_variant_of :: "catalog_variant \<Rightarrow> console_variant" where
  "console_variant_of v =
    \<lparr>kv_id = cv_id v, kv_sku = cv_sku v, kv_barcode = cv_barcode v, kv_options = cv_options v, kv_pricePaise = cv_pricePaise v,
     kv_compareAtPaise = cv_compareAtPaise v, kv_costPaise = cv_costPaise v, kv_weightGrams = cv_weightGrams v,
     kv_lowStockAt = cv_lowStockAt v, kv_tracksInventory = cv_tracksInventory v, kv_imageMediaId = cv_imageMediaId v,
     kv_isActive = cv_isActive v\<rparr>"

text \<open>The rows of options and values, in order, become axes; a name seen before grows its axis.\<close>

definition push_axis :: "option_axis list \<Rightarrow> option_row \<Rightarrow> option_axis list" where
  "push_axis axes r =
    (if list_ex (\<lambda>a. ax_name a = op_name r) axes
     then map (\<lambda>a. if ax_name a = op_name r
                   then a\<lparr>ax_values := ax_values a @ filter (\<lambda>v. v \<notin> set (ax_values a)) (js_unique (op_values r))\<rparr> else a) axes
     else axes @ [\<lparr>ax_name = op_name r, ax_values = js_unique (op_values r)\<rparr>])"

definition product_axes :: "catalog_db \<Rightarrow> uuid \<Rightarrow> option_axis list" where
  "product_axes db productId = foldl push_axis [] (sort_key op_position (filter (\<lambda>r. op_productId r = productId) (cdb_options db)))"

definition product_variants :: "catalog_db \<Rightarrow> uuid \<Rightarrow> console_variant list" where
  "product_variants db productId =
    map console_variant_of
      (sort_key cv_position (filter (\<lambda>v. cv_productId v = productId \<and> cv_deletedAt v = None) (cdb_variants db)))"

definition member_ids :: "member_row list \<Rightarrow> uuid \<Rightarrow> uuid list" where
  "member_ids rows productId = map mb_memberId (sort_key mb_position (filter (\<lambda>r. mb_productId r = productId) rows))"

definition console_product_of :: "catalog_db \<Rightarrow> catalog_product \<Rightarrow> console_product" where
  "console_product_of db p =
    \<lparr>kp_id = cp_id p, kp_slug = canonical_slug (cdb_urlSlugs db) ''product'' (cp_id p), kp_title = cp_title p, kp_summary = cp_summary p,
     kp_description = cp_description p, kp_status = cp_status p, kp_productType = cp_productType p, kp_vendor = cp_vendor p,
     kp_tags = cp_tags p, kp_hsnCode = cp_hsnCode p, kp_taxRateBps = cp_taxRateBps p, kp_seo = cp_seo p,
     kp_axes = product_axes db (cp_id p), kp_variants = product_variants db (cp_id p),
     kp_media = filter (\<lambda>i. list_ex (\<lambda>m. me_id m = i \<and> me_deletedAt m = None) (cdb_media db)) (member_ids (cdb_productMedia db) (cp_id p)),
     kp_categoryIds = member_ids (cdb_productCategories db) (cp_id p),
     kp_collectionIds = member_ids (cdb_productCollections db) (cp_id p)\<rparr>"

definition getProductForConsoleInTx :: "uuid \<Rightarrow> catalog_db \<Rightarrow> console_product option" where
  "getProductForConsoleInTx productId db =
    map_option (console_product_of db) (find (\<lambda>p. cp_id p = productId \<and> cp_deletedAt p = None) (cdb_products db))"

definition findByHandle :: "string \<Rightarrow> catalog_db \<Rightarrow> console_product option" where
  "findByHandle handle db =
    (case find (\<lambda>r. sr_entityType r = ''product'' \<and> sr_slug r = handle \<and> sr_isCanonical r) (cdb_urlSlugs db) of
       None \<Rightarrow> None
     | Some row \<Rightarrow>
         if \<not> list_ex (\<lambda>p. cp_id p = sr_entityId row \<and> cp_deletedAt p = None) (cdb_products db) then None
         else getProductForConsoleInTx (sr_entityId row) db)"

section \<open>Merging the file over what is stored\<close>

definition pick :: "'a option option \<Rightarrow> 'a option \<Rightarrow> 'a option" where
  "pick fromFile stored = (case fromFile of None \<Rightarrow> stored | Some v \<Rightarrow> v)"

definition or_else :: "'a option \<Rightarrow> 'a \<Rightarrow> 'a" where
  "or_else x d = (case x of None \<Rightarrow> d | Some v \<Rightarrow> v)"

definition mergeVariant :: "csv_variant_draft \<Rightarrow> console_variant option \<Rightarrow> variant_input" where
  "mergeVariant row existing =
    \<lparr>vi_id = map_option kv_id existing, vi_sku = vd_sku row,
      vi_barcode = pick (vd_barcode row) (Option.bind existing kv_barcode),
      vi_options = or_else (vd_options row) (or_else (map_option kv_options existing) []),
      vi_pricePaise = vd_pricePaise row,
      vi_compareAtPaise = pick (vd_compareAtPaise row) (Option.bind existing kv_compareAtPaise),
      vi_costPaise = pick (vd_costPaise row) (Option.bind existing kv_costPaise),
      vi_weightGrams = vd_weightGrams row,
      vi_lowStockAt = pick (vd_lowStockAt row) (Option.bind existing kv_lowStockAt),
      vi_tracksInventory = or_else (vd_tracksInventory row) (or_else (map_option kv_tracksInventory existing) False),
      vi_imageMediaId = Option.bind existing kv_imageMediaId,
      vi_isActive = or_else (vd_isActive row) (or_else (map_option kv_isActive existing) True)\<rparr>"

definition retainVariant :: "console_variant \<Rightarrow> variant_input" where
  "retainVariant v =
    \<lparr>vi_id = Some (kv_id v), vi_sku = kv_sku v, vi_barcode = kv_barcode v, vi_options = kv_options v, vi_pricePaise = kv_pricePaise v,
     vi_compareAtPaise = kv_compareAtPaise v, vi_costPaise = kv_costPaise v, vi_weightGrams = kv_weightGrams v,
     vi_lowStockAt = kv_lowStockAt v, vi_tracksInventory = kv_tracksInventory v, vi_imageMediaId = kv_imageMediaId v,
     vi_isActive = kv_isActive v\<rparr>"

text \<open>The entries of an object whose axis lacks their value add it there.\<close>

definition add_value :: "option_axis list \<Rightarrow> string \<times> string \<Rightarrow> option_axis list" where
  "add_value axes entry =
    (case find (\<lambda>a. ax_name a = fst entry) axes of
       None \<Rightarrow> axes
     | Some axis \<Rightarrow>
         if snd entry \<in> set (ax_values axis) then axes
         else (let (before, rest) = (takeWhile (\<lambda>a. ax_name a \<noteq> fst entry) axes, dropWhile (\<lambda>a. ax_name a \<noteq> fst entry) axes)
               in before @ axis\<lparr>ax_values := ax_values axis @ [snd entry]\<rparr> # tl rest))"

definition add_axis :: "option_axis list \<Rightarrow> string \<Rightarrow> option_axis list" where
  "add_axis axes name = (if list_ex (\<lambda>a. ax_name a = name) axes then axes else axes @ [\<lparr>ax_name = name, ax_values = []\<rparr>])"

definition mergeAxes :: "csv_product_draft \<Rightarrow> console_product option \<Rightarrow> variant_input list \<Rightarrow> option_axis list" where
  "mergeAxes draft existing variants =
    (let stored = (case existing of None \<Rightarrow> [] | Some p \<Rightarrow> kp_axes p);
         named = foldl add_axis stored (or_else (pd_optionNames draft) [])
     in foldl add_value named (concat (map vi_options variants)))"

record merged_product =
  mg_input :: product_input
  mg_variantRows :: "nat option list"

definition stored_variants :: "console_product option \<Rightarrow> console_variant list" where
  "stored_variants existing = (case existing of None \<Rightarrow> [] | Some p \<Rightarrow> kp_variants p)"

definition merged_variants :: "csv_product_draft \<Rightarrow> console_product option \<Rightarrow> (variant_input \<times> nat option) list" where
  "merged_variants draft existing =
    (let stored = stored_variants existing;
         byExistingSku = map_of (rev (map (\<lambda>v. (kv_sku v, v)) stored))
     in map (\<lambda>row. (mergeVariant row (byExistingSku (vd_sku row)), Some (vd_row row))) (pd_variants draft) @
        map (\<lambda>v. (retainVariant v, None)) (filter (\<lambda>v. kv_sku v \<notin> vd_sku ` set (pd_variants draft)) stored))"

definition status_of_csv :: "string \<Rightarrow> product_status" where
  "status_of_csv s = (if s = ''active'' then product_active else if s = ''archived'' then product_archived else product_draft)"

definition merged_seo :: "csv_product_draft \<Rightarrow> console_product option \<Rightarrow> seo_data" where
  "merged_seo draft existing =
    \<lparr>seo_title = pick (pd_seoTitle draft) (Option.bind existing (\<lambda>p. seo_title (kp_seo p))),
     seo_description = pick (pd_seoDescription draft) (Option.bind existing (\<lambda>p. seo_description (kp_seo p))),
     seo_noindex = or_else (pd_seoNoindex draft) (case existing of None \<Rightarrow> False | Some p \<Rightarrow> seo_noindex (kp_seo p))\<rparr>"

definition mergeProduct :: "csv_product_draft \<Rightarrow> console_product option \<Rightarrow> merged_product" where
  "mergeProduct draft existing =
    (let pairs = merged_variants draft existing; variants = map fst pairs in
     \<lparr>mg_input =
        \<lparr>pi_title = (if pd_title draft \<noteq> [] then pd_title draft else case existing of None \<Rightarrow> [] | Some p \<Rightarrow> kp_title p),
         pi_slug = Some (pd_handle draft),
         pi_summary = pick (pd_summary draft) (Option.bind existing kp_summary),
         pi_description = pick (pd_description draft) (Option.bind existing kp_description),
         pi_status = or_else (map_option status_of_csv (pd_status draft)) (case existing of None \<Rightarrow> product_draft | Some p \<Rightarrow> kp_status p),
         pi_productType = pick (pd_productType draft) (Option.bind existing kp_productType),
         pi_vendor = pick (pd_vendor draft) (Option.bind existing kp_vendor),
         pi_tags = or_else (pd_tags draft) (case existing of None \<Rightarrow> [] | Some p \<Rightarrow> kp_tags p),
         pi_hsnCode = pick (pd_hsnCode draft) (Option.bind existing kp_hsnCode),
         pi_taxRateBps = pick (pd_taxRateBps draft) (Option.bind existing kp_taxRateBps),
         pi_seo = merged_seo draft existing,
         pi_axes = mergeAxes draft existing variants,
         pi_variants = variants,
         pi_categoryIds = (case existing of None \<Rightarrow> [] | Some p \<Rightarrow> kp_categoryIds p),
         pi_collectionIds = (case existing of None \<Rightarrow> [] | Some p \<Rightarrow> kp_collectionIds p),
         pi_media = (case existing of None \<Rightarrow> [] | Some p \<Rightarrow> map (\<lambda>i. (i, None)) (kp_media p))\<rparr>,
      mg_variantRows = map snd pairs\<rparr>)"

section \<open>Is this a change?\<close>

definition same_variant :: "variant_input \<Rightarrow> console_variant \<Rightarrow> bool" where
  "same_variant v stored \<longleftrightarrow>
     vi_sku v = kv_sku stored \<and> vi_barcode v = kv_barcode stored \<and> optionKey (vi_options v) = optionKey (kv_options stored) \<and>
     vi_pricePaise v = kv_pricePaise stored \<and> vi_compareAtPaise v = kv_compareAtPaise stored \<and> vi_costPaise v = kv_costPaise stored \<and>
     vi_weightGrams v = kv_weightGrams stored \<and> vi_lowStockAt v = kv_lowStockAt stored \<and>
     vi_tracksInventory v = kv_tracksInventory stored \<and> vi_imageMediaId v = kv_imageMediaId stored \<and> vi_isActive v = kv_isActive stored"

definition label :: "bool \<Rightarrow> string \<Rightarrow> bool \<Rightarrow> string list" where
  "label same name cleared = (if same then [] else [if cleared then name @ '' (cleared)'' else name])"

definition was_filled :: "string option \<Rightarrow> bool" where
  "was_filled s \<longleftrightarrow> s \<noteq> None \<and> s \<noteq> Some []"

definition changedFields :: "(string \<Rightarrow> string) \<Rightarrow> product_input \<Rightarrow> console_product \<Rightarrow> string list" where
  "changedFields sanitize inp existing =
    label (pi_title inp = kp_title existing) ''title'' False @
    label (Some (slugify (Some ''item'') (or_else (pi_slug inp) (pi_title inp))) = kp_slug existing) ''slug'' False @
    label (pi_summary inp = kp_summary existing) ''summary'' (pi_summary inp = None \<and> was_filled (kp_summary existing)) @
    label (cleanDescription sanitize (pi_description inp) = kp_description existing) ''description''
      (cleanDescription sanitize (pi_description inp) = None \<and> was_filled (kp_description existing)) @
    label (pi_status inp = kp_status existing) ''status'' False @
    label (pi_productType inp = kp_productType existing) ''product type'' False @
    label (pi_vendor inp = kp_vendor existing) ''vendor'' (pi_vendor inp = None \<and> was_filled (kp_vendor existing)) @
    label (pi_hsnCode inp = kp_hsnCode existing) ''HSN code'' False @
    label (pi_taxRateBps inp = kp_taxRateBps existing) ''tax rate'' False @
    label (pi_tags inp = kp_tags existing) ''tags'' False @
    label (cleanSeo (pi_seo inp) = cleanSeo (kp_seo existing)) ''SEO'' False @
    label (pi_axes inp = kp_axes existing) ''options'' False @
    label (list_all2 same_variant (pi_variants inp) (kp_variants existing)) ''variants'' False"

section \<open>Issues of the write layer as cells of the sheet\<close>

definition PATH_COLUMNS :: "string \<Rightarrow> string option" where
  "PATH_COLUMNS = map_of [(''sku'', ''sku''), (''slug'', ''handle''), (''axes'', ''option1_name''), (''categoryIds'', ''handle''),
     (''collectionIds'', ''handle''), (''media'', ''handle'')]"

definition is_word_char :: "char \<Rightarrow> bool" where
  "is_word_char c \<longleftrightarrow> is_alnum c \<or> c = CHR ''_''"

text \<open>\<open>/^variants\.(\d+)(?:\.(\w+))?$/\<close>: the index and the word, empty when there is none.\<close>

definition match_variant_path :: "string \<Rightarrow> (nat \<times> string) option" where
  "match_variant_path path =
    (if take 9 path \<noteq> ''variants.'' then None
     else let digits = takeWhile is_digit (drop 9 path); rest = dropWhile is_digit (drop 9 path) in
       if digits = [] then None
       else if rest = [] then Some (read_nat digits, [])
       else if hd rest = CHR ''.'' \<and> tl rest \<noteq> [] \<and> list_all is_word_char (tl rest) then Some (read_nat digits, tl rest)
       else None)"

definition mapWriteIssues :: "string list \<Rightarrow> csv_product_draft \<Rightarrow> nat option list \<Rightarrow> csv_issue list" where
  "mapWriteIssues paths draft variantRows =
    (if paths = [] then [\<lparr>is_row = pd_row draft, is_column = None\<rparr>]
     else map (\<lambda>path. case match_variant_path path of
         Some (i, word) \<Rightarrow>
           \<lparr>is_row = (if i < length variantRows then or_else (variantRows ! i) (pd_row draft) else pd_row draft), is_column = PATH_COLUMNS word\<rparr>
       | None \<Rightarrow> \<lparr>is_row = pd_row draft, is_column = PATH_COLUMNS path\<rparr>) paths)"

section \<open>One product\<close>

datatype import_outcome = created | updated | skipped

record import_product_result =
  ir_handle :: string
  ir_row :: nat
  ir_outcome :: import_outcome
  ir_productId :: "uuid option"
  ir_slug :: "string option"
  ir_variantsWritten :: nat
  ir_variantsRetained :: nat
  ir_changes :: "string list"

record import_report =
  rp_committed :: bool
  rp_rows :: nat
  rp_created :: nat
  rp_updated :: nat
  rp_skipped :: nat
  rp_errored :: nat
  rp_issues :: "csv_issue list"
  rp_results :: "import_product_result list"

text \<open>What unwinds the transaction of an import; anything else thrown passes through.\<close>

datatype import_throw = ImportRejected "csv_issue list" | DryRunRollback import_report | ThrownError err

definition overflowIssues :: "csv_product_draft \<Rightarrow> merged_product \<Rightarrow> csv_issue list" where
  "overflowIssues draft merged =
    (if length (pi_variants (mg_input merged)) > MAX_VARIANTS_PER_PRODUCT
     then [\<lparr>is_row = pd_row draft, is_column = Some ''handle''\<rparr>] else []) @
    map (\<lambda>(i, axis). \<lparr>is_row = pd_row draft, is_column = (if i < MAX_OPTION_AXES then Some (option_value_column (i + 1)) else None)\<rparr>)
      (filter (\<lambda>(i, axis). length (ax_values axis) > MAX_OPTION_VALUES) (enumerate 0 (pi_axes (mg_input merged))))"

definition retained_count :: "csv_product_draft \<Rightarrow> console_product option \<Rightarrow> nat" where
  "retained_count draft existing = length (filter (\<lambda>v. \<not> list_ex (\<lambda>d. vd_sku d = kv_sku v) (pd_variants draft)) (stored_variants existing))"

definition import_result :: "csv_product_draft \<Rightarrow> nat \<Rightarrow> import_outcome \<Rightarrow> uuid \<Rightarrow> string option \<Rightarrow> string list \<Rightarrow> import_product_result" where
  "import_result draft retained outcome productId slug changes =
    \<lparr>ir_handle = pd_handle draft, ir_row = pd_row draft, ir_outcome = outcome, ir_productId = Some productId, ir_slug = slug,
     ir_variantsWritten = length (pd_variants draft), ir_variantsRetained = retained, ir_changes = changes\<rparr>"

definition import_failure :: "err \<Rightarrow> csv_product_draft \<Rightarrow> nat option list \<Rightarrow> import_throw" where
  "import_failure e draft variantRows =
    (case e of
       AppError code st paths \<Rightarrow>
         if code = ''catalog_invalid'' then ImportRejected (mapWriteIssues paths draft variantRows) else ThrownError e
     | _ \<Rightarrow> ThrownError e)"

definition applyProduct :: "(string \<Rightarrow> string) \<Rightarrow> uuid \<Rightarrow> csv_product_draft \<Rightarrow> catalog_db \<Rightarrow>
    import_throw + (import_product_result \<times> catalog_db)" where
  "applyProduct sanitize actor draft db =
    (let existing = findByHandle (pd_handle draft) db;
         merged = mergeProduct draft existing;
         retained = retained_count draft existing;
         changes = (case existing of None \<Rightarrow> [] | Some p \<Rightarrow> changedFields sanitize (mg_input merged) p)
     in if pi_title (mg_input merged) = [] then Inl (ImportRejected [\<lparr>is_row = pd_row draft, is_column = Some ''title''\<rparr>])
        else case existing of
          Some p \<Rightarrow>
            if changes = [] then Inr (import_result draft retained skipped (kp_id p) (kp_slug p) [], db)
            else if overflowIssues draft merged \<noteq> [] then Inl (ImportRejected (overflowIssues draft merged))
            else (case updateProductInTx sanitize actor (kp_id p) (mg_input merged) db of
                Inl e \<Rightarrow> Inl (import_failure e draft (mg_variantRows merged))
              | Inr (result, db') \<Rightarrow> Inr (import_result draft retained updated (rs_productId result) (Some (rs_slug result)) changes, db'))
        | None \<Rightarrow>
            if overflowIssues draft merged \<noteq> [] then Inl (ImportRejected (overflowIssues draft merged))
            else (case createProductInTx sanitize actor (mg_input merged) db of
                Inl e \<Rightarrow> Inl (import_failure e draft (mg_variantRows merged))
              | Inr (result, db') \<Rightarrow> Inr (import_result draft retained created (rs_productId result) (Some (rs_slug result)) [], db')))"

section \<open>The file\<close>

fun apply_products :: "(string \<Rightarrow> string) \<Rightarrow> uuid \<Rightarrow> csv_product_draft list \<Rightarrow> catalog_db \<Rightarrow>
    import_throw + (import_product_result list \<times> catalog_db)" where
  "apply_products sanitize actor [] db = Inr ([], db)"
| "apply_products sanitize actor (draft # drafts) db =
    (case applyProduct sanitize actor draft db of
       Inl t \<Rightarrow> Inl t
     | Inr (r, db') \<Rightarrow>
         (case apply_products sanitize actor drafts db' of
            Inl t \<Rightarrow> Inl t
          | Inr (rs, db'') \<Rightarrow> Inr (r # rs, db'')))"

definition count_outcome :: "import_outcome \<Rightarrow> import_product_result list \<Rightarrow> nat" where
  "count_outcome outcome results = length (filter (\<lambda>r. ir_outcome r = outcome) results)"

definition summarise :: "import_product_result list \<Rightarrow> nat \<Rightarrow> bool \<Rightarrow> import_report" where
  "summarise results rows committed =
    \<lparr>rp_committed = committed, rp_rows = rows, rp_created = count_outcome created results, rp_updated = count_outcome updated results,
     rp_skipped = count_outcome skipped results, rp_errored = 0, rp_issues = [],
     rp_results = (if committed then results
                   else map (\<lambda>r. if ir_outcome r = created then r\<lparr>ir_productId := None\<rparr> else r) results)\<rparr>"

definition rejected :: "csv_issue list \<Rightarrow> nat \<Rightarrow> import_report" where
  "rejected issues rows =
    \<lparr>rp_committed = False, rp_rows = rows, rp_created = 0, rp_updated = 0, rp_skipped = 0,
     rp_errored = length (js_unique (map is_row issues)), rp_issues = issues, rp_results = []\<rparr>"

definition MAX_IMPORT_ROWS :: nat where "MAX_IMPORT_ROWS = 5000"

text \<open>The body of the transaction: a dry run throws its report away with its writes.\<close>

definition import_tx :: "(string \<Rightarrow> string) \<Rightarrow> uuid \<Rightarrow> parsed_catalog \<Rightarrow> bool \<Rightarrow> catalog_db \<Rightarrow> import_throw + (import_report \<times> catalog_db)" where
  "import_tx sanitize actor parsed committing db =
    (case apply_products sanitize actor (pc_products parsed) db of
       Inl t \<Rightarrow> Inl t
     | Inr (results, db') \<Rightarrow>
         (let built = summarise results (pc_rowCount parsed) committing
          in if \<not> committing then Inl (DryRunRollback built) else Inr (built, db')))"

definition runCatalogImport :: "(string \<Rightarrow> string) \<Rightarrow> uuid \<Rightarrow> string list list \<Rightarrow> bool \<Rightarrow> import_report caction" where
  "runCatalogImport sanitize actor records committing db =
    (let parsed = parseCatalogCsv records;
         issues = pc_issues parsed @
           (if pc_rowCount parsed > MAX_IMPORT_ROWS then [\<lparr>is_row = 1, is_column = None\<rparr>] else [])
     in if issues \<noteq> [] then (Inr (rejected issues (pc_rowCount parsed)), db)
        else case import_tx sanitize actor parsed committing db of
          Inr (report, db') \<Rightarrow> (Inr report, db')
        | Inl (DryRunRollback report) \<Rightarrow> (Inr report, db)
        | Inl (ImportRejected issues) \<Rightarrow> (Inr (rejected issues (pc_rowCount parsed)), db)
        | Inl (ThrownError e) \<Rightarrow> (Inl e, db))"

section \<open>Export\<close>

definition EXPORT_PAGE_SIZE :: nat where "EXPORT_PAGE_SIZE = 100"

text \<open>
  A page of the export: the axes, the live variants and the canonical slug are read as the edit form
  reads them; the gallery and the memberships, which no column carries, are not used below.
\<close>

definition listProductsForExport :: "uuid option \<Rightarrow> catalog_db \<Rightarrow> console_product list" where
  "listProductsForExport afterId db =
    map (console_product_of db) (take EXPORT_PAGE_SIZE
      (sort_key cp_id (filter (\<lambda>p. cp_deletedAt p = None \<and> (case afterId of None \<Rightarrow> True | Some i \<Rightarrow> i < cp_id p)) (cdb_products db))))"

definition asCsvStatus :: "product_status \<Rightarrow> string" where
  "asCsvStatus = product_status_text"

definition export_variant_of :: "console_variant \<Rightarrow> export_variant" where
  "export_variant_of v =
    \<lparr>ev_sku = kv_sku v, ev_barcode = kv_barcode v, ev_options = kv_options v, ev_pricePaise = kv_pricePaise v,
     ev_compareAtPaise = kv_compareAtPaise v, ev_costPaise = kv_costPaise v, ev_weightGrams = kv_weightGrams v,
     ev_lowStockAt = kv_lowStockAt v, ev_isActive = kv_isActive v, ev_tracksInventory = kv_tracksInventory v\<rparr>"

definition export_product_of :: "string \<Rightarrow> console_product \<Rightarrow> export_product" where
  "export_product_of slug p =
    \<lparr>ep_slug = slug, ep_title = kp_title p, ep_status = asCsvStatus (kp_status p), ep_summary = kp_summary p,
     ep_description = kp_description p, ep_productType = kp_productType p, ep_vendor = kp_vendor p, ep_tags = kp_tags p,
     ep_hsnCode = kp_hsnCode p, ep_taxRateBps = kp_taxRateBps p, ep_seoTitle = seo_title (kp_seo p),
     ep_seoDescription = seo_description (kp_seo p), ep_seoNoindex = seo_noindex (kp_seo p), ep_axes = kp_axes p,
     ep_variants = map export_variant_of (kp_variants p)\<rparr>"

text \<open>The products of a page that the sheet can carry.\<close>

definition exported_of :: "console_product \<Rightarrow> export_product option" where
  "exported_of p = (case kp_slug p of None \<Rightarrow> None | Some slug \<Rightarrow> if kp_variants p = [] then None else Some (export_product_of slug p))"

text \<open>A page that is not empty ends with an id above the ones asked for, so the next starts later.\<close>

definition pending_products :: "uuid option \<Rightarrow> catalog_db \<Rightarrow> catalog_product list" where
  "pending_products afterId db =
    sort_key cp_id (filter (\<lambda>p. cp_deletedAt p = None \<and> (case afterId of None \<Rightarrow> True | Some i \<Rightarrow> i < cp_id p)) (cdb_products db))"

lemma export_page: "listProductsForExport afterId db = map (console_product_of db) (take EXPORT_PAGE_SIZE (pending_products afterId db))"
  by (simp add: listProductsForExport_def pending_products_def)

lemma console_id [simp]: "kp_id (console_product_of db p) = cp_id p"
  by (simp add: console_product_of_def)

lemma pending_shrinks:
  assumes "p \<in> set (pending_products afterId db)"
  shows "length (pending_products (Some (cp_id p)) db) < length (pending_products afterId db)"
proof -
  let ?P = "\<lambda>q. cp_deletedAt q = None \<and> (case afterId of None \<Rightarrow> True | Some i \<Rightarrow> i < cp_id q)"
  have p: "p \<in> set (cdb_products db)" "?P p" using assms by (simp_all add: pending_products_def)
  have "filter (\<lambda>q. cp_deletedAt q = None \<and> cp_id p < cp_id q) (cdb_products db) =
    filter (\<lambda>q. cp_id p < cp_id q) (filter ?P (cdb_products db))"
    unfolding filter_filter using p(2) by (intro filter_cong[OF refl]) (auto split: option.splits)
  moreover have "length (filter (\<lambda>q. cp_id p < cp_id q) (filter ?P (cdb_products db))) < length (filter ?P (cdb_products db))"
    using p by (intro length_filter_less[of p]) simp_all
  ultimately show ?thesis by (simp add: pending_products_def)
qed

function export_pages :: "catalog_db \<Rightarrow> uuid option \<Rightarrow> export_product list" where
  "export_pages db afterId =
    (let page = listProductsForExport afterId db in
     if page = [] then []
     else List.map_filter exported_of page @
       (if length page < EXPORT_PAGE_SIZE then [] else export_pages db (Some (kp_id (last page)))))"
  by pat_completeness auto

termination
proof (relation "measure (\<lambda>(db, afterId). length (pending_products afterId db))", goal_cases)
  case (2 db afterId page)
  then have ne: "take EXPORT_PAGE_SIZE (pending_products afterId db) \<noteq> []" by (simp add: export_page)
  have "last (take EXPORT_PAGE_SIZE (pending_products afterId db)) \<in> set (pending_products afterId db)"
    using last_in_set[OF ne] by (rule in_set_takeD)
  moreover have "kp_id (last page) = cp_id (last (take EXPORT_PAGE_SIZE (pending_products afterId db)))"
    using ne 2(1) by (simp add: export_page last_map)
  ultimately show ?case using pending_shrinks by simp
qed simp

declare export_pages.simps [simp del]

text \<open>\<open>exportCatalogCsv\<close>: the header line, then the lines of the products page by page.\<close>

definition exportCatalogCsv :: "catalog_db \<Rightarrow> string" where
  "exportCatalogCsv db = export_text (export_pages db None)"

end
