(* ===== verification/CatalogVariants.thy ===== *)
theory CatalogVariants
  imports CategoryTree
begin

text \<open>
  The variants under all writes of the catalog: what the unique indexes and CHECK constraints promise
  about the live rows, and that a row once given out stays, however the matrix is edited.
\<close>

definition live_row :: "catalog_variant \<Rightarrow> bool" where
  "live_row v \<longleftrightarrow> cv_deletedAt v = None"

text \<open>Two live rows may not share their SKU, nor their product and combination of options.\<close>

definition rows_clash :: "catalog_variant \<Rightarrow> catalog_variant \<Rightarrow> bool" where
  "rows_clash v w \<longleftrightarrow> cv_sku v = cv_sku w \<or> cv_productId v = cv_productId w \<and> set (cv_options v) = set (cv_options w)"

definition columns_ok :: "catalog_variant \<Rightarrow> bool" where
  "columns_ok v \<longleftrightarrow> 0 \<le> cv_pricePaise v \<and> 0 \<le> cv_weightGrams v \<and> (case cv_compareAtPaise v of Some c \<Rightarrow> 0 \<le> c | None \<Rightarrow> True)"

definition variant_rows_ok :: "catalog_variant list \<Rightarrow> bool" where
  "variant_rows_ok rows \<longleftrightarrow>
     distinct (map cv_id rows) \<and> (\<forall>v \<in> set rows. live_row v \<longrightarrow> columns_ok v) \<and>
     (\<forall>v \<in> set rows. \<forall>w \<in> set rows. live_row v \<longrightarrow> live_row w \<longrightarrow> rows_clash v w \<longrightarrow> cv_id v = cv_id w)"

text \<open>Every row of before is still there, under its product.\<close>

definition variants_kept :: "catalog_variant list \<Rightarrow> catalog_variant list \<Rightarrow> bool" where
  "variants_kept before rows \<longleftrightarrow>
     (\<forall>v \<in> set before. \<exists>w \<in> set rows. cv_id w = cv_id v \<and> cv_productId w = cv_productId v)"

definition variants_inv :: "catalog_variant list \<Rightarrow> catalog_variant list \<Rightarrow> bool" where
  "variants_inv before rows \<longleftrightarrow> variant_rows_ok rows \<and> variants_kept before rows"

text \<open>What the constraints admit.\<close>

lemma constraints_admit:
  assumes "variant_constraints row rows = Inr ()"
  shows "columns_ok row" "v \<in> set rows \<Longrightarrow> live_row v \<Longrightarrow> rows_clash v row \<Longrightarrow> cv_id v = cv_id row"
proof -
  show "columns_ok row"
    using assms unfolding variant_constraints_def Let_def columns_ok_def by (auto split: if_splits option.splits)
  show "cv_id v = cv_id row" if v: "v \<in> set rows" "live_row v" "rows_clash v row"
  proof (rule ccontr)
    assume "cv_id v \<noteq> cv_id row"
    then have o: "v \<in> set (filter (\<lambda>v. cv_id v \<noteq> cv_id row \<and> cv_deletedAt v = None) rows)" using v(1,2) by (simp add: live_row_def)
    then have "\<not> (cv_sku v = cv_sku row) \<and> \<not> (cv_productId v = cv_productId row \<and> set (cv_options v) = set (cv_options row))"
      using assms unfolding variant_constraints_def Let_def list_ex_iff by (auto split: if_splits)
    then show False using v(3) unfolding rows_clash_def by blast
  qed
qed

lemma rows_clash_sym: "rows_clash v w \<Longrightarrow> rows_clash w v"
  unfolding rows_clash_def by auto

text \<open>A row that the constraints admit takes the place of the one with its id, or comes as a new one.\<close>

lemma put_row:
  assumes ok: "variant_rows_ok rows" and admit: "variant_constraints row rows = Inr ()"
    and dist: "distinct (map cv_id rows')" and rows': "\<And>v. v \<in> set rows' \<Longrightarrow> v = row \<or> v \<in> set rows \<and> cv_id v \<noteq> cv_id row"
  shows "variant_rows_ok rows'"
proof -
  have old: "live_row v \<longrightarrow> columns_ok v" if "v \<in> set rows" for v using ok that unfolding variant_rows_ok_def by blast
  have one: "cv_id v = cv_id w" if "v \<in> set rows" "w \<in> set rows" "live_row v" "live_row w" "rows_clash v w" for v w
    using ok that unfolding variant_rows_ok_def by blast
  have "cv_id v = cv_id w" if v: "v \<in> set rows'" "w \<in> set rows'" "live_row v" "live_row w" "rows_clash v w" for v w
    using rows'[OF v(1)] rows'[OF v(2)]
  proof (elim disjE)
    assume "v = row" "w \<in> set rows \<and> cv_id w \<noteq> cv_id row"
    then show ?thesis using constraints_admit(2)[OF admit, of w] v(4,5) rows_clash_sym by blast
  next
    assume "v \<in> set rows \<and> cv_id v \<noteq> cv_id row" "w = row"
    then show ?thesis using constraints_admit(2)[OF admit, of v] v(3,5) by blast
  next
    assume "v \<in> set rows \<and> cv_id v \<noteq> cv_id row" "w \<in> set rows \<and> cv_id w \<noteq> cv_id row"
    then show ?thesis using one v(3-5) by blast
  qed simp
  moreover have "live_row v \<longrightarrow> columns_ok v" if "v \<in> set rows'" for v
    using rows'[OF that] old constraints_admit(1)[OF admit] by blast
  ultimately show ?thesis using dist unfolding variant_rows_ok_def by blast
qed

lemma add_row:
  assumes "variants_inv before rows" "variant_constraints row rows = Inr ()" "cv_id row \<notin> cv_id ` set rows"
  shows "variants_inv before (rows @ [row])"
proof -
  have ok: "variant_rows_ok rows" and kept: "variants_kept before rows" using assms(1) unfolding variants_inv_def by blast+
  have "variant_rows_ok (rows @ [row])"
  proof (rule put_row[OF ok assms(2)])
    show "distinct (map cv_id (rows @ [row]))" using ok assms(3) unfolding variant_rows_ok_def by simp
    show "v = row \<or> v \<in> set rows \<and> cv_id v \<noteq> cv_id row" if "v \<in> set (rows @ [row])" for v
      using that assms(3) by (metis Un_iff empty_iff imageI insert_iff list.set(1) list.set(2) set_append)
  qed
  moreover have "variants_kept before (rows @ [row])" using kept unfolding variants_kept_def by (metis UnCI set_append)
  ultimately show ?thesis unfolding variants_inv_def by blast
qed

lemma replace_row:
  assumes "variants_inv before rows" "variant_constraints row rows = Inr ()" "r \<in> set rows" "cv_id r = cv_id row" "cv_productId r = cv_productId row"
  shows "variants_inv before (upd (\<lambda>r. cv_id r = cv_id row) (\<lambda>_. row) rows)"
proof -
  let ?rows = "upd (\<lambda>r. cv_id r = cv_id row) (\<lambda>_. row) rows"
  have ok: "variant_rows_ok rows" and kept: "variants_kept before rows" using assms(1) unfolding variants_inv_def by blast+
  have ids: "map cv_id ?rows = map cv_id rows" unfolding upd_def map_map comp_def by (intro map_cong[OF refl]) simp
  have dist: "distinct (map cv_id rows)" using ok unfolding variant_rows_ok_def by blast
  have "variant_rows_ok ?rows"
  proof (rule put_row[OF ok assms(2)])
    show "distinct (map cv_id ?rows)" unfolding ids by (rule dist)
    show "v = row \<or> v \<in> set rows \<and> cv_id v \<noteq> cv_id row" if v: "v \<in> set ?rows" for v
    proof -
      obtain u where "u \<in> set rows" "v = (if cv_id u = cv_id row then row else u)" using v unfolding upd_def by auto
      then show ?thesis by (cases "cv_id u = cv_id row") simp_all
    qed
  qed
  moreover have "variants_kept before ?rows"
    unfolding variants_kept_def
  proof
    fix v assume "v \<in> set before"
    then obtain w where w: "w \<in> set rows" "cv_id w = cv_id v" "cv_productId w = cv_productId v" using kept unfolding variants_kept_def by blast
    have "(if cv_id w = cv_id row then row else w) \<in> set ?rows" using w(1) unfolding upd_def by auto
    moreover have "cv_id w = cv_id row \<Longrightarrow> w = r" using distinct_map_eq[OF dist w(1) assms(3)] assms(4) by simp
    ultimately show "\<exists>w \<in> set ?rows. cv_id w = cv_id v \<and> cv_productId w = cv_productId v"
      using w(2,3) assms(4,5) by (intro bexI[of _ "if cv_id w = cv_id row then row else w"]) auto
  qed
  ultimately show ?thesis unfolding variants_inv_def by blast
qed

lemma retire_rows:
  assumes "variants_inv before rows"
  shows "variants_inv before (upd P (\<lambda>v. v\<lparr>cv_deletedAt := Some t\<rparr>) rows)"
proof -
  let ?f = "\<lambda>v. if P v then v\<lparr>cv_deletedAt := Some t\<rparr> else v"
  have s: "set (upd P (\<lambda>v. v\<lparr>cv_deletedAt := Some t\<rparr>) rows) = ?f ` set rows" unfolding upd_def by simp
  have ids: "map cv_id (upd P (\<lambda>v. v\<lparr>cv_deletedAt := Some t\<rparr>) rows) = map cv_id rows" by (rule map_upd) simp
  have live: "live_row (?f v) \<Longrightarrow> ?f v = v" for v by (cases "P v") (simp_all add: live_row_def)
  have same: "cv_id (?f v) = cv_id v" "cv_productId (?f v) = cv_productId v" for v by (cases "P v"; simp)+
  show ?thesis
    unfolding variants_inv_def
  proof
    show "variant_rows_ok (upd P (\<lambda>v. v\<lparr>cv_deletedAt := Some t\<rparr>) rows)"
      using assms unfolding variants_inv_def variant_rows_ok_def ids s by (auto dest: live simp del: if_split) (metis live)+
    show "variants_kept before (upd P (\<lambda>v. v\<lparr>cv_deletedAt := Some t\<rparr>) rows)"
      unfolding variants_kept_def s
    proof
      fix v assume "v \<in> set before"
      then obtain w where w: "w \<in> set rows" "cv_id w = cv_id v" "cv_productId w = cv_productId v"
        using assms unfolding variants_inv_def variants_kept_def by blast
      show "\<exists>w \<in> ?f ` set rows. cv_id w = cv_id v \<and> cv_productId w = cv_productId v"
        by (rule bexI[OF _ imageI[OF w(1)]]) (simp only: same w(2,3))
    qed
  qed
qed

section \<open>The writers\<close>

definition vars_inv :: "catalog_variant list \<Rightarrow> catalog_db \<Rightarrow> bool" where
  "vars_inv before db \<longleftrightarrow> variants_inv before (cdb_variants db)"

lemma vars_write: "(\<And>db. cdb_variants (f db) = cdb_variants db) \<Longrightarrow> keeps (vars_inv before) (twrite f)"
  by (rule keeps_write) (simp add: vars_inv_def)

lemma vars_keep [keeps_rules]:
  "keeps (vars_inv before) new_catalog_id" "keeps (vars_inv before) (setCanonicalSlug t i desired)"
  "keeps (vars_inv before) (audit_catalog a b c d e f)" "keeps (vars_inv before) (check_product productId inp)"
proof -
  show "keeps (vars_inv before) new_catalog_id" unfolding new_catalog_id_def by (auto intro: keepsI simp: vars_inv_def)
  show "keeps (vars_inv before) (setCanonicalSlug t i desired)"
    unfolding setCanonicalSlug_def by (auto intro!: keepsI simp: vars_inv_def split: sum.splits)
  show "keeps (vars_inv before) (audit_catalog a b c d e f)" unfolding audit_catalog_def by (intro vars_write) simp
  show "keeps (vars_inv before) (check_product productId inp)"
    unfolding check_product_def skuIssues_def assertMediaVisible_def assertTaxonomyVisible_def assertVisible_def case_prod_beta Let_def
    by (intro keeps_rules)
qed

lemma hoare_lift: "(\<And>x. r = Inr x \<Longrightarrow> hoare P (f x) Q) \<Longrightarrow> hoare P (tbind (tlift r) f) Q"
  by (cases r) (auto simp: hoare_def tbind_def)

lemma variant_columns_simps [simp]:
  "cv_id (variant_columns i p n v) = i" "cv_productId (variant_columns i p n v) = p"
  by (simp_all add: variant_columns_def)

lemma write_variant_keeps: "keeps (vars_inv before) (write_variant productId entry)"
proof (cases entry)
  case (fields n v target)
  show ?thesis
  proof (cases target)
    case None
    show ?thesis unfolding write_variant_def fields None prod.case option.case keeps_def
    proof (rule keeps_after[OF vars_keep(1)], rule hoare_read, rule hoare_guard, rule hoare_lift, goal_cases)
      case (1 i rows u)
      have "cv_id (variant_columns i productId n v) \<notin> cv_id ` set rows" using 1(1) by (auto simp: list_ex_iff)
      then have "variants_inv before rows \<Longrightarrow> variants_inv before (rows @ [variant_columns i productId n v])"
        using add_row 1(2) by simp
      then show ?case by (auto simp: hoare_def vars_inv_def)
    qed
  next
    case (Some i)
    show ?thesis unfolding write_variant_def fields Some prod.case option.case keeps_def
    proof (rule hoare_read, goal_cases)
      case (1 rows)
      show ?case
      proof (cases "find (\<lambda>r. cv_id r = i) rows")
        case None
        then show ?thesis by (simp add: hoare_def)
      next
        case (Some r)
        let ?row = "variant_columns i (cv_productId r) n v"
        have r: "r \<in> set rows" "cv_id r = i" using find_eq_Some[OF Some] by simp_all
        show ?thesis unfolding Some option.case
        proof (rule hoare_lift)
          fix u assume u: "variant_constraints ?row rows = Inr u"
          have "variants_inv before rows \<Longrightarrow> variants_inv before (upd (\<lambda>r. cv_id r = i) (\<lambda>_. ?row) rows)"
            using replace_row[of before rows ?row r] u r by simp
          then show "hoare (\<lambda>s. vars_inv before s \<and> rows = cdb_variants s)
            (twrite (\<lambda>db. db\<lparr>cdb_variants := upd (\<lambda>r. cv_id r = i) (\<lambda>_. ?row) (cdb_variants db)\<rparr>)) (\<lambda>_. vars_inv before)"
            by (auto simp: hoare_def vars_inv_def)
        qed
      qed
    qed
  qed
qed

lemma writeVariants_keeps: "keeps (vars_inv before) (writeVariants productId variants)"
  unfolding writeVariants_def
  by (intro keeps_rules write_variant_keeps keeps_write) (simp add: vars_inv_def retire_rows)

lemma vars_children: "keeps (vars_inv before) (write_children productId inp)"
  unfolding write_children_def writeOptions_def insert_option_def writeMembership_def writeGallery_def case_prod_beta Let_def
  by (intro keeps_rules writeVariants_keeps vars_write) simp_all

lemma writers_vars:
  "akeeps (vars_inv before) (createProduct sanitize actor pinp)" "akeeps (vars_inv before) (updateProduct sanitize actor productId pinp)"
  "akeeps (vars_inv before) (createCategory sanitize actor inp)" "akeeps (vars_inv before) (updateCategory sanitize actor i inp)"
  "akeeps (vars_inv before) (createCollection sanitize actor inp)" "akeeps (vars_inv before) (updateCollection sanitize actor i inp)"
proof -
  show "akeeps (vars_inv before) (createProduct sanitize actor pinp)"
    unfolding createProduct_def createProductInTx_def case_prod_beta by (intro keeps_rules vars_write vars_children) simp
  show "akeeps (vars_inv before) (updateProduct sanitize actor productId pinp)"
    unfolding updateProduct_def updateProductInTx_def snapshotProduct_def case_prod_beta by (intro keeps_rules vars_write vars_children) simp
  show "akeeps (vars_inv before) (createCategory sanitize actor inp)"
    unfolding createCategory_def assertCategoryExists_def not_own_parent_def case_prod_beta by (intro keeps_rules vars_write) simp
  show "akeeps (vars_inv before) (updateCategory sanitize actor i inp)"
    unfolding updateCategory_def resolveParent_def assertCategoryExists_def not_own_parent_def case_prod_beta
    by (intro keeps_rules vars_write) simp
  show "akeeps (vars_inv before) (createCollection sanitize actor inp)"
    unfolding createCollection_def case_prod_beta by (intro keeps_rules vars_write) simp
  show "akeeps (vars_inv before) (updateCollection sanitize actor i inp)"
    unfolding updateCollection_def case_prod_beta by (intro keeps_rules vars_write) simp
qed

lemma catalog_run_vars: "vars_inv before db \<Longrightarrow> vars_inv before (catalog_run sanitize actor ops db)"
proof -
  have step: "vars_inv before db \<Longrightarrow> vars_inv before (catalog_step sanitize actor op db)" for op db
    by (cases op) (simp_all add: catalog_step_def akeepsD writers_vars)
  show "vars_inv before db \<Longrightarrow> vars_inv before (catalog_run sanitize actor ops db)"
    unfolding catalog_run_def by (induction ops arbitrary: db) (simp_all add: step)
qed

text \<open>
  C29.  Whatever the writers of the catalog do to the variant matrices, live variants never share a
  SKU, nor their combination of options within a product, their prices and weights are not negative,
  and no variant ever given an id is lost or moved to another product: order lines keep pointing at it.
\<close>

theorem variants_stay_in_order:
  assumes "variant_rows_ok (cdb_variants db)"
  shows "variant_rows_ok (cdb_variants (catalog_run sanitize actor ops db)) \<and>
    variants_kept (cdb_variants db) (cdb_variants (catalog_run sanitize actor ops db))"
proof -
  have "vars_inv (cdb_variants db) db" using assms unfolding vars_inv_def variants_inv_def variants_kept_def by blast
  then show ?thesis using catalog_run_vars unfolding vars_inv_def variants_inv_def by blast
qed

text \<open>A product saved twice: the first matrix has one size, the second renames its SKU and adds another.\<close>

definition shirt_variant :: "uuid option \<Rightarrow> string \<Rightarrow> string \<Rightarrow> variant_input" where
  "shirt_variant i sku size' =
    \<lparr>vi_id = i, vi_sku = sku, vi_barcode = None, vi_options = [(''Size'', size')], vi_pricePaise = 49900, vi_compareAtPaise = None,
     vi_costPaise = None, vi_weightGrams = 200, vi_lowStockAt = None, vi_tracksInventory = True, vi_imageMediaId = None, vi_isActive = True\<rparr>"

definition shirt_input :: "string list \<Rightarrow> variant_input list \<Rightarrow> product_input" where
  "shirt_input sizes variants =
    \<lparr>pi_title = ''Shirt'', pi_slug = None, pi_summary = None, pi_description = None, pi_status = product_active, pi_productType = None,
     pi_vendor = None, pi_tags = [], pi_hsnCode = None, pi_taxRateBps = Some 500,
     pi_seo = \<lparr>seo_title = None, seo_description = None, seo_noindex = False\<rparr>,
     pi_axes = [\<lparr>ax_name = ''Size'', ax_values = sizes\<rparr>], pi_variants = variants, pi_categoryIds = [], pi_collectionIds = [], pi_media = []\<rparr>"

definition shirt_saves :: "catalog_op list" where
  "shirt_saves =
    [CreateProduct (shirt_input [''S''] [shirt_variant None ''SH-S'' ''S'']),
     UpdateProduct 0 (shirt_input [''S'', ''M''] [shirt_variant None ''SH-M'' ''M'', shirt_variant (Some 2) ''SHIRT-S'' ''S''])]"

theorem variants_stay_in_order_witness:
  "variant_rows_ok (cdb_variants (catalog_run (\<lambda>s. s) 7 shirt_saves empty_catalog)) \<and>
   map (\<lambda>v. (cv_id v, cv_sku v)) (cdb_variants (catalog_run (\<lambda>s. s) 7 shirt_saves empty_catalog)) = [(2, ''SHIRT-S''), (4, ''SH-M'')]"
proof
  show "variant_rows_ok (cdb_variants (catalog_run (\<lambda>s. s) 7 shirt_saves empty_catalog))"
    using variants_stay_in_order[of empty_catalog "\<lambda>s. s" 7 shirt_saves] by (simp add: empty_catalog_def variant_rows_ok_def)
  show "map (\<lambda>v. (cv_id v, cv_sku v)) (cdb_variants (catalog_run (\<lambda>s. s) 7 shirt_saves empty_catalog)) = [(2, ''SHIRT-S''), (4, ''SH-M'')]"
    by code_simp
qed

end
