(* ===== verification/ImportLaws.thy ===== *)
theory ImportLaws
  imports CatalogImport SlugHistory CatalogVariants CsvRoundtrip
begin

text \<open>
  What an import promises: a dry run previews the commit, a file lands as a whole or not at all, an
  export comes back as no change, and what a file does not mention is kept.
\<close>

section \<open>Dry run and commit\<close>

text \<open>The report of a dry run over the one of the commit: nothing is committed, and ids of new products are withheld.\<close>

definition preview :: "import_report \<Rightarrow> import_report" where
  "preview report = report\<lparr>rp_committed := False,
     rp_results := map (\<lambda>r. if ir_outcome r = created then r\<lparr>ir_productId := None\<rparr> else r) (rp_results report)\<rparr>"

lemma summarise_preview: "summarise results rows False = preview (summarise results rows True)"
  by (simp add: summarise_def preview_def)

lemma import_failure_throws: "import_failure e draft rows \<noteq> DryRunRollback r" "import_failure e draft rows \<noteq> ImportRejected []"
  by (cases e; simp add: import_failure_def mapWriteIssues_def)+

lemma applyProduct_throws:
  assumes "applyProduct sanitize actor draft db = Inl t"
  shows "t \<noteq> DryRunRollback r \<and> t \<noteq> ImportRejected []"
  using assms unfolding applyProduct_def Let_def
  by (auto split: if_splits option.splits sum.splits simp: import_failure_throws)

lemma apply_products_throws:
  "apply_products sanitize actor drafts db = Inl t \<Longrightarrow> t \<noteq> DryRunRollback r \<and> t \<noteq> ImportRejected []"
proof (induction drafts arbitrary: db)
  case (Cons d drafts)
  then show ?case using applyProduct_throws[of sanitize actor d db t r] by (auto split: sum.splits)
qed simp

text \<open>
  C31.  A dry run is the preview of the commit and writes nothing: it throws what the commit would
  throw, reports the rejection the commit would report, or reports what the commit would do.  A
  commit lands whole or not at all: it changes the catalog only when its report says so.
\<close>

theorem dry_run_previews_commit:
  "let (dry, dry_db) = runCatalogImport sanitize actor records False db;
       (wet, wet_db) = runCatalogImport sanitize actor records True db in
   dry_db = db \<and>
   (case wet of
      Inl e \<Rightarrow> dry = Inl e \<and> wet_db = db
    | Inr report \<Rightarrow>
        if rp_committed report then rp_issues report = [] \<and> dry = Inr (preview report)
        else dry = Inr report \<and> rp_issues report \<noteq> [] \<and> wet_db = db)"
proof -
  let ?parsed = "parseCatalogCsv records"
  let ?issues = "pc_issues ?parsed @ (if pc_rowCount ?parsed > MAX_IMPORT_ROWS then [\<lparr>is_row = 1, is_column = None\<rparr>] else [])"
  have r: "\<not> rp_committed (rejected is n)" "rp_issues (rejected is n) = is" for "is" n by (simp_all add: rejected_def)
  show ?thesis
  proof (cases "?issues = []")
    case False
    then show ?thesis unfolding runCatalogImport_def Let_def using r by simp
  next
    case True
    show ?thesis
    proof (cases "apply_products sanitize actor (pc_products ?parsed) db")
      case (Inr p)
      obtain results db' where p: "p = (results, db')" by fastforce
      have "rp_committed (summarise results n True)" "rp_issues (summarise results n True) = []" for n by (simp_all add: summarise_def)
      then show ?thesis unfolding runCatalogImport_def Let_def import_tx_def using True Inr p summarise_preview by simp
    next
      case (Inl t)
      have "\<forall>report. t \<noteq> DryRunRollback report" "\<forall>is. t = ImportRejected is \<longrightarrow> is \<noteq> []" using apply_products_throws[OF Inl] by blast+
      then show ?thesis unfolding runCatalogImport_def Let_def import_tx_def using True Inl r by (cases t) simp_all
    qed
  qed
qed

section \<open>The pages of an export\<close>

definition live_products :: "catalog_db \<Rightarrow> catalog_product list" where
  "live_products db = sort_key cp_id (filter (\<lambda>p. cp_deletedAt p = None) (cdb_products db))"

lemma sorted_take_drop:
  assumes "sorted (map f xs)" "distinct (map f xs)" "n < length xs"
  shows "filter (\<lambda>x. f (xs ! n) < f x) xs = drop (Suc n) xs"
proof -
  have xs: "xs = take n xs @ xs ! n # drop (Suc n) xs" using id_take_nth_drop[OF assms(3)] .
  have s: "sorted (map f (take n xs @ xs ! n # drop (Suc n) xs))" "distinct (map f (take n xs @ xs ! n # drop (Suc n) xs))"
    using assms(1,2) xs by simp_all
  have "filter (\<lambda>x. f (xs ! n) < f x) (take n xs) = []"
    using s(1) by (auto simp: filter_empty_conv sorted_append not_less)
  moreover have "filter (\<lambda>x. f (xs ! n) < f x) (drop (Suc n) xs) = drop (Suc n) xs"
  proof (rule filter_True, rule ballI)
    fix x assume x: "x \<in> set (drop (Suc n) xs)"
    then have "f (xs ! n) \<le> f x" using s(1) by (auto simp: sorted_append)
    moreover have "f (xs ! n) \<noteq> f x" using s(2) x by auto
    ultimately show "f (xs ! n) < f x" by simp
  qed
  ultimately show ?thesis by (subst xs) simp
qed

lemma pending_drop:
  assumes "distinct (map cp_id (cdb_products db))" "take n (pending_products afterId db) \<noteq> []"
  shows "pending_products (Some (cp_id (last (take n (pending_products afterId db))))) db = drop n (pending_products afterId db)"
proof -
  let ?xs = "pending_products afterId db"
  define k where "k = min n (length ?xs) - 1"
  have k: "k < length ?xs" "Suc k = min n (length ?xs)" proof -
    have "0 < n" "0 < length ?xs" using assms(2) by auto
    then show "k < length ?xs" "Suc k = min n (length ?xs)" unfolding k_def by linarith+
  qed
  have "last (take n ?xs) = take n ?xs ! k" using assms(2) k(2) by (simp add: last_conv_nth min.commute k_def)
  also have "\<dots> = ?xs ! k" using k by (intro nth_take) simp
  finally have l: "last (take n ?xs) = ?xs ! k" .
  let ?P = "\<lambda>q. cp_deletedAt q = None \<and> (case afterId of None \<Rightarrow> True | Some i \<Rightarrow> i < cp_id q)"
  have "?xs ! k \<in> set ?xs" using k(1) by simp
  then have P: "?P (?xs ! k)" unfolding pending_products_def by simp
  have "filter (\<lambda>q. cp_deletedAt q = None \<and> cp_id (?xs ! k) < cp_id q) (cdb_products db) =
    filter (\<lambda>q. cp_id (?xs ! k) < cp_id q) (filter ?P (cdb_products db))"
    unfolding filter_filter using P by (intro filter_cong[OF refl]) (auto split: option.splits)
  then have "pending_products (Some (cp_id (?xs ! k))) db = filter (\<lambda>q. cp_id (?xs ! k) < cp_id q) ?xs"
    unfolding pending_products_def option.case by (simp add: filter_sort)
  also have "\<dots> = drop (Suc k) ?xs"
  proof (rule sorted_take_drop[OF _ _ k(1)])
    show "sorted (map cp_id ?xs)" unfolding pending_products_def by (rule sorted_sort_key)
    have "distinct (map cp_id (filter ?P (cdb_products db)))" by (rule distinct_map_filter[OF assms(1)])
    then show "distinct (map cp_id ?xs)" unfolding pending_products_def distinct_map by (simp add: inj_on_def)
  qed
  also have "\<dots> = drop n ?xs" unfolding k(2) by (cases "n \<le> length ?xs") simp_all
  finally show ?thesis unfolding l .
qed

lemma export_pages_all:
  assumes "distinct (map cp_id (cdb_products db))"
  shows "export_pages db afterId = List.map_filter exported_of (map (console_product_of db) (pending_products afterId db))"
  using assms
proof (induction db afterId rule: export_pages.induct)
  case (1 db afterId)
  let ?xs = "pending_products afterId db"
  let ?page = "map (console_product_of db) (take EXPORT_PAGE_SIZE ?xs)"
  have app: "List.map_filter g (ys @ zs) = List.map_filter g ys @ List.map_filter g zs" for g :: "console_product \<Rightarrow> export_product option" and ys zs
    by (simp add: List.map_filter_def)
  note unfold = export_pages.simps[of db afterId, unfolded Let_def export_page]
  show ?case
  proof (cases "?page = []")
    case True
    then have "?xs = []" by (simp add: EXPORT_PAGE_SIZE_def)
    then show ?thesis by (simp add: unfold List.map_filter_def)
  next
    case False
    show ?thesis
    proof (cases "length ?page < EXPORT_PAGE_SIZE")
      case True
      then have "take EXPORT_PAGE_SIZE ?xs = ?xs" by simp
      then show ?thesis using unfold True False by simp
    next
      case full: False
      have ne: "take EXPORT_PAGE_SIZE ?xs \<noteq> []" using False by simp
      have l: "kp_id (last ?page) = cp_id (last (take EXPORT_PAGE_SIZE ?xs))" using ne by (simp add: last_map)
      have "export_pages db (Some (kp_id (last ?page))) =
        List.map_filter exported_of (map (console_product_of db) (pending_products (Some (kp_id (last ?page))) db))"
        using 1(1)[OF export_page[symmetric]] False full 1(2) by (simp add: export_page)
      also have "pending_products (Some (kp_id (last ?page))) db = drop EXPORT_PAGE_SIZE ?xs" unfolding l by (rule pending_drop[OF 1(2) ne])
      finally have next': "export_pages db (Some (kp_id (last ?page))) =
        List.map_filter exported_of (map (console_product_of db) (drop EXPORT_PAGE_SIZE ?xs))" .
      have "export_pages db afterId = List.map_filter exported_of ?page @ export_pages db (Some (kp_id (last ?page)))"
        using unfold False full by simp
      also have "\<dots> = List.map_filter exported_of (map (console_product_of db) (take EXPORT_PAGE_SIZE ?xs @ drop EXPORT_PAGE_SIZE ?xs))"
        unfolding next' map_append app ..
      finally show ?thesis by simp
    qed
  qed
qed

section \<open>An exported product comes back as no change\<close>

text \<open>
  What the write layer leaves behind: axes with distinct names, variants that choose a value on every
  axis and nothing else, and a description the sanitiser leaves alone.
\<close>

definition matrix_fits :: "console_product \<Rightarrow> bool" where
  "matrix_fits p \<longleftrightarrow>
     list_all (\<lambda>v. distinct (map fst (kv_options v)) \<and> set (map fst (kv_options v)) = set (map ax_name (kp_axes p)) \<and>
       list_all (\<lambda>a. value_of (map_of (kv_options v) (ax_name a)) \<in> set (ax_values a)) (kp_axes p)) (kp_variants p)"

definition stored_clean :: "(string \<Rightarrow> string) \<Rightarrow> console_product \<Rightarrow> bool" where
  "stored_clean sanitize p \<longleftrightarrow> matrix_fits p \<and> cleanDescription sanitize (kp_description p) = kp_description p"

lemma optionKey_cong:
  assumes "distinct (map fst s)" "distinct (map fst t)" "map_of s = map_of t"
  shows "optionKey s = optionKey t"
proof -
  have "set (map fst s) = set (map fst t)" using assms(3) by (metis dom_map_of_conv_image_fst list.set_map)
  then have "sort (map fst s) = sort (map fst t)" using assms(1,2) by (simp add: sorted_distinct_set_unique)
  then show ?thesis unfolding optionKey_def assms(3) by simp
qed

lemma map_fst_axis_selection [simp]: "map fst (axis_selection axes options) = map ax_name axes"
  by (simp add: axis_selection_def)

lemma selection_key:
  assumes "distinct (map ax_name axes)" "distinct (map fst options)" "set (map fst options) = set (map ax_name axes)"
  shows "optionKey (axis_selection axes options) = optionKey options"
proof (rule optionKey_cong)
  show "map_of (axis_selection axes options) = map_of options"
  proof
    fix k
    show "map_of (axis_selection axes options) k = map_of options k"
    proof (cases "k \<in> set (map ax_name axes)")
      case True
      then obtain a where a: "a \<in> set axes" "ax_name a = k" by auto
      have "map_of options k \<noteq> None" using True assms(3) by (simp add: map_of_eq_None_iff)
      then show ?thesis using map_of_selection[OF a(1), of options] a(2) by (auto simp: value_of_def)
    next
      case False
      have "map_of (axis_selection axes options) k = None" "map_of options k = None"
        using False assms(3) map_fst_axis_selection[of axes options] unfolding map_of_eq_None_iff by (metis list.set_map)+
      then show ?thesis by simp
    qed
  qed
qed (use assms in simp_all)

lemma lookup_by_key:
  assumes "distinct (map f vs)" "v \<in> set vs"
  shows "map_of (rev (map (\<lambda>v. (f v, v)) vs)) (f v) = Some v"
proof (rule map_of_is_SomeI)
  have "map fst (rev (map (\<lambda>v. (f v, v)) vs)) = rev (map f vs)" by (simp add: rev_map comp_def)
  then show "distinct (map fst (rev (map (\<lambda>v. (f v, v)) vs)))" using assms(1) by (simp only: distinct_rev)
  show "(f v, v) \<in> set (rev (map (\<lambda>v. (f v, v)) vs))" using assms(2) by auto
qed

text \<open>Names and values that are there already change nothing.\<close>

lemma add_axis_known: "set names \<subseteq> set (map ax_name axes) \<Longrightarrow> foldl add_axis axes names = axes"
  by (induction names) (auto simp: add_axis_def list_ex_iff)

lemma add_value_known:
  assumes "distinct (map ax_name axes)" "\<forall>(n, v) \<in> set entries. \<exists>a \<in> set axes. ax_name a = n \<and> v \<in> set (ax_values a)"
  shows "foldl add_value axes entries = axes"
  using assms(2)
proof (induction entries)
  case (Cons e entries)
  obtain a where a: "a \<in> set axes" "ax_name a = fst e" "snd e \<in> set (ax_values a)" using Cons.prems by (cases e) auto
  have "find (\<lambda>a. ax_name a = fst e) axes \<noteq> None" using a(1,2) unfolding find_None_set by blast
  then obtain b where b: "find (\<lambda>a. ax_name a = fst e) axes = Some b" by blast
  then have "b = a" using find_eq_Some[OF b] a distinct_map_eq[OF assms(1), of b a] by simp
  then have "add_value axes e = axes" using b a(3) by (simp add: add_value_def)
  then show ?case using Cons by simp
qed simp

text \<open>The draft of an exported product, merged over that product.\<close>

lemma exported_variants_all2:
  "list_all2 (\<lambda>d v. \<exists>row. d = exported_variant e row (export_variant_of v)) (exported_variants e row (map export_variant_of vs)) vs"
  by (induction vs arbitrary: row) auto

definition exported_draft :: "nat \<Rightarrow> string \<Rightarrow> console_product \<Rightarrow> csv_product_draft" where
  "exported_draft row slug p =
    filled (export_product_of slug p) row (Some (map ax_name (kp_axes p)))
      (exported_variants (export_product_of slug p) row (map export_variant_of (kp_variants p)))"

lemma merge_exported_variant:
  assumes "distinct (map ax_name (kp_axes p))" "matrix_fits p" "v \<in> set (kp_variants p)"
  shows "same_variant (mergeVariant (exported_variant (export_product_of slug p) row (export_variant_of v)) (Some v)) v"
proof -
  have "optionKey (axis_selection (kp_axes p) (kv_options v)) = optionKey (kv_options v)"
    using assms(2,3) by (intro selection_key[OF assms(1)]) (simp_all add: matrix_fits_def list_all_iff)
  then show ?thesis
    by (simp add: same_variant_def mergeVariant_def exported_variant_def variant_draft_def export_variant_of_def export_product_of_def
        pick_def or_else_def)
qed

lemma merged_exported:
  assumes dist: "distinct (map ax_name (kp_axes p))" and fits: "matrix_fits p" and skus: "distinct (map kv_sku (kp_variants p))"
  shows "list_all2 same_variant (map fst (merged_variants (exported_draft row slug p) (Some p))) (kp_variants p)"
    "mergeAxes (exported_draft row slug p) (Some p) (map fst (merged_variants (exported_draft row slug p) (Some p))) = kp_axes p"
proof -
  let ?vs = "kp_variants p"
  let ?e = "export_product_of slug p"
  let ?ds = "exported_variants ?e row (map export_variant_of ?vs)"
  let ?by = "map_of (rev (map (\<lambda>v. (kv_sku v, v)) ?vs))"
  have sku: "vd_sku (exported_variant ?e row (export_variant_of v)) = kv_sku v" for row v
    by (simp add: exported_variant_def variant_draft_def export_variant_of_def)
  have pairs: "list_all2 (\<lambda>d v. vd_sku d = kv_sku v) ?ds ?vs"
    using exported_variants_all2[of ?e row ?vs] by (rule list_all2_mono) (elim exE, simp only: sku)
  have "kv_sku v \<in> vd_sku ` set ?ds" if v: "v \<in> set ?vs" for v
  proof -
    obtain i where i: "i < length ?vs" "?vs ! i = v" using v unfolding in_set_conv_nth by blast
    have l: "i < length ?ds" using i(1) list_all2_lengthD[OF pairs] by simp
    have "vd_sku (?ds ! i) = kv_sku v" using list_all2_nthD[OF pairs l] i(2) by simp
    then show ?thesis using nth_mem[OF l] by (intro image_eqI[of _ _ "?ds ! i"]) simp_all
  qed
  then have none: "filter (\<lambda>v. kv_sku v \<notin> vd_sku ` set ?ds) ?vs = []" by (simp add: filter_empty_conv)
  have drafts: "pd_variants (exported_draft row slug p) = ?ds" by (simp add: exported_draft_def filled_def)
  have merged: "map fst (merged_variants (exported_draft row slug p) (Some p)) = map (\<lambda>d. mergeVariant d (?by (vd_sku d))) ?ds"
    unfolding merged_variants_def stored_variants_def option.case Let_def drafts none by simp
  have each: "list_all2 (\<lambda>d v. \<exists>row. d = exported_variant ?e row (export_variant_of v) \<and> ?by (vd_sku d) = Some v \<and> v \<in> set ?vs) ?ds ?vs"
    unfolding list_all2_conv_all_nth
  proof (intro conjI allI impI)
    show "length ?ds = length ?vs" using pairs by (rule list_all2_lengthD)
    fix i assume i: "i < length ?ds"
    then have i': "i < length ?vs" using list_all2_lengthD[OF pairs] by simp
    then obtain r where r: "?ds ! i = exported_variant ?e r (export_variant_of (?vs ! i))"
      using exported_variants_all2[of ?e row ?vs] i unfolding list_all2_conv_all_nth by blast
    have "?by (kv_sku (?vs ! i)) = Some (?vs ! i)" by (rule lookup_by_key[OF skus nth_mem[OF i']])
    then show "\<exists>row. ?ds ! i = exported_variant ?e row (export_variant_of (?vs ! i)) \<and> ?by (vd_sku (?ds ! i)) = Some (?vs ! i) \<and> ?vs ! i \<in> set ?vs"
      using r sku nth_mem[OF i'] by auto
  qed
  show "list_all2 same_variant (map fst (merged_variants (exported_draft row slug p) (Some p))) ?vs"
    unfolding merged list_all2_map1
    using each by (rule list_all2_mono) (use merge_exported_variant[OF dist fits] in fastforce)
  have "\<forall>(n, x) \<in> set (concat (map vi_options (map (\<lambda>d. mergeVariant d (?by (vd_sku d))) ?ds))). \<exists>a \<in> set (kp_axes p). ax_name a = n \<and> x \<in> set (ax_values a)"
  proof
    fix entry assume "entry \<in> set (concat (map vi_options (map (\<lambda>d. mergeVariant d (?by (vd_sku d))) ?ds)))"
    then obtain d where d: "d \<in> set ?ds" "entry \<in> set (vi_options (mergeVariant d (?by (vd_sku d))))" by auto
    then obtain i where i: "i < length ?ds" "?ds ! i = d" by (auto simp: in_set_conv_nth)
    then have i': "i < length ?vs" using list_all2_lengthD[OF pairs] by simp
    obtain r where r: "d = exported_variant ?e r (export_variant_of (?vs ! i))" using each i unfolding list_all2_conv_all_nth by blast
    have "vi_options (mergeVariant d x) = axis_selection (kp_axes p) (kv_options (?vs ! i))" for x
      by (simp add: r mergeVariant_def exported_variant_def variant_draft_def or_else_def export_product_of_def export_variant_of_def)
    then obtain a where a: "a \<in> set (kp_axes p)" "entry = (ax_name a, value_of (map_of (kv_options (?vs ! i)) (ax_name a)))"
      using d(2) by (auto simp: axis_selection_def)
    moreover have "value_of (map_of (kv_options (?vs ! i)) (ax_name a)) \<in> set (ax_values a)"
      using fits nth_mem[OF i'] a(1) by (simp add: matrix_fits_def list_all_iff)
    ultimately show "case entry of (n, x) \<Rightarrow> \<exists>a \<in> set (kp_axes p). ax_name a = n \<and> x \<in> set (ax_values a)" by auto
  qed
  then have values': "foldl add_value (kp_axes p) (concat (map vi_options (map (\<lambda>d. mergeVariant d (?by (vd_sku d))) ?ds))) = kp_axes p"
    by (rule add_value_known[OF dist])
  have names: "foldl add_axis (kp_axes p) (map ax_name (kp_axes p)) = kp_axes p" by (rule add_axis_known) simp
  have "pd_optionNames (exported_draft row slug p) = Some (map ax_name (kp_axes p))" by (simp add: exported_draft_def filled_def)
  then show "mergeAxes (exported_draft row slug p) (Some p) (map fst (merged_variants (exported_draft row slug p) (Some p))) = kp_axes p"
    unfolding merged mergeAxes_def Let_def option.case using names values' by (simp add: or_else_def)
qed

lemma status_back [simp]: "status_of_csv (asCsvStatus st) = st"
  by (cases st) (simp_all add: status_of_csv_def asCsvStatus_def product_status_text_def)

lemma label_same [simp]: "label True name c = []"
  by (simp add: label_def)

lemma exported_unchanged:
  assumes ok: "exportable (export_product_of slug p)" and slug: "kp_slug p = Some slug" and skus: "distinct (map kv_sku (kp_variants p))"
    and clean: "stored_clean sanitize p"
  shows "changedFields sanitize (mg_input (mergeProduct (exported_draft row slug p) (Some p))) p = []"
    "pi_title (mg_input (mergeProduct (exported_draft row slug p) (Some p))) \<noteq> []"
proof -
  let ?d = "exported_draft row slug p"
  let ?in = "mg_input (mergeProduct ?d (Some p))"
  have dist: "distinct (map ax_name (kp_axes p))" and title: "kp_title p \<noteq> []"
    and shape: "slug_shape slug" "length slug \<le> MAX_SLUG_LENGTH"
    using ok unfolding exportable_def plain_text_def by (simp_all add: export_product_of_def)
  have fits: "matrix_fits p" and html: "cleanDescription sanitize (kp_description p) = kp_description p"
    using clean unfolding stored_clean_def by blast+
  note merged = merged_exported[OF dist fits skus, of row slug]
  have draft: "pd_title ?d = kp_title p" "pd_handle ?d = slug" "pd_summary ?d = Some (kp_summary p)" "pd_description ?d = Some (kp_description p)"
    "pd_status ?d = Some (asCsvStatus (kp_status p))" "pd_productType ?d = Some (kp_productType p)" "pd_vendor ?d = Some (kp_vendor p)"
    "pd_tags ?d = Some (kp_tags p)" "pd_hsnCode ?d = Some (kp_hsnCode p)" "pd_taxRateBps ?d = Some (kp_taxRateBps p)"
    "pd_seoTitle ?d = Some (seo_title (kp_seo p))" "pd_seoDescription ?d = Some (seo_description (kp_seo p))"
    "pd_seoNoindex ?d = Some (seo_noindex (kp_seo p))"
    by (simp_all add: exported_draft_def filled_def export_product_of_def)
  have fields: "pi_title ?in = kp_title p" "pi_slug ?in = Some slug" "pi_summary ?in = kp_summary p" "pi_description ?in = kp_description p"
    "pi_status ?in = kp_status p" "pi_productType ?in = kp_productType p" "pi_vendor ?in = kp_vendor p" "pi_tags ?in = kp_tags p"
    "pi_hsnCode ?in = kp_hsnCode p" "pi_taxRateBps ?in = kp_taxRateBps p" "pi_seo ?in = kp_seo p"
    by (simp_all add: mergeProduct_def Let_def draft pick_def or_else_def merged_seo_def title)
  have axes: "pi_axes ?in = kp_axes p" using merged(2) by (simp add: mergeProduct_def Let_def)
  have variants: "list_all2 same_variant (pi_variants ?in) (kp_variants p)" using merged(1) by (simp add: mergeProduct_def Let_def)
  have "slugify (Some ''item'') slug = slug" by (rule slug_shape_fixed[OF shape])
  then show "changedFields sanitize ?in p = []"
    unfolding changedFields_def fields axes html slug using variants by (simp add: or_else_def)
  show "pi_title ?in \<noteq> []" unfolding fields by (rule title)
qed

text \<open>The handle of an exported product finds that product.\<close>

definition catalog_sound :: "catalog_db \<Rightarrow> bool" where
  "catalog_sound db \<longleftrightarrow> catalog_ok db \<and> distinct (map cp_id (cdb_products db)) \<and> variant_rows_ok (cdb_variants db)"

lemma handle_found:
  assumes sound: "catalog_sound db" and cp: "cp \<in> set (cdb_products db)" "cp_deletedAt cp = None"
    and slug: "kp_slug (console_product_of db cp) = Some slug"
  shows "findByHandle slug db = Some (console_product_of db cp)"
proof -
  let ?rows = "cdb_urlSlugs db"
  have rows: "slug_rows_ok ?rows" and ids: "distinct (map cp_id (cdb_products db))"
    using sound unfolding catalog_sound_def catalog_ok_def slugs_inv_def by blast+
  have dist: "distinct (map sr_slug ?rows)" using rows unfolding slug_rows_ok_def by blast
  have "canonical_slug ?rows ''product'' (cp_id cp) = Some slug" using slug by (simp add: console_product_of_def)
  then obtain r where r: "r \<in> set ?rows" "sr_slug r = slug" "sr_entityType r = ''product''" "sr_entityId r = cp_id cp" "sr_isCanonical r"
    using canonical_slug_Some by blast
  let ?P = "\<lambda>r. sr_entityType r = ''product'' \<and> sr_slug r = slug \<and> sr_isCanonical r"
  have "find ?P ?rows \<noteq> None" using r unfolding find_None_set by blast
  then obtain q where q: "find ?P ?rows = Some q" by blast
  then have "q = r" using find_eq_Some[OF q] r(1,2) distinct_map_eq[OF dist, of q r] by simp
  then have found: "find ?P ?rows = Some r" using q by simp
  have live: "list_ex (\<lambda>p. cp_id p = cp_id cp \<and> cp_deletedAt p = None) (cdb_products db)" using cp unfolding list_ex_iff by blast
  let ?L = "\<lambda>p. cp_id p = cp_id cp \<and> cp_deletedAt p = None"
  have "find ?L (cdb_products db) \<noteq> None" using cp unfolding find_None_set by blast
  then obtain p where p: "find ?L (cdb_products db) = Some p" by blast
  then have "p = cp" using find_eq_Some[OF p] cp(1) distinct_map_eq[OF ids, of p cp] by simp
  then show ?thesis using found live p r(4) by (simp add: findByHandle_def getProductForConsoleInTx_def)
qed

lemma live_skus_distinct:
  assumes "variant_rows_ok rows" "distinct (map cv_id rows)"
  shows "distinct (map cv_sku (filter (\<lambda>v. cv_deletedAt v = None) rows))"
proof -
  have "v = w" if v: "v \<in> set rows" "w \<in> set rows" "cv_deletedAt v = None" "cv_deletedAt w = None" "cv_sku v = cv_sku w" for v w
  proof -
    have "rows_clash v w" using v(5) by (simp add: rows_clash_def)
    then have "cv_id v = cv_id w" using assms(1) v(1-4) unfolding variant_rows_ok_def live_row_def by blast
    then show ?thesis by (rule distinct_map_eq[OF assms(2) v(1,2)])
  qed
  then have "inj_on cv_sku (set (filter (\<lambda>v. cv_deletedAt v = None) rows))" by (intro inj_onI) simp
  moreover have "distinct (filter (\<lambda>v. cv_deletedAt v = None) rows)" using assms(2) by (simp add: distinct_map)
  ultimately show ?thesis by (simp add: distinct_map)
qed

lemma product_skus:
  assumes "catalog_sound db"
  shows "distinct (map kv_sku (kp_variants (console_product_of db cp)))"
proof -
  have v: "variant_rows_ok (cdb_variants db)" using assms unfolding catalog_sound_def by blast
  then have d: "distinct (map cv_id (cdb_variants db))" unfolding variant_rows_ok_def by blast
  have "distinct (map cv_sku (filter (\<lambda>x. cv_productId x = cp_id cp) (filter (\<lambda>x. cv_deletedAt x = None) (cdb_variants db))))"
    by (rule distinct_map_filter[OF live_skus_distinct[OF v d]])
  moreover have "filter (\<lambda>x. cv_productId x = cp_id cp) (filter (\<lambda>x. cv_deletedAt x = None) (cdb_variants db)) =
      filter (\<lambda>x. cv_productId x = cp_id cp \<and> cv_deletedAt x = None) (cdb_variants db)"
    unfolding filter_filter by (rule filter_cong[OF refl]) blast
  ultimately have "distinct (map cv_sku (filter (\<lambda>x. cv_productId x = cp_id cp \<and> cv_deletedAt x = None) (cdb_variants db)))" by simp
  then have "distinct (map cv_sku (sort_key cv_position (filter (\<lambda>x. cv_productId x = cp_id cp \<and> cv_deletedAt x = None) (cdb_variants db))))"
    unfolding distinct_map by simp
  then show ?thesis
    by (simp add: console_product_of_def product_variants_def comp_def console_variant_of_def)
qed

lemma applyProduct_exported:
  assumes sound: "catalog_sound db" and cp: "cp \<in> set (cdb_products db)" "cp_deletedAt cp = None"
    and slug: "kp_slug (console_product_of db cp) = Some slug" and ok: "exportable (export_product_of slug (console_product_of db cp))"
    and clean: "stored_clean sanitize (console_product_of db cp)"
  shows "\<exists>r. applyProduct sanitize actor (exported_draft row slug (console_product_of db cp)) db = Inr (r, db) \<and> ir_outcome r = skipped"
proof -
  let ?p = "console_product_of db cp"
  let ?d = "exported_draft row slug ?p"
  have handle: "pd_handle ?d = slug" by (simp add: exported_draft_def filled_def export_product_of_def)
  note same = exported_unchanged[OF ok slug product_skus[OF sound] clean, of row]
  show ?thesis
    unfolding applyProduct_def Let_def handle handle_found[OF sound cp slug] option.case
    using same by (simp add: import_result_def)
qed

section \<open>The whole catalog\<close>

definition came_from :: "catalog_db \<Rightarrow> export_product \<Rightarrow> catalog_product \<Rightarrow> string \<Rightarrow> bool" where
  "came_from db e cp slug \<longleftrightarrow>
     cp \<in> set (cdb_products db) \<and> cp_deletedAt cp = None \<and> kp_slug (console_product_of db cp) = Some slug \<and>
     e = export_product_of slug (console_product_of db cp)"

lemma apply_exported:
  assumes "catalog_sound db" "list_all exportable es" "\<forall>e \<in> set es. \<exists>cp slug. came_from db e cp slug \<and> stored_clean sanitize (console_product_of db cp)"
  shows "\<exists>rs. apply_products sanitize actor (exported_drafts row es) db = Inr (rs, db) \<and> list_all (\<lambda>r. ir_outcome r = skipped) rs \<and> length rs = length es"
  using assms(2,3)
proof (induction es arbitrary: row)
  case (Cons e es)
  obtain cp slug where c: "came_from db e cp slug" "stored_clean sanitize (console_product_of db cp)" using Cons.prems(2) by auto
  let ?p = "console_product_of db cp"
  have e: "cp \<in> set (cdb_products db)" "cp_deletedAt cp = None" "kp_slug ?p = Some slug" "e = export_product_of slug ?p"
    using c(1) unfolding came_from_def by blast+
  have ok: "exportable (export_product_of slug ?p)" using Cons.prems(1) e(4) by simp
  obtain r where r: "applyProduct sanitize actor (exported_draft row slug ?p) db = Inr (r, db)" "ir_outcome r = skipped"
    using applyProduct_exported[OF assms(1) e(1-3) ok c(2)] by blast
  obtain rs where rs: "apply_products sanitize actor (exported_drafts (row + length (ep_variants e)) es) db = Inr (rs, db)"
    "list_all (\<lambda>r. ir_outcome r = skipped) rs" "length rs = length es"
    using Cons.IH[of "row + length (ep_variants e)"] Cons.prems by auto
  have "exported_drafts row (e # es) = exported_draft row slug ?p # exported_drafts (row + length (ep_variants e)) es"
    unfolding exported_draft_def e(4) exported_drafts.simps by (simp add: export_product_of_def)
  then show ?case using r rs by simp
qed simp

lemma map_filter_distinct:
  assumes "distinct L" "\<And>x y a b. x \<in> set L \<Longrightarrow> y \<in> set L \<Longrightarrow> f x = Some a \<Longrightarrow> f y = Some b \<Longrightarrow> g a = g b \<Longrightarrow> x = y"
  shows "distinct (map g (List.map_filter f L))"
  using assms
proof (induction L)
  case (Cons x L)
  have IH: "distinct (map g (List.map_filter f L))" using Cons.prems by (intro Cons.IH) auto
  show ?case
  proof (cases "f x")
    case None
    then show ?thesis using IH by (simp add: List.map_filter_simps)
  next
    case (Some a)
    have "g a \<notin> set (map g (List.map_filter f L))"
    proof
      assume "g a \<in> set (map g (List.map_filter f L))"
      then obtain y b where y: "y \<in> set L" "f y = Some b" "g a = g b" by (auto simp: List.map_filter_def)
      have "x = y" using Cons.prems(2)[of x y a b] y Some by simp
      then show False using Cons.prems(1) y(1) by simp
    qed
    then show ?thesis using IH Some by (simp add: List.map_filter_simps)
  qed
qed (simp add: List.map_filter_simps)

lemma concat_distinct:
  assumes "distinct L" "\<And>x. x \<in> set L \<Longrightarrow> distinct (h x)" "\<And>x y s. x \<in> set L \<Longrightarrow> y \<in> set L \<Longrightarrow> s \<in> set (h x) \<Longrightarrow> s \<in> set (h y) \<Longrightarrow> x = y"
  shows "distinct (concat (map h L))"
  using assms
proof (induction L)
  case (Cons x L)
  have "distinct (concat (map h L))" using Cons.prems by (intro Cons.IH) auto
  moreover have "set (h x) \<inter> set (concat (map h L)) = {}"
  proof (rule ccontr)
    assume "set (h x) \<inter> set (concat (map h L)) \<noteq> {}"
    then obtain s y where "s \<in> set (h x)" "y \<in> set L" "s \<in> set (h y)" by auto
    then have "x = y" using Cons.prems(3)[of x y s] by simp
    then show False using Cons.prems(1) \<open>y \<in> set L\<close> by simp
  qed
  ultimately show ?case using Cons.prems(2)[of x] by simp
qed simp

lemma exported_of_Some:
  "exported_of (console_product_of db cp) = Some e \<Longrightarrow> cp \<in> set (cdb_products db) \<Longrightarrow> cp_deletedAt cp = None \<Longrightarrow> came_from db e cp (ep_slug e)"
  unfolding exported_of_def came_from_def by (auto split: option.splits if_splits simp: export_product_of_def)

lemma exported_pages:
  assumes sound: "catalog_sound db"
  shows "distinct (map ep_slug (export_pages db None))" "distinct (map ev_sku (concat (map ep_variants (export_pages db None))))"
    "\<forall>e \<in> set (export_pages db None). \<exists>cp \<in> set (live_products db). came_from db e cp (ep_slug e)"
proof -
  let ?L = "live_products db"
  let ?f = "\<lambda>cp. exported_of (console_product_of db cp)"
  have ids: "distinct (map cp_id (cdb_products db))" and vars: "variant_rows_ok (cdb_variants db)" and ok: "slug_rows_ok (cdb_urlSlugs db)"
    using sound unfolding catalog_sound_def catalog_ok_def slugs_inv_def by blast+
  have pages: "export_pages db None = List.map_filter ?f ?L"
    using export_pages_all[OF ids, of None] by (simp add: pending_products_def live_products_def List.map_filter_def comp_def filter_map)
  have L: "cp \<in> set (cdb_products db)" "cp_deletedAt cp = None" if cp: "cp \<in> set ?L" for cp using cp by (simp_all add: live_products_def)
  have dist: "distinct ?L"
    using distinct_map_filter[OF ids, of "\<lambda>p. cp_deletedAt p = None"] by (simp add: live_products_def distinct_map)
  have same: "x = y" if xy: "x \<in> set ?L" "y \<in> set ?L" "cp_id x = cp_id y" for x y
    by (rule distinct_map_eq[OF ids L(1)[OF xy(1)] L(1)[OF xy(2)] xy(3)])
  have came: "came_from db e cp (ep_slug e)" if e: "cp \<in> set ?L" "?f cp = Some e" for cp e by (rule exported_of_Some[OF e(2) L[OF e(1)]])
  show "\<forall>e \<in> set (export_pages db None). \<exists>cp \<in> set ?L. came_from db e cp (ep_slug e)"
  proof
    fix e assume "e \<in> set (export_pages db None)"
    then obtain cp where cp: "cp \<in> set ?L" "?f cp = Some e" unfolding pages List.map_filter_def by auto
    then show "\<exists>cp \<in> set ?L. came_from db e cp (ep_slug e)" using came[OF cp] by blast
  qed
  show "distinct (map ep_slug (export_pages db None))"
    unfolding pages
  proof (rule map_filter_distinct[OF dist])
    fix x y a b assume xy: "x \<in> set ?L" "y \<in> set ?L" "?f x = Some a" "?f y = Some b" "ep_slug a = ep_slug b"
    have "canonical_slug (cdb_urlSlugs db) ''product'' (cp_id x) = Some (ep_slug a)" "canonical_slug (cdb_urlSlugs db) ''product'' (cp_id y) = Some (ep_slug a)"
      using came[OF xy(1,3)] came[OF xy(2,4)] xy(5) unfolding came_from_def by (simp_all add: console_product_of_def)
    then obtain r q where "r \<in> set (cdb_urlSlugs db)" "sr_slug r = ep_slug a" "sr_entityId r = cp_id x"
      "q \<in> set (cdb_urlSlugs db)" "sr_slug q = ep_slug a" "sr_entityId q = cp_id y"
      using canonical_slug_Some by metis
    moreover have "distinct (map sr_slug (cdb_urlSlugs db))" using ok unfolding slug_rows_ok_def by blast
    ultimately have "cp_id x = cp_id y" using distinct_map_eq[of sr_slug "cdb_urlSlugs db" r q] by simp
    then show "x = y" by (rule same[OF xy(1,2)])
  qed
  let ?own = "\<lambda>cp. filter (\<lambda>x. cv_productId x = cp_id cp \<and> cv_deletedAt x = None) (cdb_variants db)"
  let ?h = "\<lambda>cp. case ?f cp of None \<Rightarrow> [] | Some e \<Rightarrow> map ev_sku (ep_variants e)"
  have h: "map ev_sku (ep_variants e) = map kv_sku (kp_variants (console_product_of db cp))" if e: "?f cp = Some e" for cp e
    using e unfolding exported_of_def by (auto split: option.splits if_splits simp: export_product_of_def export_variant_of_def)
  have own: "set (?h cp) \<subseteq> cv_sku ` set (?own cp)" for cp
    using h[of cp] by (cases "?f cp") (auto simp: console_product_of_def product_variants_def console_variant_of_def)
  have flat: "map ev_sku (concat (map ep_variants (List.map_filter ?f ls))) = concat (map ?h ls)" for ls
  proof (induction ls)
    case (Cons a ls)
    then show ?case by (cases "?f a") (simp_all add: List.map_filter_simps)
  qed (simp add: List.map_filter_simps)
  show "distinct (map ev_sku (concat (map ep_variants (export_pages db None))))"
    unfolding pages flat
  proof (rule concat_distinct[OF dist])
    show "distinct (?h cp)" for cp using h[of cp] product_skus[OF sound, of cp] by (cases "?f cp") simp_all
    fix x y s assume xy: "x \<in> set ?L" "y \<in> set ?L" "s \<in> set (?h x)" "s \<in> set (?h y)"
    obtain v where v: "v \<in> set (cdb_variants db)" "cv_productId v = cp_id x" "cv_deletedAt v = None" "cv_sku v = s"
      using subsetD[OF own xy(3)] by auto
    obtain w where w: "w \<in> set (cdb_variants db)" "cv_productId w = cp_id y" "cv_deletedAt w = None" "cv_sku w = s"
      using subsetD[OF own xy(4)] by auto
    have "rows_clash v w" using v(4) w(4) by (simp add: rows_clash_def)
    then have "cv_id v = cv_id w" using vars v(1,3) w(1,3) unfolding variant_rows_ok_def live_row_def by blast
    then have "v = w" using vars distinct_map_eq[of cv_id "cdb_variants db" v w] v(1) w(1) unfolding variant_rows_ok_def by blast
    then show "x = y" using same[OF xy(1,2)] v(2) w(2) by simp
  qed
qed


text \<open>A store with one shirt.\<close>

definition shelf_product :: catalog_product where
  "shelf_product =
    \<lparr>cp_id = 0, cp_title = ''Blue Shirt'', cp_summary = Some ''=soft, cool'', cp_description = Some ''<p>Linen</p>'',
     cp_status = product_active, cp_productType = None, cp_vendor = Some ''Acme'', cp_tags = [''linen'', ''summer''],
     cp_hsnCode = Some ''6205'', cp_taxRateBps = Some 1250, cp_seo = \<lparr>seo_title = None, seo_description = None, seo_noindex = False\<rparr>,
     cp_publishedAt = Some 1000, cp_deletedAt = None\<rparr>"

definition shelf_variant :: "uuid \<Rightarrow> string \<Rightarrow> string \<Rightarrow> nat \<Rightarrow> catalog_variant" where
  "shelf_variant i sku size' n =
    \<lparr>cv_id = i, cv_productId = 0, cv_sku = sku, cv_barcode = None, cv_options = [(''Size'', size')], cv_pricePaise = 129900,
     cv_compareAtPaise = Some 149900, cv_costPaise = None, cv_weightGrams = 250, cv_lowStockAt = Some 3, cv_tracksInventory = True,
     cv_imageMediaId = None, cv_isActive = True, cv_position = n, cv_deletedAt = None\<rparr>"

definition shelf :: catalog_db where
  "shelf =
    \<lparr>cdb_now = 1000, cdb_uuidv7 = (\<lambda>n. n), cdb_drawn = 4, cdb_products = [shelf_product],
     cdb_variants = [shelf_variant 1 ''BS-L'' ''L'' 1, shelf_variant 2 ''BS-M'' ''M'' 0],
     cdb_options = [\<lparr>op_id = 3, op_productId = 0, op_name = ''Size'', op_position = 0, op_values = [''M'', ''L'', ''XL'']\<rparr>],
     cdb_productCategories = [], cdb_productCollections = [], cdb_productMedia = [], cdb_media = [], cdb_categories = [], cdb_collections = [],
     cdb_urlSlugs = [\<lparr>sr_slug = ''shirt'', sr_entityType = ''product'', sr_entityId = 0, sr_isCanonical = False\<rparr>,
       \<lparr>sr_slug = ''blue-shirt'', sr_entityType = ''product'', sr_entityId = 0, sr_isCanonical = True\<rparr>], cdb_audit = []\<rparr>"

lemma shelf_sound: "catalog_sound shelf"
proof -
  have "catalog_ok shelf"
    unfolding catalog_ok_def slugs_inv_def shelf_def slug_rows_ok_def slugs_kept_def entities_def addressed_def shelf_product_def
    by (simp add: inj_on_def)
  then show ?thesis
    by (simp add: catalog_sound_def shelf_def shelf_product_def variant_rows_ok_def shelf_variant_def live_row_def columns_ok_def rows_clash_def)
qed

lemma shelf_view:
  "live_products shelf = [shelf_product]"
  "kp_axes (console_product_of shelf shelf_product) = [\<lparr>ax_name = ''Size'', ax_values = [''M'', ''L'', ''XL'']\<rparr>]"
  "kp_variants (console_product_of shelf shelf_product) = map console_variant_of [shelf_variant 2 ''BS-M'' ''M'' 0, shelf_variant 1 ''BS-L'' ''L'' 1]"
  "kp_slug (console_product_of shelf shelf_product) = Some ''blue-shirt''"
proof -
  show "live_products shelf = [shelf_product]" by (simp add: live_products_def shelf_def shelf_product_def)
  show "kp_axes (console_product_of shelf shelf_product) = [\<lparr>ax_name = ''Size'', ax_values = [''M'', ''L'', ''XL'']\<rparr>]"
    by (simp add: console_product_of_def product_axes_def shelf_def shelf_product_def push_axis_def js_unique_def)
  show "kp_variants (console_product_of shelf shelf_product) = map console_variant_of [shelf_variant 2 ''BS-M'' ''M'' 0, shelf_variant 1 ''BS-L'' ''L'' 1]"
    by (simp add: console_product_of_def product_variants_def shelf_def shelf_product_def shelf_variant_def)
  show "kp_slug (console_product_of shelf shelf_product) = Some ''blue-shirt''"
    by (simp add: console_product_of_def shelf_def shelf_product_def canonical_slug_def)
qed

lemma shelf_exports:
  "export_pages shelf None = [export_product_of ''blue-shirt'' (console_product_of shelf shelf_product)]"
proof -
  have "distinct (map cp_id (cdb_products shelf))" using shelf_sound unfolding catalog_sound_def by blast
  then have "export_pages shelf None = List.map_filter exported_of (map (console_product_of shelf) (live_products shelf))"
    using export_pages_all[of shelf None] by (simp add: pending_products_def live_products_def)
  then show ?thesis by (simp add: shelf_view(1) exported_of_def shelf_view(3,4) List.map_filter_simps)
qed

lemma shelf_exportable: "exportable (export_product_of ''blue-shirt'' (console_product_of shelf shelf_product))"
proof -
  let ?e = "export_product_of ''blue-shirt'' (console_product_of shelf shelf_product)"
  have texts: "slug_shape ''blue-shirt''" "\<not> SCIENTIFIC_NOTATION ''BS-M''" "\<not> SCIENTIFIC_NOTATION ''BS-L''" by code_simp+
  have e: "?e = sample_product [sample_variant ''BS-M'' ''M'', sample_variant ''BS-L'' ''L'']\<lparr>ep_axes := [\<lparr>ax_name = ''Size'', ax_values = [''M'', ''L'', ''XL'']\<rparr>]\<rparr>"
    by (simp add: export_product_of_def shelf_view sample_product_def sample_variant_def console_variant_of_def shelf_variant_def export_variant_of_def)
       (simp add: console_product_of_def shelf_product_def asCsvStatus_def product_status_text_def)
  show ?thesis unfolding e
    by (simp add: sample_product_def sample_variant_def exportable_def exportable_variant_def plain_text_def
        trimmed_def is_space_def texts tags_ok_def amount_ok_def max_safe_integer_def CSV_PRODUCT_STATUSES_def axis_choices_def
        js_unique_def csv_limits MAX_SLUG_LENGTH_def)
qed


end
