(* ===== verification/ImportKeeps.thy ===== *)
theory ImportKeeps
  imports ImportLaws CsvImport
begin

text \<open>
  Omission is not deletion: a variant that the file does not mention survives an import with
  everything it had, and one that it mentions keeps its id.
\<close>

section \<open>Which row a submitted variant edits\<close>

abbreviation somes :: "'a option list \<Rightarrow> 'a list" where
  "somes ts \<equiv> List.map_filter (\<lambda>t. t) ts"

lemma somes_simps [simp]:
  "somes [] = []" "somes (Some i # ts) = i # somes ts" "somes (None # ts) = somes ts" "somes (ts @ us) = somes ts @ somes us"
  by (simp_all add: List.map_filter_def)

lemma somes_iff: "i \<in> set (somes ts) \<longleftrightarrow> Some i \<in> set ts"
  by (induction ts) (auto simp: List.map_filter_simps split: option.splits)

lemma claim_ids_eq:
  assumes "distinct (somes (map vi_id vs))" "set (somes (map vi_id vs)) \<inter> claimed = {}"
  shows "claim_ids own claimed vs =
    (map (\<lambda>v. case vi_id v of Some i \<Rightarrow> if i \<in> own then Some i else None | None \<Rightarrow> None) vs,
     claimed \<union> (set (somes (map vi_id vs)) \<inter> own))"
  using assms
proof (induction vs arbitrary: claimed)
  case (Cons v vs)
  show ?case
  proof (cases "vi_id v")
    case None
    then show ?thesis using Cons by simp
  next
    case (Some i)
    have i: "i \<notin> claimed" "i \<notin> set (somes (map vi_id vs))" and d: "distinct (somes (map vi_id vs))"
      using Cons.prems Some by simp_all
    have "claim_ids own (insert i claimed) vs =
      (map (\<lambda>v. case vi_id v of Some i \<Rightarrow> if i \<in> own then Some i else None | None \<Rightarrow> None) vs,
       insert i claimed \<union> (set (somes (map vi_id vs)) \<inter> own))"
      using Cons.prems Some i(2) by (intro Cons.IH) auto
    moreover have "claim_ids own claimed vs =
      (map (\<lambda>v. case vi_id v of Some i \<Rightarrow> if i \<in> own then Some i else None | None \<Rightarrow> None) vs,
       claimed \<union> (set (somes (map vi_id vs)) \<inter> own))"
      using Cons.prems Some by (intro Cons.IH) auto
    ultimately show ?thesis using Some i(1) by (cases "i \<in> own") auto
  qed
qed simp

lemma claim_skus_ok:
  assumes "length ts = length vs" "distinct (somes ts)" "set (somes ts) \<subseteq> claimed"
  shows "length (claim_skus bySku claimed vs ts) = length vs \<and> distinct (somes (claim_skus bySku claimed vs ts)) \<and>
    (\<forall>k < length vs. \<forall>i. ts ! k = Some i \<longrightarrow> claim_skus bySku claimed vs ts ! k = Some i) \<and>
    (\<forall>i \<in> set (somes (claim_skus bySku claimed vs ts)). i \<in> set (somes ts) \<or> i \<notin> claimed \<and> i \<in> ran bySku)"
  using assms
proof (induction bySku claimed vs ts rule: claim_skus.induct)
  case (1 bySku claimed v vs i ts)
  let ?r = "claim_skus bySku claimed vs ts"
  have IH: "length ?r = length vs" "distinct (somes ?r)" "\<forall>k < length vs. \<forall>i. ts ! k = Some i \<longrightarrow> ?r ! k = Some i"
    "\<forall>j \<in> set (somes ?r). j \<in> set (somes ts) \<or> j \<notin> claimed \<and> j \<in> ran bySku"
    using 1 by simp_all
  have "i \<notin> set (somes ?r)" using IH(4) 1(3,4) by auto
  then show ?case using IH by (auto simp: nth_Cons split: nat.splits)
next
  case (2 bySku claimed v vs ts)
  show ?case
  proof (cases "bySku (vi_sku v)")
    case None
    then show ?thesis using 2(1)[OF None] 2(4-6) by (auto simp: nth_Cons split: nat.splits)
  next
    case (Some i)
    show ?thesis
    proof (cases "i \<in> claimed")
      case True
      then show ?thesis using 2(3)[OF Some] True 2(4-6) Some by (auto simp: nth_Cons split: nat.splits)
    next
      case False
      let ?r = "claim_skus bySku (insert i claimed) vs ts"
      have IH: "length ?r = length vs" "distinct (somes ?r)" "\<forall>k < length vs. \<forall>i. ts ! k = Some i \<longrightarrow> ?r ! k = Some i"
        "\<forall>j \<in> set (somes ?r). j \<in> set (somes ts) \<or> j \<notin> insert i claimed \<and> j \<in> ran bySku"
        using 2(2)[OF Some False] 2(4-6) by auto
      have "i \<notin> set (somes ?r)" using IH(4) 2(6) False by auto
      moreover have "i \<in> ran bySku" using Some by (rule ranI)
      ultimately show ?thesis using IH Some False by (auto simp: nth_Cons split: nat.splits)
    qed
  qed
qed simp_all

text \<open>Targets are rows of the product, no two variants share one, and an id of the product is honoured.\<close>

lemma targets_ok:
  assumes "distinct (somes (map vi_id vs))"
  shows "length (variant_targets live' vs) = length vs" "distinct (somes (variant_targets live' vs))"
    "set (somes (variant_targets live' vs)) \<subseteq> cv_id ` set live'"
    "k < length vs \<Longrightarrow> vi_id (vs ! k) = Some i \<Longrightarrow> i \<in> cv_id ` set live' \<Longrightarrow> variant_targets live' vs ! k = Some i"
proof -
  let ?own = "cv_id ` set live'"
  let ?ts = "map (\<lambda>v. case vi_id v of Some i \<Rightarrow> if i \<in> ?own then Some i else None | None \<Rightarrow> None) vs"
  let ?c = "set (somes (map vi_id vs)) \<inter> ?own"
  let ?by = "map_of (rev (map (\<lambda>v. (cv_sku v, cv_id v)) live'))"
  let ?r = "variant_targets live' vs"
  have targets: "?r = claim_skus ?by ?c vs ?ts"
    unfolding variant_targets_def Let_def claim_ids_eq[OF assms Int_empty_right] by simp
  have somes_ts: "somes ?ts = filter (\<lambda>i. i \<in> ?own) (somes (map vi_id vs))"
    by (induction vs) (auto split: option.splits)
  have own: "ran ?by \<subseteq> ?own" by (auto simp: ran_def dest!: map_of_SomeD)
  have "distinct (somes ?ts)" "set (somes ?ts) \<subseteq> ?c" "length ?ts = length vs" unfolding somes_ts using assms by auto
  then have all: "length ?r = length vs \<and> distinct (somes ?r) \<and> (\<forall>k < length vs. \<forall>i. ?ts ! k = Some i \<longrightarrow> ?r ! k = Some i) \<and>
    (\<forall>i \<in> set (somes ?r). i \<in> set (somes ?ts) \<or> i \<notin> ?c \<and> i \<in> ran ?by)"
    unfolding targets by (intro claim_skus_ok)
  then show "length ?r = length vs" "distinct (somes ?r)" by blast+
  have "set (somes ?ts) \<subseteq> ?own" unfolding somes_ts by auto
  then show "set (somes ?r) \<subseteq> ?own" using all own by blast
  assume k: "k < length vs" and i: "vi_id (vs ! k) = Some i" "i \<in> ?own"
  then have "?ts ! k = Some i" by simp
  then show "?r ! k = Some i" using all k by blast
qed

section \<open>What writing the variants leaves\<close>

lemma write_variant_others:
  assumes "write_variant productId (n, v, t) db = Inr (u, db')" "r \<in> set (cdb_variants db)" "t \<noteq> Some (cv_id r)"
  shows "r \<in> set (cdb_variants db')"
proof (cases t)
  case None
  then show ?thesis using assms(1,2) unfolding write_variant_def
    by (auto simp: tbind_eq_Inr new_catalog_id_def split: if_splits sum.splits)
next
  case (Some i)
  then have i: "cv_id r \<noteq> i" using assms(3) by auto
  show ?thesis
  proof (cases "find (\<lambda>r. cv_id r = i) (cdb_variants db)")
    case None
    then show ?thesis using assms(1,2) Some by (simp add: write_variant_def tbind_eq_Inr)
  next
    case found: (Some q)
    have "r \<in> set (upd (\<lambda>r. cv_id r = i) (\<lambda>_. row) (cdb_variants db))" for row
      using assms(2) i unfolding upd_def by force
    then show ?thesis using assms(1) Some found by (auto simp: write_variant_def tbind_eq_Inr split: sum.splits)
  qed
qed

lemma write_variant_target:
  assumes "write_variant productId (n, v, Some (cv_id r)) db = Inr (u, db')" "r \<in> set (cdb_variants db)" "distinct (map cv_id (cdb_variants db))"
  shows "variant_columns (cv_id r) (cv_productId r) n v \<in> set (cdb_variants db')"
proof -
  let ?P = "\<lambda>q. cv_id q = cv_id r"
  have "find ?P (cdb_variants db) \<noteq> None" using assms(2) unfolding find_None_set by blast
  then obtain q where q: "find ?P (cdb_variants db) = Some q" by blast
  then have "q = r" using find_eq_Some[OF q] assms(2) distinct_map_eq[OF assms(3), of q r] by simp
  then have "cdb_variants db' = upd ?P (\<lambda>_. variant_columns (cv_id r) (cv_productId r) n v) (cdb_variants db)"
    using assms(1) q by (auto simp: write_variant_def tbind_eq_Inr split: sum.splits)
  then show ?thesis using assms(2) unfolding upd_def by force
qed

lemma write_loop:
  assumes "tfor entries (write_variant productId) db = Inr (us, db')" "vars_inv [] db" "distinct (somes (map (snd \<circ> snd) entries))"
    "r \<in> set (cdb_variants db)"
  shows "cv_id r \<notin> set (somes (map (snd \<circ> snd) entries)) \<Longrightarrow> r \<in> set (cdb_variants db')"
    "(n, v, Some (cv_id r)) \<in> set entries \<Longrightarrow> variant_columns (cv_id r) (cv_productId r) n v \<in> set (cdb_variants db')"
proof -
  have "(cv_id r \<notin> set (somes (map (snd \<circ> snd) entries)) \<longrightarrow> r \<in> set (cdb_variants db')) \<and>
    ((n, v, Some (cv_id r)) \<in> set entries \<longrightarrow> variant_columns (cv_id r) (cv_productId r) n v \<in> set (cdb_variants db'))"
    using assms
  proof (induction entries arbitrary: db us r)
    case (Cons e entries)
    obtain m x t where e: "e = (m, x, t)" by (cases e)
    from Cons.prems(1) obtain u1 db1 us' where step: "write_variant productId (m, x, t) db = Inr (u1, db1)"
      "tfor entries (write_variant productId) db1 = Inr (us', db')"
      unfolding e by (auto simp: tbind_eq_Inr)
    have inv: "vars_inv [] db1" by (rule keepsD[OF write_variant_keeps Cons.prems(2) step(1)])
    have dist: "distinct (map cv_id (cdb_variants db))" using Cons.prems(2) unfolding vars_inv_def variants_inv_def variant_rows_ok_def by blast
    let ?ts = "somes (map (snd \<circ> snd) entries)"
    have split: "map (snd \<circ> snd) (e # entries) = t # map (snd \<circ> snd) entries" by (simp add: e)
    have d: "distinct ?ts" using Cons.prems(3) unfolding split by (cases t) simp_all
    have t: "i \<notin> set ?ts" if "t = Some i" for i using Cons.prems(3) unfolding split \<open>t = Some i\<close> by simp
    show ?case
    proof (cases "t = Some (cv_id r)")
      case True
      let ?row = "variant_columns (cv_id r) (cv_productId r) m x"
      have row: "?row \<in> set (cdb_variants db1)" using write_variant_target[OF step(1)[unfolded True] Cons.prems(4) dist] .
      have fresh: "cv_id r \<notin> set ?ts" by (rule t[OF True])
      have "?row \<in> set (cdb_variants db')" using Cons.IH[OF step(2) inv d row] fresh unfolding variant_columns_simps by blast
      moreover have "(n, v, Some (cv_id r)) \<notin> set entries"
      proof
        assume "(n, v, Some (cv_id r)) \<in> set entries"
        then have "Some (cv_id r) \<in> set (map (snd \<circ> snd) entries)" by force
        then show False using fresh unfolding somes_iff by blast
      qed
      moreover have "cv_id r \<in> set (somes (map (snd \<circ> snd) (e # entries)))" unfolding split True by simp
      ultimately show ?thesis using True unfolding e by auto
    next
      case False
      have r: "r \<in> set (cdb_variants db1)" by (rule write_variant_others[OF step(1) Cons.prems(4) False])
      have ids: "cv_id r \<in> set (somes (map (snd \<circ> snd) (e # entries))) \<longleftrightarrow> cv_id r \<in> set ?ts"
        using False unfolding split by (cases t) auto
      have "(n, v, Some (cv_id r)) \<in> set (e # entries) \<longleftrightarrow> (n, v, Some (cv_id r)) \<in> set entries" using False unfolding e by auto
      then show ?thesis using Cons.IH[OF step(2) inv d r] unfolding ids by blast
    qed
  qed simp
  then show "cv_id r \<notin> set (somes (map (snd \<circ> snd) entries)) \<Longrightarrow> r \<in> set (cdb_variants db')"
    "(n, v, Some (cv_id r)) \<in> set entries \<Longrightarrow> variant_columns (cv_id r) (cv_productId r) n v \<in> set (cdb_variants db')" by blast+
qed

text \<open>The rows after a product was saved over the rows \<open>rows\<close>.\<close>

definition saved_over :: "catalog_variant list \<Rightarrow> uuid \<Rightarrow> variant_input list \<Rightarrow> catalog_variant list \<Rightarrow> bool" where
  "saved_over rows productId inputs rows' \<longleftrightarrow>
     (\<forall>r \<in> set rows. cv_productId r \<noteq> productId \<longrightarrow> r \<in> set rows') \<and>
     (\<forall>r \<in> set rows. \<forall>k < length inputs. cv_productId r = productId \<longrightarrow> live_row r \<longrightarrow> vi_id (inputs ! k) = Some (cv_id r) \<longrightarrow>
        variant_columns (cv_id r) productId k (inputs ! k) \<in> set rows')"

lemma writeVariants_saves:
  assumes run: "writeVariants productId inputs db = Inr (u, db')" and inv: "vars_inv [] db" and ids: "distinct (somes (map vi_id inputs))"
  shows "saved_over (cdb_variants db) productId inputs (cdb_variants db')"
proof -
  let ?P = "\<lambda>v. cv_productId v = productId \<and> cv_deletedAt v = None"
  let ?live = "filter ?P (cdb_variants db)"
  let ?ts = "variant_targets ?live inputs"
  let ?entries = "enumerate 0 (zip inputs ?ts)"
  let ?db1 = "db\<lparr>cdb_variants := upd ?P (\<lambda>v. v\<lparr>cv_deletedAt := Some (cdb_now db)\<rparr>) (cdb_variants db)\<rparr>"
  note targets = targets_ok[OF ids, where live' = ?live]
  obtain us where loop: "tfor ?entries (write_variant productId) ?db1 = Inr (us, db')"
    using run unfolding writeVariants_def by (auto simp: tbind_eq_Inr)
  have inv1: "vars_inv [] ?db1" using inv retire_rows[of "[]" "cdb_variants db" ?P] unfolding vars_inv_def by simp
  have dist: "distinct (map cv_id (cdb_variants db))" using inv unfolding vars_inv_def variants_inv_def variant_rows_ok_def by blast
  have ts: "map (snd \<circ> snd) ?entries = ?ts"
    by (rule nth_equalityI) (simp_all add: targets(1) nth_enumerate_eq)
  have d: "distinct (somes (map (snd \<circ> snd) ?entries))" unfolding ts by (rule targets(2))
  note rows = write_loop[OF loop inv1 d]
  show ?thesis
    unfolding saved_over_def
  proof (intro conjI ballI allI impI)
    fix r assume r: "r \<in> set (cdb_variants db)" "cv_productId r \<noteq> productId"
    then have "r \<in> set (cdb_variants ?db1)" unfolding upd_def by force
    moreover have "cv_id r \<notin> set (somes (map (snd \<circ> snd) ?entries))"
    proof
      assume "cv_id r \<in> set (somes (map (snd \<circ> snd) ?entries))"
      then obtain q where "q \<in> set ?live" "cv_id q = cv_id r" using targets(3) unfolding ts by force
      then show False using distinct_map_eq[OF dist, of q r] r by simp
    qed
    ultimately show "r \<in> set (cdb_variants db')" using rows(1) by blast
  next
    fix r k assume r: "r \<in> set (cdb_variants db)" and k: "k < length inputs"
      and own: "cv_productId r = productId" "live_row r" and i: "vi_id (inputs ! k) = Some (cv_id r)"
    let ?r = "r\<lparr>cv_deletedAt := Some (cdb_now db)\<rparr>"
    have "?r \<in> set (cdb_variants ?db1)" using r own unfolding upd_def live_row_def by force
    moreover have "?ts ! k = Some (cv_id r)" using targets(4)[OF k i] r own unfolding live_row_def by force
    then have "(k, inputs ! k, Some (cv_id r)) \<in> set ?entries"
      using k targets(1) by (auto simp: in_set_enumerate_eq)
    ultimately show "variant_columns (cv_id r) productId k (inputs ! k) \<in> set (cdb_variants db')"
      using rows(2)[of ?r k "inputs ! k"] own by simp
  qed
qed

section \<open>The product writers\<close>

lemma leaves_variants:
  "(\<And>db. cdb_variants (f db) = cdb_variants db) \<Longrightarrow> keeps (\<lambda>db. P (cdb_variants db)) (twrite f)"
  "keeps (\<lambda>db. P (cdb_variants db)) new_catalog_id"
  "keeps (\<lambda>db. P (cdb_variants db)) (setCanonicalSlug t i desired)"
  "keeps (\<lambda>db. P (cdb_variants db)) (audit_catalog a b c d e g)"
  "keeps (\<lambda>db. P (cdb_variants db)) (check_product p inp)"
proof -
  show w: "keeps (\<lambda>db. P (cdb_variants db)) (twrite f)" if "\<And>db. cdb_variants (f db) = cdb_variants db" for f
    by (rule keeps_write) (simp add: that)
  show "keeps (\<lambda>db. P (cdb_variants db)) new_catalog_id" unfolding new_catalog_id_def by (auto intro: keepsI)
  show "keeps (\<lambda>db. P (cdb_variants db)) (setCanonicalSlug t i desired)"
    unfolding setCanonicalSlug_def by (auto intro!: keepsI split: sum.splits)
  show "keeps (\<lambda>db. P (cdb_variants db)) (audit_catalog a b c d e g)" unfolding audit_catalog_def by (intro w) simp
  show "keeps (\<lambda>db. P (cdb_variants db)) (check_product p inp)"
    unfolding check_product_def skuIssues_def assertMediaVisible_def assertTaxonomyVisible_def assertVisible_def case_prod_beta Let_def
    by (intro keeps_rules)
qed

lemma leaves_variants_options:
  "keeps (\<lambda>db. P (cdb_variants db)) (writeOptions productId axes)"
  "keeps (\<lambda>db. P (cdb_variants db)) (writeMembership productId cats cols)"
  "keeps (\<lambda>db. P (cdb_variants db)) (writeGallery productId gallery)"
  unfolding writeOptions_def insert_option_def writeMembership_def writeGallery_def case_prod_beta Let_def
  by (intro keeps_rules leaves_variants, simp_all)+

lemma children_save:
  assumes "variant_rows_ok rows" "distinct (somes (map vi_id (pi_variants inp)))"
  shows "hoare (\<lambda>db. cdb_variants db = rows) (write_children productId inp)
    (\<lambda>_ db. saved_over rows productId (pi_variants inp) (cdb_variants db))"
  unfolding write_children_def
proof (rule keeps_then[OF leaves_variants_options(1)], rule hoare_bind)
  show "hoare (\<lambda>db. cdb_variants db = rows) (writeVariants productId (pi_variants inp))
    (\<lambda>_ db. saved_over rows productId (pi_variants inp) (cdb_variants db))"
  proof (rule hoareI)
    fix db u db' assume rows: "cdb_variants db = rows" and run: "writeVariants productId (pi_variants inp) db = Inr (u, db')"
    have "vars_inv [] db" using assms(1) rows by (simp add: vars_inv_def variants_inv_def variants_kept_def)
    then show "saved_over rows productId (pi_variants inp) (cdb_variants db')" using writeVariants_saves[OF run _ assms(2)] rows by simp
  qed
  show "hoare (\<lambda>db. saved_over rows productId (pi_variants inp) (cdb_variants db))
      (tbind (writeMembership productId (pi_categoryIds inp) (pi_collectionIds inp)) (\<lambda>_. writeGallery productId (pi_media inp)))
      (\<lambda>_ db. saved_over rows productId (pi_variants inp) (cdb_variants db))" for u :: unit
    using leaves_variants_options(2,3)[where P = "saved_over rows productId (pi_variants inp)"]
    by (intro keeps_then) (simp_all add: keeps_def)
qed

lemma audit_after:
  "hoare (\<lambda>db. Q (cdb_variants db)) (tbind (audit_catalog a b c d e g) (\<lambda>_. treturn r)) (\<lambda>_ db. Q (cdb_variants db))"
  by (rule keeps_then[OF leaves_variants(4)]) (simp add: hoare_def)

lemma update_saves:
  assumes "variant_rows_ok rows" "distinct (somes (map vi_id (pi_variants inp)))"
  shows "hoare (\<lambda>db. cdb_variants db = rows) (updateProductInTx sanitize actor productId inp)
    (\<lambda>_ db. saved_over rows productId (pi_variants inp) (cdb_variants db))"
  unfolding updateProductInTx_def case_prod_beta
proof (rule keeps_then[OF keeps_read], goal_cases)
  case (1 found)
  show ?case
  proof (cases found)
    case None
    then show ?thesis by (simp add: throw_inv)
  next
    case (Some existing)
    show ?thesis unfolding Some option.case snapshotProduct_def
      by (rule keeps_then[OF leaves_variants(5)], rule keeps_then[OF keeps_read], rule keeps_then[OF keeps_guard],
          rule keeps_then[OF leaves_variants(1)], simp, rule keeps_then[OF leaves_variants(3)],
          rule hoare_bind[OF children_save[OF assms]], rule audit_after)
  qed
qed

lemma hoare_conseq: "hoare P m Q \<Longrightarrow> (\<And>s. P' s \<Longrightarrow> P s) \<Longrightarrow> (\<And>x s. Q x s \<Longrightarrow> Q' x s) \<Longrightarrow> hoare P' m Q'"
  unfolding hoare_def by blast

text \<open>A new product gets an id that no product has, so no row is its own yet.\<close>

definition variants_owned :: "catalog_db \<Rightarrow> bool" where
  "variants_owned db \<longleftrightarrow> (\<forall>v \<in> set (cdb_variants db). cv_productId v \<in> cp_id ` set (cdb_products db))"

lemma create_saves:
  assumes ok: "variant_rows_ok (cdb_variants db)" and owned: "variants_owned db" and ids: "distinct (somes (map vi_id (pi_variants inp)))"
    and run: "createProductInTx sanitize actor inp db = Inr (result, db')"
  shows "set (cdb_variants db) \<subseteq> set (cdb_variants db')"
proof -
  let ?rows = "cdb_variants db"
  let ?I = "\<lambda>s. cdb_variants s = ?rows \<and> cdb_products s = cdb_products db"
  have new: "keeps ?I new_catalog_id" unfolding new_catalog_id_def by (auto intro: keepsI)
  have check: "keeps ?I (check_product None inp)"
    unfolding check_product_def skuIssues_def assertMediaVisible_def assertTaxonomyVisible_def assertVisible_def case_prod_beta Let_def
    by (intro keeps_rules)
  have "hoare ?I (createProductInTx sanitize actor inp) (\<lambda>_ s. set ?rows \<subseteq> set (cdb_variants s))"
    unfolding createProductInTx_def case_prod_beta
  proof (rule keeps_then[OF check], rule keeps_then[OF new], rule hoare_read, rule hoare_guard, rule keeps_then[OF keeps_guard], goal_cases)
    case (1 _ productId db1 _)
    have all: "saved_over ?rows productId (pi_variants inp) rows' \<Longrightarrow> set ?rows \<subseteq> set rows'" if "cdb_products db1 = cdb_products db" for rows'
      using 1 owned that unfolding saved_over_def variants_owned_def list_ex_iff by (metis imageE subsetI)
    show ?case
    proof (cases "cdb_products db1 = cdb_products db")
      case True
      show ?thesis
      proof (rule hoare_conseq[where P = "\<lambda>s. cdb_variants s = ?rows" and Q = "\<lambda>_ s. saved_over ?rows productId (pi_variants inp) (cdb_variants s)"])
        show "hoare (\<lambda>s. cdb_variants s = ?rows)
          (tbind (twrite (\<lambda>db. db\<lparr>cdb_products := cdb_products db @ [product_columns sanitize inp productId (if pi_status inp = product_active then Some (cdb_now db) else None) None]\<rparr>)) (\<lambda>_.
           tbind (setCanonicalSlug ''product'' productId (desired_slug (pi_slug inp) (pi_title inp))) (\<lambda>p.
           tbind (write_children productId inp) (\<lambda>_.
           tbind (audit_catalog actor ''product.created'' ''product'' productId JNull (snapshotOf inp (fst p))) (\<lambda>_.
           treturn \<lparr>rs_productId = productId, rs_slug = fst p, rs_previousSlug = None\<rparr>)))))
          (\<lambda>_ s. saved_over ?rows productId (pi_variants inp) (cdb_variants s))"
          by (rule keeps_then[OF leaves_variants(1)], simp, rule keeps_then[OF leaves_variants(3)],
              rule hoare_bind[OF children_save[OF ok ids]], rule audit_after)
      qed (use all[OF True] in auto)
    next
      case False
      then show ?thesis by (auto simp: hoare_def)
    qed
  qed
  then show ?thesis using run by (auto simp: hoare_def)
qed

section \<open>Owned rows\<close>

definition owned_by :: "uuid \<Rightarrow> catalog_db \<Rightarrow> bool" where
  "owned_by productId db \<longleftrightarrow> variants_owned db \<and> productId \<in> cp_id ` set (cdb_products db)"

lemma owned_keeps:
  "(\<And>db. cdb_variants (f db) = cdb_variants db) \<Longrightarrow> (\<And>db. cdb_products (f db) = cdb_products db) \<Longrightarrow> keeps (owned_by p) (twrite f)"
  "keeps (owned_by p) new_catalog_id"
  "keeps (owned_by p) (setCanonicalSlug t i desired)"
  "keeps (owned_by p) (audit_catalog a b c d e g)"
proof -
  show w: "keeps (owned_by p) (twrite f)"
    if "\<And>db. cdb_variants (f db) = cdb_variants db" "\<And>db. cdb_products (f db) = cdb_products db" for f
    by (rule keeps_write) (simp add: owned_by_def variants_owned_def that)
  show "keeps (owned_by p) new_catalog_id" unfolding new_catalog_id_def owned_by_def variants_owned_def by (auto intro: keepsI)
  show "keeps (owned_by p) (setCanonicalSlug t i desired)"
    unfolding setCanonicalSlug_def owned_by_def variants_owned_def by (auto intro!: keepsI split: sum.splits)
  show "keeps (owned_by p) (audit_catalog a b c d e g)" unfolding audit_catalog_def by (intro w) simp_all
qed

lemma owned_variant: "keeps (owned_by p) (write_variant p entry)"
proof (cases entry)
  case (fields n v target)
  show ?thesis
  proof (cases target)
    case None
    show ?thesis unfolding write_variant_def fields None prod.case option.case
      by (intro keeps_rules owned_keeps(2-4) keeps_write) (simp add: owned_by_def variants_owned_def)
  next
    case (Some i)
    show ?thesis unfolding write_variant_def fields Some prod.case option.case keeps_def
    proof (rule hoare_read, goal_cases)
      case (1 rows)
      show ?case
      proof (cases "find (\<lambda>r. cv_id r = i) rows")
        case None
        then show ?thesis by (simp add: hoare_def)
      next
        case (Some r)
        then have "r \<in> set rows" using find_eq_Some[OF Some] by simp
        then show ?thesis unfolding Some option.case
          by (intro hoare_lift) (auto simp: hoare_def owned_by_def variants_owned_def upd_def)
      qed
    qed
  qed
qed

lemma owned_children: "keeps (owned_by p) (write_children p inp)"
  unfolding write_children_def writeOptions_def insert_option_def writeVariants_def writeMembership_def writeGallery_def case_prod_beta Let_def
  by (intro keeps_rules owned_variant owned_keeps(2-4) keeps_write) (auto simp: owned_by_def variants_owned_def upd_def)

lemma product_columns_id: "cp_id (product_columns sanitize inp i t d) = i"
  by (simp add: product_columns_def)

lemma update_owned: "keeps variants_owned (updateProductInTx sanitize actor p inp)"
proof -
  have pre: "keeps variants_owned (check_product q inp)" for q
    unfolding check_product_def skuIssues_def assertMediaVisible_def assertTaxonomyVisible_def assertVisible_def case_prod_beta Let_def
    by (intro keeps_rules)
  have check: "keeps (owned_by p) (check_product q inp)" for q
    unfolding check_product_def skuIssues_def assertMediaVisible_def assertTaxonomyVisible_def assertVisible_def case_prod_beta Let_def
    by (intro keeps_rules)
  show ?thesis
    unfolding updateProductInTx_def keeps_def case_prod_beta
  proof (rule hoare_read, goal_cases)
    case (1 found)
    show ?case
    proof (cases found)
      case None
      then show ?thesis by (simp add: throw_inv)
    next
      case (Some existing)
      have w: "keeps (owned_by p) (twrite (\<lambda>db. db\<lparr>cdb_products := upd (\<lambda>q. cp_id q = p)
          (\<lambda>q. product_columns sanitize inp p (case cp_publishedAt existing of Some t \<Rightarrow> Some t | None \<Rightarrow> if pi_status inp = product_active then Some (cdb_now db) else None) (cp_deletedAt q))
          (cdb_products db)\<rparr>))"
        by (rule keeps_write) (simp add: owned_by_def variants_owned_def entities_upd(1) product_columns_id)
      have "hoare (owned_by p) (tbind (check_product (Some p) inp) (\<lambda>_.
          tbind (snapshotProduct p (cp_title existing) (cp_status existing)) (\<lambda>before.
          tbind (tguard (tax_rate_ok (pi_taxRateBps inp)) (checkViolation ''products_tax_rate_check'')) (\<lambda>_.
          tbind (twrite (\<lambda>db. db\<lparr>cdb_products := upd (\<lambda>q. cp_id q = p)
            (\<lambda>q. product_columns sanitize inp p (case cp_publishedAt existing of Some t \<Rightarrow> Some t | None \<Rightarrow> if pi_status inp = product_active then Some (cdb_now db) else None) (cp_deletedAt q))
            (cdb_products db)\<rparr>)) (\<lambda>_.
          tbind (setCanonicalSlug ''product'' p (desired_slug (pi_slug inp) (pi_title inp))) (\<lambda>s.
          tbind (write_children p inp) (\<lambda>_.
          tbind (audit_catalog actor (if snd s = None then ''product.updated'' else ''product.slug_changed'') ''product'' p before (snapshotOf inp (fst s))) (\<lambda>_.
          treturn \<lparr>rs_productId = p, rs_slug = fst s, rs_previousSlug = snd s\<rparr>))))))))
          (\<lambda>_. owned_by p)"
        unfolding keeps_def[symmetric] snapshotProduct_def by (intro keeps_rules check w owned_keeps(3,4) owned_children)
      then show ?thesis unfolding Some option.case
      proof (rule hoare_conseq)
        fix s assume s: "variants_owned s \<and> Some existing = find (\<lambda>q. cp_id q = p \<and> cp_deletedAt q = None) (cdb_products s)"
        then have "existing \<in> set (cdb_products s) \<and> cp_id existing = p"
          using find_eq_Some[of "\<lambda>q. cp_id q = p \<and> cp_deletedAt q = None" "cdb_products s" existing] by simp
        then show "owned_by p s" using s unfolding owned_by_def by auto
      qed (simp add: owned_by_def)
    qed
  qed
qed

lemma create_owned: "keeps variants_owned (createProductInTx sanitize actor inp)"
proof -
  have check: "keeps variants_owned (check_product q inp)" for q
    unfolding check_product_def skuIssues_def assertMediaVisible_def assertTaxonomyVisible_def assertVisible_def case_prod_beta Let_def
    by (intro keeps_rules)
  have new: "keeps variants_owned new_catalog_id" unfolding new_catalog_id_def variants_owned_def by (auto intro: keepsI)
  show ?thesis
    unfolding createProductInTx_def keeps_def case_prod_beta
  proof (rule keeps_then[OF check], rule keeps_then[OF new], rule keeps_then[OF keeps_read], rule keeps_then[OF keeps_guard],
      rule keeps_then[OF keeps_guard], goal_cases)
    case (1 x p db u v)
    have rest: "keeps (owned_by p) (tbind (setCanonicalSlug ''product'' p (desired_slug (pi_slug inp) (pi_title inp))) (\<lambda>s.
        tbind (write_children p inp) (\<lambda>_.
        tbind (audit_catalog actor ''product.created'' ''product'' p JNull (snapshotOf inp (fst s))) (\<lambda>_.
        treturn \<lparr>rs_productId = p, rs_slug = fst s, rs_previousSlug = None\<rparr>))))"
      by (intro keeps_rules owned_keeps(3,4) owned_children)
    show ?case
    proof (rule hoare_bind[where R = "\<lambda>_. owned_by p"])
      show "hoare variants_owned (twrite (\<lambda>db. db\<lparr>cdb_products := cdb_products db @
          [product_columns sanitize inp p (if pi_status inp = product_active then Some (cdb_now db) else None) None]\<rparr>)) (\<lambda>_. owned_by p)"
        by (auto simp: hoare_def owned_by_def variants_owned_def product_columns_id)
    qed (use rest in \<open>auto simp: keeps_def owned_by_def elim!: hoare_conseq\<close>)
  qed
qed

section \<open>The merged variants\<close>

lemma somes_map: "somes (map f xs) = List.map_filter f xs"
  by (induction xs) (auto simp: List.map_filter_simps split: option.splits)

lemma merged_ids:
  assumes ids: "distinct (map kv_id (stored_variants existing))" and skus: "distinct (map kv_sku (stored_variants existing))"
    and drafts: "distinct (map vd_sku (pd_variants draft))"
  shows "distinct (somes (map vi_id (map fst (merged_variants draft existing))))"
    "c \<in> set (stored_variants existing) \<Longrightarrow> \<exists>inp \<in> set (map fst (merged_variants draft existing)).
       vi_id inp = Some (kv_id c) \<and> vi_sku inp = kv_sku c \<and> (kv_sku c \<notin> vd_sku ` set (pd_variants draft) \<longrightarrow> inp = retainVariant c)"
proof -
  let ?vs = "stored_variants existing"
  let ?ds = "pd_variants draft"
  let ?by = "map_of (rev (map (\<lambda>v. (kv_sku v, v)) ?vs))"
  let ?rs = "filter (\<lambda>v. kv_sku v \<notin> vd_sku ` set ?ds) ?vs"
  let ?f = "\<lambda>d. map_option kv_id (?by (vd_sku d))"
  have inputs: "map fst (merged_variants draft existing) = map (\<lambda>d. mergeVariant d (?by (vd_sku d))) ?ds @ map retainVariant ?rs"
    unfolding merged_variants_def Let_def by simp
  have by_stored: "v \<in> set ?vs \<and> kv_sku v = s" if "?by s = Some v" for s v
    using map_of_SomeD[OF that] by auto
  have vids: "somes (map vi_id (map fst (merged_variants draft existing))) = List.map_filter ?f ?ds @ map kv_id ?rs"
  proof -
    have m1: "map vi_id (map (\<lambda>d. mergeVariant d (?by (vd_sku d))) ?ds) = map ?f ?ds" by (simp add: mergeVariant_def)
    have m2: "map vi_id (map retainVariant ?rs) = map (\<lambda>v. Some (kv_id v)) ?rs" by (simp add: retainVariant_def)
    have m3: "somes (map (\<lambda>v. Some (kv_id v)) xs) = map kv_id xs" for xs by (induction xs) simp_all
    show ?thesis unfolding inputs map_append m1 m2 somes_simps m3 somes_map ..
  qed
  have first: "distinct (List.map_filter ?f ?ds)"
  proof -
    have "distinct (map (\<lambda>i. i) (List.map_filter ?f ?ds))"
    proof (rule map_filter_distinct)
      show "distinct ?ds" using drafts by (simp add: distinct_map)
      fix x y a b assume xy: "x \<in> set ?ds" "y \<in> set ?ds" "?f x = Some a" "?f y = Some b" "a = b"
      then obtain v w where v: "?by (vd_sku x) = Some v" "?by (vd_sku y) = Some w" "kv_id v = kv_id w" by auto
      have "v = w" using distinct_map_eq[OF ids, of v w] by_stored[OF v(1)] by_stored[OF v(2)] v(3) by blast
      then have "vd_sku x = vd_sku y" using by_stored[OF v(1)] by_stored[OF v(2)] by simp
      then show "x = y" using distinct_map_eq[OF drafts xy(1,2)] by simp
    qed
    then show ?thesis by simp
  qed
  have "set (List.map_filter ?f ?ds) \<inter> set (map kv_id ?rs) = {}"
  proof (rule ccontr)
    assume "set (List.map_filter ?f ?ds) \<inter> set (map kv_id ?rs) \<noteq> {}"
    then obtain i where i: "i \<in> set (List.map_filter ?f ?ds)" "i \<in> set (map kv_id ?rs)" by blast
    obtain d v where d: "d \<in> set ?ds" "?by (vd_sku d) = Some v" "kv_id v = i" using i(1) by (auto simp: List.map_filter_def)
    obtain w where w: "w \<in> set ?rs" "kv_id w = i" using i(2) by auto
    have "v = w" using distinct_map_eq[OF ids, of v w] by_stored[OF d(2)] w d(3) by simp
    then show False using by_stored[OF d(2)] d(1) w(1) by auto
  qed
  then show "distinct (somes (map vi_id (map fst (merged_variants draft existing))))"
    unfolding vids using first distinct_map_filter[OF ids, of "\<lambda>v. kv_sku v \<notin> vd_sku ` set ?ds"] by simp
  assume c: "c \<in> set ?vs"
  show "\<exists>inp \<in> set (map fst (merged_variants draft existing)).
       vi_id inp = Some (kv_id c) \<and> vi_sku inp = kv_sku c \<and> (kv_sku c \<notin> vd_sku ` set ?ds \<longrightarrow> inp = retainVariant c)"
  proof (cases "kv_sku c \<in> vd_sku ` set ?ds")
    case True
    then obtain d where d: "d \<in> set ?ds" "vd_sku d = kv_sku c" by auto
    have "?by (vd_sku d) = Some c" unfolding d(2) by (rule lookup_by_key[OF skus c])
    moreover have "mergeVariant d (?by (vd_sku d)) \<in> set (map fst (merged_variants draft existing))" unfolding inputs using d(1) by simp
    ultimately show ?thesis using d(2) True
      by (intro bexI[of _ "mergeVariant d (?by (vd_sku d))"]) (simp_all add: mergeVariant_def)
  next
    case False
    then have "retainVariant c \<in> set (map fst (merged_variants draft existing))" unfolding inputs using c by simp
    then show ?thesis by (intro bexI[of _ "retainVariant c"]) (simp_all add: retainVariant_def)
  qed
qed

section \<open>A file keeps what it does not mention\<close>

text \<open>The same row, up to its place in the matrix and a threshold that a tracked variant may have lacked.\<close>

definition kept_as :: "catalog_variant \<Rightarrow> catalog_variant \<Rightarrow> bool" where
  "kept_as v w \<longleftrightarrow>
     w = v\<lparr>cv_position := cv_position w, cv_lowStockAt := cv_lowStockAt w\<rparr> \<and>
     (cv_lowStockAt w = cv_lowStockAt v \<or> cv_tracksInventory v \<and> cv_lowStockAt v = None \<and> cv_lowStockAt w = Some DEFAULT_LOW_STOCK_AT)"

definition survives :: "string set \<Rightarrow> catalog_variant list \<Rightarrow> catalog_variant \<Rightarrow> bool" where
  "survives mentioned rows v \<longleftrightarrow>
     (\<exists>w \<in> set rows. live_row w \<and> cv_id w = cv_id v \<and> cv_productId w = cv_productId v \<and> cv_sku w = cv_sku v \<and>
        (cv_sku v \<in> mentioned \<or> kept_as v w))"

lemma kept_as_refl [simp]: "kept_as v v"
  by (simp add: kept_as_def)

lemma kept_as_iff:
  "kept_as v w \<longleftrightarrow>
     cv_id w = cv_id v \<and> cv_productId w = cv_productId v \<and> cv_sku w = cv_sku v \<and> cv_barcode w = cv_barcode v \<and> cv_options w = cv_options v \<and>
     cv_pricePaise w = cv_pricePaise v \<and> cv_compareAtPaise w = cv_compareAtPaise v \<and> cv_costPaise w = cv_costPaise v \<and>
     cv_weightGrams w = cv_weightGrams v \<and> cv_tracksInventory w = cv_tracksInventory v \<and> cv_imageMediaId w = cv_imageMediaId v \<and>
     cv_isActive w = cv_isActive v \<and> cv_deletedAt w = cv_deletedAt v \<and>
     (cv_lowStockAt w = cv_lowStockAt v \<or> cv_tracksInventory v \<and> cv_lowStockAt v = None \<and> cv_lowStockAt w = Some DEFAULT_LOW_STOCK_AT)"
  by (cases v; cases w) (auto simp: kept_as_def)

lemma kept_as_trans: "kept_as u v \<Longrightarrow> kept_as v w \<Longrightarrow> kept_as u w"
  unfolding kept_as_iff by auto

lemma retained_row:
  "live_row v \<Longrightarrow> kept_as v (variant_columns (cv_id v) (cv_productId v) k (retainVariant (console_variant_of v)))"
  by (simp add: kept_as_iff variant_columns_def retainVariant_def console_variant_of_def live_row_def)

lemma survives_self: "v \<in> set rows \<Longrightarrow> live_row v \<Longrightarrow> survives mentioned rows v"
  unfolding survives_def by (intro bexI[of _ v]) simp_all

lemma survives_trans:
  assumes "survives a rows v" "\<And>w. w \<in> set rows \<Longrightarrow> live_row w \<Longrightarrow> survives b rows' w"
  shows "survives (a \<union> b) rows' v"
proof -
  obtain w where w: "w \<in> set rows" "live_row w" "cv_id w = cv_id v" "cv_productId w = cv_productId v" "cv_sku w = cv_sku v"
    "cv_sku v \<in> a \<or> kept_as v w" using assms(1) unfolding survives_def by blast
  obtain x where x: "x \<in> set rows'" "live_row x" "cv_id x = cv_id w" "cv_productId x = cv_productId w" "cv_sku x = cv_sku w"
    "cv_sku w \<in> b \<or> kept_as w x" using assms(2)[OF w(1,2)] unfolding survives_def by blast
  have "cv_sku v \<in> a \<union> b \<or> kept_as v x" using w(5,6) x(6) kept_as_trans[of v w x] by auto
  then show ?thesis unfolding survives_def using w x by (intro bexI[of _ x]) simp_all
qed

lemma commit_keeps_tx: "akeeps I (commit m) \<Longrightarrow> keeps I m"
  by (rule keepsI) (metis akeepsD commit_Inr snd_conv)

lemma product_saves_ok:
  "keeps (vars_inv before) (createProductInTx sanitize actor inp)" "keeps (vars_inv before) (updateProductInTx sanitize actor p inp)"
  by (rule commit_keeps_tx, rule writers_vars(1,2)[unfolded createProduct_def updateProduct_def])+

lemma found_handle:
  assumes "findByHandle handle db = Some p"
  shows "\<exists>cp \<in> set (cdb_products db). p = console_product_of db cp"
proof -
  obtain i where i: "map_option (console_product_of db) (find (\<lambda>p. cp_id p = i \<and> cp_deletedAt p = None) (cdb_products db)) = Some p"
    using assms unfolding findByHandle_def getProductForConsoleInTx_def by (auto split: option.splits if_splits)
  then obtain cp where cp: "find (\<lambda>p. cp_id p = i \<and> cp_deletedAt p = None) (cdb_products db) = Some cp" "p = console_product_of db cp" by auto
  then show ?thesis using find_eq_Some[OF cp(1)] by auto
qed

lemma stored_lists:
  assumes ok: "variant_rows_ok (cdb_variants db)"
  shows "distinct (map kv_id (kp_variants (console_product_of db cp)))" "distinct (map kv_sku (kp_variants (console_product_of db cp)))"
    "v \<in> set (cdb_variants db) \<Longrightarrow> live_row v \<Longrightarrow> cv_productId v = cp_id cp \<Longrightarrow> console_variant_of v \<in> set (kp_variants (console_product_of db cp))"
proof -
  let ?rows = "filter (\<lambda>x. cv_productId x = cp_id cp \<and> cv_deletedAt x = None) (cdb_variants db)"
  have vs: "kp_variants (console_product_of db cp) = map console_variant_of (sort_key cv_position ?rows)"
    by (simp add: console_product_of_def product_variants_def)
  have ids: "distinct (map cv_id (cdb_variants db))" using ok unfolding variant_rows_ok_def by blast
  have "distinct (map cv_id ?rows)" by (rule distinct_map_filter[OF ids])
  then have "distinct (map cv_id (sort_key cv_position ?rows))" unfolding distinct_map by simp
  then show "distinct (map kv_id (kp_variants (console_product_of db cp)))" unfolding vs by (simp add: comp_def console_variant_of_def)
  have "distinct (map cv_sku (filter (\<lambda>x. cv_productId x = cp_id cp) (filter (\<lambda>x. cv_deletedAt x = None) (cdb_variants db))))"
    by (rule distinct_map_filter[OF live_skus_distinct[OF ok ids]])
  moreover have "filter (\<lambda>x. cv_productId x = cp_id cp) (filter (\<lambda>x. cv_deletedAt x = None) (cdb_variants db)) = ?rows"
    unfolding filter_filter by (rule filter_cong[OF refl]) blast
  ultimately have "distinct (map cv_sku ?rows)" by simp
  then have "distinct (map cv_sku (sort_key cv_position ?rows))" unfolding distinct_map by simp
  then show "distinct (map kv_sku (kp_variants (console_product_of db cp)))" unfolding vs by (simp add: comp_def console_variant_of_def)
  show "v \<in> set (cdb_variants db) \<Longrightarrow> live_row v \<Longrightarrow> cv_productId v = cp_id cp \<Longrightarrow> console_variant_of v \<in> set (kp_variants (console_product_of db cp))"
    unfolding vs live_row_def by simp
qed

lemma merged_inputs [simp]: "pi_variants (mg_input (mergeProduct draft existing)) = map fst (merged_variants draft existing)"
  by (simp add: mergeProduct_def Let_def)

lemma saved_survives:
  assumes ok: "variant_rows_ok (cdb_variants db)" and drafts: "distinct (map vd_sku (pd_variants draft))"
    and saved: "saved_over (cdb_variants db) (cp_id cp) (map fst (merged_variants draft (Some (console_product_of db cp)))) rows'"
    and v: "v \<in> set (cdb_variants db)" "live_row v"
  shows "survives (vd_sku ` set (pd_variants draft)) rows' v"
proof (cases "cv_productId v = cp_id cp")
  case False
  then show ?thesis using saved v survives_self[of v rows'] unfolding saved_over_def by blast
next
  case True
  let ?p = "console_product_of db cp"
  let ?inputs = "map fst (merged_variants draft (Some ?p))"
  have stored: "stored_variants (Some ?p) = kp_variants ?p" by (simp add: stored_variants_def)
  note lists = stored_lists[OF ok, where cp = cp]
  obtain inp where inp: "inp \<in> set ?inputs" "vi_id inp = Some (kv_id (console_variant_of v))" "vi_sku inp = kv_sku (console_variant_of v)"
    "kv_sku (console_variant_of v) \<notin> vd_sku ` set (pd_variants draft) \<longrightarrow> inp = retainVariant (console_variant_of v)"
    using merged_ids(2)[of "Some ?p", unfolded stored, OF lists(1,2) drafts lists(3)[OF v True]] by blast
  obtain k where k: "k < length ?inputs" "?inputs ! k = inp" using inp(1) unfolding in_set_conv_nth by blast
  have c: "kv_id (console_variant_of v) = cv_id v" "kv_sku (console_variant_of v) = cv_sku v" by (simp_all add: console_variant_of_def)
  let ?w = "variant_columns (cv_id v) (cp_id cp) k inp"
  have w: "?w \<in> set rows'" using saved v True k inp(2) unfolding saved_over_def c(1) by blast
  have kept: "cv_sku v \<in> vd_sku ` set (pd_variants draft) \<or> kept_as v ?w"
    using inp(4) retained_row[OF v(2), of k] True unfolding c by auto
  have "live_row ?w" "cv_sku ?w = cv_sku v" using inp(3) by (simp_all add: live_row_def variant_columns_def c)
  then show ?thesis unfolding survives_def using w kept True by (intro bexI[of _ ?w]) simp_all
qed

lemma applyProduct_survives:
  assumes ok: "variant_rows_ok (cdb_variants db)" and owned: "variants_owned db" and drafts: "distinct (map vd_sku (pd_variants draft))"
    and run: "applyProduct sanitize actor draft db = Inr (r, db')"
  shows "variant_rows_ok (cdb_variants db')" "variants_owned db'"
    "v \<in> set (cdb_variants db) \<Longrightarrow> live_row v \<Longrightarrow> survives (vd_sku ` set (pd_variants draft)) (cdb_variants db') v"
proof -
  have inv: "vars_inv [] db" using ok by (simp add: vars_inv_def variants_inv_def variants_kept_def)
  let ?m = "\<lambda>e. mg_input (mergeProduct draft e)"
  have "variant_rows_ok (cdb_variants db') \<and> variants_owned db' \<and>
    (\<forall>v \<in> set (cdb_variants db). live_row v \<longrightarrow> survives (vd_sku ` set (pd_variants draft)) (cdb_variants db') v)"
  proof (cases "findByHandle (pd_handle draft) db")
    case None
    then obtain result where created: "createProductInTx sanitize actor (?m None) db = Inr (result, db')"
      using run unfolding applyProduct_def Let_def by (auto split: if_splits sum.splits)
    have "distinct (somes (map vi_id (pi_variants (?m None))))"
      unfolding merged_inputs by (rule merged_ids(1)[OF _ _ drafts]) (simp_all add: stored_variants_def)
    then have "set (cdb_variants db) \<subseteq> set (cdb_variants db')" by (rule create_saves[OF ok owned _ created])
    then show ?thesis
      using keepsD[OF product_saves_ok(1) inv created] keepsD[OF create_owned owned created] survives_self
      unfolding vars_inv_def variants_inv_def by blast
  next
    case (Some p)
    obtain cp where cp: "p = console_product_of db cp" using found_handle[OF Some] by blast
    show ?thesis
    proof (cases "db' = db")
      case True
      then show ?thesis using ok owned survives_self by blast
    next
      case False
      then obtain result where updated: "updateProductInTx sanitize actor (cp_id cp) (?m (Some p)) db = Inr (result, db')"
        using run Some cp unfolding applyProduct_def Let_def by (auto split: if_splits sum.splits)
      have stored: "stored_variants (Some p) = kp_variants (console_product_of db cp)" by (simp add: stored_variants_def cp)
      have "distinct (somes (map vi_id (pi_variants (?m (Some p)))))"
        unfolding merged_inputs by (rule merged_ids(1)) (simp_all add: stored stored_lists(1,2)[OF ok] drafts)
      then have "saved_over (cdb_variants db) (cp_id cp) (map fst (merged_variants draft (Some p))) (cdb_variants db')"
        using hoareD[OF update_saves[OF ok] refl updated] by simp
      then show ?thesis
        using keepsD[OF product_saves_ok(2) inv updated] keepsD[OF update_owned owned updated] saved_survives[OF ok drafts]
        unfolding vars_inv_def variants_inv_def cp by blast
    qed
  qed
  then show "variant_rows_ok (cdb_variants db')" "variants_owned db'"
    "v \<in> set (cdb_variants db) \<Longrightarrow> live_row v \<Longrightarrow> survives (vd_sku ` set (pd_variants draft)) (cdb_variants db') v" by blast+
qed

lemma apply_products_survive:
  assumes "variant_rows_ok (cdb_variants db)" "variants_owned db" "distinct (map vd_sku (concat (map pd_variants drafts)))"
    "apply_products sanitize actor drafts db = Inr (rs, db')" "v \<in> set (cdb_variants db)" "live_row v"
  shows "survives (vd_sku ` set (concat (map pd_variants drafts))) (cdb_variants db') v"
  using assms
proof (induction drafts arbitrary: db rs v)
  case Nil
  then show ?case using survives_self by simp
next
  case (Cons draft drafts)
  from Cons.prems(4) obtain r db1 rs' where step: "applyProduct sanitize actor draft db = Inr (r, db1)"
    "apply_products sanitize actor drafts db1 = Inr (rs', db')" by (auto split: sum.splits)
  have d: "distinct (map vd_sku (pd_variants draft))" "distinct (map vd_sku (concat (map pd_variants drafts)))" using Cons.prems(3) by simp_all
  note one = applyProduct_survives[OF Cons.prems(1,2) d(1) step(1)]
  have "survives (vd_sku ` set (pd_variants draft) \<union> vd_sku ` set (concat (map pd_variants drafts))) (cdb_variants db') v"
    by (rule survives_trans[OF one(3)[OF Cons.prems(5,6)]]) (rule Cons.IH[OF one(1,2) d(2) step(2)])
  moreover have "vd_sku ` set (concat (map pd_variants (draft # drafts))) =
    vd_sku ` set (pd_variants draft) \<union> vd_sku ` set (concat (map pd_variants drafts))" by auto
  ultimately show ?case by simp
qed

definition file_skus :: "string list list \<Rightarrow> string list" where
  "file_skus records = map vd_sku (concat (map pd_variants (pc_products (parseCatalogCsv records))))"

text \<open>
  C33.  An import never deletes by omission.  Whatever file is imported over whatever catalog, every
  live variant of before is live afterwards with its id, its product and its SKU; and one whose SKU
  the file does not name keeps all it had, its options, prices, weight, image and flags included (only
  its place in the matrix may move, and a tracked variant without a low-stock threshold gets the
  default one).
\<close>

theorem import_never_deletes:
  assumes "variant_rows_ok (cdb_variants db)" "variants_owned db"
  shows "list_all (\<lambda>v. survives (set (file_skus records)) (cdb_variants (snd (runCatalogImport sanitize actor records committing db))) v)
    (filter live_row (cdb_variants db))"
proof -
  let ?parsed = "parseCatalogCsv records"
  have self: "list_all (survives m (cdb_variants db)) (filter live_row (cdb_variants db))" for m
    using survives_self by (simp add: list_all_iff)
  show ?thesis
  proof (cases "pc_issues ?parsed = []")
    case False
    then show ?thesis using self by (simp add: runCatalogImport_def Let_def)
  next
    case True
    then obtain header rows where "records = header # rows" by (cases records) (simp_all add: parseCatalogCsv_def at_row_def)
    then have skus: "distinct (map vd_sku (concat (map pd_variants (pc_products ?parsed))))"
      using clean_file_limits[of header rows] True by simp
    show ?thesis
    proof (cases "apply_products sanitize actor (pc_products ?parsed) db")
      case (Inl t)
      then show ?thesis using self by (cases t) (simp_all add: runCatalogImport_def Let_def import_tx_def)
    next
      case (Inr res)
      obtain rs db' where res: "res = (rs, db')" by fastforce
      have after: "list_all (survives (set (file_skus records)) (cdb_variants db')) (filter live_row (cdb_variants db))"
        unfolding list_all_iff file_skus_def set_map
        using apply_products_survive[OF assms skus Inr[unfolded res]] by simp
      show ?thesis using self after Inr res by (simp add: runCatalogImport_def Let_def import_tx_def)
    qed
  qed
qed

text \<open>Two sizes on the shelf; a file that names one of them with a new price.\<close>

definition price_update :: "string list list" where
  "price_update =
    [[''handle'', ''title'', ''sku'', ''price'', ''weight_grams''],
     [''blue-shirt'', ''Blue Shirt'', ''BS-M'', ''999'', ''250'']]"

theorem import_never_deletes_witness:
  "survives (set (file_skus price_update)) (cdb_variants (snd (runCatalogImport (\<lambda>s. s) 7 price_update True shelf))) (shelf_variant 1 ''BS-L'' ''L'' 1)"
proof -
  have "variant_rows_ok (cdb_variants shelf)" using shelf_sound unfolding catalog_sound_def by blast
  moreover have "variants_owned shelf" by (simp add: variants_owned_def shelf_def shelf_variant_def shelf_product_def)
  ultimately show ?thesis
    using import_never_deletes[of shelf price_update "\<lambda>s. s" 7 True]
    by (simp add: list_all_iff shelf_def shelf_variant_def live_row_def)
qed

end
