(* ===== verification/Cart.thy ===== *)
theory Cart
  imports Checkout
begin

text \<open>
  Carts, \<open>packages/core/src/cart/server.ts\<close> and the view types of \<open>cart/index.ts\<close>.  An id from the
  browser is \<open>None\<close> when its text is not UUID-shaped, and a quantity is \<open>None\<close> when it is not a whole
  number.  The lines of a cart stand in \<open>created_at\<close> order; a changed line keeps its place.  A cart
  prices its lines at every read, so nothing here stores a price.
\<close>

type_synonym raw_id = "uuid option"

definition CART_LINE_MAX_QUANTITY :: int where "CART_LINE_MAX_QUANTITY = 100"

definition CART_MAX_LINES :: nat where "CART_MAX_LINES = 100"

section \<open>The view\<close>

record cart_view_line =
  vl_variantId :: uuid
  vl_productId :: uuid
  vl_title :: string
  vl_sku :: string
  vl_options :: "(string \<times> string) list"
  vl_quantity :: int
  vl_unitPricePaise :: paise
  vl_lineTotalPaise :: paise
  vl_available :: "int option"

text \<open>Why a preview does not apply: no such active code, or the refusal of the evaluation.\<close>

datatype preview_reason = unknown_code | refused refusal_reason

record cart_coupon_preview =
  vp_code :: string
  vp_applicable :: bool
  vp_discountPaise :: paise
  vp_freeShipping :: bool
  vp_reason :: "preview_reason option"

record cart_view =
  vw_cartId :: uuid
  vw_status :: cart_status
  vw_lines :: "cart_view_line list"
  vw_subtotalPaise :: paise
  vw_couponCode :: "string option"
  vw_couponPreview :: "cart_coupon_preview option"

text \<open>The joined rows of the view: a line whose variant or product is not visible is left out.\<close>

definition cart_join :: "db \<Rightarrow> cart_line_row \<Rightarrow> (cart_line_row \<times> variant_row \<times> product_row) option" where
  "cart_join db l =
    Option.bind (sellable_variant db (cl_variantId l)) (\<lambda>v.
    Option.bind (sellable_product db (pv_productId v)) (\<lambda>p. Some (l, v, p)))"

definition cart_rows :: "db \<Rightarrow> uuid \<Rightarrow> (cart_line_row \<times> variant_row \<times> product_row) list" where
  "cart_rows db cartId = List.map_filter (cart_join db) (filter (\<lambda>l. cl_cartId l = cartId) (db_cartLines db))"

definition tracked_ids :: "(cart_line_row \<times> variant_row \<times> product_row) list \<Rightarrow> uuid list" where
  "tracked_ids rows = map (\<lambda>(l, v, p). cl_variantId l) (filter (\<lambda>(l, v, p). pv_tracksInventory v) rows)"

definition view_line :: "(uuid \<times> availability) list \<Rightarrow> cart_line_row \<times> variant_row \<times> product_row \<Rightarrow> cart_view_line" where
  "view_line availabilities row = (case row of (l, v, p) \<Rightarrow>
     \<lparr>vl_variantId = cl_variantId l, vl_productId = pv_productId v, vl_title = pr_title p, vl_sku = pv_sku v,
      vl_options = pv_options v, vl_quantity = cl_quantity l, vl_unitPricePaise = pv_pricePaise v,
      vl_lineTotalPaise = pv_pricePaise v * cl_quantity l,
      vl_available =
        (if pv_tracksInventory v
         then Some (case map_of availabilities (cl_variantId l) of Some a \<Rightarrow> av_available a | None \<Rightarrow> 0)
         else None)\<rparr>)"

definition cart_for_evaluation :: "db \<Rightarrow> cart_view_line list \<Rightarrow> paise \<Rightarrow> eval_cart" where
  "cart_for_evaluation db lines subtotalPaise =
     \<lparr>ec_lines = map (\<lambda>l. \<lparr>el_variantId = vl_variantId l, el_productId = vl_productId l,
        el_categoryIds = categories_of db (vl_productId l), el_quantity = vl_quantity l,
        el_unitPricePaise = vl_unitPricePaise l\<rparr>) lines,
      ec_subtotalPaise = subtotalPaise, ec_shippingPaise = 0, ec_channel = web\<rparr>"

text \<open>The stored code evaluated for nobody in particular; usage limits are not counted.\<close>

definition previewCoupon :: "db \<Rightarrow> string \<Rightarrow> cart_view_line list \<Rightarrow> paise \<Rightarrow> cart_coupon_preview" where
  "previewCoupon db code lines subtotalPaise =
    (case find (\<lambda>p. pd_code p = code) (db_promotions db) of
       None \<Rightarrow> \<lparr>vp_code = code, vp_applicable = False, vp_discountPaise = 0, vp_freeShipping = False, vp_reason = Some unknown_code\<rparr>
     | Some promo \<Rightarrow>
         if pd_status promo \<noteq> promo_active
         then \<lparr>vp_code = code, vp_applicable = False, vp_discountPaise = 0, vp_freeShipping = False, vp_reason = Some unknown_code\<rparr>
         else case evaluatePromotion promo (cart_for_evaluation db lines subtotalPaise) None (db_now db) of
           Inr discount \<Rightarrow>
             \<lparr>vp_code = code, vp_applicable = True, vp_discountPaise = ad_discountPaise discount,
              vp_freeShipping = ad_freeShipping discount, vp_reason = None\<rparr>
         | Inl reason \<Rightarrow>
             \<lparr>vp_code = code, vp_applicable = False, vp_discountPaise = 0, vp_freeShipping = False, vp_reason = Some (refused reason)\<rparr>)"

definition find_cart :: "db \<Rightarrow> uuid \<Rightarrow> cart_row option" where
  "find_cart db cartId = find (\<lambda>c. ca_id c = cartId) (db_carts db)"

definition readCartView :: "db \<Rightarrow> uuid \<Rightarrow> cart_view option" where
  "readCartView db cartId =
    (case find_cart db cartId of
       None \<Rightarrow> None
     | Some cart \<Rightarrow>
         let rows = cart_rows db cartId;
             lines = map (view_line (getAvailability db (tracked_ids rows))) rows;
             subtotalPaise = foldl (\<lambda>s l. s + vl_lineTotalPaise l) 0 lines
         in Some \<lparr>vw_cartId = ca_id cart, vw_status = ca_status cart, vw_lines = lines, vw_subtotalPaise = subtotalPaise,
              vw_couponCode = ca_couponCode cart,
              vw_couponPreview = (case ca_couponCode cart of
                 None \<Rightarrow> None
               | Some code \<Rightarrow> if code = [] then None else Some (previewCoupon db code lines subtotalPaise))\<rparr>)"

definition getCartView :: "raw_id \<Rightarrow> cart_view option dbaction" where
  "getCartView cartId = (case cartId of None \<Rightarrow> areturn None | Some c \<Rightarrow> commit (tread (\<lambda>db. readCartView db c)))"

section \<open>Mutations\<close>

definition cartNotFound :: err where
  "cartNotFound = AppError ''not_found'' 404 []"

definition cartNotActive :: err where
  "cartNotActive = AppError ''cart_not_active'' 409 []"

definition loadActiveCart :: "raw_id \<Rightarrow> uuid dbtx" where
  "loadActiveCart cartId = (case cartId of
     None \<Rightarrow> tthrow cartNotFound
   | Some c \<Rightarrow>
       tbind (tread (\<lambda>db. find_cart db c)) (\<lambda>found.
       case found of
         None \<Rightarrow> tthrow cartNotFound
       | Some cart \<Rightarrow> tbind (tguard (ca_status cart = cart_active) cartNotActive) (\<lambda>_. treturn (ca_id cart))))"

definition touchCart :: "uuid \<Rightarrow> unit dbtx" where
  "touchCart cartId = twrite (\<lambda>db. db\<lparr>db_carts := upd (\<lambda>c. ca_id c = cartId) (\<lambda>c. c\<lparr>ca_updatedAt := db_now db\<rparr>) (db_carts db)\<rparr>)"

definition getOrCreateCart :: "raw_id \<Rightarrow> (uuid \<times> bool) dbaction" where
  "getOrCreateCart cartId = commit (
     tbind (tread (\<lambda>db. case cartId of None \<Rightarrow> None
        | Some c \<Rightarrow> find (\<lambda>r. ca_id r = c \<and> ca_status r = cart_active) (db_carts db))) (\<lambda>existing.
     case existing of
       Some cart \<Rightarrow> treturn (ca_id cart, False)
     | None \<Rightarrow>
         tbind draw_uuid (\<lambda>cid.
         tbind (tread (\<lambda>db. list_ex (\<lambda>r. ca_id r = cid) (db_carts db))) (\<lambda>taken.
         tbind (tguard (\<not> taken) (uniqueViolation ''carts_pkey'')) (\<lambda>_.
         tbind (twrite (\<lambda>db. db\<lparr>db_carts := db_carts db @
             [\<lparr>ca_id = cid, ca_status = cart_active, ca_buyerName = None, ca_buyerPhoneE164 = None, ca_buyerEmail = None,
               ca_shippingAddress = None, ca_couponCode = None, ca_updatedAt = db_now db\<rparr>]\<rparr>)) (\<lambda>_.
         treturn (cid, True)))))))"

definition on_line :: "uuid \<Rightarrow> uuid \<Rightarrow> cart_line_row \<Rightarrow> bool" where
  "on_line cartId variantId l \<longleftrightarrow> cl_cartId l = cartId \<and> cl_variantId l = variantId"

definition delete_line :: "uuid \<Rightarrow> uuid \<Rightarrow> unit dbtx" where
  "delete_line cartId variantId = twrite (\<lambda>db. db\<lparr>db_cartLines := filter (\<lambda>l. \<not> on_line cartId variantId l) (db_cartLines db)\<rparr>)"

text \<open>\<open>INSERT .. ON CONFLICT (tenant_id, cart_id, variant_id) DO UPDATE\<close>, under the table's checks.\<close>

definition put_line :: "uuid \<Rightarrow> uuid \<Rightarrow> int \<Rightarrow> unit dbtx" where
  "put_line cartId variantId quantity =
     tbind draw_uuid (\<lambda>lid.
     tbind (tguard (0 < quantity \<and> quantity \<le> 100) (checkViolation ''cart_lines_quantity_check'')) (\<lambda>_.
     tbind (tread (\<lambda>db. list_ex (on_line cartId variantId) (db_cartLines db))) (\<lambda>present.
     if present
     then twrite (\<lambda>db. db\<lparr>db_cartLines := upd (on_line cartId variantId) (\<lambda>l. l\<lparr>cl_quantity := quantity\<rparr>) (db_cartLines db)\<rparr>)
     else
       tbind (tread (\<lambda>db. list_ex (\<lambda>l. cl_id l = lid) (db_cartLines db))) (\<lambda>taken.
       tbind (tguard (\<not> taken) (uniqueViolation ''cart_lines_pkey'')) (\<lambda>_.
       twrite (\<lambda>db. db\<lparr>db_cartLines := db_cartLines db @
         [\<lparr>cl_id = lid, cl_cartId = cartId, cl_variantId = variantId, cl_quantity = quantity\<rparr>]\<rparr>))))))"

text \<open>The variant a payload may name: live and active, of a live and active product.\<close>

definition visible_variant :: "db \<Rightarrow> uuid \<Rightarrow> variant_row option" where
  "visible_variant db v = Option.bind (sellable_variant db v) (\<lambda>row.
     Option.bind (sellable_product db (pv_productId row)) (\<lambda>p. Some row))"

definition insufficientStock :: err where
  "insufficientStock = AppError ''insufficient_stock'' 422 [''quantity'']"

definition available_of :: "db \<Rightarrow> uuid \<Rightarrow> int" where
  "available_of db v = (case map_of (getAvailability db [v]) v of Some a \<Rightarrow> av_available a | None \<Rightarrow> 0)"

definition lines_of :: "db \<Rightarrow> uuid \<Rightarrow> cart_line_row list" where
  "lines_of db cartId = filter (\<lambda>l. cl_cartId l = cartId) (db_cartLines db)"

definition upsertLineTx :: "raw_id \<Rightarrow> uuid \<Rightarrow> int \<Rightarrow> cart_view option dbtx" where
  "upsertLineTx cartId variantId quantity =
     tbind (loadActiveCart cartId) (\<lambda>cart.
     if quantity = 0 then
       tbind (delete_line cart variantId) (\<lambda>_.
       tbind (touchCart cart) (\<lambda>_.
       tread (\<lambda>db. readCartView db cart)))
     else
       tbind (tread (\<lambda>db. visible_variant db variantId)) (\<lambda>visible.
       case visible of
         None \<Rightarrow> tthrow notFound
       | Some v \<Rightarrow>
           tbind (tread (\<lambda>db. pv_tracksInventory v \<longrightarrow> quantity \<le> available_of db (pv_id v))) (\<lambda>enough.
           tbind (tguard enough insufficientStock) (\<lambda>_.
           tbind (tread (\<lambda>db. list_ex (on_line cart variantId) (db_cartLines db) \<or> length (lines_of db cart) < CART_MAX_LINES)) (\<lambda>room.
           tbind (tguard room (invalidPayload [''variantId''])) (\<lambda>_.
           tbind (put_line cart variantId quantity) (\<lambda>_.
           tbind (touchCart cart) (\<lambda>_.
           tread (\<lambda>db. readCartView db cart)))))))))"

definition upsertLine :: "raw_id \<Rightarrow> raw_id \<Rightarrow> int option \<Rightarrow> cart_view option dbaction" where
  "upsertLine cartId variantId quantity =
    (case variantId of
       None \<Rightarrow> athrow (invalidPayload [''variantId''])
     | Some v \<Rightarrow>
         (case quantity of
            None \<Rightarrow> athrow (invalidPayload [''quantity''])
          | Some q \<Rightarrow>
              if \<not> is_safe_integer q \<or> q < 0 \<or> q > CART_LINE_MAX_QUANTITY then athrow (invalidPayload [''quantity''])
              else commit (upsertLineTx cartId v q)))"

definition removeLine :: "raw_id \<Rightarrow> raw_id \<Rightarrow> cart_view option dbaction" where
  "removeLine cartId variantId =
    (case variantId of
       None \<Rightarrow> athrow (invalidPayload [''variantId''])
     | Some v \<Rightarrow> commit (
         tbind (loadActiveCart cartId) (\<lambda>cart.
         tbind (delete_line cart v) (\<lambda>_.
         tbind (touchCart cart) (\<lambda>_.
         tread (\<lambda>db. readCartView db cart))))))"

definition set_coupon :: "uuid \<Rightarrow> string option \<Rightarrow> unit dbtx" where
  "set_coupon cartId code = twrite (\<lambda>db. db\<lparr>db_carts :=
     upd (\<lambda>c. ca_id c = cartId) (\<lambda>c. c\<lparr>ca_couponCode := code, ca_updatedAt := db_now db\<rparr>) (db_carts db)\<rparr>)"

definition setCartCoupon :: "raw_id \<Rightarrow> string \<Rightarrow> cart_view option dbaction" where
  "setCartCoupon cartId code =
    (let normalized = to_upper (trim code) in
     if length normalized = 0 \<or> length normalized > 40 then athrow (invalidPayload [''code''])
     else commit (
       tbind (loadActiveCart cartId) (\<lambda>cart.
       tbind (set_coupon cart (Some normalized)) (\<lambda>_.
       tread (\<lambda>db. readCartView db cart)))))"

definition clearCartCoupon :: "raw_id \<Rightarrow> cart_view option dbaction" where
  "clearCartCoupon cartId = commit (
     tbind (loadActiveCart cartId) (\<lambda>cart.
     tbind (set_coupon cart None) (\<lambda>_.
     tread (\<lambda>db. readCartView db cart))))"

end
