(* ===== verification/CartLaws.thy ===== *)
theory CartLaws
  imports Cart OrderHistory
begin

text \<open>
  What a cart promises: it quotes what checkout charges, it never outgrows what a hold takes, and it is
  a map from variants to quantities.  Carts and the shop's other operations run interleaved.
\<close>

section \<open>A quote\<close>

definition checkout_row_of :: "cart_line_row \<times> variant_row \<times> product_row \<Rightarrow> checkout_row" where
  "checkout_row_of row = (case row of (l, v, p) \<Rightarrow>
     \<lparr>kr_variantId = cl_variantId l, kr_quantity = cl_quantity l, kr_productId = pv_productId v, kr_sku = pv_sku v,
      kr_options = pv_options v, kr_pricePaise = pv_pricePaise v, kr_title = pr_title p, kr_hsnCode = pr_hsnCode p,
      kr_taxRateBps = pr_taxRateBps p\<rparr>)"

lemma map_filter_map_option: "List.map_filter (\<lambda>x. map_option g (f x)) xs = map g (List.map_filter f xs)"
  by (induction xs) (simp_all add: List.map_filter_simps split: option.split)

lemma join_line_cart: "join_line db l = map_option checkout_row_of (cart_join db l)"
  by (simp add: join_line_def cart_join_def checkout_row_of_def split: option.split)

lemma live_rows_cart: "live_rows db cartId = map checkout_row_of (cart_rows db cartId)"
  unfolding live_rows_def cart_rows_def join_line_cart map_filter_map_option[symmetric] ..

lemma foldl_sum: "foldl (\<lambda>s x. s + f x) (a :: int) xs = a + sum_list (map f xs)"
  by (induction xs arbitrary: a) simp_all

lemma view_line_row:
  "vl_variantId (view_line av r) = kr_variantId (checkout_row_of r)" "vl_productId (view_line av r) = kr_productId (checkout_row_of r)"
  "vl_quantity (view_line av r) = kr_quantity (checkout_row_of r)" "vl_unitPricePaise (view_line av r) = kr_pricePaise (checkout_row_of r)"
  "vl_lineTotalPaise (view_line av r) = line_gross (checkout_row_of r)"
  by (simp_all add: view_line_def checkout_row_of_def line_gross_def split: prod.split)

lemma cart_evaluation: "cart_for_evaluation db (map (view_line av) rows) s = eval_cart_of db (map checkout_row_of rows) s 0"
  by (simp add: cart_for_evaluation_def eval_cart_of_def view_line_row)

lemma view_as_checkout:
  assumes "readCartView db cartId = Some view"
  shows "vw_subtotalPaise view = sum_list (map line_gross (live_rows db cartId))"
    "map (\<lambda>l. (vl_variantId l, vl_quantity l, vl_unitPricePaise l)) (vw_lines view) =
      map (\<lambda>r. (kr_variantId r, kr_quantity r, kr_pricePaise r)) (live_rows db cartId)"
    "vw_couponPreview view = (case vw_couponCode view of None \<Rightarrow> None | Some code \<Rightarrow> if code = [] then None
       else Some (previewCoupon db code (vw_lines view) (vw_subtotalPaise view)))"
    "\<exists>av. vw_lines view = map (view_line av) (cart_rows db cartId)"
  using assms
  by (auto simp: readCartView_def Let_def foldl_sum live_rows_cart view_line_row comp_def split: option.splits)

section \<open>What a preview promises\<close>

lemma condition_without_shipping:
  "checkCondition k (eval_cart_of db rows s a) c = checkCondition k (eval_cart_of db rows s b) c"
  by (cases k) (simp_all add: eval_cart_of_def)

lemma condition_for_nobody: "checkCondition k cart (Some cu) = None \<Longrightarrow> checkCondition k cart None = None"
  by (cases k) (simp_all split: if_splits)

lemma effects_without_shipping:
  "apply_effects es (eval_cart_of db rows s a) d fs = apply_effects es (eval_cart_of db rows s b) d fs"
proof (induction es arbitrary: d fs)
  case (Cons e es)
  have "buyXGetYDiscount x y ids (eval_cart_of db rows s a) = buyXGetYDiscount x y ids (eval_cart_of db rows s b)" for x y ids
    by (simp add: buyXGetYDiscount_def eval_cart_of_def cong: if_cong)
  moreover have "ec_subtotalPaise (eval_cart_of db rows s a) = ec_subtotalPaise (eval_cart_of db rows s b)" by (simp add: eval_cart_of_def)
  ultimately show ?case by (cases e) (simp_all add: Cons Let_def split: option.split)
qed simp

lemma granted_was_previewed:
  assumes "evaluatePromotion promo (eval_cart_of db rows s a) (Some cu) now = Inr d"
  shows "evaluatePromotion promo (eval_cart_of db rows s b) None now = Inr d"
proof -
  have "check_conditions (pd_conditions promo) (eval_cart_of db rows s a) (Some cu) = None"
    and effects: "apply_effects (pd_effects promo) (eval_cart_of db rows s a) 0 False = Inr (e, fs) \<Longrightarrow>
      d = \<lparr>ad_promotionId = pd_id promo, ad_code = pd_code promo, ad_discountPaise = min e s, ad_freeShipping = fs\<rparr>" for e fs
    using assms by (auto simp: evaluatePromotion_def eval_cart_of_def split: option.splits sum.splits if_splits)
  then have "check_conditions (pd_conditions promo) (eval_cart_of db rows s b) None = None"
    unfolding check_conditions_None using condition_for_nobody condition_without_shipping by metis
  moreover have "ec_subtotalPaise (eval_cart_of db rows s a) = ec_subtotalPaise (eval_cart_of db rows s b)" by (simp add: eval_cart_of_def)
  ultimately show ?thesis
    using assms effects_without_shipping[of "pd_effects promo" db rows s a 0 False b]
    by (auto simp: evaluatePromotion_def split: option.splits sum.splits if_splits)
qed

section \<open>The steps of a placement\<close>

lemma upsert_customer_frame:
  assumes "upsertCustomerByPhone phone name email db = Inr (c, db')"
  shows "db_productCategories db' = db_productCategories db" "db_promotions db' = db_promotions db" "db_now db' = db_now db"
  using assms by (auto simp: upsertCustomerByPhone_def tbind_run split: option.splits if_splits)

lemma eval_cart_frame: "db_productCategories db' = db_productCategories db \<Longrightarrow> eval_cart_of db' rows s a = eval_cart_of db rows s a"
  by (simp add: eval_cart_of_def categories_of_def)

lemma apply_coupon_Inr:
  assumes "apply_coupon promo customer rows s shipping db = Inr ((discount, lineDiscounts, shippingPaise), db')"
  shows "db' = db" "\<exists>d cu. evaluatePromotion promo (eval_cart_of db rows s shipping) (Some cu) (db_now db) = Inr d \<and>
    discount = ad_discountPaise d \<and> (ad_freeShipping d \<longrightarrow> shippingPaise = 0)"
  using assms
  by (auto simp: apply_coupon_def check_coupon_caps_def tbind_run applyDiscountToLines_def Let_def split: sum.splits if_splits prod.splits)

lemma price_order_Inr:
  assumes "price_order clean seller settings rows (discount, lineDiscounts, shipping) = Inr am"
  shows "oa_subtotal am = sum_list (map line_gross rows)" "oa_discount am = discount" "oa_shipping am = shipping"
  using assms by (auto simp: price_order_def Let_def rbind_eq_Inr)

lemma place_order_holds: "place_order cartId clean rows promotion cid am db = Inr (co, db') \<Longrightarrow> co_holdLines co = map row_hold rows"
  by (auto simp: place_order_def tbind_eq_Inr)

text \<open>What a placed order was computed from.\<close>

definition placed_from :: "uuid \<Rightarrow> clean_checkout \<Rightarrow> checkout_settings \<Rightarrow> tenant_row \<Rightarrow> db \<Rightarrow> promotion_data option \<Rightarrow> paise \<Rightarrow> paise list \<Rightarrow> paise \<Rightarrow>
    created_order \<Rightarrow> db \<Rightarrow> bool" where
  "placed_from cartId clean settings seller db promotion discount lineDiscounts shipping co db' \<longleftrightarrow>
     (\<exists>customer db1 shippingBase am.
        upsertCustomerByPhone (cc_phone clean) (Some (cc_buyerName clean)) (cc_email clean) db = Inr (customer, db1) \<and>
        (case promotion of None \<Rightarrow> discount = 0
         | Some promo \<Rightarrow> apply_coupon promo customer (live_rows db cartId) (sum_list (map line_gross (live_rows db cartId))) shippingBase db1 =
             Inr ((discount, lineDiscounts, shipping), db1)) \<and>
        price_order clean seller settings (live_rows db cartId) (discount, lineDiscounts, shipping) = Inr am \<and>
        place_order cartId clean (live_rows db cartId) promotion (fst customer) am db1 = Inr (co, db'))"

lemma tlift_eq_Inr: "tlift r s = Inr (x, s') \<longleftrightarrow> r = Inr x \<and> s' = s"
  by (auto split: sum.splits)

lemma createOrderTx_placed:
  assumes run: "createOrderTx cartId clean seller settings db = Inr (co, db')"
  shows "\<exists>promotion discount lineDiscounts shipping.
    (case cc_couponCode clean of None \<Rightarrow> promotion = None
     | Some code \<Rightarrow> promotion \<noteq> None \<and> promotion = find (\<lambda>p. pd_code p = to_upper (trim code) \<and> pd_status p = promo_active) (db_promotions db)) \<and>
    placed_from cartId clean settings seller db promotion discount lineDiscounts shipping co db'"
proof (cases "cc_couponCode clean")
  case None
  obtain customer db1 shippingBase am where
    "upsertCustomerByPhone (cc_phone clean) (Some (cc_buyerName clean)) (cc_email clean) db = Inr (customer, db1)"
    "price_order clean seller settings (live_rows db cartId) (0, map (\<lambda>_. 0) (live_rows db cartId), shippingBase) = Inr am"
    "place_order cartId clean (live_rows db cartId) None (fst customer) am db1 = Inr (co, db')"
    using run None by (auto simp: createOrderTx_def tbind_eq_Inr tlift_eq_Inr Let_def simp del: tlift_run split: option.splits if_splits)
  then have "placed_from cartId clean settings seller db None 0 (map (\<lambda>_. 0) (live_rows db cartId)) shippingBase co db'"
    unfolding placed_from_def by auto
  then show ?thesis using None by auto
next
  case (Some code)
  let ?p = "find (\<lambda>p. pd_code p = to_upper (trim code) \<and> pd_status p = promo_active) (db_promotions db)"
  obtain promo customer db1 db2 shippingBase discount lineDiscounts shipping am where promo: "?p = Some promo" and
    c: "upsertCustomerByPhone (cc_phone clean) (Some (cc_buyerName clean)) (cc_email clean) db = Inr (customer, db1)" and
    a: "apply_coupon promo customer (live_rows db cartId) (sum_list (map line_gross (live_rows db cartId))) shippingBase db1 =
      Inr ((discount, lineDiscounts, shipping), db2)" and
    p: "price_order clean seller settings (live_rows db cartId) (discount, lineDiscounts, shipping) = Inr am" and
    o: "place_order cartId clean (live_rows db cartId) (Some promo) (fst customer) am db2 = Inr (co, db')"
    using run Some
    by (auto simp: createOrderTx_def loadActivePromotionForUpdate_def tbind_eq_Inr tlift_eq_Inr Let_def simp del: tlift_run
        split: option.splits if_splits)
  have "placed_from cartId clean settings seller db (Some promo) discount lineDiscounts shipping co db'"
    unfolding placed_from_def using c a p o apply_coupon_Inr(1)[OF a] by auto
  then show ?thesis using Some promo by (intro exI[of _ "Some promo"]) auto
qed

text \<open>A code as checkout stores it is trimmed and in upper case.\<close>

lemma trimmed_trim: "trimmed (trim s)"
proof -
  let ?d = "dropWhile is_space s"
  have d: "?d = trim s @ rev (takeWhile is_space (rev ?d))"
    unfolding trim_def rev_append[symmetric] takeWhile_dropWhile_id by simp
  have "\<not> is_space (last (trim s))" if "trim s \<noteq> []"
    using that hd_dropWhile[of is_space "rev ?d"] by (simp add: trim_def last_rev)
  moreover have "\<not> is_space (hd (trim s))" if "trim s \<noteq> []"
    using that hd_dropWhile[of is_space s] d by (metis append_is_Nil_conv hd_append2)
  ultimately show ?thesis by (auto simp: trimmed_def)
qed

lemma trimmed_upper: "trimmed s \<Longrightarrow> trimmed (to_upper s)"
proof -
  have code: "is_space c \<longleftrightarrow> of_char c \<in> ({32, 9, 10, 11, 12, 13} :: nat set)" for c
    unfolding is_space_def by (simp flip: of_char_eq_iff[where 'a = nat])
  have up: "is_space (char_upper c) = is_space c" for c
    unfolding code by (auto simp: char_upper_def)
  assume "trimmed s"
  then show "trimmed (to_upper s)" by (cases "s = []") (simp_all add: trimmed_def to_upper_def hd_map last_map up)
qed

lemma code_fixed: "to_upper (trim (to_upper (trim s))) = to_upper (trim s)"
  by (simp add: trim_trimmed trimmed_upper trimmed_trim)

lemma normal_code:
  assumes "normalizePayload email_ok payload = Inr clean" "cc_couponCode clean = Some code"
  shows "to_upper (trim code) = code" "code \<noteq> []"
  using assms by (auto simp: normalizePayload_def coupon_key_def Let_def code_fixed split: if_splits option.splits)

definition view_hold :: "cart_view_line \<Rightarrow> hold_line" where
  "view_hold l = \<lparr>hl_variantId = vl_variantId l, hl_quantity = vl_quantity l\<rparr>"

text \<open>What an order that was placed owes to its cart.\<close>

definition as_quoted :: "cart_view \<Rightarrow> created_order \<Rightarrow> order_row \<Rightarrow> bool" where
  "as_quoted view co r \<longleftrightarrow>
     or_id r = co_orderId co \<and> co_holdLines co = map view_hold (vw_lines view) \<and>
     or_subtotalPaise r = vw_subtotalPaise view \<and>
     (case vw_couponPreview view of
        None \<Rightarrow> or_discountPaise r = 0
      | Some p \<Rightarrow> vp_applicable p \<and> or_discountPaise r = vp_discountPaise p \<and> (vp_freeShipping p \<longrightarrow> or_shippingPaise r = 0))"

lemma find_unique_code:
  assumes "distinct (map pd_code ps)" "find (\<lambda>p. pd_code p = code \<and> pd_status p = promo_active) ps = Some p"
  shows "find (\<lambda>p. pd_code p = code) ps = Some p \<and> pd_status p = promo_active"
  using assms
proof (induction ps)
  case (Cons q ps)
  show ?case
  proof (cases "pd_code q = code")
    case True
    have "p \<in> set (q # ps)" "pd_code p = code" "pd_status p = promo_active" using find_eq_Some[OF Cons.prems(2)] by auto
    then have "p = q" using Cons.prems(1) True by auto
    then show ?thesis using True \<open>pd_status p = promo_active\<close> by simp
  qed (use Cons in simp)
qed simp

lemma map_view_holds:
  "map (\<lambda>l. (vl_variantId l, vl_quantity l, vl_unitPricePaise l)) ls = map (\<lambda>r. (kr_variantId r, kr_quantity r, kr_pricePaise r)) rs \<Longrightarrow>
   map view_hold ls = map row_hold rs"
  by (induction ls rs rule: list_induct2') (simp_all add: view_hold_def row_hold_def)

lemma preview_of_granted:
  assumes codes: "distinct (map pd_code (db_promotions db))"
    and promo: "find (\<lambda>p. pd_code p = code \<and> pd_status p = promo_active) (db_promotions db) = Some promo"
    and grant: "evaluatePromotion promo (eval_cart_of db (live_rows db cartId) s shipping) (Some cu) (db_now db) = Inr d"
    and lines: "lines = map (view_line av) (cart_rows db cartId)"
  shows "previewCoupon db code lines s =
    \<lparr>vp_code = code, vp_applicable = True, vp_discountPaise = ad_discountPaise d, vp_freeShipping = ad_freeShipping d, vp_reason = None\<rparr>"
  using find_unique_code[OF codes promo] granted_was_previewed[OF grant, of 0]
  by (simp add: previewCoupon_def lines cart_evaluation live_rows_cart)

text \<open>
  C14.  The cart page quotes what checkout charges.  When an order is placed from a cart with the code
  the cart holds, its subtotal is the subtotal of the page and it holds the lines of the page; with a
  code, the page showed it as applicable, the discount is the one it showed and shipping is free when
  it said so; without one there is no discount.  The page thus never shows a coupon as refused that
  checkout would grant.
\<close>

theorem cart_quotes_checkout:
  assumes "distinct (map pd_code (db_promotions db))" "normalizePayload email_ok payload = Inr clean"
    and "getCartView (Some cartId) db = (Inr (Some view), db)" "cc_couponCode clean = vw_couponCode view"
    and "createOrderTx cartId clean seller settings db = Inr (co, db')"
  shows "list_ex (as_quoted view co) (db_orders db')"
proof -
  have view: "readCartView db cartId = Some view" using assms(3) by (simp add: getCartView_def commit_def)
  note v = view_as_checkout[OF view]
  obtain promotion discount lineDiscounts shipping where
    promotion: "case cc_couponCode clean of None \<Rightarrow> promotion = None
     | Some code \<Rightarrow> promotion \<noteq> None \<and> promotion = find (\<lambda>p. pd_code p = to_upper (trim code) \<and> pd_status p = promo_active) (db_promotions db)"
    and placed: "placed_from cartId clean settings seller db promotion discount lineDiscounts shipping co db'"
    using createOrderTx_placed[OF assms(5)] by blast
  obtain customer db1 shippingBase am where c: "upsertCustomerByPhone (cc_phone clean) (Some (cc_buyerName clean)) (cc_email clean) db = Inr (customer, db1)"
    and coupon: "case promotion of None \<Rightarrow> discount = 0
     | Some promo \<Rightarrow> apply_coupon promo customer (live_rows db cartId) (sum_list (map line_gross (live_rows db cartId))) shippingBase db1 =
         Inr ((discount, lineDiscounts, shipping), db1)"
    and price: "price_order clean seller settings (live_rows db cartId) (discount, lineDiscounts, shipping) = Inr am"
    and place: "place_order cartId clean (live_rows db cartId) promotion (fst customer) am db1 = Inr (co, db')"
    using placed unfolding placed_from_def by blast
  note frame = upsert_customer_frame[OF c] and amounts = price_order_Inr[OF price]
  let ?row = "new_order (co_orderId co) (co_orderNumber co) cartId (fst customer) clean promotion (live_rows db cartId) am (db_now db1)"
  have row: "?row \<in> set (db_orders db')" by (rule place_order_Inr[OF place]) simp
  have money: "or_subtotalPaise ?row = vw_subtotalPaise view" "or_discountPaise ?row = discount" "or_shippingPaise ?row = shipping" "or_id ?row = co_orderId co"
    by (simp_all add: new_order_def amounts v(1))
  have holds: "co_holdLines co = map view_hold (vw_lines view)"
    unfolding place_order_holds[OF place] by (rule map_view_holds[OF v(2), symmetric])
  have "case vw_couponPreview view of None \<Rightarrow> discount = 0
      | Some p \<Rightarrow> vp_applicable p \<and> discount = vp_discountPaise p \<and> (vp_freeShipping p \<longrightarrow> shipping = 0)"
  proof (cases "vw_couponCode view")
    case None
    then show ?thesis using promotion coupon assms(4) v(3) by simp
  next
    case (Some code)
    then have code: "to_upper (trim code) = code" "code \<noteq> []" using normal_code[OF assms(2)] assms(4) by simp_all
    obtain promo where p: "promotion = Some promo" "find (\<lambda>p. pd_code p = code \<and> pd_status p = promo_active) (db_promotions db) = Some promo"
      using promotion unfolding assms(4) Some option.case code(1) by (metis option.exhaust)
    have granted: "apply_coupon promo customer (live_rows db cartId) (sum_list (map line_gross (live_rows db cartId))) shippingBase db1 =
        Inr ((discount, lineDiscounts, shipping), db1)" using coupon p(1) by simp
    obtain d cu where d: "evaluatePromotion promo (eval_cart_of db (live_rows db cartId) (vw_subtotalPaise view) shippingBase) (Some cu) (db_now db) = Inr d"
      "discount = ad_discountPaise d" "ad_freeShipping d \<longrightarrow> shipping = 0"
      using apply_coupon_Inr(2)[OF granted] unfolding eval_cart_frame[OF frame(1)] v(1) frame(3) by blast
    obtain av where "vw_lines view = map (view_line av) (cart_rows db cartId)" using v(4) by blast
    then have "vw_couponPreview view = Some \<lparr>vp_code = code, vp_applicable = True, vp_discountPaise = ad_discountPaise d,
        vp_freeShipping = ad_freeShipping d, vp_reason = None\<rparr>"
      using v(3) Some code(2) preview_of_granted[OF assms(1) p(2) d(1)] by simp
    then show ?thesis using d(2,3) by simp
  qed
  then have "as_quoted view co ?row" unfolding as_quoted_def money holds by (auto split: option.splits)
  then show ?thesis using row by (auto simp: list_ex_iff)
qed

section \<open>A map from variants to quantities\<close>

definition quantity_of :: "db \<Rightarrow> uuid \<Rightarrow> uuid \<Rightarrow> int" where
  "quantity_of db c v = (case find (on_line c v) (db_cartLines db) of None \<Rightarrow> 0 | Some l \<Rightarrow> cl_quantity l)"

text \<open>Carts within their bounds: at most a hundred lines, of different variants, of one to a hundred each.\<close>

definition cart_ok_lines :: "cart_line_row list \<Rightarrow> bool" where
  "cart_ok_lines ls \<longleftrightarrow> length ls \<le> CART_MAX_LINES \<and> distinct (map cl_variantId ls) \<and>
     list_all (\<lambda>l. 1 \<le> cl_quantity l \<and> cl_quantity l \<le> CART_LINE_MAX_QUANTITY) ls"

definition carts_ok :: "db \<Rightarrow> bool" where
  "carts_ok db \<longleftrightarrow> (\<forall>c. cart_ok_lines (lines_of db c))"

lemma carts_okD: "carts_ok db \<Longrightarrow> cart_ok_lines (lines_of db c)"
  by (simp add: carts_ok_def)

lemma lines_of_same: "db_cartLines db' = db_cartLines db \<Longrightarrow> lines_of db' c = lines_of db c"
  by (simp add: lines_of_def)

lemma quantity_of_same: "db_cartLines db' = db_cartLines db \<Longrightarrow> quantity_of db' = quantity_of db"
  by (simp add: quantity_of_def fun_eq_iff)

lemma quantity_of_lines: "quantity_of db c v = (case find (\<lambda>l. cl_variantId l = v) (lines_of db c) of None \<Rightarrow> 0 | Some l \<Rightarrow> cl_quantity l)"
proof -
  have "find (on_line c v) ls = find (\<lambda>l. cl_variantId l = v) (filter (\<lambda>l. cl_cartId l = c) ls)" for ls
    by (induction ls) (simp_all add: on_line_def)
  then show ?thesis by (simp add: quantity_of_def lines_of_def)
qed

text \<open>A line is there exactly when its quantity is positive.\<close>

lemma line_present:
  assumes "carts_ok db"
  shows "list_ex (on_line c v) (db_cartLines db) \<longleftrightarrow> 0 < quantity_of db c v"
proof (cases "find (on_line c v) (db_cartLines db)")
  case None
  then have "\<not> list_ex (on_line c v) (db_cartLines db)" by (auto simp: find_None_iff list_ex_iff)
  then show ?thesis using None by (simp add: quantity_of_def)
next
  case (Some l)
  then have l: "l \<in> set (db_cartLines db)" "on_line c v l" using find_eq_Some[OF Some] by auto
  then have "l \<in> set (lines_of db c)" by (simp add: lines_of_def on_line_def)
  then have "1 \<le> cl_quantity l" using carts_okD[OF assms, of c] by (auto simp: cart_ok_lines_def list_all_iff)
  then show ?thesis using l Some by (auto simp: quantity_of_def list_ex_iff)
qed

text \<open>Deleting a line.\<close>

definition without_line :: "uuid \<Rightarrow> uuid \<Rightarrow> db \<Rightarrow> db" where
  "without_line c v db = db\<lparr>db_cartLines := filter (\<lambda>l. \<not> on_line c v l) (db_cartLines db)\<rparr>"

lemma lines_without: "lines_of (without_line c v db) c' = (if c' = c then filter (\<lambda>l. cl_variantId l \<noteq> v) (lines_of db c) else lines_of db c')"
  by (auto simp: without_line_def lines_of_def on_line_def intro: filter_cong)

lemma carts_without: "carts_ok db \<Longrightarrow> carts_ok (without_line c v db)"
proof -
  assume ok: "carts_ok db"
  have "cart_ok_lines (filter P ls)" if "cart_ok_lines ls" for P ls
    using that le_trans[OF length_filter_le] by (auto simp: cart_ok_lines_def list_all_iff distinct_map_filter)
  then show ?thesis using ok by (simp add: carts_ok_def lines_without)
qed

lemma quantity_without: "quantity_of (without_line c v db) = (quantity_of db)(c := (quantity_of db c)(v := 0))"
proof (intro ext)
  fix c' v'
  have drop: "find (\<lambda>l. cl_variantId l = w) (filter (\<lambda>l. cl_variantId l \<noteq> v) ls) =
      (if w = v then None else find (\<lambda>l. cl_variantId l = w) ls)" for w ls
    by (induction ls) auto
  show "quantity_of (without_line c v db) c' v' = ((quantity_of db)(c := (quantity_of db c)(v := 0))) c' v'"
    by (simp add: quantity_of_lines lines_without drop)
qed

text \<open>Writing a line: in its place when the cart has it, at the end otherwise.\<close>

definition with_line :: "uuid \<Rightarrow> uuid \<Rightarrow> uuid \<Rightarrow> int \<Rightarrow> db \<Rightarrow> db" where
  "with_line lid c v q db =
    (if list_ex (on_line c v) (db_cartLines db)
     then db\<lparr>db_cartLines := upd (on_line c v) (\<lambda>l. l\<lparr>cl_quantity := q\<rparr>) (db_cartLines db)\<rparr>
     else db\<lparr>db_cartLines := db_cartLines db @ [\<lparr>cl_id = lid, cl_cartId = c, cl_variantId = v, cl_quantity = q\<rparr>]\<rparr>)"

definition put_quantity :: "uuid \<Rightarrow> uuid \<Rightarrow> uuid \<Rightarrow> int \<Rightarrow> cart_line_row list \<Rightarrow> cart_line_row list" where
  "put_quantity lid c v q ls =
    (if list_ex (\<lambda>l. cl_variantId l = v) ls then upd (\<lambda>l. cl_variantId l = v) (\<lambda>l. l\<lparr>cl_quantity := q\<rparr>) ls
     else ls @ [\<lparr>cl_id = lid, cl_cartId = c, cl_variantId = v, cl_quantity = q\<rparr>])"

lemma list_ex_lines_of: "list_ex (on_line c v) (db_cartLines db) = list_ex (\<lambda>l. cl_variantId l = v) (lines_of db c)"
  by (auto simp: list_ex_iff lines_of_def on_line_def)

lemma lines_with: "lines_of (with_line lid c v q db) c' = (if c' = c then put_quantity lid c v q (lines_of db c) else lines_of db c')"
proof -
  have "filter (\<lambda>l. cl_cartId l = d) (upd (on_line c v) (\<lambda>l. l\<lparr>cl_quantity := q\<rparr>) ls) =
      (if d = c then upd (\<lambda>l. cl_variantId l = v) (\<lambda>l. l\<lparr>cl_quantity := q\<rparr>) (filter (\<lambda>l. cl_cartId l = d) ls)
       else filter (\<lambda>l. cl_cartId l = d) ls)" for d ls
    by (induction ls) (auto simp: upd_def on_line_def)
  then show ?thesis unfolding put_quantity_def list_ex_lines_of[symmetric] by (simp add: with_line_def lines_of_def)
qed

lemma find_put: "find (\<lambda>l. cl_variantId l = v') (put_quantity lid c v q ls) =
    (if v' = v then map_option (\<lambda>l. l\<lparr>cl_quantity := q\<rparr>)
       (Some (case find (\<lambda>l. cl_variantId l = v) ls of Some l \<Rightarrow> l | None \<Rightarrow> \<lparr>cl_id = lid, cl_cartId = c, cl_variantId = v, cl_quantity = q\<rparr>))
     else find (\<lambda>l. cl_variantId l = v') ls)"
proof -
  have change: "find (\<lambda>l. cl_variantId l = w) (upd (\<lambda>l. cl_variantId l = v) (\<lambda>l. l\<lparr>cl_quantity := q\<rparr>) ls) =
      (if w = v then map_option (\<lambda>l. l\<lparr>cl_quantity := q\<rparr>) (find (\<lambda>l. cl_variantId l = v) ls)
       else find (\<lambda>l. cl_variantId l = w) ls)" for w ls
    by (induction ls) (auto simp: upd_def)
  have add: "find P (ls @ [x]) = (case find P ls of None \<Rightarrow> if P x then Some x else None | Some y \<Rightarrow> Some y)" for P and x :: cart_line_row and ls
    by (induction ls) auto
  show ?thesis
  proof (cases "find (\<lambda>l. cl_variantId l = v) ls")
    case None
    then have "\<not> list_ex (\<lambda>l. cl_variantId l = v) ls" by (auto simp: find_None_iff list_ex_iff)
    then show ?thesis using None by (simp add: put_quantity_def add split: option.split)
  next
    case (Some l)
    then have "list_ex (\<lambda>l. cl_variantId l = v) ls" using find_eq_Some[OF Some] by (auto simp: list_ex_iff)
    then show ?thesis using Some by (simp add: put_quantity_def change)
  qed
qed

lemma quantity_with: "quantity_of (with_line lid c v q db) = (quantity_of db)(c := (quantity_of db c)(v := q))"
  by (intro ext) (simp add: quantity_of_lines lines_with find_put)

lemma carts_with:
  assumes ok: "carts_ok db" and q: "1 \<le> q" "q \<le> CART_LINE_MAX_QUANTITY"
    and room: "list_ex (on_line c v) (db_cartLines db) \<or> length (lines_of db c) < CART_MAX_LINES"
  shows "carts_ok (with_line lid c v q db)"
proof -
  have "cart_ok_lines (put_quantity lid c v q (lines_of db c))"
  proof (cases "list_ex (\<lambda>l. cl_variantId l = v) (lines_of db c)")
    case True
    have ids: "map cl_variantId (upd (\<lambda>l. cl_variantId l = v) (\<lambda>l. l\<lparr>cl_quantity := q\<rparr>) ls) = map cl_variantId ls" for ls
      by (induction ls) (simp_all add: upd_def)
    have qty: "list_all (\<lambda>l. 1 \<le> cl_quantity l \<and> cl_quantity l \<le> CART_LINE_MAX_QUANTITY) ls \<Longrightarrow>
        list_all (\<lambda>l. 1 \<le> cl_quantity l \<and> cl_quantity l \<le> CART_LINE_MAX_QUANTITY) (upd (\<lambda>l. cl_variantId l = v) (\<lambda>l. l\<lparr>cl_quantity := q\<rparr>) ls)" for ls
      using q by (induction ls) (simp_all add: upd_def)
    have len: "length (upd (\<lambda>l. cl_variantId l = v) (\<lambda>l. l\<lparr>cl_quantity := q\<rparr>) ls) = length ls" for ls
      by (simp add: upd_def)
    show ?thesis using True carts_okD[OF ok, of c] by (simp add: put_quantity_def cart_ok_lines_def ids qty len)
  next
    case False
    then show ?thesis using carts_okD[OF ok, of c] q room unfolding list_ex_lines_of
      by (auto simp: put_quantity_def cart_ok_lines_def list_ex_iff)
  qed
  then show ?thesis using ok by (simp add: carts_ok_def lines_with)
qed

section \<open>What the handlers do to the map\<close>

definition cart_is_active :: "db \<Rightarrow> uuid \<Rightarrow> bool" where
  "cart_is_active db c \<longleftrightarrow> (case find_cart db c of None \<Rightarrow> False | Some cart \<Rightarrow> ca_status cart = cart_active)"

definition offered :: "db \<Rightarrow> uuid \<Rightarrow> int \<Rightarrow> bool" where
  "offered db v q \<longleftrightarrow> (case visible_variant db v of None \<Rightarrow> False | Some row \<Rightarrow> pv_tracksInventory row \<longrightarrow> q \<le> available_of db v)"

lemma loadActiveCart_run:
  "loadActiveCart (Some c) db = (if cart_is_active db c then Inr (c, db) else Inl (if find_cart db c = None then cartNotFound else cartNotActive))"
proof (cases "find_cart db c")
  case (Some cart)
  then have "ca_id cart = c" using find_eq_Some unfolding find_cart_def by fastforce
  then show ?thesis using Some by (simp add: loadActiveCart_def tbind_run cart_is_active_def)
qed (simp add: loadActiveCart_def tbind_run cart_is_active_def)

lemma loadActiveCart_None [simp]: "loadActiveCart None db = Inl cartNotFound"
  by (simp add: loadActiveCart_def)

lemma delete_line_run [simp]: "delete_line c v db = Inr ((), without_line c v db)"
  by (simp add: delete_line_def without_line_def)

definition drawn :: "db \<Rightarrow> db" where "drawn db = db\<lparr>db_drawn := Suc (db_drawn db)\<rparr>"

lemma drawn_sel [simp]: "db_cartLines (drawn db) = db_cartLines db" "db_carts (drawn db) = db_carts db"
  by (simp_all add: drawn_def)

lemma put_line_run:
  assumes "1 \<le> q" "q \<le> CART_LINE_MAX_QUANTITY" "db_uuidv7 db (db_drawn db) \<notin> cl_id ` set (db_cartLines db)"
  shows "put_line c v q db = Inr ((), with_line (db_uuidv7 db (db_drawn db)) c v q (drawn db))"
proof -
  have "\<not> list_ex (\<lambda>l. cl_id l = db_uuidv7 db (db_drawn db)) (db_cartLines db)" using assms(3) by (force simp: list_ex_iff)
  then show ?thesis using assms(1,2) by (simp add: put_line_def tbind_run with_line_def drawn_def CART_LINE_MAX_QUANTITY_def)
qed

definition touched :: "uuid \<Rightarrow> db \<Rightarrow> db" where
  "touched c db = db\<lparr>db_carts := upd (\<lambda>r. ca_id r = c) (\<lambda>r. r\<lparr>ca_updatedAt := db_now db\<rparr>) (db_carts db)\<rparr>"

lemma touchCart_run [simp]: "touchCart c db = Inr ((), touched c db)"
  by (simp add: touchCart_def touched_def)

lemma touched_lines [simp]: "db_cartLines (touched c db) = db_cartLines db"
  by (simp add: touched_def)

lemma visible_id: "visible_variant db v = Some row \<Longrightarrow> pv_id row = v"
  unfolding visible_variant_def sellable_variant_def using find_eq_Some by (fastforce split: bind_splits)

lemma upsertLineTx_run:
  assumes ok: "carts_ok db" and id: "db_uuidv7 db (db_drawn db) \<notin> cl_id ` set (db_cartLines db)" and q: "0 \<le> q" "q \<le> CART_LINE_MAX_QUANTITY"
  shows "upsertLineTx (Some c) v q db =
    (if \<not> cart_is_active db c then Inl (if find_cart db c = None then cartNotFound else cartNotActive)
     else if q = 0 then Inr (readCartView (touched c (without_line c v db)) c, touched c (without_line c v db))
     else if visible_variant db v = None then Inl notFound
     else if \<not> offered db v q then Inl insufficientStock
     else if \<not> (0 < quantity_of db c v \<or> length (lines_of db c) < CART_MAX_LINES) then Inl (invalidPayload [''variantId''])
     else let db' = touched c (with_line (db_uuidv7 db (db_drawn db)) c v q (drawn db)) in Inr (readCartView db' c, db'))"
proof (cases "cart_is_active db c")
  case True
  show ?thesis
  proof (cases "q = 0 \<or> visible_variant db v = None")
    case False
    then obtain row where row: "visible_variant db v = Some row" and "1 \<le> q" using q(1) by auto
    then show ?thesis
      using True False visible_id[OF row] put_line_run[OF \<open>1 \<le> q\<close> q(2) id, of c v]
      by (auto simp: upsertLineTx_def loadActiveCart_run tbind_run offered_def line_present[OF ok] Let_def)
  qed (use True in \<open>auto simp: upsertLineTx_def loadActiveCart_run tbind_run\<close>)
qed (simp add: upsertLineTx_def loadActiveCart_run tbind_run)

lemma upsertLine_valid:
  "upsertLine cartId (Some v) (Some q) =
    (if 0 \<le> q \<and> q \<le> CART_LINE_MAX_QUANTITY then commit (upsertLineTx cartId v q) else athrow (invalidPayload [''quantity'']))"
  by (auto simp: upsertLine_def is_safe_integer_def max_safe_integer_def CART_LINE_MAX_QUANTITY_def)

lemma view_exists: "cart_is_active db c \<Longrightarrow> db_carts db' = upd P (\<lambda>r. r\<lparr>ca_updatedAt := t\<rparr>) (db_carts db) \<Longrightarrow> readCartView db' c \<noteq> None"
proof -
  assume a: "cart_is_active db c" "db_carts db' = upd P (\<lambda>r. r\<lparr>ca_updatedAt := t\<rparr>) (db_carts db)"
  then obtain r where "r \<in> set (db_carts db)" "ca_id r = c"
    unfolding cart_is_active_def find_cart_def by (auto split: option.splits dest: find_eq_Some)
  then have "\<exists>r \<in> set (db_carts db'). ca_id r = c" unfolding a(2) upd_def by (intro bexI[of _ "if P r then r\<lparr>ca_updatedAt := t\<rparr> else r"]) auto
  then show ?thesis by (auto simp: readCartView_def find_cart_def Let_def find_None_iff split: option.split)
qed

text \<open>
  C16.  A cart is a map from variants to quantities.  Setting a quantity from 0 to 100 changes that one
  entry of that one cart to it and answers with the new cart; it does so exactly when the cart is
  active and, unless the quantity is 0, the variant is on sale in that quantity and the cart has the
  variant already or fewer than a hundred lines.  In every other case it fails and nothing changes.
\<close>

theorem upsertLine_updates_map:
  assumes "carts_ok db" "db_uuidv7 db (db_drawn db) \<notin> cl_id ` set (db_cartLines db)"
  shows "case upsertLine (Some c) (Some v) (Some q) db of (r, db') \<Rightarrow>
    if 0 \<le> q \<and> q \<le> 100 \<and> cart_is_active db c \<and>
       (q = 0 \<or> offered db v q \<and> (0 < quantity_of db c v \<or> length (lines_of db c) < 100))
    then r = Inr (readCartView db' c) \<and> readCartView db' c \<noteq> None \<and> quantity_of db' = (quantity_of db)(c := (quantity_of db c)(v := q))
    else isl r \<and> db' = db"
proof (cases "0 \<le> q \<and> q \<le> CART_LINE_MAX_QUANTITY")
  case False
  then show ?thesis by (auto simp: upsertLine_valid athrow_def CART_LINE_MAX_QUANTITY_def)
next
  case True
  note run = upsertLineTx_run[OF assms conjunct1[OF True] conjunct2[OF True], of c v]
  have q: "0 \<le> q" "q \<le> 100" using True by (simp_all add: CART_LINE_MAX_QUANTITY_def)
  have same: "quantity_of (touched c db') = quantity_of db'" "quantity_of (drawn db) = quantity_of db" for db'
    by (rule quantity_of_same, simp)+
  have deleted: "readCartView (touched c (without_line c v db)) c \<noteq> None" if "cart_is_active db c"
    by (rule view_exists[OF that]) (simp add: touched_def without_line_def)
  have written: "readCartView (touched c (with_line lid c v q (drawn db))) c \<noteq> None" if "cart_is_active db c" for lid
    by (rule view_exists[OF that]) (simp add: touched_def with_line_def drawn_def)
  have hidden: "visible_variant db v = None \<Longrightarrow> \<not> offered db v q" by (simp add: offered_def)
  let ?cond = "cart_is_active db c \<and> (q = 0 \<or> offered db v q \<and> (0 < quantity_of db c v \<or> length (lines_of db c) < CART_MAX_LINES))"
  have cond: "0 \<le> q \<and> q \<le> 100 \<and> cart_is_active db c \<and> (q = 0 \<or> offered db v q \<and> (0 < quantity_of db c v \<or> length (lines_of db c) < 100)) \<longleftrightarrow> ?cond"
    using q by (simp add: CART_MAX_LINES_def)
  have call: "upsertLine (Some c) (Some v) (Some q) db = commit (upsertLineTx (Some c) v q) db" using True by (simp add: upsertLine_valid)
  show ?thesis
  proof (cases ?cond)
    case refused: False
    then have "isl (upsertLineTx (Some c) v q db)" unfolding run by simp
    then obtain e where e: "upsertLineTx (Some c) v q db = Inl e" by (auto simp: isl_def)
    then show ?thesis unfolding call cond commit_Inl[of "upsertLineTx (Some c) v q" db, OF e] if_not_P[OF refused] by simp
  next
    case accepted: True
    obtain db1 where db1: "upsertLineTx (Some c) v q db = Inr (readCartView (touched c db1) c, touched c db1)"
      "quantity_of db1 = (quantity_of db)(c := (quantity_of db c)(v := q))" "readCartView (touched c db1) c \<noteq> None"
    proof (cases "q = 0")
      case zero: True
      show thesis using accepted zero deleted by (intro that[of "without_line c v db"]) (simp_all add: run[unfolded zero] zero quantity_without)
    next
      case False
      let ?db1 = "with_line (db_uuidv7 db (db_drawn db)) c v q (drawn db)"
      have "visible_variant db v \<noteq> None" using accepted False hidden by blast
      then show thesis using accepted False written by (intro that[of ?db1]) (simp_all add: run quantity_with same Let_def)
    qed
    show ?thesis unfolding call cond commit_Inr[of "upsertLineTx (Some c) v q" db, OF db1(1)] if_P[OF accepted] using db1(2,3) by (simp add: same)
  qed
qed

section \<open>Carts and shop, interleaved\<close>

datatype cart_op =
    CaOpen raw_id
  | CaPut raw_id raw_id "int option"
  | CaRemove raw_id raw_id
  | CaCoupon raw_id string
  | CaClear raw_id
  | CaShop commerce_op

fun exec_cart :: "cart_op \<Rightarrow> db \<Rightarrow> db" where
  "exec_cart (CaOpen cart) db = snd (getOrCreateCart cart db)"
| "exec_cart (CaPut cart variant q) db = snd (upsertLine cart variant q db)"
| "exec_cart (CaRemove cart variant) db = snd (removeLine cart variant db)"
| "exec_cart (CaCoupon cart code) db = snd (setCartCoupon cart code db)"
| "exec_cart (CaClear cart) db = snd (clearCartCoupon cart db)"
| "exec_cart (CaShop op) db = exec_commerce op db"

text \<open>The shop's own operations never write a cart line.\<close>

interpretation off_carts: book_parts "\<lambda>db. db_cartLines db = ls" for ls
  by unfold_locales (simp add: books_def | rule keeps_off, rule off_tables, simp add: hide_defs)+

lemma shop_keeps_lines: "db_cartLines (exec_commerce op db) = db_cartLines db"
  by (rule off_carts.whole.shop.exec_inv) (rule refl)

lemma carts_ok_same: "db_cartLines db' = db_cartLines db \<Longrightarrow> carts_ok db' = carts_ok db"
  by (simp add: carts_ok_def lines_of_def)

text \<open>A mutation either fails or acts on a cart that is active.\<close>

lemma loadActiveCart_Inr: "loadActiveCart cart db = Inr (c, db') \<longleftrightarrow> db' = db \<and> cart = Some c \<and> cart_is_active db c"
  by (cases cart) (auto simp: loadActiveCart_run split: if_splits)

lemma put_line_Inr:
  assumes "put_line c v q db = Inr (x, db')"
  shows "1 \<le> q" "q \<le> CART_LINE_MAX_QUANTITY" "\<exists>lid. db' = with_line lid c v q (drawn db)"
  using assms by (auto simp: put_line_def tbind_run with_line_def drawn_def CART_LINE_MAX_QUANTITY_def split: if_splits)

text \<open>What a cart handler leaves of the lines: all of them, or one line written or deleted in an active cart.\<close>

inductive line_step :: "db \<Rightarrow> db \<Rightarrow> bool" where
  same: "db_cartLines db' = db_cartLines db \<Longrightarrow> line_step db db'"
| deleted: "cart_is_active db c \<Longrightarrow> db_cartLines db' = db_cartLines (without_line c v db) \<Longrightarrow> line_step db db'"
| written: "cart_is_active db c \<Longrightarrow> 1 \<le> q \<Longrightarrow> q \<le> CART_LINE_MAX_QUANTITY \<Longrightarrow>
    list_ex (on_line c v) (db_cartLines db) \<or> length (lines_of db c) < CART_MAX_LINES \<Longrightarrow>
    db_cartLines db' = db_cartLines (with_line lid c v q db) \<Longrightarrow> line_step db db'"

lemma upsertLineTx_step: "upsertLineTx cart v q db = Inr (x, db') \<Longrightarrow> line_step db db'"
proof -
  assume run: "upsertLineTx cart v q db = Inr (x, db')"
  have d: "db_cartLines (with_line lid c v q (drawn db)) = db_cartLines (with_line lid c v q db)" for lid c
    by (simp add: with_line_def)
  show ?thesis
  proof (cases "q = 0")
    case True
    then obtain c where "cart_is_active db c" "db_cartLines db' = db_cartLines (without_line c v db)"
      using run by (auto simp: upsertLineTx_def tbind_eq_Inr loadActiveCart_Inr)
    then show ?thesis by (rule line_step.deleted)
  next
    case False
    then obtain c db1 where c: "cart_is_active db c" "list_ex (on_line c v) (db_cartLines db) \<or> length (lines_of db c) < CART_MAX_LINES"
      "put_line c v q db = Inr ((), db1)" "db_cartLines db' = db_cartLines db1"
      using run by (auto simp: upsertLineTx_def tbind_eq_Inr loadActiveCart_Inr split: option.splits if_splits)
    obtain lid where "db1 = with_line lid c v q (drawn db)" using put_line_Inr(3)[OF c(3)] by blast
    then show ?thesis using line_step.written[OF c(1) put_line_Inr(1,2)[OF c(3)] c(2), of db' lid] c(4) d by simp
  qed
qed

lemma commit_step: "(\<And>x db'. m db = Inr (x, db') \<Longrightarrow> line_step db db') \<Longrightarrow> line_step db (snd (commit m db))"
  by (cases "m db") (auto simp: commit_def intro: line_step.same)

lemma coupon_step:
  "line_step db (snd (commit (tbind (loadActiveCart cart) (\<lambda>c. tbind (set_coupon c code) (\<lambda>_. tread (\<lambda>db. readCartView db c)))) db))"
  by (rule commit_step, rule line_step.same) (auto simp: set_coupon_def tbind_eq_Inr loadActiveCart_Inr)

lemma exec_cart_step: "line_step db (exec_cart op db)"
proof (cases op)
  case (CaOpen cart)
  then show ?thesis unfolding CaOpen exec_cart.simps getOrCreateCart_def
    by (intro commit_step line_step.same) (auto simp: tbind_eq_Inr split: option.splits if_splits)
next
  case (CaPut cart variant q)
  then show ?thesis
    by (auto simp: upsertLine_def athrow_def intro: line_step.same intro!: commit_step[OF upsertLineTx_step] split: option.split)
next
  case (CaRemove cart variant)
  show ?thesis
  proof (cases variant)
    case (Some v)
    show ?thesis unfolding CaRemove Some exec_cart.simps removeLine_def option.case
      by (rule commit_step) (auto simp: tbind_eq_Inr loadActiveCart_Inr intro: line_step.deleted)
  qed (simp add: CaRemove removeLine_def athrow_def line_step.same)
next
  case (CaCoupon cart code)
  then show ?thesis
    by (simp add: setCartCoupon_def Let_def athrow_def coupon_step line_step.same)
next
  case (CaClear cart)
  then show ?thesis
    by (simp add: clearCartCoupon_def coupon_step)
next
  case (CaShop op)
  then show ?thesis by (auto intro: line_step.same simp: shop_keeps_lines)
qed

lemma line_step_ok: "line_step db db' \<Longrightarrow> carts_ok db \<Longrightarrow> carts_ok db'"
proof (induction rule: line_step.induct)
  case (same db' db)
  then show ?case using carts_ok_same by blast
next
  case (deleted db c db' v)
  then show ?case using carts_ok_same[of db' "without_line c v db"] carts_without by blast
next
  case (written db c q v db' lid)
  then show ?case using carts_ok_same[of db' "with_line lid c v q db"] carts_with by blast
qed

interpretation carts: invariant_system exec_cart carts_ok
  by unfold_locales (rule line_step_ok[OF exec_cart_step])

lemma validate_each_iff:
  "validate_each seen ls \<longleftrightarrow> list_all (\<lambda>l. 0 < hl_quantity l \<and> hl_quantity l \<le> STOCK_ADJUSTMENT_MAX) ls \<and>
     distinct (map hl_variantId ls) \<and> set (map hl_variantId ls) \<inter> set seen = {}"
  by (induction ls arbitrary: seen) auto

lemma live_rows_hold:
  assumes "cart_ok_lines (lines_of db c)" "live_rows db c \<noteq> []"
  shows "validateLines (map row_hold (live_rows db c)) = Inr ()"
proof -
  let ?live = "filter (\<lambda>l. join_line db l \<noteq> None) (lines_of db c)"
  have joined: "kr_variantId r = cl_variantId l" "kr_quantity r = cl_quantity l" if "join_line db l = Some r" for l r
    using that by (auto simp: join_line_def split: option.splits)
  have rows: "map row_hold (List.map_filter (join_line db) ls) =
      map (\<lambda>l. \<lparr>hl_variantId = cl_variantId l, hl_quantity = cl_quantity l\<rparr>) (filter (\<lambda>l. join_line db l \<noteq> None) ls)" for ls
    by (induction ls) (auto simp: List.map_filter_simps row_hold_def joined split: option.split)
  have "distinct (map cl_variantId ?live)" "length ?live \<le> 100"
    "list_all (\<lambda>l. 1 \<le> cl_quantity l \<and> cl_quantity l \<le> CART_LINE_MAX_QUANTITY) ?live"
    using assms(1) order.trans[OF length_filter_le, of "lines_of db c" 100]
    by (auto simp: cart_ok_lines_def CART_MAX_LINES_def distinct_map_filter list_all_iff)
  moreover have "?live \<noteq> []"
    using assms(2) rows[of "lines_of db c"] unfolding live_rows_def lines_of_def[symmetric] by fastforce
  ultimately show ?thesis
    unfolding live_rows_def lines_of_def[symmetric]
    by (auto simp: validateLines_def ensure_def rows validate_each_iff comp_def list_all_iff CART_LINE_MAX_QUANTITY_def
        STOCK_ADJUSTMENT_MAX_def)
qed

text \<open>
  C15.  Whatever buyers and the shop do, in any order, every cart stays within its bounds: at most a
  hundred lines, never two of one variant, each of one to a hundred units.  So what a checkout reads
  off a cart is always a valid stock hold.
\<close>

theorem carts_stay_in_bounds:
  assumes "carts_ok db" "db' = run_ops exec_cart ops db"
  shows "cart_ok_lines (lines_of db' c) \<and> (live_rows db' c = [] \<or> validateLines (map row_hold (live_rows db' c)) = Inr ())"
  using carts_okD[OF carts.run_inv[OF assms(1)], of ops c] live_rows_hold unfolding assms(2) by blast

section \<open>A cart to apply them to\<close>

text \<open>Two mugs in a cart with a ten percent code, ten on the shelf.\<close>

definition mug_promotion :: promotion_data where
  "mug_promotion = \<lparr>pd_id = 30, pd_code = ''TEN'', pd_name = ''Ten'', pd_status = promo_active, pd_startsAt = None, pd_endsAt = None,
     pd_conditions = [cart_subtotal_min 1000], pd_effects = [percent_off 1000 None], pd_usageLimitTotal = None,
     pd_usageLimitPerCustomer = None\<rparr>"

definition mug_cart :: "string option \<Rightarrow> cart_row" where
  "mug_cart code = \<lparr>ca_id = 3, ca_status = cart_active, ca_buyerName = None, ca_buyerPhoneE164 = None, ca_buyerEmail = None,
     ca_shippingAddress = None, ca_couponCode = code, ca_updatedAt = 0\<rparr>"

definition mug_shop :: "string option \<Rightarrow> db" where
  "mug_shop code = (empty_db 1000 (\<lambda>n. 100 + n))
     \<lparr>db_tenant := Some sample_tenant,
      db_products := [\<lparr>pr_id = 12, pr_title = ''Mug'', pr_status = product_active, pr_hsnCode = None, pr_taxRateBps = Some 1800, pr_deletedAt = None\<rparr>],
      db_variants := [\<lparr>pv_id = 11, pv_productId = 12, pv_sku = ''MUG'', pv_options = [], pv_pricePaise = 11800, pv_tracksInventory = True,
        pv_isActive = True, pv_deletedAt = None\<rparr>],
      db_locations := [\<lparr>loc_id = 8, loc_isDefault = True\<rparr>],
      db_levels := [\<lparr>sl_variantId = 11, sl_locationId = 8, sl_onHand = 10\<rparr>],
      db_carts := [mug_cart code],
      db_cartLines := [\<lparr>cl_id = 4, cl_cartId = 3, cl_variantId = 11, cl_quantity = 2\<rparr>],
      db_promotions := [mug_promotion]\<rparr>"

definition mug_payload :: checkout_payload where
  "mug_payload = \<lparr>cp_idempotencyKey = ''key-0001'', cp_buyerName = ''Asha'', cp_phone = ''+919800000000'', cp_email = None,
     cp_line1 = ''1 Road'', cp_line2 = None, cp_city = ''Bengaluru'', cp_stateCode = ''29'', cp_pincode = ''560001'',
     cp_buyerGstin = None, cp_couponCode = Some '' ten'', cp_paymentMode = cod\<rparr>"

definition mug_clean :: clean_checkout where
  "mug_clean = (case normalizePayload (\<lambda>e. True) mug_payload of Inr c \<Rightarrow> c)"

definition mug_settings :: checkout_settings where
  "mug_settings = parse_checkout_settings []"

lemma mug_carts_ok: "carts_ok (mug_shop code)"
  by (auto simp: carts_ok_def lines_of_def mug_shop_def cart_ok_lines_def CART_MAX_LINES_def CART_LINE_MAX_QUANTITY_def)

theorem carts_stay_in_bounds_witness:
  "cart_ok_lines (lines_of (run_ops exec_cart [CaPut (Some 3) (Some 11) (Some 5), CaRemove (Some 3) (Some 11)] (mug_shop None)) 3)"
  using carts_stay_in_bounds[OF mug_carts_ok refl] by blast

theorem upsertLine_updates_map_witness:
  "quantity_of (snd (upsertLine (Some 3) (Some 11) (Some 5) (mug_shop None))) 3 11 = 5"
proof -
  have id: "db_uuidv7 (mug_shop None) (db_drawn (mug_shop None)) \<notin> cl_id ` set (db_cartLines (mug_shop None))"
    by (simp add: mug_shop_def empty_db_def)
  have a: "cart_is_active (mug_shop None) 3" by code_simp
  have o: "offered (mug_shop None) 11 5" by code_simp
  have q: "0 < quantity_of (mug_shop None) 3 11" by code_simp
  show ?thesis using upsertLine_updates_map[OF mug_carts_ok id, where c = 3 and v = 11 and q = 5] a o q by (simp split: prod.splits)
qed

theorem cart_quotes_checkout_witness:
  "case createOrderTx 3 mug_clean sample_tenant mug_settings (mug_shop (Some ''TEN'')) of
     Inl e \<Rightarrow> False
   | Inr (co, db') \<Rightarrow> list_ex (\<lambda>r. or_subtotalPaise r = 23600 \<and> or_discountPaise r = 2360) (db_orders db')"
proof -
  let ?db = "mug_shop (Some ''TEN'')"
  have codes: "distinct (map pd_code (db_promotions ?db))" by (simp add: mug_shop_def)
  have "case normalizePayload (\<lambda>e. True) mug_payload of Inl e \<Rightarrow> False | Inr c \<Rightarrow> cc_couponCode c = Some ''TEN''" by code_simp
  then have clean: "normalizePayload (\<lambda>e. True) mug_payload = Inr mug_clean" "cc_couponCode mug_clean = Some ''TEN''"
    by (auto simp: mug_clean_def split: sum.splits)
  have "case readCartView ?db 3 of None \<Rightarrow> False
    | Some w \<Rightarrow> vw_couponCode w = Some ''TEN'' \<and> vw_subtotalPaise w = 23600 \<and> map_option vp_discountPaise (vw_couponPreview w) = Some 2360"
    by code_simp
  then obtain w where w: "readCartView ?db 3 = Some w" "vw_couponCode w = Some ''TEN''" "vw_subtotalPaise w = 23600"
    "map_option vp_discountPaise (vw_couponPreview w) = Some 2360" by (auto split: option.splits)
  have view: "getCartView (Some 3) ?db = (Inr (Some w), ?db)" by (simp add: getCartView_def commit_def w(1))
  let ?db1 = "?db\<lparr>db_drawn := 1, db_customers := [\<lparr>cu_id = 100, cu_phoneE164 = ''+919800000000'', cu_email = None, cu_name = Some ''Asha'',
    cu_firstOrderAt = None, cu_deletedAt = None\<rparr>]\<rparr>"
  let ?row = "\<lparr>kr_variantId = 11, kr_quantity = 2, kr_productId = 12, kr_sku = ''MUG'', kr_options = [], kr_pricePaise = 11800,
    kr_title = ''Mug'', kr_hsnCode = None, kr_taxRateBps = Some 1800\<rparr>"
  have rows: "live_rows ?db 3 = [?row]" by code_simp
  have buyer: "cc_phone mug_clean = ''+919800000000''" "cc_buyerName mug_clean = ''Asha''" "cc_email mug_clean = None" by code_simp+
  have phone: "phone_e164 ''+919800000000''" and blank: "trim ''Asha'' = ''Asha''" by code_simp+
  have customer: "upsertCustomerByPhone (cc_phone mug_clean) (Some (cc_buyerName mug_clean)) (cc_email mug_clean) ?db = Inr ((100, None), ?db1)"
    unfolding buyer by (simp add: upsertCustomerByPhone_def tbind_run phone find_customer_def mug_shop_def empty_db_def trim_or_null_def blank)
  have "case apply_coupon mug_promotion (100, None) [?row] 23600 0 ?db1 of Inl e \<Rightarrow> False | Inr (x, db') \<Rightarrow> x = (2360, [2360], 0)"
    by code_simp
  then have coupon: "apply_coupon mug_promotion (100, None) [?row] 23600 0 ?db1 = Inr ((2360, [2360], 0), ?db1)"
    using apply_coupon_Inr(1)[of mug_promotion "(100, None)" "[?row]" 23600 0 ?db1] by (fastforce split: sum.splits prod.splits)
  have "case price_order mug_clean sample_tenant mug_settings [?row] (2360, [2360], 0) of Inl e \<Rightarrow> False
    | Inr am \<Rightarrow> oa_total am = 21240 \<and> 0 \<le> oa_codDue am \<and> length (oa_taxes am) = 1 \<and> oa_lineDiscounts am = [2360]" by code_simp
  then obtain am where price: "price_order mug_clean sample_tenant mug_settings [?row] (2360, [2360], 0) = Inr am"
    and am: "oa_total am = 21240" "0 \<le> oa_codDue am" "length (oa_taxes am) = 1" "oa_lineDiscounts am = [2360]" by (auto split: sum.splits)
  obtain t where t: "oa_taxes am = [t]" using am(3) by (auto simp: length_Suc_conv)
  have "\<exists>x. place_order 3 mug_clean [?row] (Some mug_promotion) 100 am ?db1 = Inr x"
    using am(1,2,4) t price_order_Inr[OF price]
    by (simp add: place_order_def nextOrderNumber_run tbind_run insert_order_def insert_order_lines_def insert_event_run set_cart_status_def
        new_order_def mug_shop_def empty_db_def snapshot_lines_def item_order_line_def line_gross_def)
  then obtain co db' where place: "place_order 3 mug_clean [?row] (Some mug_promotion) 100 am ?db1 = Inr (co, db')" by auto
  have cart: "find (\<lambda>c. ca_id c = 3) (db_carts ?db) = Some (mug_cart (Some ''TEN''))" "ca_status (mug_cart (Some ''TEN'')) = cart_active"
    by (simp_all add: mug_shop_def mug_cart_def)
  have promo: "loadActivePromotionForUpdate ''TEN'' ?db = Inr (Some mug_promotion, ?db)"
    using normal_code(1)[OF clean] by (simp add: loadActivePromotionForUpdate_def mug_shop_def mug_promotion_def)
  have fee: "computeShippingFeePaise 23600 (cs_flatFeePaise mug_settings) (cs_freeAbovePaise mug_settings) = Inr 0" by code_simp
  have order: "createOrderTx 3 mug_clean sample_tenant mug_settings ?db = Inr (co, db')"
    using customer coupon price place cart promo fee by (simp add: createOrderTx_def tbind_run clean(2) rows line_gross_def)
  have "list_ex (as_quoted w co) (db_orders db')"
    by (rule cart_quotes_checkout[OF codes clean(1) view _ order]) (simp add: clean w)
  then show ?thesis using w(3,4) by (auto simp: order list_ex_iff as_quoted_def)
qed

end
