(* ===== verification/Permissions.thy ===== *)
theory Permissions
  imports Errors Enums
begin

text \<open>
  Permissions, \<open>packages/core/src/identity/permissions.ts\<close>.  A permission is its text, as in the code;
  a set that the code builds by \<open>add\<close> and \<open>delete\<close> is the list of its elements in insertion order.
  The overrides of a member are the entries of a JSON object: distinct keys, each with the truth of
  its value.
\<close>

definition PERMISSIONS :: "string list" where
  "PERMISSIONS =
    [''catalog:read'', ''catalog:write'', ''inventory:read'', ''inventory:write'', ''orders:read'', ''orders:write'', ''orders:cancel'',
     ''orders:refund'', ''pos:operate'', ''customers:read'', ''customers:write'', ''marketing:read'', ''marketing:write'',
     ''promotions:read'', ''promotions:write'', ''analytics:read'', ''settings:read'', ''settings:write'', ''staff:read'',
     ''staff:write'', ''payments:configure'', ''payments:write'', ''domains:manage'', ''billing:manage'']"

fun ROLE_PERMISSIONS :: "role \<Rightarrow> string list" where
  "ROLE_PERMISSIONS owner = PERMISSIONS"
| "ROLE_PERMISSIONS manager =
     filter (\<lambda>p. p \<noteq> ''billing:manage'' \<and> p \<noteq> ''payments:configure'' \<and> p \<noteq> ''payments:write'') PERMISSIONS"
| "ROLE_PERMISSIONS catalog_manager =
     [''catalog:read'', ''catalog:write'', ''inventory:read'', ''inventory:write'', ''analytics:read'', ''settings:read'']"
| "ROLE_PERMISSIONS order_processor =
     [''orders:read'', ''orders:write'', ''orders:cancel'', ''catalog:read'', ''inventory:read'', ''customers:read'', ''settings:read'']"
| "ROLE_PERMISSIONS cashier =
     [''pos:operate'', ''orders:read'', ''orders:write'', ''catalog:read'', ''inventory:read'', ''customers:read'', ''customers:write'']"

type_synonym permission_overrides = "(string \<times> bool) list"

definition set_add :: "'a \<Rightarrow> 'a list \<Rightarrow> 'a list" where
  "set_add x xs = (if x \<in> set xs then xs else xs @ [x])"

definition set_delete :: "'a \<Rightarrow> 'a list \<Rightarrow> 'a list" where
  "set_delete x xs = filter (\<lambda>y. y \<noteq> x) xs"

definition override :: "string list \<Rightarrow> string \<times> bool \<Rightarrow> string list" where
  "override granted entry =
    (if fst entry \<notin> set PERMISSIONS then granted
     else if snd entry then set_add (fst entry) granted else set_delete (fst entry) granted)"

definition effectivePermissions :: "role \<Rightarrow> permission_overrides \<Rightarrow> string list" where
  "effectivePermissions r overrides = foldl override (ROLE_PERMISSIONS r) overrides"

definition can :: "string list \<Rightarrow> string \<Rightarrow> bool" where
  "can permissions permission \<longleftrightarrow> permission \<in> set permissions"

definition forbidden :: err where
  "forbidden = AppError ''forbidden'' 403 []"

definition assertCan :: "string list \<Rightarrow> string \<Rightarrow> unit res" where
  "assertCan permissions permission = (if permission \<in> set permissions then Inr () else Inl forbidden)"

definition ROLES_REQUIRING_MFA :: "role list" where
  "ROLES_REQUIRING_MFA = [owner, manager]"

definition requiresMfa :: "role \<Rightarrow> bool" where
  "requiresMfa r \<longleftrightarrow> r \<in> set ROLES_REQUIRING_MFA"

section \<open>What a member may do\<close>

lemma set_override: "set (override granted (p, b)) = (if p \<notin> set PERMISSIONS then set granted else if b then insert p (set granted) else set granted - {p})"
  by (auto simp: override_def set_add_def set_delete_def)

lemma overridden:
  assumes "distinct (map fst overrides)"
  shows "p \<in> set (foldl override granted overrides) \<longleftrightarrow>
    (case map_of overrides p of None \<Rightarrow> p \<in> set granted
     | Some b \<Rightarrow> if p \<in> set PERMISSIONS then b else p \<in> set granted)"
  using assms
proof (induction overrides arbitrary: granted)
  case (Cons entry rest)
  obtain q b where entry: "entry = (q, b)" by fastforce
  have IH: "p \<in> set (foldl override (override granted entry) rest) \<longleftrightarrow>
    (case map_of rest p of None \<Rightarrow> p \<in> set (override granted entry)
     | Some b \<Rightarrow> if p \<in> set PERMISSIONS then b else p \<in> set (override granted entry))"
    using Cons by simp
  show ?case
  proof (cases "q = p")
    case True
    then have "map_of rest p = None" using Cons.prems entry by (auto simp: map_of_eq_None_iff)
    then show ?thesis using IH True entry by (auto simp: set_override)
  next
    case False
    then show ?thesis using IH entry by (auto simp: set_override split: option.split)
  qed
qed simp

text \<open>The role's own permissions are all known ones.\<close>

lemma role_permissions_known: "set (ROLE_PERMISSIONS r) \<subseteq> set PERMISSIONS"
  by (cases r) (auto simp: PERMISSIONS_def)

text \<open>
  What a member may do is decided permission by permission: an override of the member decides,
  without one the role does, and a permission the platform does not know is never granted.  In
  particular only an owner, or someone an override names, can touch billing or payments.
\<close>

theorem effective_permissions_exact:
  assumes "distinct (map fst overrides)"
  shows "(can (effectivePermissions r overrides) p \<longleftrightarrow>
      p \<in> set PERMISSIONS \<and> (case map_of overrides p of None \<Rightarrow> p \<in> set (ROLE_PERMISSIONS r) | Some b \<Rightarrow> b)) \<and>
    (assertCan (effectivePermissions r overrides) p = Inr () \<longleftrightarrow> can (effectivePermissions r overrides) p) \<and>
    (p \<in> {''billing:manage'', ''payments:configure'', ''payments:write''} \<and> can (effectivePermissions r overrides) p \<longrightarrow>
      r = owner \<or> map_of overrides p = Some True)"
proof -
  have exact: "can (effectivePermissions r overrides) p \<longleftrightarrow>
      p \<in> set PERMISSIONS \<and> (case map_of overrides p of None \<Rightarrow> p \<in> set (ROLE_PERMISSIONS r) | Some b \<Rightarrow> b)"
    using role_permissions_known[of r] by (auto simp: can_def effectivePermissions_def overridden[OF assms] split: option.splits)
  moreover have "r = owner" if "p \<in> {''billing:manage'', ''payments:configure'', ''payments:write''}" "p \<in> set (ROLE_PERMISSIONS r)"
    using that by (cases r) (auto simp: PERMISSIONS_def)
  ultimately show ?thesis by (auto simp: assertCan_def can_def split: option.splits)
qed

theorem effective_permissions_exact_witness:
  "\<not> can (effectivePermissions cashier [(''analytics:read'', False), (''orders:refund'', True), (''root'', True)]) ''root'' \<and>
   can (effectivePermissions cashier [(''analytics:read'', False), (''orders:refund'', True), (''root'', True)]) ''orders:refund''"
  using effective_permissions_exact[of "[(''analytics:read'', False), (''orders:refund'', True), (''root'', True)]" cashier "''root''"]
    effective_permissions_exact[of "[(''analytics:read'', False), (''orders:refund'', True), (''root'', True)]" cashier "''orders:refund''"]
  by (simp add: PERMISSIONS_def)

text \<open>A manager keeps \<open>domains:manage\<close>, which the comment on the table reserves to the owner.\<close>

lemma managers_manage_domains: "can (effectivePermissions manager []) ''domains:manage''"
  by (simp add: can_def effectivePermissions_def PERMISSIONS_def)

end
