(* ===== verification/Otp.thy ===== *)
theory Otp
  imports Customers Fingerprint
begin

text \<open>
  One-time codes and rate limits: \<open>packages/core/src/identity/otp.ts\<close> and \<open>rate-limit.ts\<close>.  HMAC-SHA256
  of \<open>node:crypto\<close> is written out over the SHA-256 of theory Fingerprint, and the random integer is an
  argument.  Redis is a map from keys to sorted sets of times; the commands of one call run
  together.  A key expires a window after its last call, when everything in it is too old to
  count, so \<open>EXPIRE\<close> is left out.  \<open>maskPhone\<close> writes characters outside ASCII and is left out.
\<close>

section \<open>Codes\<close>

definition OTP_LENGTH :: nat where "OTP_LENGTH = 6"

definition OTP_TTL_SECONDS :: int where "OTP_TTL_SECONDS = 300"

definition OTP_MAX_ATTEMPTS :: int where "OTP_MAX_ATTEMPTS = 5"

definition generateOtpCode :: "nat \<Rightarrow> string" where
  "generateOtpCode random = pad_start OTP_LENGTH (CHR ''0'') (show_nat (random mod 10 ^ OTP_LENGTH))"

text \<open>\<open>Buffer.from(s, "hex")\<close>: pairs of digits up to the first that is none.\<close>

definition hex_value :: "char \<Rightarrow> nat option" where
  "hex_value c =
    (let n = (of_char c :: nat) in
     if 48 \<le> n \<and> n \<le> 57 then Some (n - 48) else if 97 \<le> n \<and> n \<le> 102 then Some (n - 87)
     else if 65 \<le> n \<and> n \<le> 70 then Some (n - 55) else None)"

fun hex_bytes :: "string \<Rightarrow> nat list" where
  "hex_bytes (a # b # s) =
    (case (hex_value a, hex_value b) of (Some x, Some y) \<Rightarrow> (16 * x + y) # hex_bytes s | _ \<Rightarrow> [])"
| "hex_bytes s = []"

definition hmac_sha256 :: "string \<Rightarrow> string \<Rightarrow> string" where
  "hmac_sha256 secret message =
    (let k = (if length secret > 64 then hex_bytes (sha256Hex secret) else map of_char secret);
         block = k @ replicate (64 - length k) 0;
         inner = hex_bytes (sha256Hex (map (\<lambda>b. char_of (b XOR 0x36)) block @ message))
     in sha256Hex (map (\<lambda>b. char_of (b XOR 0x5c)) block @ map char_of inner))"

definition hashOtpCode :: "string \<Rightarrow> string \<Rightarrow> string \<Rightarrow> string \<Rightarrow> string res" where
  "hashOtpCode phoneE164 purpose code pepper =
    (if length pepper < 32 then Inl (JsError ''OTP_PEPPER must be at least 32 characters'')
     else Inr (hmac_sha256 pepper (phoneE164 @ '':'' @ purpose @ '':'' @ code)))"

definition verifyOtpHash :: "string \<Rightarrow> string \<Rightarrow> bool" where
  "verifyOtpHash expectedHex candidateHex =
    (let a = hex_bytes expectedHex; b = hex_bytes candidateHex in length a = length b \<and> length a \<noteq> 0 \<and> a = b)"

text \<open>A digest is 64 hexadecimal digits, so a hash equals itself under the comparison.\<close>

lemma length_sha_round: "length (sha_round w h i) = length h"
  by (cases "(w, h, i)" rule: sha_round.cases) (simp_all add: Let_def)

lemma length_sha_block: "length (sha_block padded h offset) = length h"
proof -
  have "length (foldl (sha_round w) h is) = length h" for w "is"
    by (induction "is" arbitrary: h) (simp_all add: length_sha_round)
  then show ?thesis by (simp add: sha_block_def)
qed

lemma hex_value_digit: "d < 16 \<Longrightarrow> hex_value (hex_digit d) = Some d"
proof -
  assume "d < 16"
  then have "(of_char (hex_digit d) :: nat) = (if d < 10 then 48 + d else 87 + d)" by (simp add: hex_digit_def digit_char_def)
  then show ?thesis using \<open>d < 16\<close> by (simp add: hex_value_def Let_def)
qed

lemma hex_digits_values: "list_all (\<lambda>c. hex_value c \<noteq> None) (hex_digits k n)"
  by (induction k arbitrary: n) (simp_all add: hex_value_digit)

lemma hex_bytes_some: "list_all (\<lambda>c. hex_value c \<noteq> None) s \<Longrightarrow> 2 \<le> length s \<Longrightarrow> hex_bytes (s @ r) \<noteq> []"
  by (cases s rule: hex_bytes.cases) auto

lemma sha256Hex_bytes: "hex_bytes (sha256Hex m) \<noteq> []"
proof -
  define state where "state = foldl (sha_block (sha_pad (map of_char m))) sha_H0 (map (\<lambda>k. 64 * k) [0..<length (sha_pad (map of_char m)) div 64])"
  have "length (foldl (sha_block p) h os) = length h" for p h os
    by (induction os arbitrary: h) (simp_all add: length_sha_block)
  then have "length state = 8" by (simp add: state_def sha_H0_def)
  then obtain x xs where "state = x # xs" by (cases state) simp_all
  then have "sha256Hex m = hex_digits 8 (unat x) @ concat (map (\<lambda>x. hex_digits 8 (unat x)) xs)" by (simp add: sha256Hex_def Let_def state_def[symmetric])
  then show ?thesis using hex_bytes_some[OF hex_digits_values[of 8 "unat x"]] by simp
qed

lemma verifyOtpHash_same [simp]: "verifyOtpHash (hmac_sha256 k m) (hmac_sha256 k m)"
  by (simp add: verifyOtpHash_def hmac_sha256_def Let_def sha256Hex_bytes)

lemma generated_code_digits: "list_all is_digit (generateOtpCode random)" "trim (generateOtpCode random) = generateOtpCode random"
proof -
  show digits: "list_all is_digit (generateOtpCode random)"
    using show_nat_digits by (auto simp: generateOtpCode_def pad_start_def list_all_iff is_digit_def)
  have "\<not> is_space c" if "is_digit c" for c using that by (auto simp: is_digit_def is_space_def)
  then show "trim (generateOtpCode random) = generateOtpCode random"
    using digits by (intro trim_no_space) (auto simp: list_all_iff)
qed

section \<open>Phone numbers\<close>

text \<open>\<open>/^[1-9]\d{7,14}$/\<close> and \<open>/^[6-9]\d{9}$/\<close>.\<close>

definition e164_digits :: "string \<Rightarrow> bool" where
  "e164_digits s = (case s of [] \<Rightarrow> False
     | d # ds \<Rightarrow> is_digit d \<and> d \<noteq> CHR ''0'' \<and> list_all is_digit ds \<and> 7 \<le> length ds \<and> length ds \<le> 14)"

definition indian_mobile :: "string \<Rightarrow> bool" where
  "indian_mobile s = (case s of [] \<Rightarrow> False
     | d # ds \<Rightarrow> d \<in> {CHR ''6'', CHR ''7'', CHR ''8'', CHR ''9''} \<and> list_all is_digit ds \<and> length ds = 9)"

definition strip_trunk :: "string \<Rightarrow> string" where
  "strip_trunk digits = (case digits of
     a # rest \<Rightarrow> if a = CHR ''0'' then (case rest of b # rest' \<Rightarrow> if b = CHR ''0'' then rest' else rest | [] \<Rightarrow> rest) else digits
   | [] \<Rightarrow> digits)"

definition normal_form :: "string \<Rightarrow> string option" where
  "normal_form digits =
    (case digits of
       c # rest \<Rightarrow>
         if c = CHR ''+'' then (if e164_digits rest then Some (CHR ''+'' # rest) else None)
         else (let local = strip_trunk digits in
           if indian_mobile local then Some (''+91'' @ local)
           else if take 2 local = ''91'' \<and> e164_digits local then Some (CHR ''+'' # local)
           else None)
     | [] \<Rightarrow> None)"

definition normalisePhone :: "string \<Rightarrow> string option" where
  "normalisePhone raw = normal_form (filter (\<lambda>c. is_digit c \<or> c = CHR ''+'') raw)"

text \<open>Every number that comes out is in E.164, and is its own normal form.\<close>

lemma e164_phone: "phone_e164 (CHR ''+'' # s) \<longleftrightarrow> e164_digits s"
  by (auto simp: phone_e164_def e164_digits_def split: list.split)

lemma mobile_e164: "indian_mobile s \<Longrightarrow> e164_digits (''91'' @ s)"
  by (auto simp: indian_mobile_def e164_digits_def is_digit_def split: list.splits)

lemma normalised_e164: "normal_form digits = Some p \<Longrightarrow> phone_e164 p"
  using mobile_e164 by (cases digits) (auto simp: normal_form_def Let_def e164_phone split: if_splits)

lemma e164_normal: "phone_e164 p \<Longrightarrow> normalisePhone p = Some p"
proof -
  assume p: "phone_e164 p"
  then obtain d ds where e: "p = CHR ''+'' # d # ds" "is_digit d" "list_all is_digit ds" by (auto simp: phone_e164_def split: list.splits)
  then have "filter (\<lambda>c. is_digit c \<or> c = CHR ''+'') p = p" by (auto simp: list_all_iff intro: filter_True)
  then show ?thesis using p e(1) by (simp add: normalisePhone_def normal_form_def e164_phone)
qed

text \<open>The ways Indians type a mobile number, with any punctuation in between.\<close>

definition typed_as :: "string \<Rightarrow> string \<Rightarrow> bool" where
  "typed_as raw number \<longleftrightarrow>
     filter (\<lambda>c. is_digit c \<or> c = CHR ''+'') raw \<in> {number, ''0'' @ number, ''91'' @ number, ''0091'' @ number, ''+91'' @ number}"

text \<open>
  A phone number has one form in the database.  Whatever is typed, the normal form is in E.164 and
  its own normal form; and a ten-digit Indian mobile number comes out the same however it is typed,
  with or without the trunk zero, the country code, its plus or double zero, spaces and dashes.
\<close>

theorem phones_have_one_form:
  "(case normalisePhone raw of None \<Rightarrow> True | Some p \<Rightarrow> phone_e164 p \<and> normalisePhone p = Some p) \<and>
   (\<not> (indian_mobile number \<and> typed_as raw number) \<or> normalisePhone raw = Some (''+91'' @ number))"
proof -
  have "normalisePhone raw = Some (''+91'' @ number)" if m: "indian_mobile number" and t: "typed_as raw number"
  proof -
    obtain d ds where n: "number = d # ds" "d \<in> {CHR ''6'', CHR ''7'', CHR ''8'', CHR ''9''}" "list_all is_digit ds" "length ds = 9"
      using m by (auto simp: indian_mobile_def split: list.splits)
    have e: "e164_digits (''91'' @ number)" by (rule mobile_e164[OF m])
    have not: "\<not> indian_mobile (''91'' @ number)" using n(4) by (simp add: n(1) indian_mobile_def)
    show ?thesis using t n(2) m e not unfolding typed_as_def
      by (auto simp: normalisePhone_def normal_form_def n(1) strip_trunk_def Let_def)
  qed
  then show ?thesis using normalised_e164 e164_normal unfolding normalisePhone_def by (auto split: option.split)
qed

section \<open>Rate limits\<close>

record rate_limit_rule =
  rl_name :: string
  rl_limit :: nat
  rl_windowSeconds :: int

definition platformKey :: "string list \<Rightarrow> string" where
  "platformKey parts = join_with '':'' (''p'' # parts)"

type_synonym rate_limits = "string \<Rightarrow> millis list"

text \<open>A refusal answers with the seconds to wait.\<close>

definition consumeRateLimit :: "rate_limit_rule \<Rightarrow> string \<Rightarrow> millis \<Rightarrow> rate_limits \<Rightarrow> int option \<times> rate_limits" where
  "consumeRateLimit rule subject now limits =
    (let k = platformKey [''rl'', rl_name rule, subject];
         windowStart = now - rl_windowSeconds rule * 1000;
         kept = filter (\<lambda>t. \<not> (0 \<le> t \<and> t \<le> windowStart)) (limits k);
         countBefore = length kept;
         added = insort now kept
     in if countBefore \<ge> rl_limit rule
        then (let left = butlast added;
                  oldestScore = (case left of [] \<Rightarrow> now | t # ts \<Rightarrow> t)
              in (Some (max 1 (- ((- (oldestScore + rl_windowSeconds rule * 1000 - now)) div 1000))), limits(k := left)))
        else (None, limits(k := added)))"

text \<open>What the limit means: a call passes if fewer than the limit passed in the window before it.\<close>

fun limit_calls :: "rate_limit_rule \<Rightarrow> string \<Rightarrow> millis list \<Rightarrow> rate_limits \<Rightarrow> (millis \<times> bool) list" where
  "limit_calls rule subject [] limits = []"
| "limit_calls rule subject (now # ts) limits =
    (case consumeRateLimit rule subject now limits of
       (refused, limits') \<Rightarrow> (now, refused = None) # limit_calls rule subject ts limits')"

definition in_window :: "rate_limit_rule \<Rightarrow> millis \<Rightarrow> millis \<Rightarrow> bool" where
  "in_window rule t s \<longleftrightarrow> t - rl_windowSeconds rule * 1000 < s \<and> s \<le> t"

fun window_calls :: "rate_limit_rule \<Rightarrow> millis list \<Rightarrow> millis list \<Rightarrow> (millis \<times> bool) list" where
  "window_calls rule passed [] = []"
| "window_calls rule passed (now # ts) =
    (if length (filter (in_window rule now) passed) < rl_limit rule
     then (now, True) # window_calls rule (passed @ [now]) ts
     else (now, False) # window_calls rule passed ts)"

text \<open>The key holds the passed calls that can still count.\<close>

definition holds_passed :: "rate_limit_rule \<Rightarrow> string \<Rightarrow> millis \<Rightarrow> millis list \<Rightarrow> rate_limits \<Rightarrow> bool" where
  "holds_passed rule subject lst passed limits \<longleftrightarrow>
     sorted passed \<and> list_all (\<lambda>s. 0 \<le> s \<and> s \<le> lst) passed \<and>
     (\<exists>old. passed = old @ limits (platformKey [''rl'', rl_name rule, subject]) \<and>
        list_all (\<lambda>s. s \<le> lst - rl_windowSeconds rule * 1000) old)"

lemma filter_recent:
  assumes "sorted stored" "list_all (\<lambda>s. 0 \<le> s) stored"
  shows "\<exists>gone. stored = gone @ filter (\<lambda>t. \<not> (0 \<le> t \<and> t \<le> (w :: int))) stored \<and> list_all (\<lambda>s. s \<le> w) gone"
  using assms
proof (induction stored)
  case (Cons s ss)
  show ?case
  proof (cases "s \<le> w")
    case True
    obtain gone where "ss = gone @ filter (\<lambda>t. \<not> (0 \<le> t \<and> t \<le> w)) ss" "list_all (\<lambda>s. s \<le> w) gone" using Cons by auto
    then show ?thesis using True Cons.prems by (intro exI[of _ "s # gone"]) simp
  next
    case False
    then have "filter (\<lambda>t. \<not> (0 \<le> t \<and> t \<le> w)) (s # ss) = s # ss" using Cons.prems(1) by (intro filter_True) auto
    then show ?thesis by (intro exI[of _ "[]"]) simp
  qed
qed simp

lemma in_window_filter:
  assumes "passed = old @ kept" "list_all (\<lambda>s. s \<le> now - rl_windowSeconds rule * 1000) old"
    and "list_all (\<lambda>s. now - rl_windowSeconds rule * 1000 < s \<and> s \<le> now) kept"
  shows "filter (in_window rule now) passed = kept"
proof -
  have "filter (in_window rule now) old = []" using assms(2) by (auto simp: filter_empty_conv in_window_def list_all_iff)
  moreover have "filter (in_window rule now) kept = kept" using assms(3) by (intro filter_True) (auto simp: in_window_def list_all_iff)
  ultimately show ?thesis by (simp add: assms(1))
qed

lemma consume_step:
  assumes "holds_passed rule subject lst passed limits" "lst \<le> now" "0 \<le> now"
  shows "case consumeRateLimit rule subject now limits of (refused, limits') \<Rightarrow>
    (refused = None \<longleftrightarrow> length (filter (in_window rule now) passed) < rl_limit rule) \<and>
    holds_passed rule subject now (if refused = None then passed @ [now] else passed) limits'"
proof -
  define k where "k = platformKey [''rl'', rl_name rule, subject]"
  define ws where "ws = now - rl_windowSeconds rule * 1000"
  define kept where "kept = filter (\<lambda>t. \<not> (0 \<le> t \<and> t \<le> ws)) (limits k)"
  obtain old where old: "passed = old @ limits k" "list_all (\<lambda>s. s \<le> lst - rl_windowSeconds rule * 1000) old"
    and p: "sorted passed" "list_all (\<lambda>s. 0 \<le> s \<and> s \<le> lst) passed"
    using assms(1) by (auto simp: holds_passed_def k_def)
  obtain gone where gone: "limits k = gone @ kept" "list_all (\<lambda>s. s \<le> ws) gone"
    using filter_recent[of "limits k" ws] p by (auto simp: old(1) kept_def sorted_append list_all_iff)
  have sk: "sorted kept" "list_all (\<lambda>s. 0 \<le> s \<and> s \<le> now) passed"
    using p(1) list.pred_mono_strong[OF p(2), of "\<lambda>s. 0 \<le> s \<and> s \<le> now"] assms(2)
    by (simp_all add: old(1) gone(1) sorted_append)
  have before: "passed = (old @ gone) @ kept" "list_all (\<lambda>s. s \<le> ws) (old @ gone)"
    using old gone assms(2) by (auto simp: ws_def list_all_iff)
  have young: "list_all (\<lambda>s. ws < s \<and> s \<le> now) kept"
  proof -
    have "s \<in> set kept \<Longrightarrow> s \<in> set passed \<and> \<not> (0 \<le> s \<and> s \<le> ws)" for s unfolding before(1) by (simp add: kept_def)
    then show ?thesis using sk(2) unfolding list_all_iff by force
  qed
  have count: "filter (in_window rule now) passed = kept" by (rule in_window_filter[OF before(1) before(2)[unfolded ws_def] young[unfolded ws_def]])
  have add: "insort now kept = kept @ [now]" using young by (intro sorted_insort_is_snoc sk(1)) (auto simp: list_all_iff)
  have step: "consumeRateLimit rule subject now limits =
      (if rl_limit rule \<le> length kept then
         (Some (max 1 (- ((- ((case butlast (kept @ [now]) of [] \<Rightarrow> now | t # ts \<Rightarrow> t) + rl_windowSeconds rule * 1000 - now)) div 1000))), limits(k := kept))
       else (None, limits(k := kept @ [now])))"
    unfolding consumeRateLimit_def Let_def k_def[symmetric] ws_def[symmetric] kept_def[symmetric] add by simp
  have kept_ok: "holds_passed rule subject now passed (limits(k := kept))"
    unfolding holds_passed_def k_def[symmetric] using p(1) sk(2) before ws_def by auto
  have "holds_passed rule subject now (passed @ [now]) (limits(k := kept @ [now]))"
    unfolding holds_passed_def k_def[symmetric] using p(1) sk(2) before ws_def assms(3) by (auto simp: sorted_append list_all_iff)
  then show ?thesis using kept_ok by (simp add: step count)
qed

lemma limit_calls_window:
  assumes "holds_passed rule subject lst passed limits" "sorted (lst # ts)" "0 \<le> lst"
  shows "limit_calls rule subject ts limits = window_calls rule passed ts"
  using assms
proof (induction ts arbitrary: lst passed limits)
  case (Cons now ts)
  obtain refused limits' where run: "consumeRateLimit rule subject now limits = (refused, limits')" by fastforce
  have step: "refused = None \<longleftrightarrow> length (filter (in_window rule now) passed) < rl_limit rule"
    "holds_passed rule subject now (if refused = None then passed @ [now] else passed) limits'"
    using consume_step[OF Cons.prems(1), of now] Cons.prems(2,3) by (auto simp: run)
  show ?case using Cons.IH[OF step(2)] step(1) Cons.prems(2,3) by (simp add: run)
qed simp

lemma window_bound:
  assumes "sorted (lst # ts)" "list_all (\<lambda>s. s \<le> lst) passed" "\<And>t. length (filter (in_window rule t) passed) \<le> rl_limit rule"
  shows "length (filter (in_window rule t) (passed @ map fst (filter snd (window_calls rule passed ts)))) \<le> rl_limit rule"
  using assms
proof (induction ts arbitrary: lst passed)
  case (Cons now ts)
  have le: "list_all (\<lambda>s. s \<le> now) passed" using list.pred_mono_strong[OF Cons.prems(2), of "\<lambda>s. s \<le> now"] Cons.prems(1) by simp
  show ?case
  proof (cases "length (filter (in_window rule now) passed) < rl_limit rule")
    case True
    have "length (filter (in_window rule u) (passed @ [now])) \<le> rl_limit rule" for u
    proof (cases "in_window rule u now")
      case now: True
      have "in_window rule u s \<Longrightarrow> s \<in> set passed \<Longrightarrow> in_window rule now s" for s
        using now le by (auto simp: in_window_def list_all_iff)
      then have "length (filter (in_window rule u) passed) \<le> length (filter (in_window rule now) passed)"
        by (induction passed) auto
      then show ?thesis using True now by simp
    qed (use Cons.prems(3) in simp)
    then show ?thesis using Cons.IH[of now "passed @ [now]"] Cons.prems(1) le True by simp
  next
    case False
    then show ?thesis using Cons.IH[of now passed] Cons.prems(1,3) le by simp
  qed
qed simp

text \<open>
  C39.  A rate limit is an exact sliding window.  For calls in the order of the clock, on a key with
  nothing in it, a call passes exactly when fewer than the limit passed in the window before it; so no
  window of that length, wherever it lies, holds more than the limit, and a refused call never
  prolongs the wait.
\<close>

theorem rate_limit_is_sliding_window:
  assumes "sorted (0 # ts)" "limits (platformKey [''rl'', rl_name rule, subject]) = []"
  shows "limit_calls rule subject ts limits = window_calls rule [] ts \<and>
    length (filter (in_window rule t) (map fst (filter snd (limit_calls rule subject ts limits)))) \<le> rl_limit rule"
proof -
  have "holds_passed rule subject 0 [] limits" using assms(2) by (simp add: holds_passed_def)
  from limit_calls_window[OF this assms(1)] show ?thesis using window_bound[OF assms(1), of "[]" rule t] by simp
qed

definition perPhone :: rate_limit_rule where
  "perPhone = \<lparr>rl_name = ''otp:request:phone'', rl_limit = 5, rl_windowSeconds = 3600\<rparr>"

definition perIp :: rate_limit_rule where
  "perIp = \<lparr>rl_name = ''otp:request:ip'', rl_limit = 20, rl_windowSeconds = 3600\<rparr>"

definition perPhoneBurst :: rate_limit_rule where
  "perPhoneBurst = \<lparr>rl_name = ''otp:request:phone:burst'', rl_limit = 1, rl_windowSeconds = 45\<rparr>"

definition verifyPerPhone :: rate_limit_rule where
  "verifyPerPhone = \<lparr>rl_name = ''otp:verify:phone'', rl_limit = 10, rl_windowSeconds = 900\<rparr>"

definition verifyPerIp :: rate_limit_rule where
  "verifyPerIp = \<lparr>rl_name = ''otp:verify:ip'', rl_limit = 50, rl_windowSeconds = 900\<rparr>"

text \<open>Three requests for a code: the second comes too soon, and does not delay the third.\<close>

theorem rate_limit_is_sliding_window_witness:
  "limit_calls perPhoneBurst ''+919876543210'' [1000, 20000, 46000] (\<lambda>k. []) = [(1000, True), (20000, False), (46000, True)] \<and>
   length (filter (in_window perPhoneBurst 46000) [1000, 46000]) \<le> 1"
  using rate_limit_is_sliding_window[of "[1000, 20000, 46000]" "\<lambda>k. []" perPhoneBurst "''+919876543210''" 46000]
  by (simp add: perPhoneBurst_def in_window_def)

end
