(* ===== verification/Identity.thy ===== *)
theory Identity
  imports Permissions Otp
begin

text \<open>
  Signing in to the console: \<open>packages/core/src/identity/auth.ts\<close> and \<open>sessions.ts\<close>, with the routes
  under \<open>apps/console/src/app/api/auth\<close> that call them.  The state is the control plane, which has no
  tenant, and the rate limits in Redis, which no transaction rolls back.  What the operating system
  decides is an argument: the random integer of a code, the random token of a session, the pepper, the
  salt of IP addresses, and whether delivery throws.  Cookies, the masked phone number and request ids
  are left out.
\<close>

section \<open>The control plane\<close>

datatype otp_purpose = console_login | customer_login

fun purpose_text :: "otp_purpose \<Rightarrow> string" where
  "purpose_text console_login = ''console_login''"
| "purpose_text customer_login = ''customer_login''"

datatype search_indexing = index_auto | indexed | noindex

datatype tenant_status = tenant_trial | tenant_active | tenant_suspended | tenant_churned

record challenge_row =
  oc_id :: uuid
  oc_phoneE164 :: string
  oc_purpose :: otp_purpose
  oc_codeHash :: string
  oc_attempts :: int
  oc_maxAttempts :: int
  oc_expiresAt :: millis
  oc_consumedAt :: "millis option"
  oc_createdAt :: millis

record user_row =
  us_id :: uuid
  us_phoneE164 :: string
  us_name :: "string option"
  us_lastLoginAt :: "millis option"

record staff_row =
  tm_tenantId :: uuid
  tm_userId :: uuid
  tm_role :: role
  tm_overrides :: permission_overrides
  tm_revokedAt :: "millis option"

record platform_tenant =
  pt_id :: uuid
  pt_slug :: string
  pt_displayName :: string
  pt_status :: tenant_status
  pt_searchIndexing :: search_indexing
  pt_deletedAt :: "millis option"

record session_row =
  ss_id :: uuid
  ss_tokenHash :: string
  ss_userId :: uuid
  ss_tenantId :: "uuid option"
  ss_userAgent :: "string option"
  ss_ipHash :: "string option"
  ss_expiresAt :: millis
  ss_idleExpiresAt :: millis
  ss_revokedAt :: "millis option"

record platform =
  pf_now :: millis
  pf_uuidv7 :: "nat \<Rightarrow> uuid"
  pf_drawn :: nat
  pf_limits :: rate_limits
  pf_challenges :: "challenge_row list"
  pf_users :: "user_row list"
  pf_members :: "staff_row list"
  pf_tenants :: "platform_tenant list"
  pf_sessions :: "session_row list"
  pf_audit :: "(uuid \<times> audit_row) list"

type_synonym 'a ptx = "(platform, 'a) tx"
type_synonym 'a paction = "(platform, 'a) action"

definition new_id :: "uuid ptx" where
  "new_id = (\<lambda>pf. Inr (pf_uuidv7 pf (pf_drawn pf), pf\<lparr>pf_drawn := Suc (pf_drawn pf)\<rparr>))"

definition rate_limited :: err where
  "rate_limited = AppError ''rate_limited'' 429 []"

definition limit_rate :: "rate_limit_rule \<Rightarrow> string \<Rightarrow> unit paction" where
  "limit_rate rule subject = (\<lambda>pf.
     case consumeRateLimit rule subject (pf_now pf) (pf_limits pf) of
       (Some retryAfter, limits) \<Rightarrow> (Inl rate_limited, pf\<lparr>pf_limits := limits\<rparr>)
     | (None, limits) \<Rightarrow> (Inr (), pf\<lparr>pf_limits := limits\<rparr>))"

text \<open>\<open>if (input.ctx?.ip) await consumeRateLimit(rule, input.ctx.ip)\<close>.\<close>

definition limit_ip :: "rate_limit_rule \<Rightarrow> string option \<Rightarrow> unit paction" where
  "limit_ip rule ip = (case ip of None \<Rightarrow> areturn () | Some s \<Rightarrow> if s = [] then areturn () else limit_rate rule s)"

section \<open>Asking for a code\<close>

record login_env =
  le_pepper :: "string option"
  le_sessionSecret :: string
  le_deliver :: "string \<Rightarrow> string \<Rightarrow> otp_purpose \<Rightarrow> err option"

definition pepper :: "login_env \<Rightarrow> string res" where
  "pepper env = (case le_pepper env of None \<Rightarrow> Inl (JsError ''OTP_PEPPER is not set'')
     | Some p \<Rightarrow> if p = [] then Inl (JsError ''OTP_PEPPER is not set'') else Inr p)"

definition invalid_phone :: err where
  "invalid_phone = AppError ''invalid_phone'' 400 []"

definition live_challenge :: "string \<Rightarrow> otp_purpose \<Rightarrow> challenge_row \<Rightarrow> bool" where
  "live_challenge phone purpose c \<longleftrightarrow> oc_phoneE164 c = phone \<and> oc_purpose c = purpose \<and> oc_consumedAt c = None"

definition issue_code :: "login_env \<Rightarrow> string \<Rightarrow> otp_purpose \<Rightarrow> string \<Rightarrow> unit ptx" where
  "issue_code env phone purpose code =
     tbind (twrite (\<lambda>pf. pf\<lparr>pf_challenges :=
       upd (live_challenge phone purpose) (\<lambda>c. c\<lparr>oc_consumedAt := Some (pf_now pf)\<rparr>) (pf_challenges pf)\<rparr>)) (\<lambda>_.
     tbind (tlift (rbind (pepper env) (hashOtpCode phone (purpose_text purpose) code))) (\<lambda>codeHash.
     tbind new_id (\<lambda>cid.
     tbind (tread (\<lambda>pf. list_ex (\<lambda>c. oc_id c = cid) (pf_challenges pf))) (\<lambda>taken.
     tbind (tguard (\<not> taken) (uniqueViolation ''otp_challenges_pkey'')) (\<lambda>_.
     twrite (\<lambda>pf. pf\<lparr>pf_challenges := pf_challenges pf @
       [\<lparr>oc_id = cid, oc_phoneE164 = phone, oc_purpose = purpose, oc_codeHash = codeHash, oc_attempts = 0,
         oc_maxAttempts = OTP_MAX_ATTEMPTS, oc_expiresAt = pf_now pf + OTP_TTL_SECONDS * 1000, oc_consumedAt = None,
         oc_createdAt = pf_now pf\<rparr>]\<rparr>))))))"

definition startLogin :: "login_env \<Rightarrow> nat \<Rightarrow> string \<Rightarrow> otp_purpose \<Rightarrow> string option \<Rightarrow> int paction" where
  "startLogin env random phone purpose ip =
    (case normalisePhone phone of
       None \<Rightarrow> athrow invalid_phone
     | Some phoneE164 \<Rightarrow>
         abind (limit_rate perPhoneBurst phoneE164) (\<lambda>_.
         abind (limit_rate perPhone phoneE164) (\<lambda>_.
         abind (limit_ip perIp ip) (\<lambda>_.
         let code = generateOtpCode random in
         abind (commit (issue_code env phoneE164 purpose code)) (\<lambda>_.
         case le_deliver env phoneE164 code purpose of
           Some e \<Rightarrow> athrow e
         | None \<Rightarrow> areturn OTP_TTL_SECONDS)))))"

section \<open>Answering with the code\<close>

definition InvalidOtpError :: err where
  "InvalidOtpError = AppError ''invalid_otp'' 401 []"

record membership =
  ms_tenantId :: uuid
  ms_tenantSlug :: string
  ms_tenantName :: string
  ms_role :: role

text \<open>\<open>ORDER BY created_at DESC LIMIT 1\<close> over the challenges that are not consumed.\<close>

definition newest_challenge :: "string \<Rightarrow> otp_purpose \<Rightarrow> platform \<Rightarrow> challenge_row option" where
  "newest_challenge phone purpose pf =
     find (\<lambda>c. True) (rev (sort_key oc_createdAt (filter (live_challenge phone purpose) (pf_challenges pf))))"

definition set_challenge :: "uuid \<Rightarrow> (challenge_row \<Rightarrow> challenge_row) \<Rightarrow> unit ptx" where
  "set_challenge cid f = twrite (\<lambda>pf. pf\<lparr>pf_challenges := upd (\<lambda>c. oc_id c = cid) f (pf_challenges pf)\<rparr>)"

definition upsert_user :: "string \<Rightarrow> uuid ptx" where
  "upsert_user phone =
     tbind new_id (\<lambda>uid.
     tbind (tguard (phone_e164 phone) (checkViolation ''users_phone_e164_check'')) (\<lambda>_.
     tbind (tread (\<lambda>pf. find (\<lambda>u. us_phoneE164 u = phone) (pf_users pf))) (\<lambda>found.
     case found of
       Some u \<Rightarrow>
         tbind (twrite (\<lambda>pf. pf\<lparr>pf_users := upd (\<lambda>u. us_phoneE164 u = phone) (\<lambda>u. u\<lparr>us_lastLoginAt := Some (pf_now pf)\<rparr>) (pf_users pf)\<rparr>)) (\<lambda>_.
         treturn (us_id u))
     | None \<Rightarrow>
         tbind (tread (\<lambda>pf. list_ex (\<lambda>u. us_id u = uid) (pf_users pf))) (\<lambda>taken.
         tbind (tguard (\<not> taken) (uniqueViolation ''users_pkey'')) (\<lambda>_.
         tbind (twrite (\<lambda>pf. pf\<lparr>pf_users := pf_users pf @
           [\<lparr>us_id = uid, us_phoneE164 = phone, us_name = None, us_lastLoginAt = Some (pf_now pf)\<rparr>]\<rparr>)) (\<lambda>_.
         treturn uid))))))"

definition membership_of :: "platform \<Rightarrow> staff_row \<Rightarrow> membership option" where
  "membership_of pf m =
     map_option (\<lambda>t. \<lparr>ms_tenantId = tm_tenantId m, ms_tenantSlug = pt_slug t, ms_tenantName = pt_displayName t, ms_role = tm_role m\<rparr>)
       (find (\<lambda>t. pt_id t = tm_tenantId m \<and> pt_deletedAt t = None) (pf_tenants pf))"

definition memberships_of :: "platform \<Rightarrow> uuid \<Rightarrow> membership list" where
  "memberships_of pf uid = List.map_filter (membership_of pf) (filter (\<lambda>m. tm_userId m = uid \<and> tm_revokedAt m = None) (pf_members pf))"

text \<open>
  The transaction of \<open>completeLogin\<close>.  On a wrong code it counts the attempt and then throws, inside
  the transaction that the throw rolls back.
\<close>

definition check_code :: "login_env \<Rightarrow> string \<Rightarrow> otp_purpose \<Rightarrow> string \<Rightarrow> (uuid \<times> membership list) ptx" where
  "check_code env phone purpose code =
     tbind (tread (newest_challenge phone purpose)) (\<lambda>found.
     case found of
       None \<Rightarrow> tthrow InvalidOtpError
     | Some challenge \<Rightarrow>
         tbind (tread pf_now) (\<lambda>now.
         tbind (tguard (now < oc_expiresAt challenge) InvalidOtpError) (\<lambda>_.
         tbind (tguard (oc_attempts challenge < oc_maxAttempts challenge) InvalidOtpError) (\<lambda>_.
         tbind (tlift (rbind (pepper env) (hashOtpCode phone (purpose_text purpose) (trim code)))) (\<lambda>candidate.
         if \<not> verifyOtpHash (oc_codeHash challenge) candidate then
           tbind (set_challenge (oc_id challenge) (\<lambda>c. c\<lparr>oc_attempts := oc_attempts c + 1\<rparr>)) (\<lambda>_.
           tthrow InvalidOtpError)
         else
           tbind (set_challenge (oc_id challenge) (\<lambda>c. c\<lparr>oc_consumedAt := Some now\<rparr>)) (\<lambda>_.
           tbind (upsert_user phone) (\<lambda>uid.
           tread (\<lambda>pf. (uid, memberships_of pf uid)))))))))"

definition completeLogin :: "login_env \<Rightarrow> string \<Rightarrow> otp_purpose \<Rightarrow> string \<Rightarrow> string option \<Rightarrow> (uuid \<times> membership list) paction" where
  "completeLogin env phone purpose code ip =
    (case normalisePhone phone of
       None \<Rightarrow> athrow InvalidOtpError
     | Some phoneE164 \<Rightarrow>
         abind (limit_rate verifyPerPhone phoneE164) (\<lambda>_.
         abind (limit_ip verifyPerIp ip) (\<lambda>_.
         commit (check_code env phoneE164 purpose code))))"

section \<open>Sessions\<close>

definition ABSOLUTE_TTL_MS :: millis where "ABSOLUTE_TTL_MS = 14 * 24 * 60 * 60 * 1000"

definition IDLE_TTL_MS :: millis where "IDLE_TTL_MS = 8 * 60 * 60 * 1000"

record actor =
  ac_userId :: uuid
  ac_sessionId :: uuid
  ac_tenantId :: uuid
  ac_role :: role
  ac_permissions :: "string list"
  ac_phoneE164 :: string
  ac_name :: "string option"

definition hashToken :: "string \<Rightarrow> string" where
  "hashToken token = sha256Hex token"

definition hashIp :: "login_env \<Rightarrow> string option \<Rightarrow> string option" where
  "hashIp env ip = (case ip of None \<Rightarrow> None
     | Some s \<Rightarrow> if s = [] then None else Some (take 32 (sha256Hex (le_sessionSecret env @ '':'' @ s))))"

definition createSession :: "login_env \<Rightarrow> string \<Rightarrow> uuid \<Rightarrow> uuid \<Rightarrow> string option \<Rightarrow> string option \<Rightarrow> (string \<times> millis) paction" where
  "createSession env token userId tenantId userAgent ip = (\<lambda>pf.
     let expiresAt = pf_now pf + ABSOLUTE_TTL_MS in
     abind (commit (
       tbind new_id (\<lambda>sid.
       tbind (tread (\<lambda>pf. list_ex (\<lambda>s. ss_id s = sid) (pf_sessions pf))) (\<lambda>taken.
       tbind (tguard (\<not> taken) (uniqueViolation ''sessions_pkey'')) (\<lambda>_.
       tbind (tread (\<lambda>pf. list_ex (\<lambda>s. ss_tokenHash s = hashToken token) (pf_sessions pf))) (\<lambda>dup.
       tbind (tguard (\<not> dup) (uniqueViolation ''sessions_token_hash_key'')) (\<lambda>_.
       twrite (\<lambda>pf. pf\<lparr>pf_sessions := pf_sessions pf @
         [\<lparr>ss_id = sid, ss_tokenHash = hashToken token, ss_userId = userId, ss_tenantId = Some tenantId,
           ss_userAgent = map_option (take 512) userAgent, ss_ipHash = hashIp env ip, ss_expiresAt = expiresAt,
           ss_idleExpiresAt = pf_now pf + IDLE_TTL_MS, ss_revokedAt = None\<rparr>]\<rparr>))))))))
     (\<lambda>_. areturn (token, expiresAt)) pf)"

definition member_of :: "platform \<Rightarrow> session_row \<Rightarrow> staff_row option" where
  "member_of pf s = find (\<lambda>m. tm_userId m = ss_userId s \<and> Some (tm_tenantId m) = ss_tenantId s) (pf_members pf)"

definition tenant_of :: "platform \<Rightarrow> session_row \<Rightarrow> platform_tenant option" where
  "tenant_of pf s = find (\<lambda>t. Some (pt_id t) = ss_tenantId s) (pf_tenants pf)"

definition resolve_row :: "session_row \<Rightarrow> user_row \<Rightarrow> string \<Rightarrow> actor option ptx" where
  "resolve_row s u tokenHash =
     tbind (tread pf_now) (\<lambda>now.
     tbind (tread (\<lambda>pf. (member_of pf s, tenant_of pf s))) (\<lambda>(member, tenant).
     if hex_bytes (ss_tokenHash s) \<noteq> hex_bytes tokenHash then treturn None
     else if ss_revokedAt s \<noteq> None then treturn None
     else if ss_expiresAt s \<le> now \<or> ss_idleExpiresAt s \<le> now then treturn None
     else case (ss_tenantId s, member) of
       (Some tenantId, Some m) \<Rightarrow>
         if tm_revokedAt m \<noteq> None then treturn None
         else if (case tenant of Some t \<Rightarrow> pt_status t = tenant_suspended \<or> pt_status t = tenant_churned | None \<Rightarrow> False) then treturn None
         else
           tbind (twrite (\<lambda>pf. pf\<lparr>pf_sessions :=
             upd (\<lambda>r. ss_id r = ss_id s \<and> ss_revokedAt r = None) (\<lambda>r. r\<lparr>ss_idleExpiresAt := now + IDLE_TTL_MS\<rparr>) (pf_sessions pf)\<rparr>)) (\<lambda>_.
           treturn (Some \<lparr>ac_userId = ss_userId s, ac_sessionId = ss_id s, ac_tenantId = tenantId, ac_role = tm_role m,
             ac_permissions = effectivePermissions (tm_role m) (tm_overrides m), ac_phoneE164 = us_phoneE164 u, ac_name = us_name u\<rparr>))
     | _ \<Rightarrow> treturn None))"

definition resolveSession :: "string option \<Rightarrow> actor option paction" where
  "resolveSession token = (case token of
     None \<Rightarrow> areturn None
   | Some t \<Rightarrow>
       if t = [] then areturn None
       else commit (
         tbind (tread (\<lambda>pf. find (\<lambda>s. ss_tokenHash s = hashToken t) (pf_sessions pf))) (\<lambda>found.
         case found of
           None \<Rightarrow> treturn None
         | Some s \<Rightarrow>
             tbind (tread (\<lambda>pf. find (\<lambda>u. us_id u = ss_userId s) (pf_users pf))) (\<lambda>user.
             case user of None \<Rightarrow> treturn None | Some u \<Rightarrow> resolve_row s u (hashToken t)))))"

definition unauthorized :: err where
  "unauthorized = AppError ''unauthorized'' 401 []"

definition requireSession :: "string option \<Rightarrow> actor paction" where
  "requireSession token = abind (resolveSession token) (\<lambda>found. case found of None \<Rightarrow> athrow unauthorized | Some a \<Rightarrow> areturn a)"

definition revokeSession :: "string \<Rightarrow> unit paction" where
  "revokeSession token = commit (twrite (\<lambda>pf. pf\<lparr>pf_sessions :=
     upd (\<lambda>s. ss_tokenHash s = hashToken token) (\<lambda>s. s\<lparr>ss_revokedAt := Some (pf_now pf)\<rparr>) (pf_sessions pf)\<rparr>))"

definition revokeAllSessionsForUser :: "uuid \<Rightarrow> nat paction" where
  "revokeAllSessionsForUser userId = commit (
     tbind (tread (\<lambda>pf. length (filter (\<lambda>s. ss_userId s = userId \<and> ss_revokedAt s = None) (pf_sessions pf)))) (\<lambda>revoked.
     tbind (twrite (\<lambda>pf. pf\<lparr>pf_sessions :=
       upd (\<lambda>s. ss_userId s = userId \<and> ss_revokedAt s = None) (\<lambda>s. s\<lparr>ss_revokedAt := Some (pf_now pf)\<rparr>) (pf_sessions pf)\<rparr>)) (\<lambda>_.
     treturn revoked)))"

section \<open>The routes\<close>

record verify_body =
  vb_phone :: string
  vb_code :: string
  vb_tenantId :: "uuid option"

datatype verify_response =
    verify_failed err
  | no_membership
  | needs_tenant_choice "membership list"
  | forbidden_store
  | signed_in string membership

definition body_ok :: "verify_body \<Rightarrow> bool" where
  "body_ok b \<longleftrightarrow> 6 \<le> length (vb_phone b) \<and> length (vb_phone b) \<le> 20 \<and> length (vb_code b) = 6 \<and> list_all is_digit (vb_code b)"

definition login_audit :: "uuid \<Rightarrow> audit_row" where
  "login_audit userId = \<lparr>au_actorType = staff, au_actorUserId = Some userId, au_action = ''auth.login'', au_entityType = ''session'',
     au_entityId = None, au_before = JNull, au_after = JNull\<rparr>"

definition enter_store :: "login_env \<Rightarrow> string \<Rightarrow> uuid \<Rightarrow> membership \<Rightarrow> string option \<Rightarrow> string option \<Rightarrow> verify_response paction" where
  "enter_store env token userId chosen ip userAgent =
     abind (createSession env token userId (ms_tenantId chosen) userAgent ip) (\<lambda>_.
     abind (commit (twrite (\<lambda>pf. pf\<lparr>pf_audit := pf_audit pf @ [(ms_tenantId chosen, login_audit userId)]\<rparr>))) (\<lambda>_.
     areturn (signed_in token chosen)))"

definition verify_route :: "login_env \<Rightarrow> string \<Rightarrow> verify_body \<Rightarrow> string option \<Rightarrow> string option \<Rightarrow> verify_response paction" where
  "verify_route env token body ip userAgent =
    (if \<not> body_ok body then areturn (verify_failed InvalidOtpError)
     else acatch
       (abind (completeLogin env (vb_phone body) console_login (vb_code body) ip) (\<lambda>(userId, memberships).
        if memberships = [] then areturn no_membership
        else if length memberships > 1 \<and> vb_tenantId body = None then areturn (needs_tenant_choice memberships)
        else case (case vb_tenantId body of
            Some t \<Rightarrow> find (\<lambda>m. ms_tenantId m = t) memberships
          | None \<Rightarrow> Some (hd memberships)) of
          None \<Rightarrow> areturn forbidden_store
        | Some chosen \<Rightarrow> enter_store env token userId chosen ip userAgent))
       (\<lambda>e. areturn (verify_failed e)))"

definition invalid_body :: err where
  "invalid_body = AppError ''invalid_body'' 400 []"

definition request_route :: "login_env \<Rightarrow> nat \<Rightarrow> string \<Rightarrow> string option \<Rightarrow> int paction" where
  "request_route env random phone ip =
    (if \<not> (6 \<le> length phone \<and> length phone \<le> 20) then athrow invalid_body
     else startLogin env random phone console_login ip)"

definition logout_route :: "string option \<Rightarrow> bool \<Rightarrow> unit paction" where
  "logout_route token everywhere = (case token of
     None \<Rightarrow> areturn ()
   | Some t \<Rightarrow>
       if t = [] then areturn ()
       else if everywhere then
         abind (resolveSession token) (\<lambda>found. case found of
           None \<Rightarrow> areturn ()
         | Some a \<Rightarrow> abind (revokeAllSessionsForUser (ac_userId a)) (\<lambda>_. areturn ()))
       else revokeSession t)"

end
