(* ===== verification/IdentityLaws.thy ===== *)
theory IdentityLaws
  imports Identity Machines
begin

text \<open>
  What signing in promises and what it does not.  A code works once, a session that was revoked or has
  run out stays out, and a refused caller of a rate limit waits out the window; but a wrong code is
  not counted, and whoever staffs several stores cannot choose one with the code that asked the
  question.
\<close>

section \<open>Operations, in any order\<close>

datatype identity_op =
    IdTick millis
  | IdStart login_env nat string otp_purpose "string option"
  | IdComplete login_env string otp_purpose string "string option"
  | IdRequest login_env nat string "string option"
  | IdVerify login_env string verify_body "string option" "string option"
  | IdCreate login_env string uuid uuid "string option" "string option"
  | IdResolve "string option"
  | IdRevoke string
  | IdRevokeAll uuid
  | IdLogout "string option" bool

fun exec_identity :: "identity_op \<Rightarrow> platform \<Rightarrow> platform" where
  "exec_identity (IdTick t) pf = pf\<lparr>pf_now := t\<rparr>"
| "exec_identity (IdStart env random phone purpose ip) pf = snd (startLogin env random phone purpose ip pf)"
| "exec_identity (IdComplete env phone purpose code ip) pf = snd (completeLogin env phone purpose code ip pf)"
| "exec_identity (IdRequest env random phone ip) pf = snd (request_route env random phone ip pf)"
| "exec_identity (IdVerify env token body ip ua) pf = snd (verify_route env token body ip ua pf)"
| "exec_identity (IdCreate env token u t ua ip) pf = snd (createSession env token u t ua ip pf)"
| "exec_identity (IdResolve token) pf = snd (resolveSession token pf)"
| "exec_identity (IdRevoke token) pf = snd (revokeSession token pf)"
| "exec_identity (IdRevokeAll u) pf = snd (revokeAllSessionsForUser u pf)"
| "exec_identity (IdLogout token everywhere) pf = snd (logout_route token everywhere pf)"

text \<open>
  What an invariant of the challenges, or of the sessions, has to promise so that every handler keeps
  it: it looks at nothing else, and the transactions that write them keep it.
\<close>

definition login_tables :: "platform \<Rightarrow> challenge_row list \<times> session_row list" where
  "login_tables pf = (pf_challenges pf, pf_sessions pf)"

locale login_invariant =
  fixes I :: "platform \<Rightarrow> bool"
  assumes same: "login_tables pf' = login_tables pf \<Longrightarrow> I pf' = I pf"
    and issue: "keeps I (issue_code env phone purpose code)"
    and check: "keeps I (check_code env phone purpose code)"
    and create: "akeeps I (createSession env token u t ua ip)"
    and slide: "keeps I (twrite (\<lambda>pf. pf\<lparr>pf_sessions :=
        upd (\<lambda>r. ss_id r = sid \<and> ss_revokedAt r = None) (\<lambda>r. r\<lparr>ss_idleExpiresAt := n\<rparr>) (pf_sessions pf)\<rparr>))"
    and revoke: "keeps I (twrite (\<lambda>pf. pf\<lparr>pf_sessions := upd P (\<lambda>s. s\<lparr>ss_revokedAt := Some (pf_now pf)\<rparr>) (pf_sessions pf)\<rparr>))"
begin

lemma off_tables: "(\<And>pf. login_tables (f pf) = login_tables pf) \<Longrightarrow> keeps I (twrite f)"
  by (rule keeps_write) (blast dest: same)

lemma akeeps_limit: "akeeps I (limit_rate rule subject)"
proof -
  have "I (snd (limit_rate rule subject pf)) = I pf" for pf
    by (rule same) (simp add: limit_rate_def login_tables_def split: prod.split option.split)
  then show ?thesis by (simp add: akeeps_def)
qed

lemma akeeps_limit_ip: "akeeps I (limit_ip rule ip)"
  unfolding limit_ip_def by (intro keeps_rules akeeps_limit)

lemma akeeps_startLogin: "akeeps I (startLogin env random phone purpose ip)"
  unfolding startLogin_def Let_def by (intro keeps_rules akeeps_limit akeeps_limit_ip issue)

lemma akeeps_complete: "akeeps I (completeLogin env phone purpose code ip)"
  unfolding completeLogin_def by (intro keeps_rules akeeps_limit akeeps_limit_ip check)

lemma akeeps_resolve: "akeeps I (resolveSession token)"
  unfolding resolveSession_def resolve_row_def by (intro keeps_rules slide)

lemma akeeps_revokes: "akeeps I (revokeSession token)" "akeeps I (revokeAllSessionsForUser u)"
  unfolding revokeSession_def revokeAllSessionsForUser_def by (intro keeps_rules revoke)+

lemma akeeps_verify: "akeeps I (verify_route env token body ip ua)"
  unfolding verify_route_def enter_store_def
  by (intro keeps_rules akeeps_complete create off_tables) (simp add: login_tables_def)

lemma akeeps_logout: "akeeps I (logout_route token everywhere)"
  unfolding logout_route_def by (intro keeps_rules akeeps_resolve akeeps_revokes)

lemma akeeps_request: "akeeps I (request_route env random phone ip)"
  unfolding request_route_def by (intro keeps_rules akeeps_startLogin)

lemma identity_keeps: "I pf \<Longrightarrow> I (exec_identity op pf)"
proof (cases op)
  case (IdTick t)
  assume "I pf"
  moreover have "I (pf\<lparr>pf_now := t\<rparr>) = I pf" by (rule same) (simp add: login_tables_def)
  ultimately show ?thesis using IdTick by simp
qed (simp_all add: akeepsD akeeps_startLogin akeeps_complete akeeps_request akeeps_verify create akeeps_resolve akeeps_revokes akeeps_logout)

end

sublocale login_invariant \<subseteq> logins: invariant_system exec_identity I
  by unfold_locales (rule identity_keeps)

section \<open>What the transactions leave behind\<close>

lemma new_id_run [simp]: "new_id pf = Inr (pf_uuidv7 pf (pf_drawn pf), pf\<lparr>pf_drawn := Suc (pf_drawn pf)\<rparr>)"
  by (simp add: new_id_def)

lemma upsert_user_frame:
  assumes "upsert_user phone pf = Inr (uid, pf')"
  shows "pf_challenges pf' = pf_challenges pf" "pf_sessions pf' = pf_sessions pf" "pf_members pf' = pf_members pf" "pf_tenants pf' = pf_tenants pf"
  using assms by (auto simp: upsert_user_def tbind_run split: option.splits if_splits)

definition consume :: "uuid \<Rightarrow> millis \<Rightarrow> challenge_row list \<Rightarrow> challenge_row list" where
  "consume cid now = upd (\<lambda>c. oc_id c = cid) (\<lambda>c. c\<lparr>oc_consumedAt := Some now\<rparr>)"

lemma check_code_Inr:
  assumes "check_code env phone purpose code pf = Inr (r, pf')"
  obtains c where "newest_challenge phone purpose pf = Some c" "pf_now pf < oc_expiresAt c"
    and "pf_challenges pf' = consume (oc_id c) (pf_now pf) (pf_challenges pf)" "pf_sessions pf' = pf_sessions pf"
    and "snd r = memberships_of pf' (fst r)"
proof -
  obtain c pf1 uid candidate where c: "newest_challenge phone purpose pf = Some c" "pf_now pf < oc_expiresAt c"
    and pf1: "pf1 = pf\<lparr>pf_challenges := consume (oc_id c) (pf_now pf) (pf_challenges pf)\<rparr>"
    and u: "upsert_user phone pf1 = Inr (uid, pf')" "r = (uid, memberships_of pf' uid)"
    using assms
    by (auto simp: check_code_def tbind_eq_Inr set_challenge_def consume_def split: option.splits if_splits sum.splits)
  show thesis using that[OF c] upsert_user_frame[OF u(1)] u(2) pf1 by simp
qed

lemma marked_ids: "map oc_id (upd P (\<lambda>c. c\<lparr>oc_consumedAt := Some t\<rparr>) cs) = map oc_id cs"
  by (rule map_upd) simp

lemma issue_code_Inr:
  assumes "issue_code env phone purpose code pf = Inr (x, pf')"
  obtains c where "pf_challenges pf' = upd (live_challenge phone purpose) (\<lambda>c. c\<lparr>oc_consumedAt := Some (pf_now pf)\<rparr>) (pf_challenges pf) @ [c]"
    and "oc_id c \<notin> oc_id ` set (pf_challenges pf)" "oc_phoneE164 c = phone" "oc_purpose c = purpose" "oc_attempts c = 0"
    and "oc_maxAttempts c = OTP_MAX_ATTEMPTS" "oc_consumedAt c = None" "pf_sessions pf' = pf_sessions pf"
    and "rbind (pepper env) (hashOtpCode phone (purpose_text purpose) code) = Inr (oc_codeHash c)"
    and "oc_expiresAt c = pf_now pf + OTP_TTL_SECONDS * 1000"
proof -
  define marked where "marked = upd (live_challenge phone purpose) (\<lambda>c. c\<lparr>oc_consumedAt := Some (pf_now pf)\<rparr>) (pf_challenges pf)"
  have ids: "list_ex (\<lambda>c. oc_id c = x) marked \<longleftrightarrow> x \<in> oc_id ` set (pf_challenges pf)" for x
  proof -
    have "oc_id ` set marked = oc_id ` set (pf_challenges pf)" unfolding marked_def set_map[symmetric] marked_ids ..
    moreover have "list_ex (\<lambda>c. oc_id c = x) marked \<longleftrightarrow> x \<in> oc_id ` set marked" by (auto simp: list_ex_iff)
    ultimately show ?thesis by simp
  qed
  obtain h where h: "rbind (pepper env) (hashOtpCode phone (purpose_text purpose) code) = Inr h" "pf_uuidv7 pf (pf_drawn pf) \<notin> oc_id ` set (pf_challenges pf)"
    and pf': "pf_sessions pf' = pf_sessions pf" "pf_challenges pf' = marked @
      [\<lparr>oc_id = pf_uuidv7 pf (pf_drawn pf), oc_phoneE164 = phone, oc_purpose = purpose, oc_codeHash = h, oc_attempts = 0,
        oc_maxAttempts = OTP_MAX_ATTEMPTS, oc_expiresAt = pf_now pf + OTP_TTL_SECONDS * 1000, oc_consumedAt = None, oc_createdAt = pf_now pf\<rparr>]"
    using assms by (auto simp: issue_code_def tbind_eq_Inr ids marked_def[symmetric] split: sum.splits if_splits)
  show thesis by (rule that[OF pf'(2)[unfolded marked_def]]) (use h pf'(1) in simp_all)
qed

section \<open>Codes\<close>

definition codes_ok :: "platform \<Rightarrow> bool" where
  "codes_ok pf \<longleftrightarrow> distinct (map oc_id (pf_challenges pf)) \<and>
     list_all (\<lambda>c. oc_attempts c = 0 \<and> oc_maxAttempts c = OTP_MAX_ATTEMPTS) (pf_challenges pf) \<and>
     (\<forall>phone purpose. length (filter (live_challenge phone purpose) (pf_challenges pf)) \<le> 1)"

lemma codes_same: "pf_challenges pf' = pf_challenges pf \<Longrightarrow> codes_ok pf' = codes_ok pf"
  by (simp add: codes_ok_def)

lemma newest_live: "newest_challenge phone purpose pf = Some c \<Longrightarrow> c \<in> set (pf_challenges pf) \<and> live_challenge phone purpose c"
  unfolding newest_challenge_def by (drule find_eq_Some) simp

lemma live_marked:
  "filter (live_challenge phone purpose) (upd P (\<lambda>c. c\<lparr>oc_consumedAt := Some t\<rparr>) cs) = filter (\<lambda>c. live_challenge phone purpose c \<and> \<not> P c) cs"
  by (induction cs) (auto simp: upd_def live_challenge_def)

lemma marked_ok:
  assumes "codes_ok pf" "pf_challenges pf' = upd P (\<lambda>c. c\<lparr>oc_consumedAt := Some t\<rparr>) (pf_challenges pf)"
  shows "codes_ok pf'"
proof -
  have counts: "list_all (\<lambda>c. oc_attempts c = 0 \<and> oc_maxAttempts c = OTP_MAX_ATTEMPTS) cs \<Longrightarrow>
      list_all (\<lambda>c. oc_attempts c = 0 \<and> oc_maxAttempts c = OTP_MAX_ATTEMPTS) (upd P (\<lambda>c. c\<lparr>oc_consumedAt := Some t\<rparr>) cs)" for cs
    by (induction cs) (simp_all add: upd_def)
  have fewer: "length (filter (\<lambda>c. live_challenge phone purpose c \<and> \<not> P c) cs) \<le> length (filter (live_challenge phone purpose) cs)" for phone purpose cs
    by (induction cs) simp_all
  have live: "length (filter (live_challenge phone purpose) (pf_challenges pf)) \<le> 1" for phone purpose using assms(1) by (simp add: codes_ok_def)
  show ?thesis unfolding codes_ok_def assms(2) live_marked marked_ids
    using assms(1) counts le_trans[OF fewer live] unfolding codes_ok_def by blast
qed

lemma issued_ok:
  assumes "codes_ok pf" "pf_challenges pf' = upd (live_challenge phone purpose) (\<lambda>c. c\<lparr>oc_consumedAt := Some t\<rparr>) (pf_challenges pf) @ [c]"
    and "oc_id c \<notin> oc_id ` set (pf_challenges pf)" "oc_phoneE164 c = phone" "oc_purpose c = purpose" "oc_attempts c = 0"
    and "oc_maxAttempts c = OTP_MAX_ATTEMPTS"
  shows "codes_ok pf'"
proof -
  let ?marked = "upd (live_challenge phone purpose) (\<lambda>c. c\<lparr>oc_consumedAt := Some t\<rparr>) (pf_challenges pf)"
  have ok: "codes_ok (pf\<lparr>pf_challenges := ?marked\<rparr>)" by (rule marked_ok[OF assms(1)]) simp
  have none: "filter (live_challenge phone purpose) ?marked = []" unfolding live_marked by (auto simp: filter_empty_conv)
  have "length (filter (live_challenge q r) (?marked @ [c])) \<le> 1" for q r
  proof (cases "q = phone \<and> r = purpose")
    case True
    then show ?thesis using none by simp
  next
    case False
    then have "\<not> live_challenge q r c" using assms(4,5) by (auto simp: live_challenge_def)
    then show ?thesis using ok by (simp add: codes_ok_def)
  qed
  moreover have "distinct (map oc_id (?marked @ [c]))" using assms(1,3) by (simp add: marked_ids codes_ok_def)
  moreover have "list_all (\<lambda>c. oc_attempts c = 0 \<and> oc_maxAttempts c = OTP_MAX_ATTEMPTS) (?marked @ [c])"
    using ok assms(6,7) by (simp add: codes_ok_def)
  ultimately show ?thesis unfolding codes_ok_def assms(2) by blast
qed

lemma akeeps_create_off: "(\<And>pf pf'. pf_challenges pf' = pf_challenges pf \<Longrightarrow> I pf' = I pf) \<Longrightarrow> akeeps I (createSession env token u t ua ip)"
proof -
  assume off: "\<And>pf pf'. pf_challenges pf' = pf_challenges pf \<Longrightarrow> I pf' = I pf"
  have "pf_challenges (snd (createSession env token u t ua ip pf)) = pf_challenges pf" for pf
    by (simp add: createSession_def Let_def abind_def commit_def tbind_run areturn_def split: if_split)
  then show ?thesis unfolding akeeps_def using off by blast
qed

interpretation codes: login_invariant codes_ok
proof
  show "codes_ok pf' = codes_ok pf" if "login_tables pf' = login_tables pf" for pf pf'
    using that by (intro codes_same) (simp add: login_tables_def)
  show "keeps codes_ok (issue_code env phone purpose code)" for env phone purpose code
  proof (rule keepsI)
    fix pf x pf' assume ok: "codes_ok pf" and run: "issue_code env phone purpose code pf = Inr (x, pf')"
    show "codes_ok pf'" by (rule issue_code_Inr[OF run], rule issued_ok[OF ok])
  qed
  show "keeps codes_ok (check_code env phone purpose code)" for env phone purpose code
  proof (rule keepsI)
    fix pf x pf' assume ok: "codes_ok pf" and run: "check_code env phone purpose code pf = Inr (x, pf')"
    show "codes_ok pf'" by (rule check_code_Inr[OF run], rule marked_ok[OF ok]) (simp add: consume_def)
  qed
  show "akeeps codes_ok (createSession env token u t ua ip)" for env token u t ua ip
    by (rule akeeps_create_off) (rule codes_same)
qed (rule keeps_write, simp only: codes_ok_def, simp)+

text \<open>What a login leaves: nothing that is still live for that number.\<close>

lemma single_filter: "length (filter P xs) \<le> 1 \<Longrightarrow> x \<in> set xs \<Longrightarrow> P x \<Longrightarrow> y \<in> set xs \<Longrightarrow> P y \<Longrightarrow> x = y"
proof -
  assume "length (filter P xs) \<le> 1" "x \<in> set xs" "P x" "y \<in> set xs" "P y"
  moreover from this have "x \<in> set (filter P xs)" "y \<in> set (filter P xs)" by simp_all
  ultimately show "x = y" by (cases "filter P xs") auto
qed

lemma consumed_none_left:
  assumes "codes_ok pf" "newest_challenge phone purpose pf = Some c"
    and "pf_challenges pf' = consume (oc_id c) t (pf_challenges pf)"
  shows "newest_challenge phone purpose pf' = None"
proof -
  note c = newest_live[OF assms(2)]
  have "d = c" if "d \<in> set (pf_challenges pf)" "live_challenge phone purpose d" for d
    using single_filter[of "live_challenge phone purpose" "pf_challenges pf" d c] that c assms(1) by (auto simp: codes_ok_def)
  then have "filter (live_challenge phone purpose) (pf_challenges pf') = []"
    unfolding assms(3) consume_def live_marked by (auto simp: filter_empty_conv)
  then show ?thesis by (simp add: newest_challenge_def)
qed

lemma limit_rate_frame:
  "limit_rate rule subject pf = (r, pf') \<Longrightarrow> pf_challenges pf' = pf_challenges pf \<and> pf_sessions pf' = pf_sessions pf \<and> pf_now pf' = pf_now pf"
  by (auto simp: limit_rate_def split: prod.splits option.splits)

lemma limit_ip_frame:
  "limit_ip rule ip pf = (r, pf') \<Longrightarrow> pf_challenges pf' = pf_challenges pf \<and> pf_sessions pf' = pf_sessions pf \<and> pf_now pf' = pf_now pf"
  by (auto simp: limit_ip_def areturn_def dest: limit_rate_frame split: option.splits if_splits)

lemma limit_rate_keeps:
  "limit_rate rule subject pf = (r, pf') \<Longrightarrow> pf_challenges pf' = pf_challenges pf \<and> pf_now pf' = pf_now pf \<and>
     pf_users pf' = pf_users pf \<and> pf_uuidv7 pf' = pf_uuidv7 pf \<and> pf_drawn pf' = pf_drawn pf"
  by (auto simp: limit_rate_def split: prod.splits option.splits)

lemma limit_ip_keeps:
  "limit_ip rule ip pf = (r, pf') \<Longrightarrow> pf_challenges pf' = pf_challenges pf \<and> pf_now pf' = pf_now pf \<and>
     pf_users pf' = pf_users pf \<and> pf_uuidv7 pf' = pf_uuidv7 pf \<and> pf_drawn pf' = pf_drawn pf"
  by (cases ip) (auto simp: limit_ip_def areturn_def dest: limit_rate_keeps split: if_splits)

lemma limit_rate_refuses: "limit_rate rule subject pf = (Inl e, pf') \<Longrightarrow> e = rate_limited" for e
  by (auto simp: limit_rate_def split: prod.splits option.splits)

lemma limit_ip_refuses: "limit_ip rule ip pf = (Inl e, pf') \<Longrightarrow> e = rate_limited" for e
  by (cases ip) (auto simp: limit_ip_def areturn_def dest: limit_rate_refuses split: if_splits)

text \<open>A call of \<open>completeLogin\<close> that is not turned away by a limit is the check of the code.\<close>

lemma completeLogin_cases:
  assumes "completeLogin env phone purpose code ip pf = (r, pf')"
  obtains (refused) e where "r = Inl e" "pf_challenges pf' = pf_challenges pf"
  | (accepted) p pf1 where "normalisePhone phone = Some p" "pf_challenges pf1 = pf_challenges pf" "pf_now pf1 = pf_now pf"
      "check_code env p purpose code pf1 = Inr (projr r, pf')" "\<not> isl r"
proof (cases "normalisePhone phone")
  case None
  then show thesis using assms refused by (auto simp: completeLogin_def athrow_def)
next
  case (Some p)
  obtain r1 pf1 where l1: "limit_rate verifyPerPhone p pf = (r1, pf1)" by fastforce
  note f1 = limit_rate_frame[OF l1]
  show thesis
  proof (cases r1)
    case (Inl e)
    then show thesis using assms refused f1 by (auto simp: completeLogin_def Some abind_def l1)
  next
    case (Inr u)
    obtain r2 pf2 where l2: "limit_ip verifyPerIp ip pf1 = (r2, pf2)" by fastforce
    note f2 = limit_ip_frame[OF l2]
    show thesis
    proof (cases r2)
      case (Inl e)
      then show thesis using assms refused f1 f2 Inr by (auto simp: completeLogin_def Some abind_def l1 l2)
    next
      case r2: (Inr u2)
      then have run: "commit (check_code env p purpose code) pf2 = (r, pf')"
        using assms Inr by (simp add: completeLogin_def Some abind_def l1 l2)
      show thesis
      proof (cases "check_code env p purpose code pf2")
        case (Inl e)
        then show thesis using run refused f1 f2 by (auto simp: commit_def)
      next
        case (Inr res)
        then show thesis using run accepted[OF Some, of pf2] f1 f2 by (cases res) (auto simp: commit_def)
      qed
    qed
  qed
qed

lemma completed_login:
  assumes "codes_ok pf" "completeLogin env phone purpose code ip pf = (Inr x, pf')"
  obtains p where "normalisePhone phone = Some p" "newest_challenge p purpose pf' = None" "codes_ok pf'"
  using assms(2)
proof (cases rule: completeLogin_cases)
  case (accepted p pf1)
  obtain c where c: "newest_challenge p purpose pf1 = Some c" "pf_challenges pf' = consume (oc_id c) (pf_now pf1) (pf_challenges pf1)"
    by (rule check_code_Inr[OF accepted(4)])
  have "codes_ok pf1" using codes_same[OF accepted(2)] assms(1) by simp
  then have "newest_challenge p purpose pf' = None" using c by (rule consumed_none_left)
  moreover have "codes_ok pf'" using akeepsD[OF codes.akeeps_complete assms(1), of env phone purpose code ip] assms(2) by simp
  ultimately show thesis by (rule that[OF accepted(1)])
qed simp

text \<open>With nothing live every code is refused.\<close>

lemma no_code_no_login:
  assumes "normalisePhone phone = Some p" "newest_challenge p purpose pf = None"
  shows "isl (fst (completeLogin env phone purpose code ip pf))"
proof (cases "completeLogin env phone purpose code ip pf")
  case (Pair r pf')
  then show ?thesis
  proof (cases rule: completeLogin_cases)
    case (accepted q pf1)
    have "newest_challenge p purpose pf1 = None" using assms(2) accepted(2) by (simp add: newest_challenge_def)
    then show ?thesis using accepted(1,4) assms(1) by (simp add: check_code_def tbind_run)
  qed (simp add: Pair)
qed

text \<open>
  C36.  Wrong codes cost nothing.  The attempt that a wrong code is meant to use up is written in the
  transaction that the refusal rolls back, so along every sequence of logins, in any interleaving,
  every challenge stands at zero attempts and a failed login leaves all challenges as they were: the
  limit of five attempts never turns anyone away.
\<close>

theorem wrong_codes_not_counted:
  assumes "codes_ok pf" "pf' = run_ops exec_identity ops pf"
  shows "list_all (\<lambda>c. oc_attempts c = 0 \<and> oc_attempts c < oc_maxAttempts c) (pf_challenges pf') \<and>
    (case completeLogin env phone purpose code ip pf' of
       (Inl e, pf'') \<Rightarrow> pf_challenges pf'' = pf_challenges pf'
     | (Inr x, pf'') \<Rightarrow> True)"
proof -
  have ok: "codes_ok pf'" unfolding assms(2) by (rule codes.logins.run_inv[OF assms(1)])
  then have "list_all (\<lambda>c. oc_attempts c = 0 \<and> oc_attempts c < oc_maxAttempts c) (pf_challenges pf')"
    by (auto simp: codes_ok_def list_all_iff OTP_MAX_ATTEMPTS_def)
  moreover have "pf_challenges pf'' = pf_challenges pf'" if "completeLogin env phone purpose code ip pf' = (Inl e, pf'')" for e pf''
    using that by (cases rule: completeLogin_cases) simp_all
  ultimately show ?thesis by (auto split: prod.splits sum.splits)
qed


text \<open>
  The store chooser is a dead end.  When the console answers a login with the question which
  store to open, sending the same code again with a store, which is what the login page does, always
  fails: the first request has used the code up.
\<close>

theorem store_choice_fails:
  assumes "codes_ok pf" "verify_route env token body ip ua (run_ops exec_identity ops pf) = (Inr (needs_tenant_choice ms), pf')"
  shows "\<exists>e. fst (verify_route env token' (body\<lparr>vb_tenantId := Some t\<rparr>) ip' ua' (pf'\<lparr>pf_now := later\<rparr>)) = Inr (verify_failed e)"
proof -
  let ?pf = "run_ops exec_identity ops pf"
  have ok: "codes_ok ?pf" by (rule codes.logins.run_inv[OF assms(1)])
  obtain r pf1 where login: "completeLogin env (vb_phone body) console_login (vb_code body) ip ?pf = (r, pf1)" by fastforce
  have body: "body_ok body" using assms(2) by (simp add: verify_route_def areturn_def split: if_splits)
  have entered: "enter_store env token u m ip ua s \<noteq> (Inr (needs_tenant_choice ms), s')" for u m s s'
    by (auto simp: enter_store_def abind_def areturn_def split: prod.splits sum.splits)
  have "\<exists>x. r = Inr x \<and> pf' = pf1"
    using assms(2) body entered
    by (cases r) (auto simp: verify_route_def acatch_def abind_def areturn_def login split: prod.splits sum.splits if_splits option.splits)
  then obtain x where x: "completeLogin env (vb_phone body) console_login (vb_code body) ip ?pf = (Inr x, pf')" using login by blast
  obtain p where p: "normalisePhone (vb_phone body) = Some p" "newest_challenge p console_login pf' = None" by (rule completed_login[OF ok x])
  have "isl (fst (completeLogin env (vb_phone body) console_login (vb_code body) ip' (pf'\<lparr>pf_now := later\<rparr>)))"
    by (rule no_code_no_login[OF p(1)]) (use p(2) in \<open>simp add: newest_challenge_def\<close>)
  then show ?thesis using body
    by (auto simp: verify_route_def body_ok_def acatch_def abind_def areturn_def isl_def split: prod.splits)
qed

text \<open>The code that was sent is the one that is accepted.\<close>

lemma startLogin_Inr:
  assumes "startLogin env random phone purpose ip pf = (Inr ttl, pf1)"
  obtains p pf0 where "normalisePhone phone = Some p" "pf_now pf0 = pf_now pf"
    and "issue_code env p purpose (generateOtpCode random) pf0 = Inr ((), pf1)"
proof -
  obtain p where p: "normalisePhone phone = Some p" using assms by (auto simp: startLogin_def athrow_def split: option.splits)
  obtain pf2 where l1: "limit_rate perPhoneBurst p pf = (Inr (), pf2)"
    using assms by (auto simp: startLogin_def p abind_def split: prod.splits sum.splits)
  obtain pf3 where l2: "limit_rate perPhone p pf2 = (Inr (), pf3)"
    using assms by (auto simp: startLogin_def p abind_def l1 split: prod.splits sum.splits)
  obtain pf4 where l3: "limit_ip perIp ip pf3 = (Inr (), pf4)"
    using assms by (auto simp: startLogin_def p abind_def l1 l2 split: prod.splits sum.splits)
  have now: "pf_now pf4 = pf_now pf" using limit_rate_frame[OF l1] limit_rate_frame[OF l2] limit_ip_frame[OF l3] by simp
  have "issue_code env p purpose (generateOtpCode random) pf4 = Inr ((), pf1)"
    using assms by (auto simp: startLogin_def p abind_def l1 l2 l3 Let_def commit_def areturn_def athrow_def split: prod.splits sum.splits option.splits)
  then show thesis using that p now by blast
qed

lemma hash_verifies: "rbind r (hashOtpCode phone purpose code) = Inr h \<Longrightarrow> verifyOtpHash h h"
  by (cases r) (auto simp: hashOtpCode_def rbind_def split: if_splits)

lemma upsert_user_Inr:
  assumes "phone_e164 phone" "list_all (\<lambda>u. us_id u \<noteq> pf_uuidv7 pf (pf_drawn pf)) (pf_users pf)"
  obtains u pf' where "upsert_user phone pf = Inr (us_id u, pf')" "u \<in> set (pf_users pf')" "us_phoneE164 u = phone"
proof (cases "find (\<lambda>u. us_phoneE164 u = phone) (pf_users pf)")
  case None
  have "\<not> list_ex (\<lambda>u. us_id u = pf_uuidv7 pf (pf_drawn pf)) (pf_users pf)" using assms(2) by (auto simp: list_all_iff list_ex_iff)
  then show thesis using that[of "\<lparr>us_id = pf_uuidv7 pf (pf_drawn pf), us_phoneE164 = phone, us_name = None, us_lastLoginAt = Some (pf_now pf)\<rparr>"]
    assms(1) None by (simp add: upsert_user_def tbind_run)
next
  case (Some u)
  note u = find_eq_Some[OF Some]
  let ?f = "\<lambda>u. u\<lparr>us_lastLoginAt := Some (pf_now pf)\<rparr>"
  have "?f u \<in> set (upd (\<lambda>u. us_phoneE164 u = phone) ?f (pf_users pf))" using u by (auto simp: upd_def)
  then show thesis using that[of "?f u"] u assms(1) Some by (simp add: upsert_user_def tbind_run)
qed

lemma right_code_checked:
  assumes "issue_code env p purpose code pf0 = Inr ((), pf1)" "trim code = code" "phone_e164 p"
    and "pf_challenges pf2 = pf_challenges pf1" "pf_now pf2 < pf_now pf0 + OTP_TTL_SECONDS * 1000"
    and "list_all (\<lambda>u. us_id u \<noteq> pf_uuidv7 pf2 (pf_drawn pf2)) (pf_users pf2)"
  shows "\<exists>u pf3. check_code env p purpose code pf2 = Inr ((us_id u, memberships_of pf3 (us_id u)), pf3) \<and> u \<in> set (pf_users pf3) \<and> us_phoneE164 u = p"
proof -
  obtain c where c: "pf_challenges pf1 = upd (live_challenge p purpose) (\<lambda>c. c\<lparr>oc_consumedAt := Some (pf_now pf0)\<rparr>) (pf_challenges pf0) @ [c]"
    "live_challenge p purpose c" "oc_attempts c < oc_maxAttempts c" "oc_expiresAt c = pf_now pf0 + OTP_TTL_SECONDS * 1000"
    and h: "rbind (pepper env) (hashOtpCode p (purpose_text purpose) code) = Inr (oc_codeHash c)"
    by (rule issue_code_Inr[OF assms(1)]) (simp add: live_challenge_def OTP_MAX_ATTEMPTS_def)
  have "filter (live_challenge p purpose) (pf_challenges pf2) = [c]"
    unfolding assms(4) c(1) filter_append live_marked using c(2) by simp
  then have newest: "newest_challenge p purpose pf2 = Some c" by (simp add: newest_challenge_def)
  let ?pf = "pf2\<lparr>pf_challenges := upd (\<lambda>d. oc_id d = oc_id c) (\<lambda>c. c\<lparr>oc_consumedAt := Some (pf_now pf2)\<rparr>) (pf_challenges pf2)\<rparr>"
  obtain u pf3 where u: "upsert_user p ?pf = Inr (us_id u, pf3)" "u \<in> set (pf_users pf3)" "us_phoneE164 u = p"
    by (rule upsert_user_Inr[OF assms(3), of ?pf]) (use assms(6) in simp_all)
  have "check_code env p purpose code pf2 = Inr ((us_id u, memberships_of pf3 (us_id u)), pf3)"
    using assms(5) c(3,4) h hash_verifies[OF h] u(1)
    by (simp add: check_code_def tbind_run newest assms(2) set_challenge_def)
  then show ?thesis using u(2,3) by blast
qed


section \<open>Sessions\<close>

text \<open>There is a session with this hash, and every one with it is so.\<close>

definition token_rows :: "string \<Rightarrow> (session_row \<Rightarrow> bool) \<Rightarrow> platform \<Rightarrow> bool" where
  "token_rows h Q pf \<longleftrightarrow> list_ex (\<lambda>s. ss_tokenHash s = h) (pf_sessions pf) \<and>
     list_all (\<lambda>s. ss_tokenHash s \<noteq> h \<or> Q s) (pf_sessions pf)"

lemma token_rows_same: "pf_sessions pf' = pf_sessions pf \<Longrightarrow> token_rows h Q pf' = token_rows h Q pf"
  by (simp add: token_rows_def)

lemma token_rows_upd:
  assumes "\<And>s. ss_tokenHash (f s) = ss_tokenHash s" "\<And>s. Q s \<Longrightarrow> Q (f s)" "token_rows h Q pf" "pf_sessions pf' = upd P f (pf_sessions pf)"
  shows "token_rows h Q pf'"
proof -
  have "list_ex (\<lambda>s. ss_tokenHash s = h) ss \<Longrightarrow> list_ex (\<lambda>s. ss_tokenHash s = h) (upd P f ss)" for ss
    using assms(1) by (induction ss) auto
  moreover have "list_all (\<lambda>s. ss_tokenHash s \<noteq> h \<or> Q s) ss \<Longrightarrow> list_all (\<lambda>s. ss_tokenHash s \<noteq> h \<or> Q s) (upd P f ss)" for ss
    using assms(1,2) by (induction ss) auto
  ultimately show ?thesis using assms(3,4) by (simp add: token_rows_def)
qed

text \<open>A new session has a hash of its own.\<close>

lemma createSession_frame:
  obtains (failed) e where "createSession env token u t ua ip pf = (Inl e, pf)"
  | (created) s where "fst (createSession env token u t ua ip pf) = Inr (token, pf_now pf + ABSOLUTE_TTL_MS)"
      "pf_sessions (snd (createSession env token u t ua ip pf)) = pf_sessions pf @ [s]"
      "\<not> list_ex (\<lambda>r. ss_tokenHash r = hashToken token) (pf_sessions pf)" "ss_tokenHash s = hashToken token"
      "ss_userId s = u" "ss_tenantId s = Some t" "ss_expiresAt s = pf_now pf + ABSOLUTE_TTL_MS"
proof -
  let ?sid = "list_ex (\<lambda>s. ss_id s = pf_uuidv7 pf (pf_drawn pf)) (pf_sessions pf)"
  let ?dup = "list_ex (\<lambda>r. ss_tokenHash r = hashToken token) (pf_sessions pf)"
  note run = createSession_def Let_def abind_def commit_def tbind_run areturn_def
  consider "?sid" | "\<not> ?sid" "?dup" | "\<not> ?sid" "\<not> ?dup" by blast
  then show thesis
  proof cases
    case 1
    then have "createSession env token u t ua ip pf = (Inl (uniqueViolation ''sessions_pkey''), pf)" by (simp add: run)
    then show thesis by (rule failed)
  next
    case 2
    then have "createSession env token u t ua ip pf = (Inl (uniqueViolation ''sessions_token_hash_key''), pf)" by (simp add: run)
    then show thesis by (rule failed)
  next
    case 3
    show thesis by (rule created, (use 3 in \<open>simp add: run\<close>)+)
  qed
qed

lemma token_rows_created:
  assumes "token_rows h Q pf"
  shows "token_rows h Q (snd (createSession env token u t ua ip pf))"
proof (rule createSession_frame[of env token u t ua ip pf])
  fix e assume "createSession env token u t ua ip pf = (Inl e, pf)"
  then show ?thesis using assms by simp
next
  fix s assume new: "pf_sessions (snd (createSession env token u t ua ip pf)) = pf_sessions pf @ [s]"
    "\<not> list_ex (\<lambda>r. ss_tokenHash r = hashToken token) (pf_sessions pf)" "ss_tokenHash s = hashToken token"
  then have "ss_tokenHash s \<noteq> h" using assms by (auto simp: token_rows_def)
  then show ?thesis using assms by (simp add: token_rows_def new(1))
qed

lemma token_rows_invariant:
  assumes slide: "\<And>s n. Q s \<Longrightarrow> Q (s\<lparr>ss_idleExpiresAt := n\<rparr>)" and revoke: "\<And>s n. Q s \<Longrightarrow> Q (s\<lparr>ss_revokedAt := Some n\<rparr>)"
  shows "login_invariant (token_rows h Q)"
proof
  show "token_rows h Q pf' = token_rows h Q pf" if "login_tables pf' = login_tables pf" for pf pf'
    using that by (intro token_rows_same) (simp add: login_tables_def)
  show "keeps (token_rows h Q) (issue_code env phone purpose code)" for env phone purpose code
  proof (rule keepsI)
    fix pf x pf' assume ok: "token_rows h Q pf" and run: "issue_code env phone purpose code pf = Inr (x, pf')"
    show "token_rows h Q pf'" by (rule issue_code_Inr[OF run]) (use ok in \<open>simp add: token_rows_def\<close>)
  qed
  show "keeps (token_rows h Q) (check_code env phone purpose code)" for env phone purpose code
  proof (rule keepsI)
    fix pf x pf' assume ok: "token_rows h Q pf" and run: "check_code env phone purpose code pf = Inr (x, pf')"
    show "token_rows h Q pf'" by (rule check_code_Inr[OF run]) (use ok in \<open>simp add: token_rows_def\<close>)
  qed
  show "akeeps (token_rows h Q) (createSession env token u t ua ip)" for env token u t ua ip
    by (simp add: akeeps_def token_rows_created)
  show "keeps (token_rows h Q) (twrite (\<lambda>pf. pf\<lparr>pf_sessions :=
      upd (\<lambda>r. ss_id r = sid \<and> ss_revokedAt r = None) (\<lambda>r. r\<lparr>ss_idleExpiresAt := n\<rparr>) (pf_sessions pf)\<rparr>))" for sid n
    by (rule keeps_write, rule token_rows_upd[where f = "\<lambda>r. r\<lparr>ss_idleExpiresAt := n\<rparr>"]) (simp_all add: slide)
  show "keeps (token_rows h Q) (twrite (\<lambda>pf. pf\<lparr>pf_sessions := upd P (\<lambda>s. s\<lparr>ss_revokedAt := Some (pf_now pf)\<rparr>) (pf_sessions pf)\<rparr>))" for P
  proof (rule keeps_write)
    fix pf assume ok: "token_rows h Q pf"
    show "token_rows h Q (pf\<lparr>pf_sessions := upd P (\<lambda>s. s\<lparr>ss_revokedAt := Some (pf_now pf)\<rparr>) (pf_sessions pf)\<rparr>)"
      by (rule token_rows_upd[OF _ _ ok, where f = "\<lambda>s. s\<lparr>ss_revokedAt := Some (pf_now pf)\<rparr>" and P = P]) (simp_all add: revoke)
  qed
qed

interpretation revoked: login_invariant "token_rows h (\<lambda>s. ss_revokedAt s \<noteq> None)" for h
  by (rule token_rows_invariant) simp_all

interpretation issued: login_invariant "token_rows h (\<lambda>s. ss_userId s = u \<and> ss_tenantId s = Some t \<and> ss_expiresAt s = e)" for h u t e
  by (rule token_rows_invariant) simp_all

text \<open>Who a token resolves to comes from its row, and from what the tables say now.\<close>

lemma resolveSession_Some:
  assumes "resolveSession (Some token) pf = (Inr (Some a), pf')"
  obtains s m where "s \<in> set (pf_sessions pf)" "ss_tokenHash s = hashToken token" "ss_revokedAt s = None"
    and "pf_now pf < ss_expiresAt s" "pf_now pf < ss_idleExpiresAt s" "ac_userId a = ss_userId s" "ss_tenantId s = Some (ac_tenantId a)"
    and "m \<in> set (pf_members pf)" "tm_userId m = ss_userId s" "tm_tenantId m = ac_tenantId a" "tm_revokedAt m = None"
    and "ac_role a = tm_role m" "ac_permissions a = effectivePermissions (tm_role m) (tm_overrides m)"
proof -
  obtain s where find: "find (\<lambda>s. ss_tokenHash s = hashToken token) (pf_sessions pf) = Some s"
    using assms by (auto simp: resolveSession_def areturn_def commit_def tbind_run split: if_splits option.splits)
  obtain u where "resolve_row s u (hashToken token) pf = Inr (Some a, pf')"
    using assms by (auto simp: resolveSession_def areturn_def commit_def tbind_run find split: if_splits option.splits sum.splits)
  then obtain m where m: "member_of pf s = Some m" "tm_revokedAt m = None" "ss_revokedAt s = None" "pf_now pf < ss_expiresAt s"
    "pf_now pf < ss_idleExpiresAt s" "ss_tenantId s = Some (ac_tenantId a)" "ac_userId a = ss_userId s" "ac_role a = tm_role m"
    "ac_permissions a = effectivePermissions (tm_role m) (tm_overrides m)"
    by (auto simp: resolve_row_def tbind_run split: if_splits option.splits)
  show thesis
    using that[of s m] m find_eq_Some[OF find] find_eq_Some[OF m(1)[unfolded member_of_def]] by auto
qed

text \<open>
  C37.  Signed out is out for good.  Once a token was revoked, by itself or with all the sessions of its
  user, no sequence of logins, sign-outs and requests makes it resolve again.
\<close>

theorem signed_out_stays_out:
  assumes "list_ex (\<lambda>s. ss_tokenHash s = hashToken token) (pf_sessions pf)"
    and "list_all (\<lambda>s. ss_tokenHash s \<noteq> hashToken token \<or> ss_userId s = u) (pf_sessions pf)"
    and "pf' = run_ops exec_identity ops (exec_identity (if everywhere then IdRevokeAll u else IdRevoke token) pf)"
  shows "fst (resolveSession (Some token) pf') \<noteq> Inr (Some a)"
proof
  let ?h = "hashToken token"
  let ?pf = "exec_identity (if everywhere then IdRevokeAll u else IdRevoke token) pf"
  have rows: "pf_sessions ?pf = upd (\<lambda>s. if everywhere then ss_userId s = u \<and> ss_revokedAt s = None else ss_tokenHash s = ?h)
      (\<lambda>s. s\<lparr>ss_revokedAt := Some (pf_now pf)\<rparr>) (pf_sessions pf)"
    by (simp add: revokeAllSessionsForUser_def revokeSession_def commit_def tbind_run)
  have some: "list_ex (\<lambda>s. ss_tokenHash s = ?h) ss \<Longrightarrow> list_ex (\<lambda>s. ss_tokenHash s = ?h) (upd P (\<lambda>s. s\<lparr>ss_revokedAt := n\<rparr>) ss)" for P n ss
    by (induction ss) auto
  have revoked: "list_all (\<lambda>s. ss_tokenHash s \<noteq> ?h \<or> ss_userId s = u) ss \<Longrightarrow>
      list_all (\<lambda>s. ss_tokenHash s \<noteq> ?h \<or> ss_revokedAt s \<noteq> None)
        (upd (\<lambda>s. if everywhere then ss_userId s = u \<and> ss_revokedAt s = None else ss_tokenHash s = ?h) (\<lambda>s. s\<lparr>ss_revokedAt := Some n\<rparr>) ss)" for n ss
    by (induction ss) auto
  have "token_rows ?h (\<lambda>s. ss_revokedAt s \<noteq> None) ?pf" unfolding token_rows_def rows using some[OF assms(1)] revoked[OF assms(2)] by blast
  then have out: "token_rows ?h (\<lambda>s. ss_revokedAt s \<noteq> None) pf'" unfolding assms(3) by (rule revoked.logins.run_inv)
  assume "fst (resolveSession (Some token) pf') = Inr (Some a)"
  then obtain pf'' where "resolveSession (Some token) pf' = (Inr (Some a), pf'')" by (metis prod.collapse)
  then show False by (rule resolveSession_Some) (use out in \<open>auto simp: token_rows_def list_all_iff\<close>)
qed

text \<open>
  C38.  A session is what it was issued for, and never longer than fourteen days.  Whenever the token of
  a session resolves, after any sequence of operations, it resolves to the user and the store the
  session was made for, before its fourteen days are over, and with the role and permissions the
  membership in that store has at that moment, a membership that is not revoked.
\<close>

theorem sessions_are_bounded:
  assumes "createSession env token u t ua ip pf = (Inr (token', expiresAt), pf1)"
    and "pf2 = run_ops exec_identity ops pf1" "resolveSession (Some token) pf2 = (Inr (Some a), pf3)"
  shows "token' = token \<and> ac_userId a = u \<and> ac_tenantId a = t \<and> pf_now pf2 < expiresAt \<and> expiresAt = pf_now pf + 14 * 86400000 \<and>
    list_ex (\<lambda>m. tm_userId m = u \<and> tm_tenantId m = t \<and> tm_revokedAt m = None \<and>
      ac_permissions a = effectivePermissions (tm_role m) (tm_overrides m)) (pf_members pf2)"
proof -
  let ?I = "token_rows (hashToken token) (\<lambda>s. ss_userId s = u \<and> ss_tenantId s = Some t \<and> ss_expiresAt s = pf_now pf + ABSOLUTE_TTL_MS)"
  have made: "token' = token" "expiresAt = pf_now pf + ABSOLUTE_TTL_MS" "?I pf1"
    by (rule createSession_frame[of env token u t ua ip pf]; use assms(1) in \<open>auto simp: token_rows_def list_ex_iff list_all_iff\<close>)+
  have "?I pf2" unfolding assms(2) by (rule issued.logins.run_inv[OF made(3)])
  with assms(3) show ?thesis
    by (elim resolveSession_Some) (auto simp: token_rows_def list_all_iff list_ex_iff made ABSOLUTE_TTL_MS_def)
qed


section \<open>A sign-in, step by step\<close>

text \<open>One member of two stores asks for a code and answers with it.\<close>

definition sample_login :: login_env where
  "sample_login = \<lparr>le_pepper = Some (replicate 32 (CHR ''p'')), le_sessionSecret = ''secret'', le_deliver = (\<lambda>phone code purpose. None)\<rparr>"

definition sample_platform :: platform where
  "sample_platform = \<lparr>pf_now = 1000000, pf_uuidv7 = (\<lambda>n. 100 + n), pf_drawn = 0, pf_limits = (\<lambda>k. []), pf_challenges = [],
     pf_users = [\<lparr>us_id = 7, us_phoneE164 = ''+919876543210'', us_name = None, us_lastLoginAt = None\<rparr>],
     pf_members = [\<lparr>tm_tenantId = 1, tm_userId = 7, tm_role = owner, tm_overrides = [], tm_revokedAt = None\<rparr>,
       \<lparr>tm_tenantId = 2, tm_userId = 7, tm_role = manager, tm_overrides = [], tm_revokedAt = None\<rparr>],
     pf_tenants = [\<lparr>pt_id = 1, pt_slug = ''one'', pt_displayName = ''One'', pt_status = tenant_active, pt_searchIndexing = index_auto, pt_deletedAt = None\<rparr>,
       \<lparr>pt_id = 2, pt_slug = ''two'', pt_displayName = ''Two'', pt_status = tenant_trial, pt_searchIndexing = noindex, pt_deletedAt = None\<rparr>],
     pf_sessions = [], pf_audit = []\<rparr>"

definition asked :: platform where
  "asked = snd (startLogin sample_login 123456 ''98765 43210'' console_login None sample_platform)"

lemma sample_code: "generateOtpCode 123456 = ''123456''"
  by (simp add: generateOtpCode_def OTP_LENGTH_def pad_start_def show_nat.simps digit_char_def char_of_def bit_0)

lemma sample_phone: "normalisePhone ''98765 43210'' = Some ''+919876543210''"
  by (simp add: normalisePhone_def normal_form_def strip_trunk_def indian_mobile_def is_digit_def Let_def)

lemma asked_run:
  "startLogin sample_login 123456 ''98765 43210'' console_login None sample_platform = (Inr 300, asked)"
  "pf_challenges asked = [\<lparr>oc_id = 100, oc_phoneE164 = ''+919876543210'', oc_purpose = console_login,
     oc_codeHash = hmac_sha256 (replicate 32 (CHR ''p'')) (''+919876543210'' @ '':'' @ ''console_login'' @ '':'' @ ''123456''), oc_attempts = 0, oc_maxAttempts = OTP_MAX_ATTEMPTS,
     oc_expiresAt = 1300000, oc_consumedAt = None, oc_createdAt = 1000000\<rparr>]"
  "pf_limits asked (platformKey [''rl'', ''otp:verify:phone'', ''+919876543210'']) = []"
  "pf_users asked = pf_users sample_platform" "pf_members asked = pf_members sample_platform"
  "pf_tenants asked = pf_tenants sample_platform" "pf_now asked = 1000000" "pf_uuidv7 asked = (\<lambda>n. 100 + n)" "pf_drawn asked = 1" "pf_sessions asked = []"
  by (simp_all add: asked_def startLogin_def sample_phone abind_def limit_rate_def consumeRateLimit_def limit_ip_def areturn_def
    issue_code_def tbind_run commit_def sample_platform_def sample_login_def Let_def sample_code hashOtpCode_def pepper_def
    perPhoneBurst_def perPhone_def platformKey_def OTP_TTL_SECONDS_def rbind_def upd_def)


lemma signed_in_run:
  "fst (completeLogin sample_login ''+91 98765-43210'' console_login ''123456'' None asked) =
     Inr (7, [\<lparr>ms_tenantId = 1, ms_tenantSlug = ''one'', ms_tenantName = ''One'', ms_role = owner\<rparr>,
              \<lparr>ms_tenantId = 2, ms_tenantSlug = ''two'', ms_tenantName = ''Two'', ms_role = manager\<rparr>])"
proof -
  have phone: "normalisePhone ''+91 98765-43210'' = Some ''+919876543210''"
    by (simp add: normalisePhone_def normal_form_def e164_digits_def is_digit_def)
  have trimmed: "trim ''123456'' = ''123456''" by code_simp
  have e164: "phone_e164 ''+919876543210''" by code_simp
  have rl: "limit_rate verifyPerPhone ''+919876543210'' asked = (Inr (), asked\<lparr>pf_limits := (pf_limits asked)(platformKey [''rl'', ''otp:verify:phone'', ''+919876543210''] := [1000000])\<rparr>)"
    by (simp add: limit_rate_def consumeRateLimit_def Let_def verifyPerPhone_def asked_run)
  show ?thesis
    by (simp add: completeLogin_def phone abind_def rl limit_ip_def areturn_def commit_def check_code_def tbind_run newest_challenge_def
      live_challenge_def asked_run OTP_MAX_ATTEMPTS_def sample_login_def pepper_def rbind_def hashOtpCode_def trimmed set_challenge_def
      upsert_user_def e164 sample_platform_def memberships_of_def membership_of_def List.map_filter_def)
qed


lemma codes_ok_sample: "codes_ok sample_platform"
  by (simp add: codes_ok_def sample_platform_def)

abbreviation ask :: "identity_op list" where
  "ask \<equiv> [IdStart sample_login 123456 ''98765 43210'' console_login None]"

lemma run_ask: "run_ops exec_identity ask sample_platform = asked"
  by (simp add: run_ops_def asked_run(1))


theorem wrong_codes_not_counted_witness:
  "list_all (\<lambda>c. oc_attempts c = 0 \<and> oc_attempts c < oc_maxAttempts c)
     (pf_challenges (run_ops exec_identity (ask @ [IdComplete sample_login ''9876543210'' console_login ''000000'' None]) sample_platform))"
  using wrong_codes_not_counted[OF codes_ok_sample refl,
      of "ask @ [IdComplete sample_login ''9876543210'' console_login ''000000'' None]" sample_login "''9876543210''" console_login "''000001''" None]
  by blast


theorem store_choice_fails_witness:
  "\<exists>e. fst (verify_route sample_login ''token2'' \<lparr>vb_phone = ''+91 98765-43210'', vb_code = ''123456'', vb_tenantId = Some 2\<rparr> None None
     ((snd (verify_route sample_login ''token1'' \<lparr>vb_phone = ''+91 98765-43210'', vb_code = ''123456'', vb_tenantId = None\<rparr> None None asked))\<lparr>pf_now := 1100000\<rparr>)) =
     Inr (verify_failed e)"
proof -
  let ?body = "\<lparr>vb_phone = ''+91 98765-43210'', vb_code = ''123456'', vb_tenantId = None\<rparr>"
  obtain r pf' where login: "completeLogin sample_login ''+91 98765-43210'' console_login ''123456'' None asked = (r, pf')" by fastforce
  obtain ms where "verify_route sample_login ''token1'' ?body None None asked = (Inr (needs_tenant_choice ms), pf')"
    using signed_in_run by (simp add: verify_route_def body_ok_def is_digit_def login acatch_def abind_def areturn_def)
  then have run: "verify_route sample_login ''token1'' ?body None None (run_ops exec_identity ask sample_platform) =
      (Inr (needs_tenant_choice ms), snd (verify_route sample_login ''token1'' ?body None None asked))"
    unfolding run_ask by simp
  show ?thesis using store_choice_fails[OF codes_ok_sample run, of "''token2''" 2 None None 1100000] by simp
qed

definition entered :: platform where
  "entered = snd (createSession sample_login ''token'' 7 1 None None sample_platform)"

lemma entered_run:
  "createSession sample_login ''token'' 7 1 None None sample_platform = (Inr (''token'', 1000000 + ABSOLUTE_TTL_MS), entered)"
  "pf_sessions entered = [\<lparr>ss_id = 100, ss_tokenHash = hashToken ''token'', ss_userId = 7, ss_tenantId = Some 1, ss_userAgent = None,
     ss_ipHash = None, ss_expiresAt = 1000000 + ABSOLUTE_TTL_MS, ss_idleExpiresAt = 1000000 + IDLE_TTL_MS, ss_revokedAt = None\<rparr>]"
  "pf_users entered = pf_users sample_platform" "pf_members entered = pf_members sample_platform" "pf_tenants entered = pf_tenants sample_platform"
  by (simp_all add: entered_def createSession_def abind_def commit_def tbind_run sample_platform_def areturn_def hashIp_def Let_def)

theorem signed_out_stays_out_witness:
  "fst (resolveSession (Some ''token'') (run_ops exec_identity [IdTick 2000000, IdResolve (Some ''token'')]
     (exec_identity (if False then IdRevokeAll 7 else IdRevoke ''token'') entered))) \<noteq>
   Inr (Some \<lparr>ac_userId = 7, ac_sessionId = 100, ac_tenantId = 1, ac_role = owner, ac_permissions = PERMISSIONS,
     ac_phoneE164 = ''+919876543210'', ac_name = None\<rparr>)"
  by (rule signed_out_stays_out[OF _ _ refl, of _ _ 7]) (simp_all add: entered_run)

theorem sessions_are_bounded_witness:
  "\<exists>a. fst (resolveSession (Some ''token'') (run_ops exec_identity [IdTick 2000000] entered)) = Inr (Some a) \<and>
     ac_userId a = 7 \<and> ac_tenantId a = 1 \<and> list_ex (\<lambda>m. tm_userId m = 7 \<and> tm_tenantId m = 1 \<and> tm_revokedAt m = None \<and>
       ac_permissions a = effectivePermissions (tm_role m) (tm_overrides m)) (pf_members (run_ops exec_identity [IdTick 2000000] entered))"
proof -
  have "\<exists>a. fst (resolveSession (Some ''token'') (run_ops exec_identity [IdTick 2000000] entered)) = Inr (Some a)"
    by (simp add: run_ops_def resolveSession_def commit_def tbind_run entered_run sample_platform_def resolve_row_def member_of_def tenant_of_def
      ABSOLUTE_TTL_MS_def IDLE_TTL_MS_def)
  then obtain a where a: "fst (resolveSession (Some ''token'') (run_ops exec_identity [IdTick 2000000] entered)) = Inr (Some a)" ..
  then have run: "resolveSession (Some ''token'') (run_ops exec_identity [IdTick 2000000] entered) =
      (Inr (Some a), snd (resolveSession (Some ''token'') (run_ops exec_identity [IdTick 2000000] entered)))" by (simp add: prod_eq_iff)
  show ?thesis using a sessions_are_bounded[OF entered_run(1) refl run] by blast
qed

end
