(* ===== verification/Hosting.thy ===== *)
theory Hosting
  imports IdentityLaws "HOL-Library.Sublist"
begin

text \<open>
  From a host name to a store: \<open>packages/core/src/tenancy/resolve.ts\<close>, \<open>settings.ts\<close>, \<open>indexing.ts\<close> and the
  worker's \<open>verify-domain.ts\<close>.  The state is the control plane with the domains and the two Redis caches
  in front of them; an entry is a value and the instant it expires.  The keys \<open>p:host:..\<close> and
  \<open>p:primary-host:..\<close> never meet, so each has a map of its own; the cached JSON text is the value it
  stands for, and the sentinel for ``no such host'' is \<open>None\<close>.  What the DNS resolvers answer is a
  parameter.
\<close>

section \<open>State\<close>

record domain_row =
  dm_id :: uuid
  dm_tenantId :: uuid
  dm_hostname :: string
  dm_isPrimary :: bool
  dm_verifiedAt :: "millis option"
  dm_lastCheckedAt :: "millis option"
  dm_redirectTo :: "string option"

record resolved_tenant =
  rt_tenantId :: uuid
  rt_slug :: string
  rt_displayName :: string
  rt_status :: tenant_status
  rt_searchIndexing :: search_indexing
  rt_redirectTo :: "string option"

type_synonym 'v cache = "string \<Rightarrow> ('v option \<times> millis) option"

record hosting = platform +
  hg_domains :: "domain_row list"
  hg_hosts :: "resolved_tenant cache"
  hg_primaries :: "string cache"

definition CACHE_TTL_MS :: millis where "CACHE_TTL_MS = 300 * 1000"

definition NEGATIVE_CACHE_TTL_MS :: millis where "NEGATIVE_CACHE_TTL_MS = 30 * 1000"

definition cache_get :: "'v cache \<Rightarrow> string \<Rightarrow> millis \<Rightarrow> 'v option option" where
  "cache_get cache k now = (case cache k of None \<Rightarrow> None | Some (v, expires) \<Rightarrow> if now < expires then Some v else None)"

section \<open>Host names\<close>

definition host_char :: "char \<Rightarrow> bool" where
  "host_char c \<longleftrightarrow> c \<in> set ''abcdefghijklmnopqrstuvwxyz0123456789.-''"

text \<open>\<open>host.slice(0, host.lastIndexOf(":"))\<close>, when there is a colon.\<close>

definition strip_port :: "string \<Rightarrow> string" where
  "strip_port host = (if CHR '':'' \<in> set host then rev (tl (dropWhile (\<lambda>c. c \<noteq> CHR '':'') (rev host))) else host)"

definition normaliseHost :: "string option \<Rightarrow> string option" where
  "normaliseHost rawHost =
    (case rawHost of
       None \<Rightarrow> None
     | Some raw \<Rightarrow>
         if raw = [] then None
         else
           let host = to_lower (trim raw) in
           if host \<noteq> [] \<and> hd host = CHR ''['' then None
           else
             let host = strip_port host;
                 host = (if host \<noteq> [] \<and> last host = CHR ''.'' then butlast host else host)
             in if list_all host_char host \<and> length host > 0 \<and> length host \<le> 253 then Some host else None)"

section \<open>Resolution\<close>

definition resolved_of :: "platform_tenant list \<Rightarrow> domain_row \<Rightarrow> resolved_tenant option" where
  "resolved_of tenants d =
     map_option (\<lambda>t. \<lparr>rt_tenantId = pt_id t, rt_slug = pt_slug t, rt_displayName = pt_displayName t, rt_status = pt_status t,
         rt_searchIndexing = pt_searchIndexing t, rt_redirectTo = dm_redirectTo d\<rparr>)
       (find (\<lambda>t. pt_id t = dm_tenantId d \<and> pt_deletedAt t = None) tenants)"

definition lookup_host :: "hosting \<Rightarrow> string \<Rightarrow> resolved_tenant option" where
  "lookup_host hg host =
    (case List.map_filter (resolved_of (pf_tenants hg)) (filter (\<lambda>d. dm_hostname d = host \<and> dm_verifiedAt d \<noteq> None) (hg_domains hg)) of
       [] \<Rightarrow> None
     | r # rs \<Rightarrow> Some r)"

definition host_key :: "string \<Rightarrow> string" where
  "host_key host = platformKey [''host'', host]"

definition resolveTenantByHost :: "string option \<Rightarrow> hosting \<Rightarrow> resolved_tenant option \<times> hosting" where
  "resolveTenantByHost rawHost hg =
    (case normaliseHost rawHost of
       None \<Rightarrow> (None, hg)
     | Some host \<Rightarrow>
         let key = host_key host in
         case cache_get (hg_hosts hg) key (pf_now hg) of
           Some cached \<Rightarrow> (cached, hg)
         | None \<Rightarrow>
             let resolved = lookup_host hg host;
                 ttl = (if resolved = None then NEGATIVE_CACHE_TTL_MS else CACHE_TTL_MS)
             in (resolved, hg\<lparr>hg_hosts := (hg_hosts hg)(key \<mapsto> (resolved, pf_now hg + ttl))\<rparr>))"

definition primary_key :: "uuid \<Rightarrow> string" where
  "primary_key tenantId = platformKey [''primary-host'', show_nat tenantId]"

definition lookup_primary :: "hosting \<Rightarrow> uuid \<Rightarrow> string option" where
  "lookup_primary hg tenantId =
    (let rows = filter (\<lambda>d. dm_tenantId d = tenantId \<and> dm_verifiedAt d \<noteq> None) (hg_domains hg) in
     case find dm_isPrimary rows of
       Some d \<Rightarrow> Some (dm_hostname d)
     | None \<Rightarrow> (case rows of [] \<Rightarrow> None | d # ds \<Rightarrow> Some (dm_hostname d)))"

definition primaryHostname :: "uuid \<Rightarrow> hosting \<Rightarrow> string option \<times> hosting" where
  "primaryHostname tenantId hg =
    (let key = primary_key tenantId in
     case cache_get (hg_primaries hg) key (pf_now hg) of
       Some cached \<Rightarrow> (cached, hg)
     | None \<Rightarrow>
         let host = lookup_primary hg tenantId in
         (host, hg\<lparr>hg_primaries := (hg_primaries hg)(key \<mapsto> (host, pf_now hg + CACHE_TTL_MS))\<rparr>))"

definition isDomainVerifiedForTls :: "string \<Rightarrow> hosting \<Rightarrow> bool" where
  "isDomainVerifiedForTls rawHost hg =
    (case normaliseHost (Some rawHost) of
       None \<Rightarrow> False
     | Some host \<Rightarrow> list_ex (\<lambda>d. dm_hostname d = host \<and> dm_verifiedAt d \<noteq> None \<and>
         list_ex (\<lambda>t. pt_id t = dm_tenantId d \<and> pt_deletedAt t = None) (pf_tenants hg)) (hg_domains hg))"

definition domainsForTenant :: "uuid \<Rightarrow> hosting \<Rightarrow> domain_row list" where
  "domainsForTenant tenantId hg = filter (\<lambda>d. dm_tenantId d = tenantId) (hg_domains hg)"

definition invalidateHostCache :: "string list \<Rightarrow> uuid option \<Rightarrow> hosting \<Rightarrow> hosting" where
  "invalidateHostCache hosts tenantId hg =
     hg\<lparr>hg_hosts := (\<lambda>k. if k \<in> set (map host_key (List.map_filter (\<lambda>h. normaliseHost (Some h)) hosts)) then None else hg_hosts hg k),
        hg_primaries := (\<lambda>k. if map_option primary_key tenantId = Some k then None else hg_primaries hg k)\<rparr>"

section \<open>Settings and verification\<close>

definition indexing_text :: "search_indexing \<Rightarrow> string" where
  "indexing_text m = (case m of index_auto \<Rightarrow> ''auto'' | indexed \<Rightarrow> ''indexed'' | noindex \<Rightarrow> ''noindex'')"

definition indexing_audit :: "uuid \<Rightarrow> uuid \<Rightarrow> search_indexing \<Rightarrow> search_indexing \<Rightarrow> audit_row" where
  "indexing_audit actorUserId tenantId before mode =
     \<lparr>au_actorType = staff, au_actorUserId = Some actorUserId, au_action = ''settings.search_indexing_changed'',
      au_entityType = ''tenant'', au_entityId = Some tenantId,
      au_before = JObject [(''searchIndexing'', JString (indexing_text before))],
      au_after = JObject [(''searchIndexing'', JString (indexing_text mode))]\<rparr>"

definition updateSearchIndexing :: "uuid \<Rightarrow> uuid \<Rightarrow> search_indexing \<Rightarrow> hosting \<Rightarrow> (bool res) \<times> hosting" where
  "updateSearchIndexing actorUserId tenantId mode hg =
    (case find (\<lambda>t. pt_id t = tenantId) (pf_tenants hg) of
       None \<Rightarrow> (Inl notFound, hg)
     | Some current \<Rightarrow>
         if pt_searchIndexing current = mode then (Inr False, hg)
         else
           let hg = hg\<lparr>pf_tenants := upd (\<lambda>t. pt_id t = tenantId) (\<lambda>t. t\<lparr>pt_searchIndexing := mode\<rparr>) (pf_tenants hg),
                 pf_audit := pf_audit hg @ [(tenantId, indexing_audit actorUserId tenantId (pt_searchIndexing current) mode)]\<rparr>
           in (Inr True, invalidateHostCache (map dm_hostname (domainsForTenant tenantId hg)) (Some tenantId) hg))"

text \<open>Should search engines index the store?\<close>

definition isSearchIndexable :: "tenant_status \<Rightarrow> search_indexing \<Rightarrow> bool" where
  "isSearchIndexable status mode =
    (if status = tenant_suspended \<or> status = tenant_churned then False
     else if mode = indexed then True
     else if mode = noindex then False
     else status = tenant_active)"

record dns_targets =
  dt_cname :: string
  dt_ips :: "string list"

definition strip_dot :: "string \<Rightarrow> string" where
  "strip_dot s = (if s \<noteq> [] \<and> last s = CHR ''.'' then butlast s else s)"

definition points_to_us :: "dns_targets \<Rightarrow> string list \<Rightarrow> string list \<Rightarrow> bool" where
  "points_to_us targets cnames ips \<longleftrightarrow>
     list_ex (\<lambda>c. strip_dot (to_lower c) = dt_cname targets) cnames \<or>
     dt_ips targets \<noteq> [] \<and> list_ex (\<lambda>ip. ip \<in> set (dt_ips targets)) ips"

definition verified_audit :: "uuid \<Rightarrow> string \<Rightarrow> audit_row" where
  "verified_audit domainId hostname =
     \<lparr>au_actorType = system, au_actorUserId = None, au_action = ''domain.verified'', au_entityType = ''domain'',
      au_entityId = Some domainId, au_before = JNull, au_after = JObject [(''hostname'', JString hostname)]\<rparr>"

definition verifyDomain :: "dns_targets \<Rightarrow> (string \<Rightarrow> string list) \<Rightarrow> (string \<Rightarrow> string list) \<Rightarrow> uuid \<Rightarrow> uuid \<Rightarrow> hosting \<Rightarrow> bool \<times> hosting" where
  "verifyDomain targets cnames ips domainId tenantId hg =
    (case find (\<lambda>d. dm_id d = domainId \<and> dm_tenantId d = tenantId) (hg_domains hg) of
       None \<Rightarrow> (False, hg)
     | Some domain \<Rightarrow>
         if dm_verifiedAt domain \<noteq> None then (True, hg)
         else
           let verified = points_to_us targets (cnames (dm_hostname domain)) (ips (dm_hostname domain));
               hg = hg\<lparr>hg_domains := upd (\<lambda>d. dm_id d = domainId)
                 (\<lambda>d. d\<lparr>dm_verifiedAt := (if verified then Some (pf_now hg) else None), dm_lastCheckedAt := Some (pf_now hg)\<rparr>) (hg_domains hg)\<rparr>
           in if verified
              then (True, (invalidateHostCache [dm_hostname domain] (Some tenantId) hg)
                 \<lparr>pf_audit := pf_audit hg @ [(tenantId, verified_audit domainId (dm_hostname domain))]\<rparr>)
              else (False, hg))"

end
