(* ===== verification/HostingLaws.thy ===== *)
theory HostingLaws
  imports Hosting
begin

text \<open>
  What the host caches promise: an answer is what the tables said at most five minutes ago, half a
  minute for an unknown host, and a change of the indexing mode is seen at once on every address of the store.
\<close>

section \<open>Operations, in any order\<close>

text \<open>Domains and tenants may be edited in any way by the rest of the platform.\<close>

datatype hosting_op =
    HoTick nat
  | HoTables "platform_tenant list" "domain_row list"
  | HoResolve "string option"
  | HoPrimary uuid
  | HoInvalidate "string list" "uuid option"
  | HoIndexing uuid uuid search_indexing
  | HoVerify dns_targets "string \<Rightarrow> string list" "string \<Rightarrow> string list" uuid uuid

fun exec_hosting :: "hosting_op \<Rightarrow> hosting \<Rightarrow> hosting" where
  "exec_hosting (HoTick ms) hg = hg\<lparr>pf_now := pf_now hg + int ms\<rparr>"
| "exec_hosting (HoTables tenants domains) hg = hg\<lparr>pf_tenants := tenants, hg_domains := domains\<rparr>"
| "exec_hosting (HoResolve rawHost) hg = snd (resolveTenantByHost rawHost hg)"
| "exec_hosting (HoPrimary tenantId) hg = snd (primaryHostname tenantId hg)"
| "exec_hosting (HoInvalidate hosts tenantId) hg = invalidateHostCache hosts tenantId hg"
| "exec_hosting (HoIndexing actorUserId tenantId mode) hg = snd (updateSearchIndexing actorUserId tenantId mode hg)"
| "exec_hosting (HoVerify targets cnames ips domainId tenantId) hg = snd (verifyDomain targets cnames ips domainId tenantId hg)"

definition cold :: "hosting \<Rightarrow> bool" where
  "cold hg \<longleftrightarrow> hg_hosts hg = (\<lambda>k. None) \<and> hg_primaries hg = (\<lambda>k. None)"

lemma host_key_inject [simp]: "host_key h = host_key h' \<longleftrightarrow> h = h'"
  by (simp add: host_key_def platformKey_def)

lemma primary_key_inject [simp]: "primary_key t = primary_key t' \<longleftrightarrow> t = t'"
  by (simp add: primary_key_def platformKey_def)

lemma keys_apart: "host_key h \<noteq> primary_key t"
  by (simp add: host_key_def primary_key_def platformKey_def)

lemma run_snoc: "run_ops exec (ops @ [op]) s = exec op (run_ops exec ops s)"
  by (simp add: run_ops_def)

section \<open>Where a cache entry comes from\<close>

definition host_ttl :: "resolved_tenant option \<Rightarrow> millis" where
  "host_ttl answer = (if answer = None then NEGATIVE_CACHE_TTL_MS else CACHE_TTL_MS)"

text \<open>The cache after an operation has an entry it had before, or what the tables say now.\<close>

definition entry_from :: "hosting \<Rightarrow> string \<Rightarrow> resolved_tenant option \<times> millis \<Rightarrow> bool" where
  "entry_from hg host entry \<longleftrightarrow> entry = (lookup_host hg host, pf_now hg + host_ttl (lookup_host hg host))"

definition primary_from :: "hosting \<Rightarrow> uuid \<Rightarrow> string option \<times> millis \<Rightarrow> bool" where
  "primary_from hg tenantId entry \<longleftrightarrow> entry = (lookup_primary hg tenantId, pf_now hg + CACHE_TTL_MS)"

lemma resolve_entries:
  "hg_hosts (snd (resolveTenantByHost rawHost hg)) (host_key host) = Some entry \<Longrightarrow>
   hg_hosts hg (host_key host) = Some entry \<or> entry_from hg host entry"
  by (auto simp: resolveTenantByHost_def Let_def entry_from_def host_ttl_def split: option.splits if_splits)

lemma primary_entries:
  "hg_primaries (snd (primaryHostname tenantId hg)) (primary_key t) = Some entry \<Longrightarrow>
   hg_primaries hg (primary_key t) = Some entry \<or> primary_from hg t entry"
  by (auto simp: primaryHostname_def Let_def primary_from_def split: option.splits if_splits)

lemma off_cache:
  "hg_primaries (snd (resolveTenantByHost rawHost hg)) = hg_primaries hg"
  "hg_hosts (snd (primaryHostname tenantId hg)) = hg_hosts hg"
  by (auto simp: resolveTenantByHost_def primaryHostname_def Let_def split: option.split)

lemma invalidate_fewer:
  "hg_hosts (invalidateHostCache hosts t hg) k = Some e \<Longrightarrow> hg_hosts hg k = Some e"
  "hg_primaries (invalidateHostCache hosts t hg) k = Some e' \<Longrightarrow> hg_primaries hg k = Some e'"
  by (auto simp: invalidateHostCache_def split: if_splits)

lemma exec_entries:
  "hg_hosts (exec_hosting op hg) (host_key host) = Some entry \<Longrightarrow> hg_hosts hg (host_key host) = Some entry \<or> entry_from hg host entry"
proof (cases op)
  case (HoResolve rawHost)
  assume "hg_hosts (exec_hosting op hg) (host_key host) = Some entry"
  then show ?thesis using HoResolve resolve_entries by simp
qed (auto simp: off_cache updateSearchIndexing_def verifyDomain_def Let_def split: option.splits if_splits dest: invalidate_fewer)

lemma exec_primaries:
  "hg_primaries (exec_hosting op hg) (primary_key t) = Some entry \<Longrightarrow> hg_primaries hg (primary_key t) = Some entry \<or> primary_from hg t entry"
proof (cases op)
  case (HoPrimary tenantId)
  assume "hg_primaries (exec_hosting op hg) (primary_key t) = Some entry"
  then show ?thesis using HoPrimary primary_entries by simp
qed (auto simp: off_cache updateSearchIndexing_def verifyDomain_def Let_def split: option.splits if_splits dest: invalidate_fewer)

lemma history_step: "P ops \<or> (\<exists>before. prefix before ops \<and> P before) \<Longrightarrow> \<exists>before. prefix before (ops @ [op]) \<and> P before"
  by (metis prefix_order.refl prefix_snoc)

lemma entries_from_history:
  assumes "cold hg"
  shows "hg_hosts (run_ops exec_hosting ops hg) (host_key host) = Some entry \<Longrightarrow>
      \<exists>before. prefix before ops \<and> entry_from (run_ops exec_hosting before hg) host entry"
    and "hg_primaries (run_ops exec_hosting ops hg) (primary_key t) = Some entry' \<Longrightarrow>
      \<exists>before. prefix before ops \<and> primary_from (run_ops exec_hosting before hg) t entry'"
proof (induction ops rule: rev_induct)
  case Nil
  {
    case 1
    then show ?case using assms by (simp add: run_ops_def cold_def)
  next
    case 2
    then show ?case using assms by (simp add: run_ops_def cold_def)
  }
next
  case (snoc op ops)
  {
    case 1
    have "entry_from (run_ops exec_hosting ops hg) host entry \<or> (\<exists>before. prefix before ops \<and> entry_from (run_ops exec_hosting before hg) host entry)"
      using exec_entries[OF 1[unfolded run_snoc]] snoc.IH(1) by blast
    then show ?case by (rule history_step[where P = "\<lambda>b. entry_from (run_ops exec_hosting b hg) host entry"])
  next
    case 2
    have "primary_from (run_ops exec_hosting ops hg) t entry' \<or> (\<exists>before. prefix before ops \<and> primary_from (run_ops exec_hosting before hg) t entry')"
      using exec_primaries[OF 2[unfolded run_snoc]] snoc.IH(2) by blast
    then show ?case by (rule history_step[where P = "\<lambda>b. primary_from (run_ops exec_hosting b hg) t entry'"])
  }
qed


text \<open>
  C40.  Host answers are recent.  Starting with empty caches, whatever happens to domains, tenants and caches,
  the store a host resolves to is the one the tables named at some moment of that history not yet 300
  seconds past, or 30 when the answer is that there is none; the primary host name of a store is no
  older than 300 seconds either.
\<close>

theorem host_answers_are_recent:
  assumes "cold hg" "hg' = run_ops exec_hosting ops hg" "normaliseHost rawHost = Some host"
  shows "(\<exists>before. prefix before ops \<and> fst (resolveTenantByHost rawHost hg') = lookup_host (run_ops exec_hosting before hg) host \<and>
      pf_now hg' < pf_now (run_ops exec_hosting before hg) + (if fst (resolveTenantByHost rawHost hg') = None then 30000 else 300000)) \<and>
    (\<exists>before. prefix before ops \<and> fst (primaryHostname tenantId hg') = lookup_primary (run_ops exec_hosting before hg) tenantId \<and>
      pf_now hg' < pf_now (run_ops exec_hosting before hg) + 300000)"
proof (rule conjI)
  note ttl = host_ttl_def CACHE_TTL_MS_def NEGATIVE_CACHE_TTL_MS_def
  show "\<exists>before. prefix before ops \<and> fst (resolveTenantByHost rawHost hg') = lookup_host (run_ops exec_hosting before hg) host \<and>
      pf_now hg' < pf_now (run_ops exec_hosting before hg) + (if fst (resolveTenantByHost rawHost hg') = None then 30000 else 300000)"
  proof (cases "cache_get (hg_hosts hg') (host_key host) (pf_now hg')")
    case None
    then have "fst (resolveTenantByHost rawHost hg') = lookup_host hg' host" by (simp add: resolveTenantByHost_def assms(3) Let_def)
    then show ?thesis using assms(2) by (intro exI[of _ ops]) simp
  next
    case (Some answer)
    then obtain expires where e: "hg_hosts hg' (host_key host) = Some (answer, expires)" "pf_now hg' < expires"
      by (auto simp: cache_get_def split: option.splits if_splits)
    have answer: "fst (resolveTenantByHost rawHost hg') = answer" using Some by (simp add: resolveTenantByHost_def assms(3) Let_def)
    obtain before where "prefix before ops" "entry_from (run_ops exec_hosting before hg) host (answer, expires)"
      using entries_from_history(1)[OF assms(1)] e(1) unfolding assms(2) by blast
    then show ?thesis unfolding answer using e(2) by (intro exI[of _ before]) (auto simp: entry_from_def ttl)
  qed
  show "\<exists>before. prefix before ops \<and> fst (primaryHostname tenantId hg') = lookup_primary (run_ops exec_hosting before hg) tenantId \<and>
      pf_now hg' < pf_now (run_ops exec_hosting before hg) + 300000"
  proof (cases "cache_get (hg_primaries hg') (primary_key tenantId) (pf_now hg')")
    case None
    then have "fst (primaryHostname tenantId hg') = lookup_primary hg' tenantId" by (simp add: primaryHostname_def Let_def)
    then show ?thesis using assms(2) by (intro exI[of _ ops]) simp
  next
    case (Some answer)
    then obtain expires where e: "hg_primaries hg' (primary_key tenantId) = Some (answer, expires)" "pf_now hg' < expires"
      by (auto simp: cache_get_def split: option.splits if_splits)
    have answer: "fst (primaryHostname tenantId hg') = answer" using Some by (simp add: primaryHostname_def Let_def)
    obtain before where "prefix before ops" "primary_from (run_ops exec_hosting before hg) tenantId (answer, expires)"
      using entries_from_history(2)[OF assms(1)] e(1) unfolding assms(2) by blast
    then show ?thesis unfolding answer using e(2) by (intro exI[of _ before]) (auto simp: primary_from_def ttl)
  qed
qed

section \<open>Changes that are seen at once\<close>

lemma invalidated_is_fresh:
  assumes "h \<in> set hosts" "normaliseHost (Some h) = normaliseHost rawHost" "normaliseHost rawHost = Some host"
  shows "fst (resolveTenantByHost rawHost (invalidateHostCache hosts t hg)) = lookup_host hg host"
proof -
  have "host_key host \<in> set (map host_key (List.map_filter (\<lambda>h. normaliseHost (Some h)) hosts))"
    using assms by (auto simp: List.map_filter_def image_iff intro!: bexI[of _ h])
  then have "cache_get (hg_hosts (invalidateHostCache hosts t hg)) (host_key host) (pf_now (invalidateHostCache hosts t hg)) = None"
    by (simp add: cache_get_def invalidateHostCache_def)
  moreover have "lookup_host (invalidateHostCache hosts t hg) = lookup_host hg" by (simp add: lookup_host_def invalidateHostCache_def fun_eq_iff)
  ultimately show ?thesis by (simp add: resolveTenantByHost_def assms(3) Let_def)
qed

lemma lookup_indexing:
  assumes "lookup_host hg host = Some r" "rt_tenantId r = tenantId" "list_all (\<lambda>t. pt_id t \<noteq> tenantId \<or> pt_searchIndexing t = mode) (pf_tenants hg)"
  shows "rt_searchIndexing r = mode"
proof -
  obtain d where "resolved_of (pf_tenants hg) d = Some r"
  proof -
    have "r \<in> set (List.map_filter (resolved_of (pf_tenants hg)) (filter (\<lambda>d. dm_hostname d = host \<and> dm_verifiedAt d \<noteq> None) (hg_domains hg)))"
      using assms(1) by (auto simp: lookup_host_def split: list.splits)
    then show thesis using that by (auto simp: List.map_filter_def)
  qed
  then obtain t where t: "find (\<lambda>t. pt_id t = dm_tenantId d \<and> pt_deletedAt t = None) (pf_tenants hg) = Some t" "rt_tenantId r = pt_id t"
    "rt_searchIndexing r = pt_searchIndexing t"
    by (auto simp: resolved_of_def)
  then have "t \<in> set (pf_tenants hg)" using find_eq_Some[OF t(1)] by simp
  then show ?thesis using t(2,3) assms(2,3) by (auto simp: list_all_iff)
qed

text \<open>
  A change of the indexing mode is seen at once: after it, whatever address of the store is asked
  for, in whatever spelling, the answer has the new mode.
\<close>

theorem indexing_change_is_immediate:
  assumes "updateSearchIndexing actorUserId tenantId mode hg = (Inr True, hg')"
    and "d \<in> set (domainsForTenant tenantId hg)" "normaliseHost rawHost = normaliseHost (Some (dm_hostname d))"
    and "fst (resolveTenantByHost rawHost hg') = Some r" "rt_tenantId r = tenantId"
  shows "rt_searchIndexing r = mode"
proof -
  obtain current where c: "find (\<lambda>t. pt_id t = tenantId) (pf_tenants hg) = Some current" "pt_searchIndexing current \<noteq> mode"
    using assms(1) by (auto simp: updateSearchIndexing_def Let_def split: option.splits if_splits)
  define hg1 where "hg1 = hg\<lparr>pf_tenants := upd (\<lambda>t. pt_id t = tenantId) (\<lambda>t. t\<lparr>pt_searchIndexing := mode\<rparr>) (pf_tenants hg),
      pf_audit := pf_audit hg @ [(tenantId, indexing_audit actorUserId tenantId (pt_searchIndexing current) mode)]\<rparr>"
  have hg': "hg' = invalidateHostCache (map dm_hostname (domainsForTenant tenantId hg)) (Some tenantId) hg1"
    using assms(1) c by (simp add: updateSearchIndexing_def Let_def hg1_def domainsForTenant_def)
  obtain host where host: "normaliseHost rawHost = Some host"
    using assms(4) by (cases "normaliseHost rawHost") (simp_all add: resolveTenantByHost_def)
  have "dm_hostname d \<in> set (map dm_hostname (domainsForTenant tenantId hg))" using assms(2) by simp
  then have "lookup_host hg1 host = Some r" using invalidated_is_fresh[OF _ assms(3)[symmetric] host] assms(4) unfolding hg' by simp
  moreover have "list_all (\<lambda>t. pt_id t \<noteq> tenantId \<or> pt_searchIndexing t = mode) (pf_tenants hg1)"
  proof -
    have "pf_tenants hg1 = upd (\<lambda>t. pt_id t = tenantId) (\<lambda>t. t\<lparr>pt_searchIndexing := mode\<rparr>) (pf_tenants hg)" by (simp add: hg1_def)
    moreover have "list_all (\<lambda>t. pt_id t \<noteq> tenantId \<or> pt_searchIndexing t = mode) (upd (\<lambda>t. pt_id t = tenantId) (\<lambda>t. t\<lparr>pt_searchIndexing := mode\<rparr>) ts)" for ts
      by (induction ts) simp_all
    ultimately show ?thesis by simp
  qed
  ultimately show ?thesis using assms(5) lookup_indexing by blast
qed

text \<open>A certificate is only asked for a host that resolves.\<close>

lemma tls_iff_resolves: "isDomainVerifiedForTls rawHost hg \<longleftrightarrow> (\<exists>host. normaliseHost (Some rawHost) = Some host \<and> lookup_host hg host \<noteq> None)"
proof -
  have "(case List.map_filter (resolved_of ts) (filter P ds) of [] \<Rightarrow> None | r # rs \<Rightarrow> Some r) \<noteq> None \<longleftrightarrow>
      list_ex (\<lambda>d. P d \<and> list_ex (\<lambda>t. pt_id t = dm_tenantId d \<and> pt_deletedAt t = None) ts) ds" for ts P ds
  proof (induction ds)
    case (Cons d ds)
    have "resolved_of ts d = None \<longleftrightarrow> \<not> list_ex (\<lambda>t. pt_id t = dm_tenantId d \<and> pt_deletedAt t = None) ts"
      by (simp add: resolved_of_def find_None_set list_ex_iff)
    then show ?case using Cons by (cases "resolved_of ts d") auto
  qed simp
  then show ?thesis by (auto simp: isDomainVerifiedForTls_def lookup_host_def conj_assoc split: option.splits)
qed

section \<open>One store, one address\<close>

text \<open>A wrong answer is cached when the address is not verified yet, and the verification drops it.\<close>

definition sample_hosting :: hosting where
  "sample_hosting = \<lparr>pf_now = 0, pf_uuidv7 = (\<lambda>n. n), pf_drawn = 0, pf_limits = (\<lambda>k. []), pf_challenges = [], pf_users = [], pf_members = [],
     pf_tenants = [\<lparr>pt_id = 1, pt_slug = ''one'', pt_displayName = ''One'', pt_status = tenant_active, pt_searchIndexing = index_auto, pt_deletedAt = None\<rparr>],
     pf_sessions = [], pf_audit = [],
     hg_domains = [\<lparr>dm_id = 5, dm_tenantId = 1, dm_hostname = ''one.in'', dm_isPrimary = True, dm_verifiedAt = None, dm_lastCheckedAt = None, dm_redirectTo = None\<rparr>],
     hg_hosts = (\<lambda>k. None), hg_primaries = (\<lambda>k. None)\<rparr>"

theorem host_answers_are_recent_witness:
  "(\<exists>before. prefix before [HoResolve (Some ''ONE.in:443''), HoTick 29999] \<and>
      fst (resolveTenantByHost (Some ''one.in'') (run_ops exec_hosting [HoResolve (Some ''ONE.in:443''), HoTick 29999] sample_hosting)) =
        lookup_host (run_ops exec_hosting before sample_hosting) ''one.in'') \<and>
   cache_get (hg_hosts (run_ops exec_hosting [HoResolve (Some ''ONE.in:443''), HoTick 29999] sample_hosting)) (host_key ''one.in'') 29999 = Some None"
proof -
  have host: "normaliseHost (Some ''one.in'') = Some ''one.in''" "normaliseHost (Some ''ONE.in:443'') = Some ''one.in''" by code_simp+
  have cold: "cold sample_hosting" by (simp add: cold_def sample_hosting_def)
  have "cache_get (hg_hosts (run_ops exec_hosting [HoResolve (Some ''ONE.in:443''), HoTick 29999] sample_hosting)) (host_key ''one.in'') 29999 = Some None"
    by (simp add: run_ops_def resolveTenantByHost_def host sample_hosting_def cache_get_def lookup_host_def NEGATIVE_CACHE_TTL_MS_def List.map_filter_def)
  then show ?thesis using host_answers_are_recent[OF cold refl host(1), of "[HoResolve (Some ''ONE.in:443''), HoTick 29999]"] by blast
qed

end
