(* ===== verification/RefundJob.thy ===== *)
theory RefundJob
  imports MoneyLaws
begin

text \<open>
  The worker that carries refund intents to the gateway, \<open>apps/worker/src/jobs/gateway-refund.ts\<close>.  The
  queue may deliver a job twice, two workers may run at once and either may die between any two
  steps, so the job is cut where it awaits: reading the intent, claiming it, asking the gateway,
  recording the answer.  \<open>refund_step\<close> lets any number of runs take these steps in any order, between
  all other operations of the shop.  What the gateway and the sealed credentials answer is a parameter.
\<close>

section \<open>The job\<close>

record refund_request =
  gr_gatewayPaymentId :: string
  gr_amountPaise :: paise
  gr_idempotencyKey :: uuid

record refund_gateway =
  ga_open :: "payment_account_row \<Rightarrow> string res"
  ga_refund :: "string \<Rightarrow> refund_request \<Rightarrow> string res"

datatype refund_outcome = Missing | NeedsReconciliation | Already refund_status | AlreadyClaimed | Processing string

type_synonym refund_send = "string \<times> refund_request"

text \<open>Everything that can fail here comes before the claim.\<close>

definition load_refund :: "refund_gateway \<Rightarrow> uuid \<Rightarrow> (refund_outcome + refund_send) dbaction" where
  "load_refund gw refundId =
     abind (getRefundForProcessing refundId) (\<lambda>found.
     case found of
       None \<Rightarrow> areturn (Inl Missing)
     | Some refund \<Rightarrow>
         if rj_status refund = refund_processing \<and> rj_gatewayRefundId refund = None then areturn (Inl NeedsReconciliation)
         else if rj_status refund \<noteq> refund_pending then areturn (Inl (Already (rj_status refund)))
         else (case rj_account refund of
            None \<Rightarrow> athrow (JsError ''no enabled payment account'')
          | Some account \<Rightarrow>
              (case rj_gatewayPaymentId refund of
                 None \<Rightarrow> athrow (JsError ''no gateway payment id'')
               | Some p \<Rightarrow>
                   if p = [] then athrow (JsError ''no gateway payment id'')
                   else abind (alift (ga_open gw account)) (\<lambda>creds.
                     areturn (Inr (creds, \<lparr>gr_gatewayPaymentId = p, gr_amountPaise = rj_amountPaise refund, gr_idempotencyKey = refundId\<rparr>))))))"

definition refund_claimable :: "uuid \<Rightarrow> refund_row \<Rightarrow> bool" where
  "refund_claimable refundId f \<longleftrightarrow> rf_id f = refundId \<and> rf_status f = refund_pending"

definition claim_refund :: "uuid \<Rightarrow> bool dbtx" where
  "claim_refund refundId =
     tbind (tread (\<lambda>db. list_ex (refund_claimable refundId) (db_refunds db))) (\<lambda>won.
     tbind (twrite (\<lambda>db. db\<lparr>db_refunds := upd (refund_claimable refundId) (\<lambda>f. f\<lparr>rf_status := refund_processing\<rparr>) (db_refunds db)\<rparr>)) (\<lambda>_.
     treturn won))"

definition record_refund :: "uuid \<Rightarrow> string \<Rightarrow> unit dbtx" where
  "record_refund refundId gatewayRefundId = twrite (\<lambda>db. db\<lparr>db_refunds :=
     upd (\<lambda>f. rf_id f = refundId \<and> rf_gatewayRefundId f = None) (\<lambda>f. f\<lparr>rf_gatewayRefundId := Some gatewayRefundId\<rparr>) (db_refunds db)\<rparr>)"

definition processGatewayRefund :: "refund_gateway \<Rightarrow> uuid \<Rightarrow> refund_outcome dbaction" where
  "processGatewayRefund gw refundId =
     abind (load_refund gw refundId) (\<lambda>loaded.
     case loaded of
       Inl outcome \<Rightarrow> areturn outcome
     | Inr (creds, request) \<Rightarrow>
         abind (commit (claim_refund refundId)) (\<lambda>won.
         if \<not> won then areturn AlreadyClaimed
         else
           abind (alift (ga_refund gw creds request)) (\<lambda>gatewayRefundId.
           abind (commit (record_refund refundId gatewayRefundId)) (\<lambda>_.
           areturn (Processing gatewayRefundId)))))"

section \<open>Runs of the job, interleaved\<close>

datatype refund_run =
    Queued uuid
  | Ready refund_send
  | Claimed refund_send
  | Answered uuid string
  | Ended refund_outcome
  | Dead

record refund_world =
  rw_db :: db
  rw_runs :: "refund_run list"
  rw_sent :: "refund_request list"

definition set_run :: "nat \<Rightarrow> refund_run \<Rightarrow> refund_world \<Rightarrow> refund_world" where
  "set_run i r w = w\<lparr>rw_runs := (rw_runs w)[i := r]\<rparr>"

definition at_run :: "refund_world \<Rightarrow> nat \<Rightarrow> refund_run \<Rightarrow> bool" where
  "at_run w i r \<longleftrightarrow> i < length (rw_runs w) \<and> rw_runs w ! i = r"

text \<open>A request counts as sent when the gateway is called, whatever the call then answers.\<close>

inductive refund_step :: "refund_gateway \<Rightarrow> refund_world \<Rightarrow> refund_world \<Rightarrow> bool" for gw where
  deliver: "refund_step gw w (w\<lparr>rw_runs := rw_runs w @ [Queued refundId]\<rparr>)"
| load: "at_run w i (Queued refundId) \<Longrightarrow> load_refund gw refundId (rw_db w) = (Inr loaded, db') \<Longrightarrow>
    refund_step gw w (set_run i (case loaded of Inl outcome \<Rightarrow> Ended outcome | Inr s \<Rightarrow> Ready s) (w\<lparr>rw_db := db'\<rparr>))"
| claim: "at_run w i (Ready s) \<Longrightarrow> claim_refund (gr_idempotencyKey (snd s)) (rw_db w) = Inr (won, db') \<Longrightarrow>
    refund_step gw w (set_run i (if won then Claimed s else Ended AlreadyClaimed) (w\<lparr>rw_db := db'\<rparr>))"
| send: "at_run w i (Claimed s) \<Longrightarrow>
    refund_step gw w (set_run i (case ga_refund gw (fst s) (snd s) of Inl e \<Rightarrow> Dead | Inr ref \<Rightarrow> Answered (gr_idempotencyKey (snd s)) ref)
      (w\<lparr>rw_sent := rw_sent w @ [snd s]\<rparr>))"
| rec: "at_run w i (Answered refundId ref) \<Longrightarrow> record_refund refundId ref (rw_db w) = Inr (u, db') \<Longrightarrow>
    refund_step gw w (set_run i (Ended (Processing ref)) (w\<lparr>rw_db := db'\<rparr>))"
| die: "at_run w i r \<Longrightarrow> refund_step gw w (set_run i Dead w)"
| shop: "refund_step gw w (w\<lparr>rw_db := exec_commerce op (rw_db w)\<rparr>)"

text \<open>Nothing sent and every run still waiting.\<close>

definition refund_start :: "refund_world \<Rightarrow> bool" where
  "refund_start w \<longleftrightarrow> rw_sent w = [] \<and> list_all (\<lambda>r. case r of Queued refundId \<Rightarrow> True | _ \<Rightarrow> False) (rw_runs w) \<and>
     distinct (map rf_id (db_refunds (rw_db w))) \<and> money_ok (rw_db w)"

lemma load_refund_loads:
  obtains found where "getRefundForProcessing i db = (Inr found, db)"
    "\<And>j. found = Some j \<Longrightarrow> list_ex (\<lambda>f. rf_id f = i \<and> rf_amountPaise f = rj_amountPaise j) (db_refunds db)"
  by (cases "find (\<lambda>f. rf_id f = i) (db_refunds db)")
    (auto simp: getRefundForProcessing_def getEnabledAccount_def commit_def tbind_run list_ex_iff dest!: find_eq_Some)

lemma load_refund_same: "load_refund gw i db = (r, db') \<Longrightarrow> db' = db"
  by (rule load_refund_loads[of i db])
    (auto simp: load_refund_def abind_def areturn_def athrow_def alift_def split: option.splits if_splits sum.splits prod.splits)

lemma load_refund_send:
  assumes "load_refund gw i db = (Inr (Inr s), db')"
  shows "gr_idempotencyKey (snd s) = i \<and> list_ex (\<lambda>f. rf_id f = i \<and> rf_amountPaise f = gr_amountPaise (snd s)) (db_refunds db)"
  by (rule load_refund_loads[of i db])
    (use assms in \<open>auto simp: load_refund_def abind_def areturn_def athrow_def alift_def split: option.splits if_splits sum.splits prod.splits\<close>)

text \<open>The job run to its end is a path of these steps, and what it leaves when it throws is one too.\<close>

lemma job_is_steps:
  assumes "processGatewayRefund gw refundId db = (r, db')"
  shows "\<exists>runs sent'. (refund_step gw)\<^sup>*\<^sup>* \<lparr>rw_db = db, rw_runs = [Queued refundId], rw_sent = sent\<rparr> \<lparr>rw_db = db', rw_runs = runs, rw_sent = sent'\<rparr> \<and>
    (case r of Inr outcome \<Rightarrow> runs = [Ended outcome] | Inl e \<Rightarrow> True)"
proof -
  let ?w = "\<lambda>db r sent. \<lparr>rw_db = db, rw_runs = [r], rw_sent = sent\<rparr>"
  note steps = rtranclp.rtrancl_into_rtrancl
  have at: "at_run (?w d x s) 0 x" for d x s by (simp add: at_run_def)
  have set: "set_run 0 y (?w d x s) = ?w d y s" for d x y s by (simp add: set_run_def)
  show ?thesis
  proof (cases "load_refund gw refundId db")
    case (Pair loaded db1)
    show ?thesis
    proof (cases loaded)
      case (Inl e)
      have "db' = db \<and> r = Inl e" using assms Pair Inl load_refund_same[OF Pair] by (simp add: processGatewayRefund_def abind_def)
      then show ?thesis using Inl by (intro exI[of _ "[Queued refundId]"] exI[of _ sent]) simp
    next
      case (Inr sum)
      have load: "refund_step gw (?w db (Queued refundId) sent) (?w db1 (case sum of Inl outcome \<Rightarrow> Ended outcome | Inr s \<Rightarrow> Ready s) sent)"
        using refund_step.load[of "?w db (Queued refundId) sent" 0 refundId gw sum db1, OF at] Pair Inr by (simp add: set_run_def)
      show ?thesis
      proof (cases sum)
        case (Inl outcome)
        then have "db' = db1 \<and> r = Inr outcome" using assms Pair Inr by (simp add: processGatewayRefund_def abind_def areturn_def)
        then show ?thesis using load Inl by (intro exI[of _ "[Ended outcome]"] exI[of _ sent]) auto
      next
        case ready: (Inr s)
        have key: "gr_idempotencyKey (snd s) = refundId" using load_refund_send[of gw refundId db s db1] Pair Inr ready by simp
        obtain won db2 where c: "claim_refund refundId db1 = Inr (won, db2)" by (cases "claim_refund refundId db1") (auto simp: claim_refund_def tbind_run)
        have claim: "refund_step gw (?w db1 (Ready s) sent) (?w db2 (if won then Claimed s else Ended AlreadyClaimed) sent)"
          using refund_step.claim[of "?w db1 (Ready s) sent" 0 s won db2 gw, OF at] c key by (simp add: set_run_def)
        have path: "(refund_step gw)\<^sup>*\<^sup>* (?w db (Queued refundId) sent) (?w db2 (if won then Claimed s else Ended AlreadyClaimed) sent)"
          using load claim ready by auto
        show ?thesis
        proof (cases won)
          case False
          then have "db' = db2 \<and> r = Inr AlreadyClaimed"
            using assms Pair Inr ready c by (simp add: processGatewayRefund_def abind_def areturn_def commit_def split: prod.splits)
          then show ?thesis using path False by (intro exI[of _ "[Ended AlreadyClaimed]"] exI[of _ sent]) simp
        next
          case True
          have send: "refund_step gw (?w db2 (Claimed s) sent)
              (?w db2 (case ga_refund gw (fst s) (snd s) of Inl e \<Rightarrow> Dead | Inr ref \<Rightarrow> Answered refundId ref) (sent @ [snd s]))"
            using refund_step.send[of "?w db2 (Claimed s) sent" 0 s gw, OF at] key by (simp add: set_run_def cong: sum.case_cong)
          show ?thesis
          proof (cases "ga_refund gw (fst s) (snd s)")
            case (Inl e)
            then have "db' = db2 \<and> r = Inl e"
              using assms Pair Inr ready c True by (simp add: processGatewayRefund_def abind_def areturn_def commit_def alift_def split: prod.splits)
            then show ?thesis using steps[OF path[unfolded if_P[OF True]] send] Inl by (intro exI[of _ "[Dead]"] exI[of _ "sent @ [snd s]"]) simp
          next
            case answer: (Inr ref)
            obtain db3 where rec: "record_refund refundId ref db2 = Inr ((), db3)" by (simp add: record_refund_def)
            have "refund_step gw (?w db2 (Answered refundId ref) (sent @ [snd s])) (?w db3 (Ended (Processing ref)) (sent @ [snd s]))"
              using refund_step.rec[of "?w db2 (Answered refundId ref) (sent @ [snd s])" 0 refundId ref "()" db3 gw, OF at] rec by (simp add: set_run_def)
            moreover have "db' = db3 \<and> r = Inr (Processing ref)"
              using assms Pair Inr ready c True answer rec
              by (simp add: processGatewayRefund_def abind_def areturn_def commit_def alift_def split: prod.splits)
            ultimately show ?thesis using steps[OF path[unfolded if_P[OF True]] send] answer
              by (intro exI[of _ "[Ended (Processing ref)]"] exI[of _ "sent @ [snd s]"]) (auto intro: steps)
          qed
        qed
      qed
    qed
  qed
qed

section \<open>What the intents keep\<close>

text \<open>
  Under every operation of the shop: ids of intents stay distinct, the intents in \<open>tokens\<close> have left
  \<open>pending\<close>, and each \<open>(id, amount)\<close> of \<open>known\<close> is an intent.
\<close>

definition intent_claimed :: "refund_row list \<Rightarrow> uuid \<Rightarrow> bool" where
  "intent_claimed fs i \<longleftrightarrow> list_ex (\<lambda>f. rf_id f = i) fs \<and> list_all (\<lambda>f. rf_id f \<noteq> i \<or> rf_status f \<noteq> refund_pending) fs"

definition intent_known :: "refund_row list \<Rightarrow> uuid \<times> paise \<Rightarrow> bool" where
  "intent_known fs k \<longleftrightarrow> list_ex (\<lambda>f. rf_id f = fst k \<and> rf_amountPaise f = snd k) fs"

definition intents_hold :: "uuid list \<Rightarrow> (uuid \<times> paise) list \<Rightarrow> refund_row list \<Rightarrow> bool" where
  "intents_hold tokens known fs \<longleftrightarrow> distinct (map rf_id fs) \<and> list_all (intent_claimed fs) tokens \<and> list_all (intent_known fs) known"

lemma intents_hold_upd:
  assumes "intents_hold tokens known fs"
    and "\<And>f. rf_id (g f) = rf_id f" "\<And>f. rf_amountPaise (g f) = rf_amountPaise f" "\<And>f. rf_status f \<noteq> refund_pending \<Longrightarrow> rf_status (g f) \<noteq> refund_pending"
  shows "intents_hold tokens known (upd Q g fs)"
proof -
  have ids: "map rf_id (upd Q g fs) = map rf_id fs" by (rule map_upd) (rule assms(2))
  have some: "list_ex (\<lambda>f. rf_id f = i) (upd Q g rows) = list_ex (\<lambda>f. rf_id f = i) rows" for i rows
    by (induction rows) (simp_all add: assms(2))
  have moved: "list_all (\<lambda>f. rf_id f \<noteq> i \<or> rf_status f \<noteq> refund_pending) rows \<Longrightarrow>
      list_all (\<lambda>f. rf_id f \<noteq> i \<or> rf_status f \<noteq> refund_pending) (upd Q g rows)" for i rows
    using assms(4) by (induction rows) (auto simp: assms(2))
  have amount: "list_ex (\<lambda>f. rf_id f = i \<and> rf_amountPaise f = n) (upd Q g rows) = list_ex (\<lambda>f. rf_id f = i \<and> rf_amountPaise f = n) rows" for i n rows
    by (induction rows) (simp_all add: assms(2,3))
  show ?thesis using assms(1) moved unfolding intents_hold_def ids intent_claimed_def intent_known_def some amount
    by (auto simp: list_all_iff)
qed

lemma intents_hold_snoc:
  assumes "intents_hold tokens known fs" "rf_id f \<notin> rf_id ` set fs"
  shows "intents_hold tokens known (fs @ [f])"
proof -
  have "intent_claimed (fs @ [f]) i" if "intent_claimed fs i" for i
  proof -
    have "rf_id f \<noteq> i" using that assms(2) by (auto simp: intent_claimed_def list_ex_iff)
    then show ?thesis using that by (simp add: intent_claimed_def)
  qed
  then show ?thesis using assms by (auto simp: intents_hold_def list_all_iff intent_known_def)
qed


interpretation refund_rows: book_parts "\<lambda>db. intents_hold tokens known (db_refunds db)" for tokens known
proof unfold_locales
  show "intents_hold tokens known (db_refunds (books db)) = intents_hold tokens known (db_refunds db)" for db
    by (simp add: books_def)
  show "keeps (\<lambda>db. intents_hold tokens known (db_refunds db)) (createRefundIntent ri)" for ri
  proof (rule keepsI)
    fix db x db'
    assume hold: "intents_hold tokens known (db_refunds db)" and run: "createRefundIntent ri db = Inr (x, db')"
    have "db_refunds db' = db_refunds db \<or> (\<exists>f. db_refunds db' = db_refunds db @ [f] \<and> rf_id f \<notin> rf_id ` set (db_refunds db))"
      using run by (auto simp: createRefundIntent_def tbind_run list_ex_iff split: option.splits if_splits) blast
    then show "intents_hold tokens known (db_refunds db')" using hold intents_hold_snoc by auto
  qed
  show "keeps (\<lambda>db. intents_hold tokens known (db_refunds db)) (twrite (\<lambda>db. db\<lparr>db_refunds :=
      upd Q (\<lambda>f. f\<lparr>rf_status := st, rf_gatewayRefundId := g f\<rparr>) (db_refunds db)\<rparr>))" if "st \<noteq> refund_pending" for Q st g
    by (rule keeps_write, simp, rule intents_hold_upd) (simp_all add: that)
qed (rule keeps_off, rule off_tables, simp add: hide_defs)+

section \<open>What the runs keep\<close>

fun run_tokens :: "refund_run \<Rightarrow> uuid list" where
  "run_tokens (Claimed s) = [gr_idempotencyKey (snd s)]"
| "run_tokens r = []"

definition facts_of :: "refund_request \<Rightarrow> uuid \<times> paise" where
  "facts_of q = (gr_idempotencyKey q, gr_amountPaise q)"

fun run_facts :: "refund_run \<Rightarrow> (uuid \<times> paise) list" where
  "run_facts (Ready s) = [facts_of (snd s)]"
| "run_facts (Claimed s) = [facts_of (snd s)]"
| "run_facts r = []"

text \<open>An intent is taken while a run holds its claim, and for good once its request was sent.\<close>

definition taken_of :: "refund_world \<Rightarrow> uuid list" where
  "taken_of w = concat (map run_tokens (rw_runs w)) @ map gr_idempotencyKey (rw_sent w)"

definition facts_in :: "refund_world \<Rightarrow> (uuid \<times> paise) list" where
  "facts_in w = concat (map run_facts (rw_runs w)) @ map facts_of (rw_sent w)"

definition refund_world_ok :: "refund_world \<Rightarrow> bool" where
  "refund_world_ok w \<longleftrightarrow> distinct (taken_of w) \<and> intents_hold (taken_of w) (facts_in w) (db_refunds (rw_db w)) \<and> money_ok (rw_db w)"

lemma run_split:
  assumes "at_run w i r"
  obtains xs ys where "rw_runs w = xs @ r # ys" "\<forall>r'. (xs @ r # ys)[i := r'] = xs @ r' # ys"
proof -
  have i: "i < length (rw_runs w)" "rw_runs w ! i = r" using assms by (simp_all add: at_run_def)
  have "rw_runs w = take i (rw_runs w) @ r # drop (Suc i) (rw_runs w)" using id_take_nth_drop[OF i(1)] i(2) by simp
  moreover have "length (take i (rw_runs w)) = i" using i(1) by simp
  then have "\<forall>r'. (take i (rw_runs w) @ r # drop (Suc i) (rw_runs w))[i := r'] = take i (rw_runs w) @ r' # drop (Suc i) (rw_runs w)"
    by (metis list_update_length)
  ultimately show thesis by (rule that)
qed

lemma intents_hold_mono:
  "intents_hold tokens known fs \<Longrightarrow> set tokens' \<subseteq> set tokens \<Longrightarrow> set known' \<subseteq> set known \<Longrightarrow> intents_hold tokens' known' fs"
  by (auto simp: intents_hold_def list_all_iff)

lemma claim_refund_run:
  "claim_refund i db = Inr (list_ex (refund_claimable i) (db_refunds db),
     db\<lparr>db_refunds := upd (refund_claimable i) (\<lambda>f. f\<lparr>rf_status := refund_processing\<rparr>) (db_refunds db)\<rparr>)"
  by (simp add: claim_refund_def tbind_run)

lemma claimable_not_claimed: "list_ex (refund_claimable i) fs \<Longrightarrow> \<not> intent_claimed fs i"
  by (auto simp: refund_claimable_def intent_claimed_def list_ex_iff list_all_iff)

lemma claimed_now: "list_ex (refund_claimable i) fs \<Longrightarrow>
    intent_claimed (upd (refund_claimable i) (\<lambda>f. f\<lparr>rf_status := refund_processing\<rparr>) fs) i"
proof -
  assume "list_ex (refund_claimable i) fs"
  moreover have "list_ex (refund_claimable i) fs \<Longrightarrow> list_ex (\<lambda>f. rf_id f = i) (upd (refund_claimable i) (\<lambda>f. f\<lparr>rf_status := refund_processing\<rparr>) fs)"
    by (induction fs) (auto simp: refund_claimable_def)
  moreover have "list_all (\<lambda>f. rf_id f \<noteq> i \<or> rf_status f \<noteq> refund_pending) (upd (refund_claimable i) (\<lambda>f. f\<lparr>rf_status := refund_processing\<rparr>) fs)"
    by (induction fs) (auto simp: refund_claimable_def)
  ultimately show ?thesis by (simp add: intent_claimed_def)
qed

lemma money_same_view: "view db' = view db \<Longrightarrow> money_ok db \<Longrightarrow> money_ok db'"
  by (simp add: money_ok_def)

lemma view_refund_upd: "(\<And>f. intent_of (g f) = intent_of f) \<Longrightarrow> view (db\<lparr>db_refunds := upd Q g (db_refunds db)\<rparr>) = view db"
  by (rule view_eqI) (simp_all add: map_upd)

lemma refund_world_step:
  assumes "refund_step gw w w'" "refund_world_ok w"
  shows "refund_world_ok w'"
  using assms
proof cases
  case (deliver refundId)
  then show ?thesis using assms(2) by (simp add: refund_world_ok_def taken_of_def facts_in_def)
next
  case (load i refundId loaded db')
  obtain xs ys where at: "rw_runs w = xs @ Queued refundId # ys" "\<forall>r'. (xs @ Queued refundId # ys)[i := r'] = xs @ r' # ys" by (rule run_split[OF load(2)])
  note same = load_refund_same[OF load(3)]
  show ?thesis
  proof (cases loaded)
    case (Inl outcome)
    have "taken_of w' = taken_of w" "facts_in w' = facts_in w" "rw_db w' = rw_db w"
      by (simp_all add: load(1) same Inl set_run_def taken_of_def facts_in_def at)
    then show ?thesis using assms(2) by (simp add: refund_world_ok_def)
  next
    case (Inr s)
    then have "intent_known (db_refunds (rw_db w)) (facts_of (snd s))"
      using load_refund_send[of gw refundId "rw_db w" s db'] load(3) by (simp add: intent_known_def facts_of_def)
    then have "intents_hold (taken_of w) (facts_of (snd s) # facts_in w) (db_refunds (rw_db w))"
      using assms(2) by (simp add: refund_world_ok_def intents_hold_def)
    then have "intents_hold (taken_of w') (facts_in w') (db_refunds (rw_db w))"
      by (rule intents_hold_mono) (auto simp: load(1) Inr set_run_def taken_of_def facts_in_def at)
    moreover have "taken_of w' = taken_of w" by (simp add: load(1) Inr set_run_def taken_of_def at)
    ultimately show ?thesis using assms(2) by (simp add: refund_world_ok_def load(1) same set_run_def)
  qed
next
  case (claim i s won db')
  obtain xs ys where at: "rw_runs w = xs @ Ready s # ys" "\<forall>r'. (xs @ Ready s # ys)[i := r'] = xs @ r' # ys" by (rule run_split[OF claim(2)])
  let ?k = "gr_idempotencyKey (snd s)" and ?fs = "db_refunds (rw_db w)"
  have c: "won = list_ex (refund_claimable ?k) ?fs" and db': "db' = rw_db w\<lparr>db_refunds := upd (refund_claimable ?k) (\<lambda>f. f\<lparr>rf_status := refund_processing\<rparr>) ?fs\<rparr>"
    using claim(3) by (simp_all add: claim_refund_run)
  have rows: "intents_hold (taken_of w) (facts_in w) (db_refunds db')"
    unfolding db' using assms(2) by (simp add: refund_world_ok_def) (rule intents_hold_upd, simp_all)
  have money: "money_ok db'" unfolding db'
    using assms(2) by (intro money_same_view[OF view_refund_upd]) (simp_all add: intent_of_def refund_world_ok_def)
  show ?thesis
  proof (cases won)
    case True
    then have new: "?k \<notin> set (taken_of w)" using claimable_not_claimed[of ?k ?fs] c assms(2) by (auto simp: refund_world_ok_def intents_hold_def list_all_iff)
    have "intents_hold (?k # taken_of w) (facts_in w) (db_refunds db')"
      using rows claimed_now[of ?k ?fs] True by (simp add: intents_hold_def c db')
    moreover have "set (taken_of w') = set (?k # taken_of w)" "facts_in w' = facts_in w" "distinct (taken_of w')"
      using new assms(2) True by (auto simp: refund_world_ok_def claim(1) set_run_def taken_of_def facts_in_def at)
    ultimately show ?thesis using money by (auto simp: refund_world_ok_def claim(1) set_run_def intro: intents_hold_mono)
  next
    case False
    have "intents_hold (taken_of w') (facts_in w') (db_refunds db')"
      by (rule intents_hold_mono[OF rows]) (auto simp: claim(1) False set_run_def taken_of_def facts_in_def at)
    moreover have "taken_of w' = taken_of w" using False by (simp add: claim(1) set_run_def taken_of_def at)
    ultimately show ?thesis using money assms(2) by (simp add: refund_world_ok_def claim(1) set_run_def)
  qed
next
  case (send i s)
  obtain xs ys where at: "rw_runs w = xs @ Claimed s # ys" "\<forall>r'. (xs @ Claimed s # ys)[i := r'] = xs @ r' # ys" by (rule run_split[OF send(2)])
  obtain r' where w': "w' = set_run i r' (w\<lparr>rw_sent := rw_sent w @ [snd s]\<rparr>)" "run_tokens r' = []" "run_facts r' = []"
    using send(1) by (cases "ga_refund gw (fst s) (snd s)") auto
  have "set (taken_of w') = set (taken_of w)" "set (facts_in w') = set (facts_in w)" "distinct (taken_of w') = distinct (taken_of w)"
    by (auto simp: w' set_run_def taken_of_def facts_in_def at)
  then show ?thesis using assms(2) by (auto simp: refund_world_ok_def w'(1) set_run_def intro: intents_hold_mono)
next
  case (rec i refundId ref u db')
  obtain xs ys where at: "rw_runs w = xs @ Answered refundId ref # ys" "\<forall>r'. (xs @ Answered refundId ref # ys)[i := r'] = xs @ r' # ys" by (rule run_split[OF rec(2)])
  have same: "taken_of w' = taken_of w" "facts_in w' = facts_in w" by (simp_all add: rec(1) set_run_def taken_of_def facts_in_def at)
  have db': "db' = rw_db w\<lparr>db_refunds := upd (\<lambda>f. rf_id f = refundId \<and> rf_gatewayRefundId f = None)
      (\<lambda>f. f\<lparr>rf_gatewayRefundId := Some ref\<rparr>) (db_refunds (rw_db w))\<rparr>" using rec(3) by (simp add: record_refund_def)
  have "intents_hold (taken_of w) (facts_in w) (db_refunds db')"
    unfolding db' using assms(2) by (simp add: refund_world_ok_def) (rule intents_hold_upd, simp_all)
  moreover have "money_ok db'" unfolding db'
    using assms(2) by (intro money_same_view[OF view_refund_upd]) (simp_all add: intent_of_def refund_world_ok_def)
  ultimately show ?thesis using assms(2) by (simp add: refund_world_ok_def same) (simp add: rec(1) set_run_def)
next
  case (die i r)
  obtain xs ys where at: "rw_runs w = xs @ r # ys" "\<forall>r'. (xs @ r # ys)[i := r'] = xs @ r' # ys" by (rule run_split[OF die(2)])
  have "set (taken_of w') \<subseteq> set (taken_of w)" "set (facts_in w') \<subseteq> set (facts_in w)" "distinct (taken_of w) \<Longrightarrow> distinct (taken_of w')"
    by (auto simp: die(1) set_run_def taken_of_def facts_in_def at)
  then show ?thesis using assms(2) by (auto simp: refund_world_ok_def die(1) set_run_def intro: intents_hold_mono)
next
  case (shop op)
  have same: "taken_of w' = taken_of w" "facts_in w' = facts_in w" by (simp_all add: shop taken_of_def facts_in_def)
  have "money_ok (exec_commerce op (rw_db w))" using run_flows(1)[of "rw_db w" "[op]"] assms(2) by (simp add: refund_world_ok_def run_ops_def)
  then show ?thesis using assms(2) refund_rows.whole.exec_keeps by (simp add: refund_world_ok_def same) (simp add: shop)
qed

lemma refund_start_ok: "refund_start w \<Longrightarrow> refund_world_ok w"
proof -
  assume start: "refund_start w"
  have waiting: "list_all (\<lambda>r. case r of Queued refundId \<Rightarrow> True | _ \<Rightarrow> False) rs \<Longrightarrow> concat (map run_tokens rs) = [] \<and> concat (map run_facts rs) = []" for rs
    by (induction rs) (auto split: refund_run.splits)
  have "taken_of w = [] \<and> facts_in w = []" using start waiting[of "rw_runs w"] by (simp add: refund_start_def taken_of_def facts_in_def)
  then show ?thesis using start by (simp add: refund_start_def refund_world_ok_def intents_hold_def)
qed

lemma refund_worlds_ok: "(refund_step gw)\<^sup>*\<^sup>* w0 w \<Longrightarrow> refund_world_ok w0 \<Longrightarrow> refund_world_ok w"
  by (induction rule: rtranclp_induct) (auto intro: refund_world_step)

section \<open>Property\<close>

definition refunded_at_gateway :: "refund_world \<Rightarrow> uuid \<Rightarrow> paise" where
  "refunded_at_gateway w paymentId = sum_list (map gr_amountPaise (filter (\<lambda>q. list_ex (\<lambda>f. rf_id f = gr_idempotencyKey q \<and>
     rf_paymentId f = paymentId) (db_refunds (rw_db w))) (rw_sent w)))"

lemma filter_single:
  assumes "distinct (map key xs)" "\<And>x y. x \<in> set xs \<Longrightarrow> y \<in> set xs \<Longrightarrow> P x \<Longrightarrow> P y \<Longrightarrow> key x = key y"
  obtains "filter P xs = []" | x where "x \<in> set xs" "P x" "filter P xs = [x]"
proof (cases "filter P xs")
  case (Cons x ys)
  have d: "distinct (map key (filter P xs))" using assms(1) by (simp add: distinct_map inj_on_def)
  have all: "y \<in> set xs \<and> P y" if "y \<in> set (x # ys)" for y using that unfolding Cons[symmetric] by simp
  have "ys = []"
  proof (cases ys)
    case (Cons y zs)
    then show ?thesis using d assms(2)[of x y] all[of x] all[of y] \<open>filter P xs = x # ys\<close> by simp
  qed
  then show thesis using that(2)[of x] all[of x] Cons by simp
qed (rule that(1))

lemma sent_row:
  assumes "refund_world_ok w" "q \<in> set (rw_sent w)"
  shows "\<exists>f \<in> set (db_refunds (rw_db w)). rf_id f = gr_idempotencyKey q \<and> rf_status f \<noteq> refund_pending \<and> rf_amountPaise f = gr_amountPaise q"
proof -
  let ?fs = "db_refunds (rw_db w)"
  have "intent_claimed ?fs (gr_idempotencyKey q)" "intent_known ?fs (facts_of q)"
    using assms by (auto simp: refund_world_ok_def intents_hold_def taken_of_def facts_in_def list_all_iff)
  then obtain f where f: "f \<in> set ?fs" "rf_id f = gr_idempotencyKey q" "rf_amountPaise f = gr_amountPaise q"
    and moved: "list_all (\<lambda>f. rf_id f \<noteq> gr_idempotencyKey q \<or> rf_status f \<noteq> refund_pending) ?fs"
    by (auto simp: intent_claimed_def intent_known_def facts_of_def list_ex_iff)
  have "rf_status f \<noteq> refund_pending" using moved f(1,2) unfolding list_all_iff by blast
  then show ?thesis using f by blast
qed

lemma refunded_whole:
  assumes "refund_world_ok w" "p \<in> set (db_payments (rw_db w))"
  shows "refunded_at_gateway w (py_id p) = 0 \<or> py_status p = pay_captured \<and> refunded_at_gateway w (py_id p) = py_amountPaise p"
proof -
  let ?fs = "db_refunds (rw_db w)" and ?ps = "db_payments (rw_db w)"
  note ok = assms(1) and p = assms(2) and row = sent_row[OF assms(1)]
  have keys: "distinct (map gr_idempotencyKey (rw_sent w))" using ok by (simp add: refund_world_ok_def taken_of_def)
  have ids: "distinct (map rf_id ?fs)" using ok by (simp add: refund_world_ok_def intents_hold_def)
  have sound: "sound None 0 (view (rw_db w))" using ok by (simp add: refund_world_ok_def money_ok_def)
  have payments: "distinct (map py_id ?ps)" "distinct (map rf_paymentId ?fs)"
    using soundD(1)[OF sound] by (simp_all add: keyed_def comp_def)
  let ?P = "\<lambda>q. list_ex (\<lambda>f. rf_id f = gr_idempotencyKey q \<and> rf_paymentId f = py_id p) ?fs"
  have same: "gr_idempotencyKey x = gr_idempotencyKey y" if x: "?P x" and y: "?P y" for x y
  proof -
    obtain f where f: "f \<in> set ?fs" "rf_id f = gr_idempotencyKey x" "rf_paymentId f = py_id p" using x by (auto simp: list_ex_iff)
    obtain g where g: "g \<in> set ?fs" "rf_id g = gr_idempotencyKey y" "rf_paymentId g = py_id p" using y by (auto simp: list_ex_iff)
    have "f = g" using f g payments(2) by (simp add: distinct_map inj_on_def)
    then show ?thesis using f(2) g(2) by simp
  qed
  consider (none) "filter ?P (rw_sent w) = []" | (one) q where "q \<in> set (rw_sent w)" "?P q" "filter ?P (rw_sent w) = [q]"
    by (rule filter_single[OF keys, of ?P]) (use same in blast)+
  then show ?thesis
  proof cases
    case none
    then show ?thesis by (simp add: refunded_at_gateway_def)
  next
    case (one q)
    obtain f where f: "f \<in> set ?fs" "rf_id f = gr_idempotencyKey q" "rf_paymentId f = py_id p" using one(2) by (auto simp: list_ex_iff)
    obtain f' where f': "f' \<in> set ?fs" "rf_id f' = gr_idempotencyKey q" "rf_amountPaise f' = gr_amountPaise q" using row[OF one(1)] by blast
    have "f' = f" using f f' ids by (simp add: distinct_map inj_on_def)
    obtain a where a: "a \<in> set ?ps" "py_status a = pay_captured" "py_id a = rf_paymentId f" "py_amountPaise a = rf_amountPaise f"
      using soundD(3)[OF sound] f(1) by (auto simp: intents_ok_def)
    have "a = p" using a(1,3) p f(3) payments(1) by (simp add: distinct_map inj_on_def)
    then show ?thesis using one(3) a f' \<open>f' = f\<close> by (simp add: refunded_at_gateway_def)
  qed
qed

text \<open>
  C9.  Money goes back at most once.  However often the queue delivers a refund, however many workers
  run at once, wherever they die and whatever else the shop does meanwhile, the gateway is asked at most once for
  each refund intent, with the amount of the intent and after the intent was claimed; and what it is
  asked to return of a payment is nothing or exactly what was captured.
\<close>

theorem refunds_sent_at_most_once:
  assumes "refund_start w0" "(refund_step gw)\<^sup>*\<^sup>* w0 w"
  shows "distinct (map gr_idempotencyKey (rw_sent w)) \<and>
    (\<forall>q \<in> set (rw_sent w). \<exists>f \<in> set (db_refunds (rw_db w)). rf_id f = gr_idempotencyKey q \<and> rf_status f \<noteq> refund_pending \<and> rf_amountPaise f = gr_amountPaise q) \<and>
    (\<forall>p \<in> set (db_payments (rw_db w)). refunded_at_gateway w (py_id p) = 0 \<or>
       py_status p = pay_captured \<and> refunded_at_gateway w (py_id p) = py_amountPaise p)"
proof -
  have ok: "refund_world_ok w" by (rule refund_worlds_ok[OF assms(2) refund_start_ok[OF assms(1)]])
  then have "distinct (map gr_idempotencyKey (rw_sent w))" by (simp add: refund_world_ok_def taken_of_def)
  then show ?thesis using sent_row[OF ok] refunded_whole[OF ok] by blast
qed

text \<open>A refund delivered twice: both runs read it, one wins the claim and asks, the other stands down.\<close>

definition sample_gateway :: refund_gateway where
  "sample_gateway = \<lparr>ga_open = (\<lambda>account. Inr ''creds''), ga_refund = (\<lambda>creds request. Inr ''rfnd_1'')\<rparr>"

definition refund_shop :: db where
  "refund_shop = oversold_sample\<lparr>db_paymentAccounts := [\<lparr>pa_id = 90, pa_providerCode = razorpay, pa_label = ''main'', pa_publicKeyId = ''key'',
     pa_sealedCredentials = ''sealed'', pa_sealedWebhookSecret = ''sealed'', pa_credentialFingerprint = ''fp'', pa_isEnabled = True, pa_updatedAt = 0\<rparr>]\<rparr>"

lemma refund_shop_rows:
  obtains f p ref where "db_refunds refund_shop = [f]" "db_payments refund_shop = [p]" "rf_amountPaise f = 23600" "rf_status f = refund_pending"
    "py_id p = rf_paymentId f" "py_gatewayPaymentId p = Some ref" "ref \<noteq> []"
proof -
  have "(case (db_refunds oversold_sample, db_payments oversold_sample) of ([f], [p]) \<Rightarrow> rf_amountPaise f = 23600 \<and> rf_status f = refund_pending \<and>
      py_id p = rf_paymentId f \<and> (\<exists>ref. py_gatewayPaymentId p = Some ref \<and> ref \<noteq> []) | _ \<Rightarrow> False)"
    unfolding oversold_sample_def by (simp add: processCaptured_def shop_eval confirm_eval oversold_eval)
  then show thesis using that by (auto simp: refund_shop_def split: list.splits)
qed

lemma refund_shop_ok: "money_ok refund_shop"
proof -
  have run: "oversold_sample = run_ops exec_commerce [CoWebhook 70 sample_capture] (sample_shop prepaid 1000 1)"
    by (simp add: run_ops_def oversold_sample_def confirmFromWebhookEvent_def sample_capture_def)
  have "money_ok oversold_sample" unfolding run by (rule run_flows(1)[OF money_ok_sample])
  then show ?thesis by (rule money_same_view[rotated]) (simp add: refund_shop_def view_def)
qed

theorem refunds_sent_at_most_once_witness:
  "\<exists>w (f :: refund_row). (refund_step sample_gateway)\<^sup>*\<^sup>* \<lparr>rw_db = refund_shop, rw_runs = [Queued (rf_id f), Queued (rf_id f)], rw_sent = []\<rparr> w \<and>
     map gr_amountPaise (rw_sent w) = [23600] \<and> distinct (map gr_idempotencyKey (rw_sent w)) \<and>
     refunded_at_gateway w (rf_paymentId f) = 23600"
proof -
  obtain f p ref where rows: "db_refunds refund_shop = [f]" "db_payments refund_shop = [p]" "rf_amountPaise f = 23600" "rf_status f = refund_pending"
    "py_id p = rf_paymentId f" "py_gatewayPaymentId p = Some ref" "ref \<noteq> []" by (rule refund_shop_rows)
  define q where "q = \<lparr>gr_gatewayPaymentId = ref, gr_amountPaise = 23600, gr_idempotencyKey = rf_id f\<rparr>"
  define won where "won = refund_shop\<lparr>db_refunds := [f\<lparr>rf_status := refund_processing\<rparr>]\<rparr>"
  let ?w = "\<lambda>db rs sent. \<lparr>rw_db = db, rw_runs = rs, rw_sent = sent\<rparr>" and ?q = "Queued (rf_id f)" and ?r = "Ready (''creds'', q)"
  let ?step = "refund_step sample_gateway"
  have load: "load_refund sample_gateway (rf_id f) refund_shop = (Inr (Inr (''creds'', q)), refund_shop)"
    using rows by (simp add: load_refund_def getRefundForProcessing_def getEnabledAccount_def commit_def tbind_run abind_def areturn_def alift_def
      sample_gateway_def q_def) (simp add: refund_shop_def abind_def alift_def areturn_def)
  have claim: "claim_refund (rf_id f) refund_shop = Inr (True, won)" "claim_refund (rf_id f) won = Inr (False, won)"
    using rows by (simp_all add: claim_refund_run refund_claimable_def won_def)
  have s1: "?step (?w refund_shop [?q, ?q] []) (?w refund_shop [?r, ?q] [])"
    using refund_step.load[of "?w refund_shop [?q, ?q] []" 0 "rf_id f" sample_gateway] load by (simp add: at_run_def set_run_def)
  have s2: "?step (?w refund_shop [?r, ?q] []) (?w refund_shop [?r, ?r] [])"
    using refund_step.load[of "?w refund_shop [?r, ?q] []" 1 "rf_id f" sample_gateway] load by (simp add: at_run_def set_run_def)
  have s3: "?step (?w refund_shop [?r, ?r] []) (?w won [Claimed (''creds'', q), ?r] [])"
    using refund_step.claim[of "?w refund_shop [?r, ?r] []" 0 "(''creds'', q)" True] claim(1) by (simp add: at_run_def set_run_def q_def)
  have s4: "?step (?w won [Claimed (''creds'', q), ?r] []) (?w won [Claimed (''creds'', q), Ended AlreadyClaimed] [])"
    using refund_step.claim[of "?w won [Claimed (''creds'', q), ?r] []" 1 "(''creds'', q)" False] claim(2) by (simp add: at_run_def set_run_def q_def)
  have s5: "?step (?w won [Claimed (''creds'', q), Ended AlreadyClaimed] []) (?w won [Answered (rf_id f) ''rfnd_1'', Ended AlreadyClaimed] [q])"
    using refund_step.send[of "?w won [Claimed (''creds'', q), Ended AlreadyClaimed] []" 0 "(''creds'', q)" sample_gateway]
    by (simp add: at_run_def set_run_def sample_gateway_def q_def)
  have run: "?step\<^sup>*\<^sup>* (?w refund_shop [?q, ?q] []) (?w won [Answered (rf_id f) ''rfnd_1'', Ended AlreadyClaimed] [q])"
    using s1 s2 s3 s4 s5 by (meson rtranclp.rtrancl_into_rtrancl rtranclp.rtrancl_refl)
  have start: "refund_start (?w refund_shop [?q, ?q] [])" using refund_shop_ok by (simp add: refund_start_def rows(1))
  let ?fin = "?w won [Answered (rf_id f) ''rfnd_1'', Ended AlreadyClaimed] [q]"
  have once: "distinct (map gr_idempotencyKey (rw_sent ?fin))" by (rule refunds_sent_at_most_once[OF start run, THEN conjunct1])
  have amounts: "map gr_amountPaise (rw_sent ?fin) = [23600]" "refunded_at_gateway ?fin (rf_paymentId f) = 23600"
    by (simp_all add: won_def q_def refunded_at_gateway_def)
  show ?thesis by (rule exI[of _ ?fin], rule exI[of _ f], rule conjI[OF run conjI[OF amounts(1) conjI[OF once amounts(2)]]])
qed

end
