(* ===== verification/Spec2Isabelle.thy ===== *)
theory Spec2Isabelle
  imports StockPromises Tax Promotions Orders PaymentSplit Serviceability Shipments InvoiceLaws MoneyLaws Fingerprint
    CsvRoundtrip CsvImport SlugHistory CategoryTree ImportKeeps CartLaws HostingLaws RefundJob
begin

text \<open>
  A verification development of the commerce platform: the core library \<open>packages/core/src\<close>, the schema it writes
  (\<open>packages/db/src/schema\<close>), the refund and domain jobs of \<open>apps/worker\<close> and the sign-in routes of
  \<open>apps/console\<close>.  Definitions keep the names of the functions they translate.

  \<^bold>\<open>The program.\<close>  A merchant's console authors a catalog and adjusts stock; a storefront fills carts and starts
  checkouts; gateway webhooks, a sweep and the staff move the orders that come of them; a worker sends
  refunds.  All state is in PostgreSQL, one tenant per transaction, save the rate limits and host caches
  in Redis.  The calls between the parts are the ones between the theories: checkout calls
  inventory (hold, consume, release), payments, promotions, customers, invoices and the status door of orders;
  the cart reads inventory and promotions; the import runner calls CSV, options, slugs and the catalog writers; signing in
  calls codes, rate limits and permissions.

  \<^bold>\<open>Foundations.\<close>
  \<^item> Prelude: the JavaScript library as far as the code uses it, \<open>UPDATE .. WHERE\<close> as \<open>upd\<close>, list lemmas.
  \<^item> Errors (\<open>errors.ts\<close>), Enums (\<open>enums.ts\<close>), Settings (\<open>store_settings\<close> JSON with defaults).
  \<^item> Tx: a function that takes a \<open>tx\<close> is state passing with an error value, and \<open>commit\<close> makes an action of it that
    leaves the state alone when it fails (rollback).  \<open>keeps\<close> and \<open>akeeps\<close> say that a predicate survives, with
    one rule per combinator, so that an invariant is proved by following the code.
  \<^item> Machines: the contract of status vocabularies, and \<open>invariant_system\<close>, the operations of a component in any order.
  \<^item> Store: the tables of one tenant as a record \<open>db\<close> of lists of rows, its clock and its stream of uuids.  Primary
    keys, unique indexes and CHECK constraints are guards of the writers, with the constraint's name in the error.

  \<^bold>\<open>Selling.\<close>
  \<^item> Inventory (\<open>inventory/server.ts\<close>), InventoryLaws, StockPromises: ledger, levels, holds, sales, restocks.  The invariant
    \<open>stock_safe\<close>, holds that guarantee their sale, exact and repeatable movements.
  \<^item> Tax, Apportion, Promotions, PaymentSplit, Serviceability, InvoiceFormat: the pure engines (\<open>tax/index.ts\<close>,
    \<open>promotions/index.ts\<close>, \<open>payments/index.ts\<close>, \<open>serviceability\<close>, \<open>invoices/index.ts\<close>).  Both splits of the code over lines meet
    the one contract \<open>apportionment\<close>.
  \<^item> Orders and Shipments: the two status machines (\<open>orders/index.ts\<close>, \<open>logistics/status.ts\<close>); OrdersServer: the status door
    and the manual ladder; Customers, PaymentsServer, PromotionsServer, InvoicesServer: the writers of their tables.
  \<^item> Checkout, CheckoutFlows (\<open>checkout/server.ts\<close>), Fingerprint (\<open>checkout/index.ts\<close>): validation, placing, confirming,
    replay, webhooks, expiry, cancelling.
  \<^item> CheckoutLaws, BookParts: what an invariant of the order books has to promise, per handler or per writer.  On these
    locales rest OrderHistory (timelines, nothing rewritten), InvoiceLaws (gapless numbers), RedemptionLaws (coupon
    limits), CartLaws and RefundJob.
  \<^item> Ledger: the abstract money machine, eleven steps.  LedgerView reads a ledger off the tables; MoneyLaws proves that every
    handler is a sequence of its steps (refinement), hence that money is accounted for.
  \<^item> RefundJob (\<open>worker/src/jobs/gateway-refund.ts\<close>): the job cut at its awaits, any number of runs interleaved with each
    other, with crashes and with everything above.
  \<^item> Cart (\<open>cart/server.ts\<close>), CartLaws: the lines, the view and the coupon preview; a cart as a map, its bounds, and that
    it quotes what checkout charges.

  \<^bold>\<open>The catalog.\<close>
  \<^item> CsvText, CsvCatalog (\<open>catalog/csv.ts\<close>), CsvRoundtrip, CsvImport: reader, writer, drafts; exports read back, and clean files are
    read completely.
  \<^item> CatalogMoney, Slug, Options, Categories (\<open>money.ts\<close>, \<open>slug.ts\<close>, \<open>options.ts\<close>, \<open>categories.ts\<close>): amounts, slugs, option matrices, trees.
  \<^item> CatalogWrites (\<open>writes.ts\<close>) on a state \<open>catalog_db\<close> of its own, CatalogVariants, SlugHistory, CategoryTree: every writer and what all of them
    together keep: variant constraints, addresses that never break, a forest of categories.
  \<^item> CatalogImport (\<open>bulk.ts\<close>, the export queries of \<open>console-queries.ts\<close>), ImportLaws, ImportKeeps: the import as merge and write in one
    transaction; dry runs preview it, an export imports as no change, and omission is not deletion.

  \<^bold>\<open>The control plane.\<close>
  \<^item> Permissions, Otp, Identity (\<open>identity/permissions.ts\<close>, \<open>otp.ts\<close>, \<open>rate-limit.ts\<close>, \<open>auth.ts\<close>, \<open>sessions.ts\<close> and the routes), IdentityLaws: codes, limits,
    sessions, on the state \<open>platform\<close>.
  \<^item> Hosting (\<open>tenancy/resolve.ts\<close>, \<open>settings.ts\<close>, \<open>indexing.ts\<close>, \<open>verify-domain.ts\<close>), HostingLaws: host names, their caches, how stale an answer can be.

  \<^bold>\<open>Properties.\<close>  The theorem after a text with a number \<open>C1\<close>, \<open>C2\<close>, .. is one; a theorem named after it with the
  suffix \<open>witness\<close> applies it at a concrete state.  Properties of handlers speak of \<open>run_ops exec ops\<close>, the state after any
  list of operations, so of every reachable state.

  \<^bold>\<open>Recursion and bounds.\<close>  Every definition is total.  The walks over categories end on cyclic data
  because they remember what they saw; only the breadcrumb takes fuel, the 32 levels
  (\<open>MAX_DEPTH\<close>) at which the code stops too.  The slug search stops after \<open>maxAttempts\<close> as the code does, and the search for a
  year ends because a step brings the day closer.  Numbers of TypeScript are \<open>int\<close>, guarded by \<open>is_safe_integer\<close> where the code asks;
  \<open>integer\<close> columns refuse what exceeds 32 bits (\<open>in_int4\<close>), and SHA-256 computes on \<open>32 word\<close>.

  \<^bold>\<open>Parameters.\<close>  What is not in the repository is an argument: the payment gateway, the sealing of credentials, the e-mail
  check of zod, the HTML sanitiser, DNS answers, delivery of a code, random numbers and tokens, the uuid generator and the clock.  Nothing
  is assumed of them but what a statement says.

  \<^bold>\<open>Not modelled.\<close>
  \<^item> Row locks and isolation: transactions run one after the other, as the locks of the code intend.  Other tenants: row level
    security (\<open>rls.ts\<close>, \<open>tenant-scope.ts\<close>) is a policy of PostgreSQL.  Foreign keys, and queue messages after a commit.
  \<^item> Queries that only list and search (\<open>catalog/queries.ts\<close>, \<open>orders/server.ts\<close>, the consoles' lists), order tokens (HMAC of \<open>checkout/server.ts\<close>), cache purges.
  \<^item> Floating point: \<open>discountPercent\<close>, carrier selection and parcel weights, the numbers of the promotion form.
  \<^item> Text for people: messages, \<open>formatPaise\<close>, masked phone numbers; \<open>localeCompare\<close> (\<open>buildCategoryTree\<close>); characters outside ASCII and the byte order
    mark of CSV files.
  \<^item> Adapters of gateways, carriers and storage, the AES envelope, media processing, the other route handlers and all user
    interface: input and output around the operations above.
\<close>

end
